(* ===== verification/Vnt_Prelude.thy ===== *)
theory Vnt_Prelude
  imports Main "HOL-Library.Word"
begin

text \<open>
  The vocabulary every component shares.

  \<^item> \<open>outcome\<close>: what a call of the Rust code can do. \<open>Ok\<close> and \<open>Err\<close> are the two values of
    \<open>io::Result\<close> / \<open>anyhow::Result\<close>; \<open>Panic\<close> is an abort (an index or slice out of range, a
    \<open>copy_from_slice\<close> of the wrong length, an \<open>unwrap\<close> of an error, a failed \<open>assert\<close>).
    \<open>obind\<close> is the \<open>?\<close> operator (a panic inside a callee is the caller's panic).
  \<^item> Byte buffers are lists of octets (\<open>u8 list\<close>), as \<open>AsRef<[u8]>\<close> gives them. The primitives
    \<open>byte_at\<close>, \<open>slice\<close>, \<open>put_byte\<close> and \<open>put_slice\<close> carry Rust's bounds checks.
  \<^item> \<open>usize\<close> values (lengths, offsets) are \<open>nat\<close>; \<open>usub\<close> is \<open>usize\<close> subtraction, whose underflow
    always reaches a failing bounds check in this code and so is a \<open>Panic\<close> here. Values the wire
    format gives a width keep it: \<open>u8\<close>, \<open>u16\<close>, \<open>u32\<close> arithmetic wraps, as in the release profile.
  \<^item> \<open>wire_enum\<close>: the interface of every \<open>enum\<close> with a \<open>From\<close>/\<open>Into\<close> pair for a wire code.
\<close>

unbundle bit_operations_syntax

section \<open>Machine integers\<close>

type_synonym u8 = "8 word"
type_synonym u16 = "16 word"
type_synonym u32 = "32 word"
type_synonym u64 = "64 word"
type_synonym bytes = "u8 list"
type_synonym ipv4_addr = u32

named_theorems buf_simps "bounds-checked buffer primitives on buffers known to be long enough"
named_theorems outcome_simps "sequencing of outcomes"

section \<open>Outcomes\<close>

datatype error_kind =
    InvalidData | NotFound | WouldBlock | WriteZero | ConnectionRefused | OtherKind

datatype vnt_error = IoError error_kind | AnyError string

datatype 'a outcome = Ok 'a | Err vnt_error | Panic

primrec obind :: "'a outcome \<Rightarrow> ('a \<Rightarrow> 'b outcome) \<Rightarrow> 'b outcome" where
  "obind (Ok x) f = f x"
| "obind (Err e) f = Err e"
| "obind Panic f = Panic"

primrec omap :: "('a \<Rightarrow> 'b) \<Rightarrow> 'a outcome \<Rightarrow> 'b outcome" where
  "omap f (Ok x) = Ok (f x)"
| "omap f (Err e) = Err e"
| "omap f Panic = Panic"

text \<open>A run of setters on one buffer, each of which may panic: \<open>p.f(); p.g(); ...\<close>.\<close>

fun oseq :: "('a \<Rightarrow> 'a outcome) list \<Rightarrow> 'a \<Rightarrow> 'a outcome" where
  "oseq [] x = Ok x"
| "oseq (f # fs) x = obind (f x) (oseq fs)"

definition is_ok :: "'a outcome \<Rightarrow> bool" where
  "is_ok r = (case r of Ok _ \<Rightarrow> True | _ \<Rightarrow> False)"

lemma is_ok_simps [simp, outcome_simps]:
  "is_ok (Ok x)" "\<not> is_ok (Err e)" "\<not> is_ok Panic"
  by (simp_all add: is_ok_def)

lemma obind_Ok_iff [outcome_simps]:
  "obind r f = Ok y \<longleftrightarrow> (\<exists>x. r = Ok x \<and> f x = Ok y)"
  by (cases r) auto

lemma obind_Err_iff [outcome_simps]:
  "obind r f = Err e \<longleftrightarrow> r = Err e \<or> (\<exists>x. r = Ok x \<and> f x = Err e)"
  by (cases r) auto

lemma obind_Panic_iff [outcome_simps]:
  "obind r f = Panic \<longleftrightarrow> r = Panic \<or> (\<exists>x. r = Ok x \<and> f x = Panic)"
  by (cases r) auto

lemma obind_assoc: "obind (obind r f) g = obind r (\<lambda>x. obind (f x) g)"
  by (cases r) auto

lemma obind_Ok_right [simp]: "obind r Ok = r"
  by (cases r) auto

lemma omap_Ok_iff [outcome_simps]: "omap f r = Ok y \<longleftrightarrow> (\<exists>x. r = Ok x \<and> y = f x)"
  by (cases r) auto

lemma omap_Panic_iff [simp]: "omap f r = Panic \<longleftrightarrow> r = Panic"
  by (cases r) auto

lemma omap_Err_iff [simp]: "omap f r = Err e \<longleftrightarrow> r = Err e"
  by (cases r) auto

text \<open>An invariant that every step of a run keeps, and under which no step fails, holds at the end.\<close>

lemma oseq_invariant:
  assumes "\<And>f y. f \<in> set fs \<Longrightarrow> I y \<Longrightarrow> \<exists>z. f y = Ok z \<and> I z" and "I x"
  shows "\<exists>z. oseq fs x = Ok z \<and> I z"
  using assms
proof (induction fs arbitrary: x)
  case Nil
  then show ?case by simp
next
  case (Cons f fs)
  obtain y where "f x = Ok y" and "I y"
    using Cons.prems(1) [of f x] Cons.prems(2) by auto
  moreover have "\<exists>z. oseq fs y = Ok z \<and> I z"
    using Cons.prems(1) \<open>I y\<close> by (intro Cons.IH) auto
  ultimately show ?case by simp
qed

section \<open>Fallible actions on a state\<close>

text \<open>A method on shared state that can fail: an error or a panic keeps what was done before it.\<close>

type_synonym ('s, 'a) action = "'s \<Rightarrow> 'a outcome \<times> 's"

definition sret :: "'a \<Rightarrow> ('s, 'a) action" where
  "sret x s = (Ok x, s)"

definition slift :: "'a outcome \<Rightarrow> ('s, 'a) action" where
  "slift r s = (r, s)"

definition sbind :: "('s, 'a) action \<Rightarrow> ('a \<Rightarrow> ('s, 'b) action) \<Rightarrow> ('s, 'b) action" where
  "sbind m f s = (case m s of
     (Ok x, s') \<Rightarrow> f x s' | (Err e, s') \<Rightarrow> (Err e, s') | (Panic, s') \<Rightarrow> (Panic, s'))"

lemma sret_apply [simp]: "sret x s = (Ok x, s)"
  by (simp add: sret_def)

lemma slift_apply [simp]: "slift r s = (r, s)"
  by (simp add: slift_def)

lemma sbind_slift [simp]:
  "sbind (slift (Ok x)) f s = f x s" "sbind (slift (Err e)) f s = (Err e, s)" "sbind (slift Panic) f s = (Panic, s)"
  by (simp_all add: sbind_def)

lemma sbind_Ok_iff:
  "sbind m f s = (Ok y, t) \<longleftrightarrow> (\<exists>x s'. m s = (Ok x, s') \<and> f x s' = (Ok y, t))"
  by (auto simp: sbind_def split: prod.splits outcome.splits)

text \<open>A method that reads the state, and one that replaces it (a failing one leaves it as it was).\<close>

definition sget :: "('s \<Rightarrow> 'a outcome) \<Rightarrow> ('s, 'a) action" where
  "sget f s = (f s, s)"

definition supd :: "('s \<Rightarrow> 's outcome) \<Rightarrow> ('s, unit) action" where
  "supd f s = (case f s of Ok s' \<Rightarrow> (Ok (), s') | Err e \<Rightarrow> (Err e, s) | Panic \<Rightarrow> (Panic, s))"

lemma sget_apply [simp]: "sget f s = (f s, s)"
  by (simp add: sget_def)

lemma sbind_pair:
  "m s = (Ok x, s') \<Longrightarrow> sbind m f s = f x s'"
  "m s = (Err e, s') \<Longrightarrow> sbind m f s = (Err e, s')"
  "m s = (Panic, s') \<Longrightarrow> sbind m f s = (Panic, s')"
  by (simp_all add: sbind_def)

lemma sbind_sget:
  "f s = Ok x \<Longrightarrow> sbind (sget f) g s = g x s"
  "f s = Err e \<Longrightarrow> sbind (sget f) g s = (Err e, s)"
  "f s = Panic \<Longrightarrow> sbind (sget f) g s = (Panic, s)"
  by (simp_all add: sbind_def)

lemma sbind_supd:
  "f s = Ok s' \<Longrightarrow> sbind (supd f) g s = g () s'"
  "f s = Err e \<Longrightarrow> sbind (supd f) g s = (Err e, s)"
  "f s = Panic \<Longrightarrow> sbind (supd f) g s = (Panic, s)"
  by (simp_all add: sbind_def supd_def)

lemma supd_ok: "f s = Ok s' \<Longrightarrow> supd f s = (Ok (), s')"
  by (simp add: supd_def)

definition usub :: "nat \<Rightarrow> nat \<Rightarrow> nat outcome" where
  "usub a b = (if b \<le> a then Ok (a - b) else Panic)"

lemma usub_le [simp, buf_simps]: "b \<le> a \<Longrightarrow> usub a b = Ok (a - b)"
  by (simp add: usub_def)

section \<open>Byte buffers\<close>

definition byte_at :: "bytes \<Rightarrow> nat \<Rightarrow> u8 outcome" where
  "byte_at b i = (if i < length b then Ok (b ! i) else Panic)"

text \<open>\<open>&b[i..j]\<close>\<close>

definition slice :: "bytes \<Rightarrow> nat \<Rightarrow> nat \<Rightarrow> bytes outcome" where
  "slice b i j = (if i \<le> j \<and> j \<le> length b then Ok (take (j - i) (drop i b)) else Panic)"

text \<open>\<open>b[i] = v\<close>\<close>

definition put_byte :: "nat \<Rightarrow> u8 \<Rightarrow> bytes \<Rightarrow> bytes outcome" where
  "put_byte i v b = (if i < length b then Ok (b[i := v]) else Panic)"

text \<open>\<open>b[i..j].copy_from_slice(src)\<close>\<close>

definition put_slice :: "nat \<Rightarrow> nat \<Rightarrow> bytes \<Rightarrow> bytes \<Rightarrow> bytes outcome" where
  "put_slice i j src b =
     (if i \<le> j \<and> j \<le> length b \<and> length src = j - i
      then Ok (take i b @ src @ drop j b) else Panic)"

lemma byte_at_ok [buf_simps]: "i < length b \<Longrightarrow> byte_at b i = Ok (b ! i)"
  by (simp add: byte_at_def)

lemma slice_ok [buf_simps]:
  "i \<le> j \<Longrightarrow> j \<le> length b \<Longrightarrow> slice b i j = Ok (take (j - i) (drop i b))"
  by (simp add: slice_def)

lemma put_byte_ok [buf_simps]: "i < length b \<Longrightarrow> put_byte i v b = Ok (b[i := v])"
  by (simp add: put_byte_def)

lemma put_slice_ok [buf_simps]:
  "i \<le> j \<Longrightarrow> j \<le> length b \<Longrightarrow> length src = j - i \<Longrightarrow>
   put_slice i j src b = Ok (take i b @ src @ drop j b)"
  by (simp add: put_slice_def)

lemma put_slice_length: "put_slice i j src b = Ok b' \<Longrightarrow> length b' = length b"
  by (auto simp: put_slice_def split: if_splits)

lemma put_byte_length: "put_byte i v b = Ok b' \<Longrightarrow> length b' = length b"
  by (auto simp: put_byte_def split: if_splits)

lemma slice_length: "slice b i j = Ok s \<Longrightarrow> length s = j - i"
  by (auto simp: slice_def split: if_splits)

text \<open>A slice written and read back, and a slice read beside the one written.\<close>

lemma slice_put_slice_same:
  "put_slice i j src b = Ok b' \<Longrightarrow> slice b' i j = Ok src"
  by (auto simp: put_slice_def slice_def split: if_splits)

lemma slice_put_slice_before:
  assumes "put_slice i j src b = Ok b'" and "l \<le> i"
  shows "slice b' k l = slice b k l"
  using assms by (auto simp: put_slice_def slice_def drop_take min_def split: if_splits)

lemma slice_put_slice_after:
  assumes "put_slice i j src b = Ok b'" and "j \<le> k"
  shows "slice b' k l = slice b k l"
  using assms by (auto simp: put_slice_def slice_def split: if_splits)

section \<open>Big-endian integers\<close>

definition u16_be :: "u8 \<Rightarrow> u8 \<Rightarrow> u16" where
  "u16_be a b = (push_bit 8 (ucast a)) OR ucast b"

definition u16_to_be :: "u16 \<Rightarrow> bytes" where
  "u16_to_be w = [ucast (drop_bit 8 w), ucast w]"

definition u32_be :: "u8 \<Rightarrow> u8 \<Rightarrow> u8 \<Rightarrow> u8 \<Rightarrow> u32" where
  "u32_be a b c d =
     push_bit 24 (ucast a) OR push_bit 16 (ucast b) OR push_bit 8 (ucast c) OR ucast d"

definition u32_to_be :: "u32 \<Rightarrow> bytes" where
  "u32_to_be w = [ucast (drop_bit 24 w), ucast (drop_bit 16 w), ucast (drop_bit 8 w), ucast w]"

lemma length_u16_to_be [simp]: "length (u16_to_be w) = 2"
  by (simp add: u16_to_be_def)

lemma length_u32_to_be [simp]: "length (u32_to_be w) = 4"
  by (simp add: u32_to_be_def)

lemma bit_u8_high [simp]: "8 \<le> n \<Longrightarrow> \<not> bit (w :: u8) n"
  using bit_imp_le_length [of w n] by auto

text \<open>Equality of short words, bit by bit: for masks and shifts by literals.\<close>

lemma u8_eq_iff:
  "(v :: u8) = w \<longleftrightarrow> (bit v 0 \<longleftrightarrow> bit w 0) \<and> (bit v 1 \<longleftrightarrow> bit w 1) \<and> (bit v 2 \<longleftrightarrow> bit w 2) \<and>
    (bit v 3 \<longleftrightarrow> bit w 3) \<and> (bit v 4 \<longleftrightarrow> bit w 4) \<and> (bit v 5 \<longleftrightarrow> bit w 5) \<and>
    (bit v 6 \<longleftrightarrow> bit w 6) \<and> (bit v 7 \<longleftrightarrow> bit w 7)"
proof -
  have "{..<8::nat} = {0, 1, 2, 3, 4, 5, 6, 7}" by auto
  then have "(\<forall>n<8. bit v n \<longleftrightarrow> bit w n) \<longleftrightarrow> (\<forall>n\<in>{0, 1, 2, 3, 4, 5, 6, 7}. bit v n \<longleftrightarrow> bit w n)"
    by (metis lessThan_iff)
  moreover have "v = w \<longleftrightarrow> (\<forall>n<8. bit v n \<longleftrightarrow> bit w n)"
    by (auto intro: bit_word_eqI)
  ultimately show ?thesis by simp
qed

lemma u16_eq_iff:
  "(v :: u16) = w \<longleftrightarrow> (bit v 0 \<longleftrightarrow> bit w 0) \<and> (bit v 1 \<longleftrightarrow> bit w 1) \<and> (bit v 2 \<longleftrightarrow> bit w 2) \<and>
    (bit v 3 \<longleftrightarrow> bit w 3) \<and> (bit v 4 \<longleftrightarrow> bit w 4) \<and> (bit v 5 \<longleftrightarrow> bit w 5) \<and>
    (bit v 6 \<longleftrightarrow> bit w 6) \<and> (bit v 7 \<longleftrightarrow> bit w 7) \<and> (bit v 8 \<longleftrightarrow> bit w 8) \<and>
    (bit v 9 \<longleftrightarrow> bit w 9) \<and> (bit v 10 \<longleftrightarrow> bit w 10) \<and> (bit v 11 \<longleftrightarrow> bit w 11) \<and>
    (bit v 12 \<longleftrightarrow> bit w 12) \<and> (bit v 13 \<longleftrightarrow> bit w 13) \<and> (bit v 14 \<longleftrightarrow> bit w 14) \<and>
    (bit v 15 \<longleftrightarrow> bit w 15)"
proof -
  have "{..<16::nat} = {0, 1, 2, 3, 4, 5, 6, 7, 8, 9, 10, 11, 12, 13, 14, 15}" by auto presburger
  then have "(\<forall>n<16. bit v n \<longleftrightarrow> bit w n) \<longleftrightarrow>
      (\<forall>n\<in>{0, 1, 2, 3, 4, 5, 6, 7, 8, 9, 10, 11, 12, 13, 14, 15}. bit v n \<longleftrightarrow> bit w n)"
    by (metis lessThan_iff)
  moreover have "v = w \<longleftrightarrow> (\<forall>n<16. bit v n \<longleftrightarrow> bit w n)"
    by (auto intro: bit_word_eqI)
  ultimately show ?thesis by simp
qed

lemma u16_be_to_be [simp]: "u16_be (ucast (drop_bit 8 w)) (ucast w) = w"
  unfolding u16_be_def
  by (rule bit_word_eqI) (auto simp: bit_simps not_le)

lemma u16_to_be_be [simp]: "u16_to_be (u16_be a b) = [a, b]"
  unfolding u16_be_def u16_to_be_def
  by (auto intro!: bit_word_eqI simp: bit_simps)

lemma u32_be_to_be [simp]:
  "u32_be (ucast (drop_bit 24 w)) (ucast (drop_bit 16 w)) (ucast (drop_bit 8 w)) (ucast w) = w"
  unfolding u32_be_def
proof (rule bit_word_eqI)
  fix n :: nat
  assume "n < LENGTH(32)"
  then consider "n < 8" | "8 \<le> n" "n < 16" | "16 \<le> n" "n < 24" | "24 \<le> n" "n < 32"
    by fastforce
  then show "bit (push_bit 24 (ucast (ucast (drop_bit 24 w) :: u8)) OR
      push_bit 16 (ucast (ucast (drop_bit 16 w) :: u8)) OR
      push_bit 8 (ucast (ucast (drop_bit 8 w) :: u8)) OR ucast (ucast w :: u8) :: u32) n = bit w n"
    by cases (auto simp: bit_simps)
qed

lemma u32_to_be_be [simp]: "u32_to_be (u32_be a b c d) = [a, b, c, d]"
  unfolding u32_be_def u32_to_be_def
  by (auto intro!: bit_word_eqI simp: bit_simps)

lemma unat_u8_less [simp]: "unat (b :: u8) < 256"
proof -
  have "unat b < 2 ^ LENGTH(8)" by (rule unsigned_less)
  then show ?thesis by simp
qed

lemma unat_u16_less [simp]: "unat (w :: u16) < 65536"
proof -
  have "unat w < 2 ^ LENGTH(16)" by (rule unsigned_less)
  then show ?thesis by simp
qed

lemma unat_u32_less [simp]: "unat (w :: u32) < 4294967296"
proof -
  have "unat w < 2 ^ LENGTH(32)" by (rule unsigned_less)
  then show ?thesis by simp
qed

lemma unat_ucast_u8_u16 [simp]: "unat (ucast (b :: u8) :: u16) = unat b"
  using unat_u8_less [of b]
  by (simp add: unsigned_ucast_eq take_bit_nat_eq_self del: unat_u8_less)

lemma unat_ucast_u8_u32 [simp]: "unat (ucast (b :: u8) :: u32) = unat b"
  using unat_u8_less [of b]
  by (simp add: unsigned_ucast_eq take_bit_nat_eq_self del: unat_u8_less)

lemma unat_ucast_u16_u32 [simp]: "unat (ucast (w :: u16) :: u32) = unat w"
  using unat_u16_less [of w]
  by (simp add: unsigned_ucast_eq take_bit_nat_eq_self del: unat_u16_less)

lemma unat_u16_be: "unat (u16_be a b) = 256 * unat a + unat b"
proof -
  have "u16_be a b = push_bit 8 (ucast a) + ucast b"
    unfolding u16_be_def
    by (rule disjunctive_add [symmetric]) (auto simp: bit_simps)
  also have "\<dots> = ucast a * 256 + ucast b"
    by (simp add: push_bit_eq_mult)
  finally have "unat (u16_be a b) = (unat a * 256 mod 65536 + unat b) mod 65536"
    by (simp add: unat_word_ariths)
  then show ?thesis
    using unat_u8_less [of a] unat_u8_less [of b] by (simp del: unat_u8_less)
qed

section \<open>Fields of a buffer\<close>

text \<open>\<open>u16::from_be_bytes(b[i..i + 2].try_into().unwrap())\<close> and \<open>copy_from_slice(&v.to_be_bytes())\<close>,
  and the same for an address of four octets.\<close>

definition get_u16 :: "nat \<Rightarrow> bytes \<Rightarrow> u16 outcome" where
  "get_u16 i b = obind (slice b i (i + 2)) (\<lambda>s. Ok (u16_be (s ! 0) (s ! 1)))"

definition set_u16 :: "nat \<Rightarrow> u16 \<Rightarrow> bytes \<Rightarrow> bytes outcome" where
  "set_u16 i v b = put_slice i (i + 2) (u16_to_be v) b"

definition get_u32 :: "nat \<Rightarrow> bytes \<Rightarrow> u32 outcome" where
  "get_u32 i b = obind (slice b i (i + 4)) (\<lambda>s. Ok (u32_be (s ! 0) (s ! 1) (s ! 2) (s ! 3)))"

definition set_u32 :: "nat \<Rightarrow> u32 \<Rightarrow> bytes \<Rightarrow> bytes outcome" where
  "set_u32 i v b = put_slice i (i + 4) (u32_to_be v) b"

text \<open>An update of one octet from its old value: \<open>b[i] = f(b[i])\<close>.\<close>

definition modify_byte :: "nat \<Rightarrow> (u8 \<Rightarrow> u8) \<Rightarrow> bytes \<Rightarrow> bytes outcome" where
  "modify_byte i f b = obind (byte_at b i) (\<lambda>v. put_byte i (f v) b)"

lemma get_u16_ok [buf_simps]:
  "i + 2 \<le> length b \<Longrightarrow> get_u16 i b = Ok (u16_be (b ! i) (b ! Suc i))"
  by (simp add: get_u16_def slice_def)

lemma get_u32_ok [buf_simps]:
  "i + 4 \<le> length b \<Longrightarrow> get_u32 i b = Ok (u32_be (b ! i) (b ! (i + 1)) (b ! (i + 2)) (b ! (i + 3)))"
  by (simp add: get_u32_def slice_def)

lemma set_u16_ok [buf_simps]:
  "i + 2 \<le> length b \<Longrightarrow> set_u16 i v b = Ok (take i b @ u16_to_be v @ drop (i + 2) b)"
  by (simp add: set_u16_def put_slice_def)

lemma set_u32_ok [buf_simps]:
  "i + 4 \<le> length b \<Longrightarrow> set_u32 i v b = Ok (take i b @ u32_to_be v @ drop (i + 4) b)"
  by (simp add: set_u32_def put_slice_def)

lemma modify_byte_ok [buf_simps]:
  "i < length b \<Longrightarrow> modify_byte i f b = Ok (b[i := f (b ! i)])"
  by (simp add: modify_byte_def byte_at_def put_byte_def)

text \<open>
  \<open>field_lens\<close> is the interface of a getter/setter pair of a wire header: on every buffer the
  header fits in (\<open>fits\<close>) neither panics, and the getter returns what the setter wrote.
\<close>

locale field_lens =
  fixes fits :: "'s \<Rightarrow> bool" and get :: "'s \<Rightarrow> 'v outcome"
    and set :: "'v \<Rightarrow> 's \<Rightarrow> 's outcome" and valid :: "'v \<Rightarrow> bool"
  assumes get_total: "fits b \<Longrightarrow> \<exists>v. get b = Ok v"
    and set_total: "fits b \<Longrightarrow> \<exists>b'. set v b = Ok b' \<and> fits b'"
    and get_set: "fits b \<Longrightarrow> valid v \<Longrightarrow> set v b = Ok b' \<Longrightarrow> get b' = Ok v"
    and set_set: "fits b \<Longrightarrow> set v b = Ok b' \<Longrightarrow> set w b' = set w b"
begin

lemma set_then_get: "fits b \<Longrightarrow> valid v \<Longrightarrow> obind (set v b) get = Ok v"
  using set_total [of b v] get_set by auto

lemma no_panic: "fits b \<Longrightarrow> get b \<noteq> Panic" "fits b \<Longrightarrow> set v b \<noteq> Panic"
  using get_total [of b] set_total [of b v] by auto

lemma last_write_wins:
  "fits b \<Longrightarrow> valid w \<Longrightarrow> obind (obind (set v b) (set w)) get = Ok w"
  using set_total [of b v] set_set set_then_get [of b w] by (metis obind.simps(1))

end

section \<open>Enumerations on the wire\<close>

text \<open>
  The interface of an \<open>enum\<close> with \<open>From<u8>\<close> and \<open>Into<u8>\<close>: encoding what was decoded gives
  the code back, whether the code is known or falls into the enum's catch-all. Every such enum of
  the program interprets it, so that a header field written from a decoded value is unchanged.
\<close>

locale wire_enum =
  fixes dec :: "'w \<Rightarrow> 'e" and enc :: "'e \<Rightarrow> 'w"
  assumes enc_dec: "enc (dec w) = w"
begin

lemma dec_inject: "dec v = dec w \<longleftrightarrow> v = w"
  using enc_dec by metis

lemma dec_enc_dec: "dec (enc (dec w)) = dec w"
  by (simp add: enc_dec)

lemma canonical_iff: "dec (enc e) = e \<longleftrightarrow> e \<in> range dec"
  using enc_dec by (metis rangeE rangeI)

end

text \<open>A value outside the literals of a \<open>match\<close> falls through to the last arm.\<close>

lemma if_chain_id: "(if w = a then a else r) = w \<longleftrightarrow> w = a \<or> r = w"
  by auto

end
