(* ===== verification/Net_Packet.thy ===== *)
theory Net_Packet
  imports Vnt_Prelude
begin

text \<open>
  \<open>NetPacket\<close> of \<open>vnt/src/protocol/mod.rs\<close>: the 12-octet header every VNT datagram carries, its
  constructors with their length checks, and every accessor. \<open>net_header\<close> is the specification:
  the header as a record of fields. Each getter reads one field of it and each setter updates one
  field of it and nothing else.
\<close>

section \<open>Codes\<close>

datatype version = V2 | VersionUnknown u8

definition version_from :: "u8 \<Rightarrow> version" where
  "version_from value = (if value = 2 then V2 else VersionUnknown value)"

primrec version_into :: "version \<Rightarrow> u8" where
  "version_into V2 = 2"
| "version_into (VersionUnknown v) = v"

datatype protocol = Service | ErrorP | Control | IpTurn | OtherTurn | ProtocolUnknown u8

definition protocol_from :: "u8 \<Rightarrow> protocol" where
  "protocol_from value =
     (if value = 1 then Service else if value = 2 then ErrorP else if value = 3 then Control
      else if value = 4 then IpTurn else if value = 5 then OtherTurn else ProtocolUnknown value)"

primrec protocol_into :: "protocol \<Rightarrow> u8" where
  "protocol_into Service = 1"
| "protocol_into ErrorP = 2"
| "protocol_into Control = 3"
| "protocol_into IpTurn = 4"
| "protocol_into OtherTurn = 5"
| "protocol_into (ProtocolUnknown v) = v"

interpretation version: wire_enum version_from version_into
  by unfold_locales (simp add: version_from_def)

interpretation protocol: wire_enum protocol_from protocol_into
  by unfold_locales (simp add: protocol_from_def)

section \<open>Construction and length\<close>

definition HEAD_LEN :: nat where
  "HEAD_LEN = 12"

text \<open>\<open>protocol/body.rs\<close>: room for random, tag and finger.\<close>

definition ENCRYPTION_RESERVED :: nat where
  "ENCRYPTION_RESERVED = 16 + 32 + 12"

definition MAX_TTL :: u8 where
  "MAX_TTL = 0b1111"

definition MAX_SOURCE :: u8 where
  "MAX_SOURCE = 0b11110000"

record net_packet =
  np_data_len :: nat
  np_buffer :: bytes

definition np_unchecked :: "bytes \<Rightarrow> net_packet" where
  "np_unchecked buffer = \<lparr>np_data_len = length buffer, np_buffer = buffer\<rparr>"

definition np_new0 :: "nat \<Rightarrow> bytes \<Rightarrow> net_packet outcome" where
  "np_new0 data_len buffer =
     (if length buffer < data_len then Err (IoError InvalidData)
      else if data_len < 12 then Err (IoError InvalidData)
      else Ok \<lparr>np_data_len = data_len, np_buffer = buffer\<rparr>)"

definition np_new :: "bytes \<Rightarrow> net_packet outcome" where
  "np_new buffer = np_new0 (length buffer) buffer"

definition np_new_encrypt :: "bytes \<Rightarrow> net_packet outcome" where
  "np_new_encrypt buffer =
     (if length buffer < 12 + ENCRYPTION_RESERVED then Err (IoError InvalidData)
      else obind (usub (length buffer) ENCRYPTION_RESERVED) (\<lambda>data_len. np_new0 data_len buffer))"

definition np_buffer_part :: "net_packet \<Rightarrow> bytes outcome" where
  "np_buffer_part p = slice (np_buffer p) 0 (np_data_len p)"

definition np_raw_buffer :: "net_packet \<Rightarrow> bytes" where
  "np_raw_buffer p = np_buffer p"

definition np_reserve :: "net_packet \<Rightarrow> nat outcome" where
  "np_reserve p = usub (length (np_buffer p)) (np_data_len p)"

definition np_payload :: "net_packet \<Rightarrow> bytes outcome" where
  "np_payload p = slice (np_buffer p) 12 (np_data_len p)"

definition np_head :: "net_packet \<Rightarrow> bytes outcome" where
  "np_head p = slice (np_buffer p) 0 12"

definition np_set_data_len :: "nat \<Rightarrow> net_packet \<Rightarrow> net_packet outcome" where
  "np_set_data_len data_len p =
     (if length (np_buffer p) < data_len \<or> data_len < 12 then Err (IoError InvalidData)
      else Ok (p\<lparr>np_data_len := data_len\<rparr>))"

definition np_set_payload_len :: "nat \<Rightarrow> net_packet \<Rightarrow> net_packet outcome" where
  "np_set_payload_len payload_len p = np_set_data_len (HEAD_LEN + payload_len) p"

definition np_set_data_len_max :: "net_packet \<Rightarrow> net_packet" where
  "np_set_data_len_max p = p\<lparr>np_data_len := length (np_buffer p)\<rparr>"

definition np_set_payload :: "bytes \<Rightarrow> net_packet \<Rightarrow> net_packet outcome" where
  "np_set_payload payload p = obind (usub (np_data_len p) 12) (\<lambda>n.
     if n \<noteq> length payload then Err (IoError InvalidData)
     else omap (\<lambda>b. p\<lparr>np_buffer := b\<rparr>) (put_slice 12 (np_data_len p) payload (np_buffer p)))"

section \<open>Header fields\<close>

definition np_is_encrypt :: "net_packet \<Rightarrow> bool outcome" where
  "np_is_encrypt p = obind (byte_at (np_buffer p) 0) (\<lambda>v. Ok (v AND 0x80 = 0x80))"

definition np_is_gateway :: "net_packet \<Rightarrow> bool outcome" where
  "np_is_gateway p = obind (byte_at (np_buffer p) 0) (\<lambda>v. Ok (v AND 0x40 = 0x40))"

definition np_is_extension :: "net_packet \<Rightarrow> bool outcome" where
  "np_is_extension p = obind (byte_at (np_buffer p) 0) (\<lambda>v. Ok (v AND 0x20 = 0x20))"

definition np_version :: "net_packet \<Rightarrow> version outcome" where
  "np_version p = obind (byte_at (np_buffer p) 0) (\<lambda>v. Ok (version_from (v AND 0x0F)))"

definition np_protocol :: "net_packet \<Rightarrow> protocol outcome" where
  "np_protocol p = obind (byte_at (np_buffer p) 1) (\<lambda>v. Ok (protocol_from v))"

definition np_transport_protocol :: "net_packet \<Rightarrow> u8 outcome" where
  "np_transport_protocol p = byte_at (np_buffer p) 2"

definition np_ttl :: "net_packet \<Rightarrow> u8 outcome" where
  "np_ttl p = obind (byte_at (np_buffer p) 3) (\<lambda>v. Ok (v AND MAX_TTL))"

definition np_source_ttl :: "net_packet \<Rightarrow> u8 outcome" where
  "np_source_ttl p = obind (byte_at (np_buffer p) 3) (\<lambda>v. Ok (drop_bit 4 v))"

definition np_source :: "net_packet \<Rightarrow> ipv4_addr outcome" where
  "np_source p = get_u32 4 (np_buffer p)"

definition np_destination :: "net_packet \<Rightarrow> ipv4_addr outcome" where
  "np_destination p = get_u32 8 (np_buffer p)"

definition np_on_buffer :: "(bytes \<Rightarrow> bytes outcome) \<Rightarrow> net_packet \<Rightarrow> net_packet outcome" where
  "np_on_buffer f p = omap (\<lambda>b. p\<lparr>np_buffer := b\<rparr>) (f (np_buffer p))"

definition np_set_encrypt_flag :: "bool \<Rightarrow> net_packet \<Rightarrow> net_packet outcome" where
  "np_set_encrypt_flag is_encrypt =
     np_on_buffer (modify_byte 0 (\<lambda>v. if is_encrypt then v OR 0x80 else v AND 0x7F))"

definition np_set_gateway_flag :: "bool \<Rightarrow> net_packet \<Rightarrow> net_packet outcome" where
  "np_set_gateway_flag is_gateway =
     np_on_buffer (modify_byte 0 (\<lambda>v. if is_gateway then v OR 0x40 else v AND 0xBF))"

definition np_set_extension_flag :: "bool \<Rightarrow> net_packet \<Rightarrow> net_packet outcome" where
  "np_set_extension_flag is_extension =
     np_on_buffer (modify_byte 0 (\<lambda>v. if is_extension then v OR 0x20 else v AND 0xDF))"

definition np_set_default_version :: "net_packet \<Rightarrow> net_packet outcome" where
  "np_set_default_version =
     np_on_buffer (modify_byte 0 (\<lambda>v. (v AND 0xF0) OR (0x0F AND version_into V2)))"

definition np_set_protocol :: "protocol \<Rightarrow> net_packet \<Rightarrow> net_packet outcome" where
  "np_set_protocol protocol = np_on_buffer (put_byte 1 (protocol_into protocol))"

definition np_set_transport_protocol :: "u8 \<Rightarrow> net_packet \<Rightarrow> net_packet outcome" where
  "np_set_transport_protocol v = np_on_buffer (put_byte 2 v)"

definition np_first_set_ttl :: "u8 \<Rightarrow> net_packet \<Rightarrow> net_packet outcome" where
  "np_first_set_ttl ttl = np_on_buffer (put_byte 3 (push_bit 4 ttl OR ttl))"

definition np_set_ttl :: "u8 \<Rightarrow> net_packet \<Rightarrow> net_packet outcome" where
  "np_set_ttl ttl = np_on_buffer (modify_byte 3 (\<lambda>v. (v AND MAX_SOURCE) OR (MAX_TTL AND ttl)))"

text \<open>The returned value wraps to 255 at zero, as \<open>u8\<close> subtraction does in a release build.\<close>

definition np_incr_ttl :: "net_packet \<Rightarrow> (u8 \<times> net_packet) outcome" where
  "np_incr_ttl p = obind (np_ttl p) (\<lambda>t. let ttl = t - 1 in
     obind (np_set_ttl ttl p) (\<lambda>p. Ok (ttl, p)))"

definition np_set_source_ttl :: "u8 \<Rightarrow> net_packet \<Rightarrow> net_packet outcome" where
  "np_set_source_ttl source_ttl =
     np_on_buffer (modify_byte 3 (\<lambda>v. push_bit 4 source_ttl OR (MAX_TTL AND v)))"

definition np_set_source :: "ipv4_addr \<Rightarrow> net_packet \<Rightarrow> net_packet outcome" where
  "np_set_source source = np_on_buffer (set_u32 4 source)"

definition np_set_destination :: "ipv4_addr \<Rightarrow> net_packet \<Rightarrow> net_packet outcome" where
  "np_set_destination destination = np_on_buffer (set_u32 8 destination)"

section \<open>The specification: a header is a record of fields\<close>

record net_header =
  nh_encrypt :: bool
  nh_gateway :: bool
  nh_extension :: bool
  nh_unused :: bool
  nh_version :: u8
  nh_protocol :: u8
  nh_transport :: u8
  nh_source_ttl :: u8
  nh_ttl :: u8
  nh_source :: ipv4_addr
  nh_destination :: ipv4_addr
  nh_payload :: bytes

definition np_wf :: "net_packet \<Rightarrow> bool" where
  "np_wf p \<longleftrightarrow> 12 \<le> np_data_len p \<and> np_data_len p \<le> length (np_buffer p)"

definition np_view :: "net_packet \<Rightarrow> net_header" where
  "np_view p = (let b = np_buffer p in
     \<lparr>nh_encrypt = bit (b ! 0) 7, nh_gateway = bit (b ! 0) 6, nh_extension = bit (b ! 0) 5,
      nh_unused = bit (b ! 0) 4, nh_version = b ! 0 AND 0x0F,
      nh_protocol = b ! 1, nh_transport = b ! 2,
      nh_source_ttl = drop_bit 4 (b ! 3), nh_ttl = b ! 3 AND 0x0F,
      nh_source = u32_be (b ! 4) (b ! 5) (b ! 6) (b ! 7),
      nh_destination = u32_be (b ! 8) (b ! 9) (b ! 10) (b ! 11),
      nh_payload = drop 12 (take (np_data_len p) b)\<rparr>)"

lemmas np_getters = np_is_encrypt_def np_is_gateway_def np_is_extension_def np_version_def
  np_protocol_def np_transport_protocol_def np_ttl_def np_source_ttl_def np_source_def
  np_destination_def np_payload_def

lemmas np_setters = np_set_encrypt_flag_def np_set_gateway_flag_def np_set_extension_flag_def
  np_set_default_version_def np_set_protocol_def np_set_transport_protocol_def
  np_first_set_ttl_def np_set_ttl_def np_set_source_ttl_def np_set_source_def np_set_destination_def

lemma np_wf_len:
  assumes "np_wf p"
  shows "12 \<le> length (np_buffer p)" "np_data_len p \<le> length (np_buffer p)" "12 \<le> np_data_len p"
    "np_buffer p \<noteq> []"
  using assms by (auto simp: np_wf_def)

lemma np_view_fields:
  "nh_encrypt (np_view p) = bit (np_buffer p ! 0) 7"
  "nh_gateway (np_view p) = bit (np_buffer p ! 0) 6"
  "nh_extension (np_view p) = bit (np_buffer p ! 0) 5"
  "nh_unused (np_view p) = bit (np_buffer p ! 0) 4"
  "nh_version (np_view p) = np_buffer p ! 0 AND 0x0F"
  "nh_source_ttl (np_view p) = drop_bit 4 (np_buffer p ! 3)"
  "nh_ttl (np_view p) = np_buffer p ! 3 AND 0x0F"
  by (simp_all add: np_view_def Let_def)

lemma np_new0_Ok_iff:
  "np_new0 n b = Ok p \<longleftrightarrow> p = \<lparr>np_data_len = n, np_buffer = b\<rparr> \<and> 12 \<le> n \<and> n \<le> length b"
  by (auto simp: np_new0_def)

lemma np_new0_wf: "np_new0 n b = Ok p \<Longrightarrow> np_wf p"
  by (auto simp: np_new0_Ok_iff np_wf_def)

lemma flag_bits:
  fixes v :: u8
  shows "v AND 0x80 = 0x80 \<longleftrightarrow> bit v 7" "v AND 0x40 = 0x40 \<longleftrightarrow> bit v 6" "v AND 0x20 = 0x20 \<longleftrightarrow> bit v 5"
  by (simp_all add: u8_eq_iff bit_simps)

lemma np_getters_view:
  assumes "np_wf p"
  shows "np_is_encrypt p = Ok (nh_encrypt (np_view p))"
    and "np_is_gateway p = Ok (nh_gateway (np_view p))"
    and "np_is_extension p = Ok (nh_extension (np_view p))"
    and "np_version p = Ok (version_from (nh_version (np_view p)))"
    and "np_protocol p = Ok (protocol_from (nh_protocol (np_view p)))"
    and "np_transport_protocol p = Ok (nh_transport (np_view p))"
    and "np_ttl p = Ok (nh_ttl (np_view p))"
    and "np_source_ttl p = Ok (nh_source_ttl (np_view p))"
    and "np_source p = Ok (nh_source (np_view p))"
    and "np_destination p = Ok (nh_destination (np_view p))"
    and "np_payload p = Ok (nh_payload (np_view p))"
  using np_wf_len [OF assms]
  by (simp_all add: np_getters np_view_def Let_def buf_simps flag_bits MAX_TTL_def drop_take)

text \<open>A one-octet update of the header, seen through the view: only what that octet holds changes.\<close>

lemma np_modify_byte:
  assumes "np_wf p" and "i < 12"
  shows "np_on_buffer (modify_byte i f) p = Ok (p\<lparr>np_buffer := (np_buffer p)[i := f (np_buffer p ! i)]\<rparr>)"
    and "np_wf (p\<lparr>np_buffer := (np_buffer p)[i := v]\<rparr>)"
    and "np_on_buffer (put_byte i v) p = Ok (p\<lparr>np_buffer := (np_buffer p)[i := v]\<rparr>)"
  using assms np_wf_len [OF assms(1)] by (auto simp: np_on_buffer_def buf_simps np_wf_def)

lemma np_set_u32_wf:
  assumes "np_wf p" and "i + 4 \<le> 12"
  shows "np_on_buffer (set_u32 i v) p =
      Ok (p\<lparr>np_buffer := take i (np_buffer p) @ u32_to_be v @ drop (i + 4) (np_buffer p)\<rparr>)"
    and "np_wf (p\<lparr>np_buffer := take i (np_buffer p) @ u32_to_be v @ drop (i + 4) (np_buffer p)\<rparr>)"
  using assms np_wf_len [OF assms(1)] by (auto simp: np_on_buffer_def buf_simps np_wf_def)

lemma view_byte0:
  assumes "np_wf p"
  shows "np_view (p\<lparr>np_buffer := (np_buffer p)[0 := v]\<rparr>) = (np_view p)
    \<lparr>nh_encrypt := bit v 7, nh_gateway := bit v 6, nh_extension := bit v 5, nh_unused := bit v 4,
     nh_version := v AND 0x0F\<rparr>"
  using np_wf_len [OF assms] by (auto simp: np_view_def Let_def take_update_swap drop_update_cancel)

lemma view_byte1:
  assumes "np_wf p"
  shows "np_view (p\<lparr>np_buffer := (np_buffer p)[1 := v]\<rparr>) = (np_view p)\<lparr>nh_protocol := v\<rparr>"
  using np_wf_len [OF assms] by (auto simp: np_view_def Let_def take_update_swap drop_update_cancel)

lemma view_byte2:
  assumes "np_wf p"
  shows "np_view (p\<lparr>np_buffer := (np_buffer p)[2 := v]\<rparr>) = (np_view p)\<lparr>nh_transport := v\<rparr>"
  using np_wf_len [OF assms] by (auto simp: np_view_def Let_def take_update_swap drop_update_cancel)

lemma view_byte3:
  assumes "np_wf p"
  shows "np_view (p\<lparr>np_buffer := (np_buffer p)[3 := v]\<rparr>) =
    (np_view p)\<lparr>nh_source_ttl := drop_bit 4 v, nh_ttl := v AND 0x0F\<rparr>"
  using np_wf_len [OF assms] by (auto simp: np_view_def Let_def take_update_swap drop_update_cancel)

lemma view_source:
  assumes "np_wf p"
  shows "np_view (p\<lparr>np_buffer := take 4 (np_buffer p) @ u32_to_be v @ drop 8 (np_buffer p)\<rparr>) =
    (np_view p)\<lparr>nh_source := v\<rparr>"
  using np_wf_len [OF assms]
  by (auto simp: np_view_def Let_def nth_append u32_to_be_def drop_take)

lemma view_destination:
  assumes "np_wf p"
  shows "np_view (p\<lparr>np_buffer := take 8 (np_buffer p) @ u32_to_be v @ drop 12 (np_buffer p)\<rparr>) =
    (np_view p)\<lparr>nh_destination := v\<rparr>"
  using np_wf_len [OF assms]
  by (auto simp: np_view_def Let_def nth_append u32_to_be_def drop_take)

section \<open>The accessors implement the specification\<close>

definition np_sets :: "net_packet \<Rightarrow> (net_packet \<Rightarrow> net_packet outcome) \<Rightarrow> (net_header \<Rightarrow> net_header) \<Rightarrow> bool" where
  "np_sets p f g \<longleftrightarrow>
     (\<exists>q. f p = Ok q \<and> np_wf q \<and> np_data_len q = np_data_len p \<and>
        length (np_buffer q) = length (np_buffer p) \<and> np_view q = g (np_view p))"

lemma np_sets_byte0:
  assumes "np_wf p"
  shows "np_sets p (np_set_encrypt_flag e) (nh_encrypt_update (\<lambda>_. e))"
    "np_sets p (np_set_gateway_flag e) (nh_gateway_update (\<lambda>_. e))"
    "np_sets p (np_set_extension_flag e) (nh_extension_update (\<lambda>_. e))"
    "np_sets p np_set_default_version (nh_version_update (\<lambda>_. 2))"
  unfolding np_sets_def np_setters
  by (auto simp: np_modify_byte [OF assms(1)] view_byte0 [OF assms(1)] np_view_fields bit_simps
      u8_eq_iff intro!: net_header.equality)

lemma np_sets_byte3:
  assumes "np_wf p"
  shows "np_sets p (np_set_ttl v) (nh_ttl_update (\<lambda>_. v AND 0x0F))"
    "np_sets p (np_set_source_ttl v) (nh_source_ttl_update (\<lambda>_. v AND 0x0F))"
    "np_sets p (np_first_set_ttl (v AND 0x0F)) (nh_source_ttl_update (\<lambda>_. v AND 0x0F) \<circ> nh_ttl_update (\<lambda>_. v AND 0x0F))"
  unfolding np_sets_def np_setters
  by (auto simp: np_modify_byte [OF assms(1)] view_byte3 [OF assms(1)]
      np_view_fields bit_simps u8_eq_iff MAX_TTL_def MAX_SOURCE_def intro!: net_header.equality)

lemma np_sets_codes:
  assumes "np_wf p"
  shows "np_sets p (np_set_protocol pr) (nh_protocol_update (\<lambda>_. protocol_into pr))"
    "np_sets p (np_set_transport_protocol v) (nh_transport_update (\<lambda>_. v))"
  unfolding np_sets_def np_setters
  by (auto simp: np_modify_byte [OF assms(1)] view_byte1 [OF assms(1)] view_byte2 [OF assms(1)]
      simp del: One_nat_def)

lemma np_sets_addresses:
  assumes "np_wf p"
  shows "np_sets p (np_set_source a) (nh_source_update (\<lambda>_. a))"
    "np_sets p (np_set_destination a) (nh_destination_update (\<lambda>_. a))"
proof -
  have l: "12 \<le> length (np_buffer p)" using np_wf_len [OF assms] by simp
  show "np_sets p (np_set_source a) (nh_source_update (\<lambda>_. a))"
    "np_sets p (np_set_destination a) (nh_destination_update (\<lambda>_. a))"
    unfolding np_sets_def np_setters
    using l np_set_u32_wf [OF assms(1), of 4 a] np_set_u32_wf [OF assms(1), of 8 a]
    by (auto simp: view_source [OF assms(1)] view_destination [OF assms(1)])
qed

text \<open>Runs of setters, from any well-formed packet.\<close>

lemma np_sets_Nil: "np_wf p \<Longrightarrow> np_sets p (oseq []) (\<lambda>h. h)"
  by (simp add: np_sets_def)

lemma np_sets_Cons:
  assumes "np_sets p f g" and "\<And>q. np_wf q \<Longrightarrow> np_sets q (oseq fs) G"
  shows "np_sets p (oseq (f # fs)) (\<lambda>h. G (g h))"
  using assms unfolding np_sets_def by fastforce

lemma np_sets_first_ttl:
  assumes "np_wf p" and "v AND 0x0F = v"
  shows "np_sets p (np_first_set_ttl v) (\<lambda>h. h\<lparr>nh_ttl := v, nh_source_ttl := v\<rparr>)"
  using np_sets_byte3(3) [OF assms(1), of v] assms(2) by (simp add: comp_def)

lemmas np_sets_intros = np_sets_byte0 np_sets_codes np_sets_addresses np_sets_first_ttl

text \<open>C29: Every setter of the header returns on a well-formed packet, keeps it well-formed, and is the
  update of exactly one field of the abstract header (two for \<open>first_set_ttl\<close>); all others, the
  unused bit and the payload included, keep their value.\<close>

theorem np_setters_refine:
  assumes "np_wf p"
  shows "np_sets p (np_set_encrypt_flag e) (nh_encrypt_update (\<lambda>_. e)) \<and>
    np_sets p (np_set_gateway_flag e) (nh_gateway_update (\<lambda>_. e)) \<and>
    np_sets p (np_set_extension_flag e) (nh_extension_update (\<lambda>_. e)) \<and>
    np_sets p np_set_default_version (nh_version_update (\<lambda>_. 2)) \<and>
    np_sets p (np_set_protocol pr) (nh_protocol_update (\<lambda>_. protocol_into pr)) \<and>
    np_sets p (np_set_transport_protocol v) (nh_transport_update (\<lambda>_. v)) \<and>
    np_sets p (np_set_ttl v) (nh_ttl_update (\<lambda>_. v AND 0x0F)) \<and>
    np_sets p (np_set_source_ttl v) (nh_source_ttl_update (\<lambda>_. v AND 0x0F)) \<and>
    np_sets p (np_first_set_ttl (v AND 0x0F)) (nh_source_ttl_update (\<lambda>_. v AND 0x0F) \<circ> nh_ttl_update (\<lambda>_. v AND 0x0F)) \<and>
    np_sets p (np_set_source a) (nh_source_update (\<lambda>_. a)) \<and>
    np_sets p (np_set_destination a) (nh_destination_update (\<lambda>_. a))"
  using np_sets_byte0 [OF assms] np_sets_byte3 [OF assms] np_sets_codes [OF assms] np_sets_addresses [OF assms]
  by blast

definition np_sample :: net_packet where
  "np_sample = \<lparr>np_data_len = 16, np_buffer = [0x92, 3, 1, 0x65, 10, 26, 0, 2, 10, 26, 0, 3, 0, 1, 0, 2, 0, 0]\<rparr>"

lemma np_setters_refine_witness:
  "np_sets np_sample (np_set_ttl 9) (nh_ttl_update (\<lambda>_. 9 AND 0x0F)) \<and>
   np_sets np_sample (np_set_encrypt_flag False) (nh_encrypt_update (\<lambda>_. False))"
  using np_setters_refine [of np_sample False Service 9 0]
  by (auto simp: np_sample_def np_wf_def)

text \<open>On a packet that any of the constructors returned, no accessor indexes out of bounds, and each
  returns its field of the abstract header.\<close>

theorem np_getters_refine:
  assumes "np_new b = Ok p \<or> np_new_encrypt b = Ok p \<or> np_new0 n b = Ok p"
  shows "np_wf p \<and> np_is_encrypt p = Ok (nh_encrypt (np_view p)) \<and>
    np_is_gateway p = Ok (nh_gateway (np_view p)) \<and>
    np_is_extension p = Ok (nh_extension (np_view p)) \<and>
    np_version p = Ok (version_from (nh_version (np_view p))) \<and>
    np_protocol p = Ok (protocol_from (nh_protocol (np_view p))) \<and>
    np_transport_protocol p = Ok (nh_transport (np_view p)) \<and>
    np_ttl p = Ok (nh_ttl (np_view p)) \<and> np_source_ttl p = Ok (nh_source_ttl (np_view p)) \<and>
    np_source p = Ok (nh_source (np_view p)) \<and> np_destination p = Ok (nh_destination (np_view p)) \<and>
    np_payload p = Ok (nh_payload (np_view p))"
proof -
  have "np_wf p"
    using assms np_new0_wf
    by (auto simp: np_new_def np_new_encrypt_def ENCRYPTION_RESERVED_def outcome_simps split: if_splits)
  then show ?thesis by (simp add: np_getters_view)
qed

lemma np_getters_refine_witness:
  "np_ttl np_sample = Ok 5 \<and> np_source_ttl np_sample = Ok 6 \<and> np_version np_sample = Ok V2 \<and>
   np_is_encrypt np_sample = Ok True \<and> np_payload np_sample = Ok [0, 1, 0, 2]"
  using np_getters_refine [of "np_buffer np_sample" np_sample 16]
  by (simp add: np_sample_def np_new0_def np_view_def version_from_def bit_simps)

text \<open>\<open>set_payload\<close> accepts exactly the payloads of the packet's payload length, and what it wrote is
  what \<open>payload\<close> reads, under an unchanged header; \<open>set_data_len\<close> accepts exactly the lengths the
  buffer can hold with a header.\<close>

theorem np_set_payload_spec:
  assumes "np_wf p"
  shows "(length pl = np_data_len p - 12 \<longrightarrow>
      (\<exists>q. np_set_payload pl p = Ok q \<and> np_wf q \<and> np_view q = (np_view p)\<lparr>nh_payload := pl\<rparr>)) \<and>
    (length pl \<noteq> np_data_len p - 12 \<longrightarrow> np_set_payload pl p = Err (IoError InvalidData)) \<and>
    (is_ok (np_set_data_len n p) \<longleftrightarrow> 12 \<le> n \<and> n \<le> length (np_buffer p)) \<and>
    (\<forall>q. np_set_data_len n p = Ok q \<longrightarrow> np_wf q \<and> np_head q = np_head p)"
  using np_wf_len [OF assms]
  by (auto simp: np_set_payload_def np_set_data_len_def put_slice_ok np_wf_def np_view_def Let_def
      nth_append np_head_def not_less)

lemma np_set_payload_spec_witness:
  "np_set_payload [1, 2, 3] np_sample = Err (IoError InvalidData)"
  using np_set_payload_spec [of np_sample "[1, 2, 3]" 12] by (simp add: np_sample_def np_wf_def)

lemma np_incr_ttl_facts:
  assumes "np_wf p"
  shows "\<exists>q. np_incr_ttl p = Ok (nh_ttl (np_view p) - 1, q) \<and> np_wf q \<and>
    np_view q = (np_view p)\<lparr>nh_ttl := (nh_ttl (np_view p) - 1) AND 0x0F\<rparr> \<and>
    (nh_ttl (np_view p) = 0 \<longrightarrow> nh_ttl (np_view q) = 15) \<and>
    (nh_ttl (np_view p) \<noteq> 0 \<longrightarrow> nh_ttl (np_view q) = nh_ttl (np_view p) - 1)"
proof -
  have mask: "w AND 0x0F = w" if "unat w \<le> 15" for w :: u8
  proof -
    have "w AND 0x0F = take_bit 4 w"
      by (simp add: take_bit_eq_mask mask_eq_exp_minus_1)
    moreover have "take_bit 4 w = w"
      using that by (simp add: take_bit_eq_mod word_unat_eq_iff unat_mod_distrib)
    ultimately show ?thesis by simp
  qed
  have le: "unat (nh_ttl (np_view p)) \<le> 15"
  proof -
    have "nh_ttl (np_view p) \<le> 15" by (simp add: np_view_fields word_and_le1)
    then show ?thesis by (simp add: word_le_nat_alt)
  qed
  obtain q where "np_set_ttl (nh_ttl (np_view p) - 1) p = Ok q" "np_wf q"
    "np_view q = (np_view p)\<lparr>nh_ttl := (nh_ttl (np_view p) - 1) AND 0x0F\<rparr>"
    using np_sets_byte3(1) [OF assms] by (auto simp: np_sets_def)
  moreover have "nh_ttl (np_view p) \<noteq> 0 \<Longrightarrow> (nh_ttl (np_view p) - 1) AND 0x0F = nh_ttl (np_view p) - 1"
    using le by (intro mask) (simp add: unat_minus_one)
  ultimately show ?thesis
    by (auto simp: np_incr_ttl_def np_getters_view [OF assms] Let_def)
qed

text \<open>\<open>incr_ttl\<close> decrements: it returns the new time to live and stores it, leaving the source time to
  live alone; on a packet whose time to live is already zero it stores 15 but returns 255.\<close>

theorem np_incr_ttl_spec:
  assumes "np_wf p"
  shows "\<exists>q. np_incr_ttl p = Ok (nh_ttl (np_view p) - 1, q) \<and> np_wf q \<and>
    np_view q = (np_view p)\<lparr>nh_ttl := (nh_ttl (np_view p) - 1) AND 0x0F\<rparr> \<and>
    (nh_ttl (np_view p) = 0 \<longrightarrow> nh_ttl (np_view q) = 15) \<and>
    (nh_ttl (np_view p) \<noteq> 0 \<longrightarrow> nh_ttl (np_view q) = nh_ttl (np_view p) - 1)"
  using assms by (rule np_incr_ttl_facts)

lemma np_incr_ttl_spec_witness: "\<exists>q. np_incr_ttl np_sample = Ok (4, q) \<and> np_wf q"
  using np_incr_ttl_spec [of np_sample] by (auto simp: np_sample_def np_wf_def np_view_def)

end
