(* ===== verification/Channel_Types.thy ===== *)
theory Channel_Types
  imports Vnt_Prelude
begin

text \<open>
  The value types of \<open>vnt/src/channel/mod.rs\<close>: channel modes, transports, socket addresses, routes
  and their keys. \<open>RouteSortKey\<close> and \<open>ConnectProtocol\<close> derive \<open>Ord\<close>, which is the lexicographic
  order of the fields (of the constructors); both are instances of \<open>linorder\<close> here.
  \<open>i64\<close> latencies are integers and \<open>usize\<close> socket indices natural numbers.
\<close>

datatype use_channel_type = Relay | P2p | All

definition is_only_relay :: "use_channel_type \<Rightarrow> bool" where
  "is_only_relay t \<longleftrightarrow> t = Relay"

definition is_only_p2p :: "use_channel_type \<Rightarrow> bool" where
  "is_only_p2p t \<longleftrightarrow> t = P2p"

definition is_all :: "use_channel_type \<Rightarrow> bool" where
  "is_all t \<longleftrightarrow> t = All"

datatype connect_protocol = UDP | TCP | WS | WSS

definition is_tcp :: "connect_protocol \<Rightarrow> bool" where
  "is_tcp p \<longleftrightarrow> p = TCP"

definition is_udp :: "connect_protocol \<Rightarrow> bool" where
  "is_udp p \<longleftrightarrow> p = UDP"

definition is_ws :: "connect_protocol \<Rightarrow> bool" where
  "is_ws p \<longleftrightarrow> p = WS"

definition is_wss :: "connect_protocol \<Rightarrow> bool" where
  "is_wss p \<longleftrightarrow> p = WSS"

definition is_transport :: "connect_protocol \<Rightarrow> bool" where
  "is_transport p \<longleftrightarrow> is_tcp p \<or> is_udp p"

definition is_base_tcp :: "connect_protocol \<Rightarrow> bool" where
  "is_base_tcp p \<longleftrightarrow> is_tcp p \<or> is_ws p \<or> is_wss p"

primrec connect_protocol_rank :: "connect_protocol \<Rightarrow> nat" where
  "connect_protocol_rank UDP = 0"
| "connect_protocol_rank TCP = 1"
| "connect_protocol_rank WS = 2"
| "connect_protocol_rank WSS = 3"

instantiation connect_protocol :: linorder
begin

definition less_eq_connect_protocol :: "connect_protocol \<Rightarrow> connect_protocol \<Rightarrow> bool" where
  "less_eq_connect_protocol p q \<longleftrightarrow> connect_protocol_rank p \<le> connect_protocol_rank q"

definition less_connect_protocol :: "connect_protocol \<Rightarrow> connect_protocol \<Rightarrow> bool" where
  "less_connect_protocol p q \<longleftrightarrow> connect_protocol_rank p < connect_protocol_rank q"

instance
proof
  fix p q :: connect_protocol
  show "p \<le> q \<Longrightarrow> q \<le> p \<Longrightarrow> p = q"
    by (cases p; cases q) (simp_all add: less_eq_connect_protocol_def)
qed (auto simp: less_eq_connect_protocol_def less_connect_protocol_def)

end

text \<open>\<open>std::net::SocketAddr\<close>: an IPv6 address keeps its 128 bits, flow and scope.\<close>

datatype socket_addr =
    SockV4 (sock_ip4: ipv4_addr) (sock_port: u16)
  | SockV6 (sock_ip6: "128 word") (sock_port: u16) (sock_flow: u32) (sock_scope: u32)

definition is_ipv4_addr :: "socket_addr \<Rightarrow> bool" where
  "is_ipv4_addr a = (case a of SockV4 _ _ \<Rightarrow> True | _ \<Rightarrow> False)"

section \<open>Routes\<close>

datatype route_key =
  RouteKey (rk_protocol: connect_protocol) (rk_index: nat) (rk_addr: socket_addr)

datatype route_sort_key = RouteSortKey (sk_metric: u8) (sk_rt: int)

record route =
  rt_protocol :: connect_protocol
  rt_index :: nat
  rt_addr :: socket_addr
  rt_metric :: u8
  rt_rt :: int

definition DEFAULT_RT :: int where
  "DEFAULT_RT = 9999"

definition route_new :: "connect_protocol \<Rightarrow> nat \<Rightarrow> socket_addr \<Rightarrow> u8 \<Rightarrow> int \<Rightarrow> route" where
  "route_new protocol index addr metric rt =
     \<lparr>rt_protocol = protocol, rt_index = index, rt_addr = addr, rt_metric = metric, rt_rt = rt\<rparr>"

definition route_from :: "route_key \<Rightarrow> u8 \<Rightarrow> int \<Rightarrow> route" where
  "route_from k metric rt =
     \<lparr>rt_protocol = rk_protocol k, rt_index = rk_index k, rt_addr = rk_addr k,
      rt_metric = metric, rt_rt = rt\<rparr>"

definition route_from_default_rt :: "route_key \<Rightarrow> u8 \<Rightarrow> route" where
  "route_from_default_rt k metric =
     \<lparr>rt_protocol = rk_protocol k, rt_index = rk_index k, rt_addr = rk_addr k,
      rt_metric = metric, rt_rt = DEFAULT_RT\<rparr>"

definition route_key_of :: "route \<Rightarrow> route_key" where
  "route_key_of r = RouteKey (rt_protocol r) (rt_index r) (rt_addr r)"

definition sort_key_of :: "route \<Rightarrow> route_sort_key" where
  "sort_key_of r = RouteSortKey (rt_metric r) (rt_rt r)"

definition is_p2p :: "route \<Rightarrow> bool" where
  "is_p2p r \<longleftrightarrow> rt_metric r = 1"

lemma route_key_of_from [simp]:
  "route_key_of (route_from k m t) = k" "route_key_of (route_from_default_rt k m) = k"
  by (simp_all add: route_key_of_def route_from_def route_from_default_rt_def)

lemma route_key_of_update [simp]:
  "route_key_of (r\<lparr>rt_metric := m\<rparr>) = route_key_of r" "route_key_of (r\<lparr>rt_rt := t\<rparr>) = route_key_of r"
  by (simp_all add: route_key_of_def)

instantiation route_sort_key :: linorder
begin

definition less_eq_route_sort_key :: "route_sort_key \<Rightarrow> route_sort_key \<Rightarrow> bool" where
  "less_eq_route_sort_key a b \<longleftrightarrow>
     sk_metric a < sk_metric b \<or> (sk_metric a = sk_metric b \<and> sk_rt a \<le> sk_rt b)"

definition less_route_sort_key :: "route_sort_key \<Rightarrow> route_sort_key \<Rightarrow> bool" where
  "less_route_sort_key a b \<longleftrightarrow>
     sk_metric a < sk_metric b \<or> (sk_metric a = sk_metric b \<and> sk_rt a < sk_rt b)"

instance
proof
  fix a b :: route_sort_key
  show "a \<le> b \<Longrightarrow> b \<le> a \<Longrightarrow> a = b"
    by (cases a; cases b) (auto simp: less_eq_route_sort_key_def)
qed (auto simp: less_eq_route_sort_key_def less_route_sort_key_def)

end

end
