(* ===== verification/Route_Table.thy ===== *)
theory Route_Table
  imports Channel_Types "HOL-Library.Multiset"
begin

text \<open>
  \<open>RouteTable\<close> of \<open>vnt/src/channel/context.rs\<close>: for every virtual address the routes known to its
  peer, with the moment each last received a packet. The hash map is a partial map; where the code
  iterates over it, the iteration order is a parameter. \<open>add_route_\<close> takes the read lock for the
  presence check and then the write lock, so it is two steps (\<open>rt_present\<close>, \<open>rt_insert\<close>) and the
  invariant is kept by each of them, whatever runs in between.
\<close>

type_synonym instant = nat
type_synonym route_list = "(route \<times> instant) list"

record route_table =
  rtb_table :: "ipv4_addr \<Rightarrow> (nat \<times> route_list) option"
  rtb_first_latency :: bool
  rtb_channel_num :: nat
  rtb_use_channel_type :: use_channel_type

definition rt_new :: "use_channel_type \<Rightarrow> bool \<Rightarrow> nat \<Rightarrow> route_table" where
  "rt_new use_channel_type first_latency channel_num =
     \<lparr>rtb_table = Map.empty, rtb_first_latency = first_latency, rtb_channel_num = channel_num,
      rtb_use_channel_type = use_channel_type\<rparr>"

section \<open>Looking up\<close>

definition rt_get_route_by_id :: "nat \<Rightarrow> ipv4_addr \<Rightarrow> route_table \<Rightarrow> route outcome" where
  "rt_get_route_by_id index peer t =
     (let not_found = Err (IoError NotFound) in
      case rtb_table t peer of None \<Rightarrow> not_found
      | Some (_, v) \<Rightarrow>
          if rtb_first_latency t then
            (case v of (route, _) # _ \<Rightarrow> Ok route | [] \<Rightarrow> not_found)
          else if length v \<noteq> 0 then
            (let route = fst (v ! (index mod length v)) in
             if rt_rt route \<noteq> DEFAULT_RT then Ok route
             else (case find (\<lambda>(r, _). rt_rt r \<noteq> DEFAULT_RT) v of
                     Some (r, _) \<Rightarrow> Ok r | None \<Rightarrow> not_found))
          else not_found)"

definition rt_route :: "ipv4_addr \<Rightarrow> route_table \<Rightarrow> route list option" where
  "rt_route peer t = map_option (\<lambda>(_, v). map fst v) (rtb_table t peer)"

definition rt_route_one :: "ipv4_addr \<Rightarrow> route_table \<Rightarrow> route option" where
  "rt_route_one peer t = (case rtb_table t peer of Some (_, (r, _) # _) \<Rightarrow> Some r | _ \<Rightarrow> None)"

definition rt_route_one_p2p :: "ipv4_addr \<Rightarrow> route_table \<Rightarrow> route option" where
  "rt_route_one_p2p peer t = (case rtb_table t peer of
     Some (_, v) \<Rightarrow> find is_p2p (map fst v) | None \<Rightarrow> None)"

text \<open>\<open>order\<close> is the order in which the hash map yields its keys.\<close>

fun rt_route_to_id :: "ipv4_addr list \<Rightarrow> route_key \<Rightarrow> route_table \<Rightarrow> ipv4_addr option" where
  "rt_route_to_id [] key t = None"
| "rt_route_to_id (k # ks) key t = (case rtb_table t k of
     Some (_, v) \<Rightarrow>
       if \<exists>(r, _) \<in> set v. route_key_of r = key \<and> is_p2p r then Some k else rt_route_to_id ks key t
   | None \<Rightarrow> rt_route_to_id ks key t)"

definition rt_p2p_num :: "ipv4_addr \<Rightarrow> route_table \<Rightarrow> nat" where
  "rt_p2p_num peer t = (case rtb_table t peer of
     Some (_, v) \<Rightarrow> length (filter (\<lambda>(k, _). is_p2p k) v) | None \<Rightarrow> 0)"

definition rt_no_need_punch :: "ipv4_addr \<Rightarrow> route_table \<Rightarrow> bool" where
  "rt_no_need_punch peer t = (case rtb_table t peer of
     Some (_, v) \<Rightarrow> rtb_channel_num t \<le> length (filter (\<lambda>(k, _). is_p2p k) v) | None \<Rightarrow> False)"

definition rt_all :: "ipv4_addr list \<Rightarrow> route_table \<Rightarrow> (ipv4_addr \<times> route list) list" where
  "rt_all order t = List.map_filter (\<lambda>k. map_option (\<lambda>(_, v). (k, map fst v)) (rtb_table t k)) order"

definition rt_all_p2p :: "ipv4_addr list \<Rightarrow> route_table \<Rightarrow> (ipv4_addr \<times> route) list" where
  "rt_all_p2p order t = List.map_filter (\<lambda>k. map_option (Pair k) (rt_route_one_p2p k t)) order"

definition rt_all_one :: "ipv4_addr list \<Rightarrow> route_table \<Rightarrow> (ipv4_addr \<times> route) list" where
  "rt_all_one order t = List.map_filter (\<lambda>k. map_option (Pair k) (rt_route_one k t)) order"

section \<open>Adding\<close>

text \<open>The scan of \<open>add_route_\<close> over the list of the peer.\<close>

datatype scan = Rejected | AlreadyPresent | Updated route_list | Missing

fun rt_scan :: "bool \<Rightarrow> bool \<Rightarrow> route \<Rightarrow> instant \<Rightarrow> route_list \<Rightarrow> scan" where
  "rt_scan first_latency only_if_absent route now [] = Missing"
| "rt_scan first_latency only_if_absent route now ((x, time) # l) =
     (if rt_metric x < rt_metric route \<and> \<not> first_latency then Rejected
      else if route_key_of x = route_key_of route then
        (if only_if_absent then AlreadyPresent
         else Updated ((x\<lparr>rt_metric := rt_metric route, rt_rt := rt_rt route\<rparr>, now) # l))
      else (case rt_scan first_latency only_if_absent route now l of
              Updated l' \<Rightarrow> Updated ((x, time) # l') | res \<Rightarrow> res))"

definition rt_present :: "ipv4_addr \<Rightarrow> route \<Rightarrow> route_table \<Rightarrow> bool" where
  "rt_present peer route t = (case rtb_table t peer of
     Some (_, l) \<Rightarrow> (\<exists>(x, _) \<in> set l. route_key_of x = route_key_of route) | None \<Rightarrow> False)"

definition rt_insert :: "bool \<Rightarrow> ipv4_addr \<Rightarrow> route \<Rightarrow> instant \<Rightarrow> route_table \<Rightarrow> bool \<times> route_table" where
  "rt_insert only_if_absent peer route now t =
     (let (cnt, l) = (case rtb_table t peer of Some e \<Rightarrow> e | None \<Rightarrow> (0, []));
          put = (\<lambda>l. t\<lparr>rtb_table := (rtb_table t)(peer \<mapsto> (cnt, l))\<rparr>) in
      case rt_scan (rtb_first_latency t) only_if_absent route now l of
        Rejected \<Rightarrow> (False, put l)
      | AlreadyPresent \<Rightarrow> (True, put l)
      | Updated l' \<Rightarrow> (True, put (sort_key (\<lambda>(k, _). rt_rt k) l'))
      | Missing \<Rightarrow>
          (let l1 = (if \<not> rtb_first_latency t \<and> is_p2p route
                     then filter (\<lambda>(k, _). is_p2p k) l else l)
           in (True, put (sort_key (\<lambda>(k, _). rt_rt k) l1 @ [(route, now)]))))"

definition rt_add_route0 :: "ipv4_addr \<Rightarrow> route \<Rightarrow> bool \<Rightarrow> instant \<Rightarrow> route_table \<Rightarrow> bool \<times> route_table" where
  "rt_add_route0 peer route only_if_absent now t =
     (if rtb_use_channel_type t = P2p \<and> \<not> is_p2p route then (False, t)
      else if only_if_absent \<and> rt_present peer route t then (True, t)
      else rt_insert only_if_absent peer route now t)"

definition rt_add_route_if_absent :: "ipv4_addr \<Rightarrow> route \<Rightarrow> instant \<Rightarrow> route_table \<Rightarrow> bool \<times> route_table" where
  "rt_add_route_if_absent peer route now t = rt_add_route0 peer route True now t"

definition rt_add_route :: "ipv4_addr \<Rightarrow> route \<Rightarrow> instant \<Rightarrow> route_table \<Rightarrow> bool \<times> route_table" where
  "rt_add_route peer route now t = rt_add_route0 peer route False now t"

section \<open>Removing and touching\<close>

definition rt_remove_route :: "ipv4_addr \<Rightarrow> route_key \<Rightarrow> route_table \<Rightarrow> route_table" where
  "rt_remove_route peer key t = (case rtb_table t peer of
     None \<Rightarrow> t
   | Some (cnt, routes) \<Rightarrow>
       (let routes = filter (\<lambda>(x, _). route_key_of x \<noteq> key) routes in
        if routes = [] then t\<lparr>rtb_table := (rtb_table t)(peer := None)\<rparr>
        else t\<lparr>rtb_table := (rtb_table t)(peer \<mapsto> (cnt, routes))\<rparr>))"

fun rt_touch :: "route_key \<Rightarrow> instant \<Rightarrow> route_list \<Rightarrow> route_list" where
  "rt_touch key now [] = []"
| "rt_touch key now ((r, time) # l) =
     (if route_key_of r = key then (r, now) # l else (r, time) # rt_touch key now l)"

definition rt_update_read_time :: "ipv4_addr \<Rightarrow> route_key \<Rightarrow> instant \<Rightarrow> route_table \<Rightarrow> route_table" where
  "rt_update_read_time peer key now t = (case rtb_table t peer of
     None \<Rightarrow> t
   | Some (cnt, routes) \<Rightarrow> t\<lparr>rtb_table := (rtb_table t)(peer \<mapsto> (cnt, rt_touch key now routes))\<rparr>)"

section \<open>The interface of a route store\<close>

text \<open>What the senders and handlers rely on: \<open>routes\<close> is the list of a peer, \<open>ok\<close> the invariant.\<close>

locale route_store =
  fixes routes :: "'t \<Rightarrow> ipv4_addr \<Rightarrow> route list" and ok :: "'t \<Rightarrow> bool"
    and add :: "ipv4_addr \<Rightarrow> route \<Rightarrow> 't \<Rightarrow> bool \<times> 't"
    and remove :: "ipv4_addr \<Rightarrow> route_key \<Rightarrow> 't \<Rightarrow> 't"
    and lookup :: "nat \<Rightarrow> ipv4_addr \<Rightarrow> 't \<Rightarrow> route outcome"
  assumes lookup_member: "lookup n peer t = Ok r \<Longrightarrow> r \<in> set (routes t peer)"
    and lookup_error: "lookup n peer t = Err (IoError NotFound) \<or> (\<exists>r. lookup n peer t = Ok r)"
    and ok_distinct: "ok t \<Longrightarrow> distinct (map route_key_of (routes t peer))"
    and add_ok: "ok t \<Longrightarrow> ok (snd (add peer r t))"
    and add_other: "other \<noteq> peer \<Longrightarrow> routes (snd (add peer r t)) other = routes t other"
    and add_rejects: "\<not> fst (add peer r t) \<Longrightarrow> routes (snd (add peer r t)) peer = routes t peer"
    and add_accepts: "fst (add peer r t) \<Longrightarrow>
      route_key_of r \<in> route_key_of ` set (routes (snd (add peer r t)) peer)"
    and remove_ok: "ok t \<Longrightarrow> ok (remove peer key t)"
    and remove_routes: "routes (remove peer key t) other =
      (if other = peer then filter (\<lambda>r. route_key_of r \<noteq> key) (routes t other) else routes t other)"
begin

lemma lookup_no_panic: "lookup n peer t \<noteq> Panic"
  using lookup_error [of n peer t] by auto

lemma lookup_empty: "routes t peer = [] \<Longrightarrow> lookup n peer t = Err (IoError NotFound)"
  using lookup_error [of n peer t] lookup_member [of n peer t] by auto

lemma lookup_after_remove: "lookup n peer (remove peer key t) = Ok r \<Longrightarrow> route_key_of r \<noteq> key"
  using lookup_member [of n peer "remove peer key t" r] by (auto simp: remove_routes)

lemma removed_twice: "routes (remove peer key (remove peer key t)) other = routes (remove peer key t) other"
  by (simp add: remove_routes)

lemma key_unique:
  assumes "ok t" and "r \<in> set (routes t peer)" and "s \<in> set (routes t peer)"
    and "route_key_of r = route_key_of s"
  shows "r = s"
  using assms ok_distinct [OF assms(1), of peer] by (auto simp: distinct_map dest: inj_onD)

text \<open>Any history of additions and removals keeps the invariant.\<close>

lemma history_ok:
  assumes "ok t" and "set fs \<subseteq> {f. \<exists>p r. f = (\<lambda>t. snd (add p r t))} \<union> {f. \<exists>p k. f = remove p k}"
  shows "ok (fold (\<lambda>f t. f t) fs t)"
  using assms by (induction fs arbitrary: t) (auto simp: add_ok remove_ok)

end

section \<open>The invariant\<close>

definition rt_routes :: "route_table \<Rightarrow> ipv4_addr \<Rightarrow> route list" where
  "rt_routes t peer = (case rtb_table t peer of Some (_, v) \<Rightarrow> map fst v | None \<Rightarrow> [])"

text \<open>
  What holds of the list of each peer: it is not empty, no two routes have the same key, in \<open>P2p\<close>
  mode all are direct, and all but the last one, which may have been appended after the sort, are
  ordered by latency.
\<close>

definition rt_list_ok :: "use_channel_type \<Rightarrow> route list \<Rightarrow> bool" where
  "rt_list_ok ct v \<longleftrightarrow> v \<noteq> [] \<and> distinct (map route_key_of v) \<and>
     (ct = P2p \<longrightarrow> (\<forall>r\<in>set v. is_p2p r)) \<and> sorted (map rt_rt (butlast v))"

definition rt_ok :: "route_table \<Rightarrow> bool" where
  "rt_ok t \<longleftrightarrow> (\<forall>peer c v. rtb_table t peer = Some (c, v) \<longrightarrow>
     rt_list_ok (rtb_use_channel_type t) (map fst v))"

lemma rt_new_ok: "rt_ok (rt_new ct fl n)"
  by (simp add: rt_ok_def rt_new_def)

lemma sorted_butlast: "sorted xs \<Longrightarrow> sorted (butlast xs)"
  by (simp add: butlast_conv_take sorted_wrt_take)

lemma sorted_butlast_filter:
  assumes "sorted (map f (butlast xs))"
  shows "sorted (map f (butlast (filter P xs)))"
proof (cases xs rule: rev_cases)
  case (snoc ys y)
  then have "sorted (map f (filter P ys))"
    using assms by (simp add: sorted_filter)
  then show ?thesis
    using snoc by (cases "P y") (simp_all add: butlast_append map_butlast sorted_butlast)
qed simp

lemma map_fst_insort_key:
  "map fst (insort_key (\<lambda>(k, _). f k) x v) = insort_key f (fst x) (map fst v)"
  by (induction v) (auto split: prod.splits)

lemma map_fst_sort_key: "map fst (sort_key (\<lambda>(k, _). f k) v) = sort_key f (map fst v)"
  by (induction v) (simp_all add: map_fst_insort_key)

lemma map_fst_filter: "map fst (filter (\<lambda>(k, _). P k) v) = filter P (map fst v)"
  by (induction v) auto

lemma sort_key_ok:
  assumes "rt_list_ok ct v"
  shows "rt_list_ok ct (sort_key rt_rt v)"
proof -
  have "mset (map route_key_of (sort_key rt_rt v)) = mset (map route_key_of v)" by simp
  then have "distinct (map route_key_of (sort_key rt_rt v))"
    using assms by (metis mset_eq_imp_distinct_iff rt_list_ok_def)
  moreover have "sort_key rt_rt v \<noteq> []"
    using assms by (metis length_0_conv length_sort rt_list_ok_def)
  ultimately show ?thesis
    using assms sorted_sort_key [of rt_rt v] by (auto simp: rt_list_ok_def map_butlast sorted_butlast)
qed

section \<open>The scan\<close>

definition has_key :: "route_key \<Rightarrow> route \<Rightarrow> bool" where
  "has_key key r \<longleftrightarrow> route_key_of r = key"

lemma route_with_key:
  "route_key_of x = route_key_of r \<Longrightarrow> x\<lparr>rt_metric := rt_metric r, rt_rt := rt_rt r\<rparr> = r"
  by (simp add: route_key_of_def)

text \<open>The scan stops at the first route that is shorter (unless latency decides) or has the key.\<close>

definition rt_blocks :: "bool \<Rightarrow> route \<Rightarrow> route \<Rightarrow> bool" where
  "rt_blocks fl r x \<longleftrightarrow> \<not> fl \<and> rt_metric x < rt_metric r"

lemma rt_scan_split:
  "(\<exists>pre x t post. l = pre @ (x, t) # post \<and>
      (\<forall>y\<in>set (map fst pre). \<not> rt_blocks fl r y \<and> route_key_of y \<noteq> route_key_of r) \<and>
      (rt_blocks fl r x \<and> rt_scan fl oa r now l = Rejected \<or>
       \<not> rt_blocks fl r x \<and> route_key_of x = route_key_of r \<and>
         rt_scan fl oa r now l = (if oa then AlreadyPresent else Updated (pre @ (r, now) # post)))) \<or>
   (\<forall>y\<in>set (map fst l). \<not> rt_blocks fl r y \<and> route_key_of y \<noteq> route_key_of r) \<and>
     rt_scan fl oa r now l = Missing"
proof (induction l)
  case (Cons e l)
  obtain x t where e: "e = (x, t)" by (cases e)
  show ?case
  proof (cases "rt_blocks fl r x \<or> route_key_of x = route_key_of r")
    case True
    then show ?thesis
      by (intro disjI1 exI [of _ "[]"] exI [of _ x] exI [of _ t] exI [of _ l])
         (auto simp: e rt_blocks_def route_with_key)
  next
    case False
    from Cons.IH show ?thesis
    proof (elim disjE exE conjE, goal_cases)
      case (1 pre x' t' post)
      then show ?case using False
        by (intro disjI1 exI [of _ "e # pre"] exI [of _ x'] exI [of _ t'] exI [of _ post])
           (auto simp: e rt_blocks_def)
    next
      case (2 pre x' t' post)
      then show ?case using False
        by (intro disjI1 exI [of _ "e # pre"] exI [of _ x'] exI [of _ t'] exI [of _ post])
           (auto simp: e rt_blocks_def)
    next
      case 3
      then show ?case using False by (auto simp: e rt_blocks_def)
    qed
  qed
qed simp

section \<open>What adding does to the list of the peer\<close>

lemma rt_insert_other: "other \<noteq> peer \<Longrightarrow> rt_routes (snd (rt_insert oa peer r now t)) other = rt_routes t other"
  by (auto simp: rt_insert_def rt_routes_def Let_def split: option.splits prod.splits scan.splits)

lemma rt_insert_fields:
  "rtb_first_latency (snd (rt_insert oa peer r now t)) = rtb_first_latency t"
  "rtb_use_channel_type (snd (rt_insert oa peer r now t)) = rtb_use_channel_type t"
  "rtb_channel_num (snd (rt_insert oa peer r now t)) = rtb_channel_num t"
  by (auto simp: rt_insert_def Let_def split: option.splits prod.splits scan.splits)

lemma rt_routes_put: "rt_routes (t\<lparr>rtb_table := (rtb_table t)(p \<mapsto> (c, l))\<rparr>) q =
    (if q = p then map fst l else rt_routes t q)"
  by (simp add: rt_routes_def)

text \<open>The four outcomes, on the routes alone.\<close>

lemma rt_insert_cases:
  obtains
    (rejected) pre x post where "rt_routes t peer = pre @ x # post"
      "\<forall>y\<in>set pre. route_key_of y \<noteq> route_key_of r" "rt_blocks (rtb_first_latency t) r x"
      "\<not> fst (rt_insert oa peer r now t)"
      "rt_routes (snd (rt_insert oa peer r now t)) peer = rt_routes t peer"
  | (present) "oa" "route_key_of r \<in> route_key_of ` set (rt_routes t peer)"
      "fst (rt_insert oa peer r now t)"
      "rt_routes (snd (rt_insert oa peer r now t)) peer = rt_routes t peer"
  | (updated) pre x post where "\<not> oa" "rt_routes t peer = pre @ x # post"
      "route_key_of x = route_key_of r" "\<forall>y\<in>set pre. route_key_of y \<noteq> route_key_of r"
      "\<forall>y\<in>insert x (set pre). \<not> rt_blocks (rtb_first_latency t) r y"
      "fst (rt_insert oa peer r now t)"
      "rt_routes (snd (rt_insert oa peer r now t)) peer = sort_key rt_rt (pre @ r # post)"
  | (missing) "route_key_of r \<notin> route_key_of ` set (rt_routes t peer)"
      "\<forall>y\<in>set (rt_routes t peer). \<not> rt_blocks (rtb_first_latency t) r y"
      "fst (rt_insert oa peer r now t)"
      "rt_routes (snd (rt_insert oa peer r now t)) peer =
        sort_key rt_rt (if \<not> rtb_first_latency t \<and> is_p2p r
          then filter is_p2p (rt_routes t peer) else rt_routes t peer) @ [r]"
proof -
  define c where "c = (case rtb_table t peer of Some e \<Rightarrow> fst e | None \<Rightarrow> 0)"
  define l where "l = (case rtb_table t peer of Some e \<Rightarrow> snd e | None \<Rightarrow> [])"
  have entry: "(case rtb_table t peer of Some e \<Rightarrow> e | None \<Rightarrow> (0, [])) = (c, l)"
    and routes: "rt_routes t peer = map fst l"
    by (auto simp: c_def l_def rt_routes_def split: option.splits)
  let ?fl = "rtb_first_latency t"
  consider
      (a) pre x ti post where "l = pre @ (x, ti) # post"
        "\<forall>y\<in>set (map fst pre). \<not> rt_blocks ?fl r y \<and> route_key_of y \<noteq> route_key_of r"
        "rt_blocks ?fl r x" "rt_scan ?fl oa r now l = Rejected"
    | (b) pre x ti post where "l = pre @ (x, ti) # post"
        "\<forall>y\<in>set (map fst pre). \<not> rt_blocks ?fl r y \<and> route_key_of y \<noteq> route_key_of r"
        "\<not> rt_blocks ?fl r x" "route_key_of x = route_key_of r"
        "rt_scan ?fl oa r now l = (if oa then AlreadyPresent else Updated (pre @ (r, now) # post))"
    | (c) "\<forall>y\<in>set (map fst l). \<not> rt_blocks ?fl r y \<and> route_key_of y \<noteq> route_key_of r"
        "rt_scan ?fl oa r now l = Missing"
    using rt_scan_split [of l ?fl r oa now] by blast
  then show thesis
  proof cases
    case a
    then show ?thesis
      by (intro rejected [of "map fst pre" x "map fst post"])
         (simp_all add: rt_insert_def entry routes Let_def rt_routes_put)
  next
    case b
    show ?thesis
    proof (cases oa)
      case True
      then show ?thesis
        using b by (intro present) (simp_all add: rt_insert_def entry routes Let_def rt_routes_put)
    next
      case False
      then show ?thesis
        using b by (intro updated [of "map fst pre" x "map fst post"])
          (simp_all add: rt_insert_def entry routes Let_def rt_routes_put map_fst_sort_key)
    qed
  next
    case c
    then show ?thesis
      by (intro missing)
         (auto simp: rt_insert_def entry routes Let_def rt_routes_put map_fst_sort_key map_fst_filter)
  qed
qed

lemma rt_ok_iff:
  "rt_ok t \<longleftrightarrow> (\<forall>peer. rtb_table t peer \<noteq> None \<longrightarrow> rt_list_ok (rtb_use_channel_type t) (rt_routes t peer))"
  by (fastforce simp: rt_ok_def rt_routes_def split: option.splits)

lemma rt_insert_dom: "rtb_table (snd (rt_insert oa peer r now t)) other = None \<longleftrightarrow>
    rtb_table t other = None \<and> other \<noteq> peer"
  by (auto simp: rt_insert_def Let_def split: option.splits prod.splits scan.splits)

lemma rt_routes_ok:
  "rt_ok t \<Longrightarrow> rt_routes t peer = [] \<or> rt_list_ok (rtb_use_channel_type t) (rt_routes t peer)"
  by (cases "rtb_table t peer = None") (auto simp: rt_ok_iff rt_routes_def)

lemma rt_list_ok_snoc:
  assumes "v = [] \<or> rt_list_ok ct v" and "route_key_of r \<notin> route_key_of ` set v" and "ct = P2p \<longrightarrow> is_p2p r"
  shows "rt_list_ok ct (sort_key rt_rt (filter P v) @ [r])"
proof -
  have "distinct (map route_key_of v)" using assms(1) by (auto simp: rt_list_ok_def)
  then have "distinct (map route_key_of (filter P v))" by (simp add: distinct_map_filter)
  moreover have "mset (map route_key_of (sort_key rt_rt (filter P v))) = mset (map route_key_of (filter P v))"
    by simp
  ultimately have "distinct (map route_key_of (sort_key rt_rt (filter P v)))"
    by (metis mset_eq_imp_distinct_iff)
  then show ?thesis
    using assms by (auto simp: rt_list_ok_def)
qed

lemma rt_insert_ok:
  assumes "rt_ok t" and "rtb_use_channel_type t = P2p \<longrightarrow> is_p2p r"
  shows "rt_ok (snd (rt_insert oa peer r now t))"
proof -
  let ?ct = "rtb_use_channel_type t"
  have old: "rt_routes t peer = [] \<or> rt_list_ok ?ct (rt_routes t peer)"
    by (rule rt_routes_ok [OF assms(1)])
  have "rt_list_ok ?ct (rt_routes (snd (rt_insert oa peer r now t)) peer)"
  proof (cases rule: rt_insert_cases [of t peer r oa now])
    case (updated pre x post)
    have "rt_list_ok ?ct (pre @ x # post)" using old updated(2) by simp
    then have "rt_list_ok ?ct (sort_key rt_rt (pre @ r # post))"
    proof -
      have "mset (map route_key_of (sort_key rt_rt (pre @ r # post))) = mset (map route_key_of (pre @ x # post))"
        using updated(3) by simp
      then have "distinct (map route_key_of (sort_key rt_rt (pre @ r # post)))"
        using \<open>rt_list_ok ?ct (pre @ x # post)\<close> by (metis mset_eq_imp_distinct_iff rt_list_ok_def)
      moreover have "sort_key rt_rt (pre @ r # post) \<noteq> []"
        by (metis length_0_conv length_sort append_is_Nil_conv list.distinct(1))
      ultimately show ?thesis
        using \<open>rt_list_ok ?ct (pre @ x # post)\<close> assms(2) sorted_sort_key [of rt_rt "pre @ r # post"]
        by (auto simp: rt_list_ok_def map_butlast sorted_butlast)
    qed
    then show ?thesis using updated by simp
  next
    case missing
    then show ?thesis
      using rt_list_ok_snoc [OF old, of r is_p2p] rt_list_ok_snoc [OF old, of r "\<lambda>_. True"] assms(2)
      by auto
  qed (use old in auto)
  then show ?thesis
    using assms(1) unfolding rt_ok_iff rt_insert_dom rt_insert_fields
    by (metis rt_insert_other)
qed

lemma rt_remove_route_routes: "rt_routes (rt_remove_route peer key t) other =
    (if other = peer then filter (\<lambda>r. route_key_of r \<noteq> key) (rt_routes t other) else rt_routes t other)"
proof -
  have "filter (\<lambda>(x, _). route_key_of x \<noteq> key) v = [] \<Longrightarrow> filter (\<lambda>r. route_key_of r \<noteq> key) (map fst v) = []"
    for v :: route_list
    by (metis (no_types) list.map_disc_iff map_fst_filter)
  then show ?thesis
    by (auto simp: rt_remove_route_def rt_routes_def Let_def map_fst_filter split: option.splits)
qed

lemma rt_remove_fields: "rtb_use_channel_type (rt_remove_route peer key t) = rtb_use_channel_type t"
  "rtb_first_latency (rt_remove_route peer key t) = rtb_first_latency t"
  by (auto simp: rt_remove_route_def Let_def split: option.splits)

lemma rt_list_ok_filter:
  "rt_list_ok ct v \<Longrightarrow> filter P v \<noteq> [] \<Longrightarrow> rt_list_ok ct (filter P v)"
  by (auto simp: rt_list_ok_def distinct_map_filter sorted_butlast_filter)

lemma rt_remove_route_ok: 
  assumes "rt_ok t"
  shows "rt_ok (rt_remove_route peer key t)"
proof -
  have "rt_list_ok (rtb_use_channel_type t) (rt_routes (rt_remove_route peer key t) other)"
    if e: "rtb_table (rt_remove_route peer key t) other \<noteq> None" for other
  proof -
    have "rt_routes (rt_remove_route peer key t) other \<noteq> []" "rtb_table t other \<noteq> None"
      using e assms
      by (auto simp: rt_remove_route_def rt_routes_def Let_def rt_ok_def rt_list_ok_def
          split: option.splits if_splits)
    then show ?thesis
      using assms rt_list_ok_filter by (auto simp: rt_remove_route_routes rt_ok_iff)
  qed
  then show ?thesis by (simp add: rt_ok_iff rt_remove_fields)
qed

lemma rt_touch_routes: "map fst (rt_touch key now v) = map fst v"
  by (induction v rule: rt_touch.induct) auto

lemma rt_update_read_time_routes: "rt_routes (rt_update_read_time peer key now t) other = rt_routes t other"
  by (auto simp: rt_update_read_time_def rt_routes_def rt_touch_routes split: option.splits)

lemma rt_update_read_time_ok: "rt_ok t \<Longrightarrow> rt_ok (rt_update_read_time peer key now t)"
  by (auto simp: rt_update_read_time_def rt_ok_def rt_touch_routes split: option.splits)

text \<open>The three ways a lookup goes.\<close>

definition rt_usable :: "route \<Rightarrow> bool" where
  "rt_usable r \<longleftrightarrow> rt_rt r \<noteq> DEFAULT_RT"

lemma find_map_fst: "map_option fst (find (\<lambda>(r, _). P r) v) = find P (map fst v)"
  by (induction v) auto

lemma rt_get_route_by_id_eq:
  "rt_get_route_by_id n peer t =
    (let v = rt_routes t peer in
     case (if rtb_first_latency t then (if v = [] then None else Some (v ! 0))
           else if v = [] then None
           else if rt_usable (v ! (n mod length v)) then Some (v ! (n mod length v))
           else find rt_usable v) of
       Some r \<Rightarrow> Ok r | None \<Rightarrow> Err (IoError NotFound))"
proof (cases "rtb_table t peer")
  case (Some e)
  obtain c v where e: "e = (c, v)" by (cases e)
  show ?thesis
  proof (cases v)
    case (Cons x l)
    have "n mod length v < length v" using Cons by simp
    then have nth: "map fst v ! (n mod length v) = fst (v ! (n mod length v))" by simp
    have usable: "find rt_usable (map fst v) = map_option fst (find (\<lambda>(r, _). rt_rt r \<noteq> DEFAULT_RT) v)"
      using find_map_fst [of rt_usable v] by (simp add: rt_usable_def)
    show ?thesis
    proof (cases "rtb_first_latency t")
      case True
      then show ?thesis using Cons
        by (simp add: rt_get_route_by_id_def rt_routes_def Some e split: prod.splits)
    next
      case False
      have "rt_routes t peer = map fst v" by (simp add: rt_routes_def Some e)
      then show ?thesis using False Cons nth usable
        by (auto simp: rt_get_route_by_id_def Some e Let_def rt_usable_def
            simp del: list.map split: option.splits)
    qed
  qed (simp add: rt_get_route_by_id_def rt_routes_def Some e)
qed (simp add: rt_get_route_by_id_def rt_routes_def)

lemma rt_get_route_by_id_cases:
  "rt_get_route_by_id n peer t = Err (IoError NotFound) \<or>
   (\<exists>r\<in>set (rt_routes t peer). rt_get_route_by_id n peer t = Ok r)"
proof -
  have "v \<noteq> [] \<Longrightarrow> v ! (n mod length v) \<in> set v" for v :: "route list"
    by simp
  moreover have "find P v = Some r \<Longrightarrow> r \<in> set v" for P r and v :: "route list"
    by (auto simp: find_Some_iff)
  ultimately show ?thesis
    unfolding rt_get_route_by_id_eq Let_def by (simp split: option.splits)
qed

interpretation routes: route_store rt_routes rt_ok "\<lambda>p r t. rt_add_route p r now t" rt_remove_route
  rt_get_route_by_id for now
proof unfold_locales
  fix n :: nat and peer other :: ipv4_addr and t :: route_table and r :: route and key :: route_key
  show "rt_get_route_by_id n peer t = Ok r \<Longrightarrow> r \<in> set (rt_routes t peer)"
    using rt_get_route_by_id_cases [of n peer t] by auto
  show "rt_get_route_by_id n peer t = Err (IoError NotFound) \<or> (\<exists>r. rt_get_route_by_id n peer t = Ok r)"
    using rt_get_route_by_id_cases [of n peer t] by auto
  show "rt_ok t \<Longrightarrow> distinct (map route_key_of (rt_routes t peer))"
    using rt_routes_ok [of t peer] by (auto simp: rt_list_ok_def)
  show "rt_ok t \<Longrightarrow> rt_ok (snd (rt_add_route peer r now t))"
    by (auto simp: rt_add_route_def rt_add_route0_def rt_insert_ok)
  show "other \<noteq> peer \<Longrightarrow> rt_routes (snd (rt_add_route peer r now t)) other = rt_routes t other"
    by (simp add: rt_add_route_def rt_add_route0_def rt_insert_other)
  show "\<not> fst (rt_add_route peer r now t) \<Longrightarrow>
      rt_routes (snd (rt_add_route peer r now t)) peer = rt_routes t peer"
    by (cases rule: rt_insert_cases [of t peer r False now])
       (auto simp: rt_add_route_def rt_add_route0_def split: if_splits)
  show "fst (rt_add_route peer r now t) \<Longrightarrow>
      route_key_of r \<in> route_key_of ` set (rt_routes (snd (rt_add_route peer r now t)) peer)"
    by (cases rule: rt_insert_cases [of t peer r False now])
       (auto simp: rt_add_route_def rt_add_route0_def split: if_splits)
  show "rt_ok t \<Longrightarrow> rt_ok (rt_remove_route peer key t)"
    by (rule rt_remove_route_ok)
  show "rt_routes (rt_remove_route peer key t) other =
      (if other = peer then filter (\<lambda>r. route_key_of r \<noteq> key) (rt_routes t other) else rt_routes t other)"
    by (rule rt_remove_route_routes)
qed

section \<open>Reachable tables\<close>

text \<open>
  The write sections of the table's operations, in any order: an insertion that passed the channel
  filter (its presence check, done earlier under the read lock, says nothing about the table it
  finds now), a removal, a time stamp.
\<close>

inductive rt_reach :: "route_table \<Rightarrow> route_table \<Rightarrow> bool" where
  start: "rt_reach t t"
| insert: "rt_reach t u \<Longrightarrow> (rtb_use_channel_type u = P2p \<longrightarrow> is_p2p r) \<Longrightarrow>
    rt_reach t (snd (rt_insert oa peer r now u))"
| remove: "rt_reach t u \<Longrightarrow> rt_reach t (rt_remove_route peer key u)"
| touch: "rt_reach t u \<Longrightarrow> rt_reach t (rt_update_read_time peer key now u)"

lemma rt_update_fields: "rtb_use_channel_type (rt_update_read_time peer key now t) = rtb_use_channel_type t"
  by (auto simp: rt_update_read_time_def split: option.splits)

lemma rt_reach_add_route: "rt_reach t u \<Longrightarrow> rt_reach t (snd (rt_add_route0 peer r oa now u))"
  by (auto simp: rt_add_route0_def intro: rt_reach.insert)

lemma rt_reach_ok:
  assumes "rt_reach (rt_new ct fl n) t"
  shows "rt_ok t \<and> rtb_use_channel_type t = ct"
  using assms
proof (induction "rt_new ct fl n" t rule: rt_reach.induct)
  case start
  then show ?case by (simp add: rt_new_ok) (simp add: rt_new_def)
qed (auto simp: rt_insert_ok rt_insert_fields rt_remove_route_ok rt_remove_fields
    rt_update_read_time_ok rt_update_fields)

text \<open>C2: Whatever sequence of additions, removals and time stamps ran, interleaved between the read
  and the write section of any addition: the list of every peer in the table is non-empty, holds
  each route key once, holds only direct routes in \<open>P2p\<close> mode, and is ordered by latency except for
  its last element.\<close>

theorem rt_reachable_ok:
  assumes "rt_reach (rt_new ct fl n) t" and "rtb_table t peer \<noteq> None"
  shows "rt_routes t peer \<noteq> [] \<and> distinct (map route_key_of (rt_routes t peer)) \<and>
    (ct = P2p \<longrightarrow> (\<forall>r\<in>set (rt_routes t peer). is_p2p r)) \<and>
    sorted (map rt_rt (butlast (rt_routes t peer)))"
  using rt_reach_ok [OF assms(1)] assms(2) by (auto simp: rt_ok_iff rt_list_ok_def)

definition sample_addr :: socket_addr where
  "sample_addr = SockV4 0x01020304 29872"

definition sample_route :: "nat \<Rightarrow> u8 \<Rightarrow> int \<Rightarrow> route" where
  "sample_route i m t = route_from (RouteKey UDP i sample_addr) m t"

definition sample_table :: route_table where
  "sample_table = snd (rt_add_route 7 (sample_route 1 1 20) 1 (snd (rt_add_route 7 (sample_route 0 1 40) 0
     (rt_new P2p True 2))))"

lemma sample_table_routes: "rt_routes sample_table 7 = [sample_route 0 1 40, sample_route 1 1 20]"
  "rtb_table sample_table 7 \<noteq> None" "rtb_first_latency sample_table" "rtb_channel_num sample_table = 2"
  "rtb_use_channel_type sample_table = P2p" 
  by (simp_all add: sample_table_def rt_add_route_def rt_add_route0_def rt_insert_def rt_new_def sample_route_def
      route_from_def is_p2p_def route_key_of_def rt_routes_def Let_def)

lemma sample_table_reach: "rt_reach (rt_new P2p True 2) sample_table"
  unfolding sample_table_def rt_add_route_def by (intro rt_reach_add_route rt_reach.start)

lemma rt_reachable_ok_witness:
  "distinct (map route_key_of (rt_routes sample_table 7)) \<and> sorted (map rt_rt (butlast (rt_routes sample_table 7)))"
  using rt_reachable_ok [OF sample_table_reach, of 7] sample_table_routes by simp

section \<open>Adding, functionally\<close>

text \<open>C5: What \<open>add_route\<close> does. A relayed route is refused in \<open>P2p\<close> mode; unless latency decides, a
  route is refused when a shorter one stands before its own entry; a refusal changes no list. A
  known key gets the new metric and latency in place and the list is sorted by latency. A new key is
  appended after the sorted list, from which, unless latency decides, a direct route first
  evicts the relayed ones. Other peers are never touched.\<close>

theorem rt_add_route_effect:
  fixes t :: route_table and r :: route and peer :: ipv4_addr and now :: instant
  defines "v \<equiv> rt_routes t peer" and "res \<equiv> rt_add_route peer r now t" and "key \<equiv> route_key_of r"
  defines "before \<equiv> takeWhile (\<lambda>x. route_key_of x \<noteq> key) v"
    and "own \<equiv> filter (\<lambda>x. route_key_of x = key) v"
  shows "(rt_ok t \<longrightarrow> fst res = (\<not> (rtb_use_channel_type t = P2p \<and> \<not> is_p2p r) \<and>
      (rtb_first_latency t \<or> (\<forall>x\<in>set (before @ own). rt_metric r \<le> rt_metric x)))) \<and>
    (\<not> fst res \<longrightarrow> rt_routes (snd res) peer = v) \<and>
    (rt_ok t \<and> fst res \<and> key \<in> route_key_of ` set v \<longrightarrow>
      rt_routes (snd res) peer = sort_key rt_rt (map (\<lambda>x. if route_key_of x = key then r else x) v)) \<and>
    (fst res \<and> key \<notin> route_key_of ` set v \<longrightarrow>
      rt_routes (snd res) peer = sort_key rt_rt (if \<not> rtb_first_latency t \<and> is_p2p r
        then filter is_p2p v else v) @ [r]) \<and>
    (\<forall>other. other \<noteq> peer \<longrightarrow> rt_routes (snd res) other = rt_routes t other)"
proof (cases "rtb_use_channel_type t = P2p \<and> \<not> is_p2p r")
  case True
  then show ?thesis by (auto simp: res_def v_def rt_add_route_def rt_add_route0_def)
next
  case False
  then have res: "res = rt_insert False peer r now t"
    by (auto simp: res_def rt_add_route_def rt_add_route0_def)
  have dist: "rt_ok t \<Longrightarrow> distinct (map route_key_of v)"
    using rt_routes_ok [of t peer] by (auto simp: rt_list_ok_def v_def)
  have other: "\<forall>other. other \<noteq> peer \<longrightarrow> rt_routes (snd res) other = rt_routes t other"
    by (simp add: res rt_insert_other)
  show ?thesis
  proof (cases rule: rt_insert_cases [of t peer r False now])
    case (rejected pre x post)
    have "x \<in> set (before @ own)"
      using rejected(1,2) by (auto simp: before_def own_def v_def key_def takeWhile_append2)
    then show ?thesis
      using rejected False other by (auto simp: res v_def rt_blocks_def not_le)
  next
    case (updated pre x post)
    have own: "own = [x]" "\<forall>y\<in>set (pre @ post). route_key_of y \<noteq> key" if "rt_ok t"
    proof -
      have "distinct (map route_key_of (pre @ x # post))" using dist [OF that] updated(2) by (simp add: v_def)
      then show "\<forall>y\<in>set (pre @ post). route_key_of y \<noteq> key"
        using updated(3) by (auto simp: key_def image_iff)
      then show "own = [x]"
        using updated(2,3) by (auto simp: own_def v_def key_def filter_empty_conv)
    qed
    moreover have "before = pre"
      using updated(2-4) by (auto simp: before_def v_def key_def takeWhile_append2)
    moreover have "map (\<lambda>y. if route_key_of y = key then r else y) v = pre @ r # post" if "rt_ok t"
    proof -
      have "map (\<lambda>y. if route_key_of y = key then r else y) l = l" if "\<forall>y\<in>set l. route_key_of y \<noteq> key" for l
        using that by (induction l) auto
      then show ?thesis using own(2) [OF that] updated(2,3) by (simp add: v_def key_def)
    qed
    ultimately show ?thesis
      using updated False other by (auto simp: res v_def rt_blocks_def not_less key_def)
  next
    case missing
    have "own = []" using missing(1) unfolding own_def key_def v_def filter_empty_conv by (metis imageI)
    moreover have "set before \<subseteq> set v" by (auto simp: before_def dest: set_takeWhileD)
    ultimately show ?thesis
      using missing False other by (auto simp: res v_def rt_blocks_def not_less key_def)
  qed auto
qed

lemma rt_add_route_effect_witness:
  "rt_routes (snd (rt_add_route 7 (sample_route 2 1 5) 9 sample_table)) 7 =
     [sample_route 1 1 20, sample_route 0 1 40, sample_route 2 1 5] \<and>
   \<not> fst (rt_add_route 7 (sample_route 2 3 5) 9 sample_table)"
proof -
  have ok: "rt_ok sample_table"
    using rt_reach_ok [OF sample_table_reach] by simp
  have keys: "route_key_of (sample_route 2 1 5) \<notin> route_key_of ` set (rt_routes sample_table 7)"
    by (simp add: sample_table_routes) (simp add: sample_route_def)
  have "rt_rt (sample_route i m l) = l" for i m l by (simp add: sample_route_def route_from_def)
  moreover have "is_p2p (sample_route 2 1 5)" "\<not> is_p2p (sample_route 2 3 5)"
    by (simp_all add: is_p2p_def sample_route_def route_from_def)
  ultimately show ?thesis
    using rt_add_route_effect [where t = sample_table and r = "sample_route 2 1 5" and now = 9 and peer = 7] ok keys
      rt_add_route_effect [where t = sample_table and r = "sample_route 2 3 5" and now = 9 and peer = 7] sample_table_routes
    by simp
qed

section \<open>Looking up, functionally\<close>

text \<open>C30: \<open>get_route_by_id\<close> never panics and returns only routes of the peer. With latency first it
  returns the first route, whose latency is the least of all but the last route's. Otherwise it
  returns a measured route (not at the default latency): the one at \<open>index\<close> modulo their number if that is measured,
  else the first measured one; and it fails exactly when the peer has none.\<close>

theorem rt_lookup_spec:
  fixes t :: route_table and peer :: ipv4_addr and n :: nat
  assumes "rt_ok t"
  defines "v \<equiv> rt_routes t peer"
  shows "(rtb_first_latency t \<longrightarrow>
      rt_get_route_by_id n peer t = (if v = [] then Err (IoError NotFound) else Ok (hd v)) \<and>
      (\<forall>r\<in>set (butlast v). rt_rt (hd v) \<le> rt_rt r)) \<and>
    (\<not> rtb_first_latency t \<longrightarrow>
      (rt_get_route_by_id n peer t = Err (IoError NotFound) \<longleftrightarrow> (\<forall>r\<in>set v. rt_rt r = DEFAULT_RT)) \<and>
      (\<forall>r. rt_get_route_by_id n peer t = Ok r \<longrightarrow> r \<in> set v \<and> rt_rt r \<noteq> DEFAULT_RT \<and>
         (rt_rt (v ! (n mod length v)) \<noteq> DEFAULT_RT \<longrightarrow> r = v ! (n mod length v)))) \<and>
    rt_get_route_by_id n peer t \<noteq> Panic"
proof -
  have member: "rt_get_route_by_id n peer t = Ok r \<Longrightarrow> r \<in> set v" for r
    using routes.lookup_member [of n peer t r] by (simp add: v_def)
  have eq: "rt_get_route_by_id n peer t =
     (case (if rtb_first_latency t then (if v = [] then None else Some (v ! 0))
            else if v = [] then None
            else if rt_usable (v ! (n mod length v)) then Some (v ! (n mod length v))
            else find rt_usable v) of
        Some r \<Rightarrow> Ok r | None \<Rightarrow> Err (IoError NotFound))"
    unfolding rt_get_route_by_id_eq Let_def v_def ..
  have "\<forall>r\<in>set (butlast v). rt_rt (hd v) \<le> rt_rt r"
  proof (cases v)
    case (Cons x l)
    then have "sorted (map rt_rt (butlast (x # l)))"
      using rt_routes_ok [OF assms(1), of peer] by (auto simp: rt_list_ok_def v_def)
    then show ?thesis using Cons by (cases l) auto
  qed simp
  moreover have "v \<noteq> [] \<Longrightarrow> v ! (n mod length v) \<in> set v" by simp
  moreover have find: "find rt_usable v = Some r \<Longrightarrow> r \<in> set v \<and> rt_usable r" for r
    by (auto simp: find_Some_iff)
  moreover have "rt_get_route_by_id n peer t = (if v = [] then Err (IoError NotFound) else Ok (hd v))"
    if "rtb_first_latency t"
    using that by (simp add: eq hd_conv_nth)
  moreover have "rt_get_route_by_id n peer t = Err (IoError NotFound) \<longleftrightarrow> (\<forall>r\<in>set v. rt_rt r = DEFAULT_RT)"
    if "\<not> rtb_first_latency t"
  proof (cases "v = []")
    case False
    then have "v ! (n mod length v) \<in> set v" by simp
    then show ?thesis
      using that False find find_None_iff [of rt_usable v]
      by (cases "find rt_usable v") (auto simp: eq rt_usable_def)
  qed (use that in \<open>simp add: eq\<close>)
  moreover have "rt_rt r \<noteq> DEFAULT_RT \<and> (rt_rt (v ! (n mod length v)) \<noteq> DEFAULT_RT \<longrightarrow> r = v ! (n mod length v))"
    if "\<not> rtb_first_latency t" "rt_get_route_by_id n peer t = Ok r" for r
    using that calculation(3) [of r] by (auto simp: eq rt_usable_def split: option.splits if_splits)
  ultimately show ?thesis
    using member routes.lookup_no_panic [of n peer t] by blast
qed

lemma rt_lookup_spec_witness: "rt_get_route_by_id 5 7 sample_table = Ok (sample_route 0 1 40)"
  using rt_lookup_spec [where t = sample_table and peer = 7 and n = 5] rt_reach_ok [OF sample_table_reach] sample_table_routes
  by simp

text \<open>Unless latency decides, adding a route never lengthens anything: every key that stays in the list
  keeps its metric or gets a smaller one, and a direct route with a new key leaves only direct
  routes.\<close>

theorem rt_not_longer:
  assumes "\<not> rtb_first_latency t" and "rt_ok t"
    and "x \<in> set (rt_routes t peer)" and "y \<in> set (rt_routes (snd (rt_add_route peer r now t)) peer)"
    and "route_key_of x = route_key_of y"
  shows "rt_metric y \<le> rt_metric x \<and>
    (fst (rt_add_route peer r now t) \<and> is_p2p r \<and> route_key_of r \<notin> route_key_of ` set (rt_routes t peer)
       \<longrightarrow> is_p2p y)"
proof (cases "rtb_use_channel_type t = P2p \<and> \<not> is_p2p r")
  case True
  then have "y \<in> set (rt_routes t peer)" using assms(4) by (simp add: rt_add_route_def rt_add_route0_def)
  then show ?thesis
    using routes.key_unique [OF assms(2,3) _ assms(5)] True by (simp add: rt_add_route_def rt_add_route0_def)
next
  case False
  then have ins: "rt_add_route peer r now t = rt_insert False peer r now t"
    by (auto simp: rt_add_route_def rt_add_route0_def)
  have same: "y \<in> set (rt_routes t peer) \<Longrightarrow> y = x"
    using routes.key_unique [OF assms(2,3) _ assms(5)] by simp
  show ?thesis
  proof (cases rule: rt_insert_cases [of t peer r False now])
    case (updated pre z post)
    have z: "z \<in> set (rt_routes t peer)" using updated(2) by simp
    have "y = r \<or> y \<in> set (rt_routes t peer)" using assms(4) updated(2,7) by (auto simp: ins)
    moreover have "y = r \<Longrightarrow> x = z"
      using routes.key_unique [OF assms(2,3) z] assms(5) updated(3) by simp
    moreover have "rt_metric r \<le> rt_metric z"
      using updated(5) assms(1) by (simp add: rt_blocks_def not_less)
    moreover have "route_key_of r \<in> route_key_of ` set (rt_routes t peer)"
      using updated(3) z by (metis imageI)
    ultimately show ?thesis using same by auto
  next
    case missing
    then have "y \<noteq> r" using assms(3,5) by (metis imageI)
    moreover have "y \<in> insert r (set (if is_p2p r then filter is_p2p (rt_routes t peer) else rt_routes t peer))"
      using missing(4) assms(1,4) by (simp add: ins)
    ultimately show ?thesis using same by (auto split: if_splits)
  next
    case rejected
    then show ?thesis using assms(4) same by (simp add: ins)
  next
    case present
    then show ?thesis by simp
  qed
qed

lemma rt_not_longer_witness:
  "\<exists>t. \<not> rtb_first_latency t \<and>
     rt_metric (sample_route 0 1 9) \<le> rt_metric (sample_route 0 2 40) \<and>
     rt_routes (snd (rt_add_route 7 (sample_route 0 1 9) 3 t)) 7 = [sample_route 0 1 9]"
proof -
  define t where "t = snd (rt_add_route 7 (sample_route 0 2 40) 0 (rt_new All False 2))"
  have t: "rt_routes t 7 = [sample_route 0 2 40]" "\<not> rtb_first_latency t"
    "rt_routes (snd (rt_add_route 7 (sample_route 0 1 9) 3 t)) 7 = [sample_route 0 1 9]"
    by (simp_all add: t_def rt_add_route_def rt_add_route0_def rt_insert_def rt_new_def sample_route_def
        route_from_def is_p2p_def route_key_of_def rt_routes_def Let_def)
  moreover have "rt_ok t"
    unfolding t_def rt_add_route_def
    using rt_reach_ok [OF rt_reach_add_route [OF rt_reach.start]] by blast
  ultimately show ?thesis
    using rt_not_longer [of t "sample_route 0 2 40" 7 "sample_route 0 1 9" "sample_route 0 1 9" 3]
    by (auto simp: sample_route_def)
qed

text \<open>C31: After \<open>remove_route\<close> no lookup yields the removed key, and the other routes stay in order; when
  it was the last one, the peer is dropped from the table and its lookups fail.\<close>

theorem rt_remove_then_lookup:
  "(rt_get_route_by_id n peer (rt_remove_route peer key t) = Ok r \<longrightarrow> route_key_of r \<noteq> key) \<and>
   rt_routes (rt_remove_route peer key t) peer = filter (\<lambda>r. route_key_of r \<noteq> key) (rt_routes t peer) \<and>
   (rt_ok t \<and> (\<forall>r\<in>set (rt_routes t peer). route_key_of r = key) \<longrightarrow>
      rtb_table (rt_remove_route peer key t) peer = None \<and>
      rt_get_route_by_id n peer (rt_remove_route peer key t) = Err (IoError NotFound))"
proof -
  have gone: "rtb_table (rt_remove_route peer key t) peer = None"
    if "\<forall>r\<in>set (rt_routes t peer). route_key_of r = key"
  proof (cases "rtb_table t peer")
    case (Some e)
    obtain c v where e: "e = (c, v)" by (cases e)
    have "filter (\<lambda>r. route_key_of r \<noteq> key) (map fst v) = []"
      using that by (simp add: rt_routes_def Some e filter_empty_conv)
    then have "filter (\<lambda>(x, _). route_key_of x \<noteq> key) v = []"
      by (metis (no_types) list.map_disc_iff map_fst_filter)
    then show ?thesis by (simp add: rt_remove_route_def Some e)
  qed (simp add: rt_remove_route_def)
  then show ?thesis
    using routes.lookup_after_remove [of n peer key t r] routes.remove_routes [of peer key t peer]
    by (auto simp: rt_get_route_by_id_def)
qed

lemma rt_remove_then_lookup_witness:
  "rt_routes (rt_remove_route 7 (RouteKey UDP 0 sample_addr) sample_table) 7 = [sample_route 1 1 20]"
  using rt_remove_then_lookup [of 0 7 "RouteKey UDP 0 sample_addr" sample_table "sample_route 1 1 20"]
  by (simp add: sample_table_routes sample_route_def)

lemma bex_map_fst: "(\<exists>(r, _) \<in> set v. P r) \<longleftrightarrow> (\<exists>r\<in>set (map fst v). P r)"
  by (induction v) auto

lemma rt_route_to_id_Cons: "rt_route_to_id (k # ks) key t =
    (if \<exists>r\<in>set (rt_routes t k). route_key_of r = key \<and> is_p2p r then Some k else rt_route_to_id ks key t)"
proof (cases "rtb_table t k")
  case (Some e)
  obtain c v where e: "e = (c, v)" by (cases e)
  have "rt_routes t k = map fst v" by (simp add: rt_routes_def Some e)
  then show ?thesis
    by (simp only: rt_route_to_id.simps Some e option.case prod.case
        bex_map_fst [of v "\<lambda>r. route_key_of r = key \<and> is_p2p r"])
qed (simp add: rt_routes_def)

text \<open>\<open>route_to_id\<close> names a peer that has the key as a direct route, and finds one whenever there is
  one, whatever order the hash map iterates in.\<close>

theorem rt_route_to_id_spec:
  assumes "set order = dom (rtb_table t)"
  shows "case rt_route_to_id order key t of
      Some peer \<Rightarrow> (\<exists>r\<in>set (rt_routes t peer). route_key_of r = key \<and> is_p2p r)
    | None \<Rightarrow> \<not> (\<exists>peer. \<exists>r\<in>set (rt_routes t peer). route_key_of r = key \<and> is_p2p r)"
proof -
  have found: "\<exists>r\<in>set (rt_routes t peer). route_key_of r = key \<and> is_p2p r"
    if "rt_route_to_id ks key t = Some peer" for ks peer
    using that by (induction ks) (auto simp: rt_route_to_id_Cons split: if_splits simp del: rt_route_to_id.simps(2))
  have none: "\<not> (\<exists>r\<in>set (rt_routes t k). route_key_of r = key \<and> is_p2p r)"
    if "rt_route_to_id ks key t = None" "k \<in> set ks" for ks k
    using that by (induction ks) (auto simp: rt_route_to_id_Cons split: if_splits simp del: rt_route_to_id.simps(2))
  have outside: "rt_routes t k = []" if "k \<notin> set order" for k
    using that assms by (auto simp: rt_routes_def dom_def split: option.splits)
  show ?thesis
    using found [of order] none [of order] outside by (fastforce split: option.splits)
qed

lemma rt_route_to_id_spec_witness:
  "\<exists>r\<in>set (rt_routes sample_table 7). route_key_of r = RouteKey UDP 1 sample_addr \<and> is_p2p r"
proof -
  have d: "set [7] = dom (rtb_table sample_table)"
    by (auto simp: sample_table_def rt_add_route_def rt_add_route0_def rt_insert_def rt_new_def sample_route_def
        route_from_def is_p2p_def route_key_of_def Let_def)
  have "rt_route_to_id [7] (RouteKey UDP 1 sample_addr) sample_table = Some 7"
    using sample_table_routes
    by (auto simp: rt_routes_def sample_route_def route_from_def is_p2p_def route_key_of_def split: option.splits)
  with rt_route_to_id_spec [OF d, of "RouteKey UDP 1 sample_addr"] show ?thesis by simp
qed

text \<open>\<open>no_need_punch\<close> holds exactly when the peer has an entry with at least \<open>channel_num\<close> direct
  routes, so removing a direct route of the peer can only make punching needed again.\<close>

theorem rt_no_need_punch_spec:
  "(rt_no_need_punch peer t \<longleftrightarrow> rtb_table t peer \<noteq> None \<and> rtb_channel_num t \<le> rt_p2p_num peer t) \<and>
   rt_p2p_num peer t = length (filter is_p2p (rt_routes t peer)) \<and>
   rt_p2p_num peer (rt_remove_route peer key t) \<le> rt_p2p_num peer t"
proof -
  have num: "rt_p2p_num p u = length (filter is_p2p (rt_routes u p))" for p u
    by (simp add: rt_p2p_num_def rt_routes_def flip: map_fst_filter split: option.splits prod.splits)
  have "length (filter is_p2p (filter P xs)) \<le> length (filter is_p2p xs)" for P xs
    by (induction xs) auto
  then have "rt_p2p_num peer (rt_remove_route peer key t) \<le> rt_p2p_num peer t"
    by (simp only: num rt_remove_route_routes) simp
  moreover have "rt_no_need_punch peer t \<longleftrightarrow> rtb_table t peer \<noteq> None \<and> rtb_channel_num t \<le> rt_p2p_num peer t"
    by (auto simp: rt_no_need_punch_def rt_p2p_num_def split: option.splits)
  ultimately show ?thesis using num by blast
qed

end
