(* ===== verification/Limits.thy ===== *)
theory Limits
  imports Vnt_Prelude
begin

text \<open>
  \<open>vnt/src/util/limit\<close>: the token bucket \<open>RateLimiter\<close> and the traffic meters. Instants and
  durations are nanoseconds (\<open>nat\<close>); the clock is read once or twice per call, so each reading is an
  argument. Each meter sits behind a mutex, so a call is one step.
\<close>

type_synonym nanos = nat

definition NANOS :: nat where
  "NANOS = 1000000000"

section \<open>RateLimiter\<close>

record rate_limiter =
  rl_capacity :: nat
  rl_tokens :: nat
  rl_refill_rate :: nat
  rl_last_refill :: nanos

definition rl_new :: "nat \<Rightarrow> nat \<Rightarrow> nanos \<Rightarrow> rate_limiter" where
  "rl_new capacity refill_rate now =
     \<lparr>rl_capacity = capacity, rl_tokens = capacity, rl_refill_rate = refill_rate, rl_last_refill = now\<rparr>"

text \<open>\<open>duration_since\<close> saturates at zero, as \<open>nat\<close> subtraction does.\<close>

definition rl_refill :: "nanos \<Rightarrow> rate_limiter \<Rightarrow> rate_limiter" where
  "rl_refill now r =
     (let elapsed = (now - rl_last_refill r) div NANOS;
          new_tokens = elapsed * rl_refill_rate r
      in if 0 < new_tokens
         then r\<lparr>rl_tokens := min (rl_capacity r) (rl_tokens r + new_tokens), rl_last_refill := now\<rparr>
         else r)"

definition rl_try_acquire :: "nanos \<Rightarrow> rate_limiter \<Rightarrow> bool \<times> rate_limiter" where
  "rl_try_acquire now r =
     (let r = rl_refill now r in
      if 0 < rl_tokens r then (True, r\<lparr>rl_tokens := rl_tokens r - 1\<rparr>) else (False, r))"

fun rl_run :: "nanos list \<Rightarrow> rate_limiter \<Rightarrow> nat \<times> rate_limiter" where
  "rl_run [] r = (0, r)"
| "rl_run (t # ts) r =
     (let (got, r') = rl_try_acquire t r; (n, r'') = rl_run ts r'
      in (if got then Suc n else n, r''))"

lemma rl_refill_fields [simp]:
  "rl_capacity (rl_refill now r) = rl_capacity r" "rl_refill_rate (rl_refill now r) = rl_refill_rate r"
  by (simp_all add: rl_refill_def Let_def)

lemma rl_try_acquire_fields [simp]:
  "rl_capacity (snd (rl_try_acquire now r)) = rl_capacity r"
  "rl_refill_rate (snd (rl_try_acquire now r)) = rl_refill_rate r"
  by (simp_all add: rl_try_acquire_def Let_def)

lemma rl_refill_tokens: "rl_tokens r \<le> rl_capacity r \<Longrightarrow> rl_tokens (rl_refill now r) \<le> rl_capacity r"
  by (auto simp: rl_refill_def Let_def)

lemma rl_try_acquire_tokens:
  "rl_tokens r \<le> rl_capacity r \<Longrightarrow> rl_tokens (snd (rl_try_acquire now r)) \<le> rl_capacity r"
  using rl_refill_tokens [of r now] by (auto simp: rl_try_acquire_def Let_def)

text \<open>One call, with the credit of the time it moved \<open>last_refill\<close> over.\<close>

lemma rl_try_acquire_credit:
  assumes "rl_last_refill r \<le> now"
  defines "r' \<equiv> snd (rl_try_acquire now r)"
  shows "rl_last_refill r \<le> rl_last_refill r'" "rl_last_refill r' \<le> now"
    "(if fst (rl_try_acquire now r) then 1 else 0) + rl_tokens r' \<le>
       rl_tokens r + (rl_last_refill r' - rl_last_refill r) div NANOS * rl_refill_rate r"
proof -
  define n where "n = (now - rl_last_refill r) div NANOS * rl_refill_rate r"
  have refill: "rl_refill now r = (if 0 < n
      then r\<lparr>rl_tokens := min (rl_capacity r) (rl_tokens r + n), rl_last_refill := now\<rparr> else r)"
    unfolding rl_refill_def Let_def n_def ..
  have "rl_last_refill r' = (if 0 < n then now else rl_last_refill r)"
    "(if fst (rl_try_acquire now r) then 1 else 0) + rl_tokens r' \<le> rl_tokens r + n"
    unfolding r'_def rl_try_acquire_def refill Let_def by auto
  then show "rl_last_refill r \<le> rl_last_refill r'" "rl_last_refill r' \<le> now"
    "(if fst (rl_try_acquire now r) then 1 else 0) + rl_tokens r' \<le>
       rl_tokens r + (rl_last_refill r' - rl_last_refill r) div NANOS * rl_refill_rate r"
    using assms(1) by (auto simp: n_def split: if_splits)
qed

lemma div_add_le: "(a :: nat) div k + b div k \<le> (a + b) div k"
  by (simp add: div_add1_eq [of a b k])

lemma rl_run_Cons:
  "fst (rl_run (t # ts) r) =
     (if fst (rl_try_acquire t r) then 1 else 0) + fst (rl_run ts (snd (rl_try_acquire t r)))"
  "snd (rl_run (t # ts) r) = snd (rl_run ts (snd (rl_try_acquire t r)))"
  by (simp_all add: case_prod_beta Let_def)

declare rl_run.simps(2) [simp del]

lemma rl_run_bound:
  assumes "sorted (t0 # ts)" and "rl_last_refill r \<le> t0"
  shows "fst (rl_run ts r) \<le> rl_tokens r + (last (t0 # ts) - rl_last_refill r) div NANOS * rl_refill_rate r"
  using assms
proof (induction ts arbitrary: r t0)
  case (Cons t ts)
  define r' where "r' = snd (rl_try_acquire t r)"
  define got where "got = fst (rl_try_acquire t r)"
  have t: "rl_last_refill r \<le> t" using Cons.prems by simp
  note c = rl_try_acquire_credit [OF t, folded r'_def got_def]
  have "fst (rl_run ts r') \<le> rl_tokens r' + (last (t # ts) - rl_last_refill r') div NANOS * rl_refill_rate r'"
    using Cons.prems c(2) by (intro Cons.IH) auto
  moreover have "rl_refill_rate r' = rl_refill_rate r" by (simp add: r'_def)
  moreover have "fst (rl_run (t # ts) r) = (if got then 1 else 0) + fst (rl_run ts r')"
    by (simp add: got_def r'_def rl_run_Cons)
  moreover have "(rl_last_refill r' - rl_last_refill r) div NANOS + (last (t # ts) - rl_last_refill r') div NANOS
      \<le> (last (t # ts) - rl_last_refill r) div NANOS"
  proof -
    have "t \<le> last (t # ts)"
      using Cons.prems by (cases ts rule: rev_cases) (auto simp: sorted_append)
    then have "(rl_last_refill r' - rl_last_refill r) + (last (t # ts) - rl_last_refill r') =
        last (t # ts) - rl_last_refill r"
      using c(1,2) by linarith
    then show ?thesis by (metis div_add_le)
  qed
  then have "(rl_last_refill r' - rl_last_refill r) div NANOS * rl_refill_rate r +
      (last (t # ts) - rl_last_refill r') div NANOS * rl_refill_rate r
      \<le> (last (t # ts) - rl_last_refill r) div NANOS * rl_refill_rate r"
    by (metis add_mult_distrib mult_le_mono1)
  ultimately show ?case using c(3) by simp
qed simp

text \<open>C33: In any run of attempts the limiter grants at most its capacity plus \<open>refill_rate\<close> per whole
  second elapsed since it was made, and never holds more than \<open>capacity\<close> tokens.\<close>

theorem rate_limiter_bound:
  assumes "sorted (t0 # ts)"
  shows "fst (rl_run ts (rl_new capacity rate t0)) \<le> capacity + (last (t0 # ts) - t0) div NANOS * rate \<and>
    rl_tokens (snd (rl_run ts (rl_new capacity rate t0))) \<le> capacity"
proof -
  have "rl_tokens r \<le> rl_capacity r \<Longrightarrow> rl_tokens (snd (rl_run ts r)) \<le> rl_capacity r" for r
  proof (induction ts arbitrary: r)
    case (Cons t ts)
    then show ?case
      using Cons.IH [of "snd (rl_try_acquire t r)"] rl_try_acquire_tokens [of r t]
      by (simp add: rl_run_Cons)
  qed simp
  from this [of "rl_new capacity rate t0"] show ?thesis
    using rl_run_bound [OF assms, of "rl_new capacity rate t0"] by (simp add: rl_new_def)
qed

lemma rate_limiter_bound_witness:
  "fst (rl_run [5, 6, 7] (rl_new 2 1 5)) \<le> 2 + (last [5, 5, 6, 7] - 5) div NANOS * 1 \<and>
   rl_tokens (snd (rl_run [5, 6, 7] (rl_new 2 1 5))) \<le> 2"
  by (rule rate_limiter_bound) simp

text \<open>An attempt succeeds whenever a token is left or, with a positive capacity, when enough time
  has passed since the last refill for the rate to yield a token; it fails otherwise.\<close>

lemma rate_limiter_grants:
  "fst (rl_try_acquire now r) \<longleftrightarrow>
     0 < rl_tokens r \<and> (rl_refill_rate r = 0 \<or> now - rl_last_refill r < NANOS) \<or>
     0 < rl_refill_rate r \<and> NANOS \<le> now - rl_last_refill r \<and> 0 < rl_capacity r"
proof -
  have pos: "0 < (now - rl_last_refill r) div NANOS \<longleftrightarrow> NANOS \<le> now - rl_last_refill r"
    by (simp add: div_greater_zero_iff NANOS_def)
  show ?thesis
  proof (cases "0 < rl_refill_rate r \<and> NANOS \<le> now - rl_last_refill r")
    case True
    then show ?thesis using pos
      by (auto simp: rl_try_acquire_def rl_refill_def Let_def)
  next
    case False
    then have "(now - rl_last_refill r) div NANOS * rl_refill_rate r = 0" using pos by auto
    then show ?thesis using False
      by (auto simp: rl_try_acquire_def rl_refill_def Let_def)
  qed
qed

section \<open>TrafficMeter\<close>

text \<open>Counters are 64-bit (\<open>u64\<close>, \<open>usize\<close>) and wrap. \<open>now\<close> is the reading that \<open>elapsed\<close> takes and
  \<open>now'\<close> the one stored by the reset.\<close>

record traffic_meter =
  tm_start_time :: nanos
  tm_total :: u64
  tm_count :: u64
  tm_history_capacity :: nat
  tm_history :: "u64 list"

definition tm_new :: "nat \<Rightarrow> nanos \<Rightarrow> traffic_meter" where
  "tm_new history_capacity now =
     \<lparr>tm_start_time = now, tm_total = 0, tm_count = 0, tm_history_capacity = history_capacity,
      tm_history = []\<rparr>"

definition tm_check_time :: "nanos \<Rightarrow> nanos \<Rightarrow> traffic_meter \<Rightarrow> traffic_meter" where
  "tm_check_time now now' m =
     (if NANOS \<le> now - tm_start_time m
      then let h = (if tm_history_capacity m \<le> length (tm_history m) then tl (tm_history m) else tm_history m)
           in m\<lparr>tm_history := h @ [tm_count m], tm_count := 0, tm_start_time := now'\<rparr>
      else m)"

definition tm_add_traffic :: "u64 \<Rightarrow> nanos \<Rightarrow> nanos \<Rightarrow> traffic_meter \<Rightarrow> traffic_meter" where
  "tm_add_traffic amount now now' m =
     tm_check_time now now' (m\<lparr>tm_total := tm_total m + amount, tm_count := tm_count m + amount\<rparr>)"

definition tm_get_history :: "traffic_meter \<Rightarrow> u64 list" where
  "tm_get_history m = tm_history m"

record multi_meter =
  mm_history_capacity :: nat
  mm_total :: u64
  mm_meters :: "ipv4_addr \<Rightarrow> traffic_meter option"

definition mm_new :: "nat \<Rightarrow> multi_meter" where
  "mm_new history_capacity =
     \<lparr>mm_history_capacity = history_capacity, mm_total = 0, mm_meters = Map.empty\<rparr>"

text \<open>\<open>start\<close> is the clock reading of the \<open>TrafficMeter::new\<close> that \<open>or_insert\<close> always evaluates.\<close>

definition mm_add_traffic :: "ipv4_addr \<Rightarrow> u64 \<Rightarrow> nanos \<Rightarrow> nanos \<Rightarrow> nanos \<Rightarrow> multi_meter \<Rightarrow> multi_meter" where
  "mm_add_traffic ip amount start now now' m =
     (let e = (case mm_meters m ip of Some t \<Rightarrow> t | None \<Rightarrow> tm_new (mm_history_capacity m) start)
      in m\<lparr>mm_total := mm_total m + amount,
           mm_meters := (mm_meters m)(ip \<mapsto> tm_add_traffic amount now now' e)\<rparr>)"

definition mm_get_all :: "multi_meter \<Rightarrow> u64 \<times> (ipv4_addr \<Rightarrow> u64 option)" where
  "mm_get_all m = (mm_total m, \<lambda>ip. map_option tm_total (mm_meters m ip))"

definition mm_get_history :: "ipv4_addr \<Rightarrow> multi_meter \<Rightarrow> (u64 \<times> u64 list) option" where
  "mm_get_history ip m = map_option (\<lambda>t. (tm_total t, tm_get_history t)) (mm_meters m ip)"

lemma tm_add_traffic_total [simp]: "tm_total (tm_add_traffic amount now now' m) = tm_total m + amount"
  by (simp add: tm_add_traffic_def tm_check_time_def Let_def)

lemma tm_add_traffic_capacity [simp]:
  "tm_history_capacity (tm_add_traffic amount now now' m) = tm_history_capacity m"
  by (simp add: tm_add_traffic_def tm_check_time_def Let_def)

text \<open>A run of \<open>add_traffic\<close> calls on the meter of all peers: address, amount and clock readings.\<close>

fun mm_run :: "(ipv4_addr \<times> u64 \<times> nanos \<times> nanos \<times> nanos) list \<Rightarrow> multi_meter \<Rightarrow> multi_meter" where
  "mm_run [] m = m"
| "mm_run ((ip, amount, start, now, now') # es) m = mm_run es (mm_add_traffic ip amount start now now' m)"

definition sent_to :: "ipv4_addr \<Rightarrow> (ipv4_addr \<times> u64 \<times> nanos \<times> nanos \<times> nanos) list \<Rightarrow> u64" where
  "sent_to ip es = sum_list (map (\<lambda>(_, amount, _). amount) (filter (\<lambda>(p, _). p = ip) es))"

lemma mm_run_total: "mm_total (mm_run es m) = mm_total m + sum_list (map (\<lambda>(_, amount, _). amount) es)"
  by (induction es m rule: mm_run.induct) (simp_all add: mm_add_traffic_def Let_def)

lemma mm_run_ip:
  "(case mm_meters (mm_run es m) ip of Some t \<Rightarrow> tm_total t | None \<Rightarrow> 0) =
   (case mm_meters m ip of Some t \<Rightarrow> tm_total t | None \<Rightarrow> 0) + sent_to ip es"
  by (induction es m rule: mm_run.induct)
     (auto simp: mm_add_traffic_def Let_def sent_to_def tm_new_def split: option.splits)

lemma mm_run_dom: "dom (mm_meters (mm_run es m)) = dom (mm_meters m) \<union> fst ` set es"
  by (induction es m rule: mm_run.induct) (auto simp: mm_add_traffic_def Let_def)

text \<open>Traffic is conserved: after any run of \<open>add_traffic\<close> calls the total of every peer is the sum of
  the amounts added for it, a peer is listed iff something was added for it, and the overall total
  is the sum of all amounts (all modulo \<open>2^64\<close>, as the counters are).\<close>

theorem traffic_totals:
  "fst (mm_get_all (mm_run es (mm_new n))) = sum_list (map (\<lambda>(_, amount, _). amount) es) \<and>
   (\<forall>ip. snd (mm_get_all (mm_run es (mm_new n))) ip =
     (if ip \<in> fst ` set es then Some (sent_to ip es) else None))"
proof (intro conjI allI)
  show "fst (mm_get_all (mm_run es (mm_new n))) = sum_list (map (\<lambda>(_, amount, _). amount) es)"
    by (simp add: mm_get_all_def mm_run_total mm_new_def)
  fix ip
  show "snd (mm_get_all (mm_run es (mm_new n))) ip = (if ip \<in> fst ` set es then Some (sent_to ip es) else None)"
  proof (cases "mm_meters (mm_run es (mm_new n)) ip")
    case None
    moreover have "ip \<notin> fst ` set es"
      using mm_run_dom [of es "mm_new n"] None by (metis UnCI domIff)
    ultimately show ?thesis by (simp add: mm_get_all_def)
  next
    case (Some t)
    moreover have "ip \<in> fst ` set es"
      using mm_run_dom [of es "mm_new n"] Some by (auto simp: mm_new_def)
    ultimately show ?thesis
      using mm_run_ip [of es "mm_new n" ip] by (simp add: mm_get_all_def mm_new_def)
  qed
qed

text \<open>The history of a meter never grows beyond its capacity (or one entry, for a capacity of
  zero), and each period's count is recorded: what was added is in the count or in the history
  entry just appended.\<close>

lemma traffic_history_bound:
  fixes amount :: u64 and now now' :: nanos
  assumes "length (tm_history m) \<le> max 1 (tm_history_capacity m)"
  defines "m' \<equiv> tm_add_traffic amount now now' m"
  shows "length (tm_history m') \<le> max 1 (tm_history_capacity m) \<and>
    (if NANOS \<le> now - tm_start_time m
     then tm_count m' = 0 \<and> tm_history m' \<noteq> [] \<and> last (tm_history m') = tm_count m + amount
     else tm_count m' = tm_count m + amount \<and> tm_history m' = tm_history m)"
  using assms by (auto simp: tm_add_traffic_def tm_check_time_def Let_def)

section \<open>U64Adder\<close>

text \<open>\<open>vnt/src/util/counter/adder.rs\<close>: an atomic counter shared with its watchers.\<close>

definition u64_add :: "u64 \<Rightarrow> u64 \<Rightarrow> u64" where
  "u64_add num cell = cell + num"

end
