(* ===== verification/Channel_Context.thy ===== *)
theory Channel_Context
  imports Net_Packet Route_Table Limits
begin

text \<open>
  \<open>ContextInner\<close> of \<open>vnt/src/channel/context.rs\<close> (and \<open>PacketSender\<close>, \<open>AcceptSocketSender\<close> of
  \<open>channel/sender.rs\<close>): the sockets, the route table and the ways a packet leaves the node.
  A UDP socket is its local port (\<open>None\<close> where the system does not tell); what the system answers
  to a transmission is the environment \<open>net_env\<close>, a function of the number of transmissions so far;
  \<open>cc_log\<close> records every transmission that reached a socket or a stream's queue, with its outcome.
\<close>

datatype transmission = UdpSend nat socket_addr bytes | TcpSend route_key bytes

datatype queue_answer = Queued | Full | Closed

record net_env =
  ne_udp :: "nat \<Rightarrow> nat \<Rightarrow> socket_addr \<Rightarrow> bytes \<Rightarrow> error_kind option"
  ne_queue :: "nat \<Rightarrow> route_key \<Rightarrow> bytes \<Rightarrow> queue_answer"
  ne_clock :: "nat \<Rightarrow> nanos \<times> nanos \<times> nanos"

record channel_context =
  cc_main_udp :: "u16 option list"
  cc_v4_len :: nat
  cc_sub_udp :: "u16 option list"
  cc_packet_map :: "route_key set"
  cc_route_table :: route_table
  cc_protocol :: connect_protocol
  cc_packet_loss_rate :: u32
  cc_packet_delay :: u32
  cc_up_meter :: "multi_meter option"
  cc_down_meter :: "multi_meter option"
  cc_default_route_key :: "route_key option"
  cc_default_local_port :: "u16 option"
  cc_log :: "(transmission \<times> error_kind option) list"

type_synonym 'a cc_action = "(channel_context, 'a) action"

definition SYMMETRIC_CHANNEL_NUM :: nat where
  "SYMMETRIC_CHANNEL_NUM = 84"

definition PACKET_LOSS_RATE_DENOMINATOR :: u32 where
  "PACKET_LOSS_RATE_DENOMINATOR = 1000000"

text \<open>\<open>ChannelContext::new\<close>; \<open>loss\<close> is the rate already multiplied and cast to \<open>u32\<close>. The network interface
  the sockets are bound to is not modelled.\<close>

definition cc_new :: "u16 option list \<Rightarrow> nat \<Rightarrow> use_channel_type \<Rightarrow> bool \<Rightarrow> connect_protocol \<Rightarrow>
    u32 option \<Rightarrow> u32 \<Rightarrow> multi_meter option \<Rightarrow> multi_meter option \<Rightarrow> channel_context outcome" where
  "cc_new main_udp v4_len use_channel_type first_latency protocol loss delay up_meter down_meter =
     (if v4_len = 0 then Panic
      else Ok \<lparr>cc_main_udp = main_udp, cc_v4_len = v4_len, cc_sub_udp = [], cc_packet_map = {},
        cc_route_table = rt_new use_channel_type first_latency v4_len, cc_protocol = protocol,
        cc_packet_loss_rate = (case loss of
            Some v \<Rightarrow> if PACKET_LOSS_RATE_DENOMINATOR < v then PACKET_LOSS_RATE_DENOMINATOR else v
          | None \<Rightarrow> 0),
        cc_packet_delay = delay, cc_up_meter = up_meter, cc_down_meter = down_meter, cc_default_route_key = None,
        cc_default_local_port = None, cc_log = []\<rparr>)"

definition main_len :: "channel_context \<Rightarrow> nat" where
  "main_len c = length (cc_main_udp c)"

definition channel_num :: "channel_context \<Rightarrow> nat" where
  "channel_num c = cc_v4_len c"

definition is_cone :: "channel_context \<Rightarrow> bool" where
  "is_cone c \<longleftrightarrow> cc_sub_udp c = []"

definition is_udp_main :: "route_key \<Rightarrow> channel_context \<Rightarrow> bool" where
  "is_udp_main key c \<longleftrightarrow> is_udp (rk_protocol key) \<and> rk_index key < main_len c"

definition local_port_by_key :: "route_key \<Rightarrow> channel_context \<Rightarrow> u16 option" where
  "local_port_by_key key c = (case rk_protocol key of
       UDP \<Rightarrow>
         if rk_index key < main_len c then cc_main_udp c ! rk_index key
         else if rk_index key - main_len c < length (cc_sub_udp c)
              then cc_sub_udp c ! (rk_index key - main_len c) else None
     | _ \<Rightarrow> None)"

definition set_default_route_key :: "route_key \<Rightarrow> channel_context \<Rightarrow> channel_context" where
  "set_default_route_key key c =
     (case local_port_by_key key c of
        Some port \<Rightarrow> c\<lparr>cc_default_local_port := Some port, cc_default_route_key := Some key\<rparr>
      | None \<Rightarrow> c\<lparr>cc_default_route_key := Some key\<rparr>)"

definition clear_default_route_key :: "channel_context \<Rightarrow> channel_context" where
  "clear_default_route_key c =
     (let c' = (case cc_default_route_key c of
          Some key \<Rightarrow> if is_base_tcp (rk_protocol key)
            then c\<lparr>cc_packet_map := cc_packet_map c - {key}\<rparr> else c
        | None \<Rightarrow> c)
      in c'\<lparr>cc_default_route_key := None\<rparr>)"

section \<open>Switching the NAT mode\<close>

datatype nat_type = Symmetric | Cone

text \<open>\<open>binds\<close>: what binding and cloning the sockets gave; \<open>accept\<close>: what handing them over gave.\<close>

definition cc_switch :: "nat_type \<Rightarrow> u16 option list outcome \<Rightarrow> unit outcome \<Rightarrow> unit cc_action" where
  "cc_switch nat_type binds accept c = (case nat_type of
       Symmetric \<Rightarrow>
         if cc_sub_udp c \<noteq> [] then sret () c
         else sbind (slift binds) (\<lambda>socks. sbind (slift accept)
           (\<lambda>_ c. sret () (c\<lparr>cc_sub_udp := socks\<rparr>))) c
     | Cone \<Rightarrow>
         if cc_sub_udp c = [] then sret () c
         else sbind (slift accept) (\<lambda>_ c. sret () (c\<lparr>cc_sub_udp := []\<rparr>)) c)"

text \<open>\<open>reset_reconnect_udp_socket\<close>: the new sockets replace the extra ones; the result is the index
  and local port for the server's address family. \<open>binds\<close> is the port found and the sockets bound.\<close>

definition reset_reconnect_udp_socket ::
    "(u16 \<times> u16 option list) outcome \<Rightarrow> unit outcome \<Rightarrow> socket_addr \<Rightarrow> (nat \<times> u16) cc_action" where
  "reset_reconnect_udp_socket binds accept server_addr c =
     (let index = main_len c in
      sbind (slift binds) (\<lambda>(port, socks). sbind (slift accept) (\<lambda>_ c.
        let c = c\<lparr>cc_sub_udp := socks\<rparr> in
        if cc_v4_len c < main_len c
        then sret (if \<not> is_ipv4_addr server_addr then index + 1 else index, port) c
        else sret (index, port) c)) c)"

section \<open>Sending\<close>

definition transmit_udp :: "net_env \<Rightarrow> nat \<Rightarrow> socket_addr \<Rightarrow> bytes \<Rightarrow> unit cc_action" where
  "transmit_udp env i addr buf c =
     (let r = ne_udp env (length (cc_log c)) i addr buf;
          c' = c\<lparr>cc_log := cc_log c @ [(UdpSend i addr buf, r)]\<rparr>
      in (case r of None \<Rightarrow> Ok () | Some k \<Rightarrow> Err (IoError k), c'))"

text \<open>\<open>PacketSender::try_send\<close>\<close>

definition try_send :: "net_env \<Rightarrow> route_key \<Rightarrow> bytes \<Rightarrow> unit cc_action" where
  "try_send env key buf c =
     (let r = (case ne_queue env (length (cc_log c)) key buf of
          Queued \<Rightarrow> None | Full \<Rightarrow> Some WouldBlock | Closed \<Rightarrow> Some ConnectionRefused);
          c' = c\<lparr>cc_log := cc_log c @ [(TcpSend key buf, r)]\<rparr>
      in (case r of None \<Rightarrow> Ok () | Some k \<Rightarrow> Err (IoError k), c'))"

definition send_tcp :: "net_env \<Rightarrow> bytes \<Rightarrow> route_key \<Rightarrow> unit cc_action" where
  "send_tcp env buf key c =
     (if key \<in> cc_packet_map c then try_send env key buf c else (Err (IoError NotFound), c))"

definition send_main_udp :: "net_env \<Rightarrow> nat \<Rightarrow> bytes \<Rightarrow> socket_addr \<Rightarrow> unit cc_action" where
  "send_main_udp env index buf addr c =
     (if index < main_len c then transmit_udp env index addr buf c else (Err (IoError OtherKind), c))"

definition add_up_traffic :: "net_env \<Rightarrow> net_packet \<Rightarrow> unit cc_action" where
  "add_up_traffic env p c = (case cc_up_meter c of
       None \<Rightarrow> (Ok (), c)
     | Some m \<Rightarrow> sbind (slift (np_destination p)) (\<lambda>ip c.
         case ne_clock env (length (cc_log c)) of (start, now, now') \<Rightarrow>
           (Ok (), c\<lparr>cc_up_meter := Some (mm_add_traffic ip (of_nat (np_data_len p)) start now now' m)\<rparr>)) c)"

definition send_by_key :: "net_env \<Rightarrow> net_packet \<Rightarrow> route_key \<Rightarrow> unit cc_action" where
  "send_by_key env p key =
     sbind (\<lambda>c. sbind (slift (np_buffer_part p)) (\<lambda>buf c. case rk_protocol key of
         UDP \<Rightarrow>
           if rk_index key < main_len c then transmit_udp env (rk_index key) (rk_addr key) buf c
           else if rk_index key - main_len c < length (cc_sub_udp c)
                then transmit_udp env (rk_index key) (rk_addr key) buf c
                else (Err (IoError NotFound), c)
       | _ \<Rightarrow> send_tcp env buf key c) c)
     (\<lambda>_. add_up_traffic env p)"

text \<open>The retry loop of \<open>send_by_id\<close>; \<open>n\<close> is its counter \<open>c\<close>.\<close>

function send_by_id_loop :: "net_env \<Rightarrow> net_packet \<Rightarrow> ipv4_addr \<Rightarrow> nat \<Rightarrow> unit cc_action" where
  "send_by_id_loop env p peer n c =
     (case rt_get_route_by_id n peer (cc_route_table c) of
        Err e \<Rightarrow> (Err e, c)
      | Panic \<Rightarrow> (Panic, c)
      | Ok route \<Rightarrow>
          (case send_by_key env p (route_key_of route) c of
             (Err e, c') \<Rightarrow>
               if e = IoError WouldBlock \<and> n + 1 < 10 then send_by_id_loop env p peer (n + 1) c'
               else (Err e, c')
           | (r, c') \<Rightarrow> (r, c')))"
  by auto
termination
  by (relation "measure (\<lambda>(_, _, _, n, _). 10 - n)") auto

declare send_by_id_loop.simps [simp del]

definition send_by_id :: "net_env \<Rightarrow> net_packet \<Rightarrow> ipv4_addr \<Rightarrow> unit cc_action" where
  "send_by_id env p peer = send_by_id_loop env p peer 0"

definition send_default :: "net_env \<Rightarrow> net_packet \<Rightarrow> socket_addr \<Rightarrow> unit cc_action" where
  "send_default env p addr c =
     (let main = (\<lambda>c. sbind (slift (np_buffer_part p)) (\<lambda>buf.
            send_main_udp env (if is_ipv4_addr addr then 0 else cc_v4_len c) buf addr) c)
      in sbind (\<lambda>c.
           if is_udp (cc_protocol c) then
             (case cc_default_route_key c of
                Some key \<Rightarrow>
                  if is_udp (rk_protocol key) \<and> rk_addr key = addr
                  then sbind (send_by_key env p key) (\<lambda>_. sret True) c
                  else sbind main (\<lambda>_. sret False) c
              | None \<Rightarrow> sbind main (\<lambda>_. sret False) c)
           else
             (case cc_default_route_key c of
                Some key \<Rightarrow> sbind (slift (np_buffer_part p)) (\<lambda>buf.
                  sbind (send_tcp env buf key) (\<lambda>_. sret False)) c
              | None \<Rightarrow> (Err (IoError NotFound), c)))
         (\<lambda>metered. if metered then sret () else add_up_traffic env p) c)"

text \<open>\<open>lost\<close> is the outcome of \<open>gen_ratio\<close>, which panics on a ratio above one.\<close>

definition send_ipv4_by_id :: "net_env \<Rightarrow> bool \<Rightarrow> net_packet \<Rightarrow> ipv4_addr \<Rightarrow> socket_addr \<Rightarrow> bool \<Rightarrow> unit cc_action" where
  "send_ipv4_by_id env lost p peer server_addr to_server c =
     (if 0 < cc_packet_loss_rate c \<and> PACKET_LOSS_RATE_DENOMINATOR < cc_packet_loss_rate c then (Panic, c)
      else if 0 < cc_packet_loss_rate c \<and> lost then (Ok (), c)
      else (case send_by_id env p peer c of
          (Err e, c') \<Rightarrow>
            if \<not> is_only_p2p (rtb_use_channel_type (cc_route_table c')) \<and> to_server
            then send_default env p server_addr c' else (Ok (), c')
        | r \<Rightarrow> r))"

fun try_send_main_from :: "net_env \<Rightarrow> bytes \<Rightarrow> socket_addr \<Rightarrow> nat list \<Rightarrow> channel_context \<Rightarrow> channel_context" where
  "try_send_main_from env buf addr [] c = c"
| "try_send_main_from env buf addr (i # is) c =
     try_send_main_from env buf addr is (snd (send_main_udp env i buf addr c))"

definition try_send_all_main :: "net_env \<Rightarrow> bytes \<Rightarrow> socket_addr \<Rightarrow> channel_context \<Rightarrow> channel_context" where
  "try_send_all_main env buf addr c = try_send_main_from env buf addr [0..<channel_num c] c"

fun try_send_subs :: "net_env \<Rightarrow> bytes \<Rightarrow> socket_addr \<Rightarrow> nat list \<Rightarrow> channel_context \<Rightarrow> channel_context" where
  "try_send_subs env buf addr [] c = c"
| "try_send_subs env buf addr (i # is) c =
     try_send_subs env buf addr is (snd (transmit_udp env i addr buf c))"

definition try_send_all :: "net_env \<Rightarrow> bytes \<Rightarrow> socket_addr \<Rightarrow> channel_context \<Rightarrow> channel_context" where
  "try_send_all env buf addr c =
     (let c = try_send_all_main env buf addr c
      in try_send_subs env buf addr [main_len c ..< main_len c + length (cc_sub_udp c)] c)"

definition cc_remove_route :: "ipv4_addr \<Rightarrow> route_key \<Rightarrow> channel_context \<Rightarrow> channel_context" where
  "cc_remove_route ip key c = c\<lparr>cc_route_table := rt_remove_route ip key (cc_route_table c)\<rparr>"

section \<open>Sending by key\<close>

text \<open>The transmission a key stands for, whether there is a socket or queue for it, and its outcome.\<close>

definition key_tx :: "route_key \<Rightarrow> bytes \<Rightarrow> transmission" where
  "key_tx key buf = (if rk_protocol key = UDP then UdpSend (rk_index key) (rk_addr key) buf else TcpSend key buf)"

definition key_open :: "route_key \<Rightarrow> channel_context \<Rightarrow> bool" where
  "key_open key c \<longleftrightarrow> (if rk_protocol key = UDP then rk_index key < main_len c + length (cc_sub_udp c)
     else key \<in> cc_packet_map c)"

definition key_answer :: "net_env \<Rightarrow> nat \<Rightarrow> route_key \<Rightarrow> bytes \<Rightarrow> error_kind option" where
  "key_answer env n key buf =
     (if rk_protocol key = UDP then ne_udp env n (rk_index key) (rk_addr key) buf
      else (case ne_queue env n key buf of
          Queued \<Rightarrow> None | Full \<Rightarrow> Some WouldBlock | Closed \<Rightarrow> Some ConnectionRefused))"

definition wire_bytes :: "net_packet \<Rightarrow> bytes" where
  "wire_bytes p = take (np_data_len p) (np_buffer p)"

text \<open>The up-traffic meter after one packet.\<close>

definition metered :: "net_env \<Rightarrow> net_packet \<Rightarrow> nat \<Rightarrow> multi_meter option \<Rightarrow> multi_meter option" where
  "metered env p n m = map_option (\<lambda>m. case ne_clock env n of (start, now, now') \<Rightarrow>
     mm_add_traffic (nh_destination (np_view p)) (of_nat (np_data_len p)) start now now' m) m"

lemma np_buffer_part_ok: "np_wf p \<Longrightarrow> np_buffer_part p = Ok (wire_bytes p)"
  by (auto simp: np_buffer_part_def np_wf_def slice_def wire_bytes_def)

lemma add_up_traffic_eq:
  "np_wf p \<Longrightarrow> add_up_traffic env p c = (Ok (), c\<lparr>cc_up_meter := metered env p (length (cc_log c)) (cc_up_meter c)\<rparr>)"
  by (auto simp: add_up_traffic_def metered_def np_getters_view split: option.splits prod.splits)

lemma send_by_key_eq:
  assumes "np_wf p"
  shows "send_by_key env p key c =
    (if \<not> key_open key c then (Err (IoError NotFound), c)
     else let r = key_answer env (length (cc_log c)) key (wire_bytes p);
              c' = c\<lparr>cc_log := cc_log c @ [(key_tx key (wire_bytes p), r)]\<rparr>
          in (case r of
              None \<Rightarrow> (Ok (), c'\<lparr>cc_up_meter := metered env p (length (cc_log c')) (cc_up_meter c)\<rparr>)
            | Some k \<Rightarrow> (Err (IoError k), c')))"
proof -
  have stream: "sbind (\<lambda>c. sbind (slift (np_buffer_part p)) (\<lambda>buf. send_tcp env buf key) c)
      (\<lambda>_. add_up_traffic env p) c =
    (if \<not> key \<in> cc_packet_map c then (Err (IoError NotFound), c)
     else let r = key_answer env (length (cc_log c)) key (wire_bytes p);
              c' = c\<lparr>cc_log := cc_log c @ [(TcpSend key (wire_bytes p), r)]\<rparr>
          in (case r of
              None \<Rightarrow> (Ok (), c'\<lparr>cc_up_meter := metered env p (length (cc_log c')) (cc_up_meter c)\<rparr>)
            | Some k \<Rightarrow> (Err (IoError k), c')))" if "rk_protocol key \<noteq> UDP"
    using assms that
    by (auto simp: sbind_def np_buffer_part_ok send_tcp_def try_send_def key_answer_def Let_def
        add_up_traffic_eq split: queue_answer.splits)
  show ?thesis
  proof (cases "rk_protocol key")
    case UDP
    then show ?thesis
      using assms
      by (auto simp: send_by_key_def sbind_def np_buffer_part_ok transmit_udp_def key_open_def
          key_answer_def key_tx_def Let_def add_up_traffic_eq main_len_def split: option.splits)
  qed (use stream in \<open>simp_all add: send_by_key_def key_open_def key_tx_def\<close>)
qed

text \<open>What no transmission changes.\<close>

definition same_node :: "channel_context \<Rightarrow> channel_context \<Rightarrow> bool" where
  "same_node c d \<longleftrightarrow> (\<exists>l m. d = c\<lparr>cc_log := cc_log c @ l, cc_up_meter := m\<rparr>)"

lemma same_node_refl [simp]: "same_node c c"
  unfolding same_node_def by (rule exI [of _ "[]"], rule exI [of _ "cc_up_meter c"]) simp

lemma same_nodeI:
  "d = c\<lparr>cc_log := cc_log c @ l, cc_up_meter := m\<rparr> \<Longrightarrow> same_node c d"
  by (auto simp: same_node_def)

lemma same_node_trans [trans]:
  assumes "same_node c d" and "same_node d e"
  shows "same_node c e"
proof -
  obtain l m where "d = c\<lparr>cc_log := cc_log c @ l, cc_up_meter := m\<rparr>"
    using assms(1) by (auto simp: same_node_def)
  moreover obtain l' m' where "e = d\<lparr>cc_log := cc_log d @ l', cc_up_meter := m'\<rparr>"
    using assms(2) by (auto simp: same_node_def)
  ultimately show ?thesis
    by (intro same_nodeI [where l = "l @ l'" and m = m']) simp
qed

lemma same_node_fields:
  assumes "same_node c d"
  shows "cc_route_table d = cc_route_table c" "cc_packet_map d = cc_packet_map c"
    "cc_main_udp d = cc_main_udp c" "cc_sub_udp d = cc_sub_udp c" "cc_v4_len d = cc_v4_len c"
    "cc_protocol d = cc_protocol c" "cc_default_route_key d = cc_default_route_key c"
  using assms by (auto simp: same_node_def)

lemma send_by_key_same_node:
  assumes "np_wf p"
  shows "same_node c (snd (send_by_key env p key c))"
proof (cases "key_open key c")
  case True
  define r where "r = key_answer env (length (cc_log c)) key (wire_bytes p)"
  show ?thesis
  proof (cases r)
    case None
    then show ?thesis using True assms
      by (intro same_nodeI [where l = "[(key_tx key (wire_bytes p), None)]"
            and m = "metered env p (Suc (length (cc_log c))) (cc_up_meter c)"])
         (simp add: send_by_key_eq r_def)
  next
    case (Some k)
    then show ?thesis using True assms
      by (intro same_nodeI [where l = "[(key_tx key (wire_bytes p), Some k)]" and m = "cc_up_meter c"])
         (simp add: send_by_key_eq r_def)
  qed
qed (use assms in \<open>simp add: send_by_key_eq\<close>)

section \<open>The retry loop\<close>

text \<open>What a call that sends one packet may do: the transmissions it adds to the log satisfy \<open>P\<close>, a
  success ends with an accepted transmission and is metered once, a failure has none and meters nothing.\<close>

definition sends_once :: "net_env \<Rightarrow> net_packet \<Rightarrow> (transmission \<Rightarrow> bool) \<Rightarrow> channel_context \<Rightarrow>
    unit outcome \<times> channel_context \<Rightarrow> bool" where
  "sends_once env p P c out \<longleftrightarrow> (case out of (res, d) \<Rightarrow> same_node c d \<and> res \<noteq> Panic \<and>
     (\<exists>l. cc_log d = cc_log c @ l \<and> (\<forall>x\<in>set l. P (fst x)) \<and> (\<forall>x\<in>set (butlast l). snd x \<noteq> None) \<and>
        (if res = Ok () then l \<noteq> [] \<and> snd (last l) = None \<and>
           cc_up_meter d = metered env p (length (cc_log d)) (cc_up_meter c)
         else (\<forall>x\<in>set l. snd x \<noteq> None) \<and> cc_up_meter d = cc_up_meter c)))"

definition log_added :: "channel_context \<Rightarrow> channel_context \<Rightarrow> (transmission \<times> error_kind option) list" where
  "log_added c d = drop (length (cc_log c)) (cc_log d)"

lemma send_by_key_once:
  assumes "np_wf p"
  shows "sends_once env p (\<lambda>tx. tx = key_tx key (wire_bytes p)) c (send_by_key env p key c)"
    and "length (log_added c (snd (send_by_key env p key c))) \<le> 1"
  using assms send_by_key_same_node [OF assms, of c env key]
  by (auto simp: sends_once_def send_by_key_eq Let_def log_added_def split: option.splits)

lemma sends_once_mono:
  assumes "sends_once env p P c out" and "\<And>tx. P tx \<Longrightarrow> Q tx"
  shows "sends_once env p Q c out"
  using assms unfolding sends_once_def by (cases out) (simp only: prod.case, blast)

lemma send_by_key_result:
  assumes "np_wf p" and "send_by_key env p key c = (Err e, d)"
  shows "\<exists>l. cc_log d = cc_log c @ l \<and> cc_up_meter d = cc_up_meter c \<and> length l \<le> 1 \<and>
    (\<forall>x\<in>set l. fst x = key_tx key (wire_bytes p) \<and> snd x \<noteq> None \<and> e = IoError (the (snd x)))"
  using assms by (auto simp: send_by_key_eq Let_def split: option.splits if_splits)

lemma send_by_id_loop_once:
  assumes "np_wf p"
  shows "sends_once env p (\<lambda>tx. \<exists>r\<in>set (rt_routes (cc_route_table c) peer). tx = key_tx (route_key_of r) (wire_bytes p))
      c (send_by_id_loop env p peer n c) \<and>
    length (log_added c (snd (send_by_id_loop env p peer n c))) \<le> max 1 (10 - n) \<and>
    (\<forall>x\<in>set (butlast (log_added c (snd (send_by_id_loop env p peer n c)))). snd x = Some WouldBlock)"
  using assms
proof (induction env p peer n c rule: send_by_id_loop.induct)
  case (1 env p peer n c)
  let ?P = "\<lambda>t tx. \<exists>r\<in>set (rt_routes t peer). tx = key_tx (route_key_of r) (wire_bytes p)"
  show ?case
  proof (cases "rt_get_route_by_id n peer (cc_route_table c)")
    case (Err e)
    then show ?thesis
      by (subst (1 2 3) send_by_id_loop.simps) (simp add: sends_once_def log_added_def)
  next
    case Panic
    then show ?thesis using routes.lookup_no_panic by blast
  next
    case (Ok r)
    have r: "r \<in> set (rt_routes (cc_route_table c) peer)"
      using Ok by (rule routes.lookup_member)
    obtain res d where k: "send_by_key env p (route_key_of r) c = (res, d)"
      by (cases "send_by_key env p (route_key_of r) c")
    note once = send_by_key_once [OF "1.prems", where env = env and key = "route_key_of r" and c = c, unfolded k]
    show ?thesis
    proof (cases "res = Err (IoError WouldBlock) \<and> n + 1 < 10")
      case True
      then have eq: "send_by_id_loop env p peer n c = send_by_id_loop env p peer (n + 1) d"
        using Ok k by (subst send_by_id_loop.simps) simp
      have same: "same_node c d" and table: "cc_route_table d = cc_route_table c"
        using once(1) same_node_fields by (auto simp: sends_once_def)
      have ih: "sends_once env p (?P (cc_route_table c)) d (send_by_id_loop env p peer (n + 1) d)"
        "length (log_added d (snd (send_by_id_loop env p peer (n + 1) d))) \<le> max 1 (10 - (n + 1))"
        "\<forall>x\<in>set (butlast (log_added d (snd (send_by_id_loop env p peer (n + 1) d)))). snd x = Some WouldBlock"
        using "1.IH" [OF Ok k [symmetric]] True "1.prems" table by auto
      obtain res' f where f: "send_by_id_loop env p peer (n + 1) d = (res', f)"
        by (cases "send_by_id_loop env p peer (n + 1) d")
      obtain l where l: "cc_log d = cc_log c @ l" "cc_up_meter d = cc_up_meter c" "length l \<le> 1"
        "\<forall>x\<in>set l. fst x = key_tx (route_key_of r) (wire_bytes p) \<and> snd x = Some WouldBlock"
        using True k send_by_key_result [OF "1.prems", where env = env and key = "route_key_of r" and c = c
            and e = "IoError WouldBlock" and d = d]
        by fastforce
      obtain m where m: "cc_log f = cc_log d @ m" "same_node d f" "res' \<noteq> Panic"
        "\<forall>x\<in>set m. ?P (cc_route_table c) (fst x)" "\<forall>x\<in>set (butlast m). snd x \<noteq> None"
        "if res' = Ok () then m \<noteq> [] \<and> snd (last m) = None \<and>
           cc_up_meter f = metered env p (length (cc_log f)) (cc_up_meter d)
         else (\<forall>x\<in>set m. snd x \<noteq> None) \<and> cc_up_meter f = cc_up_meter d"
        using ih(1) [unfolded f] by (auto simp: sends_once_def)
      have added: "log_added c f = l @ m" "log_added d f = m"
        using l(1) m(1) by (simp_all add: log_added_def)
      have "same_node c f" using same m(2) same_node_trans by blast
      moreover have "\<forall>x\<in>set (l @ m). ?P (cc_route_table c) (fst x)"
        using m(4) l(4) r by auto
      moreover have "\<forall>x\<in>set (butlast (l @ m)). snd x \<noteq> None"
      proof -
        have "x \<in> set (butlast (l @ m)) \<Longrightarrow> x \<in> set l \<or> x \<in> set (butlast m)" for x
          by (auto simp: butlast_append dest: in_set_butlastD split: if_splits)
        moreover have "\<forall>x\<in>set l. snd x \<noteq> None" using l(4) by simp
        ultimately show ?thesis using m(5) by blast
      qed
      moreover have "if res' = Ok () then l @ m \<noteq> [] \<and> snd (last (l @ m)) = None \<and>
           cc_up_meter f = metered env p (length (cc_log f)) (cc_up_meter c)
         else (\<forall>x\<in>set (l @ m). snd x \<noteq> None) \<and> cc_up_meter f = cc_up_meter c"
      proof (cases "res' = Ok ()")
        case True
        then have "m \<noteq> [] \<and> snd (last m) = None \<and> cc_up_meter f = metered env p (length (cc_log f)) (cc_up_meter d)"
          using m(6) by simp
        then show ?thesis using True l(2) by simp
      next
        case False
        then have "(\<forall>x\<in>set m. snd x \<noteq> None) \<and> cc_up_meter f = cc_up_meter d"
          using m(6) by auto
        moreover have "\<forall>x\<in>set l. snd x \<noteq> None" using l(4) by simp
        ultimately show ?thesis using False l(2) by auto
      qed
      ultimately have "sends_once env p (?P (cc_route_table c)) c (res', f)"
        using m(1,3) l(1) by (auto simp: sends_once_def intro!: exI [of _ "l @ m"])
      moreover have "length (l @ m) \<le> max 1 (10 - n)"
        using ih(2) [unfolded f] l(3) True by (auto simp: added max_def split: if_splits)
      moreover have "\<forall>x\<in>set (butlast (l @ m)). snd x = Some WouldBlock"
        using ih(3) [unfolded f] l(4) in_set_butlastD [of _ l] by (auto simp: added butlast_append)
      ultimately show ?thesis
        unfolding eq f by (simp add: added)
    next
      case False
      then have eq: "send_by_id_loop env p peer n c = (res, d)"
        using Ok k by (subst send_by_id_loop.simps) (auto split: outcome.splits)
      have len: "length (log_added c d) \<le> 1" using once(2) by simp
      then have "butlast (log_added c d) = []"
        by (cases "log_added c d") auto
      then show ?thesis
        unfolding eq using sends_once_mono [OF once(1), of "?P (cc_route_table c)"] len r by auto
    qed
  qed
qed

lemma send_by_id_facts:
  assumes "np_wf p" and "send_by_id env p peer c = (res, d)"
  shows "\<exists>l. cc_log d = cc_log c @ l \<and> same_node c d \<and> length l \<le> 10 \<and> res \<noteq> Panic \<and>
    (\<forall>x\<in>set l. \<exists>r\<in>set (rt_routes (cc_route_table c) peer). fst x = key_tx (route_key_of r) (wire_bytes p)) \<and>
    (\<forall>x\<in>set (butlast l). snd x = Some WouldBlock) \<and>
    (res = Ok () \<longleftrightarrow> l \<noteq> [] \<and> snd (last l) = None) \<and>
    cc_up_meter d = (if res = Ok () then metered env p (length (cc_log d)) (cc_up_meter c) else cc_up_meter c) \<and>
    (rt_routes (cc_route_table c) peer = [] \<longrightarrow> res = Err (IoError NotFound) \<and> l = [])"
proof -
  let ?P = "\<lambda>tx. \<exists>r\<in>set (rt_routes (cc_route_table c) peer). tx = key_tx (route_key_of r) (wire_bytes p)"
  have loop: "send_by_id_loop env p peer 0 c = (res, d)"
    using assms(2) by (simp add: send_by_id_def)
  note once = send_by_id_loop_once [OF assms(1), where env = env and peer = peer and n = 0 and c = c, unfolded loop]
  obtain l where l: "cc_log d = cc_log c @ l" "same_node c d" "res \<noteq> Panic" "\<forall>x\<in>set l. ?P (fst x)"
    "if res = Ok () then l \<noteq> [] \<and> snd (last l) = None \<and>
       cc_up_meter d = metered env p (length (cc_log d)) (cc_up_meter c)
     else (\<forall>x\<in>set l. snd x \<noteq> None) \<and> cc_up_meter d = cc_up_meter c"
    using once by (auto simp: sends_once_def)
  have "log_added c d = l" using l(1) by (simp add: log_added_def)
  then have "length l \<le> 10" "\<forall>x\<in>set (butlast l). snd x = Some WouldBlock"
    using once by simp_all
  moreover have "res = Ok () \<longleftrightarrow> l \<noteq> [] \<and> snd (last l) = None"
    using l(5) last_in_set by (cases "res = Ok ()") force+
  moreover have "res = Err (IoError NotFound) \<and> l = []" if "rt_routes (cc_route_table c) peer = []"
    using loop l(1) routes.lookup_empty [OF that, of 0]
    by (simp add: send_by_id_loop.simps)
  moreover have "cc_up_meter d =
      (if res = Ok () then metered env p (length (cc_log d)) (cc_up_meter c) else cc_up_meter c)"
    using l(5) by (cases "res = Ok ()") simp_all
  ultimately show ?thesis
    using l(1-4) by blast
qed

text \<open>C9: \<open>send_by_id\<close> transmits only over routes of the peer, at most ten times, and goes on only while
  the answer is \<open>WouldBlock\<close>. It returns \<open>Ok\<close> exactly when the last transmission was accepted, and
  then the packet is metered once; it never panics, and without a route it fails with \<open>NotFound\<close>
  and transmits nothing.\<close>

theorem send_by_id_spec:
  assumes "np_wf p" and "send_by_id env p peer c = (res, d)"
  shows "\<exists>l. cc_log d = cc_log c @ l \<and> same_node c d \<and> length l \<le> 10 \<and> res \<noteq> Panic \<and>
    (\<forall>x\<in>set l. \<exists>r\<in>set (rt_routes (cc_route_table c) peer). fst x = key_tx (route_key_of r) (wire_bytes p)) \<and>
    (\<forall>x\<in>set (butlast l). snd x = Some WouldBlock) \<and>
    (res = Ok () \<longleftrightarrow> l \<noteq> [] \<and> snd (last l) = None) \<and>
    cc_up_meter d = (if res = Ok () then metered env p (length (cc_log d)) (cc_up_meter c) else cc_up_meter c) \<and>
    (rt_routes (cc_route_table c) peer = [] \<longrightarrow> res = Err (IoError NotFound) \<and> l = [])"
  using assms by (rule send_by_id_facts)

text \<open>A node with one UDP socket whose first transmission would block.\<close>

definition sample_env :: net_env where
  "sample_env = \<lparr>ne_udp = (\<lambda>n _ _ _. if n = 0 then Some WouldBlock else None),
     ne_queue = (\<lambda>_ _ _. Queued), ne_clock = (\<lambda>n. (n, n, n))\<rparr>"

definition sample_context :: channel_context where
  "sample_context = \<lparr>cc_main_udp = [Some 29872, Some 29873], cc_v4_len = 2, cc_sub_udp = [],
     cc_packet_map = {}, cc_route_table = sample_table, cc_protocol = UDP, cc_packet_loss_rate = 0,
     cc_packet_delay = 0, cc_up_meter = Some (mm_new 3), cc_down_meter = None, cc_default_route_key = None,
     cc_default_local_port = None, cc_log = []\<rparr>"

lemma sample_send_by_id:
  "\<exists>d. send_by_id sample_env np_sample 7 sample_context = (Ok (), d) \<and> length (cc_log d) = 2"
proof -
  have wf: "np_wf np_sample" by (simp add: np_sample_def np_wf_def)
  have lookup: "rt_get_route_by_id n 7 sample_table = Ok (sample_route 0 1 40)" for n
    using sample_table_routes by (simp add: rt_get_route_by_id_eq)
  show ?thesis
    by (simp add: send_by_id_def send_by_id_loop.simps sample_context_def lookup send_by_key_eq [OF wf]
        key_open_def key_answer_def sample_env_def main_len_def sample_route_def)
qed

lemma send_by_id_spec_witness:
  "\<exists>d l. send_by_id sample_env np_sample 7 sample_context = (Ok (), d) \<and> cc_log d = l \<and> length l = 2 \<and>
     (\<forall>x\<in>set (butlast l). snd x = Some WouldBlock) \<and> snd (last l) = None \<and>
     cc_up_meter d = metered sample_env np_sample 2 (Some (mm_new 3))"
proof -
  obtain d where d: "send_by_id sample_env np_sample 7 sample_context = (Ok (), d)" "length (cc_log d) = 2"
    using sample_send_by_id by blast
  have wf: "np_wf np_sample" by (simp add: np_sample_def np_wf_def)
  show ?thesis
    using send_by_id_spec [OF wf d(1)] d by (auto simp: sample_context_def)
qed

section \<open>The default channel\<close>

text \<open>What may be transmitted for a server address: a datagram to it, or the default stream.\<close>

definition server_tx :: "channel_context \<Rightarrow> socket_addr \<Rightarrow> bytes \<Rightarrow> transmission \<Rightarrow> bool" where
  "server_tx c addr buf tx \<longleftrightarrow>
     (if is_udp (cc_protocol c) then \<exists>i. tx = UdpSend i addr buf
      else \<exists>key. cc_default_route_key c = Some key \<and> tx = TcpSend key buf)"

lemma transmit_then_meter:
  assumes "np_wf p" and "P tx" and "step c = ((case r of None \<Rightarrow> Ok () | Some k \<Rightarrow> Err (IoError k)),
      c\<lparr>cc_log := cc_log c @ [(tx, r)]\<rparr>)"
  shows "sends_once env p P c (sbind (sbind step (\<lambda>_. sret False))
    (\<lambda>metered. if metered then sret () else add_up_traffic env p) c)"
proof (cases r)
  case None
  have "same_node c (c\<lparr>cc_log := cc_log c @ [(tx, None)], cc_up_meter := m\<rparr>)" for m
    by (rule same_nodeI [where l = "[(tx, None)]" and m = m]) simp
  then show ?thesis
    using assms None by (simp add: sends_once_def sbind_def add_up_traffic_eq)
next
  case (Some k)
  have "same_node c (c\<lparr>cc_log := cc_log c @ [(tx, Some k)]\<rparr>)"
    by (rule same_nodeI [where l = "[(tx, Some k)]" and m = "cc_up_meter c"]) simp
  then show ?thesis
    using assms Some by (simp add: sends_once_def sbind_def)
qed

lemma sends_once_Err: "sends_once env p P c (Err e, c)"
  by (simp add: sends_once_def)

lemma send_default_main:
  assumes "np_wf p" and "is_udp (cc_protocol c)"
  shows "sends_once env p (server_tx c addr (wire_bytes p)) c
    (sbind (sbind (\<lambda>c. sbind (slift (np_buffer_part p)) (\<lambda>buf.
        send_main_udp env (if is_ipv4_addr addr then 0 else cc_v4_len c) buf addr) c) (\<lambda>_. sret False))
      (\<lambda>metered. if metered then sret () else add_up_traffic env p) c)"
proof -
  define i where "i = (if is_ipv4_addr addr then 0 else cc_v4_len c)"
  show ?thesis
  proof (cases "i < main_len c")
    case True
    show ?thesis
      by (rule transmit_then_meter [OF assms(1), where tx = "UdpSend i addr (wire_bytes p)"
            and r = "ne_udp env (length (cc_log c)) i addr (wire_bytes p)"])
         (use True assms in \<open>simp_all add: server_tx_def np_buffer_part_ok send_main_udp_def
            transmit_udp_def Let_def flip: i_def\<close>)
  next
    case False
    then show ?thesis
      using assms by (simp add: np_buffer_part_ok send_main_udp_def sbind_def sends_once_Err flip: i_def)
  qed
qed

lemma send_default_once:
  assumes "np_wf p"
  shows "sends_once env p (server_tx c addr (wire_bytes p)) c (send_default env p addr c)"
proof (cases "is_udp (cc_protocol c)")
  case True
  note main = send_default_main [OF assms True, of env addr]
  show ?thesis
  proof (cases "cc_default_route_key c")
    case (Some key)
    show ?thesis
    proof (cases "is_udp (rk_protocol key) \<and> rk_addr key = addr")
      case key: True
      obtain res d where k: "send_by_key env p key c = (res, d)" by (cases "send_by_key env p key c")
      have "send_default env p addr c = (res, d)"
        using True Some key k by (cases res) (simp_all add: send_default_def sbind_def Let_def)
      moreover have "server_tx c addr (wire_bytes p) tx" if "tx = key_tx key (wire_bytes p)" for tx
        using that key True by (auto simp: server_tx_def key_tx_def is_udp_def)
      ultimately show ?thesis
        using sends_once_mono [OF send_by_key_once(1) [OF assms, of env key c]] k by simp
    next
      case False
      then show ?thesis using main True Some by (auto simp: send_default_def sbind_def Let_def)
    qed
  next
    case None
    then show ?thesis using main True by (simp add: send_default_def sbind_def Let_def)
  qed
next
  case False
  show ?thesis
  proof (cases "cc_default_route_key c")
    case (Some key)
    show ?thesis
    proof (cases "key \<in> cc_packet_map c")
      case True
      define r where "r = (case ne_queue env (length (cc_log c)) key (wire_bytes p) of
          Queued \<Rightarrow> None | Full \<Rightarrow> Some WouldBlock | Closed \<Rightarrow> Some ConnectionRefused)"
      have "sends_once env p (server_tx c addr (wire_bytes p)) c
        (sbind (sbind (send_tcp env (wire_bytes p) key) (\<lambda>_. sret False))
          (\<lambda>metered. if metered then sret () else add_up_traffic env p) c)"
        by (rule transmit_then_meter [OF assms, where tx = "TcpSend key (wire_bytes p)" and r = r])
           (use True False Some in \<open>simp_all add: server_tx_def send_tcp_def try_send_def Let_def r_def\<close>)
      then show ?thesis
        using assms False Some by (simp add: send_default_def np_buffer_part_ok sbind_def [of _ _ c] Let_def)
    next
      case key: False
      then show ?thesis
        using assms False Some
        by (simp add: send_default_def np_buffer_part_ok sbind_def send_tcp_def sends_once_Err)
    qed
  qed (use False in \<open>simp add: send_default_def sbind_def sends_once_Err\<close>)
qed

lemma send_default_spec_aux:
  assumes "np_wf p" and "send_default env p addr c = (res, d)"
  shows "\<exists>l. cc_log d = cc_log c @ l \<and> same_node c d \<and> res \<noteq> Panic \<and>
    (\<forall>x\<in>set l. server_tx c addr (wire_bytes p) (fst x))"
  using send_default_once [OF assms(1), of env c addr] assms(2) by (auto simp: sends_once_def)

text \<open>\<open>send_default\<close> makes one attempt at most: everything it transmits goes to the server address (or
  into the default stream, when the server is reached by a stream), a success is metered exactly
  once whichever branch sent it, a failure not at all, and it never panics. Without a default key a
  stream connection fails with \<open>NotFound\<close>.\<close>

theorem send_default_spec:
  assumes "np_wf p" and "send_default env p addr c = (res, d)"
  shows "\<exists>l. cc_log d = cc_log c @ l \<and> same_node c d \<and> res \<noteq> Panic \<and>
    (\<forall>x\<in>set l. server_tx c addr (wire_bytes p) (fst x)) \<and>
    (res = Ok () \<longleftrightarrow> l \<noteq> [] \<and> snd (last l) = None) \<and>
    cc_up_meter d = (if res = Ok () then metered env p (length (cc_log d)) (cc_up_meter c) else cc_up_meter c) \<and>
    (\<not> is_udp (cc_protocol c) \<and> cc_default_route_key c = None \<longrightarrow> res = Err (IoError NotFound) \<and> l = [])"
proof -
  obtain l where l: "cc_log d = cc_log c @ l" "same_node c d" "res \<noteq> Panic"
    "\<forall>x\<in>set l. server_tx c addr (wire_bytes p) (fst x)"
    "if res = Ok () then l \<noteq> [] \<and> snd (last l) = None \<and>
       cc_up_meter d = metered env p (length (cc_log d)) (cc_up_meter c)
     else (\<forall>x\<in>set l. snd x \<noteq> None) \<and> cc_up_meter d = cc_up_meter c"
    using send_default_once [OF assms(1), of env c addr] assms(2) by (auto simp: sends_once_def)
  have "res = Ok () \<longleftrightarrow> l \<noteq> [] \<and> snd (last l) = None"
    using l(5) last_in_set by (cases "res = Ok ()") force+
  moreover have "cc_up_meter d =
      (if res = Ok () then metered env p (length (cc_log d)) (cc_up_meter c) else cc_up_meter c)"
    using l(5) by (cases "res = Ok ()") simp_all
  moreover have "res = Err (IoError NotFound) \<and> l = []"
    if "\<not> is_udp (cc_protocol c) \<and> cc_default_route_key c = None"
    using that assms(2) l(1) by (simp add: send_default_def sbind_def)
  ultimately show ?thesis using l(1-4) by blast
qed

lemma send_default_spec_witness:
  "\<exists>d. send_default sample_env np_sample sample_addr (sample_context\<lparr>cc_protocol := TCP\<rparr>) =
      (Err (IoError NotFound), d) \<and> cc_log d = []"
proof -
  have wf: "np_wf np_sample" by (simp add: np_sample_def np_wf_def)
  obtain res d where "send_default sample_env np_sample sample_addr (sample_context\<lparr>cc_protocol := TCP\<rparr>) = (res, d)"
    by (cases "send_default sample_env np_sample sample_addr (sample_context\<lparr>cc_protocol := TCP\<rparr>)")
  with send_default_spec [OF wf this] show ?thesis
    by (auto simp: sample_context_def is_udp_def)
qed

lemma send_ipv4_facts:
  assumes "np_wf p" and "cc_packet_loss_rate c \<le> PACKET_LOSS_RATE_DENOMINATOR"
    and "send_ipv4_by_id env lost p peer server_addr to_server c = (res, d)"
  shows "\<exists>l m. cc_log d = cc_log c @ l @ m \<and> same_node c d \<and> res \<noteq> Panic \<and>
    (\<forall>x\<in>set l. \<exists>r\<in>set (rt_routes (cc_route_table c) peer). fst x = key_tx (route_key_of r) (wire_bytes p)) \<and>
    (\<forall>x\<in>set (butlast l). snd x = Some WouldBlock) \<and>
    (\<forall>x\<in>set m. server_tx c server_addr (wire_bytes p) (fst x)) \<and>
    (m \<noteq> [] \<longrightarrow> (\<forall>x\<in>set l. snd x \<noteq> None) \<and> rtb_use_channel_type (cc_route_table c) \<noteq> P2p \<and> to_server) \<and>
    (rtb_use_channel_type (cc_route_table c) = P2p \<or> \<not> to_server \<longrightarrow> res = Ok ()) \<and>
    (0 < cc_packet_loss_rate c \<and> lost \<longrightarrow> res = Ok () \<and> d = c)"
proof (cases "0 < cc_packet_loss_rate c \<and> lost")
  case True
  then have "res = Ok () \<and> d = c"
    using assms(2,3) by (auto simp: send_ipv4_by_id_def not_less [symmetric])
  then show ?thesis by (intro exI [of _ "[]"]) simp
next
  case False
  obtain r e where s: "send_by_id env p peer c = (r, e)" by (cases "send_by_id env p peer c")
  obtain l where l: "cc_log e = cc_log c @ l" "same_node c e" "r \<noteq> Panic"
    "\<forall>x\<in>set l. \<exists>r\<in>set (rt_routes (cc_route_table c) peer). fst x = key_tx (route_key_of r) (wire_bytes p)"
    "\<forall>x\<in>set (butlast l). snd x = Some WouldBlock" "r = Ok () \<longleftrightarrow> l \<noteq> [] \<and> snd (last l) = None"
    using send_by_id_facts [OF assms(1) s] by blast
  have fields: "cc_route_table e = cc_route_table c" "cc_protocol e = cc_protocol c"
    "cc_default_route_key e = cc_default_route_key c"
    using same_node_fields [OF l(2)] by simp_all
  have call: "(res, d) = (case (r, e) of (Err x, c') \<Rightarrow>
      if rtb_use_channel_type (cc_route_table c) \<noteq> P2p \<and> to_server
      then send_default env p server_addr c' else (Ok (), c') | out \<Rightarrow> out)"
  proof -
    have "\<not> (0 < cc_packet_loss_rate c \<and> PACKET_LOSS_RATE_DENOMINATOR < cc_packet_loss_rate c)"
      using assms(2) by auto
    from assms(3) [unfolded send_ipv4_by_id_def if_not_P [OF this] if_not_P [OF False] s]
    show ?thesis by (cases r) (auto simp: fields is_only_p2p_def)
  qed
  show ?thesis
  proof (cases r)
    case (Ok u)
    then show ?thesis
      using call l False by - (rule exI [of _ l], rule exI [of _ "[]"], auto)
  next
    case Panic
    then show ?thesis using l(3) by simp
  next
    case (Err x)
    have failed: "\<forall>y\<in>set l. snd y \<noteq> None"
    proof
      fix y assume y: "y \<in> set l"
      then have "l \<noteq> []" by auto
      then have "snd (last l) \<noteq> None" using l(6) Err by simp
      moreover have "y = last l \<or> y \<in> set (butlast l)"
        using y \<open>l \<noteq> []\<close> by (metis append_butlast_last_id in_set_conv_decomp_last rotate1.simps(2)
            set_ConsD set_rotate1)
      ultimately show "snd y \<noteq> None" using l(5) by auto
    qed
    show ?thesis
    proof (cases "rtb_use_channel_type (cc_route_table c) \<noteq> P2p \<and> to_server")
      case True
      then have "send_default env p server_addr e = (res, d)" using call Err by simp
      from send_default_spec_aux [OF assms(1) this]
      obtain m where m: "cc_log d = cc_log e @ m" "same_node e d" "res \<noteq> Panic"
        "\<forall>x\<in>set m. server_tx e server_addr (wire_bytes p) (fst x)" by blast
      moreover have "server_tx e = server_tx c"
        by (intro ext) (simp add: server_tx_def fields)
      ultimately show ?thesis
        using l failed True False same_node_trans [OF l(2)]
        by - (rule exI [of _ l], rule exI [of _ m], auto)
    next
      case False
      then show ?thesis
        using call Err l failed \<open>\<not> (0 < cc_packet_loss_rate c \<and> lost)\<close>
        by - (rule exI [of _ l], rule exI [of _ "[]"], auto)
    qed
  qed
qed

text \<open>C10: \<open>send_ipv4_by_id\<close> on a context whose loss rate is a rate: a packet goes over routes of the peer
  first, and a route is left for the next one only on \<open>WouldBlock\<close>; any other failure ends the tries.
  It goes to the server only when all the transmissions that were made over routes failed (possibly
  none was made, and possibly not every route was tried), the mode is not \<open>P2p\<close> and the caller
  asked for it. In \<open>P2p\<close> mode nothing is ever sent to the server, and a packet that found no way is
  dropped with \<open>Ok\<close>. A simulated loss transmits nothing.\<close>

theorem send_ipv4_policy:
  assumes "np_wf p" and "cc_packet_loss_rate c \<le> PACKET_LOSS_RATE_DENOMINATOR"
    and "send_ipv4_by_id env lost p peer server_addr to_server c = (res, d)"
  shows "\<exists>l m. cc_log d = cc_log c @ l @ m \<and> same_node c d \<and> res \<noteq> Panic \<and>
    (\<forall>x\<in>set l. \<exists>r\<in>set (rt_routes (cc_route_table c) peer). fst x = key_tx (route_key_of r) (wire_bytes p)) \<and>
    (\<forall>x\<in>set (butlast l). snd x = Some WouldBlock) \<and>
    (\<forall>x\<in>set m. server_tx c server_addr (wire_bytes p) (fst x)) \<and>
    (m \<noteq> [] \<longrightarrow> (\<forall>x\<in>set l. snd x \<noteq> None) \<and> rtb_use_channel_type (cc_route_table c) \<noteq> P2p \<and> to_server) \<and>
    (rtb_use_channel_type (cc_route_table c) = P2p \<or> \<not> to_server \<longrightarrow> res = Ok ()) \<and>
    (0 < cc_packet_loss_rate c \<and> lost \<longrightarrow> res = Ok () \<and> d = c)"
  using assms by (rule send_ipv4_facts)

lemma send_ipv4_policy_witness:
  "\<exists>d. send_ipv4_by_id sample_env False np_sample 9 sample_addr True sample_context = (Ok (), d)"
proof -
  have wf: "np_wf np_sample" by (simp add: np_sample_def np_wf_def)
  obtain res d where r: "send_ipv4_by_id sample_env False np_sample 9 sample_addr True sample_context = (res, d)"
    by (cases "send_ipv4_by_id sample_env False np_sample 9 sample_addr True sample_context")
  show ?thesis
    using send_ipv4_policy [OF wf _ r] r
    by (auto simp: sample_context_def sample_table_routes)
qed

end
