(* ===== verification/External_Route.thy ===== *)
theory External_Route
  imports Vnt_Prelude
begin

text \<open>
  \<open>vnt/src/external_route/mod.rs\<close>: the table of subnets reached through a gateway peer and the list
  of subnets a node lets through. Destinations are masked and sorted downwards by \<open>new\<close> (a stable
  sort); \<open>route\<close> returns the first match. Against it stands the specification: which gateways are
  eligible for an address and which one longest-prefix routing would choose.
\<close>

type_synonym ext_entry = "u32 \<times> u32 \<times> ipv4_addr"

definition ext_route_new :: "ext_entry list \<Rightarrow> ext_entry list" where
  "ext_route_new table =
     sort_key (\<lambda>(dest, _, _). - uint dest) (map (\<lambda>(dest, netmask, gw). (netmask AND dest, netmask, gw)) table)"

definition ext_route :: "ext_entry list \<Rightarrow> ipv4_addr \<Rightarrow> ipv4_addr option" where
  "ext_route table ip =
     (if table = [] then None
      else (case find (\<lambda>(dest, netmask, _). netmask AND ip = dest) table of
              Some (_, _, gateway) \<Rightarrow> Some gateway | None \<Rightarrow> None))"

definition ext_to_route :: "ext_entry list \<Rightarrow> (ipv4_addr \<times> ipv4_addr) list" where
  "ext_to_route table = map (\<lambda>(dest, netmask, _). (dest, netmask)) table"

definition allow_route_new :: "(u32 \<times> u32) list \<Rightarrow> (u32 \<times> u32) list" where
  "allow_route_new table =
     sort_key (\<lambda>(dest, _). - uint dest) (map (\<lambda>(dest, netmask). (netmask AND dest, netmask)) table)"

definition allow_route :: "(u32 \<times> u32) list \<Rightarrow> ipv4_addr \<Rightarrow> bool" where
  "allow_route table ip =
     (if table = [] then False else (\<exists>(dest, netmask) \<in> set table. netmask AND ip = netmask AND dest))"

section \<open>Specification\<close>

text \<open>The configured entry covers the address.\<close>

definition covers :: "u32 \<Rightarrow> u32 \<Rightarrow> ipv4_addr \<Rightarrow> bool" where
  "covers dest netmask ip \<longleftrightarrow> netmask AND ip = netmask AND dest"

lemma ext_find_mem:
  "find P xs = Some x \<Longrightarrow> x \<in> set xs \<and> P x"
  by (auto simp: find_Some_iff)

lemma find_sorted_least:
  assumes "sorted (map f xs)" and "find P xs = Some x" and "y \<in> set xs" and "P y"
  shows "f x \<le> f y"
  using assms by (induction xs) (auto split: if_splits)

lemma set_ext_route_new:
  "set (ext_route_new table) = {(netmask AND dest, netmask, gw) | dest netmask gw. (dest, netmask, gw) \<in> set table}"
  by (force simp: ext_route_new_def)

lemma ext_route_facts:
  "(ext_route (ext_route_new table) ip = None \<longleftrightarrow>
      (\<forall>(dest, netmask, gw) \<in> set table. \<not> covers dest netmask ip)) \<and>
   (\<forall>gw. ext_route (ext_route_new table) ip = Some gw \<longrightarrow>
      (\<exists>dest netmask. (dest, netmask, gw) \<in> set table \<and> covers dest netmask ip \<and>
         (\<forall>(dest', netmask', gw') \<in> set table. covers dest' netmask' ip \<longrightarrow> netmask' AND dest' \<le> netmask AND dest)))"
proof -
  define T where "T = ext_route_new table"
  let ?P = "\<lambda>(dest, netmask, _ :: ipv4_addr). netmask AND ip = dest"
  have route: "ext_route T ip = (case find ?P T of Some (_, _, g) \<Rightarrow> Some g | None \<Rightarrow> None)"
    by (simp add: ext_route_def)
  have sorted: "sorted (map (\<lambda>(dest, _, _). - uint dest) T)"
    by (simp add: T_def ext_route_new_def)
  have none: "find ?P T = None \<longleftrightarrow> (\<forall>(dest, netmask, gw) \<in> set table. \<not> covers dest netmask ip)"
    unfolding find_None_iff T_def set_ext_route_new by (auto simp: covers_def)
  have some: "\<exists>dest netmask. (dest, netmask, gw) \<in> set table \<and> covers dest netmask ip \<and>
      (\<forall>(dest', netmask', gw') \<in> set table. covers dest' netmask' ip \<longrightarrow> netmask' AND dest' \<le> netmask AND dest)"
    if f: "find ?P T = Some (d, m, gw)" for d m gw
  proof -
    obtain dest where "(dest, m, gw) \<in> set table" "d = m AND dest" "m AND ip = d"
      using ext_find_mem [OF f] by (auto simp: T_def set_ext_route_new)
    moreover have "m' AND d' \<le> d" if "(d', m', g') \<in> set table" "covers d' m' ip" for d' m' g'
    proof -
      have "(m' AND d', m', g') \<in> set T"
        using that(1) by (auto simp: T_def set_ext_route_new)
      then have "- uint d \<le> - uint (m' AND d')"
        using find_sorted_least [OF sorted f] that(2) by (fastforce simp: covers_def)
      then show ?thesis by (simp add: word_le_def)
    qed
    ultimately show ?thesis by (fastforce simp: covers_def)
  qed
  show ?thesis
    unfolding T_def [symmetric] route
    using none some by (fastforce split: option.splits)
qed

text \<open>C32: \<open>route\<close> on a table built by \<open>new\<close> returns a gateway exactly when a configured subnet covers
  the address, and then the gateway of a covering subnet with the greatest network address.\<close>

theorem ext_route_spec:
  "(ext_route (ext_route_new table) ip = None \<longleftrightarrow>
      (\<forall>(dest, netmask, gw) \<in> set table. \<not> covers dest netmask ip)) \<and>
   (\<forall>gw. ext_route (ext_route_new table) ip = Some gw \<longrightarrow>
      (\<exists>dest netmask. (dest, netmask, gw) \<in> set table \<and> covers dest netmask ip \<and>
         (\<forall>(dest', netmask', gw') \<in> set table. covers dest' netmask' ip \<longrightarrow> netmask' AND dest' \<le> netmask AND dest)))"
  by (rule ext_route_facts)

text \<open>Among nested subnets the code prefers the longer prefix: an entry whose netmask extends the
  chosen one and which also covers the address has the same network address. Only such ties, where
  the address has zeros in the extra bits, escape longest-prefix order.\<close>

lemma ext_route_prefers_longer:
  assumes "ext_route (ext_route_new table) ip = Some gw"
  shows "\<exists>dest netmask. (dest, netmask, gw) \<in> set table \<and> covers dest netmask ip \<and>
    (\<forall>(dest', netmask', gw') \<in> set table.
       covers dest' netmask' ip \<and> netmask AND netmask' = netmask \<longrightarrow> netmask' AND dest' = netmask AND dest)"
proof -
  obtain dest netmask where e: "(dest, netmask, gw) \<in> set table" "covers dest netmask ip"
    and max: "\<forall>(dest', netmask', gw') \<in> set table. covers dest' netmask' ip \<longrightarrow> netmask' AND dest' \<le> netmask AND dest"
    using ext_route_facts [where table = table and ip = ip] assms by blast
  have "netmask' AND dest' = netmask AND dest"
    if "(dest', netmask', gw') \<in> set table" "covers dest' netmask' ip" "netmask AND netmask' = netmask" for dest' netmask' gw'
  proof (rule antisym)
    show "netmask' AND dest' \<le> netmask AND dest" using max that by blast
    have "netmask AND dest = netmask AND (netmask' AND ip)"
      using e(2) that(3) by (simp add: covers_def and.assoc [symmetric])
    also have "\<dots> \<le> netmask' AND ip" by (rule word_and_le1)
    finally show "netmask AND dest \<le> netmask' AND dest'" using that(2) by (simp add: covers_def)
  qed
  with e show ?thesis by blast
qed

definition ext_sample :: "ext_entry list" where
  "ext_sample = [(0xC0A80000, 0xFFFF0000, 1), (0xC0A80105, 0xFFFFFF00, 2)]"

lemma ext_sample_new: "ext_route_new ext_sample = [(0xC0A80100, 0xFFFFFF00, 2), (0xC0A80000, 0xFFFF0000, 1)]"
  by (simp add: ext_route_new_def ext_sample_def)

lemma ext_sample_route: "ext_route (ext_route_new ext_sample) 0xC0A80163 = Some 2"
  unfolding ext_sample_new by (simp add: ext_route_def)

lemma ext_route_spec_witness:
  "\<exists>dest netmask. (dest, netmask, 2) \<in> set ext_sample \<and> covers dest netmask 0xC0A80163"
  using ext_route_spec [where table = ext_sample and ip = "0xC0A80163"] ext_sample_route by blast

text \<open>The tie is real: two subnets with the same network address keep the order of the configuration,
  so a \<open>/8\<close> listed before a \<open>/16\<close> with the same network address takes all of its traffic.\<close>

lemma ext_route_tie:
  "ext_route (ext_route_new [(0x0A000000, 0xFF000000, 1), (0x0A000000, 0xFFFF0000, 2)]) 0x0A000009 = Some 1 \<and>
   ext_route (ext_route_new [(0x0A000000, 0xFFFF0000, 2), (0x0A000000, 0xFF000000, 1)]) 0x0A000009 = Some 2"
  by (simp add: ext_route_def ext_route_new_def)

text \<open>\<open>allow\<close> accepts exactly the addresses that a configured subnet covers; order and the masking
  done by \<open>new\<close> make no difference.\<close>

lemma allow_route_spec:
  "allow_route (allow_route_new table) ip \<longleftrightarrow> (\<exists>(dest, netmask) \<in> set table. covers dest netmask ip)"
proof -
  have "set (allow_route_new table) = (\<lambda>(dest, netmask). (netmask AND dest, netmask)) ` set table"
    by (simp add: allow_route_new_def)
  moreover have "allow_route T ip \<longleftrightarrow> (\<exists>x\<in>set T. snd x AND ip = snd x AND fst x)" for T
    by (simp add: allow_route_def case_prod_beta)
  ultimately show ?thesis
    by (simp add: covers_def case_prod_beta)
qed

end
