(* ===== verification/Secret_Body.thy ===== *)
theory Secret_Body
  imports Vnt_Prelude
begin

text \<open>
  \<open>vnt/src/protocol/body.rs\<close>: the layouts of an encrypted payload. Every body is a view of the
  payload's octets with a flag telling whether a finger (a truncated keyed hash of 12 octets)
  closes it:

  \<^item> \<open>AEADSecretBody\<close>: data, tag (16), random (4), finger (12);
  \<^item> \<open>IVSecretBody\<close>: data, random (4), finger (12);
  \<^item> \<open>SecretBody\<close>: data, random (4), tag (16), finger (12);
  \<^item> \<open>AesCbcSecretBody\<close>: data whose last four octets are random, finger (12);
  \<^item> \<open>RsaSecretBody\<close>: data, random (16), finger (16).

  The four structs with a flag have the same two fields and share the record \<open>secret_tail\<close>. A
  \<open>..._mut\<close> view is modelled by the in-place update \<open>f\<close> that the caller makes through it.
\<close>

section \<open>Reserved sizes\<close>

definition AES_GCM_ENCRYPTION_RESERVED :: nat where
  "AES_GCM_ENCRYPTION_RESERVED = 32"

definition RSA_ENCRYPTION_RESERVED :: nat where
  "RSA_ENCRYPTION_RESERVED = 32"

definition RANDOM_RESERVED :: nat where
  "RANDOM_RESERVED = 4"

definition FINGER_RESERVED :: nat where
  "FINGER_RESERVED = 12"

definition TAG_RESERVED :: nat where
  "TAG_RESERVED = 16"

lemmas reserved_defs = AES_GCM_ENCRYPTION_RESERVED_def RSA_ENCRYPTION_RESERVED_def
  RANDOM_RESERVED_def FINGER_RESERVED_def TAG_RESERVED_def

text \<open>The largest body: a UDP datagram less the IP, UDP and packet headers.\<close>

definition body_max :: nat where
  "body_max = 65535 - 20 - 8 - 12"

record secret_tail =
  st_buffer :: bytes
  st_exist_finger :: bool

text \<open>\<open>let mut end = len - r; if exist_finger { end -= 12 }\<close>\<close>

definition st_end :: "nat \<Rightarrow> secret_tail \<Rightarrow> nat outcome" where
  "st_end r t = obind (usub (length (st_buffer t)) r) (\<lambda>e.
     if st_exist_finger t then usub e FINGER_RESERVED else Ok e)"

definition st_make :: "nat \<Rightarrow> nat \<Rightarrow> bytes \<Rightarrow> bool \<Rightarrow> secret_tail outcome" where
  "st_make min_with min_without buffer exist_finger =
     (if length buffer < (if exist_finger then min_with else min_without) \<or> body_max < length buffer
      then Err (IoError InvalidData)
      else Ok \<lparr>st_buffer = buffer, st_exist_finger = exist_finger\<rparr>)"

definition st_write :: "(bytes \<Rightarrow> bytes outcome) \<Rightarrow> secret_tail \<Rightarrow> secret_tail outcome" where
  "st_write f t = omap (\<lambda>b. t\<lparr>st_buffer := b\<rparr>) (f (st_buffer t))"

text \<open>The last \<open>n\<close> octets before \<open>end\<close>, and an update of the octets before \<open>end\<close>.\<close>

definition st_field :: "nat \<Rightarrow> nat \<Rightarrow> secret_tail \<Rightarrow> bytes outcome" where
  "st_field r n t = obind (st_end r t) (\<lambda>e. obind (usub e n) (\<lambda>i. slice (st_buffer t) i e))"

definition st_set_field :: "nat \<Rightarrow> nat \<Rightarrow> bytes \<Rightarrow> secret_tail \<Rightarrow> secret_tail outcome" where
  "st_set_field r n v t = obind (st_end r t) (\<lambda>e. obind (usub e n) (\<lambda>i. st_write (put_slice i e v) t))"

definition st_prefix :: "nat \<Rightarrow> secret_tail \<Rightarrow> bytes outcome" where
  "st_prefix r t = obind (st_end r t) (\<lambda>e. slice (st_buffer t) 0 e)"

definition st_prefix_mut :: "nat \<Rightarrow> (bytes \<Rightarrow> bytes outcome) \<Rightarrow> secret_tail \<Rightarrow> secret_tail outcome" where
  "st_prefix_mut r f t = obind (st_end r t) (\<lambda>e. obind (slice (st_buffer t) 0 e) (\<lambda>s.
     obind (f s) (\<lambda>s'. st_write (put_slice 0 e s') t)))"

definition st_set_checked :: "nat \<Rightarrow> nat \<Rightarrow> bytes \<Rightarrow> secret_tail \<Rightarrow> secret_tail outcome" where
  "st_set_checked r n v t =
     (if length v \<noteq> n then Err (IoError InvalidData) else st_set_field r n v t)"

definition st_finger :: "secret_tail \<Rightarrow> bytes outcome" where
  "st_finger t =
     (if st_exist_finger t
      then (let e = length (st_buffer t) in
        obind (usub e FINGER_RESERVED) (\<lambda>i. slice (st_buffer t) i e))
      else Ok [])"

definition st_set_finger :: "bytes \<Rightarrow> secret_tail \<Rightarrow> secret_tail outcome" where
  "st_set_finger finger t =
     (if st_exist_finger t then
        if length finger \<noteq> FINGER_RESERVED then Err (IoError InvalidData)
        else (let e = length (st_buffer t) in
          obind (usub e FINGER_RESERVED) (\<lambda>i. st_write (put_slice i e finger) t))
      else Err (IoError InvalidData))"

section \<open>The traits \<open>SecretTail\<close> and \<open>SecretTailMut\<close>\<close>

definition tail_random_buf :: "secret_tail \<Rightarrow> bytes outcome" where
  "tail_random_buf t = st_field 0 RANDOM_RESERVED t"

definition tail_finger :: "secret_tail \<Rightarrow> bytes outcome" where
  "tail_finger = st_finger"

definition tail_set_random :: "bytes \<Rightarrow> secret_tail \<Rightarrow> secret_tail outcome" where
  "tail_set_random random t = st_set_field 0 RANDOM_RESERVED random t"

definition tail_set_finger :: "bytes \<Rightarrow> secret_tail \<Rightarrow> secret_tail outcome" where
  "tail_set_finger = st_set_finger"

section \<open>\<open>AEADSecretBody\<close>\<close>

definition aead_new :: "bytes \<Rightarrow> bool \<Rightarrow> secret_tail outcome" where
  "aead_new = st_make (TAG_RESERVED + RANDOM_RESERVED + FINGER_RESERVED) (TAG_RESERVED + RANDOM_RESERVED)"

definition aead_data :: "secret_tail \<Rightarrow> bytes outcome" where
  "aead_data = st_prefix (TAG_RESERVED + RANDOM_RESERVED)"

definition aead_tag :: "secret_tail \<Rightarrow> bytes outcome" where
  "aead_tag = st_field RANDOM_RESERVED TAG_RESERVED"

definition aead_data_mut :: "(bytes \<Rightarrow> bytes outcome) \<Rightarrow> secret_tail \<Rightarrow> secret_tail outcome" where
  "aead_data_mut = st_prefix_mut (RANDOM_RESERVED + TAG_RESERVED)"

definition aead_data_tag :: "secret_tail \<Rightarrow> bytes outcome" where
  "aead_data_tag = st_prefix RANDOM_RESERVED"

definition aead_set_tag :: "bytes \<Rightarrow> secret_tail \<Rightarrow> secret_tail outcome" where
  "aead_set_tag = st_set_checked RANDOM_RESERVED TAG_RESERVED"

section \<open>\<open>IVSecretBody\<close>\<close>

definition iv_new :: "bytes \<Rightarrow> bool \<Rightarrow> secret_tail outcome" where
  "iv_new = st_make (FINGER_RESERVED + RANDOM_RESERVED) RANDOM_RESERVED"

definition iv_data :: "secret_tail \<Rightarrow> bytes outcome" where
  "iv_data = st_prefix RANDOM_RESERVED"

definition iv_data_mut :: "(bytes \<Rightarrow> bytes outcome) \<Rightarrow> secret_tail \<Rightarrow> secret_tail outcome" where
  "iv_data_mut = st_prefix_mut RANDOM_RESERVED"

section \<open>\<open>SecretBody\<close>\<close>

definition secret_new :: "bytes \<Rightarrow> bool \<Rightarrow> secret_tail outcome" where
  "secret_new = st_make 32 (32 - 12)"

definition secret_random :: "secret_tail \<Rightarrow> u32 outcome" where
  "secret_random t = obind (st_field 16 4 t) (\<lambda>s. get_u32 0 s)"

definition secret_body :: "secret_tail \<Rightarrow> bytes outcome" where
  "secret_body = st_prefix 16"

definition secret_tag :: "secret_tail \<Rightarrow> bytes outcome" where
  "secret_tag = st_field 0 16"

definition secret_en_body :: "secret_tail \<Rightarrow> bytes outcome" where
  "secret_en_body = st_prefix 0"

definition secret_set_random :: "u32 \<Rightarrow> secret_tail \<Rightarrow> secret_tail outcome" where
  "secret_set_random random = st_set_field 16 4 (u32_to_be random)"

definition secret_set_tag :: "bytes \<Rightarrow> secret_tail \<Rightarrow> secret_tail outcome" where
  "secret_set_tag = st_set_checked 0 16"

definition secret_finger :: "secret_tail \<Rightarrow> bytes outcome" where
  "secret_finger = st_finger"

definition secret_set_finger :: "bytes \<Rightarrow> secret_tail \<Rightarrow> secret_tail outcome" where
  "secret_set_finger = st_set_finger"

definition secret_body_mut :: "(bytes \<Rightarrow> bytes outcome) \<Rightarrow> secret_tail \<Rightarrow> secret_tail outcome" where
  "secret_body_mut = st_prefix_mut 16"

section \<open>\<open>AesCbcSecretBody\<close>\<close>

definition cbc_new :: "bytes \<Rightarrow> bool \<Rightarrow> secret_tail outcome" where
  "cbc_new = st_make 16 (16 - 12)"

definition cbc_en_body :: "secret_tail \<Rightarrow> bytes outcome" where
  "cbc_en_body = st_prefix 0"

definition cbc_finger :: "secret_tail \<Rightarrow> bytes outcome" where
  "cbc_finger = st_finger"

definition cbc_set_finger :: "bytes \<Rightarrow> secret_tail \<Rightarrow> secret_tail outcome" where
  "cbc_set_finger = st_set_finger"

definition cbc_set_random :: "u32 \<Rightarrow> secret_tail \<Rightarrow> secret_tail outcome" where
  "cbc_set_random random = st_set_field 0 4 (u32_to_be random)"

definition cbc_en_body_mut :: "(bytes \<Rightarrow> bytes outcome) \<Rightarrow> secret_tail \<Rightarrow> secret_tail outcome" where
  "cbc_en_body_mut = st_prefix_mut 0"

section \<open>\<open>RsaSecretBody\<close>\<close>

definition rsa_new :: "bytes \<Rightarrow> bytes outcome" where
  "rsa_new buffer =
     (if length buffer < 32 \<or> body_max < length buffer then Err (IoError InvalidData) else Ok buffer)"

definition rsa_data :: "bytes \<Rightarrow> bytes outcome" where
  "rsa_data b = obind (usub (length b) 32) (\<lambda>e. slice b 0 e)"

definition rsa_random :: "bytes \<Rightarrow> bytes outcome" where
  "rsa_random b = obind (usub (length b) 16) (\<lambda>e. obind (usub e 16) (\<lambda>i. slice b i e))"

definition rsa_body :: "bytes \<Rightarrow> bytes outcome" where
  "rsa_body b = obind (usub (length b) 16) (\<lambda>e. slice b 0 e)"

definition rsa_finger :: "bytes \<Rightarrow> bytes outcome" where
  "rsa_finger b = obind (usub (length b) 16) (\<lambda>e. slice b e (length b))"

definition rsa_set_random :: "bytes \<Rightarrow> bytes \<Rightarrow> bytes outcome" where
  "rsa_set_random random b =
     (if length random \<noteq> 16 then Err (IoError InvalidData)
      else obind (usub (length b) 16) (\<lambda>e. obind (usub e 16) (\<lambda>i. put_slice i e random b)))"

definition rsa_random_mut :: "(bytes \<Rightarrow> bytes outcome) \<Rightarrow> bytes \<Rightarrow> bytes outcome" where
  "rsa_random_mut f b = obind (usub (length b) 16) (\<lambda>e. obind (usub e 16) (\<lambda>i.
     obind (slice b i e) (\<lambda>s. obind (f s) (\<lambda>s'. put_slice i e s' b))))"

definition rsa_set_finger :: "bytes \<Rightarrow> bytes \<Rightarrow> bytes outcome" where
  "rsa_set_finger finger b =
     (if length finger \<noteq> 16 then Err (IoError InvalidData)
      else (let e = length b in obind (usub e 16) (\<lambda>i. put_slice i e finger b)))"

section \<open>Layouts\<close>

lemmas finger_views = tail_finger_def tail_set_finger_def secret_finger_def secret_set_finger_def
  cbc_finger_def cbc_set_finger_def

text \<open>A body taken apart: what a view reads and writes when the octets behind it have the reserved
  length. \<open>flen\<close> is the length of the finger that closes the body.\<close>

abbreviation flen :: "bool \<Rightarrow> nat" where
  "flen f \<equiv> (if f then 12 else 0)"

definition body_of :: "bytes \<Rightarrow> bool \<Rightarrow> secret_tail" where
  "body_of b f = \<lparr>st_buffer = b, st_exist_finger = f\<rparr>"

named_theorems body_simps "views of a body of known layout"

lemma body_of_sel [simp]: "st_buffer (body_of b f) = b" "st_exist_finger (body_of b f) = f"
  by (simp_all add: body_of_def)

lemma body_of_write [simp]: "body_of b f\<lparr>st_buffer := c\<rparr> = body_of c f"
  by (simp add: body_of_def)

lemma st_end_split: "length y = r + flen f \<Longrightarrow> st_end r (body_of (x @ y) f) = Ok (length x)"
  by (cases f) (simp_all add: st_end_def FINGER_RESERVED_def)

lemma st_prefix_split: "length y = r + flen f \<Longrightarrow> st_prefix r (body_of (x @ y) f) = Ok x"
  by (simp add: st_prefix_def st_end_split slice_def)

lemma st_prefix_mut_split:
  "length y = r + flen f \<Longrightarrow> f' x = Ok x' \<Longrightarrow> length x' = length x \<Longrightarrow>
   st_prefix_mut r f' (body_of (x @ y) f) = Ok (body_of (x' @ y) f)"
  by (simp add: st_prefix_mut_def st_end_split slice_def st_write_def put_slice_def)

lemma st_field_split:
  assumes "length y = r + flen f" and "length v = n"
  shows "st_field r n (body_of (x @ v @ y) f) = Ok v"
proof -
  have "st_end r (body_of (x @ v @ y) f) = Ok (length x + n)"
    using st_end_split [of y r f "x @ v"] assms by simp
  then show ?thesis using assms by (simp add: st_field_def slice_def)
qed

lemma st_set_field_split:
  assumes "length y = r + flen f" and "length v = n" and "length w = n"
  shows "st_set_field r n w (body_of (x @ v @ y) f) = Ok (body_of (x @ w @ y) f)"
proof -
  have "st_end r (body_of (x @ v @ y) f) = Ok (length x + n)"
    using st_end_split [of y r f "x @ v"] assms by simp
  then show ?thesis using assms by (simp add: st_set_field_def st_write_def put_slice_def)
qed

lemma st_make_ok_iff:
  "st_make m n b f = Ok t \<longleftrightarrow> (if f then m else n) \<le> length b \<and> length b \<le> body_max \<and> t = body_of b f"
  by (auto simp: st_make_def body_of_def)

lemma st_make_ok:
  "(if f then m else n) \<le> length b \<Longrightarrow> length b \<le> body_max \<Longrightarrow> st_make m n b f = Ok (body_of b f)"
  by (simp add: st_make_ok_iff)

lemma st_make_not_panic: "st_make m n b f \<noteq> Panic"
  by (simp add: st_make_def)

lemma st_finger_split [body_simps]: "length fin = flen f \<Longrightarrow> st_finger (body_of (x @ fin) f) = Ok fin"
  by (cases f) (simp_all add: st_finger_def FINGER_RESERVED_def slice_def Let_def)

lemma st_set_finger_split [body_simps]:
  "length fin = 12 \<Longrightarrow> length w = 12 \<Longrightarrow>
   st_set_finger w (body_of (x @ fin) True) = Ok (body_of (x @ w) True)"
  by (simp add: st_set_finger_def FINGER_RESERVED_def st_write_def put_slice_def Let_def)

text \<open>A list taken apart from its end.\<close>

lemma split_last_n:
  assumes "n \<le> length b"
  obtains x y where "b = x @ y" and "length y = n"
  using that [of "take (length b - n) b" "drop (length b - n) b"] assms by simp

text \<open>The AEAD layout.\<close>

definition aead_of :: "bytes \<Rightarrow> bytes \<Rightarrow> bytes \<Rightarrow> bytes \<Rightarrow> secret_tail" where
  "aead_of d tag rnd fin = body_of (d @ tag @ rnd @ fin) (fin \<noteq> [])"

text \<open>The lengths of tag, random and finger in that layout.\<close>

definition tail_lens :: "bytes \<Rightarrow> bytes \<Rightarrow> bytes \<Rightarrow> bool" where
  "tail_lens tag rnd fin \<longleftrightarrow> length tag = 16 \<and> length rnd = 4 \<and> (length fin = 12 \<or> fin = [])"

lemma tail_lens_flen: "tail_lens tag rnd fin \<Longrightarrow> length fin = flen (fin \<noteq> [])"
  by (auto simp: tail_lens_def)

lemma aead_views [body_simps]:
  assumes "tail_lens tag rnd fin"
  shows "aead_data (aead_of d tag rnd fin) = Ok d"
    and "aead_tag (aead_of d tag rnd fin) = Ok tag"
    and "aead_data_tag (aead_of d tag rnd fin) = Ok (d @ tag)"
    and "tail_random_buf (aead_of d tag rnd fin) = Ok rnd"
    and "st_finger (aead_of d tag rnd fin) = Ok fin"
proof -
  note l = assms [unfolded tail_lens_def] tail_lens_flen [OF assms]
  show "aead_data (aead_of d tag rnd fin) = Ok d"
    unfolding aead_data_def aead_of_def using l by (intro st_prefix_split) (simp add: reserved_defs)
  show "aead_tag (aead_of d tag rnd fin) = Ok tag"
    unfolding aead_tag_def aead_of_def using l by (intro st_field_split) (simp_all add: reserved_defs)
  show "aead_data_tag (aead_of d tag rnd fin) = Ok (d @ tag)"
    unfolding aead_data_tag_def aead_of_def
    using st_prefix_split [of "rnd @ fin" RANDOM_RESERVED "fin \<noteq> []" "d @ tag"] l
    by (simp add: reserved_defs)
  show "tail_random_buf (aead_of d tag rnd fin) = Ok rnd"
    unfolding tail_random_buf_def aead_of_def
    using st_field_split [of fin 0 "fin \<noteq> []" rnd RANDOM_RESERVED "d @ tag"] l
    by (simp add: reserved_defs)
  show "st_finger (aead_of d tag rnd fin) = Ok fin"
    unfolding aead_of_def
    using st_finger_split [of fin "fin \<noteq> []" "d @ tag @ rnd"] l by simp
qed

lemma aead_writes [body_simps]:
  assumes "tail_lens tag rnd fin"
  shows "f d = Ok d' \<Longrightarrow> length d' = length d \<Longrightarrow>
      aead_data_mut f (aead_of d tag rnd fin) = Ok (aead_of d' tag rnd fin)"
    and "length v = 16 \<Longrightarrow> aead_set_tag v (aead_of d tag rnd fin) = Ok (aead_of d v rnd fin)"
    and "length v = 4 \<Longrightarrow> tail_set_random v (aead_of d tag rnd fin) = Ok (aead_of d tag v fin)"
    and "fin \<noteq> [] \<Longrightarrow> length v = 12 \<Longrightarrow>
      st_set_finger v (aead_of d tag rnd fin) = Ok (aead_of d tag rnd v)"
proof -
  note l = assms [unfolded tail_lens_def] tail_lens_flen [OF assms]
  show "aead_data_mut f (aead_of d tag rnd fin) = Ok (aead_of d' tag rnd fin)"
    if "f d = Ok d'" "length d' = length d"
    unfolding aead_data_mut_def aead_of_def using l that
    by (intro st_prefix_mut_split) (simp_all add: reserved_defs)
  show "aead_set_tag v (aead_of d tag rnd fin) = Ok (aead_of d v rnd fin)" if "length v = 16"
    unfolding aead_set_tag_def aead_of_def st_set_checked_def using l that
    by (simp add: reserved_defs st_set_field_split)
  show "tail_set_random v (aead_of d tag rnd fin) = Ok (aead_of d tag v fin)" if "length v = 4"
    unfolding tail_set_random_def aead_of_def
    using st_set_field_split [of fin 0 "fin \<noteq> []" rnd RANDOM_RESERVED v "d @ tag"] l that
    by (simp add: reserved_defs)
  show "st_set_finger v (aead_of d tag rnd fin) = Ok (aead_of d tag rnd v)"
    if "fin \<noteq> []" "length v = 12"
  proof -
    have "v \<noteq> []" using that by auto
    then show ?thesis
      unfolding aead_of_def using st_set_finger_split [of fin v "d @ tag @ rnd"] l that by auto
  qed
qed

lemma aead_new_split:
  assumes "aead_new b f = Ok t"
  obtains d tag rnd fin where "b = d @ tag @ rnd @ fin" and "tail_lens tag rnd fin"
    and "f \<longleftrightarrow> fin \<noteq> []" and "t = aead_of d tag rnd fin"
proof -
  from assms have len: "20 + flen f \<le> length b" and t: "t = body_of b f"
    by (auto simp: aead_new_def st_make_ok_iff reserved_defs split: if_splits)
  obtain x fin where b: "b = x @ fin" "length fin = flen f" using split_last_n [of "flen f" b] len by auto
  obtain y rnd where x: "x = y @ rnd" "length rnd = 4" using split_last_n [of 4 x] len b by auto
  obtain d tag where y: "y = d @ tag" "length tag = 16" using split_last_n [of 16 y] len b x by auto
  have "f \<longleftrightarrow> fin \<noteq> []" using b(2) by (cases f) auto
  then show thesis
    using that [of d tag rnd fin] b x y t by (auto simp: tail_lens_def aead_of_def split: if_splits)
qed

lemma aead_new_ok [body_simps]:
  "tail_lens tag rnd fin \<Longrightarrow> length d + 20 + length fin \<le> body_max \<Longrightarrow>
   aead_new (d @ tag @ rnd @ fin) (fin \<noteq> []) = Ok (aead_of d tag rnd fin)"
  by (auto simp: aead_new_def st_make_ok_iff reserved_defs aead_of_def tail_lens_def)

text \<open>The layout of \<open>SecretBody\<close>: the random word before the tag.\<close>

definition secret_of :: "bytes \<Rightarrow> bytes \<Rightarrow> bytes \<Rightarrow> bytes \<Rightarrow> secret_tail" where
  "secret_of d rnd tag fin = body_of (d @ rnd @ tag @ fin) (fin \<noteq> [])"

lemma secret_views [body_simps]:
  assumes "tail_lens tag rnd fin"
  shows "secret_body (secret_of d rnd tag fin) = Ok (d @ rnd)"
    and "secret_tag (secret_of d rnd tag fin) = Ok tag"
    and "secret_en_body (secret_of d rnd tag fin) = Ok (d @ rnd @ tag)"
    and "secret_random (secret_of d rnd tag fin) = get_u32 0 rnd"
    and "st_finger (secret_of d rnd tag fin) = Ok fin"
proof -
  note l = assms [unfolded tail_lens_def] tail_lens_flen [OF assms]
  show "secret_body (secret_of d rnd tag fin) = Ok (d @ rnd)"
    unfolding secret_body_def secret_of_def
    using st_prefix_split [of "tag @ fin" 16 "fin \<noteq> []" "d @ rnd"] l by simp
  show "secret_tag (secret_of d rnd tag fin) = Ok tag"
    unfolding secret_tag_def secret_of_def
    using st_field_split [of fin 0 "fin \<noteq> []" tag 16 "d @ rnd"] l by simp
  show "secret_en_body (secret_of d rnd tag fin) = Ok (d @ rnd @ tag)"
    unfolding secret_en_body_def secret_of_def
    using st_prefix_split [of fin 0 "fin \<noteq> []" "d @ rnd @ tag"] l by simp
  show "secret_random (secret_of d rnd tag fin) = get_u32 0 rnd"
    unfolding secret_random_def secret_of_def
    using st_field_split [of "tag @ fin" 16 "fin \<noteq> []" rnd 4 d] l by simp
  show "st_finger (secret_of d rnd tag fin) = Ok fin"
    unfolding secret_of_def using st_finger_split [of fin "fin \<noteq> []" "d @ rnd @ tag"] l by simp
qed

lemma secret_writes [body_simps]:
  assumes "tail_lens tag rnd fin"
  shows "f (d @ rnd) = Ok x \<Longrightarrow> x = d' @ rnd' \<Longrightarrow> length d' = length d \<Longrightarrow> length rnd' = 4 \<Longrightarrow>
      secret_body_mut f (secret_of d rnd tag fin) = Ok (secret_of d' rnd' tag fin)"
    and "length v = 16 \<Longrightarrow> secret_set_tag v (secret_of d rnd tag fin) = Ok (secret_of d rnd v fin)"
    and "secret_set_random w (secret_of d rnd tag fin) = Ok (secret_of d (u32_to_be w) tag fin)"
    and "fin \<noteq> [] \<Longrightarrow> length v = 12 \<Longrightarrow>
      st_set_finger v (secret_of d rnd tag fin) = Ok (secret_of d rnd tag v)"
proof -
  note l = assms [unfolded tail_lens_def] tail_lens_flen [OF assms]
  show "secret_body_mut f (secret_of d rnd tag fin) = Ok (secret_of d' rnd' tag fin)"
    if "f (d @ rnd) = Ok x" "x = d' @ rnd'" "length d' = length d" "length rnd' = 4"
    unfolding secret_body_mut_def secret_of_def
    using st_prefix_mut_split [of "tag @ fin" 16 "fin \<noteq> []" f "d @ rnd" x] l that by simp
  show "secret_set_tag v (secret_of d rnd tag fin) = Ok (secret_of d rnd v fin)" if "length v = 16"
    unfolding secret_set_tag_def secret_of_def st_set_checked_def
    using st_set_field_split [of fin 0 "fin \<noteq> []" tag 16 v "d @ rnd"] l that by simp
  show "secret_set_random w (secret_of d rnd tag fin) = Ok (secret_of d (u32_to_be w) tag fin)"
    unfolding secret_set_random_def secret_of_def
    using st_set_field_split [of "tag @ fin" 16 "fin \<noteq> []" rnd 4 "u32_to_be w" d] l by simp
  show "st_set_finger v (secret_of d rnd tag fin) = Ok (secret_of d rnd tag v)"
    if "fin \<noteq> []" "length v = 12"
  proof -
    have "v \<noteq> []" using that by auto
    then show ?thesis
      unfolding secret_of_def using st_set_finger_split [of fin v "d @ rnd @ tag"] l that by auto
  qed
qed

lemma secret_new_split:
  assumes "secret_new b f = Ok t"
  obtains d rnd tag fin where "b = d @ rnd @ tag @ fin" and "tail_lens tag rnd fin"
    and "f \<longleftrightarrow> fin \<noteq> []" and "t = secret_of d rnd tag fin"
proof -
  from assms have len: "20 + flen f \<le> length b" and t: "t = body_of b f"
    by (auto simp: secret_new_def st_make_ok_iff split: if_splits)
  obtain x fin where b: "b = x @ fin" "length fin = flen f" using split_last_n [of "flen f" b] len by auto
  obtain y tag where x: "x = y @ tag" "length tag = 16" using split_last_n [of 16 x] len b by auto
  obtain d rnd where y: "y = d @ rnd" "length rnd = 4" using split_last_n [of 4 y] len b x by auto
  have "f \<longleftrightarrow> fin \<noteq> []" using b(2) by (cases f) auto
  then show thesis
    using that [of d rnd tag fin] b x y t by (auto simp: tail_lens_def secret_of_def split: if_splits)
qed

lemma secret_new_ok [body_simps]:
  "tail_lens tag rnd fin \<Longrightarrow> length d + 20 + length fin \<le> body_max \<Longrightarrow>
   secret_new (d @ rnd @ tag @ fin) (fin \<noteq> []) = Ok (secret_of d rnd tag fin)"
  by (auto simp: secret_new_def st_make_ok_iff secret_of_def tail_lens_def)

text \<open>The layouts of \<open>IVSecretBody\<close> and \<open>AesCbcSecretBody\<close>.\<close>

definition iv_of :: "bytes \<Rightarrow> bytes \<Rightarrow> bytes \<Rightarrow> secret_tail" where
  "iv_of d rnd fin = body_of (d @ rnd @ fin) (fin \<noteq> [])"

definition iv_lens :: "bytes \<Rightarrow> bytes \<Rightarrow> bool" where
  "iv_lens rnd fin \<longleftrightarrow> length rnd = 4 \<and> (length fin = 12 \<or> fin = [])"

lemma iv_lens_flen: "iv_lens rnd fin \<Longrightarrow> length fin = flen (fin \<noteq> [])"
  by (auto simp: iv_lens_def)

lemma iv_views [body_simps]:
  assumes "iv_lens rnd fin"
  shows "iv_data (iv_of d rnd fin) = Ok d"
    and "tail_random_buf (iv_of d rnd fin) = Ok rnd"
    and "st_finger (iv_of d rnd fin) = Ok fin"
    and "f d = Ok d' \<Longrightarrow> length d' = length d \<Longrightarrow> iv_data_mut f (iv_of d rnd fin) = Ok (iv_of d' rnd fin)"
    and "length v = 4 \<Longrightarrow> tail_set_random v (iv_of d rnd fin) = Ok (iv_of d v fin)"
    and "fin \<noteq> [] \<Longrightarrow> length w = 12 \<Longrightarrow> st_set_finger w (iv_of d rnd fin) = Ok (iv_of d rnd w)"
proof -
  note l = assms [unfolded iv_lens_def] iv_lens_flen [OF assms]
  show "iv_data (iv_of d rnd fin) = Ok d"
    unfolding iv_data_def iv_of_def using l by (intro st_prefix_split) (simp add: reserved_defs)
  show "tail_random_buf (iv_of d rnd fin) = Ok rnd"
    unfolding tail_random_buf_def iv_of_def using l by (intro st_field_split) (simp_all add: reserved_defs)
  show "st_finger (iv_of d rnd fin) = Ok fin"
    unfolding iv_of_def using st_finger_split [of fin "fin \<noteq> []" "d @ rnd"] l by simp
  show "iv_data_mut f (iv_of d rnd fin) = Ok (iv_of d' rnd fin)"
    if "f d = Ok d'" "length d' = length d"
    unfolding iv_data_mut_def iv_of_def using l that
    by (intro st_prefix_mut_split) (simp_all add: reserved_defs)
  show "tail_set_random v (iv_of d rnd fin) = Ok (iv_of d v fin)" if "length v = 4"
    unfolding tail_set_random_def iv_of_def using l that
    by (intro st_set_field_split) (simp_all add: reserved_defs)
  show "st_set_finger w (iv_of d rnd fin) = Ok (iv_of d rnd w)" if "fin \<noteq> []" "length w = 12"
  proof -
    have "w \<noteq> []" using that by auto
    then show ?thesis
      unfolding iv_of_def using st_set_finger_split [of fin w "d @ rnd"] l that by auto
  qed
qed

lemma iv_new_split:
  assumes "iv_new b f = Ok t"
  obtains d rnd fin where "b = d @ rnd @ fin" and "iv_lens rnd fin"
    and "f \<longleftrightarrow> fin \<noteq> []" and "t = iv_of d rnd fin"
proof -
  from assms have len: "4 + flen f \<le> length b" and t: "t = body_of b f"
    by (auto simp: iv_new_def st_make_ok_iff reserved_defs split: if_splits)
  obtain x fin where b: "b = x @ fin" "length fin = flen f" using split_last_n [of "flen f" b] len by auto
  obtain d rnd where x: "x = d @ rnd" "length rnd = 4" using split_last_n [of 4 x] len b by auto
  have "f \<longleftrightarrow> fin \<noteq> []" using b(2) by (cases f) auto
  then show thesis
    using that [of d rnd fin] b x t by (auto simp: iv_lens_def iv_of_def split: if_splits)
qed

lemma iv_new_ok [body_simps]:
  "iv_lens rnd fin \<Longrightarrow> length d + 4 + length fin \<le> body_max \<Longrightarrow>
   iv_new (d @ rnd @ fin) (fin \<noteq> []) = Ok (iv_of d rnd fin)"
  by (auto simp: iv_new_def st_make_ok_iff reserved_defs iv_of_def iv_lens_def)

lemma cbc_views [body_simps]:
  assumes "length fin = flen f"
  shows "cbc_en_body (body_of (x @ fin) f) = Ok x"
    and "f' x = Ok x' \<Longrightarrow> length x' = length x \<Longrightarrow>
      cbc_en_body_mut f' (body_of (x @ fin) f) = Ok (body_of (x' @ fin) f)"
    and "length rnd = 4 \<Longrightarrow>
      cbc_set_random w (body_of (d @ rnd @ fin) f) = Ok (body_of (d @ u32_to_be w @ fin) f)"
  using assms
  by (simp_all add: cbc_en_body_def cbc_en_body_mut_def cbc_set_random_def st_prefix_split
      st_prefix_mut_split st_set_field_split)

section \<open>Correctness of the layouts\<close>

lemma aead_layout:
  assumes "20 + flen f \<le> length b" and "length b \<le> body_max"
  shows "\<exists>d tag rnd fin. b = d @ tag @ rnd @ fin \<and> aead_new b f = Ok (body_of b f) \<and>
      aead_data (body_of b f) = Ok d \<and> aead_tag (body_of b f) = Ok tag \<and>
      tail_random_buf (body_of b f) = Ok rnd \<and> st_finger (body_of b f) = Ok fin \<and>
      aead_data_tag (body_of b f) = Ok (d @ tag) \<and>
      aead_set_tag (replicate 16 v) (body_of b f) = Ok (body_of (d @ replicate 16 v @ rnd @ fin) f) \<and>
      tail_set_random (u32_to_be w) (body_of b f) = Ok (body_of (d @ tag @ u32_to_be w @ fin) f)"
proof -
  have new: "aead_new b f = Ok (body_of b f)"
    using assms by (simp add: aead_new_def st_make_ok reserved_defs split: if_splits)
  then obtain d tag rnd fin where s: "b = d @ tag @ rnd @ fin" "tail_lens tag rnd fin"
      "f \<longleftrightarrow> fin \<noteq> []" "body_of b f = aead_of d tag rnd fin"
    by (rule aead_new_split)
  note views = aead_views [OF s(2), of d, folded s(4)]
  note writes = aead_writes(2,3) [OF s(2), where d = d, folded s(4), unfolded aead_of_def, folded s(3)]
  show ?thesis
    by (rule exI [of _ d], rule exI [of _ tag], rule exI [of _ rnd], rule exI [of _ fin])
      (intro conjI s(1) new views writes length_replicate length_u32_to_be)
qed

lemma secret_layout:
  assumes "20 + flen f \<le> length b" and "length b \<le> body_max"
  shows "\<exists>d rnd tag fin. b = d @ rnd @ tag @ fin \<and> secret_new b f = Ok (body_of b f) \<and>
      secret_body (body_of b f) = Ok (d @ rnd) \<and> secret_tag (body_of b f) = Ok tag \<and>
      st_finger (body_of b f) = Ok fin \<and> secret_en_body (body_of b f) = Ok (d @ rnd @ tag) \<and>
      secret_set_tag (replicate 16 v) (body_of b f) = Ok (body_of (d @ rnd @ replicate 16 v @ fin) f) \<and>
      secret_set_random w (body_of b f) = Ok (body_of (d @ u32_to_be w @ tag @ fin) f) \<and>
      obind (secret_set_random w (body_of b f)) secret_random = Ok w"
proof -
  have new: "secret_new b f = Ok (body_of b f)"
    using assms by (simp add: secret_new_def st_make_ok split: if_splits)
  then obtain d rnd tag fin where s: "b = d @ rnd @ tag @ fin" "tail_lens tag rnd fin"
      "f \<longleftrightarrow> fin \<noteq> []" "body_of b f = secret_of d rnd tag fin"
    by (rule secret_new_split)
  have l: "tail_lens tag (u32_to_be w) fin" using s(2) by (simp add: tail_lens_def)
  have "get_u32 0 (u32_to_be w) = Ok w"
    by (simp add: get_u32_ok) (simp add: u32_to_be_def)
  then have "obind (secret_set_random w (secret_of d rnd tag fin)) secret_random = Ok w"
    by (simp add: secret_writes(3) [OF s(2)] secret_views(4) [OF l])
  note random = this [folded s(4)]
  note views = secret_views [OF s(2), of d, folded s(4)]
  note writes = secret_writes(2,3) [OF s(2), where d = d, folded s(4), unfolded secret_of_def, folded s(3)]
  show ?thesis
    by (rule exI [of _ d], rule exI [of _ rnd], rule exI [of _ tag], rule exI [of _ fin])
      (intro conjI s(1) new views writes random length_replicate)
qed

text \<open>The constructors of \<open>AEADSecretBody\<close> and \<open>SecretBody\<close> accept exactly the buffers that hold tag, random and
  finger and fit a datagram. The parts of an accepted body partition the buffer in the documented
  order: every accessor returns its part without panicking and every setter replaces its own part
  and no other octet.\<close>

theorem secret_layouts:
  "(is_ok (aead_new b f) \<longrightarrow> (\<exists>d tag rnd fin. b = d @ tag @ rnd @ fin \<and> aead_new b f = Ok (body_of b f) \<and>
      aead_data (body_of b f) = Ok d \<and> aead_tag (body_of b f) = Ok tag \<and>
      tail_random_buf (body_of b f) = Ok rnd \<and> tail_finger (body_of b f) = Ok fin \<and>
      aead_data_tag (body_of b f) = Ok (d @ tag) \<and>
      aead_set_tag (replicate 16 v) (body_of b f) = Ok (body_of (d @ replicate 16 v @ rnd @ fin) f) \<and>
      tail_set_random (u32_to_be w) (body_of b f) = Ok (body_of (d @ tag @ u32_to_be w @ fin) f))) \<and>
   (is_ok (secret_new b f) \<longrightarrow> (\<exists>d rnd tag fin. b = d @ rnd @ tag @ fin \<and> secret_new b f = Ok (body_of b f) \<and>
      secret_body (body_of b f) = Ok (d @ rnd) \<and> secret_tag (body_of b f) = Ok tag \<and>
      secret_finger (body_of b f) = Ok fin \<and> secret_en_body (body_of b f) = Ok (d @ rnd @ tag) \<and>
      secret_set_tag (replicate 16 v) (body_of b f) = Ok (body_of (d @ rnd @ replicate 16 v @ fin) f) \<and>
      secret_set_random w (body_of b f) = Ok (body_of (d @ u32_to_be w @ tag @ fin) f) \<and>
      obind (secret_set_random w (body_of b f)) secret_random = Ok w)) \<and>
   (is_ok (aead_new b f) \<longleftrightarrow> 20 + flen f \<le> length b \<and> length b \<le> body_max) \<and>
   (is_ok (secret_new b f) \<longleftrightarrow> 20 + flen f \<le> length b \<and> length b \<le> body_max)"
proof -
  have bounds: "is_ok (aead_new b f) \<longleftrightarrow> 20 + flen f \<le> length b \<and> length b \<le> body_max"
      "is_ok (secret_new b f) \<longleftrightarrow> 20 + flen f \<le> length b \<and> length b \<le> body_max"
    by (auto simp: aead_new_def secret_new_def st_make_def reserved_defs)
  show ?thesis
    unfolding bounds finger_views using aead_layout [of f b v w] secret_layout [of f b v w] by blast
qed

lemma secret_layouts_witness:
  "\<exists>d tag rnd fin. replicate 33 (7 :: u8) = d @ tag @ rnd @ fin \<and>
      aead_data (body_of (replicate 33 7) True) = Ok d \<and> aead_tag (body_of (replicate 33 7) True) = Ok tag"
  using secret_layouts [of "replicate 33 7" True 0 0] by (auto simp: body_max_def)

end
