(* ===== verification/Finger.thy ===== *)
theory Finger
  imports Net_Packet Secret_Body
begin

text \<open>
  \<open>vnt/src/cipher/finger.rs\<close>, and what the ciphers of \<open>vnt/src/cipher/\<close> share: the nonce made from
  the packet header, the finger (a hash keyed by the token that a relay can check without the
  password), and the borrowing of a packet's payload as an encrypted body.

  The cryptographic crates are not part of the repository. The record \<open>crypto\<close> holds the functions
  the program calls, and \<open>crypto_ok\<close> says what their documentation promises: output lengths, and
  that decryption with the same key and nonce undoes encryption. Nothing is assumed about secrecy.
\<close>

section \<open>The cryptographic primitives\<close>

datatype aead_alg = Aes128Gcm | Aes256Gcm | ChaChaPoly

text \<open>
  \<^item> \<open>c_seal\<close>, \<open>c_open\<close>: \<open>encrypt_in_place_detached\<close> (the data after it and the tag) and
    \<open>decrypt_in_place_detached\<close>, on key, nonce and data;
  \<^item> \<open>c_stream\<close>: the first octets of the ChaCha20 key stream of a key and a nonce;
  \<^item> \<open>c_cbc_enc\<close>, \<open>c_cbc_dec\<close>: \<open>encrypt_padded_mut\<close> (the buffer after it and the length of the
    ciphertext) and \<open>decrypt_padded_mut\<close> (the buffer after it and the length of the message), by key,
    whose length selects AES-128 or AES-256, and initialisation vector;
  \<^item> \<open>c_ecb_enc\<close>, \<open>c_ecb_dec\<close>: the same from one buffer to another of the given size, without a vector;
  \<^item> \<open>c_sm4_enc\<close>, \<open>c_sm4_dec\<close>: \<open>Sm4CipherMode::encrypt\<close> and \<open>decrypt\<close> in CBC mode, from the message and
    the vector to a buffer of the given size.
\<close>

record crypto =
  c_sha256 :: "bytes \<Rightarrow> bytes"
  c_seal :: "aead_alg \<Rightarrow> bytes \<Rightarrow> bytes \<Rightarrow> bytes \<Rightarrow> (bytes \<times> bytes) option"
  c_open :: "aead_alg \<Rightarrow> bytes \<Rightarrow> bytes \<Rightarrow> bytes \<Rightarrow> bytes \<Rightarrow> bytes option"
  c_stream :: "bytes \<Rightarrow> bytes \<Rightarrow> nat \<Rightarrow> bytes"
  c_cbc_enc :: "bytes \<Rightarrow> bytes \<Rightarrow> bytes \<Rightarrow> nat \<Rightarrow> bytes \<times> nat option"
  c_cbc_dec :: "bytes \<Rightarrow> bytes \<Rightarrow> bytes \<Rightarrow> bytes \<times> nat option"
  c_ecb_enc :: "bytes \<Rightarrow> nat \<Rightarrow> bytes \<Rightarrow> bytes option"
  c_ecb_dec :: "bytes \<Rightarrow> nat \<Rightarrow> bytes \<Rightarrow> bytes option"
  c_sm4_enc :: "bytes \<Rightarrow> nat \<Rightarrow> bytes \<Rightarrow> bytes \<Rightarrow> bytes option"
  c_sm4_dec :: "bytes \<Rightarrow> nat \<Rightarrow> bytes \<Rightarrow> bytes \<Rightarrow> bytes option"

text \<open>The length of a message of \<open>n\<close> octets after PKCS #7 padding to blocks of 16.\<close>

definition padded :: "nat \<Rightarrow> nat" where
  "padded n = (n div 16 + 1) * 16"

definition aead_ok :: "crypto \<Rightarrow> bool" where
  "aead_ok C \<longleftrightarrow> (\<forall>a k n d. length d \<le> body_max \<longrightarrow> (\<exists>c t. c_seal C a k n d = Some (c, t) \<and>
      length c = length d \<and> length t = 16 \<and> c_open C a k n c t = Some d)) \<and>
    (\<forall>a k n c t d. c_open C a k n c t = Some d \<longrightarrow> length d = length c)"

definition stream_ok :: "crypto \<Rightarrow> bool" where
  "stream_ok C \<longleftrightarrow> (\<forall>k n m. length (c_stream C k n m) = m)"

definition cbc_ok :: "crypto \<Rightarrow> bool" where
  "cbc_ok C \<longleftrightarrow> (\<forall>k iv b n. padded n \<le> length b \<longrightarrow> (\<exists>c b'.
      c_cbc_enc C k iv b n = (c @ drop (padded n) b, Some (padded n)) \<and> length c = padded n \<and>
      c_cbc_dec C k iv c = (take n b @ b', Some n) \<and> length b' = padded n - n)) \<and>
    (\<forall>k iv b b' r. c_cbc_dec C k iv b = (b', r) \<longrightarrow> length b' = length b \<and> (\<forall>n. r = Some n \<longrightarrow> n \<le> length b))"

definition ecb_ok :: "crypto \<Rightarrow> bool" where
  "ecb_ok C \<longleftrightarrow> (\<forall>k n b. padded (length b) \<le> n \<longrightarrow> (\<exists>c. c_ecb_enc C k n b = Some c \<and>
      length c = padded (length b) \<and> c_ecb_dec C k n c = Some b)) \<and>
    (\<forall>k n c d. c_ecb_dec C k n c = Some d \<longrightarrow> length d \<le> length c)"

definition sm4_ok :: "crypto \<Rightarrow> bool" where
  "sm4_ok C \<longleftrightarrow> (\<forall>k n b iv. padded (length b) \<le> n \<longrightarrow> (\<exists>c. c_sm4_enc C k n b iv = Some c \<and>
      length c = padded (length b) \<and> c_sm4_dec C k n c iv = Some b)) \<and>
    (\<forall>k n c iv d. c_sm4_dec C k n c iv = Some d \<longrightarrow> length d \<le> length c)"

definition sha_ok :: "crypto \<Rightarrow> bool" where
  "sha_ok C \<longleftrightarrow> (\<forall>b. length (c_sha256 C b) = 32)"

definition crypto_ok :: "crypto \<Rightarrow> bool" where
  "crypto_ok C \<longleftrightarrow> sha_ok C \<and> aead_ok C \<and> stream_ok C \<and> cbc_ok C \<and> ecb_ok C \<and> sm4_ok C"

section \<open>Packets as frames\<close>

text \<open>A well-formed packet is a header of 12 octets, a payload and the reserved room behind it.\<close>

definition frame :: "bytes \<Rightarrow> bytes \<Rightarrow> bytes \<Rightarrow> net_packet" where
  "frame h pl r = \<lparr>np_data_len = 12 + length pl, np_buffer = h @ pl @ r\<rparr>"

lemma frame_sel [simp]:
  "np_data_len (frame h pl r) = 12 + length pl" "np_buffer (frame h pl r) = h @ pl @ r"
  by (simp_all add: frame_def)

lemma np_wf_frame_iff: "np_wf p \<longleftrightarrow> (\<exists>h pl r. length h = 12 \<and> p = frame h pl r)"
proof
  assume wf: "np_wf p"
  let ?b = "np_buffer p" and ?n = "np_data_len p"
  have "p = frame (take 12 ?b) (take (?n - 12) (drop 12 ?b)) (drop ?n ?b)"
  proof -
    have "take 12 ?b @ take (?n - 12) (drop 12 ?b) = take ?n ?b"
      using wf take_add [of 12 "?n - 12" ?b] by (simp add: np_wf_def)
    then have "take 12 ?b @ take (?n - 12) (drop 12 ?b) @ drop ?n ?b = ?b"
      by (metis append.assoc append_take_drop_id)
    moreover have "length (take (?n - 12) (drop 12 ?b)) = ?n - 12"
      using wf by (auto simp: np_wf_def min_def)
    ultimately show ?thesis using wf by (simp add: frame_def np_wf_def)
  qed
  then show "\<exists>h pl r. length h = 12 \<and> p = frame h pl r" using wf
    by (metis length_take min.absorb2 np_wf_def order.trans)
next
  assume "\<exists>h pl r. length h = 12 \<and> p = frame h pl r"
  then show "np_wf p" by (auto simp: np_wf_def)
qed

lemma np_wf_frame [simp]: "length h = 12 \<Longrightarrow> np_wf (frame h pl r)"
  using np_wf_frame_iff by blast

lemma np_wf_cases:
  assumes "np_wf p"
  obtains h pl r where "length h = 12" and "p = frame h pl r"
  using assms np_wf_frame_iff by blast

named_theorems frame_simps "operations of a packet on a frame"

lemma frame_payload [frame_simps]: "length h = 12 \<Longrightarrow> np_payload (frame h pl r) = Ok pl"
  by (simp add: np_payload_def slice_def)

lemma frame_buffer_part [frame_simps]: "np_buffer_part (frame h pl r) = Ok (h @ pl)" if "length h = 12"
  using that by (simp add: np_buffer_part_def slice_def)

lemma np_new_frame: "length h = 12 \<Longrightarrow> np_new (h @ pl) = Ok (frame h pl [])"
  by (simp add: np_new_def np_new0_def frame_def)

lemma frame_view [frame_simps]:
  "length h = 12 \<Longrightarrow> np_view (frame h pl r) = (np_view (frame h [] []))\<lparr>nh_payload := pl\<rparr>"
  by (simp add: np_view_def Let_def nth_append)

text \<open>Growing the payload into the reserve, and giving octets back to it.\<close>

lemma frame_set_data_len_grow [frame_simps]:
  "length h = 12 \<Longrightarrow> n = 12 + length pl + length x \<Longrightarrow>
   np_set_data_len n (frame h pl (x @ r)) = Ok (frame h (pl @ x) r)"
  by (simp add: np_set_data_len_def frame_def)

lemma frame_set_data_len_shrink [frame_simps]:
  "length h = 12 \<Longrightarrow> n = 12 + length pl \<Longrightarrow>
   np_set_data_len n (frame h (pl @ x) r) = Ok (frame h pl (x @ r))"
  by (simp add: np_set_data_len_def frame_def)

lemma frame_set_encrypt_flag:
  "length h = 12 \<Longrightarrow> np_set_encrypt_flag f (frame h pl r) =
   Ok (frame (h[0 := (if f then h ! 0 OR 0x80 else h ! 0 AND 0x7F)]) pl r)"
  by (auto simp: np_set_encrypt_flag_def np_on_buffer_def modify_byte_ok frame_def nth_append list_update_append
      split: if_splits)

lemma frame_is_encrypt [frame_simps]:
  "length h = 12 \<Longrightarrow> np_is_encrypt (frame h pl r) = Ok (bit (h ! 0) 7)"
  by (simp add: np_is_encrypt_def byte_at_def nth_append u8_eq_iff bit_simps)

section \<open>The header tag and the nonce\<close>

definition np_head_tag :: "net_packet \<Rightarrow> bytes outcome" where
  "np_head_tag p =
     obind (np_buffer_part p) (\<lambda>b. obind (slice b 4 8) (\<lambda>src. obind (slice b 8 12) (\<lambda>dst.
     obind (np_protocol p) (\<lambda>proto. obind (np_transport_protocol p) (\<lambda>trans.
     obind (np_is_gateway p) (\<lambda>gateway. obind (np_source_ttl p) (\<lambda>source_ttl.
       Ok (src @ dst @ [protocol_into proto, trans, of_bool gateway, source_ttl]))))))))"

text \<open>Four octets at the end of the tag are combined with the random ones.\<close>

definition gen_nonce :: "bytes \<Rightarrow> bytes \<Rightarrow> bytes outcome" where
  "gen_nonce tag random =
     obind (byte_at random 0) (\<lambda>r0. obind (modify_byte 8 (\<lambda>t. r0 XOR t) tag) (\<lambda>tag.
     obind (byte_at random 1) (\<lambda>r1. obind (modify_byte 9 (\<lambda>t. r1 XOR t) tag) (\<lambda>tag.
     obind (byte_at random 2) (\<lambda>r2. obind (modify_byte 10 (\<lambda>t. r2 XOR t) tag) (\<lambda>tag.
     obind (byte_at random 3) (\<lambda>r3. modify_byte 11 (\<lambda>t. r3 XOR t) tag)))))))"

text \<open>\<open>random\<close> is what \<open>thread_rng().fill_bytes\<close> wrote into an array of four octets: the octets of
  a word.\<close>

definition gen_random_nonce :: "u32 \<Rightarrow> bytes \<Rightarrow> (bytes \<times> bytes) outcome" where
  "gen_random_nonce word tag = (let random = u32_to_be word in
     obind (gen_nonce tag random) (\<lambda>tag. Ok (random, tag)))"

definition frame_tag :: "bytes \<Rightarrow> bytes" where
  "frame_tag h = [h ! 4, h ! 5, h ! 6, h ! 7, h ! 8, h ! 9, h ! 10, h ! 11, h ! 1, h ! 2,
     of_bool (bit (h ! 0) 6), drop_bit 4 (h ! 3)]"

lemma length_frame_tag [simp]: "length (frame_tag h) = 12"
  by (simp add: frame_tag_def)

lemma take_drop_4:
  "i + 4 \<le> length b \<Longrightarrow> take 4 (drop i b) = [b ! i, b ! (i + 1), b ! (i + 2), b ! (i + 3)]"
  by (intro nth_equalityI) (auto simp: less_Suc_eq numeral_eq_Suc)

lemma frame_head_tag [frame_simps]: "np_head_tag (frame h pl r) = Ok (frame_tag h)" if "length h = 12"
  using that take_drop_4 [of 4 h] take_drop_4 [of 8 h]
  by (simp add: np_head_tag_def frame_simps slice_def np_protocol_def np_transport_protocol_def
      np_is_gateway_def np_source_ttl_def byte_at_def nth_append frame_tag_def protocol.enc_dec u8_eq_iff
      bit_simps)

lemma frame_tag_encrypt_flag [simp]:
  "length h = 12 \<Longrightarrow> frame_tag (h[0 := (if f then h ! 0 OR 0x80 else h ! 0 AND 0x7F)]) = frame_tag h"
  by (auto simp: frame_tag_def bit_simps)

lemma gen_nonce_ok:
  "length tag = 12 \<Longrightarrow> length rnd = 4 \<Longrightarrow> \<exists>n. gen_nonce tag rnd = Ok n \<and> length n = 12"
  by (simp add: gen_nonce_def byte_at_def modify_byte_ok)

lemma gen_nonce_is_ok: "length tag = 12 \<Longrightarrow> length rnd = 4 \<Longrightarrow> is_ok (gen_nonce tag rnd)"
  using gen_nonce_ok by fastforce

section \<open>The finger\<close>

definition finger_new :: "crypto \<Rightarrow> bytes \<Rightarrow> bytes" where
  "finger_new C token = c_sha256 C token"

definition calculate_finger :: "crypto \<Rightarrow> bytes \<Rightarrow> bytes \<Rightarrow> bytes \<Rightarrow> bytes" where
  "calculate_finger C hash nonce body = drop 20 (c_sha256 C (nonce @ body @ hash))"

definition check_finger :: "crypto \<Rightarrow> bytes \<Rightarrow> net_packet \<Rightarrow> unit outcome" where
  "check_finger C hash p = obind (np_is_encrypt p) (\<lambda>enc.
     if \<not> enc then Err (AnyError ''not encrypt'')
     else obind (np_payload p) (\<lambda>payload.
       if length payload < 12 then Err (AnyError ''data err'')
       else obind (np_source p) (\<lambda>src. obind (np_destination p) (\<lambda>dst. obind (np_protocol p) (\<lambda>proto.
         obind (np_transport_protocol p) (\<lambda>trans. obind (np_is_gateway p) (\<lambda>gateway.
         obind (np_source_ttl p) (\<lambda>source_ttl.
         let nonce = u32_to_be src @ u32_to_be dst
               @ [protocol_into proto, trans, of_bool gateway, source_ttl];
             n = length payload - 12
         in obind (slice payload 0 n) (\<lambda>body. obind (slice payload n (length payload)) (\<lambda>finger.
           if calculate_finger C hash nonce body \<noteq> finger then Err (AnyError ''finger err'')
           else Ok ()))))))))))"

lemma length_calculate_finger: "sha_ok C \<Longrightarrow> length (calculate_finger C k n b) = 12"
  by (simp add: calculate_finger_def sha_ok_def)

text \<open>The two ways the code computes the nonce of a header agree.\<close>

lemma check_finger_frame:
  assumes "length h = 12" and "length fin = 12"
  shows "check_finger C k (frame h (body @ fin) r) =
    (if \<not> bit (h ! 0) 7 then Err (AnyError ''not encrypt'')
     else if calculate_finger C k (frame_tag h) body \<noteq> fin then Err (AnyError ''finger err'') else Ok ())"
  using assms
  by (simp add: check_finger_def frame_simps np_source_def np_destination_def get_u32_ok np_protocol_def
      np_transport_protocol_def np_is_gateway_def np_source_ttl_def byte_at_def nth_append slice_def
      protocol.enc_dec u8_eq_iff bit_simps Let_def frame_tag_def)

end
