(* ===== verification/Cipher_Interface.thy ===== *)
theory Cipher_Interface
  imports Finger
begin

text \<open>
  What every cipher of \<open>vnt/src/cipher/\<close> promises, as a locale. A cipher encrypts a packet in place:
  the payload may grow into the packet's reserve, the header keeps everything but the encryption
  flag, and decryption restores the payload, also after a relay has changed the header fields that
  are not part of the nonce (the time to live, the extension flag). Decryption of an arbitrary
  packet never panics, which matters because its input comes from the network.
\<close>

section \<open>The payload borrowed as a body\<close>

text \<open>\<open>Body::new(net_packet.payload_mut(), ..)?\<close> followed by work on the body: what the work writes is
  written to the packet.\<close>

definition np_with_body ::
    "(bytes \<Rightarrow> secret_tail outcome) \<Rightarrow> (secret_tail, 'a) action \<Rightarrow> (net_packet, 'a) action" where
  "np_with_body new m p =
     (case obind (np_payload p) new of
        Ok t \<Rightarrow> (case m t of (r, t') \<Rightarrow>
          (r, p\<lparr>np_buffer := take 12 (np_buffer p) @ st_buffer t' @ drop (np_data_len p) (np_buffer p)\<rparr>))
      | Err e \<Rightarrow> (Err e, p) | Panic \<Rightarrow> (Panic, p))"

lemma frame_with_body:
  assumes "length h = 12" and "new pl = Ok t" and "m t = (res, t')" and "length (st_buffer t') = length pl"
  shows "np_with_body new m (frame h pl r) = (res, frame h (st_buffer t') r)"
  using assms by (simp add: np_with_body_def frame_payload frame_def [where pl = "st_buffer t'"])

lemma frame_with_body_err:
  "length h = 12 \<Longrightarrow> new pl = Err e \<Longrightarrow> np_with_body new m (frame h pl r) = (Err e, frame h pl r)"
  by (simp add: np_with_body_def frame_simps)

section \<open>The interface\<close>

definition mark :: "bool \<Rightarrow> bytes \<Rightarrow> bytes" where
  "mark f h = h[0 := (if f then h ! 0 OR 0x80 else h ! 0 AND 0x7F)]"

lemma mark_simps [simp]:
  "length (mark f h) = length h"
  "length h = 12 \<Longrightarrow> frame_tag (mark f h) = frame_tag h"
  "length h = 12 \<Longrightarrow> bit (mark f h ! 0) 7 = f"
  by (auto simp: mark_def bit_simps split: if_splits)

lemma frame_mark [frame_simps]: "length h = 12 \<Longrightarrow> np_set_encrypt_flag f (frame h pl r) = Ok (frame (mark f h) pl r)"
  by (simp add: frame_set_encrypt_flag mark_def)

lemma mark_False_id: "length h = 12 \<Longrightarrow> \<not> bit (h ! 0) 7 \<Longrightarrow> mark False h = h"
proof -
  assume "length h = 12" "\<not> bit (h ! 0) 7"
  then have "h ! 0 AND 0x7F = h ! 0" by (simp add: u8_eq_iff bit_simps)
  then show ?thesis by (simp add: mark_def)
qed

lemma mark_mark: "length h = 12 \<Longrightarrow> \<not> bit (h ! 0) 7 \<Longrightarrow> mark False (mark True h) = h"
proof -
  assume a: "length h = 12" "\<not> bit (h ! 0) 7"
  then have "(h ! 0 OR 0x80) AND 0x7F = h ! 0" by (simp add: u8_eq_iff bit_simps)
  with a show ?thesis by (simp add: mark_def)
qed

text \<open>The header a receiver may see instead of \<open>h\<close>: same nonce, same encryption flag.\<close>

definition same_tag :: "bytes \<Rightarrow> bytes \<Rightarrow> bool" where
  "same_tag h h' \<longleftrightarrow> length h' = 12 \<and> frame_tag h' = frame_tag h \<and> bit (h' ! 0) 7 = bit (h ! 0) 7"

text \<open>What goes over the wire is the header and the payload.\<close>

lemma np_wf_split:
  "np_wf p \<Longrightarrow> np_buffer_part p = obind (np_head p) (\<lambda>h. omap (\<lambda>pl. h @ pl) (np_payload p))"
  by (elim np_wf_cases) (simp add: frame_simps np_head_def slice_def)

text \<open>
  \<^item> \<open>ok k\<close>: what key \<open>k\<close> needs of its primitives;
  \<^item> \<open>room k n\<close>: by how much encryption lengthens a payload of \<open>n\<close> octets, which is the reserve it needs;
  \<^item> \<open>cap k\<close>: the longest payload it takes;
  \<^item> \<open>marks k\<close>: whether it marks packets as encrypted;
  \<^item> \<open>enc k e\<close>: encryption with randomness \<open>e\<close>.
\<close>

locale packet_cipher =
  fixes ok :: "'k \<Rightarrow> bool" and room :: "'k \<Rightarrow> nat \<Rightarrow> nat" and cap :: "'k \<Rightarrow> nat" and marks :: "'k \<Rightarrow> bool"
    and enc :: "'k \<Rightarrow> 'e \<Rightarrow> (net_packet, unit) action" and dec :: "'k \<Rightarrow> (net_packet, unit) action"
  assumes enc_dec: "\<lbrakk>ok k; length h = 12; bit (h ! 0) 7 \<longrightarrow> marks k; length pl \<le> cap k; room k (length pl) \<le> length r\<rbrakk> \<Longrightarrow>
      \<exists>c s. enc k e (frame h pl r) = (Ok (), frame (if marks k then mark True h else h) c s) \<and>
        length c = length pl + room k (length pl) \<and> length c + length s = length pl + length r \<and>
        (\<forall>h' s'. same_tag (if marks k then mark True h else h) h' \<longrightarrow>
          (\<exists>t. dec k (frame h' c s') = (Ok (), frame (mark False h') pl t) \<and>
             length pl + length t = length c + length s'))"
    and dec_total: "\<lbrakk>ok k; length h = 12\<rbrakk> \<Longrightarrow>
      \<exists>res h' c s. dec k (frame h pl r) = (res, frame h' c s) \<and> res \<noteq> Panic \<and> length h' = 12"
begin

text \<open>The receiver has the octets on the wire only; between encryption and decryption a relay may
  rewrite the header outside the nonce.\<close>

lemma relay_roundtrip:
  assumes "ok k" and "np_wf p" and "np_is_encrypt p = Ok False"
    and "np_data_len p \<le> 12 + cap k" and "np_data_len p + room k (np_data_len p - 12) \<le> length (np_buffer p)"
  shows "\<exists>h c s. enc k e p = (Ok (), frame h c s) \<and> length h = 12 \<and> np_head_tag p = Ok (frame_tag h) \<and>
    bit (h ! 0) 7 = marks k \<and> np_head p = Ok (mark False h) \<and>
    (\<forall>h' s'. same_tag h h' \<longrightarrow> (\<exists>p'. dec k (frame h' c s') = (Ok (), p') \<and> np_wf p' \<and>
        np_head p' = Ok (mark False h') \<and> np_payload p' = np_payload p \<and>
        length (np_buffer p') = 12 + length c + length s'))"
proof -
  obtain h pl r where p: "length h = 12" "p = frame h pl r" using assms(2) by (rule np_wf_cases)
  with assms have pre: "\<not> bit (h ! 0) 7" "length pl \<le> cap k" "room k (length pl) \<le> length r"
    by (auto simp: frame_simps)
  let ?h = "if marks k then mark True h else h"
  obtain c s where e: "enc k e p = (Ok (), frame ?h c s)"
    and d: "\<And>h' s'. same_tag ?h h' \<Longrightarrow>
      \<exists>t. dec k (frame h' c s') = (Ok (), frame (mark False h') pl t) \<and> length pl + length t = length c + length s'"
    using enc_dec [OF assms(1) p(1) _ pre(2,3), of e] pre(1) p(2) by blast
  have unm: "mark False ?h = h" using p(1) pre(1) by (simp add: mark_mark mark_False_id)
  have "\<exists>p'. dec k (frame h' c s') = (Ok (), p') \<and> np_wf p' \<and> np_head p' = Ok (mark False h') \<and>
      np_payload p' = np_payload p \<and> length (np_buffer p') = 12 + length c + length s'"
    if tag: "same_tag ?h h'" for h' s'
  proof -
    have "length h' = 12" using tag by (simp add: same_tag_def)
    then show ?thesis using d [OF tag, of s'] p by (auto simp: frame_simps np_head_def slice_def)
  qed
  then show ?thesis
    by - (rule exI [of _ ?h], rule exI [of _ c], rule exI [of _ s],
        use e p pre(1) unm in \<open>auto simp: frame_simps np_head_def slice_def\<close>)
qed

lemma roundtrip:
  assumes "ok k" and "np_wf p" and "np_is_encrypt p = Ok False"
    and "np_data_len p \<le> 12 + cap k" and "np_data_len p + room k (np_data_len p - 12) \<le> length (np_buffer p)"
  shows "\<exists>q wire q' p'. enc k e p = (Ok (), q) \<and> np_wf q \<and> np_head_tag q = np_head_tag p \<and>
    np_is_encrypt q = Ok (marks k) \<and> np_buffer_part q = Ok wire \<and> np_new wire = Ok q' \<and>
    dec k q' = (Ok (), p') \<and> np_wf p' \<and> np_buffer_part p' = np_buffer_part p"
proof -
  obtain h c s where e: "enc k e p = (Ok (), frame h c s)" and h: "length h = 12"
    and tag: "np_head_tag p = Ok (frame_tag h)" "bit (h ! 0) 7 = marks k" "np_head p = Ok (mark False h)"
    and d: "\<And>h' s'. same_tag h h' \<Longrightarrow> \<exists>p'. dec k (frame h' c s') = (Ok (), p') \<and> np_wf p' \<and>
        np_head p' = Ok (mark False h') \<and> np_payload p' = np_payload p"
    using relay_roundtrip [OF assms, of e] by blast
  obtain p' where p': "dec k (frame h c []) = (Ok (), p')" "np_wf p'" "np_head p' = np_head p" "np_payload p' = np_payload p"
    using d [of h "[]"] h tag(3) by (auto simp: same_tag_def)
  have "np_new (h @ c) = Ok (frame h c [])" using h by (rule np_new_frame)
  then show ?thesis
    by - (rule exI [of _ "frame h c s"], rule exI [of _ "h @ c"], rule exI [of _ "frame h c []"], rule exI [of _ p'],
        use e h tag p' np_wf_split [OF p'(2)] np_wf_split [OF assms(2)] in \<open>simp add: frame_simps\<close>)
qed

lemma decrypt_never_panics:
  assumes "ok k" and "np_wf p"
  shows "fst (dec k p) \<noteq> Panic \<and> np_wf (snd (dec k p))"
proof -
  obtain h pl r where p: "length h = 12" "p = frame h pl r" using assms(2) by (rule np_wf_cases)
  then show ?thesis using dec_total [OF assms(1) p(1), of pl r] by auto
qed

end

end
