(* ===== verification/Extension_Tail.thy ===== *)
theory Extension_Tail
  imports Cipher_Interface
begin

text \<open>
  \<open>vnt/src/protocol/extension.rs\<close>: four octets behind the payload whose last one tells what they
  are. The only extension is the compression tail, which names the algorithm. A \<open>&mut\<close> view of the
  tail that the code returns is modelled by the update \<open>f\<close> that the caller makes through it.
\<close>

section \<open>Codes\<close>

datatype extension_tail_type = ExtCompression | ExtUnknown u8

definition extension_tail_type_from :: "u8 \<Rightarrow> extension_tail_type" where
  "extension_tail_type_from value = (if value = 0 then ExtCompression else ExtUnknown value)"

datatype compression_algorithm = AlgLz4 | AlgZstd | AlgUnknown u8

definition compression_algorithm_from :: "u8 \<Rightarrow> compression_algorithm" where
  "compression_algorithm_from value =
     (if value = 1 then AlgLz4 else if value = 2 then AlgZstd else AlgUnknown value)"

primrec compression_algorithm_into :: "compression_algorithm \<Rightarrow> u8" where
  "compression_algorithm_into AlgLz4 = 1"
| "compression_algorithm_into AlgZstd = 2"
| "compression_algorithm_into (AlgUnknown v) = v"

interpretation compression_algorithm: wire_enum compression_algorithm_from compression_algorithm_into
  by unfold_locales (simp add: compression_algorithm_from_def)

section \<open>\<open>CompressionExtensionTail\<close>\<close>

definition cet_new :: "bytes \<Rightarrow> bytes outcome" where
  "cet_new buffer = (if length buffer = 4 then Ok buffer else Panic)"

definition cet_algorithm :: "bytes \<Rightarrow> compression_algorithm outcome" where
  "cet_algorithm tail = omap compression_algorithm_from (byte_at tail 0)"

definition cet_init :: "bytes \<Rightarrow> bytes" where
  "cet_init tail = replicate (length tail) 0"

definition cet_set_algorithm :: "compression_algorithm \<Rightarrow> bytes \<Rightarrow> bytes outcome" where
  "cet_set_algorithm algorithm = put_byte 0 (compression_algorithm_into algorithm)"

datatype extension_tail_packet = TailCompression bytes | TailUnknown

section \<open>The tail of a packet\<close>

definition split_tail_packet :: "(net_packet, extension_tail_packet) action" where
  "split_tail_packet = sbind (sget np_is_extension) (\<lambda>ext.
     if ext then sbind (sget np_payload) (\<lambda>payload.
       if payload \<noteq> [] then
         (case extension_tail_type_from (last payload) of
            ExtCompression \<Rightarrow>
              sbind (sget (\<lambda>p. usub (np_data_len p) 4)) (\<lambda>data_len.
              sbind (supd (np_set_data_len data_len)) (\<lambda>_.
              sbind (supd (np_set_extension_flag False)) (\<lambda>_.
              sbind (sget (\<lambda>p. slice (np_raw_buffer p) data_len (data_len + 4))) (\<lambda>b.
              slift (omap TailCompression (cet_new b))))))
          | ExtUnknown e \<Rightarrow> slift (Err (AnyError ''unknown extension'')))
       else slift (Err (AnyError ''not extension'')))
     else slift (Err (AnyError ''not extension'')))"

definition append_compression_extension_tail :: "(bytes \<Rightarrow> bytes outcome) \<Rightarrow> (net_packet, unit) action" where
  "append_compression_extension_tail f = sbind (sget (\<lambda>p. Ok (np_data_len p))) (\<lambda>len.
     sbind (supd (np_set_data_len (len + 4))) (\<lambda>_.
     sbind (supd (np_set_extension_flag True)) (\<lambda>_.
     supd (\<lambda>p. obind (slice (np_buffer p) len (np_data_len p)) (\<lambda>b. obind (cet_new b) (\<lambda>tail.
       obind (f (cet_init tail)) (\<lambda>tail. np_on_buffer (put_slice len (np_data_len p) tail) p)))))))"

section \<open>On frames\<close>

text \<open>The header with its extension flag set or cleared.\<close>

definition ext_mark :: "bool \<Rightarrow> bytes \<Rightarrow> bytes" where
  "ext_mark f h = h[0 := (if f then h ! 0 OR 0x20 else h ! 0 AND 0xDF)]"

lemma ext_mark_simps [simp]:
  "length (ext_mark f h) = length h"
  "length h = 12 \<Longrightarrow> bit (ext_mark f h ! 0) 5 = f"
  "length h = 12 \<Longrightarrow> bit (ext_mark f h ! 0) 7 = bit (h ! 0) 7"
  "0 < i \<Longrightarrow> ext_mark f h ! i = h ! i"
  by (auto simp: ext_mark_def bit_simps)

lemma frame_set_extension_flag [frame_simps]:
  "length h = 12 \<Longrightarrow> np_set_extension_flag f (frame h pl r) = Ok (frame (ext_mark f h) pl r)"
  by (auto simp: np_set_extension_flag_def np_on_buffer_def modify_byte_ok frame_def nth_append
      list_update_append ext_mark_def split: if_splits)

lemma frame_is_extension [frame_simps]:
  "length h = 12 \<Longrightarrow> np_is_extension (frame h pl r) = Ok (bit (h ! 0) 5)"
  by (simp add: np_is_extension_def byte_at_def nth_append flag_bits)

lemma append_tail_frame:
  assumes "length h = 12" and "length x = 4" and "f [0, 0, 0, 0] = Ok t" and "length t = 4"
  shows "append_compression_extension_tail f (frame h pl (x @ r)) = (Ok (), frame (ext_mark True h) (pl @ t) r)"
proof -
  let ?p1 = "frame h (pl @ x) r" and ?p2 = "frame (ext_mark True h) (pl @ x) r"
  have 1: "np_set_data_len (16 + length pl) (frame h pl (x @ r)) = Ok ?p1"
    using assms(1,2) by (simp add: frame_set_data_len_grow)
  have 2: "np_set_extension_flag True ?p1 = Ok ?p2" using assms(1) by (rule frame_set_extension_flag)
  note s1 = sbind_supd(1) [where f = "np_set_data_len (16 + length pl)", OF 1]
    and s2 = sbind_supd(1) [where f = "np_set_extension_flag True", OF 2]
  have z: "cet_init x = [0, 0, 0, 0]" using assms(2) by (simp add: cet_init_def numeral_eq_Suc)
  have "slice (np_buffer ?p2) (12 + length pl) (np_data_len ?p2) = Ok x"
    using assms(1,2) by (simp add: slice_def)
  moreover have "np_on_buffer (put_slice (12 + length pl) (np_data_len ?p2) t) ?p2 =
      Ok (frame (ext_mark True h) (pl @ t) r)"
    using assms(1,2,4) by (simp add: np_on_buffer_def put_slice_def frame_def)
  ultimately show ?thesis
    using assms(2,3) z
    by (simp add: append_compression_extension_tail_def sbind_sget s1 s2 cet_new_def supd_ok)
qed

lemma append_tail_no_room:
  "length h = 12 \<Longrightarrow> length r < 4 \<Longrightarrow>
   append_compression_extension_tail f (frame h pl r) = (Err (IoError InvalidData), frame h pl r)"
  by (simp add: append_compression_extension_tail_def sbind_sget np_set_data_len_def sbind_supd)

lemma split_tail_frame:
  assumes "length h = 12" and "bit (h ! 0) 5" and "length t = 4" and "last t = 0"
  shows "split_tail_packet (frame h (pl @ t) r) = (Ok (TailCompression t), frame (ext_mark False h) pl (t @ r))"
proof -
  have t: "t \<noteq> []" using assms(3) by auto
  let ?p1 = "frame h pl (t @ r)" and ?p2 = "frame (ext_mark False h) pl (t @ r)"
  have 1: "np_set_data_len (12 + length pl) (frame h (pl @ t) r) = Ok ?p1"
    using assms(1) by (simp add: frame_set_data_len_shrink)
  have 2: "np_set_extension_flag False ?p1 = Ok ?p2" using assms(1) by (rule frame_set_extension_flag)
  have 3: "slice (np_raw_buffer ?p2) (12 + length pl) (12 + length pl + 4) = Ok t"
    using assms(1,3) by (simp add: slice_def np_raw_buffer_def)
  note s1 = sbind_supd(1) [where f = "np_set_data_len (12 + length pl)", OF 1]
    and s2 = sbind_supd(1) [where f = "np_set_extension_flag False", OF 2]
  have l: "length pl + length t + 12 - 4 = 12 + length pl" using assms(3) by simp
  show ?thesis
    using assms t
    by (simp add: split_tail_packet_def sbind_sget frame_simps extension_tail_type_from_def l
        s1 s2 3 [simplified] cet_new_def del: append_assoc)
qed

text \<open>On any other packet it fails, or leaves a well-formed packet; a payload of fewer than four octets
  ends in an error, not in an underflow.\<close>

lemma split_tail_total:
  assumes "length h = 12"
  shows "\<exists>res h' pl' r'. split_tail_packet (frame h pl r) = (res, frame h' pl' r') \<and> res \<noteq> Panic \<and>
    length h' = 12 \<and> length pl' + length r' = length pl + length r \<and>
    (\<forall>t. res = Ok t \<longrightarrow> (\<exists>b. t = TailCompression b \<and> length b = 4 \<and> h' = ext_mark False h \<and> pl = pl' @ b))"
proof -
  consider "\<not> bit (h ! 0) 5" | "pl = []" | "bit (h ! 0) 5" "pl \<noteq> []" "last pl \<noteq> 0"
    | "bit (h ! 0) 5" "pl \<noteq> []" "last pl = 0" "length pl < 4"
    | q t where "bit (h ! 0) 5" "pl = q @ t" "last t = 0" "length t = 4"
  proof (cases "bit (h ! 0) 5 \<and> pl \<noteq> [] \<and> last pl = 0 \<and> 4 \<le> length pl")
    case True
    let ?t = "drop (length pl - 4) pl"
    have "pl = take (length pl - 4) pl @ ?t" "length ?t = 4" "last ?t = 0"
      using True by (auto simp: last_drop)
    then show ?thesis using True that(5) by blast
  qed (use that in fastforce)
  then show ?thesis
  proof cases
    case 2
    then show ?thesis using assms
      by (cases "bit (h ! 0) 5") (fastforce simp: split_tail_packet_def sbind_sget frame_simps)+
  next
    case 4
    have "12 + length pl - 4 < 12" "4 \<le> 12 + length pl" using 4(2,4) by auto
    then have "split_tail_packet (frame h pl r) = (Err (IoError InvalidData), frame h pl r)"
      using assms 4 by (simp add: split_tail_packet_def sbind_sget frame_simps extension_tail_type_from_def
          np_set_data_len_def sbind_supd)
    then show ?thesis using assms by blast
  next
    case 5
    show ?thesis using split_tail_frame [OF assms 5(1,4,3), of q r] assms 5 by fastforce
  qed (use assms in \<open>auto simp: split_tail_packet_def sbind_sget frame_simps extension_tail_type_from_def
      split: if_splits\<close>)
qed

end
