(* ===== verification/Compression.thy ===== *)
theory Compression
  imports Extension_Tail Ascii_Text
begin

text \<open>
  \<open>vnt/src/compression/\<close> and \<open>handle/extension/mod.rs\<close>: compressing the payload of one packet into
  another one, marking the result with a compression tail, and undoing both on the receiving side.

  The crates \<open>lz4_flex\<close> and \<open>zstd\<close> are not part of the repository: the record \<open>codecs\<close> holds the
  four functions the program calls, each from the input and the output buffer to the buffer after
  the call and the number of octets produced. \<open>codec_ok\<close> is their documented contract.
\<close>

section \<open>The codecs\<close>

record codecs =
  z_lz4_comp :: "bytes \<Rightarrow> bytes \<Rightarrow> bytes \<times> nat option"
  z_lz4_decomp :: "bytes \<Rightarrow> bytes \<Rightarrow> bytes \<times> nat option"
  z_zstd_comp :: "int \<Rightarrow> bytes \<Rightarrow> bytes \<Rightarrow> bytes \<times> nat option"
  z_zstd_decomp :: "bytes \<Rightarrow> bytes \<Rightarrow> bytes \<times> nat option"

text \<open>A call leaves the length of the buffer alone and produces no more than fits.\<close>

definition into_ok :: "(bytes \<Rightarrow> bytes \<Rightarrow> bytes \<times> nat option) \<Rightarrow> bool" where
  "into_ok f \<longleftrightarrow> (\<forall>i b b' r. f i b = (b', r) \<longrightarrow> length b' = length b \<and> (\<forall>n. r = Some n \<longrightarrow> n \<le> length b))"

text \<open>What compression produced, decompression into a buffer that is long enough restores.\<close>

definition inverse_ok :: "(bytes \<Rightarrow> bytes \<Rightarrow> bytes \<times> nat option) \<Rightarrow> (bytes \<Rightarrow> bytes \<Rightarrow> bytes \<times> nat option) \<Rightarrow> bool" where
  "inverse_ok cmp dec \<longleftrightarrow> (\<forall>i b b' n w. cmp i b = (b', Some n) \<and> length i \<le> length w \<longrightarrow>
     (\<exists>s. dec (take n b') w = (i @ s, Some (length i))))"

definition codec_ok :: "codecs \<Rightarrow> bool" where
  "codec_ok Z \<longleftrightarrow> into_ok (z_lz4_comp Z) \<and> into_ok (z_lz4_decomp Z) \<and>
     (\<forall>level. into_ok (z_zstd_comp Z level)) \<and> into_ok (z_zstd_decomp Z) \<and>
     inverse_ok (z_lz4_comp Z) (z_lz4_decomp Z) \<and> (\<forall>level. inverse_ok (z_zstd_comp Z level) (z_zstd_decomp Z))"

text \<open>The steps that the four wrappers have in common: the payload of \<open>inp\<close> goes through the codec
  into the whole buffer behind the header of the output packet, whose length is then set.\<close>

definition codec_into ::
    "string \<Rightarrow> (bytes \<Rightarrow> bytes \<Rightarrow> bytes \<times> nat option) \<Rightarrow> net_packet \<Rightarrow> (net_packet, unit) action" where
  "codec_into msg f inp = sbind (supd (\<lambda>out. Ok (np_set_data_len_max out))) (\<lambda>_.
     sbind (slift (np_payload inp)) (\<lambda>i. sbind (sget np_payload) (\<lambda>b. case f i b of (b', r) \<Rightarrow>
       sbind (supd (np_set_payload b')) (\<lambda>_. case r of
           Some len \<Rightarrow> supd (np_set_payload_len len)
         | None \<Rightarrow> slift (Err (AnyError msg))))))"

definition lz4_compress :: "codecs \<Rightarrow> net_packet \<Rightarrow> (net_packet, unit) action" where
  "lz4_compress Z = codec_into ''Lz4 compress'' (z_lz4_comp Z)"

definition lz4_decompress :: "codecs \<Rightarrow> net_packet \<Rightarrow> (net_packet, unit) action" where
  "lz4_decompress Z = codec_into ''Lz4 decompress'' (z_lz4_decomp Z)"

definition zstd_compress :: "codecs \<Rightarrow> int \<Rightarrow> net_packet \<Rightarrow> (net_packet, unit) action" where
  "zstd_compress Z level = codec_into ''zstd compress'' (z_zstd_comp Z level)"

definition zstd_decompress :: "codecs \<Rightarrow> net_packet \<Rightarrow> (net_packet, unit) action" where
  "zstd_decompress Z = codec_into ''zstd decompress'' (z_zstd_decomp Z)"

section \<open>\<open>Compressor\<close>\<close>

datatype compressor = Lz4 | Zstd int | NoCompression

definition compressor_from_str :: "string \<Rightarrow> compressor option" where
  "compressor_from_str s = (let t = List.map ascii_lower (str_trim s) in
     if t = ''lz4'' then Some Lz4
     else if t = ''zstd'' then Some (Zstd 9)
     else if t = ''none'' then Some NoCompression
     else (let string_array = split_on CHR '','' t in
       if length string_array \<noteq> 2 \<or> string_array ! 0 \<noteq> ''zstd'' then None
       else (case parse_i32 (string_array ! 1) of Some level \<Rightarrow> Some (Zstd level) | None \<Rightarrow> None)))"

definition compressor_compress :: "codecs \<Rightarrow> compressor \<Rightarrow> net_packet \<Rightarrow> (net_packet, bool) action" where
  "compressor_compress Z c inp = (case c of
       Lz4 \<Rightarrow>
         if np_data_len inp < 128 then sret False
         else sbind (lz4_compress Z inp) (\<lambda>_.
           sbind (append_compression_extension_tail (cet_set_algorithm AlgLz4)) (\<lambda>_.
           sbind (slift (usub (np_data_len inp) 16)) (\<lambda>n.
           sbind (sget (\<lambda>out. Ok (np_data_len out))) (\<lambda>m.
           if n \<le> m then sret False else sret True))))
     | Zstd level \<Rightarrow>
         if np_data_len inp < 128 then sret False
         else sbind (zstd_compress Z level inp) (\<lambda>_.
           sbind (append_compression_extension_tail (cet_set_algorithm AlgZstd)) (\<lambda>_.
           sbind (slift (usub (np_data_len inp) 16)) (\<lambda>n.
           sbind (sget (\<lambda>out. Ok (np_data_len out))) (\<lambda>m.
           if n \<le> m then sret False else sret True))))
     | NoCompression \<Rightarrow> sret False)"

definition compressor_decompress :: "codecs \<Rightarrow> compression_algorithm \<Rightarrow> net_packet \<Rightarrow> (net_packet, unit) action" where
  "compressor_decompress Z algorithm inp = (case algorithm of
       AlgLz4 \<Rightarrow> lz4_decompress Z inp
     | AlgZstd \<Rightarrow> zstd_decompress Z inp
     | AlgUnknown v \<Rightarrow> slift (Err (AnyError ''Unknown decompress'')))"

section \<open>\<open>handle_extension_tail\<close>\<close>

text \<open>The state is the received packet and the output packet.\<close>

definition handle_extension_tail :: "codecs \<Rightarrow> (net_packet \<times> net_packet, bool) action" where
  "handle_extension_tail Z s = (case s of (inp, out) \<Rightarrow>
     (case np_is_extension inp of
        Ok ext \<Rightarrow>
          if \<not> ext then (Ok False, inp, out)
          else (case split_tail_packet inp of
              (Ok (TailCompression tail), inp) \<Rightarrow>
                (case sbind (slift (cet_algorithm tail)) (\<lambda>alg. compressor_decompress Z alg inp) out of
                   (Ok _, out) \<Rightarrow>
                     (case obind (np_head inp) (\<lambda>h. np_on_buffer (put_slice 0 12 h) out) of
                        Ok out \<Rightarrow> (Ok True, inp, out) | Err e \<Rightarrow> (Err e, inp, out) | Panic \<Rightarrow> (Panic, inp, out))
                 | (Err e, out) \<Rightarrow> (Err e, inp, out) | (Panic, out) \<Rightarrow> (Panic, inp, out))
            | (Ok TailUnknown, inp) \<Rightarrow> (Err (AnyError ''Unknown decompress''), inp, out)
            | (Err e, inp) \<Rightarrow> (Err e, inp, out) | (Panic, inp) \<Rightarrow> (Panic, inp, out))
      | Err e \<Rightarrow> (Err e, inp, out) | Panic \<Rightarrow> (Panic, inp, out)))"

section \<open>On frames\<close>

lemma frame_max: "np_set_data_len_max (frame h pl r) = frame h (pl @ r) []" if "length h = 12"
  using that by (simp add: np_set_data_len_max_def frame_def)

lemma frame_put_payload:
  "length h = 12 \<Longrightarrow> length b = length pl \<Longrightarrow> np_set_payload b (frame h pl r) = Ok (frame h b r)"
  by (simp add: np_set_payload_def put_slice_def frame_def)

lemma codec_into_frame:
  assumes "into_ok f" and "length h = 12" and "length h' = 12" and "f i (pl @ r) = (b, res)"
  shows "codec_into msg f (frame h' i r') (frame h pl r) =
    (case res of Some n \<Rightarrow> (Ok (), frame h (take n b) (drop n b)) | None \<Rightarrow> (Err (AnyError msg), frame h b []))"
proof -
  have len: "length b = length (pl @ r)" "\<And>n. res = Some n \<Longrightarrow> n \<le> length b"
    using assms(1,4) by (simp_all add: into_ok_def) (metis length_append)
  have 1: "np_set_payload b (frame h (pl @ r) []) = Ok (frame h b [])"
    using assms(2) len(1) by (simp add: frame_put_payload)
  have 2: "np_set_payload_len n (frame h b []) = Ok (frame h (take n b) (drop n b))" if "res = Some n" for n
    using assms(2) len(2) [OF that] by (simp add: np_set_payload_len_def HEAD_LEN_def np_set_data_len_def frame_def)
  note s1 = sbind_supd(1) [where f = "np_set_payload b", OF 1]
  show ?thesis
    using assms(2-4) 2
    by (simp add: codec_into_def sbind_supd(1) [where f = "\<lambda>out. Ok (np_set_data_len_max out)"] frame_max
        frame_payload sbind_sget s1 supd_ok split: option.split)
qed

text \<open>The output buffer after any of the branches: its length and, but for the extension flag, its header.\<close>

definition same_buffer :: "bytes \<Rightarrow> nat \<Rightarrow> net_packet \<Rightarrow> bool" where
  "same_buffer h k q \<longleftrightarrow> (\<exists>e pl s. q = frame (if e then ext_mark True h else h) pl s \<and> length pl + length s = k)"

lemma same_bufferI:
  "length pl + length s = k \<Longrightarrow> same_buffer h k (frame h pl s)"
  "length pl + length s = k \<Longrightarrow> same_buffer h k (frame (ext_mark True h) pl s)"
  unfolding same_buffer_def by (metis (full_types))+

lemma same_buffer_wf: "same_buffer h k q \<Longrightarrow> length h = 12 \<Longrightarrow> np_wf q \<and> length (np_buffer q) = 12 + k"
  by (auto simp: same_buffer_def)

text \<open>The common shape of the two compressing branches, with the check that the result is shorter.\<close>

lemma compress_branch:
  assumes "into_ok f" and "length h = 12" and "length h' = 12" and "4 \<le> length i"
    and "sbind (codec_into msg f (frame h' i r')) (\<lambda>_.
           sbind (append_compression_extension_tail (cet_set_algorithm alg)) (\<lambda>_.
           sbind (slift (usub (12 + length i) 16)) (\<lambda>n.
           sbind (sget (\<lambda>out. Ok (np_data_len out))) (\<lambda>m.
           if n \<le> m then sret False else sret True)))) (frame h pl r) = (res, q)"
  shows "res \<noteq> Panic \<and> same_buffer h (length pl + length r) q \<and> (res = Ok True \<longrightarrow> (\<exists>n b s. f i (pl @ r) = (b, Some n) \<and>
    q = frame (ext_mark True h) (take n b @ [compression_algorithm_into alg, 0, 0, 0]) s \<and>
    length (take n b) + 32 < 12 + length i))"
proof -
  obtain b k where f: "f i (pl @ r) = (b, k)" by (cases "f i (pl @ r)")
  note into = codec_into_frame [OF assms(1-3) f, of msg r']
  have lb: "length b = length pl + length r" using assms(1) f by (simp add: into_ok_def)
  show ?thesis
  proof (cases k)
    case None
    then have "codec_into msg f (frame h' i r') (frame h pl r) = (Err (AnyError msg), frame h b [])"
      using into by simp
    note c1 = sbind_pair(2) [where m = "codec_into msg f (frame h' i r')", OF this]
    have "res = Err (AnyError msg) \<and> q = frame h b []" using assms(5) unfolding c1 by simp
    then show ?thesis using lb by (simp add: same_bufferI(1))
  next
    case (Some n)
    then have "codec_into msg f (frame h' i r') (frame h pl r) = (Ok (), frame h (take n b) (drop n b))"
      using into by simp
    note c1 = sbind_pair(1) [where m = "codec_into msg f (frame h' i r')", OF this]
    let ?app = "append_compression_extension_tail (cet_set_algorithm alg)"
    show ?thesis
    proof (cases "4 \<le> length (drop n b)")
      case True
      define x s where "x = take 4 (drop n b)" and "s = drop 4 (drop n b)"
      have d: "drop n b = x @ s" by (simp only: x_def s_def append_take_drop_id)
      have l: "length x = 4" using True by (simp add: x_def)
      have set: "cet_set_algorithm alg [0, 0, 0, 0] = Ok [compression_algorithm_into alg, 0, 0, 0]"
        by (simp add: cet_set_algorithm_def put_byte_def)
      define p where "p = take n b @ [compression_algorithm_into alg, 0, 0, 0]"
      have "?app (frame h (take n b) (drop n b)) = (Ok (), frame (ext_mark True h) p s)"
        using append_tail_frame [where f = "cet_set_algorithm alg", OF assms(2) l set, of "take n b" s]
        by (simp add: d p_def)
      note c2 = sbind_pair(1) [where m = ?app, OF this]
      have "length p = length (take n b) + 4" by (simp add: p_def)
      then have "(res, q) = (if length i - 4 \<le> 16 + length (take n b) then Ok False else Ok True,
          frame (ext_mark True h) p s)"
        using assms(4,5) by (simp add: c1 c2 sbind_sget split: if_splits)
      moreover have "length p + length s = length pl + length r"
        using lb arg_cong [OF d, of length] l by (simp add: p_def)
      note same_bufferI(2) [OF this, of h]
      ultimately show ?thesis using f Some assms(2,4) p_def by (auto split: if_splits)
    next
      case False
      then have "?app (frame h (take n b) (drop n b)) = (Err (IoError InvalidData), frame h (take n b) (drop n b))"
        using append_tail_no_room [OF assms(2)] by simp
      note c2 = sbind_pair(2) [where m = ?app, OF this]
      have "res = Err (IoError InvalidData) \<and> q = frame h (take n b) (drop n b)"
        using assms(5) unfolding c1 c2 by simp
      then show ?thesis using lb by (simp add: same_bufferI(1))
    qed
  qed
qed

lemma compressor_compress_frame:
  assumes "codec_ok Z" and "length h = 12" and "length h' = 12"
    and "compressor_compress Z c (frame h' i r') (frame h pl r) = (res, q)"
  shows "res \<noteq> Panic \<and> same_buffer h (length pl + length r) q \<and> (res = Ok True \<longrightarrow> (\<exists>alg f d n b s.
    inverse_ok f d \<and> into_ok d \<and> f i (pl @ r) = (b, Some n) \<and> alg \<in> {AlgLz4, AlgZstd} \<and>
    (\<forall>inp. compressor_decompress Z alg inp = codec_into (if alg = AlgLz4 then ''Lz4 decompress'' else ''zstd decompress'') d inp) \<and>
    q = frame (ext_mark True h) (take n b @ [compression_algorithm_into alg, 0, 0, 0]) s \<and>
    np_data_len q + 16 < 12 + length i))"
proof (cases "np_data_len (frame h' i r') < 128 \<or> c = NoCompression")
  case True
  then show ?thesis using assms(2,4) by (cases c) (auto simp: compressor_compress_def same_bufferI(1))
next
  case False
  then have i: "4 \<le> length i" by simp
  obtain alg f d msg where ok: "into_ok f" "into_ok d" "inverse_ok f d" "alg \<in> {AlgLz4, AlgZstd}"
    and dec: "\<And>inp. compressor_decompress Z alg inp =
        codec_into (if alg = AlgLz4 then ''Lz4 decompress'' else ''zstd decompress'') d inp"
    and body: "compressor_compress Z c (frame h' i r') = sbind (codec_into msg f (frame h' i r')) (\<lambda>_.
           sbind (append_compression_extension_tail (cet_set_algorithm alg)) (\<lambda>_.
           sbind (slift (usub (12 + length i) 16)) (\<lambda>n.
           sbind (sget (\<lambda>out. Ok (np_data_len out))) (\<lambda>m.
           if n \<le> m then sret False else sret True))))"
  proof (cases c)
    case Lz4
    then show ?thesis
      using that [of "z_lz4_comp Z" "z_lz4_decomp Z" AlgLz4 "''Lz4 compress''"] assms(1) False
      by (simp add: codec_ok_def compressor_decompress_def lz4_decompress_def compressor_compress_def
          lz4_compress_def del: usub_le)
  next
    case (Zstd level)
    then show ?thesis
      using that [of "z_zstd_comp Z level" "z_zstd_decomp Z" AlgZstd "''zstd compress''"] assms(1) False
      by (simp add: codec_ok_def compressor_decompress_def zstd_decompress_def compressor_compress_def
          zstd_compress_def del: usub_le)
  qed (use False in simp)
  from compress_branch [OF ok(1) assms(2,3) i assms(4) [unfolded body]]
  have facts: "res \<noteq> Panic \<and> same_buffer h (length pl + length r) q \<and> (res = Ok True \<longrightarrow> (\<exists>n b s. f i (pl @ r) = (b, Some n) \<and>
    q = frame (ext_mark True h) (take n b @ [compression_algorithm_into alg, 0, 0, 0]) s \<and>
    length (take n b) + 32 < 12 + length i))" .
  moreover have "\<exists>alg f d n b s.
    inverse_ok f d \<and> into_ok d \<and> f i (pl @ r) = (b, Some n) \<and> alg \<in> {AlgLz4, AlgZstd} \<and>
    (\<forall>inp. compressor_decompress Z alg inp = codec_into (if alg = AlgLz4 then ''Lz4 decompress'' else ''zstd decompress'') d inp) \<and>
    q = frame (ext_mark True h) (take n b @ [compression_algorithm_into alg, 0, 0, 0]) s \<and>
    np_data_len q + 16 < 12 + length i" if "res = Ok True"
  proof -
    obtain n b s where "f i (pl @ r) = (b, Some n)"
      "q = frame (ext_mark True h) (take n b @ [compression_algorithm_into alg, 0, 0, 0]) s"
      "length (take n b) + 32 < 12 + length i"
      using facts \<open>res = Ok True\<close> by blast
    moreover from this have "np_data_len q + 16 < 12 + length i" by simp
    ultimately show ?thesis using ok dec by blast
  qed
  ultimately show ?thesis by blast
qed

lemma codec_into_total:
  assumes "into_ok f" and "length h = 12" and "length h' = 12"
  shows "\<exists>res pl' s. codec_into msg f (frame h' i r') (frame h pl r) = (res, frame h pl' s) \<and> res \<noteq> Panic"
proof -
  obtain b k where "f i (pl @ r) = (b, k)" by (cases "f i (pl @ r)")
  from codec_into_frame [OF assms(1-3) this, of msg r'] show ?thesis
    by (cases k) (simp_all, blast+)
qed

lemma decompress_total:
  assumes "codec_ok Z" and "length h = 12" and "length h' = 12"
  shows "\<exists>res pl' s. compressor_decompress Z alg (frame h' i r') (frame h pl r) = (res, frame h pl' s) \<and> res \<noteq> Panic"
proof -
  have ok: "into_ok (z_lz4_decomp Z)" "into_ok (z_zstd_decomp Z)" using assms(1) by (simp_all add: codec_ok_def)
  show ?thesis
    using codec_into_total [OF ok(1) assms(2,3), of "''Lz4 decompress''" i r' pl r]
      codec_into_total [OF ok(2) assms(2,3), of "''zstd decompress''" i r' pl r]
    by (cases alg) (auto simp: compressor_decompress_def lz4_decompress_def zstd_decompress_def)
qed

lemma frame_copy_head:
  "length h = 12 \<Longrightarrow> length h' = 12 \<Longrightarrow>
   obind (np_head (frame h' i r')) (\<lambda>hd. np_on_buffer (put_slice 0 12 hd) (frame h pl s)) = Ok (frame h' pl s)"
  by (simp add: np_head_def slice_def np_on_buffer_def put_slice_def frame_def)

lemma cet_algorithm_4: "length t = 4 \<Longrightarrow> cet_algorithm t = Ok (compression_algorithm_from (t ! 0))"
  by (simp add: cet_algorithm_def byte_at_def)

lemma handle_extension_frame:
  assumes "length h = 12" and "length h' = 12" and "bit (h' ! 0) 5" and "length t = 4" and "last t = 0"
    and "compressor_decompress Z (compression_algorithm_from (t ! 0)) (frame (ext_mark False h') i (t @ r')) (frame h pl r) =
      (Ok (), frame h pl' s)"
  shows "handle_extension_tail Z (frame h' (i @ t) r', frame h pl r) =
    (Ok True, frame (ext_mark False h') i (t @ r'), frame (ext_mark False h') pl' s)"
proof -
  have "obind (np_head (frame (ext_mark False h') i (t @ r'))) (\<lambda>hd. np_on_buffer (put_slice 0 12 hd) (frame h pl' s)) =
      Ok (frame (ext_mark False h') pl' s)"
    using assms(1,2) by (simp add: frame_copy_head)
  then show ?thesis
    using assms split_tail_frame [OF assms(2-5), of i r']
    by (simp add: handle_extension_tail_def frame_is_extension cet_algorithm_4)
qed

text \<open>Whatever the tail of a received packet says, handling it does not panic.\<close>

lemma handle_extension_total:
  assumes "codec_ok Z" and "np_wf inp" and "np_wf out"
  shows "\<exists>res inp' out'. handle_extension_tail Z (inp, out) = (res, inp', out') \<and> res \<noteq> Panic \<and> np_wf inp' \<and>
    np_wf out' \<and> (res = Ok False \<longrightarrow> inp' = inp)"
proof -
  obtain h' i r' where i: "length h' = 12" "inp = frame h' i r'" using assms(2) by (rule np_wf_cases)
  obtain h pl r where o: "length h = 12" "out = frame h pl r" using assms(3) by (rule np_wf_cases)
  show ?thesis
  proof (cases "bit (h' ! 0) 5")
    case False
    then show ?thesis using i o by (simp add: handle_extension_tail_def frame_is_extension)
  next
    case True
    obtain res h2 i2 r2 where s: "split_tail_packet inp = (res, frame h2 i2 r2)" "res \<noteq> Panic" "length h2 = 12"
      and tail: "\<And>t. res = Ok t \<Longrightarrow> \<exists>b. t = TailCompression b \<and> length b = 4"
      using split_tail_total [OF i(1), of i r'] i(2) by metis
    show ?thesis
    proof (cases res)
      case (Ok t)
      then obtain b where b: "t = TailCompression b" "length b = 4" using tail by blast
      obtain res' pl' s' where d: "compressor_decompress Z (compression_algorithm_from (b ! 0)) (frame h2 i2 r2) out =
          (res', frame h pl' s')" "res' \<noteq> Panic"
        using decompress_total [OF assms(1) o(1) s(3)] o(2) by metis
      have "obind (np_head (frame h2 i2 r2)) (\<lambda>hd. np_on_buffer (put_slice 0 12 hd) (frame h pl' s')) =
          Ok (frame h2 pl' s')"
        using o(1) s(3) by (simp add: frame_copy_head)
      then show ?thesis
        using Ok s b d True i o
        by (cases res') (simp_all add: handle_extension_tail_def frame_is_extension cet_algorithm_4)
    qed (use s True i o in \<open>simp_all add: handle_extension_tail_def frame_is_extension\<close>)
  qed
qed

section \<open>Compression and decompression\<close>

lemma compressed_restores:
  assumes "codec_ok Z" and "np_wf p" and "np_wf out" and "compressor_compress Z c p out = (Ok True, q)"
    and "np_wf q'" and "np_payload q' = np_payload q" and "np_is_extension q' = Ok True"
    and "np_wf out2" and "np_data_len p \<le> length (np_buffer out2)"
  shows "np_wf q \<and> np_data_len q + 16 < np_data_len p \<and> np_is_extension q = Ok True \<and>
    (\<exists>inp' p'. handle_extension_tail Z (q', out2) = (Ok True, inp', p') \<and> np_wf p' \<and>
      np_view p' = (np_view q')\<lparr>nh_extension := False, nh_payload := nh_payload (np_view p)\<rparr>)"
proof -
  obtain h i r where p: "length h = 12" "p = frame h i r" using assms(2) by (rule np_wf_cases)
  obtain ho pl ro where o: "length ho = 12" "out = frame ho pl ro" using assms(3) by (rule np_wf_cases)
  note compressed = compressor_compress_frame [OF assms(1) o(1) p(1) assms(4) [unfolded p(2) o(2)]]
  then obtain alg f d n b s where f: "inverse_ok f d" "into_ok d" "f i (pl @ ro) = (b, Some n)" "alg \<in> {AlgLz4, AlgZstd}"
    and dec: "\<And>inp. compressor_decompress Z alg inp = codec_into (if alg = AlgLz4 then ''Lz4 decompress'' else ''zstd decompress'') d inp"
    and q: "q = frame (ext_mark True ho) (take n b @ [compression_algorithm_into alg, 0, 0, 0]) s"
    and short: "np_data_len q + 16 < 12 + length i"
    using conjunct2 [OF conjunct2 [OF compressed], THEN mp, OF refl] by blast
  let ?t = "[compression_algorithm_into alg, 0, 0, 0]"
  obtain h2 pl2 r2 where q2: "length h2 = 12" "q' = frame h2 pl2 r2" using assms(5) by (rule np_wf_cases)
  have pl2: "pl2 = take n b @ ?t" using assms(6) q q2 o(1) by (simp add: frame_payload)
  have e2: "bit (h2 ! 0) 5" using assms(7) q2 by (simp add: frame_is_extension)
  obtain h3 pl3 r3 where o3: "length h3 = 12" "out2 = frame h3 pl3 r3" using assms(8) by (rule np_wf_cases)
  have "length i \<le> length (pl3 @ r3)" using assms(9) p o3 by simp
  then obtain u where u: "d (take n b) (pl3 @ r3) = (i @ u, Some (length i))"
    using f(1,3) unfolding inverse_ok_def by blast
  have alg: "compression_algorithm_from (?t ! 0) = alg" using f(4) by (auto simp: compression_algorithm_from_def)
  have h2: "length (ext_mark False h2) = 12" using q2(1) by simp
  have "compressor_decompress Z alg (frame (ext_mark False h2) (take n b) (?t @ r2)) (frame h3 pl3 r3) =
      (Ok (), frame h3 i u)"
    using codec_into_frame [OF f(2) o3(1) h2 u] by (simp add: dec)
  then have "handle_extension_tail Z (q', out2) =
      (Ok True, frame (ext_mark False h2) (take n b) (?t @ r2), frame (ext_mark False h2) i u)"
    unfolding q2(2) o3(2) pl2 by (intro handle_extension_frame [OF o3(1) q2(1) e2]) (simp_all only: alg, simp_all)
  moreover have "np_view (frame (ext_mark False h2) i u) = (np_view q')\<lparr>nh_extension := False, nh_payload := nh_payload (np_view p)\<rparr>"
    using p q2 by (simp add: np_view_def nth_append) (auto simp: ext_mark_def u8_eq_iff bit_simps)
  ultimately show ?thesis
    using short q o(1) p h2 by (auto simp: frame_is_extension)
qed

text \<open>C8: A packet that the compressor sends is at least 16 octets shorter and carries the extension flag;
  whatever else the sender writes into its header, handling the extension into a buffer large enough
  for the original gives a packet with the header as received, the flag cleared, and the original payload.\<close>

theorem compression_roundtrip:
  assumes "codec_ok Z" and "np_wf p" and "np_wf out" and "compressor_compress Z c p out = (Ok True, q)"
    and "np_wf q'" and "np_payload q' = np_payload q" and "np_is_extension q' = Ok True"
    and "np_wf out2" and "np_data_len p \<le> length (np_buffer out2)"
  shows "np_wf q \<and> np_data_len q + 16 < np_data_len p \<and> np_is_extension q = Ok True \<and>
    (\<exists>inp' p'. handle_extension_tail Z (q', out2) = (Ok True, inp', p') \<and> np_wf p' \<and>
      np_view p' = (np_view q')\<lparr>nh_extension := False, nh_payload := nh_payload (np_view p)\<rparr>)"
  using assms by (rule compressed_restores)

section \<open>A codec that keeps the contract\<close>

text \<open>Run-length coding of constant inputs, to evaluate the model with.\<close>

definition rle_comp :: "bytes \<Rightarrow> bytes \<Rightarrow> bytes \<times> nat option" where
  "rle_comp i b = (if i \<noteq> [] \<and> i = replicate (length i) (hd i) \<and> length i < 65536 \<and> 3 \<le> length b
     then (hd i # u16_to_be (of_nat (length i)) @ drop 3 b, Some 3) else (b, None))"

definition rle_decomp :: "bytes \<Rightarrow> bytes \<Rightarrow> bytes \<times> nat option" where
  "rle_decomp i b = (case i of
       [v, x, y] \<Rightarrow> let n = unat (u16_be x y) in
         if n \<le> length b then (replicate n v @ drop n b, Some n) else (b, None)
     | _ \<Rightarrow> (b, None))"

definition toy_codecs :: codecs where
  "toy_codecs = \<lparr>z_lz4_comp = rle_comp, z_lz4_decomp = rle_decomp, z_zstd_comp = \<lambda>_. rle_comp,
     z_zstd_decomp = rle_decomp\<rparr>"

lemma toy_codecs_ok: "codec_ok toy_codecs"
proof -
  have "into_ok rle_comp" by (auto simp: into_ok_def rle_comp_def split: if_splits)
  moreover have "into_ok rle_decomp"
    by (auto simp: into_ok_def rle_decomp_def Let_def split: if_splits list.splits)
  moreover have "inverse_ok rle_comp rle_decomp"
    unfolding inverse_ok_def
  proof (intro allI impI)
    fix i b b' w :: bytes and n
    assume a: "rle_comp i b = (b', Some n) \<and> length i \<le> length w"
    then have i: "i = replicate (length i) (hd i)" "length i < 65536" "n = 3"
      "b' = hd i # u16_to_be (of_nat (length i)) @ drop 3 b"
      by (simp_all add: rle_comp_def split: if_splits)
    have "unat (of_nat (length i) :: u16) = length i"
      using i(2) by (simp add: unsigned_of_nat take_bit_nat_eq_self)
    moreover have "take n b' = [hd i, ucast (drop_bit 8 (of_nat (length i) :: u16)), ucast (of_nat (length i) :: u16)]"
      by (simp add: i(3,4) u16_to_be_def)
    ultimately have "rle_decomp (take n b') w = (replicate (length i) (hd i) @ drop (length i) w, Some (length i))"
      using a by (simp add: rle_decomp_def Let_def)
    then show "\<exists>s. rle_decomp (take n b') w = (i @ s, Some (length i))"
      using i(1) by metis
  qed
  ultimately show ?thesis by (simp add: codec_ok_def toy_codecs_def)
qed

definition long_packet :: net_packet where
  "long_packet = frame [2, 4, 4, 0x65, 10, 26, 0, 2, 10, 26, 0, 3] (replicate 116 7) []"

definition blank_packet :: "nat \<Rightarrow> net_packet" where
  "blank_packet n = frame (replicate 12 0) (replicate n 0) []"

lemma long_packet_compressed:
  "compressor_compress toy_codecs Lz4 long_packet (blank_packet 20) =
     (Ok True, frame (ext_mark True (replicate 12 0)) [7, 0, 116, 1, 0, 0, 0] (replicate 13 0))"
proof -
  let ?h = "[2, 4, 4, 0x65, 10, 26, 0, 2, 10, 26, 0, 3] :: bytes" and ?i = "replicate 116 7 :: bytes"
  let ?z = "replicate 12 0 :: bytes" and ?app = "append_compression_extension_tail (cet_set_algorithm AlgLz4)"
  have b: "rle_comp ?i (replicate 20 0 @ []) = ([7, 0, 116] @ replicate 17 0, Some 3)"
    by (simp add: rle_comp_def u16_to_be_def)
  have ok: "into_ok rle_comp" using toy_codecs_ok by (simp add: codec_ok_def toy_codecs_def)
  have "codec_into ''Lz4 compress'' rle_comp long_packet (blank_packet 20) =
      (Ok (), frame ?z [7, 0, 116] (replicate 4 0 @ replicate 13 0))"
    using codec_into_frame [OF ok _ _ b, where h = ?z and h' = ?h]
    by (simp add: long_packet_def blank_packet_def flip: replicate_add)
  note c1 = sbind_pair(1) [where m = "codec_into ''Lz4 compress'' rle_comp long_packet", OF this]
  have "?app (frame ?z [7, 0, 116] (replicate 4 0 @ replicate 13 0)) =
      (Ok (), frame (ext_mark True ?z) ([7, 0, 116] @ [1, 0, 0, 0]) (replicate 13 0))"
    by (rule append_tail_frame) (simp_all add: cet_set_algorithm_def put_byte_def)
  note c2 = sbind_pair(1) [where m = ?app, OF this]
  show ?thesis
    by (simp add: compressor_compress_def lz4_compress_def toy_codecs_def c1 c2 sbind_sget)
      (simp add: long_packet_def)
qed

lemma compression_roundtrip_witness:
  "\<exists>inp' p'. handle_extension_tail toy_codecs
      (frame (ext_mark True (replicate 12 0)) [7, 0, 116, 1, 0, 0, 0] (replicate 13 0), blank_packet 116) =
      (Ok True, inp', p') \<and> nh_payload (np_view p') = replicate 116 7"
proof -
  let ?q = "frame (ext_mark True (replicate 12 0)) [7, 0, 116, 1, 0, 0, 0] (replicate 13 0)"
  have "np_wf long_packet" "np_wf (blank_packet n)" "np_wf ?q" "np_is_extension ?q = Ok True"
    "np_data_len long_packet \<le> length (np_buffer (blank_packet 116))" for n
    by (simp_all add: long_packet_def blank_packet_def frame_is_extension)
  from compression_roundtrip [OF toy_codecs_ok this(1,2) long_packet_compressed this(3) refl this(4,2,5)]
  obtain inp' p' where "handle_extension_tail toy_codecs (?q, blank_packet 116) = (Ok True, inp', p')"
    "np_view p' = (np_view ?q)\<lparr>nh_extension := False, nh_payload := nh_payload (np_view long_packet)\<rparr>"
    by blast
  moreover have "nh_payload (np_view long_packet) = replicate 116 7"
    by (simp add: long_packet_def np_view_def)
  ultimately show ?thesis by auto
qed

end
