(* ===== verification/Aead_Ciphers.thy ===== *)
theory Aead_Ciphers
  imports Cipher_Interface
begin

text \<open>
  The ciphers that append a tag or a random word and derive their nonce from the packet header:
  \<open>cipher/aes_gcm/aes_gcm_cipher.rs\<close>, \<open>cipher/chacha20_poly1305/rs_chacha20_poly1305.rs\<close> and
  \<open>cipher/chacha20/rs_chacha20.rs\<close>. A failing step leaves the packet as far as the code had come
  (for instance with a grown \<open>data_len\<close>); a failing primitive is taken to leave its data alone.
\<close>

section \<open>Shared steps\<close>

text \<open>\<open>if let Some(finger) = &self.finger { if calculate_finger(..) != body.finger() { Err } }\<close>\<close>

definition demand_finger ::
    "crypto \<Rightarrow> bytes option \<Rightarrow> bytes \<Rightarrow> (secret_tail \<Rightarrow> bytes outcome) \<Rightarrow> (secret_tail \<Rightarrow> bytes outcome) \<Rightarrow>
     string \<Rightarrow> (secret_tail, unit) action" where
  "demand_finger C fo nonce covered stored msg = (case fo of None \<Rightarrow> sret ()
     | Some hash \<Rightarrow> sbind (sget covered) (\<lambda>body. sbind (sget stored) (\<lambda>fin.
         if calculate_finger C hash nonce body \<noteq> fin then slift (Err (AnyError msg)) else sret ())))"

text \<open>\<open>if let Some(finger) = &self.finger { body.set_finger(&calculate_finger(..))? }\<close>\<close>

definition store_finger ::
    "crypto \<Rightarrow> bytes option \<Rightarrow> bytes \<Rightarrow> (secret_tail \<Rightarrow> bytes outcome) \<Rightarrow>
     (bytes \<Rightarrow> secret_tail \<Rightarrow> secret_tail outcome) \<Rightarrow> (secret_tail, unit) action" where
  "store_finger C fo nonce covered put = (case fo of None \<Rightarrow> sret ()
     | Some hash \<Rightarrow> sbind (sget covered) (\<lambda>body. supd (put (calculate_finger C hash nonce body))))"

section \<open>AES-GCM\<close>

datatype aes_gcm_enum = AES128GCM bytes | AES256GCM bytes

record aes_gcm_cipher =
  gcm_cipher :: aes_gcm_enum
  gcm_finger :: "bytes option"

definition gcm_new_128 :: "bytes \<Rightarrow> bytes option \<Rightarrow> aes_gcm_cipher" where
  "gcm_new_128 key finger = \<lparr>gcm_cipher = AES128GCM key, gcm_finger = finger\<rparr>"

definition gcm_new_256 :: "bytes \<Rightarrow> bytes option \<Rightarrow> aes_gcm_cipher" where
  "gcm_new_256 key finger = \<lparr>gcm_cipher = AES256GCM key, gcm_finger = finger\<rparr>"

primrec gcm_open :: "crypto \<Rightarrow> bytes \<Rightarrow> bytes \<Rightarrow> bytes \<Rightarrow> aes_gcm_enum \<Rightarrow> bytes option" where
  "gcm_open C nonce d tag (AES128GCM key) = c_open C Aes128Gcm key nonce d tag"
| "gcm_open C nonce d tag (AES256GCM key) = c_open C Aes256Gcm key nonce d tag"

primrec gcm_seal :: "crypto \<Rightarrow> bytes \<Rightarrow> bytes \<Rightarrow> aes_gcm_enum \<Rightarrow> (bytes \<times> bytes) option" where
  "gcm_seal C nonce d (AES128GCM key) = c_seal C Aes128Gcm key nonce d"
| "gcm_seal C nonce d (AES256GCM key) = c_seal C Aes256Gcm key nonce d"

text \<open>The work of \<open>decrypt_ipv4\<close> on the body.\<close>

definition gcm_open_body :: "crypto \<Rightarrow> aes_gcm_cipher \<Rightarrow> bytes \<Rightarrow> (secret_tail, unit) action" where
  "gcm_open_body C c nonce = sbind (sget secret_tag) (\<lambda>tag.
     sbind (demand_finger C (gcm_finger c) nonce secret_en_body secret_finger ''finger err'') (\<lambda>_.
     sbind (sget secret_body) (\<lambda>d. case gcm_open C nonce d tag (gcm_cipher c) of
         Some d' \<Rightarrow> supd (secret_body_mut (\<lambda>_. Ok d'))
       | None \<Rightarrow> slift (Err (AnyError ''decrypt failed'')))))"

definition gcm_decrypt :: "crypto \<Rightarrow> aes_gcm_cipher \<Rightarrow> (net_packet, unit) action" where
  "gcm_decrypt C c = sbind (sget np_is_encrypt) (\<lambda>enc.
     if \<not> enc then slift (Err (AnyError ''not encrypt''))
     else sbind (sget np_payload) (\<lambda>pl.
     if length pl < AES_GCM_ENCRYPTION_RESERVED then slift (Err (AnyError ''data err''))
     else sbind (sget np_head_tag) (\<lambda>nonce.
     sbind (np_with_body (\<lambda>b. secret_new b (gcm_finger c \<noteq> None))
       (gcm_open_body C c nonce)) (\<lambda>_.
     sbind (supd (np_set_encrypt_flag False)) (\<lambda>_.
     sbind (sget (\<lambda>p. usub (np_data_len p) AES_GCM_ENCRYPTION_RESERVED)) (\<lambda>n.
     supd (np_set_data_len n)))))))"

definition gcm_seal_body :: "crypto \<Rightarrow> aes_gcm_cipher \<Rightarrow> bytes \<Rightarrow> u32 \<Rightarrow> (secret_tail, unit) action" where
  "gcm_seal_body C c nonce random = sbind (supd (secret_set_random random)) (\<lambda>_.
     sbind (sget secret_body) (\<lambda>d. case gcm_seal C nonce d (gcm_cipher c) of
         Some (d', tag) \<Rightarrow> sbind (supd (secret_body_mut (\<lambda>_. Ok d'))) (\<lambda>_.
           sbind (supd (secret_set_tag tag)) (\<lambda>_.
           store_finger C (gcm_finger c) nonce secret_en_body secret_set_finger))
       | None \<Rightarrow> slift (Err (AnyError ''encrypt failed''))))"

definition gcm_encrypt :: "crypto \<Rightarrow> aes_gcm_cipher \<Rightarrow> u32 \<Rightarrow> (net_packet, unit) action" where
  "gcm_encrypt C c random = sbind (sget np_reserve) (\<lambda>room.
     if room < AES_GCM_ENCRYPTION_RESERVED then slift (Err (AnyError ''too short''))
     else sbind (sget np_head_tag) (\<lambda>nonce.
     sbind (sget (\<lambda>p. Ok (np_data_len p))) (\<lambda>n.
     sbind (supd (np_set_data_len (n + AES_GCM_ENCRYPTION_RESERVED))) (\<lambda>_.
     sbind (np_with_body (\<lambda>b. secret_new b (gcm_finger c \<noteq> None))
       (gcm_seal_body C c nonce random)) (\<lambda>_.
     supd (np_set_encrypt_flag True))))))"

section \<open>ChaCha20-Poly1305\<close>

record chacha_cipher =
  cc_key :: bytes
  cc_finger :: "bytes option"

definition chachapoly_new :: "bytes \<Rightarrow> bytes option \<Rightarrow> chacha_cipher" where
  "chachapoly_new key finger = \<lparr>cc_key = key, cc_finger = finger\<rparr>"

definition chachapoly_open_body :: "crypto \<Rightarrow> chacha_cipher \<Rightarrow> bytes \<Rightarrow> (secret_tail, nat) action" where
  "chachapoly_open_body C c head_tag =
     sbind (demand_finger C (cc_finger c) head_tag aead_data_tag tail_finger ''finger err'') (\<lambda>_.
     sbind (sget tail_random_buf) (\<lambda>random.
     sbind (slift (gen_nonce head_tag random)) (\<lambda>nonce.
     sbind (sget aead_tag) (\<lambda>tag.
     sbind (sget aead_data) (\<lambda>d. case c_open C ChaChaPoly (cc_key c) nonce d tag of
         Some d' \<Rightarrow> sbind (supd (aead_data_mut (\<lambda>_. Ok d'))) (\<lambda>_.
           sbind (sget aead_data) (\<lambda>d. sret (length d)))
       | None \<Rightarrow> slift (Err (AnyError ''decrypt_ipv4'')))))))"

definition chachapoly_decrypt :: "crypto \<Rightarrow> chacha_cipher \<Rightarrow> (net_packet, unit) action" where
  "chachapoly_decrypt C c = sbind (sget np_is_encrypt) (\<lambda>enc.
     if \<not> enc then slift (Err (AnyError ''not encrypt''))
     else sbind (sget np_payload) (\<lambda>pl.
     if length pl < TAG_RESERVED then slift (Err (AnyError ''data err''))
     else sbind (sget np_head_tag) (\<lambda>head_tag.
     sbind (np_with_body (\<lambda>b. aead_new b (cc_finger c \<noteq> None))
       (chachapoly_open_body C c head_tag))
     (\<lambda>n. sbind (supd (np_set_encrypt_flag False)) (\<lambda>_. supd (np_set_payload_len n))))))"

definition chachapoly_seal_body :: "crypto \<Rightarrow> chacha_cipher \<Rightarrow> bytes \<Rightarrow> u32 \<Rightarrow> (secret_tail, unit) action" where
  "chachapoly_seal_body C c head_tag word =
     sbind (slift (gen_random_nonce word head_tag)) (\<lambda>(random, nonce).
     sbind (supd (tail_set_random random)) (\<lambda>_.
     sbind (sget aead_data) (\<lambda>d. case c_seal C ChaChaPoly (cc_key c) nonce d of
         Some (d', tag) \<Rightarrow> sbind (supd (aead_data_mut (\<lambda>_. Ok d'))) (\<lambda>_.
           if length tag \<noteq> 16 then slift (Err (AnyError ''tag length''))
           else sbind (supd (aead_set_tag tag)) (\<lambda>_.
           store_finger C (cc_finger c) head_tag aead_data_tag tail_set_finger))
       | None \<Rightarrow> slift (Err (AnyError ''encrypt failed'')))))"

definition chachapoly_encrypt :: "crypto \<Rightarrow> chacha_cipher \<Rightarrow> u32 \<Rightarrow> (net_packet, unit) action" where
  "chachapoly_encrypt C c word = sbind (sget np_head_tag) (\<lambda>head_tag.
     sbind (sget (\<lambda>p. Ok (np_data_len p))) (\<lambda>n.
     sbind (supd (np_set_data_len (if cc_finger c \<noteq> None
         then n + TAG_RESERVED + RANDOM_RESERVED + FINGER_RESERVED
         else n + TAG_RESERVED + RANDOM_RESERVED))) (\<lambda>_.
     sbind (np_with_body (\<lambda>b. aead_new b (cc_finger c \<noteq> None))
       (chachapoly_seal_body C c head_tag word))
     (\<lambda>_. supd (np_set_encrypt_flag True)))))"

section \<open>ChaCha20\<close>

text \<open>The stream cipher combines the data with the key stream, in both directions.\<close>

definition apply_keystream :: "crypto \<Rightarrow> bytes \<Rightarrow> bytes \<Rightarrow> bytes \<Rightarrow> bytes" where
  "apply_keystream C key nonce d = map2 (XOR) d (c_stream C key nonce (length d))"

definition chacha20_open_body :: "crypto \<Rightarrow> chacha_cipher \<Rightarrow> bytes \<Rightarrow> (secret_tail, nat) action" where
  "chacha20_open_body C c head_tag =
     sbind (demand_finger C (cc_finger c) head_tag iv_data tail_finger ''ChaCha20 finger err'') (\<lambda>_.
     sbind (sget tail_random_buf) (\<lambda>random.
     sbind (slift (gen_nonce head_tag random)) (\<lambda>nonce.
     sbind (supd (iv_data_mut (\<lambda>d. Ok (apply_keystream C (cc_key c) nonce d)))) (\<lambda>_.
     sbind (sget iv_data) (\<lambda>d. sret (length d))))))"

definition chacha20_decrypt :: "crypto \<Rightarrow> chacha_cipher \<Rightarrow> (net_packet, unit) action" where
  "chacha20_decrypt C c = sbind (sget np_is_encrypt) (\<lambda>enc.
     if \<not> enc then slift (Err (AnyError ''not encrypt''))
     else sbind (sget np_head_tag) (\<lambda>head_tag.
     sbind (np_with_body (\<lambda>b. iv_new b (cc_finger c \<noteq> None))
       (chacha20_open_body C c head_tag))
     (\<lambda>n. sbind (supd (np_set_encrypt_flag False)) (\<lambda>_. supd (np_set_payload_len n)))))"

definition chacha20_seal_body :: "crypto \<Rightarrow> chacha_cipher \<Rightarrow> bytes \<Rightarrow> u32 \<Rightarrow> (secret_tail, unit) action" where
  "chacha20_seal_body C c head_tag word =
     sbind (slift (gen_random_nonce word head_tag)) (\<lambda>(random, nonce).
     sbind (supd (tail_set_random random)) (\<lambda>_.
     supd (iv_data_mut (\<lambda>d. Ok (apply_keystream C (cc_key c) nonce d)))))"

definition chacha20_encrypt :: "crypto \<Rightarrow> chacha_cipher \<Rightarrow> u32 \<Rightarrow> (net_packet, unit) action" where
  "chacha20_encrypt C c word = sbind (sget (\<lambda>p. Ok (np_data_len p))) (\<lambda>n.
     sbind (sget np_head_tag) (\<lambda>head_tag.
     sbind (supd (np_set_data_len (if cc_finger c \<noteq> None
         then n + RANDOM_RESERVED + FINGER_RESERVED else n + RANDOM_RESERVED))) (\<lambda>_.
     sbind (np_with_body (\<lambda>b. iv_new b (cc_finger c \<noteq> None))
       (chacha20_seal_body C c head_tag word))
     (\<lambda>_. sbind (case cc_finger c of None \<Rightarrow> sret ()
            | Some hash \<Rightarrow> np_with_body (\<lambda>b. iv_new b True)
                (store_finger C (Some hash) head_tag iv_data tail_set_finger))
     (\<lambda>_. supd (np_set_encrypt_flag True))))))"

section \<open>The finger steps\<close>

definition finger_tail :: "crypto \<Rightarrow> bytes option \<Rightarrow> bytes \<Rightarrow> bytes \<Rightarrow> bytes" where
  "finger_tail C fo nonce body = (case fo of None \<Rightarrow> [] | Some hash \<Rightarrow> calculate_finger C hash nonce body)"

lemma finger_tail_length:
  assumes "sha_ok C"
  shows "length (finger_tail C fo n b) = flen (fo \<noteq> None)" and "finger_tail C fo n b \<noteq> [] \<longleftrightarrow> fo \<noteq> None"
proof -
  show l: "length (finger_tail C fo n b) = flen (fo \<noteq> None)"
    using length_calculate_finger [OF assms] by (simp add: finger_tail_def split: option.splits)
  show "finger_tail C fo n b \<noteq> [] \<longleftrightarrow> fo \<noteq> None"
    using l by (cases fo) (auto simp: finger_tail_def)
qed

lemma finger_tail_lens:
  "sha_ok C \<Longrightarrow> length tag = 16 \<Longrightarrow> length rnd = 4 \<Longrightarrow> tail_lens tag rnd (finger_tail C fo n b)"
  "sha_ok C \<Longrightarrow> length rnd = 4 \<Longrightarrow> iv_lens rnd (finger_tail C fo n b)"
  using finger_tail_length(1) [of C fo n b] by (auto simp: tail_lens_def iv_lens_def)

lemma demand_finger_ok:
  "covered t = Ok body \<Longrightarrow> stored t = Ok (finger_tail C fo nonce body) \<Longrightarrow>
   demand_finger C fo nonce covered stored msg t = (Ok (), t)"
  by (auto simp: demand_finger_def finger_tail_def sbind_sget split: option.splits)

lemma demand_finger_result:
  assumes "covered t = Ok body" and "stored t = Ok fin"
  shows "demand_finger C fo nonce covered stored msg t =
    (if fo \<noteq> None \<and> finger_tail C fo nonce body \<noteq> fin then Err (AnyError msg) else Ok (), t)"
  using assms by (auto simp: demand_finger_def finger_tail_def sbind_sget split: option.splits)

lemma store_finger_ok:
  assumes "covered t = Ok body" and "fo = None \<Longrightarrow> t' = t"
    and "fo \<noteq> None \<Longrightarrow> put (finger_tail C fo nonce body) t = Ok t'"
  shows "store_finger C fo nonce covered put t = (Ok (), t')"
  using assms by (auto simp: store_finger_def finger_tail_def sbind_sget supd_ok split: option.splits)

section \<open>AES-GCM is a packet cipher\<close>

lemma aead_seal_ok:
  "aead_ok C \<Longrightarrow> length d \<le> body_max \<Longrightarrow>
   \<exists>c t. c_seal C a k n d = Some (c, t) \<and> length c = length d \<and> length t = 16 \<and> c_open C a k n c t = Some d"
  by (simp add: aead_ok_def)

lemma gcm_seal_ok:
  assumes "aead_ok C" and "length d \<le> body_max"
  shows "\<exists>c t. gcm_seal C n d g = Some (c, t) \<and> length c = length d \<and> length t = 16 \<and> gcm_open C n c t g = Some d"
  using aead_seal_ok [OF assms] by (cases g) simp_all

lemma gcm_open_length: "aead_ok C \<Longrightarrow> gcm_open C n c t g = Some d \<Longrightarrow> length d = length c"
  by (cases g) (auto simp: aead_ok_def)

lemma gcm_seal_body_ok:
  assumes ok: "sha_ok C" "aead_ok C" and lens: "tail_lens tag rnd fin"
    and fin: "fin \<noteq> [] \<longleftrightarrow> gcm_finger c \<noteq> None" and max: "length d + 4 \<le> body_max"
  obtains d' rnd' tag' fin' where
    "gcm_seal_body C c nonce w (secret_of d rnd tag fin) = (Ok (), secret_of d' rnd' tag' fin')"
    and "tail_lens tag' rnd' fin'" and "length d' = length d" and "length fin' = length fin"
    and "fin' = finger_tail C (gcm_finger c) nonce (d' @ rnd' @ tag')"
    and "gcm_open C nonce (d' @ rnd') tag' (gcm_cipher c) = Some (d @ u32_to_be w)"
proof -
  obtain e t where seal: "gcm_seal C nonce (d @ u32_to_be w) (gcm_cipher c) = Some (e, t)"
      "length e = length d + 4" "length t = 16" "gcm_open C nonce e t (gcm_cipher c) = Some (d @ u32_to_be w)"
    using gcm_seal_ok [OF ok(2), of "d @ u32_to_be w" nonce "gcm_cipher c"] max by auto
  then obtain d' rnd' where e: "e = d' @ rnd'" "length rnd' = 4" "length d' = length d"
    using split_last_n [of 4 e] by (metis add_diff_cancel_right' le_add2 length_append)
  define fin' where "fin' = finger_tail C (gcm_finger c) nonce (d' @ rnd' @ t)"
  note fl = finger_tail_length [OF ok(1), of "gcm_finger c" nonce "d' @ rnd' @ t", folded fin'_def]
  have l1: "tail_lens tag (u32_to_be w) fin" "tail_lens tag rnd' fin" "tail_lens t rnd' fin"
    using lens seal(3) e(2) by (simp_all add: tail_lens_def)
  have l2: "tail_lens t rnd' fin'"
    using finger_tail_lens(1) [OF ok(1) seal(3) e(2)] by (simp add: fin'_def)
  have len: "length fin' = length fin"
    using fl lens fin by (auto simp: tail_lens_def)
  have store: "store_finger C (gcm_finger c) nonce secret_en_body secret_set_finger (secret_of d' rnd' t fin) =
      (Ok (), secret_of d' rnd' t fin')"
  proof (rule store_finger_ok)
    show "secret_en_body (secret_of d' rnd' t fin) = Ok (d' @ rnd' @ t)"
      by (rule secret_views(3) [OF l1(3)])
    show "secret_of d' rnd' t fin' = secret_of d' rnd' t fin" if "gcm_finger c = None"
      using that fin fl by simp
    show "secret_set_finger (finger_tail C (gcm_finger c) nonce (d' @ rnd' @ t)) (secret_of d' rnd' t fin) =
        Ok (secret_of d' rnd' t fin')" if "gcm_finger c \<noteq> None"
      using secret_writes(4) [OF l1(3)] that fin fl(1) by (simp add: finger_views fin'_def)
  qed
  have "gcm_seal_body C c nonce w (secret_of d rnd tag fin) = (Ok (), secret_of d' rnd' t fin')"
    using seal(1) e
    by (simp add: gcm_seal_body_def sbind_supd secret_writes(3) [OF lens] sbind_sget
        secret_views(1) [OF l1(1)] secret_writes(1) [OF l1(1), where d' = d' and rnd' = rnd']
        secret_writes(2) [OF l1(2)] seal(3) store)
  then show thesis using that l2 e len seal(4) by (auto simp: fin'_def)
qed

lemma gcm_open_body_ok:
  assumes "aead_ok C" and "tail_lens tag rnd fin" and "fin = finger_tail C (gcm_finger c) nonce (d @ rnd @ tag)"
    and "gcm_open C nonce (d @ rnd) tag (gcm_cipher c) = Some (d' @ rnd')"
    and "length d' = length d" and "length rnd' = 4"
  shows "gcm_open_body C c nonce (secret_of d rnd tag fin) = (Ok (), secret_of d' rnd' tag fin)"
proof -
  have "demand_finger C (gcm_finger c) nonce secret_en_body secret_finger ''finger err'' (secret_of d rnd tag fin) =
      (Ok (), secret_of d rnd tag fin)"
    by (rule demand_finger_ok, rule secret_views(3) [OF assms(2)])
      (simp add: finger_views secret_views(5) [OF assms(2)] flip: assms(3))
  then show ?thesis
    using assms(4-) by (simp add: gcm_open_body_def sbind_sget secret_views [OF assms(2)] sbind_pair(1)
        supd_ok secret_writes(1) [OF assms(2), where d' = d' and rnd' = rnd'])
qed

lemma gcm_open_body_total:
  assumes ok: "aead_ok C" and lens: "tail_lens tag rnd fin"
  shows "\<exists>res t. gcm_open_body C c nonce (secret_of d rnd tag fin) = (res, t) \<and> res \<noteq> Panic \<and>
    length (st_buffer t) = length d + 20 + length fin"
proof -
  let ?t = "secret_of d rnd tag fin"
  have len: "length (st_buffer ?t) = length d + 20 + length fin"
    using lens by (simp add: secret_of_def tail_lens_def)
  obtain r where r: "demand_finger C (gcm_finger c) nonce secret_en_body secret_finger ''finger err'' ?t = (r, ?t)"
      "r \<noteq> Panic"
    using demand_finger_result [where t = ?t and covered = secret_en_body and stored = st_finger,
        OF secret_views(3,5) [OF lens], of C "gcm_finger c" nonce]
    by (simp add: finger_views)
  show ?thesis
  proof (cases "r = Ok ()")
    case False
    then show ?thesis using r len
      by (cases r) (auto simp: gcm_open_body_def sbind_sget secret_views [OF lens] sbind_pair)
  next
    case True
    show ?thesis
    proof (cases "gcm_open C nonce (d @ rnd) tag (gcm_cipher c)")
      case None
      then show ?thesis using r True len
        by (simp add: gcm_open_body_def sbind_sget secret_views [OF lens] sbind_pair)
    next
      case (Some x)
      have "length x = length d + 4" using gcm_open_length [OF ok Some] lens by (simp add: tail_lens_def)
      then obtain d' rnd' where x: "x = d' @ rnd'" "length rnd' = 4" "length d' = length d"
        using split_last_n [of 4 x] by (metis add_diff_cancel_right' le_add2 length_append)
      have "gcm_open_body C c nonce ?t = (Ok (), secret_of d' rnd' tag fin)"
        using r True Some x
        by (simp add: gcm_open_body_def sbind_sget secret_views [OF lens] sbind_pair supd_ok
            secret_writes(1) [OF lens, where d' = d' and rnd' = rnd'])
      moreover have "length (st_buffer (secret_of d' rnd' tag fin)) = length d + 20 + length fin"
        using x lens by (simp add: secret_of_def tail_lens_def)
      ultimately show ?thesis by auto
    qed
  qed
qed

text \<open>The packet level: 32 octets of room in front of what was reserved.\<close>

lemma room_split:
  assumes "n \<le> length r"
  obtains x r' where "r = x @ r'" and "length x = n"
  using that [of "take n r" "drop n r"] assms by simp

lemma gcm_encrypt_frame:
  assumes ok: "sha_ok C" "aead_ok C" and h: "length h = 12" and pl: "length pl + 32 \<le> body_max"
    and x: "length x = 32"
  obtains d rnd tag fin g where
    "gcm_encrypt C c w (frame h pl (x @ r)) = (Ok (), frame (mark True h) (d @ rnd @ tag @ fin) r)"
    and "tail_lens tag rnd fin" and "length d + 20 + length fin = length pl + 32"
    and "length fin = flen (gcm_finger c \<noteq> None)"
    and "fin = finger_tail C (gcm_finger c) (frame_tag h) (d @ rnd @ tag)"
    and "gcm_open C (frame_tag h) (d @ rnd) tag (gcm_cipher c) = Some (pl @ g)" and "length g + length pl = length d + 4"
proof -
  let ?f = "gcm_finger c \<noteq> None"
  have "flen ?f \<le> length x" using x by simp
  then obtain y fin0 where x1: "x = y @ fin0" "length fin0 = flen ?f" by (rule split_last_n)
  obtain z tag0 where x2: "y = z @ tag0" "length tag0 = 16" using split_last_n [of 16 y] x x1
    by (auto split: if_splits)
  obtain g0 rnd0 where x3: "z = g0 @ rnd0" "length rnd0 = 4" using split_last_n [of 4 z] x x1 x2
    by (auto split: if_splits)
  have x': "x = g0 @ rnd0 @ tag0 @ fin0" using x1 x2 x3 by simp
  have f: "fin0 \<noteq> [] \<longleftrightarrow> ?f" using x1(2) by (cases ?f) auto
  have lens: "tail_lens tag0 rnd0 fin0" using x1 x2 x3 by (auto simp: tail_lens_def split: if_splits)
  have g0: "length g0 + 20 + length fin0 = 32" using x x' x2 x3 by simp
  have max: "length (pl @ g0) + 4 \<le> body_max" using pl g0 by simp
  obtain d rnd tag fin where
    sealed: "gcm_seal_body C c (frame_tag h) w (secret_of (pl @ g0) rnd0 tag0 fin0) = (Ok (), secret_of d rnd tag fin)"
    and l: "tail_lens tag rnd fin" "length d = length (pl @ g0)" "length fin = length fin0"
    and fin: "fin = finger_tail C (gcm_finger c) (frame_tag h) (d @ rnd @ tag)"
    and opn: "gcm_open C (frame_tag h) (d @ rnd) tag (gcm_cipher c) = Some ((pl @ g0) @ u32_to_be w)"
    by (rule gcm_seal_body_ok [OF ok lens f max, where nonce = "frame_tag h" and w = w])
  have new: "secret_new (pl @ x) ?f = Ok (secret_of (pl @ g0) rnd0 tag0 fin0)"
    using secret_new_ok [OF lens, of "pl @ g0"] pl g0 f x' by simp
  have len: "length d + 20 + length fin = length pl + 32" using l g0 by simp
  have "np_with_body (\<lambda>b. secret_new b ?f) (gcm_seal_body C c (frame_tag h) w) (frame h (pl @ x) r) =
      (Ok (), frame h (d @ rnd @ tag @ fin) r)"
    using frame_with_body [OF h, where new = "\<lambda>b. secret_new b ?f" and r = r and
        m = "gcm_seal_body C c (frame_tag h) w", OF new sealed] l(1) len x
    by (simp add: secret_of_def tail_lens_def)
  moreover have "np_reserve (frame h pl (x @ r)) = Ok (32 + length r)"
    using h x by (simp add: np_reserve_def)
  ultimately have "gcm_encrypt C c w (frame h pl (x @ r)) = (Ok (), frame (mark True h) (d @ rnd @ tag @ fin) r)"
    using h x by (simp add: gcm_encrypt_def sbind_sget reserved_defs frame_head_tag sbind_supd
        frame_set_data_len_grow sbind_pair(1) frame_mark supd_ok)
  then show thesis
    using that [of d rnd tag fin "g0 @ u32_to_be w"] l len x1(2) fin opn by simp
qed

lemma gcm_decrypt_frame:
  assumes ok: "aead_ok C" and h: "length h = 12" "bit (h ! 0) 7"
    and lens: "tail_lens tag rnd fin" "length d + 20 + length fin = length pl + 32" "length pl + 32 \<le> body_max"
    and f: "length fin = flen (gcm_finger c \<noteq> None)"
    and fin: "fin = finger_tail C (gcm_finger c) (frame_tag h) (d @ rnd @ tag)"
    and opn: "gcm_open C (frame_tag h) (d @ rnd) tag (gcm_cipher c) = Some (pl @ g)"
    and g: "length g + length pl = length d + 4"
  shows "\<exists>t. gcm_decrypt C c (frame h (d @ rnd @ tag @ fin) r) = (Ok (), frame (mark False h) pl t) \<and>
    length t = length r + 32"
proof -
  let ?f = "gcm_finger c \<noteq> None"
  have gl: "4 \<le> length g" using lens by (auto simp: tail_lens_def) (use g in linarith)+
  then obtain g1 rnd' where g': "g = g1 @ rnd'" "length rnd' = 4" using split_last_n [of 4 g] by auto
  have f': "fin \<noteq> [] \<longleftrightarrow> ?f" using f by (cases ?f) auto
  have new: "secret_new (d @ rnd @ tag @ fin) ?f = Ok (secret_of d rnd tag fin)"
    using secret_new_ok [OF lens(1), of d] lens f' by simp
  have "gcm_open_body C c (frame_tag h) (secret_of d rnd tag fin) = (Ok (), secret_of (pl @ g1) rnd' tag fin)"
    using gcm_open_body_ok [OF ok lens(1) fin, of "pl @ g1" rnd'] opn g g' by simp
  note opened = this
  have "np_with_body (\<lambda>b. secret_new b ?f) (gcm_open_body C c (frame_tag h)) (frame h (d @ rnd @ tag @ fin) r) =
      (Ok (), frame h (pl @ g1 @ rnd' @ tag @ fin) r)"
    using frame_with_body [OF h(1), where new = "\<lambda>b. secret_new b ?f" and r = r and
        m = "gcm_open_body C c (frame_tag h)", OF new opened] g g' lens
    by (simp add: secret_of_def tail_lens_def)
  moreover have "length (pl @ g1 @ rnd' @ tag @ fin) = length pl + 32"
    using lens g g' by (simp add: tail_lens_def)
  ultimately have "gcm_decrypt C c (frame h (d @ rnd @ tag @ fin) r) =
      (Ok (), frame (mark False h) pl ((g1 @ rnd' @ tag @ fin) @ r))"
    using h lens by (simp add: gcm_decrypt_def sbind_sget frame_simps reserved_defs sbind_pair(1)
        frame_mark sbind_supd supd_ok tail_lens_def frame_set_data_len_shrink [of "mark False h" _ pl])
  moreover have "length ((g1 @ rnd' @ tag @ fin) @ r) = length r + 32"
    using \<open>length (pl @ g1 @ rnd' @ tag @ fin) = length pl + 32\<close> by simp
  ultimately show ?thesis by blast
qed

lemma gcm_decrypt_total:
  assumes ok: "aead_ok C" and h: "length h = 12"
  shows "\<exists>res h' c' s. gcm_decrypt C c (frame h pl r) = (res, frame h' c' s) \<and> res \<noteq> Panic \<and> length h' = 12"
proof -
  let ?f = "gcm_finger c \<noteq> None"
  have stay: "\<exists>res h' c' s. (Err e, frame h pl r) = (res, frame h' c' s) \<and> res \<noteq> Panic \<and> length h' = 12"
    for e :: vnt_error and pl r using h by blast
  consider "\<not> bit (h ! 0) 7" | "bit (h ! 0) 7" "length pl < 32"
    | e where "bit (h ! 0) 7" "32 \<le> length pl" "secret_new pl ?f = Err e"
    | t where "bit (h ! 0) 7" "32 \<le> length pl" "secret_new pl ?f = Ok t"
  proof -
    have "secret_new pl ?f \<noteq> Panic" by (simp add: secret_new_def st_make_not_panic)
    then show ?thesis
      using that by (cases "secret_new pl ?f"; cases "length pl < 32"; cases "bit (h ! 0) 7") auto
  qed
  then show ?thesis
  proof cases
    case 1
    then show ?thesis using stay by (simp add: gcm_decrypt_def sbind_sget frame_simps h)
  next
    case 2
    then show ?thesis using stay by (simp add: gcm_decrypt_def sbind_sget frame_simps h reserved_defs)
  next
    case (3 e)
    then show ?thesis using stay [of e pl r]
      by (simp add: gcm_decrypt_def sbind_sget frame_simps h reserved_defs frame_with_body_err sbind_pair)
  next
    case (4 t)
    obtain d rnd tag fin where b: "pl = d @ rnd @ tag @ fin" "tail_lens tag rnd fin" "t = secret_of d rnd tag fin"
      using secret_new_split [OF 4(3)] by metis
    obtain res t' where body: "gcm_open_body C c (frame_tag h) t = (res, t')" "res \<noteq> Panic"
        "length (st_buffer t') = length pl"
      using gcm_open_body_total [OF ok b(2), of c "frame_tag h" d] b by (auto simp: tail_lens_def)
    have w: "np_with_body (\<lambda>b. secret_new b ?f) (gcm_open_body C c (frame_tag h)) (frame h pl r) =
        (res, frame h (st_buffer t') r)"
      by (rule frame_with_body [where m = "gcm_open_body C c (frame_tag h)" and
            new = "\<lambda>b. secret_new b ?f" and pl = pl, OF h 4(3) body(1,3)])
    obtain x y where xy: "st_buffer t' = x @ y" "length y = 32" using split_last_n 4(2) body(3) by metis
    show ?thesis
    proof (cases res)
      case (Ok u)
      have "gcm_decrypt C c (frame h pl r) = (Ok (), frame (mark False h) x (y @ r))"
        using w Ok 4 h xy
        by (simp add: gcm_decrypt_def sbind_sget frame_simps reserved_defs sbind_pair(1) sbind_supd
            supd_ok frame_set_data_len_shrink)
      then show ?thesis using h by fastforce
    next
      case (Err e)
      then show ?thesis using w 4 h stay [of e "st_buffer t'" r]
        by (simp add: gcm_decrypt_def sbind_sget frame_simps reserved_defs sbind_pair)
    qed (use body in simp)
  qed
qed

interpretation gcm: packet_cipher "\<lambda>(C, c). sha_ok C \<and> aead_ok C" "\<lambda>_ _. AES_GCM_ENCRYPTION_RESERVED"
    "\<lambda>_. body_max - AES_GCM_ENCRYPTION_RESERVED" "\<lambda>_. True" "\<lambda>(C, c). gcm_encrypt C c" "\<lambda>(C, c). gcm_decrypt C c"
proof (unfold_locales, goal_cases)
  case (1 k h pl r e)
  obtain C c where k: "k = (C, c)" by (cases k)
  with 1 have ok: "sha_ok C" "aead_ok C" and max: "length pl + 32 \<le> body_max" and room: "32 \<le> length r"
    by (auto simp: reserved_defs body_max_def)
  obtain x r' where r: "r = x @ r'" "length x = 32" using room by (rule room_split)
  obtain d rnd tag fin g where enc: "gcm_encrypt C c e (frame h pl r) = (Ok (), frame (mark True h) (d @ rnd @ tag @ fin) r')"
    and l: "tail_lens tag rnd fin" "length d + 20 + length fin = length pl + 32" "length pl + 32 \<le> body_max"
      "length fin = flen (gcm_finger c \<noteq> None)"
    and fin: "fin = finger_tail C (gcm_finger c) (frame_tag h) (d @ rnd @ tag)"
    and opn: "gcm_open C (frame_tag h) (d @ rnd) tag (gcm_cipher c) = Some (pl @ g)" "length g + length pl = length d + 4"
    using gcm_encrypt_frame [OF ok 1(2) max r(2)] max r(1) by metis
  have "\<exists>t. gcm_decrypt C c (frame h' (d @ rnd @ tag @ fin) s') = (Ok (), frame (mark False h') pl t) \<and>
      length pl + length t = length (d @ rnd @ tag @ fin) + length s'" if "same_tag (mark True h) h'" for h' s'
  proof -
    have "\<exists>t. gcm_decrypt C c (frame h' (d @ rnd @ tag @ fin) s') = (Ok (), frame (mark False h') pl t) \<and>
        length t = length s' + 32"
      using gcm_decrypt_frame [OF ok(2) _ _ l, of h' g s'] fin opn that 1(2)
      by (simp add: same_tag_def add.commute)
    then show ?thesis using l by (elim exE) (intro exI conjI, auto simp: tail_lens_def)
  qed
  moreover have "length (d @ rnd @ tag @ fin) = length pl + 32" "length (d @ rnd @ tag @ fin) + length r' = length pl + length r"
    using l r by (simp_all add: tail_lens_def)
  ultimately show ?case
    by - (rule exI [of _ "d @ rnd @ tag @ fin"], rule exI [of _ r'], use enc k in \<open>simp add: reserved_defs\<close>)
next
  case (2 k h pl r)
  then show ?case using gcm_decrypt_total by (cases k) simp
qed

section \<open>ChaCha20-Poly1305 is a packet cipher\<close>

lemma gen_nonce_total:
  assumes "length tag = 12" and "length rnd = 4"
  obtains n where "gen_nonce tag rnd = Ok n"
  using gen_nonce_ok [OF assms] by blast

lemma chachapoly_seal_body_ok:
  assumes ok: "sha_ok C" "aead_ok C" and lens: "tail_lens tag rnd fin"
    and fin: "fin \<noteq> [] \<longleftrightarrow> cc_finger c \<noteq> None" and max: "length d \<le> body_max"
    and nonce: "length tg = 12" "gen_nonce tg (u32_to_be w) = Ok n"
  obtains d' tag' fin' where
    "chachapoly_seal_body C c tg w (aead_of d tag rnd fin) = (Ok (), aead_of d' tag' (u32_to_be w) fin')"
    and "tail_lens tag' (u32_to_be w) fin'" and "length d' = length d" and "length fin' = length fin"
    and "fin' = finger_tail C (cc_finger c) tg (d' @ tag')"
    and "c_open C ChaChaPoly (cc_key c) n d' tag' = Some d"
proof -
  obtain d' t where seal: "c_seal C ChaChaPoly (cc_key c) n d = Some (d', t)"
      "length d' = length d" "length t = 16" "c_open C ChaChaPoly (cc_key c) n d' t = Some d"
    using aead_seal_ok [OF ok(2) max] by blast
  define fin' where "fin' = finger_tail C (cc_finger c) tg (d' @ t)"
  note fl = finger_tail_length [OF ok(1), of "cc_finger c" tg "d' @ t", folded fin'_def]
  have l1: "tail_lens tag (u32_to_be w) fin" "tail_lens t (u32_to_be w) fin"
    using lens seal(3) by (simp_all add: tail_lens_def)
  have l2: "tail_lens t (u32_to_be w) fin'"
    using finger_tail_lens(1) [OF ok(1) seal(3), of "u32_to_be w"] by (simp add: fin'_def)
  have len: "length fin' = length fin"
    using fl lens fin by (auto simp: tail_lens_def)
  have store: "store_finger C (cc_finger c) tg aead_data_tag tail_set_finger (aead_of d' t (u32_to_be w) fin) =
      (Ok (), aead_of d' t (u32_to_be w) fin')"
  proof (rule store_finger_ok)
    show "aead_data_tag (aead_of d' t (u32_to_be w) fin) = Ok (d' @ t)"
      by (rule aead_views(3) [OF l1(2)])
    show "aead_of d' t (u32_to_be w) fin' = aead_of d' t (u32_to_be w) fin" if "cc_finger c = None"
      using that fin fl by simp
    show "tail_set_finger (finger_tail C (cc_finger c) tg (d' @ t)) (aead_of d' t (u32_to_be w) fin) =
        Ok (aead_of d' t (u32_to_be w) fin')" if "cc_finger c \<noteq> None"
      using aead_writes(4) [OF l1(2)] that fin fl(1) by (simp add: finger_views fin'_def)
  qed
  have "chachapoly_seal_body C c tg w (aead_of d tag rnd fin) = (Ok (), aead_of d' t (u32_to_be w) fin')"
    using seal(1,2,3) nonce
    by (simp add: chachapoly_seal_body_def gen_random_nonce_def Let_def sbind_supd aead_writes(3) [OF lens]
        sbind_sget aead_views(1) [OF l1(1)] aead_writes(1) [OF l1(1), where d' = d']
        aead_writes(2) [OF l1(1)] store)
  then show thesis using that l2 len seal by (auto simp: fin'_def)
qed

lemma chachapoly_open_body_ok:
  assumes "tail_lens tag rnd fin" and "fin = finger_tail C (cc_finger c) tg (d @ tag)"
    and "gen_nonce tg rnd = Ok n" and "c_open C ChaChaPoly (cc_key c) n d tag = Some d'" and "length d' = length d"
  shows "chachapoly_open_body C c tg (aead_of d tag rnd fin) = (Ok (length d'), aead_of d' tag rnd fin)"
proof -
  have "demand_finger C (cc_finger c) tg aead_data_tag tail_finger ''finger err'' (aead_of d tag rnd fin) =
      (Ok (), aead_of d tag rnd fin)"
    by (rule demand_finger_ok, rule aead_views(3) [OF assms(1)])
      (simp add: finger_views aead_views(5) [OF assms(1)] flip: assms(2))
  then show ?thesis
    using assms(3-) by (simp add: chachapoly_open_body_def sbind_sget aead_views [OF assms(1)] sbind_pair(1)
        sbind_supd aead_writes(1) [OF assms(1), where d' = d'])
qed

lemma chachapoly_open_body_total:
  assumes ok: "aead_ok C" and lens: "tail_lens tag rnd fin" and tg: "length tg = 12"
  shows "\<exists>res t. chachapoly_open_body C c tg (aead_of d tag rnd fin) = (res, t) \<and> res \<noteq> Panic \<and>
    length (st_buffer t) = length d + 20 + length fin \<and> (\<forall>n. res = Ok n \<longrightarrow> n = length d)"
proof -
  let ?t = "aead_of d tag rnd fin"
  have len: "length (st_buffer (aead_of d' tag rnd fin)) = length d' + 20 + length fin" for d'
    using lens by (simp add: aead_of_def tail_lens_def)
  obtain n where n: "gen_nonce tg rnd = Ok n"
    using gen_nonce_total [OF tg] lens by (auto simp: tail_lens_def)
  obtain r where r: "demand_finger C (cc_finger c) tg aead_data_tag tail_finger ''finger err'' ?t = (r, ?t)"
      "r \<noteq> Panic"
    using demand_finger_result [where t = ?t and covered = aead_data_tag and stored = st_finger,
        OF aead_views(3,5) [OF lens], of C "cc_finger c" tg]
    by (simp add: finger_views)
  note [simp] = chachapoly_open_body_def sbind_sget aead_views [OF lens] sbind_pair n
  show ?thesis
  proof (cases r)
    case (Err e)
    then show ?thesis using r len by simp
  next
    case (Ok u)
    show ?thesis
    proof (cases "c_open C ChaChaPoly (cc_key c) n d tag")
      case None
      then show ?thesis using r Ok len by simp
    next
      case (Some x)
      have x: "length x = length d" using ok Some by (simp add: aead_ok_def)
      then have "chachapoly_open_body C c tg ?t = (Ok (length d), aead_of x tag rnd fin)"
        using r Ok Some by (simp add: sbind_supd aead_writes(1) [OF lens, where d' = x])
      then show ?thesis using len [of x] x by simp
    qed
  qed (use r in simp)
qed

lemma frame_set_payload_len [frame_simps]:
  "length h = 12 \<Longrightarrow> n = length pl \<Longrightarrow>
   np_set_payload_len n (frame h (pl @ x) r) = Ok (frame h pl (x @ r))"
  by (simp add: np_set_payload_len_def HEAD_LEN_def frame_set_data_len_shrink)

text \<open>The end of both \<open>decrypt_ipv4\<close>: clear the flag, cut the payload to the message.\<close>

lemma frame_finish:
  "length h = 12 \<Longrightarrow> sbind (supd (np_set_encrypt_flag False)) (\<lambda>_. supd (np_set_payload_len (length pl)))
     (frame h (pl @ x) r) = (Ok (), frame (mark False h) pl (x @ r))"
  by (simp add: sbind_supd frame_simps supd_ok)

lemma chachapoly_encrypt_frame:
  assumes ok: "sha_ok C" "aead_ok C" and h: "length h = 12" and pl: "length pl + 32 \<le> body_max"
    and x: "length x = 20 + flen (cc_finger c \<noteq> None)"
  obtains d tag fin n where
    "chachapoly_encrypt C c w (frame h pl (x @ r)) = (Ok (), frame (mark True h) (d @ tag @ u32_to_be w @ fin) r)"
    and "tail_lens tag (u32_to_be w) fin" and "length d = length pl"
    and "length fin = flen (cc_finger c \<noteq> None)" and "gen_nonce (frame_tag h) (u32_to_be w) = Ok n"
    and "fin = finger_tail C (cc_finger c) (frame_tag h) (d @ tag)"
    and "c_open C ChaChaPoly (cc_key c) n d tag = Some pl"
proof -
  let ?f = "cc_finger c \<noteq> None"
  have "flen ?f \<le> length x" using x by simp
  then obtain y fin0 where x1: "x = y @ fin0" "length fin0 = flen ?f" by (rule split_last_n)
  obtain tag0 rnd0 where x2: "y = tag0 @ rnd0" "length rnd0 = 4" using split_last_n [of 4 y] x x1
    by (auto split: if_splits)
  have f: "fin0 \<noteq> [] \<longleftrightarrow> ?f" using x1(2) by (cases ?f) auto
  have lens: "tail_lens tag0 rnd0 fin0" using x x1 x2 by (auto simp: tail_lens_def split: if_splits)
  have max: "length pl \<le> body_max" using pl by simp
  obtain n where n: "gen_nonce (frame_tag h) (u32_to_be w) = Ok n"
    by (rule gen_nonce_total [of "frame_tag h" "u32_to_be w"]) simp_all
  obtain d tag fin where
    sealed: "chachapoly_seal_body C c (frame_tag h) w (aead_of pl tag0 rnd0 fin0) = (Ok (), aead_of d tag (u32_to_be w) fin)"
    and l: "tail_lens tag (u32_to_be w) fin" "length d = length pl" "length fin = length fin0"
    and fin: "fin = finger_tail C (cc_finger c) (frame_tag h) (d @ tag)"
    and opn: "c_open C ChaChaPoly (cc_key c) n d tag = Some pl"
    by (rule chachapoly_seal_body_ok [OF ok lens f max _ n]) simp_all
  have new: "aead_new (pl @ x) ?f = Ok (aead_of pl tag0 rnd0 fin0)"
    using aead_new_ok [OF lens, of pl] pl f x1 x2 x by (auto split: if_splits)
  have "np_with_body (\<lambda>b. aead_new b ?f) (chachapoly_seal_body C c (frame_tag h) w) (frame h (pl @ x) r) =
      (Ok (), frame h (d @ tag @ u32_to_be w @ fin) r)"
    using frame_with_body [OF h, where new = "\<lambda>b. aead_new b ?f" and r = r and
        m = "chachapoly_seal_body C c (frame_tag h) w", OF new sealed] l x x1 lens
    by (auto simp: aead_of_def tail_lens_def split: if_splits)
  moreover have "np_set_data_len (if ?f then 12 + length pl + TAG_RESERVED + RANDOM_RESERVED + FINGER_RESERVED
        else 12 + length pl + TAG_RESERVED + RANDOM_RESERVED) (frame h pl (x @ r)) = Ok (frame h (pl @ x) r)"
    using h x by (intro frame_set_data_len_grow) (auto simp: reserved_defs split: if_splits)
  ultimately have "chachapoly_encrypt C c w (frame h pl (x @ r)) =
      (Ok (), frame (mark True h) (d @ tag @ u32_to_be w @ fin) r)"
    using h by (simp only: chachapoly_encrypt_def sbind_sget frame_head_tag frame_sel sbind_supd
        sbind_pair(1) frame_mark supd_ok)
  then show thesis
    using that l x1(2) fin opn n by simp
qed

lemma chachapoly_decrypt_frame:
  assumes h: "length h = 12" "bit (h ! 0) 7"
    and lens: "tail_lens tag rnd fin" "length d = length pl" "length pl + 32 \<le> body_max"
    and f: "length fin = flen (cc_finger c \<noteq> None)" and n: "gen_nonce (frame_tag h) rnd = Ok n"
    and fin: "fin = finger_tail C (cc_finger c) (frame_tag h) (d @ tag)"
    and opn: "c_open C ChaChaPoly (cc_key c) n d tag = Some pl"
  shows "chachapoly_decrypt C c (frame h (d @ tag @ rnd @ fin) r) =
    (Ok (), frame (mark False h) pl ((tag @ rnd @ fin) @ r))"
proof -
  let ?f = "cc_finger c \<noteq> None"
  have f': "fin \<noteq> [] \<longleftrightarrow> ?f" using f by (cases ?f) auto
  have new: "aead_new (d @ tag @ rnd @ fin) ?f = Ok (aead_of d tag rnd fin)"
    using aead_new_ok [OF lens(1), of d] lens f' by (auto simp: tail_lens_def)
  note opened = chachapoly_open_body_ok [OF lens(1) fin n opn lens(2) [symmetric]]
  have "np_with_body (\<lambda>b. aead_new b ?f) (chachapoly_open_body C c (frame_tag h)) (frame h (d @ tag @ rnd @ fin) r) =
      (Ok (length pl), frame h (pl @ tag @ rnd @ fin) r)"
    using frame_with_body [OF h(1), where new = "\<lambda>b. aead_new b ?f" and r = r and
        m = "chachapoly_open_body C c (frame_tag h)", OF new opened] lens
    by (simp add: aead_of_def)
  moreover have "16 \<le> length (d @ tag @ rnd @ fin)" using lens(1) by (simp add: tail_lens_def)
  ultimately show ?thesis using h
    by (simp add: chachapoly_decrypt_def sbind_sget frame_simps reserved_defs sbind_pair(1) frame_finish)
qed

lemma chachapoly_decrypt_total:
  assumes ok: "aead_ok C" and h: "length h = 12"
  shows "\<exists>res h' c' s. chachapoly_decrypt C c (frame h pl r) = (res, frame h' c' s) \<and> res \<noteq> Panic \<and> length h' = 12"
proof -
  let ?f = "cc_finger c \<noteq> None"
  have stay: "\<exists>res h' c' s. (Err e, frame h pl r) = (res, frame h' c' s) \<and> res \<noteq> Panic \<and> length h' = 12"
    for e :: vnt_error and pl r using h by blast
  note [simp] = chachapoly_decrypt_def sbind_sget frame_simps h
  consider "\<not> bit (h ! 0) 7" | "bit (h ! 0) 7" "length pl < 16"
    | e where "bit (h ! 0) 7" "16 \<le> length pl" "aead_new pl ?f = Err e"
    | t where "bit (h ! 0) 7" "16 \<le> length pl" "aead_new pl ?f = Ok t"
  proof -
    have "aead_new pl ?f \<noteq> Panic" by (simp add: aead_new_def st_make_not_panic)
    then show ?thesis
      using that by (cases "aead_new pl ?f"; cases "length pl < 16"; cases "bit (h ! 0) 7") auto
  qed
  then show ?thesis
  proof cases
    case 1
    then show ?thesis using stay by simp
  next
    case 2
    then show ?thesis using stay by (simp add: reserved_defs)
  next
    case (3 e)
    then show ?thesis using stay [of e pl r] by (simp add: reserved_defs frame_with_body_err sbind_pair)
  next
    case (4 t)
    obtain d tag rnd fin where b: "pl = d @ tag @ rnd @ fin" "tail_lens tag rnd fin" "t = aead_of d tag rnd fin"
      using aead_new_split [OF 4(3)] by metis
    obtain res t' where body: "chachapoly_open_body C c (frame_tag h) t = (res, t')" "res \<noteq> Panic"
        "length (st_buffer t') = length pl" "\<forall>n. res = Ok n \<longrightarrow> n = length d"
      using chachapoly_open_body_total [OF ok b(2), of "frame_tag h" c d] b by (auto simp: tail_lens_def)
    have w: "np_with_body (\<lambda>b. aead_new b ?f) (chachapoly_open_body C c (frame_tag h)) (frame h pl r) =
        (res, frame h (st_buffer t') r)"
      by (rule frame_with_body [where m = "chachapoly_open_body C c (frame_tag h)" and
            new = "\<lambda>b. aead_new b ?f" and pl = pl, OF h 4(3) body(1,3)])
    obtain x y where xy: "st_buffer t' = x @ y" "length x = length d"
    proof
      show "st_buffer t' = take (length d) (st_buffer t') @ drop (length d) (st_buffer t')" by simp
      show "length (take (length d) (st_buffer t')) = length d" using body(3) b(1) by simp
    qed
    show ?thesis
    proof (cases res)
      case (Ok n)
      have "chachapoly_decrypt C c (frame h pl r) = (Ok (), frame (mark False h) x (y @ r))"
        using w Ok 4 xy body(4) frame_finish [OF h, of x y r]
        by (simp add: reserved_defs sbind_pair(1))
      then show ?thesis using h by fastforce
    next
      case (Err e)
      then show ?thesis using w 4 stay [of e "st_buffer t'" r]
        by (simp add: reserved_defs sbind_pair)
    qed (use body in simp)
  qed
qed

interpretation chachapoly: packet_cipher "\<lambda>(C, c). sha_ok C \<and> aead_ok C"
    "\<lambda>(C, c) _. 20 + flen (cc_finger c \<noteq> None)" "\<lambda>_. body_max - 32" "\<lambda>_. True"
    "\<lambda>(C, c). chachapoly_encrypt C c" "\<lambda>(C, c). chachapoly_decrypt C c"
proof (unfold_locales, goal_cases)
  case (1 k h pl r e)
  obtain C c where k: "k = (C, c)" by (cases k)
  let ?n = "20 + flen (cc_finger c \<noteq> None)"
  from 1 k have ok: "sha_ok C" "aead_ok C" and max: "length pl + 32 \<le> body_max" and room: "?n \<le> length r"
    by (auto simp: reserved_defs body_max_def)
  obtain x r' where r: "r = x @ r'" "length x = ?n" using room by (rule room_split)
  obtain d tag fin n where
    enc: "chachapoly_encrypt C c e (frame h pl r) = (Ok (), frame (mark True h) (d @ tag @ u32_to_be e @ fin) r')"
    and l: "tail_lens tag (u32_to_be e) fin" "length d = length pl"
    and f: "length fin = flen (cc_finger c \<noteq> None)" and n: "gen_nonce (frame_tag h) (u32_to_be e) = Ok n"
    and fin: "fin = finger_tail C (cc_finger c) (frame_tag h) (d @ tag)"
    and opn: "c_open C ChaChaPoly (cc_key c) n d tag = Some pl"
    using chachapoly_encrypt_frame [OF ok 1(2) max r(2)] r(1) by metis
  have len: "length (tag @ u32_to_be e @ fin) = ?n" using l f by (simp add: tail_lens_def)
  have "\<exists>t. chachapoly_decrypt C c (frame h' (d @ tag @ u32_to_be e @ fin) s') = (Ok (), frame (mark False h') pl t) \<and>
      length pl + length t = length (d @ tag @ u32_to_be e @ fin) + length s'" if "same_tag (mark True h) h'" for h' s'
  proof -
    have "chachapoly_decrypt C c (frame h' (d @ tag @ u32_to_be e @ fin) s') =
        (Ok (), frame (mark False h') pl ((tag @ u32_to_be e @ fin) @ s'))"
      using chachapoly_decrypt_frame [OF _ _ l max f, of h' n C s'] n fin opn that 1(2)
      by (simp add: same_tag_def)
    moreover have "length pl + length ((tag @ u32_to_be e @ fin) @ s') = length (d @ tag @ u32_to_be e @ fin) + length s'"
      using l by simp
    ultimately show ?thesis by blast
  qed
  moreover have "length (d @ tag @ u32_to_be e @ fin) = length pl + ?n"
    "length (d @ tag @ u32_to_be e @ fin) + length r' = length pl + length r"
    using l len r by simp_all
  ultimately show ?case
    by - (rule exI [of _ "d @ tag @ u32_to_be e @ fin"], rule exI [of _ r'], use enc k in simp)
next
  case (2 k h pl r)
  then show ?case using chachapoly_decrypt_total by (cases k) simp
qed

section \<open>ChaCha20 is a packet cipher\<close>

lemma apply_keystream_length: "stream_ok C \<Longrightarrow> length (apply_keystream C k n d) = length d"
  by (simp add: apply_keystream_def stream_ok_def)

lemma apply_keystream_twice:
  assumes "stream_ok C"
  shows "apply_keystream C k n (apply_keystream C k n d) = d"
  using assms
  by (intro nth_equalityI) (simp_all add: apply_keystream_def stream_ok_def xor.assoc)

lemma chacha20_seal_body_ok:
  assumes "stream_ok C" and "iv_lens rnd fin" and "gen_nonce tg (u32_to_be w) = Ok n"
  shows "chacha20_seal_body C c tg w (iv_of d rnd fin) =
    (Ok (), iv_of (apply_keystream C (cc_key c) n d) (u32_to_be w) fin)"
proof -
  have "iv_lens (u32_to_be w) fin" using assms(2) by (simp add: iv_lens_def)
  then show ?thesis using assms
    by (simp add: chacha20_seal_body_def gen_random_nonce_def Let_def sbind_supd iv_views supd_ok
        apply_keystream_length)
qed

lemma chacha20_open_body_result:
  assumes ok: "stream_ok C" and lens: "iv_lens rnd fin" and n: "gen_nonce tg rnd = Ok n"
  shows "chacha20_open_body C c tg (iv_of d rnd fin) =
    (if cc_finger c \<noteq> None \<and> finger_tail C (cc_finger c) tg d \<noteq> fin
     then (Err (AnyError ''ChaCha20 finger err''), iv_of d rnd fin)
     else (Ok (length d), iv_of (apply_keystream C (cc_key c) n d) rnd fin))"
proof -
  let ?t = "iv_of d rnd fin"
  have "demand_finger C (cc_finger c) tg iv_data tail_finger ''ChaCha20 finger err'' ?t =
      (if cc_finger c \<noteq> None \<and> finger_tail C (cc_finger c) tg d \<noteq> fin
       then Err (AnyError ''ChaCha20 finger err'') else Ok (), ?t)"
    using demand_finger_result [where t = ?t and covered = iv_data and stored = tail_finger,
        OF iv_views(1) [OF lens], of fin] iv_views(3) [OF lens] by (simp add: finger_views)
  then show ?thesis using ok n
    by (simp add: chacha20_open_body_def sbind_pair sbind_sget sbind_supd iv_views [OF lens] apply_keystream_length)
qed

lemma chacha20_encrypt_frame:
  assumes ok: "sha_ok C" "stream_ok C" and h: "length h = 12" and pl: "length pl + 32 \<le> body_max"
    and x: "length x = 4 + flen (cc_finger c \<noteq> None)" and n: "gen_nonce (frame_tag h) (u32_to_be w) = Ok n"
  defines "d \<equiv> apply_keystream C (cc_key c) n pl"
  shows "chacha20_encrypt C c w (frame h pl (x @ r)) = (Ok (), frame (mark True h)
    (d @ u32_to_be w @ finger_tail C (cc_finger c) (frame_tag h) d) r)"
proof -
  let ?f = "cc_finger c \<noteq> None"
  have dl: "length d = length pl" using ok(2) by (simp add: d_def apply_keystream_length)
  obtain rnd0 fin0 where x1: "x = rnd0 @ fin0" "length rnd0 = 4" "length fin0 = flen ?f"
  proof
    show "x = take 4 x @ drop 4 x" "length (take 4 x) = 4" "length (drop 4 x) = flen ?f" using x by auto
  qed
  have f: "fin0 \<noteq> [] \<longleftrightarrow> ?f" using x1(3) by (cases ?f) auto
  have lens: "iv_lens rnd0 fin0" using x1 by (auto simp: iv_lens_def split: if_splits)
  then have lens': "iv_lens (u32_to_be w) fin0" by (simp add: iv_lens_def)
  have new: "iv_new (e @ rnd @ fin0) ?f = Ok (iv_of e rnd fin0)" if "iv_lens rnd fin0" "length e = length pl" for e rnd
    using iv_new_ok [OF that(1), of e] that pl f by (auto simp: iv_lens_def)
  have seal: "np_with_body (\<lambda>b. iv_new b ?f) (chacha20_seal_body C c (frame_tag h) w) (frame h (pl @ x) r) =
      (Ok (), frame h (d @ u32_to_be w @ fin0) r)"
    using frame_with_body [OF h, where new = "\<lambda>b. iv_new b ?f" and r = r and
        m = "chacha20_seal_body C c (frame_tag h) w",
        OF new [OF lens refl] chacha20_seal_body_ok [OF ok(2) lens n, of c pl]] dl x1
    by (simp add: iv_of_def flip: d_def)
  have grow: "np_set_data_len (if ?f then 12 + length pl + RANDOM_RESERVED + FINGER_RESERVED
        else 12 + length pl + RANDOM_RESERVED) (frame h pl (x @ r)) = Ok (frame h (pl @ x) r)"
    using h x by (intro frame_set_data_len_grow) (auto simp: reserved_defs split: if_splits)
  let ?put = "case cc_finger c of None \<Rightarrow> sret ()
    | Some hash \<Rightarrow> np_with_body (\<lambda>b. iv_new b True) (store_finger C (Some hash) (frame_tag h) iv_data tail_set_finger)"
  have put: "?put (frame h (d @ u32_to_be w @ fin0) r) =
      (Ok (), frame h (d @ u32_to_be w @ finger_tail C (cc_finger c) (frame_tag h) d) r)"
  proof (cases "cc_finger c")
    case None
    then show ?thesis using f by (simp add: finger_tail_def)
  next
    case (Some k)
    let ?fin = "finger_tail C (Some k) (frame_tag h) d"
    have fl: "length ?fin = 12" using finger_tail_length(1) [OF ok(1), of "Some k"] by simp
    have "store_finger C (Some k) (frame_tag h) iv_data tail_set_finger (iv_of d (u32_to_be w) fin0) =
        (Ok (), iv_of d (u32_to_be w) ?fin)"
      using iv_views(1,6) [OF lens'] f Some fl
      by (intro store_finger_ok) (simp_all add: finger_views)
    from frame_with_body [OF h, where new = "\<lambda>b. iv_new b ?f" and r = r and
        m = "store_finger C (Some k) (frame_tag h) iv_data tail_set_finger", OF new [OF lens' dl] this]
    show ?thesis using Some fl x1(3) by (simp add: iv_of_def)
  qed
  show ?thesis using h
    by (simp only: chacha20_encrypt_def sbind_sget frame_head_tag frame_sel sbind_supd
        sbind_pair(1) frame_mark supd_ok grow seal put)
qed

lemma chacha20_decrypt_frame:
  assumes ok: "stream_ok C" and h: "length h = 12" "bit (h ! 0) 7"
    and lens: "iv_lens rnd fin" "length (d @ rnd @ fin) \<le> body_max"
    and f: "fin \<noteq> [] \<longleftrightarrow> cc_finger c \<noteq> None" and n: "gen_nonce (frame_tag h) rnd = Ok n"
  shows "chacha20_decrypt C c (frame h (d @ rnd @ fin) r) =
    (if cc_finger c \<noteq> None \<and> finger_tail C (cc_finger c) (frame_tag h) d \<noteq> fin
     then (Err (AnyError ''ChaCha20 finger err''), frame h (d @ rnd @ fin) r)
     else (Ok (), frame (mark False h) (apply_keystream C (cc_key c) n d) ((rnd @ fin) @ r)))"
proof -
  let ?f = "cc_finger c \<noteq> None" and ?d = "apply_keystream C (cc_key c) n d"
  let ?bad = "?f \<and> finger_tail C (cc_finger c) (frame_tag h) d \<noteq> fin"
  have new: "iv_new (d @ rnd @ fin) ?f = Ok (iv_of d rnd fin)"
    using iv_new_ok [OF lens(1), of d] lens f by (simp add: iv_lens_def)
  have w: "np_with_body (\<lambda>b. iv_new b ?f) (chacha20_open_body C c (frame_tag h)) (frame h (d @ rnd @ fin) r) =
      (if ?bad then (Err (AnyError ''ChaCha20 finger err''), frame h (d @ rnd @ fin) r)
       else (Ok (length d), frame h (?d @ rnd @ fin) r))"
  proof (cases ?bad)
    case True
    have "chacha20_open_body C c (frame_tag h) (iv_of d rnd fin) =
        (Err (AnyError ''ChaCha20 finger err''), iv_of d rnd fin)"
      using chacha20_open_body_result [OF ok lens(1) n, of c d] by (simp only: if_P [OF True])
    from frame_with_body [OF h(1), where new = "\<lambda>b. iv_new b ?f" and r = r and
        m = "chacha20_open_body C c (frame_tag h)", OF new this]
    show ?thesis unfolding if_P [OF True] by (simp add: iv_of_def)
  next
    case False
    have "chacha20_open_body C c (frame_tag h) (iv_of d rnd fin) = (Ok (length d), iv_of ?d rnd fin)"
      using chacha20_open_body_result [OF ok lens(1) n, of c d] by (simp only: if_not_P [OF False])
    from frame_with_body [OF h(1), where new = "\<lambda>b. iv_new b ?f" and r = r and
        m = "chacha20_open_body C c (frame_tag h)", OF new this]
    show ?thesis unfolding if_not_P [OF False] by (simp add: iv_of_def apply_keystream_length [OF ok])
  qed
  have start: "chacha20_decrypt C c (frame h (d @ rnd @ fin) r) =
      sbind (np_with_body (\<lambda>b. iv_new b ?f) (chacha20_open_body C c (frame_tag h)))
        (\<lambda>n. sbind (supd (np_set_encrypt_flag False)) (\<lambda>_. supd (np_set_payload_len n)))
        (frame h (d @ rnd @ fin) r)"
    using h by (simp add: chacha20_decrypt_def sbind_sget frame_simps)
  let ?m = "np_with_body (\<lambda>b. iv_new b ?f) (chacha20_open_body C c (frame_tag h))"
  show ?thesis
  proof (cases ?bad)
    case True
    show ?thesis unfolding start if_P [OF True] 
      by (rule sbind_pair(2) [where m = ?m, OF w [unfolded if_P [OF True]]])
  next
    case False
    show ?thesis
      unfolding start if_not_P [OF False] sbind_pair(1) [where m = ?m, OF w [unfolded if_not_P [OF False]]]
      using frame_finish [OF h(1), of ?d "rnd @ fin" r] by (simp only: apply_keystream_length [OF ok])
  qed
qed

lemma chacha20_decrypt_total:
  assumes ok: "stream_ok C" and h: "length h = 12"
  shows "\<exists>res h' c' s. chacha20_decrypt C c (frame h pl r) = (res, frame h' c' s) \<and> res \<noteq> Panic \<and> length h' = 12"
proof -
  let ?f = "cc_finger c \<noteq> None"
  have stay: "\<exists>res h' c' s. (Err e, frame h pl r) = (res, frame h' c' s) \<and> res \<noteq> Panic \<and> length h' = 12"
    for e :: vnt_error and pl r using h by blast
  consider "\<not> bit (h ! 0) 7" | e where "bit (h ! 0) 7" "iv_new pl ?f = Err e"
    | t where "bit (h ! 0) 7" "iv_new pl ?f = Ok t"
  proof -
    have "iv_new pl ?f \<noteq> Panic" by (simp add: iv_new_def st_make_not_panic)
    then show ?thesis using that by (cases "iv_new pl ?f"; cases "bit (h ! 0) 7") auto
  qed
  then show ?thesis
  proof cases
    case 1
    then show ?thesis using stay by (simp add: chacha20_decrypt_def sbind_sget frame_simps h)
  next
    case (2 e)
    then show ?thesis using stay [of e pl r]
      by (simp add: chacha20_decrypt_def sbind_sget frame_simps h frame_with_body_err sbind_pair)
  next
    case (3 t)
    obtain d rnd fin where b: "pl = d @ rnd @ fin" "iv_lens rnd fin" "?f \<longleftrightarrow> fin \<noteq> []"
      using iv_new_split [OF 3(2)] by metis
    obtain n where n: "gen_nonce (frame_tag h) rnd = Ok n"
      by (rule gen_nonce_total [of "frame_tag h" rnd]) (use b in \<open>simp_all add: iv_lens_def\<close>)
    have max: "length (d @ rnd @ fin) \<le> body_max" using 3(2) b(1) by (simp add: iv_new_def st_make_ok_iff)
    show ?thesis
    proof (cases "?f \<and> finger_tail C (cc_finger c) (frame_tag h) d \<noteq> fin")
      case True
      then show ?thesis
        using chacha20_decrypt_frame [OF ok h 3(1) b(2) max b(3) [symmetric] n, of r] stay [of _ "d @ rnd @ fin" r]
        by (simp only: b(1) if_True simp_thms)
    next
      case False
      then have "chacha20_decrypt C c (frame h pl r) =
          (Ok (), frame (mark False h) (apply_keystream C (cc_key c) n d) ((rnd @ fin) @ r))"
        using chacha20_decrypt_frame [OF ok h 3(1) b(2) max b(3) [symmetric] n, of r]
        by (simp only: b(1) if_False)
      then show ?thesis using h
        by - (rule exI [of _ "Ok ()"], rule exI [of _ "mark False h"], blast intro: mark_simps(1) [THEN trans])
    qed
  qed
qed

interpretation chacha20: packet_cipher "\<lambda>(C, c). sha_ok C \<and> stream_ok C"
    "\<lambda>(C, c) _. 4 + flen (cc_finger c \<noteq> None)" "\<lambda>_. body_max - 32" "\<lambda>_. True"
    "\<lambda>(C, c). chacha20_encrypt C c" "\<lambda>(C, c). chacha20_decrypt C c"
proof (unfold_locales, goal_cases)
  case (1 k h pl r e)
  obtain C c where k: "k = (C, c)" by (cases k)
  let ?n = "4 + flen (cc_finger c \<noteq> None)"
  from 1 k have ok: "sha_ok C" "stream_ok C" and max: "length pl + 32 \<le> body_max" and room: "?n \<le> length r"
    by (auto simp: reserved_defs body_max_def)
  obtain x r' where r: "r = x @ r'" "length x = ?n" using room by (rule room_split)
  obtain n where n: "gen_nonce (frame_tag h) (u32_to_be e) = Ok n"
    by (rule gen_nonce_total [of "frame_tag h" "u32_to_be e"]) simp_all
  define d where "d = apply_keystream C (cc_key c) n pl"
  define fin where "fin = finger_tail C (cc_finger c) (frame_tag h) d"
  have enc: "chacha20_encrypt C c e (frame h pl r) = (Ok (), frame (mark True h) (d @ u32_to_be e @ fin) r')"
    using chacha20_encrypt_frame [OF ok 1(2) max r(2) n] r(1) by (simp add: d_def fin_def)
  have lens: "iv_lens (u32_to_be e) fin" using finger_tail_lens(2) [OF ok(1), of "u32_to_be e"] by (simp add: fin_def)
  have fl: "length fin = flen (cc_finger c \<noteq> None)" "fin \<noteq> [] \<longleftrightarrow> cc_finger c \<noteq> None"
    unfolding fin_def by (rule finger_tail_length [OF ok(1)])+
  have len: "length (u32_to_be e @ fin) = ?n" using fl by simp
  have dl: "length d = length pl" using ok(2) by (simp add: d_def apply_keystream_length)
  have max': "length (d @ u32_to_be e @ fin) \<le> body_max" using dl max fl by (auto split: if_splits)
  have "\<exists>t. chacha20_decrypt C c (frame h' (d @ u32_to_be e @ fin) s') = (Ok (), frame (mark False h') pl t) \<and>
      length pl + length t = length (d @ u32_to_be e @ fin) + length s'" if "same_tag (mark True h) h'" for h' s'
  proof -
    from that 1(2) have h': "length h' = 12" "bit (h' ! 0) 7" and tag: "frame_tag h' = frame_tag h"
      by (simp_all add: same_tag_def)
    have "chacha20_decrypt C c (frame h' (d @ u32_to_be e @ fin) s') =
        (Ok (), frame (mark False h') pl ((u32_to_be e @ fin) @ s'))"
      using chacha20_decrypt_frame [OF ok(2) h' lens max' fl(2), of n s', unfolded tag, OF n]
        apply_keystream_twice [OF ok(2)]
      by (simp add: d_def fin_def)
    moreover have "length pl + length ((u32_to_be e @ fin) @ s') = length (d @ u32_to_be e @ fin) + length s'"
      using dl by simp
    ultimately show ?thesis by blast
  qed
  moreover have "length (d @ u32_to_be e @ fin) = length pl + ?n"
    "length (d @ u32_to_be e @ fin) + length r' = length pl + length r"
    using dl len r by simp_all
  ultimately show ?case
    by - (rule exI [of _ "d @ u32_to_be e @ fin"], rule exI [of _ r'], use enc k in simp)
next
  case (2 k h pl r)
  then show ?case using chacha20_decrypt_total by (cases k) simp
qed

end
