(* ===== verification/Block_Ciphers.thy ===== *)
theory Block_Ciphers
  imports Aead_Ciphers
begin

text \<open>
  The padded block ciphers: \<open>cipher/aes_cbc/rs_aes_cbc.rs\<close> encrypts the payload with four random
  octets behind it, \<open>cipher/aes_ecb/rs_aes_ecb.rs\<close> encrypts the whole packet, header included, into
  the payload and compares the header again after decryption.
\<close>

section \<open>AES-CBC\<close>

datatype aes_cbc_enum = AES128CBC bytes | AES256CBC bytes

record aes_cbc_cipher =
  cbc_cipher :: aes_cbc_enum
  cbc_finger_key :: "bytes option"

definition aes_cbc_new_128 :: "bytes \<Rightarrow> bytes option \<Rightarrow> aes_cbc_cipher" where
  "aes_cbc_new_128 key finger = \<lparr>cbc_cipher = AES128CBC key, cbc_finger_key = finger\<rparr>"

definition aes_cbc_new_256 :: "bytes \<Rightarrow> bytes option \<Rightarrow> aes_cbc_cipher" where
  "aes_cbc_new_256 key finger = \<lparr>cbc_cipher = AES256CBC key, cbc_finger_key = finger\<rparr>"

primrec cbc_key :: "aes_cbc_enum \<Rightarrow> bytes" where
  "cbc_key (AES128CBC key) = key"
| "cbc_key (AES256CBC key) = key"

text \<open>The vector: the header tag, then four octets of the hashed token or zeros.\<close>

definition cbc_iv :: "bytes option \<Rightarrow> bytes \<Rightarrow> bytes outcome" where
  "cbc_iv fo head_tag = (case fo of None \<Rightarrow> Ok (head_tag @ replicate 4 0)
     | Some hash \<Rightarrow> obind (slice hash 0 4) (\<lambda>x. Ok (head_tag @ x)))"

text \<open>\<open>decrypt_padded_mut\<close> works in place: also a failing call changes the data.\<close>

definition aes_cbc_open_body :: "crypto \<Rightarrow> aes_cbc_cipher \<Rightarrow> bytes \<Rightarrow> bytes \<Rightarrow> (secret_tail, nat) action" where
  "aes_cbc_open_body C c head_tag iv =
     sbind (demand_finger C (cbc_finger_key c) head_tag cbc_en_body cbc_finger ''aes_cbc finger err'') (\<lambda>_.
     sbind (sget cbc_en_body) (\<lambda>d. case c_cbc_dec C (cbc_key (cbc_cipher c)) iv d of (d', res) \<Rightarrow>
       sbind (supd (cbc_en_body_mut (\<lambda>_. Ok d'))) (\<lambda>_.
         case res of Some n \<Rightarrow> sret n | None \<Rightarrow> slift (Err (AnyError ''aes_cbc decrypt failed'')))))"

definition aes_cbc_decrypt :: "crypto \<Rightarrow> aes_cbc_cipher \<Rightarrow> (net_packet, unit) action" where
  "aes_cbc_decrypt C c = sbind (sget np_is_encrypt) (\<lambda>enc.
     if \<not> enc then slift (Err (AnyError ''not encrypt''))
     else sbind (sget np_payload) (\<lambda>pl.
     if length pl < 16 then slift (Err (AnyError ''aes_cbc data err''))
     else sbind (sget np_head_tag) (\<lambda>head_tag.
     sbind (slift (cbc_iv (cbc_finger_key c) head_tag)) (\<lambda>iv.
     sbind (np_with_body (\<lambda>b. cbc_new b (cbc_finger_key c \<noteq> None)) (aes_cbc_open_body C c head_tag iv)) (\<lambda>n.
     sbind (supd (np_set_encrypt_flag False)) (\<lambda>_.
     sbind (slift (usub (HEAD_LEN + n) 4)) (\<lambda>m. supd (np_set_data_len m))))))))"

text \<open>\<open>encrypt_padded_mut(net_packet.payload_mut(), p_len)\<close>: the ciphertext is the first octets of
  the payload afterwards.\<close>

definition aes_cbc_encrypt_payload ::
    "crypto \<Rightarrow> aes_cbc_enum \<Rightarrow> bytes \<Rightarrow> nat \<Rightarrow> (net_packet, bytes) action" where
  "aes_cbc_encrypt_payload C k iv p_len = sbind (sget np_payload) (\<lambda>pl.
     case c_cbc_enc C (cbc_key k) iv pl p_len of (pl', res) \<Rightarrow>
     sbind (supd (np_set_payload pl')) (\<lambda>_. case res of
         Some n \<Rightarrow> slift (slice pl' 0 n) | None \<Rightarrow> slift (Err (AnyError ''aes_cbc encrypt failed''))))"

definition aes_cbc_encrypt :: "crypto \<Rightarrow> aes_cbc_cipher \<Rightarrow> u32 \<Rightarrow> (net_packet, unit) action" where
  "aes_cbc_encrypt C c random = sbind (sget (\<lambda>p. Ok (np_data_len p))) (\<lambda>data_len.
     sbind (sget np_head_tag) (\<lambda>head_tag.
     sbind (slift (cbc_iv (cbc_finger_key c) head_tag)) (\<lambda>iv.
     sbind (supd (np_set_data_len (if cbc_finger_key c \<noteq> None then data_len + 16 else data_len + 4))) (\<lambda>_.
     sbind (np_with_body (\<lambda>b. cbc_new b (cbc_finger_key c \<noteq> None))
       (sbind (supd (cbc_set_random random)) (\<lambda>_. sbind (sget cbc_en_body) (\<lambda>e. sret (length e))))) (\<lambda>p_len.
     sbind (supd (\<lambda>p. Ok (np_set_data_len_max p))) (\<lambda>_.
     sbind (aes_cbc_encrypt_payload C (cbc_cipher c) iv p_len) (\<lambda>buf.
     sbind (case cbc_finger_key c of
         Some hash \<Rightarrow> (let finger = calculate_finger C hash head_tag buf in
           sbind (supd (np_set_data_len (HEAD_LEN + length buf + length finger))) (\<lambda>_.
           np_with_body (\<lambda>b. cbc_new b True) (supd (cbc_set_finger finger))))
       | None \<Rightarrow> supd (np_set_data_len (HEAD_LEN + length buf))) (\<lambda>_.
     supd (np_set_encrypt_flag True)))))))))"

section \<open>AES-ECB\<close>

datatype aes_ecb_enum = AES128ECB bytes | AES256ECB bytes

record aes_ecb_cipher =
  ecb_cipher :: aes_ecb_enum
  ecb_finger :: "bytes option"

definition aes_ecb_new_128 :: "bytes \<Rightarrow> bytes option \<Rightarrow> aes_ecb_cipher" where
  "aes_ecb_new_128 key finger = \<lparr>ecb_cipher = AES128ECB key, ecb_finger = finger\<rparr>"

definition aes_ecb_new_256 :: "bytes \<Rightarrow> bytes option \<Rightarrow> aes_ecb_cipher" where
  "aes_ecb_new_256 key finger = \<lparr>ecb_cipher = AES256ECB key, ecb_finger = finger\<rparr>"

primrec ecb_key :: "aes_ecb_enum \<Rightarrow> bytes" where
  "ecb_key (AES128ECB key) = key"
| "ecb_key (AES256ECB key) = key"

text \<open>\<open>let mut out = [0u8; 1024 * 5]\<close>\<close>

definition ecb_out_len :: nat where
  "ecb_out_len = 1024 * 5"

text \<open>The comparisons of the decrypted header with the packet's own.\<close>

definition same_header :: "net_packet \<Rightarrow> net_packet \<Rightarrow> bool outcome" where
  "same_header src p =
     obind (np_source src) (\<lambda>a. obind (np_source p) (\<lambda>b. if a \<noteq> b then Ok False else
     obind (np_destination src) (\<lambda>a. obind (np_destination p) (\<lambda>b. if a \<noteq> b then Ok False else
     obind (np_protocol src) (\<lambda>a. obind (np_protocol p) (\<lambda>b. if a \<noteq> b then Ok False else
     obind (np_transport_protocol src) (\<lambda>a. obind (np_transport_protocol p) (\<lambda>b. if a \<noteq> b then Ok False else
     obind (np_is_gateway src) (\<lambda>a. obind (np_is_gateway p) (\<lambda>b. if a \<noteq> b then Ok False else
     obind (np_source_ttl src) (\<lambda>a. obind (np_source_ttl p) (\<lambda>b. Ok (a = b)))))))))))))"

text \<open>The finger behind the payload, checked and cut off (the same lines open both \<open>decrypt_ipv4\<close> of
  AES-ECB and SM4).\<close>

definition cut_finger :: "crypto \<Rightarrow> bytes \<Rightarrow> (net_packet, unit) action" where
  "cut_finger C hash = sbind (sget np_head_tag) (\<lambda>nonce. sbind (sget np_payload) (\<lambda>pl.
     if length pl < 12 then slift (Err (AnyError ''payload len <12''))
     else (let n = length pl - 12 in
       sbind (slift (slice pl 0 n)) (\<lambda>body. sbind (slift (slice pl n (length pl))) (\<lambda>stored.
       let finger = calculate_finger C hash nonce body in
       if finger \<noteq> stored then slift (Err (AnyError ''finger err''))
       else sbind (sget (\<lambda>p. usub (np_data_len p) (length finger))) (\<lambda>m. supd (np_set_data_len m)))))))"

text \<open>\<open>decrypt_ipv4\<close> once the finger is checked and cut off.\<close>

definition aes_ecb_open :: "crypto \<Rightarrow> aes_ecb_cipher \<Rightarrow> (net_packet, unit) action" where
  "aes_ecb_open C c = sbind (sget np_payload) (\<lambda>pl.
     if length pl < 16 then slift (Err (AnyError ''data err''))
     else case c_ecb_dec C (ecb_key (ecb_cipher c)) ecb_out_len pl of
         None \<Rightarrow> slift (Err (AnyError ''aes_ecb decrypt failed''))
       | Some buf \<Rightarrow> sbind (slift (np_new buf)) (\<lambda>src.
         sbind (sget (same_header src)) (\<lambda>same.
         if \<not> same then slift (Err (AnyError ''data err''))
         else sbind (supd (np_set_data_len (length buf))) (\<lambda>_.
           sbind (slift (np_payload src)) (\<lambda>spl.
           sbind (supd (np_set_payload spl)) (\<lambda>_. supd (np_set_encrypt_flag False)))))))"

definition aes_ecb_decrypt :: "crypto \<Rightarrow> aes_ecb_cipher \<Rightarrow> (net_packet, unit) action" where
  "aes_ecb_decrypt C c = sbind (sget np_is_encrypt) (\<lambda>enc.
     if \<not> enc then slift (Err (AnyError ''not encrypt''))
     else sbind (case ecb_finger c of None \<Rightarrow> sret () | Some hash \<Rightarrow> cut_finger C hash) (\<lambda>_.
     aes_ecb_open C c))"

text \<open>\<open>net_packet.buffer_mut()[i..].copy_from_slice(src)\<close>\<close>

definition np_copy_tail :: "nat \<Rightarrow> bytes \<Rightarrow> net_packet \<Rightarrow> net_packet outcome" where
  "np_copy_tail i src p = np_on_buffer (put_slice i (np_data_len p) src) p"

definition aes_ecb_encrypt :: "crypto \<Rightarrow> aes_ecb_cipher \<Rightarrow> (net_packet, unit) action" where
  "aes_ecb_encrypt C c = sbind (sget np_buffer_part) (\<lambda>msg.
     case c_ecb_enc C (ecb_key (ecb_cipher c)) ecb_out_len msg of
       None \<Rightarrow> slift (Err (AnyError ''aes_ecb encrypt failed''))
     | Some buf \<Rightarrow> sbind (supd (np_set_data_len (HEAD_LEN + length buf))) (\<lambda>_.
         sbind (supd (np_set_payload buf)) (\<lambda>_. sbind (supd (np_set_encrypt_flag True)) (\<lambda>_.
         case ecb_finger c of None \<Rightarrow> sret ()
         | Some hash \<Rightarrow> sbind (sget np_head_tag) (\<lambda>nonce.
             let finger = calculate_finger C hash nonce buf in
             sbind (sget (\<lambda>p. Ok (np_data_len p))) (\<lambda>src_data_len.
             sbind (supd (np_set_data_len (src_data_len + length finger))) (\<lambda>_.
             supd (np_copy_tail src_data_len finger))))))))"

section \<open>SM4-CBC\<close>

record sm4_cipher =
  sm4_key :: bytes
  sm4_finger :: "bytes option"

definition sm4_new_128 :: "bytes \<Rightarrow> bytes option \<Rightarrow> sm4_cipher" where
  "sm4_new_128 key finger = \<lparr>sm4_key = key, sm4_finger = finger\<rparr>"

definition sm4_out_len :: nat where
  "sm4_out_len = 1024 * 4"

definition sm4_open :: "crypto \<Rightarrow> sm4_cipher \<Rightarrow> (net_packet, unit) action" where
  "sm4_open C c = sbind (sget np_payload) (\<lambda>payload. let len = length payload in
     if len < 16 \<or> 1024 * 4 < len then slift (Err (AnyError ''data err''))
     else sbind (slift (slice payload 0 (len - 16))) (\<lambda>data.
     sbind (slift (slice payload (len - 16) len)) (\<lambda>iv.
     case c_sm4_dec C (sm4_key c) sm4_out_len data iv of
         None \<Rightarrow> slift (Err (AnyError ''sm4_cbc decrypt failed''))
       | Some buf \<Rightarrow> sbind (slift (np_new buf)) (\<lambda>src.
         sbind (sget (same_header src)) (\<lambda>same.
         if \<not> same then slift (Err (AnyError ''data err''))
         else sbind (supd (np_set_data_len (length buf))) (\<lambda>_.
           sbind (slift (np_payload src)) (\<lambda>spl.
           sbind (supd (np_set_payload spl)) (\<lambda>_. supd (np_set_encrypt_flag False)))))))))"

definition sm4_decrypt :: "crypto \<Rightarrow> sm4_cipher \<Rightarrow> (net_packet, unit) action" where
  "sm4_decrypt C c = sbind (sget np_is_encrypt) (\<lambda>enc.
     if \<not> enc then slift (Err (AnyError ''not encrypt''))
     else sbind (case sm4_finger c of None \<Rightarrow> sret () | Some hash \<Rightarrow> cut_finger C hash) (\<lambda>_.
     sm4_open C c))"

text \<open>\<open>net_packet.payload_mut()[i..j].copy_from_slice(src)\<close>, to the end of the payload for \<open>None\<close>.\<close>

definition np_copy_payload :: "nat \<Rightarrow> nat option \<Rightarrow> bytes \<Rightarrow> net_packet \<Rightarrow> net_packet outcome" where
  "np_copy_payload i jo src p = obind (np_payload p) (\<lambda>pl.
     obind (put_slice i (case jo of Some j \<Rightarrow> j | None \<Rightarrow> length pl) src pl) (\<lambda>pl'.
     np_on_buffer (put_slice 12 (np_data_len p) pl') p))"

text \<open>\<open>iv\<close> is what \<open>fill_bytes\<close> wrote into an array of 16 octets.\<close>

definition sm4_encrypt :: "crypto \<Rightarrow> sm4_cipher \<Rightarrow> bytes \<Rightarrow> (net_packet, unit) action" where
  "sm4_encrypt C c iv = sbind (sget (\<lambda>p. Ok (np_data_len p))) (\<lambda>data_len.
     if 1024 * 4 - 32 < data_len then slift (Err (AnyError ''data err''))
     else sbind (sget np_buffer_part) (\<lambda>msg. case c_sm4_enc C (sm4_key c) sm4_out_len msg iv of
       None \<Rightarrow> slift (Err (AnyError ''sm4_cbc encrypt failed''))
     | Some out \<Rightarrow> let len = length out in
         sbind (supd (np_set_data_len (HEAD_LEN + len + 16))) (\<lambda>_.
         sbind (supd (np_copy_payload 0 (Some len) out)) (\<lambda>_.
         sbind (supd (np_copy_payload len None iv)) (\<lambda>_.
         sbind (case sm4_finger c of None \<Rightarrow> sret ()
           | Some hash \<Rightarrow> sbind (sget np_head_tag) (\<lambda>nonce. sbind (sget np_payload) (\<lambda>pl.
               let finger = calculate_finger C hash nonce pl in
               sbind (sget (\<lambda>p. Ok (np_data_len p))) (\<lambda>src_data_len.
               sbind (supd (np_set_data_len (src_data_len + length finger))) (\<lambda>_.
               supd (np_copy_tail src_data_len finger)))))) (\<lambda>_.
         supd (np_set_encrypt_flag True)))))))"

section \<open>More operations on frames\<close>

lemma frame_data_len_max [frame_simps]: "np_set_data_len_max (frame h pl r) = frame h (pl @ r) []" if "length h = 12"
  using that by (simp add: np_set_data_len_max_def frame_def)

lemma frame_set_payload [frame_simps]:
  "length h = 12 \<Longrightarrow> length v = length pl \<Longrightarrow> np_set_payload v (frame h pl r) = Ok (frame h v r)"
  by (simp add: np_set_payload_def put_slice_def frame_def)

lemma frame_set_data_len:
  "length h = 12 \<Longrightarrow> np_set_data_len n (frame h pl r) =
   (if 12 \<le> n \<and> n \<le> 12 + length pl + length r
    then Ok (frame h (take (n - 12) (pl @ r)) (drop (n - 12) (pl @ r))) else Err (IoError InvalidData))"
  by (auto simp: np_set_data_len_def frame_def min_def)

section \<open>AES-CBC is a packet cipher\<close>

definition aes_cbc_key_ok :: "aes_cbc_cipher \<Rightarrow> bool" where
  "aes_cbc_key_ok c \<longleftrightarrow> (case cbc_finger_key c of None \<Rightarrow> True | Some hash \<Rightarrow> length hash = 32)"

lemma cbc_iv_ok: "aes_cbc_key_ok c \<Longrightarrow> \<exists>iv. cbc_iv (cbc_finger_key c) tag = Ok iv"
  by (auto simp: cbc_iv_def aes_cbc_key_ok_def slice_def split: option.splits)

lemma cbc_enc_ok:
  assumes "cbc_ok C" and "padded n \<le> length b"
  obtains c b' where "c_cbc_enc C k iv b n = (c @ drop (padded n) b, Some (padded n))" and "length c = padded n"
    and "c_cbc_dec C k iv c = (take n b @ b', Some n)" and "length b' = padded n - n"
  using assms unfolding cbc_ok_def by blast

lemma cbc_dec_length:
  "cbc_ok C \<Longrightarrow> c_cbc_dec C k iv b = (b', res) \<Longrightarrow> length b' = length b \<and> (\<forall>n. res = Some n \<longrightarrow> n \<le> length b)"
  unfolding cbc_ok_def by blast

lemma padded_le: "n < padded n" "padded n \<le> n + 16" "16 \<le> padded n"
proof -
  have "n < (n div 16 + 1) * 16 \<and> (n div 16 + 1) * 16 \<le> n + 16" by presburger
  then show "n < padded n" "padded n \<le> n + 16" by (simp_all add: padded_def)
  show "16 \<le> padded n" by (simp add: padded_def)
qed

lemma cbc_new_ok:
  "flen f + 4 \<le> length b \<Longrightarrow> length b \<le> body_max \<Longrightarrow> cbc_new b f = Ok (body_of b f)"
  by (auto simp: cbc_new_def st_make_ok_iff split: if_splits)

lemma aes_cbc_encrypt_payload_frame:
  assumes "length h = 12" and "c_cbc_enc C (cbc_key k) iv pl n = (e @ s, Some m)"
    and "length (e @ s) = length pl" and "length e = m"
  shows "aes_cbc_encrypt_payload C k iv n (frame h pl r) = (Ok e, frame h (e @ s) r)"
  using assms frame_set_payload [of h "e @ s" pl r]
  by (simp add: aes_cbc_encrypt_payload_def sbind_sget frame_payload sbind_supd slice_def)

lemma aes_cbc_encrypt_frame:
  assumes ok: "sha_ok C" "cbc_ok C" "aes_cbc_key_ok c" and h: "length h = 12"
    and pl: "length pl + 32 \<le> body_max"
    and r: "padded (length pl + 4) - length pl + flen (cbc_finger_key c \<noteq> None) \<le> length r"
    and iv: "cbc_iv (cbc_finger_key c) (frame_tag h) = Ok iv"
  obtains e fin b s where
    "aes_cbc_encrypt C c w (frame h pl r) = (Ok (), frame (mark True h) (e @ fin) s)"
    and "length e + length fin + length s = length pl + length r"
    and "length fin = flen (cbc_finger_key c \<noteq> None)" and "fin = finger_tail C (cbc_finger_key c) (frame_tag h) e"
    and "c_cbc_dec C (cbc_key (cbc_cipher c)) iv e = ((pl @ u32_to_be w) @ b, Some (length pl + 4))"
    and "length e = padded (length pl + 4)" and "length pl + 4 + length b = length e"
proof -
  let ?f = "cbc_finger_key c \<noteq> None" and ?k = "cbc_key (cbc_cipher c)"
  let ?n = "length pl + 4"
  obtain rnd0 fin0 r' where x: "r = rnd0 @ fin0 @ r'" "length rnd0 = 4" "length fin0 = flen ?f"
  proof
    show "r = take 4 r @ take (flen ?f) (drop 4 r) @ drop (flen ?f) (drop 4 r)"
      by (simp only: append_take_drop_id)
    show "length (take 4 r) = 4" "length (take (flen ?f) (drop 4 r)) = flen ?f"
      using r padded_le(1) [of ?n] by auto
  qed
  have grow: "np_set_data_len (if ?f then 12 + length pl + 16 else 12 + length pl + 4) (frame h pl r) =
      Ok (frame h (pl @ rnd0 @ fin0) r')"
    using h x frame_set_data_len_grow [of h _ pl "rnd0 @ fin0" r'] by (cases ?f) (simp_all add: x)
  let ?m = "sbind (supd (cbc_set_random w)) (\<lambda>_. sbind (sget cbc_en_body) (\<lambda>e. sret (length e)))"
  have "?m (body_of (pl @ rnd0 @ fin0) ?f) = (Ok ?n, body_of (pl @ u32_to_be w @ fin0) ?f)"
    using cbc_views(3) [OF x(3,2), of w pl] cbc_views(1) [OF x(3), of "pl @ u32_to_be w"]
    by (simp add: sbind_supd sbind_sget)
  moreover have "cbc_new (pl @ rnd0 @ fin0) ?f = Ok (body_of (pl @ rnd0 @ fin0) ?f)"
    using x pl by (intro cbc_new_ok) (auto split: if_splits)
  ultimately have rand: "np_with_body (\<lambda>b. cbc_new b ?f) ?m (frame h (pl @ rnd0 @ fin0) r') =
      (Ok ?n, frame h (pl @ u32_to_be w @ fin0) r')"
    using frame_with_body [OF h, where new = "\<lambda>b. cbc_new b ?f" and m = ?m and r = r' and
        pl = "pl @ rnd0 @ fin0"] x by simp
  let ?P = "(pl @ u32_to_be w @ fin0) @ r'"
  have P: "length ?P = length pl + length r" using x by simp
  then have room: "padded ?n \<le> length ?P" using padded_le(2) [of ?n] r by simp
  obtain e b where enc: "c_cbc_enc C ?k iv ?P ?n = (e @ drop (padded ?n) ?P, Some (padded ?n))" "length e = padded ?n"
      and dec: "c_cbc_dec C ?k iv e = (take ?n ?P @ b, Some ?n)" "length b = padded ?n - ?n"
    by (rule cbc_enc_ok [OF ok(2) room])
  define S where "S = drop (padded ?n) ?P"
  have el: "length e + length S = length ?P" unfolding S_def length_drop enc(2) using room by (rule le_add_diff_inverse)
  have blk: "aes_cbc_encrypt_payload C (cbc_cipher c) iv ?n (frame h ?P []) = (Ok e, frame h (e @ S) [])"
    by (rule aes_cbc_encrypt_payload_frame [OF h enc(1) [folded S_def] _ enc(2)]) (subst length_append, rule el)
  define fin where "fin = finger_tail C (cbc_finger_key c) (frame_tag h) e"
  have fl: "length fin = flen ?f" unfolding fin_def by (rule finger_tail_length(1) [OF ok(1)])
  have e32: "length e + flen ?f \<le> length ?P" using padded_le(2) [of ?n] r P enc(2) by simp
  define s where "s = drop (length fin) S"
  let ?put = "case cbc_finger_key c of
      Some hash \<Rightarrow> (let finger = calculate_finger C hash (frame_tag h) e in
        sbind (supd (np_set_data_len (HEAD_LEN + length e + length finger))) (\<lambda>_.
        np_with_body (\<lambda>b. cbc_new b True) (supd (cbc_set_finger finger))))
    | None \<Rightarrow> supd (np_set_data_len (HEAD_LEN + length e))"
  have put: "?put (frame h (e @ S) []) = (Ok (), frame h (e @ fin) s)"
  proof (cases "cbc_finger_key c")
    case None
    then have "fin = []" by (simp add: fin_def finger_tail_def)
    then show ?thesis using None h
      by (simp add: supd_ok HEAD_LEN_def frame_set_data_len_shrink s_def)
  next
    case (Some key)
    have fin: "fin = calculate_finger C key (frame_tag h) e" "length fin = 12"
      using Some fl by (simp_all add: fin_def finger_tail_def)
    obtain y where y: "S = y @ s" "length y = 12"
    proof
      show "S = take 12 S @ s" using fin by (simp add: s_def)
      show "length (take 12 S) = 12" using e32 el Some by simp
    qed
    have "np_set_data_len (HEAD_LEN + length e + length fin) (frame h (e @ S) []) = Ok (frame h (e @ y) s)"
      using h y fin frame_set_data_len_shrink [of h "12 + (length e + 12)" "e @ y" s "[]"]
      by (simp add: HEAD_LEN_def add.assoc)
    moreover have "np_with_body (\<lambda>b. cbc_new b True) (supd (cbc_set_finger fin)) (frame h (e @ y) s) =
        (Ok (), frame h (e @ fin) s)"
    proof -
      have "supd (cbc_set_finger fin) (body_of (e @ y) True) = (Ok (), body_of (e @ fin) True)"
        using st_set_finger_split [of y fin e] y fin by (simp add: finger_views supd_ok)
      moreover have "cbc_new (e @ y) True = Ok (body_of (e @ y) True)"
        using y pl padded_le [of ?n] enc(2) by (intro cbc_new_ok) simp_all
      ultimately show ?thesis
        using frame_with_body [OF h, where new = "\<lambda>b. cbc_new b True" and m = "supd (cbc_set_finger fin)"
            and r = s and pl = "e @ y"] y fin by simp
    qed
    ultimately show ?thesis using Some fin(1) by (simp add: Let_def sbind_supd)
  qed
  have "aes_cbc_encrypt C c w (frame h pl r) = (Ok (), frame (mark True h) (e @ fin) s)"
  proof -
    have max: "sbind (supd (\<lambda>p. Ok (np_set_data_len_max p))) m (frame h (pl @ u32_to_be w @ fin0) r') =
        m () (frame h ?P [])" for m :: "unit \<Rightarrow> (net_packet, unit) action"
      using h by (simp add: sbind_supd frame_data_len_max)
    show ?thesis
      using h by (simp only: aes_cbc_encrypt_def sbind_sget frame_sel frame_head_tag iv sbind_slift sbind_supd
          grow sbind_pair(1) [where m = "np_with_body (\<lambda>b. cbc_new b ?f) ?m", OF rand] max
          sbind_pair(1) [where m = "aes_cbc_encrypt_payload C (cbc_cipher c) iv ?n", OF blk]
          sbind_pair(1) [where m = ?put, OF put] frame_mark supd_ok)
  qed
  moreover have "length e + length fin + length s = length pl + length r"
    using el P e32 fl by (auto simp: s_def split: if_splits)
  ultimately show thesis
    using that fl fin_def dec padded_le [of ?n] enc(2) by simp
qed

lemma aes_cbc_open_body_result:
  fixes tag e fin b :: bytes and c :: aes_cbc_cipher and C :: crypto
  assumes ok: "cbc_ok C" and fl: "length fin = flen (cbc_finger_key c \<noteq> None)"
    and dec: "c_cbc_dec C (cbc_key (cbc_cipher c)) iv e = (b, res)"
  defines "t \<equiv> body_of (e @ fin) (cbc_finger_key c \<noteq> None)"
    and "t' \<equiv> body_of (b @ fin) (cbc_finger_key c \<noteq> None)"
    and "bad \<equiv> cbc_finger_key c \<noteq> None \<and> finger_tail C (cbc_finger_key c) tag e \<noteq> fin"
  shows "aes_cbc_open_body C c tag iv t =
    (if bad then (Err (AnyError ''aes_cbc finger err''), t)
     else (case res of Some n \<Rightarrow> Ok n | None \<Rightarrow> Err (AnyError ''aes_cbc decrypt failed''), t'))"
proof -
  have "demand_finger C (cbc_finger_key c) tag cbc_en_body cbc_finger ''aes_cbc finger err'' t =
      (if bad then Err (AnyError ''aes_cbc finger err'') else Ok (), t)"
    unfolding t_def bad_def finger_views
    by (rule demand_finger_result, rule cbc_views(1) [OF fl], rule st_finger_split [OF fl])
  moreover have "cbc_en_body t = Ok e" unfolding t_def by (rule cbc_views(1) [OF fl])
  moreover have "cbc_en_body_mut (\<lambda>_. Ok b) t = Ok t'"
    unfolding t_def t'_def using cbc_dec_length [OF ok dec] by (intro cbc_views(2) [OF fl]) simp_all
  ultimately show ?thesis
    using dec by (cases bad; cases res) (simp_all add: aes_cbc_open_body_def sbind_pair sbind_sget sbind_supd)
qed

lemma aes_cbc_decrypt_frame:
  assumes ok: "cbc_ok C" and h: "length h = 12" "bit (h ! 0) 7"
    and iv: "cbc_iv (cbc_finger_key c) (frame_tag h) = Ok iv"
    and fl: "length fin = flen (cbc_finger_key c \<noteq> None)" and len: "16 \<le> length (e @ fin)" "length (e @ fin) \<le> body_max"
    and dec: "c_cbc_dec C (cbc_key (cbc_cipher c)) iv e = (b, res)"
  shows "aes_cbc_decrypt C c (frame h (e @ fin) r) =
    (if cbc_finger_key c \<noteq> None \<and> finger_tail C (cbc_finger_key c) (frame_tag h) e \<noteq> fin
     then (Err (AnyError ''aes_cbc finger err''), frame h (e @ fin) r)
     else case res of None \<Rightarrow> (Err (AnyError ''aes_cbc decrypt failed''), frame h (b @ fin) r)
       | Some n \<Rightarrow> if n < 4 then (Err (IoError InvalidData), frame (mark False h) (b @ fin) r)
           else (Ok (), frame (mark False h) (take (n - 4) b) (drop (n - 4) b @ fin @ r)))"
proof -
  let ?f = "cbc_finger_key c \<noteq> None"
  let ?bad = "?f \<and> finger_tail C (cbc_finger_key c) (frame_tag h) e \<noteq> fin"
  let ?m = "aes_cbc_open_body C c (frame_tag h) iv"
  have bl: "length b = length e" "\<And>n. res = Some n \<Longrightarrow> n \<le> length e"
    using cbc_dec_length [OF ok dec] by auto
  have new: "cbc_new (e @ fin) ?f = Ok (body_of (e @ fin) ?f)"
    using len by (simp add: cbc_new_def st_make_ok)
  note res = aes_cbc_open_body_result [OF ok fl dec, of "frame_tag h"]
  let ?rest = "\<lambda>n. sbind (supd (np_set_encrypt_flag False)) (\<lambda>_.
     sbind (slift (usub (HEAD_LEN + n) 4)) (\<lambda>m. supd (np_set_data_len m)))"
  have start: "aes_cbc_decrypt C c (frame h (e @ fin) r) =
      sbind (np_with_body (\<lambda>b. cbc_new b ?f) ?m) ?rest (frame h (e @ fin) r)"
    using h len(1) iv by (simp add: aes_cbc_decrypt_def sbind_sget frame_simps)
  have body: "np_with_body (\<lambda>b. cbc_new b ?f) ?m (frame h (e @ fin) r) = (o1, frame h (st_buffer t') r)"
    if "?m (body_of (e @ fin) ?f) = (o1, t')" "length (st_buffer t') = length (e @ fin)" for o1 t'
    using frame_with_body [OF h(1), where new = "\<lambda>b. cbc_new b ?f" and m = ?m and r = r, OF new that] .
  show ?thesis
  proof (cases ?bad)
    case True
    have "np_with_body (\<lambda>b. cbc_new b ?f) ?m (frame h (e @ fin) r) =
        (Err (AnyError ''aes_cbc finger err''), frame h (e @ fin) r)"
      using body [OF res [unfolded if_P [OF True]]] by simp
    then show ?thesis unfolding start if_P [OF True] by (simp only: sbind_pair(2))
  next
    case False
    note w = body [OF res [unfolded if_not_P [OF False]]]
    show ?thesis unfolding start if_not_P [OF False]
    proof (cases res)
      case None
      then show "sbind (np_with_body (\<lambda>b. cbc_new b ?f) ?m) ?rest (frame h (e @ fin) r) = (case res of
          None \<Rightarrow> (Err (AnyError ''aes_cbc decrypt failed''), frame h (b @ fin) r)
       | Some n \<Rightarrow> if n < 4 then (Err (IoError InvalidData), frame (mark False h) (b @ fin) r)
           else (Ok (), frame (mark False h) (take (n - 4) b) (drop (n - 4) b @ fin @ r)))"
        using w bl by (simp add: sbind_pair(2))
    next
      case (Some n)
      have n: "n \<le> length b" using bl Some by simp
      have "np_with_body (\<lambda>b. cbc_new b ?f) ?m (frame h (e @ fin) r) = (Ok n, frame h (b @ fin) r)"
        using w Some bl by simp
      then have "sbind (np_with_body (\<lambda>b. cbc_new b ?f) ?m) ?rest (frame h (e @ fin) r) =
          supd (np_set_data_len (8 + n)) (frame (mark False h) (b @ fin) r)"
        using h by (simp only: sbind_pair(1) sbind_supd frame_mark) (simp add: HEAD_LEN_def)
      then show "sbind (np_with_body (\<lambda>b. cbc_new b ?f) ?m) ?rest (frame h (e @ fin) r) = (case res of
          None \<Rightarrow> (Err (AnyError ''aes_cbc decrypt failed''), frame h (b @ fin) r)
       | Some n \<Rightarrow> if n < 4 then (Err (IoError InvalidData), frame (mark False h) (b @ fin) r)
           else (Ok (), frame (mark False h) (take (n - 4) b) (drop (n - 4) b @ fin @ r)))"
        using Some n h by (auto simp: supd_def frame_set_data_len)
    qed
  qed
qed

lemma aes_cbc_decrypt_total:
  assumes ok: "cbc_ok C" and key: "aes_cbc_key_ok c" and h: "length h = 12"
  shows "\<exists>res h' c' s. aes_cbc_decrypt C c (frame h pl r) = (res, frame h' c' s) \<and> res \<noteq> Panic \<and> length h' = 12"
proof -
  let ?f = "cbc_finger_key c \<noteq> None"
  obtain iv where iv: "cbc_iv (cbc_finger_key c) (frame_tag h) = Ok iv" using cbc_iv_ok [OF key] by blast
  have stay: "\<exists>res h' c' s. (Err e, frame h1 pl r) = (res, frame h' c' s) \<and> res \<noteq> Panic \<and> length h' = 12"
    if "length h1 = 12" for e :: vnt_error and h1 pl r using that by blast
  have fine: "\<exists>res h' c' s. (Ok (), frame h1 pl r) = (res, frame h' c' s) \<and> res \<noteq> Panic \<and> length h' = 12"
    if "length h1 = 12" for h1 pl r using that by blast
  consider "\<not> bit (h ! 0) 7" | "bit (h ! 0) 7" "length pl < 16"
    | "bit (h ! 0) 7" "16 \<le> length pl" "body_max < length pl"
    | "bit (h ! 0) 7" "16 \<le> length pl" "length pl \<le> body_max" by linarith
  then show ?thesis
  proof cases
    case 1
    then show ?thesis using stay [OF h] by (simp add: aes_cbc_decrypt_def sbind_sget frame_simps h)
  next
    case 2
    then show ?thesis using stay [OF h] by (simp add: aes_cbc_decrypt_def sbind_sget frame_simps h)
  next
    case 3
    then have "cbc_new pl ?f = Err (IoError InvalidData)" by (simp add: cbc_new_def st_make_def)
    then have "aes_cbc_decrypt C c (frame h pl r) = (Err (IoError InvalidData), frame h pl r)"
      using 3 iv h by (simp add: aes_cbc_decrypt_def sbind_sget frame_simps frame_with_body_err sbind_pair)
    then show ?thesis using stay [OF h] by simp
  next
    case 4
    then have "flen ?f \<le> length pl" by simp
    then obtain e fin where b: "pl = e @ fin" "length fin = flen ?f" by (rule split_last_n)
    obtain d res where dec: "c_cbc_dec C (cbc_key (cbc_cipher c)) iv e = (d, res)" by fastforce
    show ?thesis
      using aes_cbc_decrypt_frame [OF ok h 4(1) iv b(2) _ _ dec, of r] 4 stay fine h
      by (simp add: b(1) split: option.splits if_splits)
  qed
qed

interpretation aes_cbc: packet_cipher "\<lambda>(C, c). sha_ok C \<and> cbc_ok C \<and> aes_cbc_key_ok c"
    "\<lambda>(C, c) n. padded (n + 4) - n + flen (cbc_finger_key c \<noteq> None)"
    "\<lambda>_. body_max - 32" "\<lambda>_. True" "\<lambda>(C, c). aes_cbc_encrypt C c" "\<lambda>(C, c). aes_cbc_decrypt C c"
proof (unfold_locales, goal_cases)
  case (1 k h pl r w)
  obtain C c where k: "k = (C, c)" by (cases k)
  from 1 k have ok: "sha_ok C" "cbc_ok C" "aes_cbc_key_ok c" and max: "length pl + 32 \<le> body_max"
    and room: "padded (length pl + 4) - length pl + flen (cbc_finger_key c \<noteq> None) \<le> length r"
    by (auto simp: body_max_def)
  obtain iv where iv: "cbc_iv (cbc_finger_key c) (frame_tag h) = Ok iv" using cbc_iv_ok [OF ok(3)] by blast
  obtain e fin b s where
    enc: "aes_cbc_encrypt C c w (frame h pl r) = (Ok (), frame (mark True h) (e @ fin) s)"
    and len: "length e + length fin + length s = length pl + length r"
    and fl: "length fin = flen (cbc_finger_key c \<noteq> None)" and fin: "fin = finger_tail C (cbc_finger_key c) (frame_tag h) e"
    and dec: "c_cbc_dec C (cbc_key (cbc_cipher c)) iv e = ((pl @ u32_to_be w) @ b, Some (length pl + 4))"
    and pad: "length e = padded (length pl + 4)" and eb: "length pl + 4 + length b = length e"
    by (rule aes_cbc_encrypt_frame [OF ok 1(2) max room iv])
  note el = padded_le(3,2) [of "length pl + 4", folded pad] eb
  have "\<exists>t. aes_cbc_decrypt C c (frame h' (e @ fin) s') = (Ok (), frame (mark False h') pl t) \<and>
      length pl + length t = length (e @ fin) + length s'" if "same_tag (mark True h) h'" for h' s'
  proof -
    from that 1(2) have h': "length h' = 12" "bit (h' ! 0) 7" and tag: "frame_tag h' = frame_tag h"
      by (simp_all add: same_tag_def)
    have fl': "length fin \<le> 12" using fl by simp
    have "aes_cbc_decrypt C c (frame h' (e @ fin) s') = (Ok (), frame (mark False h') pl (u32_to_be w @ b @ fin @ s'))"
      using aes_cbc_decrypt_frame [OF ok(2) h', of c iv, unfolded tag, OF iv fl _ _ dec, of s'] fin el fl' max
      by simp
    moreover have "length pl + length (u32_to_be w @ b @ fin @ s') = length (e @ fin) + length s'" using el by simp
    ultimately show ?thesis by blast
  qed
  moreover have "length (e @ fin) = length pl + (padded (length pl + 4) - length pl + flen (cbc_finger_key c \<noteq> None))"
    using fl el(3) unfolding pad [symmetric] by simp
  ultimately show ?case
    by - (rule exI [of _ "e @ fin"], rule exI [of _ s], use enc k len in simp)
next
  case (2 k h pl r)
  then show ?case using aes_cbc_decrypt_total by (cases k) simp
qed

section \<open>AES-ECB is a packet cipher\<close>

lemma ecb_enc_ok:
  assumes "ecb_ok C" and "padded (length b) \<le> n"
  obtains c where "c_ecb_enc C k n b = Some c" and "length c = padded (length b)" and "c_ecb_dec C k n c = Some b"
  using assms unfolding ecb_ok_def by blast

lemma ecb_dec_length: "ecb_ok C \<Longrightarrow> c_ecb_dec C k n c = Some d \<Longrightarrow> length d \<le> length c"
  unfolding ecb_ok_def by blast

lemma u32_be_inject: "u32_be a b c d = u32_be a' b' c' d' \<longleftrightarrow> [a, b, c, d] = [a', b', c', d']"
  by (auto dest: arg_cong [where f = u32_to_be])

lemma same_header_frame:
  assumes "length h = 12" and "length h' = 12"
  shows "same_header (frame h a r) (frame h' a' r') = Ok (frame_tag h = frame_tag h')"
proof -
  have b: "np_source (frame x a r) = Ok (u32_be (x ! 4) (x ! 5) (x ! 6) (x ! 7))"
    "np_destination (frame x a r) = Ok (u32_be (x ! 8) (x ! 9) (x ! 10) (x ! 11))"
    "np_protocol (frame x a r) = Ok (protocol_from (x ! 1))"
    "np_transport_protocol (frame x a r) = Ok (x ! 2)"
    "np_is_gateway (frame x a r) = Ok (bit (x ! 0) 6)"
    "np_source_ttl (frame x a r) = Ok (drop_bit 4 (x ! 3))" if "length x = 12" for x a r
    using that
    by (simp_all add: np_source_def np_destination_def get_u32_ok np_protocol_def np_transport_protocol_def
        np_is_gateway_def np_source_ttl_def byte_at_def nth_append u8_eq_iff bit_simps)
  show ?thesis
    by (simp add: same_header_def b assms u32_be_inject protocol.dec_inject frame_tag_def)
      (auto split: if_splits)
qed

lemma frame_copy_tail:
  "length h = 12 \<Longrightarrow> length y = length f \<Longrightarrow>
   np_copy_tail (12 + length c) f (frame h (c @ y) s) = Ok (frame h (c @ f) s)"
  by (simp add: np_copy_tail_def np_on_buffer_def put_slice_def frame_def)

lemma cut_finger_frame:
  assumes ok: "sha_ok C" and h: "length h = 12" and fin: "length fin = 12"
  shows "cut_finger C k (frame h (e @ fin) r) =
    (if calculate_finger C k (frame_tag h) e \<noteq> fin then (Err (AnyError ''finger err''), frame h (e @ fin) r)
     else (Ok (), frame h e (fin @ r)))"
  using h fin length_calculate_finger [OF ok, of k "frame_tag h" e]
  by (simp add: cut_finger_def sbind_sget frame_simps slice_def Let_def supd_ok
      frame_set_data_len_shrink)

lemma aes_ecb_encrypt_frame:
  assumes ok: "sha_ok C" "ecb_ok C" and h: "length h = 12"
    and pl: "length pl \<le> 4096"
    and r: "padded (length pl + 12) - length pl + flen (ecb_finger c \<noteq> None) \<le> length r"
  obtains e fin s where
    "aes_ecb_encrypt C c (frame h pl r) = (Ok (), frame (mark True h) (e @ fin) s)"
    and "length e + length fin + length s = length pl + length r"
    and "length fin = flen (ecb_finger c \<noteq> None)" and "fin = finger_tail C (ecb_finger c) (frame_tag h) e"
    and "c_ecb_dec C (ecb_key (ecb_cipher c)) ecb_out_len e = Some (h @ pl)"
    and "length e = padded (length pl + 12)"
proof -
  let ?n = "length (h @ pl)"
  have room: "padded ?n \<le> ecb_out_len" using padded_le(2) [of ?n] pl h by (simp add: ecb_out_len_def)
  obtain e where enc: "c_ecb_enc C (ecb_key (ecb_cipher c)) ecb_out_len (h @ pl) = Some e" "length e = padded ?n"
      and dec: "c_ecb_dec C (ecb_key (ecb_cipher c)) ecb_out_len e = Some (h @ pl)"
    by (rule ecb_enc_ok [OF ok(2) room])
  have ne: "length e = padded (length pl + 12)" using enc(2) h by (simp add: add.commute)
  have el: "?n < length e" "length e \<le> ?n + 16" "16 \<le> length e" using padded_le [of ?n] enc(2) by simp_all
  obtain x y s where x: "r = x @ y @ s" "length x = length e - length pl" "length y = flen (ecb_finger c \<noteq> None)"
  proof
    let ?m = "length e - length pl" and ?f = "flen (ecb_finger c \<noteq> None)"
    show "r = take ?m r @ take ?f (drop ?m r) @ drop ?f (drop ?m r)" by (simp only: append_take_drop_id)
    show "length (take ?m r) = ?m" "length (take ?f (drop ?m r)) = ?f"
      using r [folded ne] el h by auto
  qed
  define fin where "fin = finger_tail C (ecb_finger c) (frame_tag h) e"
  have fl: "length fin = flen (ecb_finger c \<noteq> None)" unfolding fin_def by (rule finger_tail_length(1) [OF ok(1)])
  have grow: "np_set_data_len (HEAD_LEN + length e) (frame h pl r) = Ok (frame h (pl @ x) (y @ s))"
    using x el h frame_set_data_len_grow [of h "HEAD_LEN + length e" pl x "y @ s"] by (simp add: HEAD_LEN_def)
  have put: "np_set_payload e (frame h (pl @ x) (y @ s)) = Ok (frame h e (y @ s))"
    using x el h by (intro frame_set_payload) simp_all
  have mid: "aes_ecb_encrypt C c (frame h pl r) = (case ecb_finger c of None \<Rightarrow> sret ()
      | Some hash \<Rightarrow> sbind (sget np_head_tag) (\<lambda>nonce.
          let finger = calculate_finger C hash nonce e in
          sbind (sget (\<lambda>p. Ok (np_data_len p))) (\<lambda>src_data_len.
          sbind (supd (np_set_data_len (src_data_len + length finger))) (\<lambda>_.
          supd (np_copy_tail src_data_len finger))))) (frame (mark True h) e (y @ s))"
    using h by (simp add: aes_ecb_encrypt_def sbind_sget frame_buffer_part enc(1) sbind_supd grow put frame_mark)
  have "aes_ecb_encrypt C c (frame h pl r) = (Ok (), frame (mark True h) (e @ fin) s)"
  proof (cases "ecb_finger c")
    case None
    then show ?thesis using mid fl x by simp
  next
    case (Some k)
    have fin: "fin = calculate_finger C k (frame_tag h) e" "length fin = 12" "length y = 12"
      using Some fl x(3) by (simp_all add: fin_def finger_tail_def)
    have "np_set_data_len (12 + length e + length fin) (frame (mark True h) e (y @ s)) =
        Ok (frame (mark True h) (e @ y) s)"
      using h fin by (intro frame_set_data_len_grow) simp_all
    moreover have "np_copy_tail (12 + length e) fin (frame (mark True h) (e @ y) s) =
        Ok (frame (mark True h) (e @ fin) s)"
      using h fin by (intro frame_copy_tail) simp_all
    ultimately show ?thesis
      using mid Some fin(1) h by (simp add: sbind_sget frame_head_tag Let_def sbind_supd supd_ok)
  qed
  moreover have "length e + length fin + length s = length pl + length r" using fl x el by simp
  ultimately show thesis using that fl fin_def dec enc(2) h by (simp add: add.commute)
qed

lemma aes_ecb_open_frame:
  assumes ok: "ecb_ok C" and h: "length h = 12" and len: "16 \<le> length e"
    and dec: "c_ecb_dec C (ecb_key (ecb_cipher c)) ecb_out_len e = Some (h2 @ pl)" and h2: "length h2 = 12"
  shows "aes_ecb_open C c (frame h e r) =
    (if frame_tag h2 = frame_tag h then (Ok (), frame (mark False h) pl (drop (length pl) e @ r))
     else (Err (AnyError ''data err''), frame h e r))"
proof -
  have "length (h2 @ pl) \<le> length e" using ecb_dec_length [OF ok dec] .
  then have l: "length pl \<le> length e" by simp
  have "np_set_data_len (length (h2 @ pl)) (frame h e r) =
      Ok (frame h (take (length pl) e) (drop (length pl) e @ r))"
    using h h2 l by (simp add: frame_set_data_len)
  moreover have "np_new (h2 @ pl) = Ok (frame h2 pl [])"
    using h2 by (simp add: np_new_def np_new0_def frame_def)
  ultimately show ?thesis
    using h h2 len dec l
    by (simp add: aes_ecb_open_def sbind_sget frame_payload same_header_frame sbind_supd frame_set_payload
        frame_mark supd_ok)
qed

lemma aes_ecb_open_total:
  assumes ok: "ecb_ok C" and h: "length h = 12"
  shows "\<exists>res h' c' s. aes_ecb_open C c (frame h e r) = (res, frame h' c' s) \<and> res \<noteq> Panic \<and> length h' = 12"
proof -
  have stay: "\<exists>res h' c' s. (Err x, frame h e r) = (res, frame h' c' s) \<and> res \<noteq> Panic \<and> length h' = 12"
    for x :: vnt_error using h by blast
  have fine: "\<exists>res h' c' s. (Ok (), frame (mark False h) a b) = (res, frame h' c' s) \<and> res \<noteq> Panic \<and> length h' = 12"
    for a b by (intro exI conjI, rule refl) (use h in simp_all)
  consider "length e < 16" | "16 \<le> length e" "c_ecb_dec C (ecb_key (ecb_cipher c)) ecb_out_len e = None"
    | d where "16 \<le> length e" "c_ecb_dec C (ecb_key (ecb_cipher c)) ecb_out_len e = Some d"
    by (cases "c_ecb_dec C (ecb_key (ecb_cipher c)) ecb_out_len e") (auto simp: not_less [symmetric])
  then show ?thesis
  proof cases
    case (3 d)
    show ?thesis
    proof (cases "length d < 12")
      case True
      then have "np_new d = Err (IoError InvalidData)" by (simp add: np_new_def np_new0_def)
      then show ?thesis using 3 h stay by (simp add: aes_ecb_open_def sbind_sget frame_payload)
    next
      case False
      then have "d = take 12 d @ drop 12 d" "length (take 12 d) = 12" by simp_all
      then show ?thesis
        using aes_ecb_open_frame [OF ok h 3(1), of c "take 12 d" "drop 12 d" r] 3 stay fine by simp
    qed
  qed (use h stay in \<open>simp_all add: aes_ecb_open_def sbind_sget frame_payload\<close>)
qed

lemma cut_finger_total:
  assumes ok: "sha_ok C" and h: "length h = 12"
  shows "(\<exists>x. cut_finger C k (frame h pl r) = (Err x, frame h pl r)) \<or>
    (\<exists>e s. cut_finger C k (frame h pl r) = (Ok (), frame h e s))"
proof (cases "length pl < 12")
  case True
  then have "cut_finger C k (frame h pl r) = (Err (AnyError ''payload len <12''), frame h pl r)"
    using h by (simp add: cut_finger_def sbind_sget frame_simps)
  then show ?thesis by blast
next
  case False
  then have "12 \<le> length pl" by simp
  then obtain e fin where b: "pl = e @ fin" "length fin = 12" by (rule split_last_n)
  show ?thesis
    using cut_finger_frame [OF ok h b(2), of k e r] b(1) by (cases "calculate_finger C k (frame_tag h) e = fin") auto
qed

lemma aes_ecb_decrypt_total:
  assumes ok: "sha_ok C" "ecb_ok C" and h: "length h = 12"
  shows "\<exists>res h' c' s. aes_ecb_decrypt C c (frame h pl r) = (res, frame h' c' s) \<and> res \<noteq> Panic \<and> length h' = 12"
proof -
  have stay: "\<exists>res h' c' s. (Err x, frame h a b) = (res, frame h' c' s) \<and> res \<noteq> Panic \<and> length h' = 12"
    for x :: vnt_error and a b using h by blast
  show ?thesis
  proof (cases "bit (h ! 0) 7")
    case False
    then show ?thesis using stay h by (simp add: aes_ecb_decrypt_def sbind_sget frame_simps)
  next
    case bit: True
    show ?thesis
    proof (cases "ecb_finger c")
      case None
      then show ?thesis using bit h aes_ecb_open_total [OF ok(2) h, of c pl r]
        by (simp add: aes_ecb_decrypt_def sbind_sget frame_simps sbind_pair)
    next
      case (Some k)
      then show ?thesis using cut_finger_total [OF ok(1) h, of k pl r] bit h stay aes_ecb_open_total [OF ok(2) h]
        by (elim disjE exE) (simp_all add: aes_ecb_decrypt_def sbind_sget frame_simps sbind_pair)
    qed
  qed
qed

interpretation aes_ecb: packet_cipher "\<lambda>(C, c). sha_ok C \<and> ecb_ok C"
    "\<lambda>(C, c) n. padded (n + 12) - n + flen (ecb_finger c \<noteq> None)"
    "\<lambda>_. 4096" "\<lambda>_. True" "\<lambda>(C, c) _. aes_ecb_encrypt C c" "\<lambda>(C, c). aes_ecb_decrypt C c"
proof (unfold_locales, goal_cases)
  case (1 k h pl r w)
  obtain C c where k: "k = (C, c)" by (cases k)
  from 1 k have ok: "sha_ok C" "ecb_ok C" and max: "length pl \<le> 4096"
    and room: "padded (length pl + 12) - length pl + flen (ecb_finger c \<noteq> None) \<le> length r" by auto
  obtain e fin s where
    enc: "aes_ecb_encrypt C c (frame h pl r) = (Ok (), frame (mark True h) (e @ fin) s)"
    and len: "length e + length fin + length s = length pl + length r"
    and fl: "length fin = flen (ecb_finger c \<noteq> None)" and fin: "fin = finger_tail C (ecb_finger c) (frame_tag h) e"
    and dec: "c_ecb_dec C (ecb_key (ecb_cipher c)) ecb_out_len e = Some (h @ pl)"
    and pad: "length e = padded (length pl + 12)"
    by (rule aes_ecb_encrypt_frame [OF ok 1(2) max room])
  note el = padded_le(3) [of "length pl + 12", folded pad] less_imp_le [OF padded_le(1) [of "length pl + 12", folded pad]]
  have "\<exists>t. aes_ecb_decrypt C c (frame h' (e @ fin) s') = (Ok (), frame (mark False h') pl t) \<and>
      length pl + length t = length (e @ fin) + length s'" if "same_tag (mark True h) h'" for h' s'
  proof -
    from that 1(2) have h': "length h' = 12" "bit (h' ! 0) 7" and tag: "frame_tag h' = frame_tag h"
      by (simp_all add: same_tag_def)
    have op: "aes_ecb_open C c (frame h' e (fin @ s')) =
        (Ok (), frame (mark False h') pl (drop (length pl) e @ fin @ s'))"
      using aes_ecb_open_frame [OF ok(2) h'(1) el(1) dec 1(2)] tag by simp
    have "aes_ecb_decrypt C c (frame h' (e @ fin) s') =
        (Ok (), frame (mark False h') pl (drop (length pl) e @ fin @ s'))"
    proof (cases "ecb_finger c")
      case None
      then show ?thesis using op h' fl by (simp add: aes_ecb_decrypt_def sbind_sget frame_simps sbind_pair)
    next
      case (Some x)
      then have "fin = calculate_finger C x (frame_tag h') e" "length fin = 12"
        using fin fl tag by (simp_all add: finger_tail_def)
      then show ?thesis using op h' Some cut_finger_frame [OF ok(1) h'(1), of fin x e s']
        by (simp add: aes_ecb_decrypt_def sbind_sget frame_simps sbind_pair)
    qed
    moreover have "length pl + length (drop (length pl) e @ fin @ s') = length (e @ fin) + length s'" using el by simp
    ultimately show ?thesis by blast
  qed
  moreover have "length (e @ fin) = length pl + (padded (length pl + 12) - length pl + flen (ecb_finger c \<noteq> None))"
    using fl el(2) unfolding pad [symmetric] by simp
  ultimately show ?case
    by - (rule exI [of _ "e @ fin"], rule exI [of _ s], use enc k len in simp)
next
  case (2 k h pl r)
  then show ?case using aes_ecb_decrypt_total by (cases k) simp
qed

section \<open>SM4-CBC is a packet cipher\<close>

lemma sm4_enc_ok:
  assumes "sm4_ok C" and "padded (length b) \<le> n"
  obtains c where "c_sm4_enc C k n b iv = Some c" and "length c = padded (length b)" and "c_sm4_dec C k n c iv = Some b"
  using assms unfolding sm4_ok_def by blast

lemma sm4_dec_length: "sm4_ok C \<Longrightarrow> c_sm4_dec C k n c iv = Some d \<Longrightarrow> length d \<le> length c"
  unfolding sm4_ok_def by blast

lemma frame_copy_payload:
  assumes "length h = 12"
  shows "length out = length x \<Longrightarrow>
      np_copy_payload 0 (Some (length out)) out (frame h (x @ y) r) = Ok (frame h (out @ y) r)"
    and "length iv = length y \<Longrightarrow>
      np_copy_payload (length x) None iv (frame h (x @ y) r) = Ok (frame h (x @ iv) r)"
  using assms
  by (simp_all add: np_copy_payload_def frame_payload np_on_buffer_def put_slice_def
      frame_def [where pl = "out @ y"] frame_def [where pl = "x @ iv"])

lemma sm4_encrypt_frame:
  assumes ok: "sha_ok C" "sm4_ok C" and h: "length h = 12" and iv: "length iv = 16"
    and pl: "length pl \<le> 4000"
    and r: "padded (length pl + 12) + 16 - length pl + flen (sm4_finger c \<noteq> None) \<le> length r"
  obtains e fin s where
    "sm4_encrypt C c iv (frame h pl r) = (Ok (), frame (mark True h) ((e @ iv) @ fin) s)"
    and "length e + 16 + length fin + length s = length pl + length r"
    and "length fin = flen (sm4_finger c \<noteq> None)" and "fin = finger_tail C (sm4_finger c) (frame_tag h) (e @ iv)"
    and "c_sm4_dec C (sm4_key c) sm4_out_len e iv = Some (h @ pl)"
    and "length e = padded (length pl + 12)"
proof -
  let ?n = "length (h @ pl)"
  have room: "padded ?n \<le> sm4_out_len" using padded_le(2) [of ?n] pl h by (simp add: sm4_out_len_def)
  obtain e where enc: "c_sm4_enc C (sm4_key c) sm4_out_len (h @ pl) iv = Some e" "length e = padded ?n"
      and dec: "c_sm4_dec C (sm4_key c) sm4_out_len e iv = Some (h @ pl)"
    by (rule sm4_enc_ok [OF ok(2) room])
  have ne: "length e = padded (length pl + 12)" using enc(2) h by (simp add: add.commute)
  have el: "?n < length e" "length e \<le> ?n + 16" using padded_le [of ?n] enc(2) by simp_all
  obtain x z y s where x: "r = x @ z @ y @ s" "length x = length e - length pl" "length z = 16"
      "length y = flen (sm4_finger c \<noteq> None)"
  proof
    let ?m = "length e - length pl" and ?f = "flen (sm4_finger c \<noteq> None)"
    show "r = take ?m r @ take 16 (drop ?m r) @ take ?f (drop 16 (drop ?m r)) @ drop ?f (drop 16 (drop ?m r))"
      by (simp only: append_take_drop_id)
    show "length (take ?m r) = ?m" "length (take 16 (drop ?m r)) = 16"
      "length (take ?f (drop 16 (drop ?m r))) = ?f" using r [folded ne] el h by auto
  qed
  define fin where "fin = finger_tail C (sm4_finger c) (frame_tag h) (e @ iv)"
  have fl: "length fin = flen (sm4_finger c \<noteq> None)" unfolding fin_def by (rule finger_tail_length(1) [OF ok(1)])
  have grow: "np_set_data_len (HEAD_LEN + length e + 16) (frame h pl r) = Ok (frame h ((pl @ x) @ z) (y @ s))"
    using x el h frame_set_data_len_grow [of h "HEAD_LEN + length e + 16" pl "x @ z" "y @ s"]
    by (simp add: HEAD_LEN_def)
  have "length e = length (pl @ x)" using x el h by simp
  then have put: "np_copy_payload 0 (Some (length e)) e (frame h ((pl @ x) @ z) (y @ s)) = Ok (frame h (e @ z) (y @ s))"
    by (rule frame_copy_payload(1) [OF h])
  have put2: "np_copy_payload (length e) None iv (frame h (e @ z) (y @ s)) = Ok (frame h (e @ iv) (y @ s))"
    using x(3) iv by (intro frame_copy_payload(2) [OF h]) simp
  let ?put = "case sm4_finger c of None \<Rightarrow> sret ()
      | Some hash \<Rightarrow> sbind (sget np_head_tag) (\<lambda>nonce. sbind (sget np_payload) (\<lambda>pl.
          let finger = calculate_finger C hash nonce pl in
          sbind (sget (\<lambda>p. Ok (np_data_len p))) (\<lambda>src_data_len.
          sbind (supd (np_set_data_len (src_data_len + length finger))) (\<lambda>_.
          supd (np_copy_tail src_data_len finger)))))"
  have fput: "?put (frame h (e @ iv) (y @ s)) = (Ok (), frame h ((e @ iv) @ fin) s)"
  proof (cases "sm4_finger c")
    case None
    then show ?thesis using fl x by simp
  next
    case (Some k)
    have fin: "fin = calculate_finger C k (frame_tag h) (e @ iv)" "length fin = 12" "length y = 12"
      using Some fl x(4) by (simp_all add: fin_def finger_tail_def)
    have "np_set_data_len (12 + length (e @ iv) + length fin) (frame h (e @ iv) (y @ s)) =
        Ok (frame h ((e @ iv) @ y) s)"
      using h fin by (intro frame_set_data_len_grow) simp_all
    moreover have "np_copy_tail (12 + length (e @ iv)) fin (frame h ((e @ iv) @ y) s) =
        Ok (frame h ((e @ iv) @ fin) s)"
      using h fin by (intro frame_copy_tail) simp_all
    ultimately show ?thesis
      using Some fin(1) h by (simp add: sbind_sget frame_head_tag frame_payload Let_def sbind_supd supd_ok)
  qed
  have "\<not> 1024 * 4 - 32 < np_data_len (frame h pl r)" using pl by simp
  then have start: "sm4_encrypt C c iv (frame h pl r) =
      sbind ?put (\<lambda>_. supd (np_set_encrypt_flag True)) (frame h (e @ iv) (y @ s))"
    using h by (simp only: sm4_encrypt_def sbind_sget frame_buffer_part enc(1) option.case Let_def sbind_supd
        grow put put2 if_False)
  have "sm4_encrypt C c iv (frame h pl r) = (Ok (), frame (mark True h) ((e @ iv) @ fin) s)"
    unfolding start sbind_pair(1) [where m = ?put, OF fput] using h by (simp only: frame_mark supd_ok)
  moreover have "length e + 16 + length fin + length s = length pl + length r" using fl x el by simp
  ultimately show thesis using that fl fin_def dec enc(2) h by (simp add: add.commute)
qed

lemma sm4_open_frame:
  assumes ok: "sm4_ok C" and h: "length h = 12" and iv: "length iv = 16" and len: "length e + 16 \<le> 4096"
    and dec: "c_sm4_dec C (sm4_key c) sm4_out_len e iv = Some (h2 @ pl)" and h2: "length h2 = 12"
  shows "sm4_open C c (frame h (e @ iv) r) =
    (if frame_tag h2 = frame_tag h then (Ok (), frame (mark False h) pl (drop (length pl) (e @ iv) @ r))
     else (Err (AnyError ''data err''), frame h (e @ iv) r))"
proof -
  have "length (h2 @ pl) \<le> length e" using sm4_dec_length [OF ok dec] .
  then have l: "length pl \<le> length (e @ iv)" by simp
  have "np_set_data_len (length (h2 @ pl)) (frame h (e @ iv) r) =
      Ok (frame h (take (length pl) (e @ iv)) (drop (length pl) (e @ iv) @ r))"
    using h h2 l by (simp add: frame_set_data_len)
  moreover have "np_new (h2 @ pl) = Ok (frame h2 pl [])"
    using h2 by (simp add: np_new_def np_new0_def frame_def)
  moreover have "np_set_payload pl (frame h (take (length pl) (e @ iv)) (drop (length pl) (e @ iv) @ r)) =
      Ok (frame h pl (drop (length pl) (e @ iv) @ r))"
    using h l by (intro frame_set_payload) simp_all
  moreover have "take (length e) (e @ iv) = e" "drop (length e) (e @ iv) = iv" by simp_all
  ultimately show ?thesis
    using h h2 len dec iv
    by (simp add: sm4_open_def sbind_sget frame_payload Let_def slice_def same_header_frame sbind_supd
        frame_mark supd_ok del: take_append drop_append)
qed

lemma sm4_open_total:
  assumes ok: "sm4_ok C" and h: "length h = 12"
  shows "\<exists>res h' c' s. sm4_open C c (frame h pl r) = (res, frame h' c' s) \<and> res \<noteq> Panic \<and> length h' = 12"
proof -
  have stay: "\<exists>res h' c' s. (Err x, frame h e r) = (res, frame h' c' s) \<and> res \<noteq> Panic \<and> length h' = 12"
    for x :: vnt_error and e using h by blast
  have fine: "\<exists>res h' c' s. (Ok (), frame (mark False h) a b) = (res, frame h' c' s) \<and> res \<noteq> Panic \<and> length h' = 12"
    for a b by (intro exI conjI, rule refl) (use h in simp_all)
  show ?thesis
  proof (cases "length pl < 16 \<or> 4096 < length pl")
    case True
    then show ?thesis using h stay by (simp add: sm4_open_def sbind_sget frame_payload Let_def)
  next
    case False
    then have "16 \<le> length pl" by simp
    then obtain e iv where b: "pl = e @ iv" "length iv = 16" by (rule split_last_n)
    have len: "length e + 16 \<le> 4096" using False b by simp
    show ?thesis
    proof (cases "c_sm4_dec C (sm4_key c) sm4_out_len e iv")
      case None
      then show ?thesis using h b len stay [of _ "e @ iv"]
        by (simp add: sm4_open_def sbind_sget frame_payload Let_def slice_def)
    next
      case (Some d)
      show ?thesis
      proof (cases "length d < 12")
        case True
        then have "np_new d = Err (IoError InvalidData)" by (simp add: np_new_def np_new0_def)
        then show ?thesis using Some h b len stay [of _ "e @ iv"]
          by (simp add: sm4_open_def sbind_sget frame_payload Let_def slice_def)
      next
        case False
        then have "d = take 12 d @ drop 12 d" "length (take 12 d) = 12" by simp_all
        then show ?thesis
          using sm4_open_frame [OF ok h b(2) len, of c "take 12 d" "drop 12 d" r] Some stay fine b by simp
      qed
    qed
  qed
qed

lemma sm4_decrypt_total:
  assumes ok: "sha_ok C" "sm4_ok C" and h: "length h = 12"
  shows "\<exists>res h' c' s. sm4_decrypt C c (frame h pl r) = (res, frame h' c' s) \<and> res \<noteq> Panic \<and> length h' = 12"
proof -
  have stay: "\<exists>res h' c' s. (Err x, frame h a b) = (res, frame h' c' s) \<and> res \<noteq> Panic \<and> length h' = 12"
    for x :: vnt_error and a b using h by blast
  show ?thesis
  proof (cases "bit (h ! 0) 7")
    case False
    then show ?thesis using stay h by (simp add: sm4_decrypt_def sbind_sget frame_simps)
  next
    case bit: True
    show ?thesis
    proof (cases "sm4_finger c")
      case None
      then show ?thesis using bit h sm4_open_total [OF ok(2) h, of c pl r]
        by (simp add: sm4_decrypt_def sbind_sget frame_simps sbind_pair)
    next
      case (Some k)
      then show ?thesis using cut_finger_total [OF ok(1) h, of k pl r] bit h stay sm4_open_total [OF ok(2) h]
        by (elim disjE exE) (simp_all add: sm4_decrypt_def sbind_sget frame_simps sbind_pair)
    qed
  qed
qed

text \<open>The 16 octets of the vector, as four words.\<close>

definition words_16 :: "u32 \<times> u32 \<times> u32 \<times> u32 \<Rightarrow> bytes" where
  "words_16 w = (case w of (a, b, c, d) \<Rightarrow> u32_to_be a @ u32_to_be b @ u32_to_be c @ u32_to_be d)"

lemma length_words_16 [simp]: "length (words_16 w) = 16"
  by (simp add: words_16_def split: prod.splits)

interpretation sm4: packet_cipher "\<lambda>(C, c). sha_ok C \<and> sm4_ok C"
    "\<lambda>(C, c) n. padded (n + 12) + 16 - n + flen (sm4_finger c \<noteq> None)"
    "\<lambda>_. 4000" "\<lambda>_. True" "\<lambda>(C, c) w. sm4_encrypt C c (words_16 w)" "\<lambda>(C, c). sm4_decrypt C c"
proof (unfold_locales, goal_cases)
  case (1 k h pl r w)
  obtain C c where k: "k = (C, c)" by (cases k)
  let ?iv = "words_16 w"
  from 1 k have ok: "sha_ok C" "sm4_ok C" and max: "length pl \<le> 4000"
    and room: "padded (length pl + 12) + 16 - length pl + flen (sm4_finger c \<noteq> None) \<le> length r" by auto
  have iv: "length ?iv = 16" by simp
  obtain e fin s where
    enc: "sm4_encrypt C c ?iv (frame h pl r) = (Ok (), frame (mark True h) ((e @ ?iv) @ fin) s)"
    and len: "length e + 16 + length fin + length s = length pl + length r"
    and fl: "length fin = flen (sm4_finger c \<noteq> None)" and fin: "fin = finger_tail C (sm4_finger c) (frame_tag h) (e @ ?iv)"
    and dec: "c_sm4_dec C (sm4_key c) sm4_out_len e ?iv = Some (h @ pl)"
    and pad: "length e = padded (length pl + 12)"
    by (rule sm4_encrypt_frame [OF ok 1(2) iv max room])
  have el: "length e + 16 \<le> 4096" "length pl + 12 \<le> length e"
    using padded_le [of "length pl + 12"] max pad by simp_all
  have "\<exists>t. sm4_decrypt C c (frame h' ((e @ ?iv) @ fin) s') = (Ok (), frame (mark False h') pl t) \<and>
      length pl + length t = length ((e @ ?iv) @ fin) + length s'" if "same_tag (mark True h) h'" for h' s'
  proof -
    from that 1(2) have h': "length h' = 12" "bit (h' ! 0) 7" and tag: "frame_tag h' = frame_tag h"
      by (simp_all add: same_tag_def)
    let ?t = "drop (length pl) (e @ ?iv) @ fin @ s'"
    have op: "sm4_open C c (frame h' (e @ ?iv) (fin @ s')) = (Ok (), frame (mark False h') pl ?t)"
      using sm4_open_frame [OF ok(2) h'(1) iv el(1) dec 1(2)] tag by simp
    have "sm4_decrypt C c (frame h' ((e @ ?iv) @ fin) s') = (Ok (), frame (mark False h') pl ?t)"
    proof (cases "sm4_finger c")
      case None
      then have "fin = []" using fl by simp
      then show ?thesis using op h' None
        by (simp add: sm4_decrypt_def sbind_sget frame_is_encrypt sbind_pair del: append_assoc drop_append)
    next
      case (Some x)
      then have "fin = calculate_finger C x (frame_tag h') (e @ ?iv)" "length fin = 12"
        using fin fl tag by (simp_all add: finger_tail_def)
      then have "cut_finger C x (frame h' ((e @ ?iv) @ fin) s') = (Ok (), frame h' (e @ ?iv) (fin @ s'))"
        using cut_finger_frame [OF ok(1) h'(1), of fin x "e @ ?iv" s'] by simp
      then show ?thesis using op h' Some
        by (simp add: sm4_decrypt_def sbind_sget frame_is_encrypt sbind_pair del: append_assoc drop_append)
    qed
    moreover have "length pl + length ?t = length ((e @ ?iv) @ fin) + length s'" using el by simp
    ultimately show ?thesis by blast
  qed
  moreover have "length ((e @ ?iv) @ fin) =
      length pl + (padded (length pl + 12) + 16 - length pl + flen (sm4_finger c \<noteq> None))"
    using fl el(2) unfolding pad [symmetric] by simp
  ultimately show ?case
    by - (rule exI [of _ "(e @ ?iv) @ fin"], rule exI [of _ s], use enc k len in simp)
next
  case (2 k h pl r)
  then show ?case using sm4_decrypt_total by (cases k) simp
qed

end
