(* ===== verification/Xor_Cipher.thy ===== *)
theory Xor_Cipher
  imports Cipher_Interface
begin

text \<open>
  \<open>vnt/src/cipher/xor/xor.rs\<close>: the key schedule \<open>simple_hash\<close> (a password to 32 octets, with wrapping
  arithmetic and rotations) and the cipher that combines the payload with the repeated key.
\<close>

section \<open>The key schedule\<close>

text \<open>\<open>for (i, &byte) in bytes.iter().enumerate()\<close>\<close>

fun sh_absorb :: "bytes \<Rightarrow> nat \<Rightarrow> u8 \<times> bytes \<Rightarrow> u8 \<times> bytes" where
  "sh_absorb [] i st = st"
| "sh_absorb (byte # bs) i (state, result) =
     (let combined = word_rotl (i mod 8) (byte + state);
          result = result[i mod 32 := result ! (i mod 32) XOR combined];
          state = word_rotl 3 (state + byte)
      in sh_absorb bs (i + 1) (state, result))"

text \<open>\<open>for i in 0..32\<close>\<close>

fun sh_mix :: "nat list \<Rightarrow> u8 \<times> bytes \<Rightarrow> u8 \<times> bytes" where
  "sh_mix [] st = st"
| "sh_mix (i # is) (state, result) =
     (let v = word_rotl (unat (result ! ((i + 1) mod 32)) mod 8) (result ! i) + state
      in sh_mix is (word_rotl 3 (state + v), result[i := v]))"

definition simple_hash :: "bytes \<Rightarrow> bytes outcome" where
  "simple_hash bs =
     (if bs = [] then Panic
      else (let result = map (\<lambda>index. bs ! (index mod length bs)) [0..<32];
                st = sh_absorb bs 0 (0, result)
            in Ok (snd (sh_mix [0..<32] st))))"

section \<open>The cipher\<close>

definition xor_apply :: "bytes \<Rightarrow> bytes \<Rightarrow> bytes" where
  "xor_apply key payload = map (\<lambda>(i, byte). byte XOR key ! (i mod 32)) (enumerate 0 payload)"

text \<open>\<open>for (i, byte) in net_packet.payload_mut().iter_mut().enumerate()\<close>; \<open>i & 31\<close> is \<open>i mod 32\<close>.\<close>

definition xor_payload :: "bytes \<Rightarrow> net_packet \<Rightarrow> net_packet outcome" where
  "xor_payload key p = obind (np_payload p) (\<lambda>pl.
     np_on_buffer (put_slice 12 (np_data_len p) (xor_apply key pl)) p)"

definition xor_decrypt :: "bytes \<Rightarrow> (net_packet, unit) action" where
  "xor_decrypt key = sbind (sget np_is_encrypt) (\<lambda>enc.
     if \<not> enc then slift (Err (AnyError ''not encrypt''))
     else sbind (supd (xor_payload key)) (\<lambda>_. supd (np_set_encrypt_flag False)))"

definition xor_encrypt :: "bytes \<Rightarrow> (net_packet, unit) action" where
  "xor_encrypt key = sbind (supd (np_set_encrypt_flag True)) (\<lambda>_. supd (xor_payload key))"

section \<open>Lemmas\<close>

lemma sh_absorb_length: "length (snd (sh_absorb bs i st)) = length (snd st)"
  by (induction bs i st rule: sh_absorb.induct) (simp_all add: Let_def)

lemma sh_mix_length: "length (snd (sh_mix is st)) = length (snd st)"
  by (induction "is" st rule: sh_mix.induct) (simp_all add: Let_def)

lemma xor_apply_length [simp]: "length (xor_apply key pl) = length pl"
  by (simp add: xor_apply_def)

lemma xor_apply_nth [simp]: "i < length pl \<Longrightarrow> xor_apply key pl ! i = pl ! i XOR key ! (i mod 32)"
  by (simp add: xor_apply_def nth_enumerate_eq)

lemma xor_apply_twice [simp]: "xor_apply key (xor_apply key pl) = pl"
  by (rule nth_equalityI) (simp_all add: xor.assoc)

lemma frame_xor_payload [frame_simps]:
  "length h = 12 \<Longrightarrow> xor_payload key (frame h pl r) = Ok (frame h (xor_apply key pl) r)"
  by (simp add: xor_payload_def frame_payload np_on_buffer_def put_slice_def frame_def
      [where pl = "xor_apply key pl"])

lemma frame_xor_encrypt:
  "length h = 12 \<Longrightarrow> xor_encrypt key (frame h pl r) = (Ok (), frame (mark True h) (xor_apply key pl) r)"
  by (simp add: xor_encrypt_def sbind_supd frame_mark supd_ok frame_xor_payload)

lemma frame_xor_decrypt:
  "length h = 12 \<Longrightarrow> xor_decrypt key (frame h pl r) =
   (if bit (h ! 0) 7 then (Ok (), frame (mark False h) (xor_apply key pl) r)
    else (Err (AnyError ''not encrypt''), frame h pl r))"
  by (simp add: xor_decrypt_def sbind_supd sbind_sget frame_mark supd_ok frame_simps)

interpretation xor: packet_cipher "\<lambda>_. True" "\<lambda>_ _. 0" "\<lambda>_. body_max" "\<lambda>_. True"
    "\<lambda>key _. xor_encrypt key" xor_decrypt
proof unfold_locales
  fix key h pl r :: bytes
  assume h: "length h = 12"
  show "\<exists>res h' c s. xor_decrypt key (frame h pl r) = (res, frame h' c s) \<and> res \<noteq> Panic \<and> length h' = 12"
    using h by (cases "bit (h ! 0) 7") (fastforce simp: frame_xor_decrypt)+
  have "\<exists>t. xor_decrypt key (frame h' (xor_apply key pl) s') = (Ok (), frame (mark False h') pl t) \<and>
      length pl + length t = length pl + length s'" if "same_tag (mark True h) h'" for h' s'
    using that h by (intro exI [of _ s']) (simp add: frame_xor_decrypt same_tag_def)
  then show "\<exists>c s. xor_encrypt key (frame h pl r) = (Ok (), frame (if True then mark True h else h) c s) \<and>
      length c = length pl + 0 \<and> length c + length s = length pl + length r \<and>
      (\<forall>h' s'. same_tag (if True then mark True h else h) h' \<longrightarrow>
        (\<exists>t. xor_decrypt key (frame h' c s') = (Ok (), frame (mark False h') pl t) \<and>
           length pl + length t = length c + length s'))"
    using h by (intro exI [of _ "xor_apply key pl"] exI [of _ r])
      (simp only: if_True frame_xor_encrypt xor_apply_length, simp)
qed

text \<open>\<open>simple_hash\<close> yields a key of 32 octets for every password but the empty one, where it panics on
  the remainder by zero.\<close>

lemma simple_hash_spec:
  "if bs = [] then simple_hash bs = Panic else \<exists>key. simple_hash bs = Ok key \<and> length key = 32"
  by (simp add: simple_hash_def Let_def sh_mix_length sh_absorb_length)

end
