(* ===== verification/Cipher_Dispatch.thy ===== *)
theory Cipher_Dispatch
  imports Block_Ciphers Xor_Cipher Ascii_Text
begin

text \<open>
  \<open>vnt/src/cipher/cipher.rs\<close>: the choice of a cipher from the configuration, and its dispatch. The
  default features are taken: every cipher is compiled in, AES-GCM and ChaCha20-Poly1305 from the
  RustCrypto crates. Strings are ASCII.
\<close>

section \<open>\<open>CipherModel\<close>\<close>

datatype cipher_model =
  MAesGcm | MChacha20Poly1305 | MChacha20 | MAesCbc | MAesEcb | MSm4Cbc | MXor | MNone

primrec cipher_model_str :: "cipher_model \<Rightarrow> string" where
  "cipher_model_str MAesGcm = ''aes_gcm''"
| "cipher_model_str MChacha20Poly1305 = ''chacha20_poly1305''"
| "cipher_model_str MChacha20 = ''chacha20''"
| "cipher_model_str MAesCbc = ''aes_cbc''"
| "cipher_model_str MAesEcb = ''aes_ecb''"
| "cipher_model_str MSm4Cbc = ''sm4_cbc''"
| "cipher_model_str MXor = ''xor''"
| "cipher_model_str MNone = ''none''"

definition cipher_model_from_str :: "string \<Rightarrow> cipher_model option" where
  "cipher_model_from_str s = (let t = str_trim (List.map ascii_lower s) in
     if t = ''aes_gcm'' then Some MAesGcm
     else if t = ''chacha20_poly1305'' then Some MChacha20Poly1305
     else if t = ''chacha20'' then Some MChacha20
     else if t = ''aes_cbc'' then Some MAesCbc
     else if t = ''aes_ecb'' then Some MAesEcb
     else if t = ''sm4_cbc'' then Some MSm4Cbc
     else if t = ''xor'' then Some MXor
     else None)"

section \<open>\<open>Cipher\<close>\<close>

datatype cipher =
    CAesGcm aes_gcm_cipher bytes
  | CChacha20Poly1305 chacha_cipher
  | CChacha20 chacha_cipher
  | CAesCbc aes_cbc_cipher
  | CAesEcb aes_ecb_cipher
  | CSm4Cbc sm4_cipher
  | CXor bytes
  | CNone

definition chacha20_new :: "bytes \<Rightarrow> bytes option \<Rightarrow> chacha_cipher" where
  "chacha20_new key finger = \<lparr>cc_key = key, cc_finger = finger\<rparr>"

definition cipher_new_password ::
    "crypto \<Rightarrow> cipher_model \<Rightarrow> bytes option \<Rightarrow> bytes option \<Rightarrow> cipher outcome" where
  "cipher_new_password C model password token = (case password of None \<Rightarrow> Ok CNone
     | Some pw \<Rightarrow> (let key = c_sha256 C pw; finger = map_option (finger_new C) token in
       case model of
         MAesGcm \<Rightarrow> if length pw < 8
           then obind (slice key 0 16) (\<lambda>k. Ok (CAesGcm (gcm_new_128 k finger) k))
           else Ok (CAesGcm (gcm_new_256 key finger) key)
       | MChacha20Poly1305 \<Rightarrow> Ok (CChacha20Poly1305 (chachapoly_new key finger))
       | MChacha20 \<Rightarrow> Ok (CChacha20 (chacha20_new key finger))
       | MAesCbc \<Rightarrow> if length pw < 8
           then obind (slice key 0 16) (\<lambda>k. Ok (CAesCbc (aes_cbc_new_128 k finger)))
           else Ok (CAesCbc (aes_cbc_new_256 key finger))
       | MAesEcb \<Rightarrow> if length pw < 8
           then obind (slice key 0 16) (\<lambda>k. Ok (CAesEcb (aes_ecb_new_128 k finger)))
           else Ok (CAesEcb (aes_ecb_new_256 key finger))
       | MSm4Cbc \<Rightarrow> obind (slice key 0 16) (\<lambda>k. Ok (CSm4Cbc (sm4_new_128 k finger)))
       | MXor \<Rightarrow> if token \<noteq> None then Err (AnyError ''finger and xor cannot be used simultaneously'')
           else obind (simple_hash pw) (\<lambda>k. Ok (CXor k))
       | MNone \<Rightarrow> Ok CNone))"

definition cipher_new_key :: "crypto \<Rightarrow> bytes \<Rightarrow> bytes \<Rightarrow> cipher outcome" where
  "cipher_new_key C key token = (let finger = Some (finger_new C token) in
     if length key = 16 then obind (slice key 0 16) (\<lambda>k. Ok (CAesGcm (gcm_new_128 k finger) k))
     else if length key = 32 then Ok (CAesGcm (gcm_new_256 key finger) key)
     else Err (AnyError ''key error''))"

primrec cipher_decrypt :: "crypto \<Rightarrow> cipher \<Rightarrow> (net_packet, unit) action" where
  "cipher_decrypt C (CAesGcm c k) = gcm_decrypt C c"
| "cipher_decrypt C (CAesCbc c) = aes_cbc_decrypt C c"
| "cipher_decrypt C (CChacha20Poly1305 c) = chachapoly_decrypt C c"
| "cipher_decrypt C (CChacha20 c) = chacha20_decrypt C c"
| "cipher_decrypt C (CAesEcb c) = aes_ecb_decrypt C c"
| "cipher_decrypt C (CSm4Cbc c) = sm4_decrypt C c"
| "cipher_decrypt C (CXor key) = xor_decrypt key"
| "cipher_decrypt C CNone = sbind (sget np_is_encrypt) (\<lambda>enc.
     if enc then slift (Err (AnyError ''not key'')) else sret ())"

text \<open>The random octets of one encryption: a word, or four for the vector of SM4.\<close>

type_synonym randomness = "u32 \<times> u32 \<times> u32 \<times> u32"

primrec cipher_encrypt :: "crypto \<Rightarrow> randomness \<Rightarrow> cipher \<Rightarrow> (net_packet, unit) action" where
  "cipher_encrypt C w (CAesGcm c k) = gcm_encrypt C c (fst w)"
| "cipher_encrypt C w (CChacha20Poly1305 c) = chachapoly_encrypt C c (fst w)"
| "cipher_encrypt C w (CChacha20 c) = chacha20_encrypt C c (fst w)"
| "cipher_encrypt C w (CAesCbc c) = aes_cbc_encrypt C c (fst w)"
| "cipher_encrypt C w (CAesEcb c) = aes_ecb_encrypt C c"
| "cipher_encrypt C w (CSm4Cbc c) = sm4_encrypt C c (words_16 w)"
| "cipher_encrypt C w (CXor key) = xor_encrypt key"
| "cipher_encrypt C w CNone = sret ()"

primrec cipher_finger :: "cipher \<Rightarrow> bytes option" where
  "cipher_finger (CAesGcm c k) = gcm_finger c"
| "cipher_finger (CChacha20Poly1305 c) = cc_finger c"
| "cipher_finger (CChacha20 c) = cc_finger c"
| "cipher_finger (CAesCbc c) = cbc_finger_key c"
| "cipher_finger (CAesEcb c) = ecb_finger c"
| "cipher_finger (CSm4Cbc c) = sm4_finger c"
| "cipher_finger (CXor key) = None"
| "cipher_finger CNone = None"

definition cipher_check_finger :: "crypto \<Rightarrow> cipher \<Rightarrow> net_packet \<Rightarrow> unit outcome" where
  "cipher_check_finger C c p = (case cipher_finger c of None \<Rightarrow> Ok () | Some hash \<Rightarrow> check_finger C hash p)"

primrec cipher_key :: "cipher \<Rightarrow> bytes option" where
  "cipher_key (CAesGcm c k) = Some k"
| "cipher_key (CChacha20Poly1305 c) = Some (cc_key c)"
| "cipher_key (CChacha20 c) = Some (cc_key c)"
| "cipher_key (CAesCbc c) = Some (cbc_key (cbc_cipher c))"
| "cipher_key (CAesEcb c) = Some (ecb_key (ecb_cipher c))"
| "cipher_key (CSm4Cbc c) = Some (sm4_key c)"
| "cipher_key (CXor key) = Some key"
| "cipher_key CNone = None"

section \<open>Every configured cipher is a packet cipher\<close>

definition cipher_ok :: "cipher \<Rightarrow> bool" where
  "cipher_ok c \<longleftrightarrow> (case c of CAesCbc k \<Rightarrow> aes_cbc_key_ok k | _ \<Rightarrow> True)"

text \<open>By how much each cipher lengthens a payload of \<open>n\<close> octets.\<close>

primrec cipher_growth :: "cipher \<Rightarrow> nat \<Rightarrow> nat" where
  "cipher_growth (CAesGcm c k) n = AES_GCM_ENCRYPTION_RESERVED"
| "cipher_growth (CChacha20Poly1305 c) n = 20 + flen (cc_finger c \<noteq> None)"
| "cipher_growth (CChacha20 c) n = 4 + flen (cc_finger c \<noteq> None)"
| "cipher_growth (CAesCbc c) n = padded (n + 4) - n + flen (cbc_finger_key c \<noteq> None)"
| "cipher_growth (CAesEcb c) n = padded (n + 12) - n + flen (ecb_finger c \<noteq> None)"
| "cipher_growth (CSm4Cbc c) n = padded (n + 12) + 16 - n + flen (sm4_finger c \<noteq> None)"
| "cipher_growth (CXor key) n = 0"
| "cipher_growth CNone n = 0"

text \<open>The bounds that all ciphers share; the reserve that \<open>new_encrypt\<close> keeps is larger.\<close>

definition cipher_room :: nat where
  "cipher_room = 56"

definition cipher_cap :: nat where
  "cipher_cap = 4000"

lemma cipher_growth_room: "cipher_growth c n \<le> cipher_room"
  using padded_le(2) [of "n + 4"] padded_le(2) [of "n + 12"]
  by (cases c) (auto simp: cipher_room_def reserved_defs)

lemma cipher_new_password_ok:
  assumes "sha_ok C" and "cipher_new_password C m pw tok = Ok c"
  shows "cipher_ok c"
  using assms
  by (auto simp: cipher_new_password_def cipher_ok_def Let_def outcome_simps aes_cbc_key_ok_def
      aes_cbc_new_128_def aes_cbc_new_256_def sha_ok_def finger_new_def
      split: option.splits cipher_model.splits if_splits)

lemma none_enc_dec:
  assumes "length h = 12" and "\<not> bit (h ! 0) 7"
  shows "cipher_encrypt C w CNone (frame h pl r) = (Ok (), frame h pl r)"
    and "same_tag h h' \<Longrightarrow> cipher_decrypt C CNone (frame h' pl r) = (Ok (), frame (mark False h') pl r)"
  using assms by (simp_all add: sbind_sget frame_is_encrypt same_tag_def mark_False_id)

interpretation cipher: packet_cipher "\<lambda>(C, c). crypto_ok C \<and> cipher_ok c" "\<lambda>(C, c). cipher_growth c"
    "\<lambda>_. cipher_cap" "\<lambda>(C, c). c \<noteq> CNone" "\<lambda>(C, c) w. cipher_encrypt C w c" "\<lambda>(C, c). cipher_decrypt C c"
proof (unfold_locales, goal_cases)
  case (1 k h pl r w)
  obtain C c where k: "k = (C, c)" by (cases k)
  from 1 k have ok: "sha_ok C" "aead_ok C" "stream_ok C" "cbc_ok C" "ecb_ok C" "sm4_ok C" "cipher_ok c"
    by (simp_all add: crypto_ok_def)
  from 1 k have b: "length pl \<le> 4000" "cipher_growth c (length pl) \<le> length r" by (simp_all add: cipher_cap_def)
  note pre = 1(2)
  show ?case
  proof (cases c)
    case (CAesGcm x y)
    with ok b k pre show ?thesis using gcm.enc_dec [of "(C, x)" h pl r "fst w"]
      by (simp add: reserved_defs body_max_def)
  next
    case (CChacha20Poly1305 x)
    with ok b k pre show ?thesis using chachapoly.enc_dec [of "(C, x)" h pl r "fst w"]
      by (simp add: reserved_defs body_max_def)
  next
    case (CChacha20 x)
    with ok b k pre show ?thesis using chacha20.enc_dec [of "(C, x)" h pl r "fst w"]
      by (simp add: reserved_defs body_max_def)
  next
    case (CAesCbc x)
    with ok b k pre show ?thesis using aes_cbc.enc_dec [of "(C, x)" h pl r "fst w"]
      by (simp add: body_max_def cipher_ok_def)
  next
    case (CAesEcb x)
    with ok b k pre show ?thesis using aes_ecb.enc_dec [of "(C, x)" h pl r] by simp
  next
    case (CSm4Cbc x)
    with ok b k pre show ?thesis using sm4.enc_dec [of "(C, x)" h pl r w] by simp
  next
    case (CXor x)
    with b k pre show ?thesis using xor.enc_dec [of h pl r x] by (simp add: body_max_def)
  next
    case CNone
    have pre: "length h = 12" "\<not> bit (h ! 0) 7" using 1(2,3) k CNone by simp_all
    have "\<exists>t. cipher_decrypt C CNone (frame h' pl s') = (Ok (), frame (mark False h') pl t) \<and>
        length pl + length t = length pl + length s'"
      if "same_tag h h'" for h' s' using none_enc_dec(2) [OF pre that] by blast
    then show ?thesis using none_enc_dec(1) [OF pre, of C w pl r] k CNone
      by - (rule exI [of _ pl], rule exI [of _ r], simp)
  qed
next
  case (2 k h pl r)
  obtain C c where k: "k = (C, c)" by (cases k)
  from 2 k have ok: "sha_ok C" "aead_ok C" "stream_ok C" "cbc_ok C" "ecb_ok C" "sm4_ok C" "cipher_ok c"
    by (simp_all add: crypto_ok_def)
  show ?case
  proof (cases c)
    case (CXor x)
    then show ?thesis using xor.dec_total [OF TrueI 2(2), of x pl r] k by simp
  next
    case CNone
    then show ?thesis using k 2(2)
      by (cases "bit (h ! 0) 7") (fastforce simp: sbind_sget frame_is_encrypt)+
  qed (use ok k 2(2) gcm_decrypt_total chachapoly_decrypt_total chacha20_decrypt_total aes_cbc_decrypt_total
      aes_ecb_decrypt_total sm4_decrypt_total in \<open>simp_all add: cipher_ok_def\<close>)
qed

section \<open>The assumptions on the primitives are satisfiable\<close>

text \<open>Primitives that keep the promised lengths and round trips, to evaluate the model with: a constant
  offset for encryption, the length for the hash, real PKCS #7 padding.\<close>

definition pkcs7 :: "bytes \<Rightarrow> bytes" where
  "pkcs7 b = (let p = padded (length b) - length b in b @ replicate p (of_nat p))"

definition unpad_len :: "bytes \<Rightarrow> nat option" where
  "unpad_len b = (if b = [] then None
     else (let v = unat (last b) in if v = 0 \<or> 16 < v \<or> length b < v then None else Some (length b - v)))"

definition toy_crypto :: crypto where
  "toy_crypto = \<lparr>
     c_sha256 = \<lambda>b. replicate 31 1 @ [of_nat (length b)],
     c_seal = \<lambda>a k n d. Some (map (\<lambda>v. v + 1) d, replicate 16 9),
     c_open = \<lambda>a k n d t. if t = replicate 16 9 then Some (map (\<lambda>v. v - 1) d) else None,
     c_stream = \<lambda>k n m. replicate m 0x55,
     c_cbc_enc = \<lambda>k iv b n. if padded n \<le> length b then (pkcs7 (take n b) @ drop (padded n) b, Some (padded n)) else (b, None),
     c_cbc_dec = \<lambda>k iv b. (b, unpad_len b),
     c_ecb_enc = \<lambda>k n b. if padded (length b) \<le> n then Some (pkcs7 b) else None,
     c_ecb_dec = \<lambda>k n b. map_option (\<lambda>m. take m b) (unpad_len b),
     c_sm4_enc = \<lambda>k n b iv. if padded (length b) \<le> n then Some (pkcs7 b) else None,
     c_sm4_dec = \<lambda>k n b iv. map_option (\<lambda>m. take m b) (unpad_len b)\<rparr>"

lemma length_pkcs7 [simp]: "length (pkcs7 b) = padded (length b)"
  using padded_le(1) [of "length b"] by (simp add: pkcs7_def Let_def)

lemma unpad_pkcs7: "unpad_len (pkcs7 b) = Some (length b)"
proof -
  let ?p = "padded (length b) - length b"
  have p: "0 < ?p" "?p \<le> 16" using padded_le [of "length b"] by simp_all
  have "unat (of_nat q :: u8) = q" if "q \<le> 16" for q
    using that by (simp add: unsigned_of_nat take_bit_nat_eq_self)
  then have "unat (of_nat ?p :: u8) = ?p" using p(2) .
  moreover have "last (pkcs7 b) = of_nat ?p" using p by (simp add: pkcs7_def Let_def)
  moreover have "pkcs7 b \<noteq> []" using p by (simp add: pkcs7_def Let_def)
  ultimately show ?thesis using p by (simp add: unpad_len_def Let_def)
qed

lemma take_pkcs7 [simp]: "take (length b) (pkcs7 b) = b"
  by (simp add: pkcs7_def Let_def)

lemma unpad_len_le: "unpad_len b = Some n \<Longrightarrow> n \<le> length b"
  by (auto simp: unpad_len_def Let_def split: if_splits)

lemma toy_crypto_ok: "crypto_ok toy_crypto"
proof -
  have "cbc_ok toy_crypto"
    unfolding cbc_ok_def
  proof (intro conjI allI impI)
    fix k iv b n assume le: "padded n \<le> length (b :: bytes)"
    let ?c = "pkcs7 (take n b)"
    have n: "length (take n b) = n" using le padded_le(1) [of n] by simp
    have "c_cbc_dec toy_crypto k iv ?c = (take n b @ drop n ?c, Some n)"
      using unpad_pkcs7 [of "take n b"] take_pkcs7 [of "take n b"] n
      by (simp add: toy_crypto_def) (metis append_take_drop_id)
    then show "\<exists>c b'. c_cbc_enc toy_crypto k iv b n = (c @ drop (padded n) b, Some (padded n)) \<and>
        length c = padded n \<and> c_cbc_dec toy_crypto k iv c = (take n b @ b', Some n) \<and> length b' = padded n - n"
      using le n by (intro exI [of _ ?c] exI [of _ "drop n ?c"]) (simp add: toy_crypto_def)
  qed (auto simp: toy_crypto_def dest: unpad_len_le)
  moreover have "map (\<lambda>v. v - 1) (map (\<lambda>v. v + 1) d) = d" for d :: bytes
    by (simp add: comp_def)
  ultimately show ?thesis
    by (auto simp: crypto_ok_def sha_ok_def aead_ok_def stream_ok_def ecb_ok_def sm4_ok_def unpad_pkcs7
        comp_def toy_crypto_def split: if_splits)
qed

definition sample_packet :: net_packet where
  "sample_packet = \<lparr>np_data_len = 15, np_buffer = [2, 4, 4, 0x65, 10, 26, 0, 2, 10, 26, 0, 3, 7, 8, 9] @ replicate 60 0\<rparr>"

definition sample_buffer :: bytes where
  "sample_buffer = np_buffer sample_packet"

definition sample_cipher :: cipher where
  "sample_cipher = (let key = replicate 31 1 @ [9]
     in CAesGcm (gcm_new_256 key (Some (replicate 31 1 @ [3]))) key)"

lemma sample_facts:
  "cipher_new_password toy_crypto MAesGcm (Some (replicate 9 7)) (Some [1, 2, 3]) = Ok sample_cipher"
  "np_new_encrypt sample_buffer = Ok sample_packet" "np_is_encrypt sample_packet = Ok False"
  "np_data_len sample_packet = 15" "np_wf sample_packet" "sample_cipher \<noteq> CNone"
  by (simp_all add: cipher_new_password_def toy_crypto_def Let_def finger_new_def sample_cipher_def
      sample_buffer_def sample_packet_def np_new_encrypt_def ENCRYPTION_RESERVED_def np_new0_def
      np_is_encrypt_def byte_at_def np_wf_def)

section \<open>Correctness of encryption\<close>

lemma np_new_encrypt_room:
  "np_new_encrypt b = Ok p \<Longrightarrow> np_wf p \<and> np_data_len p + 60 = length (np_buffer p)"
  by (auto simp: np_new_encrypt_def ENCRYPTION_RESERVED_def outcome_simps np_new0_def np_wf_def split: if_splits)

text \<open>C1: Every cipher that a password can configure encrypts a packet made by \<open>new_encrypt\<close> in place,
  when the packet is not yet marked as encrypted and its payload has at most 4000 octets (4012 with
  the header; SM4 refuses packets of more than 4064 octets, ECB those whose padded text exceeds its
  buffer of 5120). The part of the
  header the nonce comes from does not change, and decrypting the octets on the wire gives back
  exactly the original ones. The reserve of 60 octets is enough for each of the seven ciphers.\<close>

theorem cipher_roundtrip:
  assumes "crypto_ok C" and "cipher_new_password C model password token = Ok c"
    and "np_new_encrypt b = Ok p" and "np_is_encrypt p = Ok False" and "np_data_len p \<le> 4012"
  shows "\<exists>q wire q' p'. cipher_encrypt C w c p = (Ok (), q) \<and> np_wf q \<and> np_head_tag q = np_head_tag p \<and>
    np_is_encrypt q = Ok (c \<noteq> CNone) \<and> np_buffer_part q = Ok wire \<and> np_new wire = Ok q' \<and>
    cipher_decrypt C c q' = (Ok (), p') \<and> np_wf p' \<and> np_buffer_part p' = np_buffer_part p"
proof -
  have "cipher_ok c" using cipher_new_password_ok [OF _ assms(2)] assms(1) by (simp add: crypto_ok_def)
  then show ?thesis
    using cipher.roundtrip [of "(C, c)" p w] assms(1,4,5) np_new_encrypt_room [OF assms(3)]
      cipher_growth_room [of c "np_data_len p - 12"]
    by (simp add: cipher_cap_def cipher_room_def)
qed

lemma cipher_roundtrip_witness:
  "\<exists>q wire q' p'. cipher_encrypt toy_crypto (1, 2, 3, 4) sample_cipher sample_packet = (Ok (), q) \<and>
    np_is_encrypt q = Ok True \<and> np_buffer_part q = Ok wire \<and> np_new wire = Ok q' \<and>
    cipher_decrypt toy_crypto sample_cipher q' = (Ok (), p') \<and> np_buffer_part p' = np_buffer_part sample_packet"
  using cipher_roundtrip [OF toy_crypto_ok sample_facts(1-3), where w = "(1, 2, 3, 4)"] sample_facts(4,6) by auto

text \<open>What a relay does to the time to live, on frames.\<close>

lemma frame_incr_ttl:
  assumes "length h = 12"
  defines "v \<equiv> (h ! 3 AND MAX_SOURCE) OR (MAX_TTL AND ((h ! 3 AND MAX_TTL) - 1))"
  shows "np_incr_ttl (frame h pl r) = Ok ((h ! 3 AND MAX_TTL) - 1, frame (h[3 := v]) pl r)"
  using assms(1)
  by (simp add: np_incr_ttl_def np_ttl_def byte_at_def nth_append Let_def np_set_ttl_def np_on_buffer_def
      modify_byte_ok list_update_append v_def frame_def)

lemma frame_tag_ttl:
  "length h = 12 \<Longrightarrow> frame_tag (h[3 := (h ! 3 AND MAX_SOURCE) OR (MAX_TTL AND t)]) = frame_tag h"
  by (simp add: frame_tag_def MAX_SOURCE_def MAX_TTL_def u8_eq_iff bit_simps)

text \<open>C7: A relay that receives an encrypted packet, decrements its time to live and sends it on does not
  disturb decryption: the receiver gets the packet the sender would have got by decrementing it
  without encryption.\<close>

theorem cipher_relay:
  assumes "crypto_ok C" and "cipher_new_password C model password token = Ok c"
    and "np_new_encrypt b = Ok p" and "np_is_encrypt p = Ok False" and "np_data_len p \<le> 4012"
  shows "\<exists>q wire q1 t q2 relayed q3 p' p2. cipher_encrypt C w c p = (Ok (), q) \<and>
    np_buffer_part q = Ok wire \<and> np_new wire = Ok q1 \<and> np_incr_ttl q1 = Ok (t, q2) \<and>
    np_buffer_part q2 = Ok relayed \<and> np_new relayed = Ok q3 \<and> cipher_decrypt C c q3 = (Ok (), p') \<and>
    np_incr_ttl p = Ok (t, p2) \<and> np_view p' = np_view p2"
proof -
  have ok: "cipher_ok c" using cipher_new_password_ok [OF _ assms(2)] assms(1) by (simp add: crypto_ok_def)
  obtain h pl r where p: "length h = 12" "p = frame h pl r"
    using np_new_encrypt_room [OF assms(3)] np_wf_cases by metis
  have bit: "\<not> bit (h ! 0) 7" using assms(4) p by (simp add: frame_is_encrypt)
  let ?h = "if c \<noteq> CNone then mark True h else h"
  obtain e s where enc: "cipher_encrypt C w c (frame h pl r) = (Ok (), frame ?h e s)"
    and dec: "\<And>h'. same_tag ?h h' \<Longrightarrow> \<exists>t. cipher_decrypt C c (frame h' e []) = (Ok (), frame (mark False h') pl t)"
    using cipher.enc_dec [of "(C, c)" h pl r w, unfolded split] assms(1,5) ok p bit np_new_encrypt_room [OF assms(3)]
      cipher_growth_room [of c "length pl"]
    by (simp add: cipher_cap_def cipher_room_def del: cipher_encrypt.simps cipher_decrypt.simps) blast
  define v where "v = (h ! 3 AND MAX_SOURCE) OR (MAX_TTL AND ((h ! 3 AND MAX_TTL) - 1))"
  have lh: "length ?h = 12" "?h ! 3 = h ! 3" using p(1) by (simp_all add: mark_def)
  have inc: "np_incr_ttl (frame ?h e []) = Ok ((h ! 3 AND MAX_TTL) - 1, frame (?h[3 := v]) e [])"
    using frame_incr_ttl [OF lh(1), of e "[]"] lh(2) by (simp add: v_def)
  have "same_tag ?h (?h[3 := v])"
    using frame_tag_ttl [OF lh(1), of "(h ! 3 AND MAX_TTL) - 1"] lh by (simp add: same_tag_def v_def)
  then obtain t where "cipher_decrypt C c (frame (?h[3 := v]) e []) = (Ok (), frame (mark False (?h[3 := v])) pl t)"
    using dec by blast
  moreover have "mark False (?h[3 := v]) = h[3 := v]"
  proof -
    have "mark False (h[3 := v]) = h[3 := v]" using bit p(1) by (intro mark_False_id) simp_all
    moreover have "mark False ((mark True h)[3 := v]) = (mark False (mark True h))[3 := v]"
      using p(1) by (simp add: mark_def list_update_swap)
    ultimately show ?thesis using mark_mark [OF p(1) bit] by simp
  qed
  moreover have "np_incr_ttl p = Ok ((h ! 3 AND MAX_TTL) - 1, frame (h[3 := v]) pl r)"
    using frame_incr_ttl [OF p(1)] p(2) by (simp add: v_def)
  moreover have "np_view (frame (h[3 := v]) pl t) = np_view (frame (h[3 := v]) pl r)"
    using p(1) frame_view [of "h[3 := v]" pl t] frame_view [of "h[3 := v]" pl r] by simp
  moreover have "length (?h[3 := v]) = 12" using lh(1) by simp
  ultimately show ?thesis using enc inc p(2) lh(1) np_new_frame frame_buffer_part by metis
qed

lemma cipher_relay_witness:
  "\<exists>q wire q1 t q2 relayed q3 p'. cipher_encrypt toy_crypto (1, 2, 3, 4) sample_cipher sample_packet = (Ok (), q) \<and>
    np_buffer_part q = Ok wire \<and> np_new wire = Ok q1 \<and> np_incr_ttl q1 = Ok (t, q2) \<and>
    np_buffer_part q2 = Ok relayed \<and> np_new relayed = Ok q3 \<and> cipher_decrypt toy_crypto sample_cipher q3 = (Ok (), p')"
  using cipher_relay [OF toy_crypto_ok sample_facts(1-3), where w = "(1, 2, 3, 4)"] sample_facts(4) by auto

text \<open>C6: Decryption of an arbitrary packet, forged or damaged, never panics and leaves a well-formed packet,
  whatever cipher is configured.\<close>

theorem cipher_decrypt_safe:
  assumes "crypto_ok C" and "cipher_new_password C model password token = Ok c" and "np_wf p"
  shows "fst (cipher_decrypt C c p) \<noteq> Panic \<and> np_wf (snd (cipher_decrypt C c p))"
proof -
  have "cipher_ok c" using cipher_new_password_ok [OF _ assms(2)] assms(1) by (simp add: crypto_ok_def)
  then show ?thesis using cipher.decrypt_never_panics [of "(C, c)" p] assms by simp
qed

lemma cipher_decrypt_safe_witness: "fst (cipher_decrypt toy_crypto sample_cipher np_sample) \<noteq> Panic"
proof -
  have "np_wf np_sample" by (simp add: np_sample_def np_wf_def)
  from cipher_decrypt_safe [OF toy_crypto_ok sample_facts(1) this] show ?thesis by simp
qed

end
