(* ===== verification/Protocol_Packets.thy ===== *)
theory Protocol_Packets
  imports Net_Packet
begin

text \<open>
  The payloads of the VNT protocols under \<open>vnt/src/protocol/\<close>: the sub-protocol codes of the
  service, control, error, IP-turn and other-turn packets, the parsers \<open>ControlPacket::new\<close> and
  \<open>InErrorPacket::new\<close>, ping and address packets, and the broadcast packet that carries the list
  of peers already served. The constructors are prefixed where two enums share a name.
\<close>

section \<open>Sub-protocol codes\<close>

datatype control_protocol =
    CPing | CPong | CPunchRequest | CPunchResponse | CAddrRequest | CAddrResponse | CUnknown u8

definition control_protocol_from :: "u8 \<Rightarrow> control_protocol" where
  "control_protocol_from value =
     (if value = 1 then CPing
      else if value = 2 then CPong
      else if value = 3 then CPunchRequest
      else if value = 4 then CPunchResponse
      else if value = 5 then CAddrRequest
      else if value = 6 then CAddrResponse
      else CUnknown value)"

primrec control_protocol_into :: "control_protocol \<Rightarrow> u8" where
  "control_protocol_into CPing = 1"
| "control_protocol_into CPong = 2"
| "control_protocol_into CPunchRequest = 3"
| "control_protocol_into CPunchResponse = 4"
| "control_protocol_into CAddrRequest = 5"
| "control_protocol_into CAddrResponse = 6"
| "control_protocol_into (CUnknown v) = v"

interpretation control_protocol: wire_enum control_protocol_from control_protocol_into
  by unfold_locales (simp add: control_protocol_from_def)

datatype error_protocol =
    TokenError | Disconnect | AddressExhausted | IpAlreadyExists | InvalidIp | NoKey |
    OtherErrorP u8

definition error_protocol_from :: "u8 \<Rightarrow> error_protocol" where
  "error_protocol_from value =
     (if value = 1 then TokenError
      else if value = 2 then Disconnect
      else if value = 3 then AddressExhausted
      else if value = 4 then IpAlreadyExists
      else if value = 5 then InvalidIp
      else if value = 6 then NoKey
      else OtherErrorP value)"

primrec error_protocol_into :: "error_protocol \<Rightarrow> u8" where
  "error_protocol_into TokenError = 1"
| "error_protocol_into Disconnect = 2"
| "error_protocol_into AddressExhausted = 3"
| "error_protocol_into IpAlreadyExists = 4"
| "error_protocol_into InvalidIp = 5"
| "error_protocol_into NoKey = 6"
| "error_protocol_into (OtherErrorP v) = v"

interpretation error_protocol: wire_enum error_protocol_from error_protocol_into
  by unfold_locales (simp add: error_protocol_from_def)

datatype service_protocol =
    RegistrationRequest | RegistrationResponse | PullDeviceList | PushDeviceList |
    HandshakeRequest | HandshakeResponse | SecretHandshakeRequest | SecretHandshakeResponse |
    ClientStatusInfo | ServiceUnknown u8

definition service_protocol_from :: "u8 \<Rightarrow> service_protocol" where
  "service_protocol_from value =
     (if value = 1 then RegistrationRequest
      else if value = 2 then RegistrationResponse
      else if value = 3 then PullDeviceList
      else if value = 4 then PushDeviceList
      else if value = 5 then HandshakeRequest
      else if value = 6 then HandshakeResponse
      else if value = 7 then SecretHandshakeRequest
      else if value = 8 then SecretHandshakeResponse
      else if value = 9 then ClientStatusInfo
      else ServiceUnknown value)"

primrec service_protocol_into :: "service_protocol \<Rightarrow> u8" where
  "service_protocol_into RegistrationRequest = 1"
| "service_protocol_into RegistrationResponse = 2"
| "service_protocol_into PullDeviceList = 3"
| "service_protocol_into PushDeviceList = 4"
| "service_protocol_into HandshakeRequest = 5"
| "service_protocol_into HandshakeResponse = 6"
| "service_protocol_into SecretHandshakeRequest = 7"
| "service_protocol_into SecretHandshakeResponse = 8"
| "service_protocol_into ClientStatusInfo = 9"
| "service_protocol_into (ServiceUnknown v) = v"

interpretation service_protocol: wire_enum service_protocol_from service_protocol_into
  by unfold_locales (simp add: service_protocol_from_def)

datatype ip_turn_protocol =
    TurnIpv4 | TurnWGIpv4 | TurnIpv4Broadcast | TurnUnknown u8

definition ip_turn_protocol_from :: "u8 \<Rightarrow> ip_turn_protocol" where
  "ip_turn_protocol_from value =
     (if value = 4 then TurnIpv4
      else if value = 5 then TurnWGIpv4
      else if value = 201 then TurnIpv4Broadcast
      else TurnUnknown value)"

primrec ip_turn_protocol_into :: "ip_turn_protocol \<Rightarrow> u8" where
  "ip_turn_protocol_into TurnIpv4 = 4"
| "ip_turn_protocol_into TurnWGIpv4 = 5"
| "ip_turn_protocol_into TurnIpv4Broadcast = 201"
| "ip_turn_protocol_into (TurnUnknown v) = v"

interpretation ip_turn_protocol: wire_enum ip_turn_protocol_from ip_turn_protocol_into
  by unfold_locales (simp add: ip_turn_protocol_from_def)

datatype other_turn_protocol =
    OtherPunch | OtherTurnUnknown u8

definition other_turn_protocol_from :: "u8 \<Rightarrow> other_turn_protocol" where
  "other_turn_protocol_from value =
     (if value = 1 then OtherPunch
      else OtherTurnUnknown value)"

primrec other_turn_protocol_into :: "other_turn_protocol \<Rightarrow> u8" where
  "other_turn_protocol_into OtherPunch = 1"
| "other_turn_protocol_into (OtherTurnUnknown v) = v"

interpretation other_turn_protocol: wire_enum other_turn_protocol_from other_turn_protocol_into
  by unfold_locales (simp add: other_turn_protocol_from_def)

section \<open>Ping, address and control packets\<close>

text \<open>A packet with one private buffer is its buffer.\<close>

definition ping_new :: "bytes \<Rightarrow> bytes outcome" where
  "ping_new buffer = (if length buffer < 4 then Err (IoError InvalidData) else Ok buffer)"

definition ping_time :: "bytes \<Rightarrow> u16 outcome" where
  "ping_time b = get_u16 0 b"

definition ping_epoch :: "bytes \<Rightarrow> u16 outcome" where
  "ping_epoch b = get_u16 2 b"

definition ping_set_time :: "u16 \<Rightarrow> bytes \<Rightarrow> bytes outcome" where
  "ping_set_time time = set_u16 0 time"

definition ping_set_epoch :: "u16 \<Rightarrow> bytes \<Rightarrow> bytes outcome" where
  "ping_set_epoch epoch = set_u16 2 epoch"

definition addr_new :: "bytes \<Rightarrow> bytes outcome" where
  "addr_new buffer = (if length buffer < 6 then Err (IoError InvalidData) else Ok buffer)"

definition addr_ipv4 :: "bytes \<Rightarrow> ipv4_addr outcome" where
  "addr_ipv4 b = obind (byte_at b 0) (\<lambda>w. obind (byte_at b 1) (\<lambda>x. obind (byte_at b 2) (\<lambda>y.
     obind (byte_at b 3) (\<lambda>z. Ok (u32_be w x y z)))))"

definition addr_port :: "bytes \<Rightarrow> u16 outcome" where
  "addr_port b = get_u16 4 b"

definition addr_set_ipv4 :: "ipv4_addr \<Rightarrow> bytes \<Rightarrow> bytes outcome" where
  "addr_set_ipv4 ip = set_u32 0 ip"

definition addr_set_port :: "u16 \<Rightarrow> bytes \<Rightarrow> bytes outcome" where
  "addr_set_port port = set_u16 4 port"

datatype control_packet =
    PingPacket bytes | PongPacket bytes | PunchRequest | PunchResponse | AddrRequest |
    AddrResponse bytes

definition control_new :: "u8 \<Rightarrow> bytes \<Rightarrow> control_packet outcome" where
  "control_new protocol buffer = (case control_protocol_from protocol of
       CPing \<Rightarrow> omap PingPacket (ping_new buffer)
     | CPong \<Rightarrow> omap PongPacket (ping_new buffer)
     | CPunchRequest \<Rightarrow> Ok PunchRequest
     | CPunchResponse \<Rightarrow> Ok PunchResponse
     | CAddrRequest \<Rightarrow> Ok AddrRequest
     | CAddrResponse \<Rightarrow> omap AddrResponse (addr_new buffer)
     | CUnknown _ \<Rightarrow> Err (IoError InvalidData))"

datatype in_error_packet =
    InTokenError | InDisconnect | InAddressExhausted | InIpAlreadyExists | InInvalidIp | InNoKey |
    InOtherError bytes

definition in_error_new :: "u8 \<Rightarrow> bytes \<Rightarrow> in_error_packet outcome" where
  "in_error_new protocol buffer = (case error_protocol_from protocol of
       TokenError \<Rightarrow> Ok InTokenError
     | Disconnect \<Rightarrow> Ok InDisconnect
     | AddressExhausted \<Rightarrow> Ok InAddressExhausted
     | IpAlreadyExists \<Rightarrow> Ok InIpAlreadyExists
     | InvalidIp \<Rightarrow> Ok InInvalidIp
     | NoKey \<Rightarrow> Ok InNoKey
     | OtherErrorP _ \<Rightarrow> omap InOtherError (Ok buffer))"

section \<open>Broadcast packets\<close>

definition bc_addr_num :: "bytes \<Rightarrow> u8 outcome" where
  "bc_addr_num b = byte_at b 0"

definition bc_new :: "bytes \<Rightarrow> bytes outcome" where
  "bc_new b =
     (if length b < 2 + 4 then Err (IoError InvalidData)
      else obind (bc_addr_num b) (\<lambda>n. if n = 0 then Err (IoError InvalidData) else Ok b))"

text \<open>The loop of \<open>addresses\<close>: \<open>num\<close> addresses from \<open>offset\<close>, each octet with its bounds check.\<close>

fun bc_read_addresses :: "nat \<Rightarrow> nat \<Rightarrow> bytes \<Rightarrow> ipv4_addr list outcome" where
  "bc_read_addresses 0 offset b = Ok []"
| "bc_read_addresses (Suc num) offset b =
     obind (byte_at b offset) (\<lambda>w. obind (byte_at b (offset + 1)) (\<lambda>x.
     obind (byte_at b (offset + 2)) (\<lambda>y. obind (byte_at b (offset + 3)) (\<lambda>z.
       obind (bc_read_addresses num (offset + 4) b) (\<lambda>l. Ok (u32_be w x y z # l))))))"

definition bc_addresses :: "bytes \<Rightarrow> ipv4_addr list outcome" where
  "bc_addresses b = obind (bc_addr_num b) (\<lambda>n. bc_read_addresses (unat n) 1 b)"

definition bc_data :: "bytes \<Rightarrow> bytes outcome" where
  "bc_data b = obind (bc_addr_num b) (\<lambda>n.
     if length b < 1 + unat n * 4 then Err (IoError InvalidData)
     else slice b (1 + unat n * 4) (length b))"

fun bc_write_addresses :: "ipv4_addr list \<Rightarrow> nat \<Rightarrow> bytes \<Rightarrow> bytes outcome" where
  "bc_write_addresses [] offset b = Ok b"
| "bc_write_addresses (ip # ips) offset b =
     obind (set_u32 offset ip b) (bc_write_addresses ips (offset + 4))"

definition bc_set_address :: "ipv4_addr list \<Rightarrow> bytes \<Rightarrow> bytes outcome" where
  "bc_set_address addr b =
     (if length b < 1 + length addr * 4 \<or> 255 < length addr then Err (IoError InvalidData)
      else obind (put_byte 0 (of_nat (length addr)) b) (bc_write_addresses addr 1))"

definition bc_set_data :: "bytes \<Rightarrow> bytes \<Rightarrow> bytes outcome" where
  "bc_set_data data b = obind (bc_addr_num b) (\<lambda>n. let start = 1 + 4 * unat n in
     if length b \<le> start \<or> start + length data \<noteq> length b then Err (IoError InvalidData)
     else put_slice start (length b) data b)"

section \<open>Lemmas\<close>

interpretation ping_time: field_lens "\<lambda>b. 4 \<le> length b" ping_time ping_set_time "\<lambda>_. True"
  by unfold_locales (auto simp: ping_time_def ping_set_time_def buf_simps u16_to_be_def nth_append)

interpretation ping_epoch: field_lens "\<lambda>b. 4 \<le> length b" ping_epoch ping_set_epoch "\<lambda>_. True"
  by unfold_locales (auto simp: ping_epoch_def ping_set_epoch_def buf_simps u16_to_be_def nth_append)

lemma addr_ipv4_ok [buf_simps]: "6 \<le> length b \<Longrightarrow> addr_ipv4 b = Ok (u32_be (b ! 0) (b ! 1) (b ! 2) (b ! 3))"
  by (cases b) (auto simp: addr_ipv4_def byte_at_def)

interpretation addr_ipv4: field_lens "\<lambda>b. 6 \<le> length b" addr_ipv4 addr_set_ipv4 "\<lambda>_. True"
  by unfold_locales
     (auto simp: addr_set_ipv4_def buf_simps u32_to_be_def nth_append)

interpretation addr_port: field_lens "\<lambda>b. 6 \<le> length b" addr_port addr_set_port "\<lambda>_. True"
  by unfold_locales (auto simp: addr_port_def addr_set_port_def buf_simps u16_to_be_def nth_append)

lemma control_new_never_panics: "control_new p b \<noteq> Panic"
  by (auto simp: control_new_def ping_new_def addr_new_def split: control_protocol.splits)

lemma bc_write_addresses_ok:
  "offset + 4 * length ips \<le> length b \<Longrightarrow>
   bc_write_addresses ips offset b =
     Ok (take offset b @ concat (map u32_to_be ips) @ drop (offset + 4 * length ips) b)"
  by (induction ips offset b rule: bc_write_addresses.induct) (auto simp: buf_simps ac_simps)

lemma bc_read_addresses_ok:
  "offset = length pre \<Longrightarrow>
   bc_read_addresses (length ips) offset (pre @ concat (map u32_to_be ips) @ suf) = Ok ips"
proof (induction ips arbitrary: offset pre)
  case (Cons ip ips)
  have "bc_read_addresses (length ips) (length (pre @ u32_to_be ip))
      ((pre @ u32_to_be ip) @ concat (map u32_to_be ips) @ suf) = Ok ips"
    by (rule Cons.IH) simp
  moreover have four: "length pre + 4 = Suc (Suc (Suc (Suc (length pre))))" by simp
  ultimately show ?case
    using Cons.prems by (simp add: four buf_simps nth_append u32_to_be_def [of ip])
qed simp

lemma bc_set_address_ok:
  assumes "1 + length addr * 4 \<le> length b" and "length addr \<le> 255"
  shows "bc_set_address addr b =
    Ok (of_nat (length addr) # concat (map u32_to_be addr) @ drop (1 + 4 * length addr) b)"
proof -
  obtain x b' where "b = x # b'" using assms by (cases b) auto
  then show ?thesis
    using assms by (simp add: bc_set_address_def buf_simps bc_write_addresses_ok)
qed

lemma length_concat_addrs [simp]: "length (concat (map u32_to_be ips)) = 4 * length ips"
  by (induction ips) auto

text \<open>A broadcast packet built with a list of addresses and then the data that fills it gives back
  both: \<open>addresses\<close> and \<open>data\<close> read what \<open>set_address\<close> and \<open>set_data\<close> wrote.\<close>

theorem broadcast_roundtrip:
  assumes "length addr \<le> 255" and "length b = 1 + 4 * length addr + length data" and "data \<noteq> []"
  shows "\<exists>c. obind (bc_set_address addr b) (bc_set_data data) = Ok c \<and>
    bc_addresses c = Ok addr \<and> bc_data c = Ok data \<and>
    (addr \<noteq> [] \<longrightarrow> bc_new c = Ok c)"
proof -
  let ?c = "of_nat (length addr) # concat (map u32_to_be addr) @ data"
  have n: "unat (of_nat (length addr) :: u8) = length addr"
    using assms(1) by (simp add: unat_of_nat)
  have "obind (bc_set_address addr b) (bc_set_data data) = Ok ?c"
    using assms n
    by (simp add: bc_set_address_ok bc_set_data_def bc_addr_num_def byte_at_def put_slice_def Let_def)
  moreover have "bc_addresses ?c = Ok addr"
    using bc_read_addresses_ok [of 1 "[of_nat (length addr)]" addr data] n
    by (simp add: bc_addresses_def bc_addr_num_def byte_at_def)
  moreover have "bc_data ?c = Ok data"
    using n by (simp add: bc_data_def bc_addr_num_def byte_at_def slice_def)
  moreover have "bc_new ?c = Ok ?c" if "addr \<noteq> []"
  proof -
    have "0 < length addr" "0 < length data" using that assms(3) by auto
    moreover have "5 \<le> 4 * length addr + length data" using that assms(3) by (cases addr; cases data) auto
    moreover have "(of_nat (length addr) :: u8) \<noteq> 0"
      using n \<open>0 < length addr\<close> by (metis less_numeral_extra(3) unat_0)
    ultimately show ?thesis
      by (simp add: bc_new_def bc_addr_num_def byte_at_def)
  qed
  ultimately show ?thesis by blast
qed

lemma broadcast_roundtrip_witness:
  "\<exists>c. obind (bc_set_address [0x0A1A0002, 0x0A1A0003] (replicate 12 0)) (bc_set_data [7, 8, 9]) = Ok c \<and>
    bc_addresses c = Ok [0x0A1A0002, 0x0A1A0003] \<and> bc_data c = Ok [7, 8, 9] \<and>
    ([0x0A1A0002 :: ipv4_addr, 0x0A1A0003] \<noteq> [] \<longrightarrow> bc_new c = Ok c)"
  by (rule broadcast_roundtrip) simp_all

lemma bc_read_addresses_short:
  "0 < num \<Longrightarrow> length b < offset + 4 * num \<Longrightarrow> bc_read_addresses num offset b = Panic"
proof (induction num arbitrary: offset)
  case (Suc num)
  show ?case
  proof (cases "offset + 4 \<le> length b")
    case True
    then have "0 < num" using Suc.prems by (cases num) auto
    then show ?thesis using True Suc by (simp add: byte_at_def)
  qed (auto simp: byte_at_def)
qed simp

text \<open>\<open>new\<close> checks room for one address only: a received broadcast packet that announces more
  addresses than it holds is accepted, and \<open>addresses\<close> then indexes past its end, while \<open>data\<close>
  reports the error.\<close>

theorem broadcast_addresses_panic:
  assumes "6 \<le> length b" and "length b < 1 + 4 * unat (b ! 0)"
  shows "bc_new b = Ok b \<and> bc_addresses b = Panic \<and> bc_data b = Err (IoError InvalidData)"
proof -
  have "b \<noteq> []" and n: "0 < unat (b ! 0)" using assms by auto
  then have "b ! 0 \<noteq> 0" by (metis less_numeral_extra(3) unat_0)
  then show ?thesis
    using assms n \<open>b \<noteq> []\<close> bc_read_addresses_short [OF n, of b 1]
    by (simp add: bc_new_def bc_addr_num_def byte_at_def bc_addresses_def bc_data_def)
qed

lemma broadcast_addresses_panic_witness:
  "bc_new [2, 10, 26, 0, 2, 10] = Ok [2, 10, 26, 0, 2, 10] \<and> bc_addresses [2, 10, 26, 0, 2, 10] = Panic \<and>
   bc_data [2, 10, 26, 0, 2, 10] = Err (IoError InvalidData)"
  by (rule broadcast_addresses_panic) simp_all

end
