(* ===== verification/Device_Info.thy ===== *)
theory Device_Info
  imports Channel_Types
begin

text \<open>
  \<open>vnt/src/handle/mod.rs\<close>: what a node knows of itself and of its peers. Addresses are 32-bit words;
  the current device sits in an atomic cell, and \<open>change_status\<close> is its compare-and-exchange loop.
\<close>

definition SELF_IP :: ipv4_addr where
  "SELF_IP = 2"

definition GATEWAY_IP :: ipv4_addr where
  "GATEWAY_IP = 1"

text \<open>\<open>now_time\<close>: milliseconds since the epoch, zero when the clock is before it.\<close>

definition now_time :: "(u64 \<times> u32) option \<Rightarrow> u64" where
  "now_time since = (case since of Some (secs, millis) \<Rightarrow> secs * 1000 + ucast millis | None \<Rightarrow> 0)"

section \<open>Address classes\<close>

text \<open>\<open>std::net::Ipv4Addr\<close>: \<open>is_unspecified\<close>, \<open>is_broadcast\<close>, \<open>is_multicast\<close>.\<close>

definition is_unspecified :: "ipv4_addr \<Rightarrow> bool" where
  "is_unspecified a \<longleftrightarrow> a = 0"

definition BROADCAST :: ipv4_addr where
  "BROADCAST = 0xFFFFFFFF"

definition is_broadcast :: "ipv4_addr \<Rightarrow> bool" where
  "is_broadcast a \<longleftrightarrow> a = BROADCAST"

definition is_multicast :: "ipv4_addr \<Rightarrow> bool" where
  "is_multicast a \<longleftrightarrow> (let o0 = drop_bit 24 a in 224 \<le> o0 \<and> o0 \<le> 239)"

section \<open>Peers\<close>

datatype peer_device_status = Online | Offline

definition is_online :: "peer_device_status \<Rightarrow> bool" where
  "is_online s \<longleftrightarrow> s = Online"

definition is_offline :: "peer_device_status \<Rightarrow> bool" where
  "is_offline s \<longleftrightarrow> s = Offline"

primrec peer_device_status_into :: "peer_device_status \<Rightarrow> u8" where
  "peer_device_status_into Online = 0"
| "peer_device_status_into Offline = 1"

definition peer_device_status_from :: "u8 \<Rightarrow> peer_device_status" where
  "peer_device_status_from value = (if value = 0 then Online else Offline)"

record peer_device_info =
  pd_virtual_ip :: ipv4_addr
  pd_name :: string
  pd_status :: peer_device_status
  pd_client_secret :: bool
  pd_client_secret_hash :: bytes
  pd_wireguard :: bool

definition peer_device_info_new :: "ipv4_addr \<Rightarrow> string \<Rightarrow> u8 \<Rightarrow> bool \<Rightarrow> bytes \<Rightarrow> bool \<Rightarrow> peer_device_info" where
  "peer_device_info_new virtual_ip name status client_secret client_secret_hash wireguard =
     \<lparr>pd_virtual_ip = virtual_ip, pd_name = name, pd_status = peer_device_status_from status,
      pd_client_secret = client_secret, pd_client_secret_hash = client_secret_hash, pd_wireguard = wireguard\<rparr>"

section \<open>The current device\<close>

datatype connect_status = Connecting | Connected

definition cs_online :: "connect_status \<Rightarrow> bool" where
  "cs_online s \<longleftrightarrow> s = Connected"

definition cs_offline :: "connect_status \<Rightarrow> bool" where
  "cs_offline s \<longleftrightarrow> s = Connecting"

record current_device_info =
  cd_virtual_ip :: ipv4_addr
  cd_virtual_netmask :: ipv4_addr
  cd_virtual_gateway :: ipv4_addr
  cd_virtual_network :: ipv4_addr
  cd_broadcast_ip :: ipv4_addr
  cd_connect_server :: socket_addr
  cd_status :: connect_status

definition current_device_new :: "ipv4_addr \<Rightarrow> ipv4_addr \<Rightarrow> ipv4_addr \<Rightarrow> socket_addr \<Rightarrow> current_device_info" where
  "current_device_new virtual_ip virtual_netmask virtual_gateway connect_server =
     \<lparr>cd_virtual_ip = virtual_ip, cd_virtual_netmask = virtual_netmask, cd_virtual_gateway = virtual_gateway,
      cd_virtual_network = virtual_netmask AND virtual_gateway,
      cd_broadcast_ip = NOT virtual_netmask OR virtual_gateway,
      cd_connect_server = connect_server, cd_status = Connecting\<rparr>"

definition current_device_new0 :: "socket_addr \<Rightarrow> current_device_info" where
  "current_device_new0 connect_server =
     \<lparr>cd_virtual_ip = 0, cd_virtual_netmask = 0, cd_virtual_gateway = 0, cd_virtual_network = 0,
      cd_broadcast_ip = 0, cd_connect_server = connect_server, cd_status = Connecting\<rparr>"

definition current_device_update :: "ipv4_addr \<Rightarrow> ipv4_addr \<Rightarrow> ipv4_addr \<Rightarrow> current_device_info \<Rightarrow> current_device_info" where
  "current_device_update virtual_ip virtual_netmask virtual_gateway d =
     d\<lparr>cd_virtual_ip := virtual_ip, cd_virtual_netmask := virtual_netmask, cd_virtual_gateway := virtual_gateway,
       cd_broadcast_ip := NOT virtual_netmask OR virtual_ip,
       cd_virtual_network := virtual_netmask AND virtual_ip\<rparr>"

definition cd_is_gateway :: "ipv4_addr \<Rightarrow> current_device_info \<Rightarrow> bool" where
  "cd_is_gateway ip d \<longleftrightarrow> cd_virtual_gateway d = ip \<or> ip = GATEWAY_IP"

definition not_in_network :: "ipv4_addr \<Rightarrow> current_device_info \<Rightarrow> bool" where
  "not_in_network ip d \<longleftrightarrow> ip AND cd_virtual_netmask d \<noteq> cd_virtual_network d"

text \<open>\<open>Ipv6Addr::to_ipv4\<close>: mapped (\<open>::ffff:a.b.c.d\<close>) and compatible (\<open>::a.b.c.d\<close>) addresses.\<close>

definition ipv6_to_ipv4 :: "128 word \<Rightarrow> ipv4_addr option" where
  "ipv6_to_ipv4 a = (let high = drop_bit 32 a in
     if high = 0 \<or> high = 0xFFFF then Some (ucast a) else None)"

definition sock_ipv4 :: "socket_addr \<Rightarrow> ipv4_addr option" where
  "sock_ipv4 a = (case a of SockV4 ip _ \<Rightarrow> Some ip | SockV6 ip _ _ _ \<Rightarrow> ipv6_to_ipv4 ip)"

definition is_server_addr :: "socket_addr \<Rightarrow> current_device_info \<Rightarrow> bool" where
  "is_server_addr addr d \<longleftrightarrow>
     (if cd_connect_server d = addr then True
      else sock_port addr = sock_port (cd_connect_server d) \<and> sock_ipv4 addr = sock_ipv4 (cd_connect_server d))"

text \<open>\<open>change_status\<close>: between the load and the exchange of each turn other threads may have stored
  something else; \<open>others\<close> lists what they do in the successive turns.\<close>

fun change_status :: "connect_status \<Rightarrow> (current_device_info \<Rightarrow> current_device_info) list \<Rightarrow>
    current_device_info \<Rightarrow> current_device_info \<times> current_device_info" where
  "change_status s [] cell = (let new = cell\<lparr>cd_status := s\<rparr> in (new, new))"
| "change_status s (f # others) cell =
     (if f cell = cell then (let new = cell\<lparr>cd_status := s\<rparr> in (new, new))
      else change_status s others (f cell))"

section \<open>Lemmas\<close>

text \<open>The loop stores the status over whatever the other threads stored last, and loses none of it.\<close>

lemma change_status_result:
  "\<exists>k \<le> length others. change_status s others cell =
    (let new = (fold (\<lambda>g. g) (take k others) cell)\<lparr>cd_status := s\<rparr> in (new, new))"
proof (induction s others cell rule: change_status.induct)
  case (2 s f others cell)
  show ?case
  proof (cases "f cell = cell")
    case True
    then show ?thesis by (intro exI [of _ 0]) simp
  next
    case False
    then obtain k where "k \<le> length others" "change_status s others (f cell) =
        (let new = (fold (\<lambda>g. g) (take k others) (f cell))\<lparr>cd_status := s\<rparr> in (new, new))"
      using 2 by blast
    then show ?thesis using False by (intro exI [of _ "Suc k"]) simp
  qed
qed simp

text \<open>Addresses of the device's subnet are exactly those that pass \<open>not_in_network\<close>, the device and
  its broadcast address among them.\<close>

lemma update_in_network:
  assumes "d' = current_device_update ip netmask gateway d"
  shows "\<not> not_in_network ip d'" "\<not> not_in_network (cd_broadcast_ip d') d'"
    "not_in_network a d' \<longleftrightarrow> a AND netmask \<noteq> ip AND netmask"
proof -
  have b: "(NOT netmask OR ip) AND netmask = ip AND netmask"
    by (rule bit_word_eqI) (auto simp: bit_simps)
  show "\<not> not_in_network ip d'" "\<not> not_in_network (cd_broadcast_ip d') d'"
    "not_in_network a d' \<longleftrightarrow> a AND netmask \<noteq> ip AND netmask"
    using assms b by (simp_all add: not_in_network_def current_device_update_def and.commute)
qed

end
