(* ===== verification/Nat_Info.thy ===== *)
theory Nat_Info
  imports Channel_Context Device_Info Ascii_Text
begin

text \<open>
  What a node knows of its own and its peers' position behind NAT: \<open>NatInfo\<close>, \<open>NatType\<close> and
  \<open>PunchModel\<close> of \<open>vnt/src/channel/punch.rs\<close>, the address classes and \<open>NatTest\<close> of
  \<open>vnt/src/nat/mod.rs\<close>. Name resolution and the STUN message format are parameters where they occur;
  the interface probing by connected sockets (\<open>local_ipv4_\<close>, \<open>local_ipv6_\<close>) is not modelled.
\<close>

section \<open>Address classes\<close>

text \<open>Octets of an IPv4 address and segments of an IPv6 address, the first one first.\<close>

definition octet :: "nat \<Rightarrow> ipv4_addr \<Rightarrow> u8" where
  "octet i a = ucast (drop_bit (24 - 8 * i) a)"

definition segment :: "nat \<Rightarrow> 128 word \<Rightarrow> u16" where
  "segment i a = ucast (drop_bit (112 - 16 * i) a)"

text \<open>The predicates of \<open>std::net\<close> the code calls.\<close>

definition is_loopback :: "ipv4_addr \<Rightarrow> bool" where
  "is_loopback a \<longleftrightarrow> octet 0 a = 127"

definition is_private :: "ipv4_addr \<Rightarrow> bool" where
  "is_private a \<longleftrightarrow> octet 0 a = 10 \<or> octet 0 a = 172 \<and> 16 \<le> octet 1 a \<and> octet 1 a \<le> 31 \<or>
     octet 0 a = 192 \<and> octet 1 a = 168"

definition is_link_local :: "ipv4_addr \<Rightarrow> bool" where
  "is_link_local a \<longleftrightarrow> octet 0 a = 169 \<and> octet 1 a = 254"

definition is_documentation :: "ipv4_addr \<Rightarrow> bool" where
  "is_documentation a \<longleftrightarrow> octet 0 a = 192 \<and> octet 1 a = 0 \<and> octet 2 a = 2 \<or>
     octet 0 a = 198 \<and> octet 1 a = 51 \<and> octet 2 a = 100 \<or> octet 0 a = 203 \<and> octet 1 a = 0 \<and> octet 2 a = 113"

definition is_ipv4_global :: "ipv4_addr \<Rightarrow> bool" where
  "is_ipv4_global a \<longleftrightarrow> \<not> (octet 0 a = 0 \<or> is_private a
     \<or> octet 0 a = 100 \<and> octet 1 a AND 0xC0 = 0x40
     \<or> is_loopback a \<or> is_link_local a
     \<or> octet 0 a = 192 \<and> octet 1 a = 0 \<and> octet 2 a = 0 \<and> octet 3 a \<noteq> 9 \<and> octet 3 a \<noteq> 10
     \<or> is_documentation a
     \<or> octet 0 a = 198 \<and> octet 1 a AND 0xFE = 18
     \<or> octet 0 a AND 240 = 240 \<and> \<not> is_broadcast a
     \<or> is_broadcast a)"

definition is_ipv6_global :: "128 word \<Rightarrow> bool" where
  "is_ipv6_global a \<longleftrightarrow> (let s = (\<lambda>i. segment i a) in \<not> (a = 0 \<or> a = 1
     \<or> s 0 = 0 \<and> s 1 = 0 \<and> s 2 = 0 \<and> s 3 = 0 \<and> s 4 = 0 \<and> s 5 = 0xFFFF
     \<or> s 0 = 0x64 \<and> s 1 = 0xFF9B \<and> s 2 = 1
     \<or> s 0 = 0x100 \<and> s 1 = 0 \<and> s 2 = 0 \<and> s 3 = 0
     \<or> s 0 = 0x2001 \<and> s 1 < 0x200 \<and>
         \<not> (a = 0x20010001000000000000000000000001 \<or> a = 0x20010001000000000000000000000002
           \<or> s 0 = 0x2001 \<and> s 1 = 3 \<or> s 0 = 0x2001 \<and> s 1 = 4 \<and> s 2 = 0x112
           \<or> s 0 = 0x2001 \<and> 0x20 \<le> s 1 \<and> s 1 \<le> 0x2F)
     \<or> s 0 = 0x2001 \<and> s 1 = 0xDB8
     \<or> s 0 AND 0xFE00 = 0xFC00
     \<or> s 0 AND 0xFFC0 = 0xFE80))"

section \<open>\<open>PunchModel\<close>\<close>

datatype punch_model = PmAll | PmIPv4 | PmIPv6 | PmIPv4Tcp | PmIPv4Udp | PmIPv6Tcp | PmIPv6Udp

definition use_tcp :: "punch_model \<Rightarrow> bool" where
  "use_tcp m \<longleftrightarrow> m \<noteq> PmIPv4Udp \<and> m \<noteq> PmIPv6Udp"

definition use_udp :: "punch_model \<Rightarrow> bool" where
  "use_udp m \<longleftrightarrow> m \<noteq> PmIPv4Tcp \<and> m \<noteq> PmIPv6Tcp"

definition use_ipv6 :: "punch_model \<Rightarrow> bool" where
  "use_ipv6 m \<longleftrightarrow> m = PmAll \<or> m = PmIPv6 \<or> m = PmIPv6Tcp \<or> m = PmIPv6Udp"

definition use_ipv4 :: "punch_model \<Rightarrow> bool" where
  "use_ipv4 m \<longleftrightarrow> m = PmAll \<or> m = PmIPv4 \<or> m = PmIPv4Tcp \<or> m = PmIPv4Udp"

definition punch_model_from_str :: "string \<Rightarrow> punch_model option" where
  "punch_model_from_str s = (let t = str_trim (List.map ascii_lower s) in
     if t = ''ipv4'' then Some PmIPv4 else if t = ''ipv6'' then Some PmIPv6
     else if t = ''ipv4-tcp'' then Some PmIPv4Tcp else if t = ''ipv4-udp'' then Some PmIPv4Udp
     else if t = ''ipv6-tcp'' then Some PmIPv6Tcp else if t = ''ipv6-udp'' then Some PmIPv6Udp
     else if t = ''all'' then Some PmAll else None)"

definition punch_model_default :: punch_model where
  "punch_model_default = PmAll"

text \<open>\<open>PunchNatModel\<close> and \<open>PunchNatType\<close> of \<open>proto/message.proto\<close>.\<close>

datatype punch_nat_model = NmAll | NmIPv4 | NmIPv6 | NmIPv4Tcp | NmIPv4Udp | NmIPv6Tcp | NmIPv6Udp

datatype punch_nat_type = NtSymmetric | NtCone

primrec punch_nat_model_from :: "punch_model \<Rightarrow> punch_nat_model" where
  "punch_nat_model_from PmAll = NmAll"
| "punch_nat_model_from PmIPv4 = NmIPv4"
| "punch_nat_model_from PmIPv6 = NmIPv6"
| "punch_nat_model_from PmIPv4Tcp = NmIPv4Tcp"
| "punch_nat_model_from PmIPv4Udp = NmIPv4Udp"
| "punch_nat_model_from PmIPv6Tcp = NmIPv6Tcp"
| "punch_nat_model_from PmIPv6Udp = NmIPv6Udp"

primrec punch_nat_model_into :: "punch_nat_model \<Rightarrow> punch_model" where
  "punch_nat_model_into NmAll = PmAll"
| "punch_nat_model_into NmIPv4 = PmIPv4"
| "punch_nat_model_into NmIPv6 = PmIPv6"
| "punch_nat_model_into NmIPv4Tcp = PmIPv4Tcp"
| "punch_nat_model_into NmIPv4Udp = PmIPv4Udp"
| "punch_nat_model_into NmIPv6Tcp = PmIPv6Tcp"
| "punch_nat_model_into NmIPv6Udp = PmIPv6Udp"

definition nat_is_cone :: "nat_type \<Rightarrow> bool" where
  "nat_is_cone t \<longleftrightarrow> t = Cone"

primrec punch_nat_type_from :: "nat_type \<Rightarrow> punch_nat_type" where
  "punch_nat_type_from Symmetric = NtSymmetric"
| "punch_nat_type_from Cone = NtCone"

primrec punch_nat_type_into :: "punch_nat_type \<Rightarrow> nat_type" where
  "punch_nat_type_into NtSymmetric = Symmetric"
| "punch_nat_type_into NtCone = Cone"

interpretation punch_nat_model: wire_enum punch_nat_model_into punch_nat_model_from
proof
  show "punch_nat_model_from (punch_nat_model_into w) = w" for w by (cases w) simp_all
qed

interpretation punch_nat_type: wire_enum punch_nat_type_into punch_nat_type_from
proof
  show "punch_nat_type_from (punch_nat_type_into w) = w" for w by (cases w) simp_all
qed

section \<open>\<open>NatInfo\<close>\<close>

record nat_info =
  ni_public_ips :: "ipv4_addr list"
  ni_public_ports :: "u16 list"
  ni_public_port_range :: u16
  ni_nat_type :: nat_type
  ni_local_ipv4 :: "ipv4_addr option"
  ni_ipv6 :: "128 word option"
  ni_udp_ports :: "u16 list"
  ni_tcp_port :: u16
  ni_public_tcp_port :: u16
  ni_punch_model :: punch_model

definition ipv6_is_multicast :: "128 word \<Rightarrow> bool" where
  "ipv6_is_multicast a \<longleftrightarrow> segment 0 a AND 0xFF00 = 0xFF00"

definition nat_info_new :: "ipv4_addr list \<Rightarrow> u16 list \<Rightarrow> u16 \<Rightarrow> ipv4_addr option \<Rightarrow> 128 word option \<Rightarrow>
    u16 list \<Rightarrow> u16 \<Rightarrow> u16 \<Rightarrow> nat_type \<Rightarrow> punch_model \<Rightarrow> nat_info" where
  "nat_info_new public_ips public_ports public_port_range local_ipv4 ipv6 udp_ports tcp_port public_tcp_port
     nat_type punch_model =
     (let ips = filter (\<lambda>ip. \<not> is_multicast ip \<and> \<not> is_broadcast ip \<and> \<not> is_unspecified ip \<and> \<not> is_loopback ip \<and>
            \<not> is_private ip) public_ips
      in \<lparr>ni_public_ips = ips, ni_public_ports = public_ports, ni_public_port_range = public_port_range,
          ni_nat_type = (if 1 < length ips then Symmetric else nat_type),
          ni_local_ipv4 = (case local_ipv4 of
              Some ip \<Rightarrow> if is_multicast ip \<or> is_broadcast ip \<or> is_unspecified ip \<or> is_loopback ip then None else Some ip
            | None \<Rightarrow> None),
          ni_ipv6 = (case ipv6 of
              Some ip \<Rightarrow> if ipv6_is_multicast ip \<or> ip = 0 \<or> ip = 1 then None else Some ip
            | None \<Rightarrow> None),
          ni_udp_ports = udp_ports, ni_tcp_port = tcp_port, ni_public_tcp_port = public_tcp_port,
          ni_punch_model = punch_model\<rparr>)"

definition ni_update_addr :: "nat \<Rightarrow> ipv4_addr \<Rightarrow> u16 \<Rightarrow> nat_info \<Rightarrow> bool \<times> nat_info" where
  "ni_update_addr index ip port n =
     (let (updated, n) = (if port \<noteq> 0 \<and> index < length (ni_public_ports n)
            then (ni_public_ports n ! index \<noteq> port, n\<lparr>ni_public_ports := (ni_public_ports n)[index := port]\<rparr>)
            else (False, n))
      in if is_ipv4_global ip \<and> ip \<notin> set (ni_public_ips n)
         then (True, n\<lparr>ni_public_ips := ni_public_ips n @ [ip]\<rparr>) else (updated, n))"

definition ni_update_tcp_port :: "u16 \<Rightarrow> nat_info \<Rightarrow> nat_info" where
  "ni_update_tcp_port port n = n\<lparr>ni_public_tcp_port := port\<rparr>"

definition local_udp_ipv4addr :: "nat \<Rightarrow> nat_info \<Rightarrow> socket_addr option" where
  "local_udp_ipv4addr index n = (let len = length (ni_udp_ports n) in
     if len = 0 then None
     else (case ni_local_ipv4 n of
         Some ip \<Rightarrow> Some (SockV4 ip (ni_udp_ports n ! (index mod len))) | None \<Rightarrow> None))"

definition local_udp_ipv6addr :: "nat \<Rightarrow> nat_info \<Rightarrow> socket_addr option" where
  "local_udp_ipv6addr index n = (let len = length (ni_udp_ports n) in
     if len = 0 then None
     else (case ni_ipv6 n of
         Some ip \<Rightarrow> Some (SockV6 ip (ni_udp_ports n ! (index mod len)) 0 0) | None \<Rightarrow> None))"

definition local_tcp_ipv6addr :: "nat_info \<Rightarrow> socket_addr option" where
  "local_tcp_ipv6addr n = (if ni_tcp_port n = 0 then None
     else (case ni_ipv6 n of Some ip \<Rightarrow> Some (SockV6 ip (ni_tcp_port n) 0 0) | None \<Rightarrow> None))"

definition local_tcp_ipv4addr :: "nat_info \<Rightarrow> socket_addr option" where
  "local_tcp_ipv4addr n = (if ni_tcp_port n = 0 then None
     else (case ni_local_ipv4 n of Some ip \<Rightarrow> Some (SockV4 ip (ni_tcp_port n)) | None \<Rightarrow> None))"

section \<open>\<open>NatTest\<close>\<close>

record nat_test =
  nt_stun_server :: "string list"
  nt_info :: nat_info
  nt_time :: nanos
  nt_udp_ports :: "u16 list"
  nt_tcp_port :: u16
  nt_update_local_ipv4 :: bool

text \<open>\<open>now\<close> is the clock at construction, a minute and more after the epoch of the clock.\<close>

definition nat_test_new :: "string list \<Rightarrow> ipv4_addr option \<Rightarrow> 128 word option \<Rightarrow> u16 list \<Rightarrow> u16 \<Rightarrow> bool \<Rightarrow>
    punch_model \<Rightarrow> nanos \<Rightarrow> nat_test" where
  "nat_test_new stun_server local_ipv4 ipv6 udp_ports tcp_port update_local_ipv4 punch_model now =
     \<lparr>nt_stun_server = stun_server,
      nt_info = nat_info_new [] (replicate (length udp_ports) 0) 0 local_ipv4 ipv6 udp_ports tcp_port 0 Cone punch_model,
      nt_time = (if 100 * NANOS \<le> now then now - 100 * NANOS else now),
      nt_udp_ports = udp_ports, nt_tcp_port = tcp_port, nt_update_local_ipv4 = update_local_ipv4\<rparr>"

text \<open>\<open>can_update\<close> when no other thread updates the time in between; \<open>now\<close> is read twice.\<close>

definition nt_can_update :: "nanos \<Rightarrow> nanos \<Rightarrow> nat_test \<Rightarrow> bool \<times> nat_test" where
  "nt_can_update now now' t = (if 10 * NANOS < now - nt_time t then (True, t\<lparr>nt_time := now'\<rparr>) else (False, t))"

definition is_local_udp :: "ipv4_addr \<Rightarrow> u16 \<Rightarrow> nat_test \<Rightarrow> bool" where
  "is_local_udp ipv4 port t \<longleftrightarrow> port \<in> set (nt_udp_ports t) \<and> ni_local_ipv4 (nt_info t) = Some ipv4"

definition is_local_tcp :: "ipv4_addr \<Rightarrow> u16 \<Rightarrow> nat_test \<Rightarrow> bool" where
  "is_local_tcp ipv4 port t \<longleftrightarrow> nt_tcp_port t = port \<and> ni_local_ipv4 (nt_info t) = Some ipv4"

definition is_local_address :: "bool \<Rightarrow> socket_addr \<Rightarrow> nat_test \<Rightarrow> bool" where
  "is_local_address over_tcp addr t =
     (let check_ip = (case addr of
            SockV4 ip _ \<Rightarrow> ni_local_ipv4 (nt_info t) = Some ip
          | SockV6 ip _ _ _ \<Rightarrow> ni_ipv6 (nt_info t) = Some ip)
      in if over_tcp then nt_tcp_port t = sock_port addr \<and> check_ip
         else sock_port addr \<in> set (nt_udp_ports t) \<and> check_ip)"

definition nt_update_addr :: "nat \<Rightarrow> ipv4_addr \<Rightarrow> u16 \<Rightarrow> nat_test \<Rightarrow> bool \<times> nat_test" where
  "nt_update_addr index ip port t = (case ni_update_addr index ip port (nt_info t) of
     (updated, n) \<Rightarrow> (updated, t\<lparr>nt_info := n\<rparr>))"

definition nt_update_tcp_port :: "u16 \<Rightarrow> nat_test \<Rightarrow> nat_test" where
  "nt_update_tcp_port port t = t\<lparr>nt_info := ni_update_tcp_port port (nt_info t)\<rparr>"

section \<open>Lemmas\<close>

text \<open>The local addresses a peer is told never carry an unusable address.\<close>

lemma nat_info_new_ips:
  "ip \<in> set (ni_public_ips (nat_info_new ips ports rg l4 v6 up tp ptp ty pm)) \<Longrightarrow>
    \<not> is_private ip \<and> \<not> is_loopback ip \<and> \<not> is_multicast ip"
  by (simp add: nat_info_new_def Let_def)

text \<open>Recording an answered address keeps the number of ports and never forgets an address.\<close>

lemma ni_update_addr_mono:
  assumes "ni_update_addr index ip port n = (u, n')"
  shows "length (ni_public_ports n') = length (ni_public_ports n)" "set (ni_public_ips n) \<subseteq> set (ni_public_ips n')"
    "ni_udp_ports n' = ni_udp_ports n" "u \<longleftrightarrow> n' \<noteq> n"
proof -
  have nochange: "xs[i := x] = xs \<longleftrightarrow> i < length xs \<longrightarrow> xs ! i = x" for xs :: "u16 list" and i x
    by (metis list_update_beyond list_update_id not_le nth_list_update_eq)
  have upd: "n\<lparr>ni_public_ports := x\<rparr> = n \<longleftrightarrow> x = ni_public_ports n"
    "n\<lparr>ni_public_ports := x, ni_public_ips := y\<rparr> = n \<longleftrightarrow> x = ni_public_ports n \<and> y = ni_public_ips n"
    "n\<lparr>ni_public_ips := y\<rparr> = n \<longleftrightarrow> y = ni_public_ips n" for x y
    by (cases n; auto)+
  show "length (ni_public_ports n') = length (ni_public_ports n)" "set (ni_public_ips n) \<subseteq> set (ni_public_ips n')"
    "ni_udp_ports n' = ni_udp_ports n" "u \<longleftrightarrow> n' \<noteq> n"
    using assms by (auto simp: ni_update_addr_def Let_def upd nochange split: if_splits)
qed

end
