(* ===== verification/Proto_Messages.thy ===== *)
theory Proto_Messages
  imports Nat_Info
begin

text \<open>
  The messages of \<open>vnt/proto/message.proto\<close> that the handlers read and write. The encoder and the
  decoder are generated from that file when the crate is built, by a crate that is not part of the
  repository: the record \<open>proto\<close> holds them. \<open>proto_ok\<close> is their documented contract, that decoding
  undoes encoding.
\<close>

record handshake_request =
  hq_version :: string
  hq_secret :: bool
  hq_key_finger :: string

record handshake_response =
  hr_version :: string
  hr_secret :: bool
  hr_public_key :: bytes
  hr_key_finger :: string

record secret_handshake_request =
  sq_token :: string
  sq_key :: bytes

record registration_request =
  rq_token :: string
  rq_device_id :: string
  rq_name :: string
  rq_is_fast :: bool
  rq_version :: string
  rq_virtual_ip :: u32
  rq_allow_ip_change :: bool
  rq_client_secret :: bool
  rq_client_secret_hash :: bytes

record device_message =
  dm_name :: string
  dm_virtual_ip :: u32
  dm_device_status :: u32
  dm_client_secret :: bool
  dm_client_secret_hash :: bytes
  dm_wireguard :: bool

record registration_response =
  rr_virtual_ip :: u32
  rr_virtual_gateway :: u32
  rr_virtual_netmask :: u32
  rr_epoch :: u32
  rr_device_info_list :: "device_message list"
  rr_public_ip :: u32
  rr_public_port :: u32

record device_list =
  dl_epoch :: u32
  dl_device_info_list :: "device_message list"

text \<open>An enumeration field with an unknown code reads as the default, \<open>enum_value_or_default\<close>.\<close>

record punch_info =
  pi_public_ip_list :: "u32 list"
  pi_public_port :: u32
  pi_public_port_range :: u32
  pi_nat_type :: punch_nat_type
  pi_reply :: bool
  pi_local_ip :: u32
  pi_local_port :: u32
  pi_ipv6 :: bytes
  pi_ipv6_port :: u32
  pi_tcp_port :: u32
  pi_udp_ports :: "u32 list"
  pi_public_ports :: "u32 list"
  pi_public_tcp_port :: u32
  pi_punch_model :: punch_nat_model

definition punch_info_empty :: punch_info where
  "punch_info_empty = \<lparr>pi_public_ip_list = [], pi_public_port = 0, pi_public_port_range = 0,
     pi_nat_type = NtSymmetric, pi_reply = False, pi_local_ip = 0, pi_local_port = 0, pi_ipv6 = [], pi_ipv6_port = 0,
     pi_tcp_port = 0, pi_udp_ports = [], pi_public_ports = [], pi_public_tcp_port = 0, pi_punch_model = NmAll\<rparr>"

record client_status_info =
  cs_source :: u32
  cs_p2p_list :: "u32 list"
  cs_up_stream :: u64
  cs_down_stream :: u64
  cs_nat_type :: punch_nat_type

text \<open>\<open>write_to_bytes\<close> and \<open>parse_from_bytes\<close>, and the version string of the crate.\<close>

record proto =
  pr_version :: string
  pr_handshake_request :: "handshake_request \<Rightarrow> bytes option"
  pr_parse_handshake_response :: "bytes \<Rightarrow> handshake_response option"
  pr_secret_handshake_request :: "secret_handshake_request \<Rightarrow> bytes option"
  pr_registration_request :: "registration_request \<Rightarrow> bytes option"
  pr_parse_registration_response :: "bytes \<Rightarrow> registration_response option"
  pr_parse_device_list :: "bytes \<Rightarrow> device_list option"
  pr_punch_info :: "punch_info \<Rightarrow> bytes option"
  pr_parse_punch_info :: "bytes \<Rightarrow> punch_info option"
  pr_client_status_info :: "client_status_info \<Rightarrow> bytes option"

definition proto_ok :: "proto \<Rightarrow> bool" where
  "proto_ok P \<longleftrightarrow> (\<forall>m b. pr_punch_info P m = Some b \<longrightarrow> pr_parse_punch_info P b = Some m)"

text \<open>\<open>write_to_bytes().map_err(..)?\<close> and \<open>parse_from_bytes(..).map_err(..)?\<close>\<close>

definition or_error :: "string \<Rightarrow> 'a option \<Rightarrow> 'a outcome" where
  "or_error msg x = (case x of Some v \<Rightarrow> Ok v | None \<Rightarrow> Err (AnyError msg))"

definition or_io_error :: "error_kind \<Rightarrow> 'a option \<Rightarrow> 'a outcome" where
  "or_io_error k x = (case x of Some v \<Rightarrow> Ok v | None \<Rightarrow> Err (IoError k))"

lemma or_error_simps [simp]:
  "or_error m (Some v) = Ok v" "or_error m None = Err (AnyError m)" "or_error m x \<noteq> Panic"
  "or_io_error k (Some v) = Ok v" "or_io_error k None = Err (IoError k)" "or_io_error k x \<noteq> Panic"
  by (auto simp: or_error_def or_io_error_def split: option.splits)

section \<open>A node's NAT information as a message\<close>

text \<open>\<open>PunchInfo\<close> as both the request of \<open>handle/maintain/punch.rs\<close> and the reply of
  \<open>handle/recv_data/client.rs\<close> fill it in; the first UDP port is indexed without a check.\<close>

definition ipv6_octets :: "128 word \<Rightarrow> bytes" where
  "ipv6_octets ip = concat (List.map (\<lambda>i. u16_to_be (segment i ip)) [0..<8])"

definition punch_info_of :: "bool \<Rightarrow> nat_info \<Rightarrow> punch_info outcome" where
  "punch_info_of reply n = (case ni_udp_ports n of
     [] \<Rightarrow> Panic
   | port # ports \<Rightarrow> Ok (punch_info_empty\<lparr>pi_reply := reply, pi_public_ip_list := ni_public_ips n,
       pi_public_port := (case ni_public_ports n of [] \<Rightarrow> 0 | v # vs \<Rightarrow> ucast v),
       pi_public_ports := List.map ucast (ni_public_ports n),
       pi_public_port_range := ucast (ni_public_port_range n),
       pi_tcp_port := ucast (ni_tcp_port n), pi_public_tcp_port := ucast (ni_public_tcp_port n),
       pi_nat_type := punch_nat_type_from (ni_nat_type n),
       pi_punch_model := punch_nat_model_from (ni_punch_model n),
       pi_local_ip := (case ni_local_ipv4 n of Some ip \<Rightarrow> ip | None \<Rightarrow> 0),
       pi_local_port := ucast port, pi_udp_ports := List.map ucast (port # ports),
       pi_ipv6 := (case ni_ipv6 n of
           Some ip \<Rightarrow> ipv6_octets ip | None \<Rightarrow> []),
       pi_ipv6_port := (case ni_ipv6 n of Some _ \<Rightarrow> ucast port | None \<Rightarrow> 0)\<rparr>))"

definition ipv6_of_octets :: "bytes \<Rightarrow> 128 word" where
  "ipv6_of_octets b = foldl (\<lambda>a x. push_bit 8 a OR ucast x) 0 b"

text \<open>What the receiver makes of it, with the fallbacks for older versions.\<close>

definition nat_info_of :: "punch_info \<Rightarrow> nat_info" where
  "nat_info_of m =
     (let public_ports = (if pi_public_ports m = [] then [pi_public_port m] else pi_public_ports m);
          udp_ports = (if pi_udp_ports m = [] then [pi_local_port m] else pi_udp_ports m)
      in nat_info_new (pi_public_ip_list m) (List.map ucast public_ports) (ucast (pi_public_port_range m))
           (Some (pi_local_ip m)) (if length (pi_ipv6 m) = 16 then Some (ipv6_of_octets (pi_ipv6 m)) else None)
           (List.map ucast udp_ports) (ucast (pi_tcp_port m)) (ucast (pi_public_tcp_port m))
           (punch_nat_type_into (pi_nat_type m)) (punch_nat_model_into (pi_punch_model m)))"

lemma shift_in_word:
  fixes ip :: "128 word"
  shows "foldl (\<lambda>a x. push_bit 8 a OR ucast x) (drop_bit (d + 16) ip) (u16_to_be (ucast (drop_bit d ip))) =
    drop_bit d ip"
proof (rule bit_word_eqI)
  fix n assume "n < LENGTH(128)"
  then have n: "n < 128" by simp
  consider "n < 8" | j where "n = 8 + j" "j < 8" | j where "n = 16 + j"
    by (metis add_less_cancel_left le_Suc_ex not_less numeral_plus_numeral semiring_norm(2,6))
  then show "bit (foldl (\<lambda>a x. push_bit 8 a OR ucast x) (drop_bit (d + 16) ip) (u16_to_be (ucast (drop_bit d ip)))) n =
      bit (drop_bit d ip) n"
    using n by cases (auto simp: u16_to_be_def bit_simps add.commute add.left_commute)
qed

lemma ipv6_of_octets_segments:
  "k \<le> 8 \<Longrightarrow> ipv6_of_octets (concat (List.map (\<lambda>i. u16_to_be (segment i ip)) [0..<k])) = drop_bit (128 - 16 * k) ip"
proof (induction k)
  case 0
  show ?case by (rule bit_word_eqI) (auto simp: ipv6_of_octets_def bit_simps dest: bit_imp_le_length)
next
  case (Suc k)
  then have k: "128 - 16 * k = 112 - 16 * k + 16" "128 - 16 * Suc k = 112 - 16 * k" by simp_all
  have "ipv6_of_octets (concat (List.map (\<lambda>i. u16_to_be (segment i ip)) [0..<Suc k])) =
      foldl (\<lambda>a x. push_bit 8 a OR ucast x)
        (ipv6_of_octets (concat (List.map (\<lambda>i. u16_to_be (segment i ip)) [0..<k])))
        (u16_to_be (ucast (drop_bit (112 - 16 * k) ip)))"
    by (simp only: ipv6_of_octets_def segment_def upt_Suc_append map_append concat_append foldl_append
        list.map concat.simps append_Nil2 le0)
  also have "\<dots> = drop_bit (112 - 16 * k) ip"
    using Suc k(1) shift_in_word [of "112 - 16 * k" ip] by (simp only: Suc_leD)
  finally show ?case by (simp only: k(2))
qed

text \<open>What the peer makes of a node's information: only public addresses of the list, the port 0 when there
  is none, a symmetric NAT when two addresses remain, and no local address that nobody can connect to.\<close>

definition ip_public :: "ipv4_addr \<Rightarrow> bool" where
  "ip_public ip \<longleftrightarrow> \<not> is_multicast ip \<and> \<not> is_broadcast ip \<and> \<not> is_unspecified ip \<and> \<not> is_loopback ip \<and> \<not> is_private ip"

definition ip_local :: "ipv4_addr \<Rightarrow> bool" where
  "ip_local ip \<longleftrightarrow> \<not> is_multicast ip \<and> \<not> is_broadcast ip \<and> \<not> is_unspecified ip \<and> \<not> is_loopback ip"

definition ipv6_local :: "128 word \<Rightarrow> bool" where
  "ipv6_local ip \<longleftrightarrow> \<not> ipv6_is_multicast ip \<and> ip \<noteq> 0 \<and> ip \<noteq> 1"

definition keep_if :: "('a \<Rightarrow> bool) \<Rightarrow> 'a option \<Rightarrow> 'a option" where
  "keep_if p v = (case v of Some x \<Rightarrow> if p x then Some x else None | None \<Rightarrow> None)"

definition as_received :: "nat_info \<Rightarrow> nat_info" where
  "as_received n = (let ips = filter ip_public (ni_public_ips n) in
     n\<lparr>ni_public_ips := ips, ni_public_ports := (if ni_public_ports n = [] then [0] else ni_public_ports n),
       ni_nat_type := (if 1 < length ips then Symmetric else ni_nat_type n),
       ni_local_ipv4 := keep_if ip_local (ni_local_ipv4 n), ni_ipv6 := keep_if ipv6_local (ni_ipv6 n)\<rparr>)"

text \<open>The information that reaches the peer as it is.\<close>

definition plain_info :: "nat_info \<Rightarrow> bool" where
  "plain_info n \<longleftrightarrow> (\<forall>ip \<in> set (ni_public_ips n). ip_public ip) \<and> ni_public_ports n \<noteq> [] \<and>
     (1 < length (ni_public_ips n) \<longrightarrow> ni_nat_type n = Symmetric) \<and>
     (\<forall>ip \<in> set_option (ni_local_ipv4 n). ip_local ip) \<and> (\<forall>ip \<in> set_option (ni_ipv6 n). ipv6_local ip)"

lemma keep_if_id: "keep_if p v = v \<longleftrightarrow> (\<forall>x \<in> set_option v. p x)"
  by (cases v) (simp_all add: keep_if_def)

lemma keep_if_twice [simp]: "keep_if p (keep_if p v) = keep_if p v"
  by (cases v) (simp_all add: keep_if_def)

lemma as_received_id: "as_received n = n \<longleftrightarrow> plain_info n"
proof -
  have f: "filter ip_public (ni_public_ips n) = ni_public_ips n \<longleftrightarrow> (\<forall>ip \<in> set (ni_public_ips n). ip_public ip)"
    by (auto simp: filter_id_conv)
  have "as_received n = n \<longleftrightarrow> filter ip_public (ni_public_ips n) = ni_public_ips n \<and> ni_public_ports n \<noteq> [] \<and>
      (1 < length (filter ip_public (ni_public_ips n)) \<longrightarrow> ni_nat_type n = Symmetric) \<and>
      keep_if ip_local (ni_local_ipv4 n) = ni_local_ipv4 n \<and> keep_if ipv6_local (ni_ipv6 n) = ni_ipv6 n"
    by (cases n) (auto simp: as_received_def Let_def)
  then show ?thesis using f by (auto simp: plain_info_def keep_if_id)
qed

lemma as_received_twice: "as_received (as_received n) = as_received n"
  by (simp add: as_received_def Let_def)

lemma nat_info_new_received:
  "nat_info_new ips ports r l4 l6 udp t pt ty pm =
    \<lparr>ni_public_ips = filter ip_public ips, ni_public_ports = ports, ni_public_port_range = r,
     ni_nat_type = (if 1 < length (filter ip_public ips) then Symmetric else ty),
     ni_local_ipv4 = keep_if ip_local l4, ni_ipv6 = keep_if ipv6_local l6,
     ni_udp_ports = udp, ni_tcp_port = t, ni_public_tcp_port = pt, ni_punch_model = pm\<rparr>"
proof -
  have "ip_public = (\<lambda>ip. \<not> is_multicast ip \<and> \<not> is_broadcast ip \<and> \<not> is_unspecified ip \<and> \<not> is_loopback ip \<and> \<not> is_private ip)"
    by (intro ext) (simp add: ip_public_def)
  then show ?thesis
    by (cases l4; cases l6) (auto simp: nat_info_new_def Let_def keep_if_def ip_local_def ipv6_local_def)
qed

lemma punch_info_facts:
  shows "ni_udp_ports n = [] \<Longrightarrow> punch_info_of reply n = Panic"
    and "ni_udp_ports n \<noteq> [] \<Longrightarrow> \<exists>m. punch_info_of reply n = Ok m \<and> pi_reply m = reply \<and> nat_info_of m = as_received n"
proof -
  have ty: "punch_nat_type_into (punch_nat_type_from x) = x" for x by (cases x) simp_all
  have pm: "punch_nat_model_into (punch_nat_model_from x) = x" for x by (cases x) simp_all
  have id: "ucast (ucast x :: u32) = x" for x :: u16
    by (rule bit_word_eqI) (auto simp: bit_simps dest: bit_imp_le_length)
  have ports: "List.map (ucast \<circ> (ucast :: u16 \<Rightarrow> u32)) xs = (xs :: u16 list)" for xs
    by (simp add: map_idI id)
  have len: "length (ipv6_octets ip) = 16" for ip
    by (simp add: ipv6_octets_def length_concat u16_to_be_def comp_def sum_list_triv)
  have ip: "ipv6_of_octets (ipv6_octets ip) = ip" for ip
    using ipv6_of_octets_segments [of 8 ip] by (simp add: ipv6_octets_def)
  show "punch_info_of reply n = Panic" if "ni_udp_ports n = []"
    using that by (simp add: punch_info_of_def)
  assume "ni_udp_ports n \<noteq> []"
  then obtain u us where udp: "ni_udp_ports n = u # us" by (cases "ni_udp_ports n") simp_all
  have none: "keep_if ip_local (Some 0) = None" by (simp add: keep_if_def ip_local_def is_unspecified_def)
  show "\<exists>m. punch_info_of reply n = Ok m \<and> pi_reply m = reply \<and> nat_info_of m = as_received n"
    using udp
    by (cases n; cases "ni_public_ports n"; cases "ni_local_ipv4 n"; cases "ni_ipv6 n")
      (simp_all add: punch_info_of_def nat_info_of_def nat_info_new_received as_received_def Let_def ty pm ports
        punch_info_empty_def id len ip none, simp_all add: keep_if_def)
qed

text \<open>C35: A node's NAT information, whatever operations made it, reaches the peer as \<open>as_received\<close>: addresses that
  are not public are left out, an empty list of public ports becomes the single port 0, local
  addresses nobody can connect to are dropped, and with two public addresses the peer takes the
  node for one behind a symmetric NAT, also where the node itself does not (after \<open>update_addr\<close>
  found a second address, say). It arrives unchanged exactly when nothing of that applies, and
  what a peer holds arrives unchanged when it is sent on. Without a UDP port the message cannot be
  built: indexing the list panics.\<close>

theorem nat_info_roundtrip:
  "(if ni_udp_ports n = [] then punch_info_of reply n = Panic
    else \<exists>m. punch_info_of reply n = Ok m \<and> pi_reply m = reply \<and> nat_info_of m = as_received n) \<and>
   (as_received n = n \<longleftrightarrow> plain_info n) \<and> plain_info (as_received n)"
  using punch_info_facts [of n reply] as_received_id [of n] as_received_id [of "as_received n"] as_received_twice [of n] by simp

text \<open>A second public address found: the node goes on as a cone, its peers hear of a symmetric NAT.\<close>

lemma nat_info_roundtrip_witness:
  "let n = snd (ni_update_addr 0 0x08080809 29872 (nat_info_new [0x08080808] [29872] 0 (Some 0x0A000002) None [29872] 29873 0
      Cone PmAll))
   in ni_nat_type n = Cone \<and> (\<exists>m. punch_info_of False n = Ok m \<and> ni_nat_type (nat_info_of m) = Symmetric \<and>
        ni_public_ips (nat_info_of m) = [0x08080808, 0x08080809])"
proof -
  have g: "is_ipv4_global 0x08080809" "ip_public 0x08080808" "ip_public 0x08080809"
    by code_simp+
  let ?n = "snd (ni_update_addr 0 0x08080809 29872 (nat_info_new [0x08080808] [29872] 0 (Some 0x0A000002) None [29872] 29873 0
      Cone PmAll))"
  have n: "ni_nat_type ?n = Cone" "ni_public_ips ?n = [0x08080808, 0x08080809]" "ni_udp_ports ?n = [29872]"
    using g by (simp_all add: ni_update_addr_def nat_info_new_received Let_def)
  have "ni_nat_type (as_received ?n) = Symmetric" "ni_public_ips (as_received ?n) = [0x08080808, 0x08080809]"
    using n(2) g by (simp_all add: as_received_def Let_def)
  moreover have "\<exists>m. punch_info_of False ?n = Ok m \<and> nat_info_of m = as_received ?n"
    using nat_info_roundtrip [of ?n False] n(3) by auto
  ultimately show ?thesis using n(1) by (auto simp: Let_def)
qed

end
