(* ===== verification/Callbacks.thy ===== *)
theory Callbacks
  imports Device_Info
begin

text \<open>
  What the program tells its host: the values of \<open>vnt/src/handle/callback.rs\<close> (on Linux, with the
  default features) and the hook of \<open>vnt/src/util/hook.rs\<close>. What a call of the host does is its own
  business; the handlers record each call as a \<open>host_event\<close>. A public key is its DER encoding.
\<close>

section \<open>\<open>ErrorInfo\<close>\<close>

datatype error_type =
    EtTokenError | EtDisconnect | EtAddressExhausted | EtIpAlreadyExists | EtInvalidIp | EtLocalIpExists |
    EtFailedToCrateDevice | EtWarn | EtUnknown

primrec error_type_into :: "error_type \<Rightarrow> u8" where
  "error_type_into EtTokenError = 1"
| "error_type_into EtDisconnect = 2"
| "error_type_into EtAddressExhausted = 3"
| "error_type_into EtIpAlreadyExists = 4"
| "error_type_into EtInvalidIp = 5"
| "error_type_into EtLocalIpExists = 6"
| "error_type_into EtFailedToCrateDevice = 101"
| "error_type_into EtWarn = 102"
| "error_type_into EtUnknown = 255"

record error_info =
  ei_code :: error_type
  ei_msg :: "bytes option"
  ei_source :: "error_kind option"

definition error_info_new :: "error_type \<Rightarrow> error_info" where
  "error_info_new code = \<lparr>ei_code = code, ei_msg = None, ei_source = None\<rparr>"

definition error_info_new_msg :: "error_type \<Rightarrow> bytes \<Rightarrow> error_info" where
  "error_info_new_msg code msg = \<lparr>ei_code = code, ei_msg = Some msg, ei_source = None\<rparr>"

section \<open>Connection, handshake, registration, device and peers\<close>

record connect_info =
  ci_count :: nat
  ci_address :: socket_addr

definition connect_info_new :: "nat \<Rightarrow> socket_addr \<Rightarrow> connect_info" where
  "connect_info_new count address = \<lparr>ci_count = count, ci_address = address\<rparr>"

record handshake_info =
  hi_public_key :: "bytes option"
  hi_finger :: "string option"
  hi_version :: string

definition handshake_info_new :: "bytes \<Rightarrow> string \<Rightarrow> string \<Rightarrow> handshake_info" where
  "handshake_info_new public_key finger version =
     \<lparr>hi_public_key = Some public_key, hi_finger = Some finger, hi_version = version\<rparr>"

definition handshake_info_new_no_secret :: "string \<Rightarrow> handshake_info" where
  "handshake_info_new_no_secret version = \<lparr>hi_public_key = None, hi_finger = None, hi_version = version\<rparr>"

record register_info =
  ri_virtual_ip :: ipv4_addr
  ri_virtual_netmask :: ipv4_addr
  ri_virtual_gateway :: ipv4_addr

definition register_info_new :: "ipv4_addr \<Rightarrow> ipv4_addr \<Rightarrow> ipv4_addr \<Rightarrow> register_info" where
  "register_info_new virtual_ip virtual_netmask virtual_gateway =
     \<lparr>ri_virtual_ip = virtual_ip, ri_virtual_netmask = virtual_netmask, ri_virtual_gateway = virtual_gateway\<rparr>"

record device_config =
  dc_device_name :: "string option"
  dc_mtu :: u32
  dc_virtual_ip :: ipv4_addr
  dc_virtual_netmask :: ipv4_addr
  dc_virtual_gateway :: ipv4_addr
  dc_virtual_network :: ipv4_addr
  dc_external_route :: "(ipv4_addr \<times> ipv4_addr) list"

definition device_config_new :: "string option \<Rightarrow> u32 \<Rightarrow> ipv4_addr \<Rightarrow> ipv4_addr \<Rightarrow> ipv4_addr \<Rightarrow> ipv4_addr \<Rightarrow>
    (ipv4_addr \<times> ipv4_addr) list \<Rightarrow> device_config" where
  "device_config_new device_name mtu virtual_ip virtual_netmask virtual_gateway virtual_network external_route =
     \<lparr>dc_device_name = device_name, dc_mtu = mtu, dc_virtual_ip = virtual_ip, dc_virtual_netmask = virtual_netmask,
      dc_virtual_gateway = virtual_gateway, dc_virtual_network = virtual_network,
      dc_external_route = external_route\<rparr>"

record peer_client_info =
  pc_virtual_ip :: ipv4_addr
  pc_name :: string
  pc_status :: peer_device_status
  pc_client_secret :: bool

definition peer_client_info_new :: "ipv4_addr \<Rightarrow> string \<Rightarrow> peer_device_status \<Rightarrow> bool \<Rightarrow> peer_client_info" where
  "peer_client_info_new virtual_ip name status client_secret =
     \<lparr>pc_virtual_ip = virtual_ip, pc_name = name, pc_status = status, pc_client_secret = client_secret\<rparr>"

section \<open>\<open>HookInfo\<close>\<close>

record hook_info =
  hk_script :: string
  hk_event :: string
  hk_protocol :: "string option"
  hk_local_port :: "u16 option"
  hk_old_local_port :: "u16 option"
  hk_remote_addr :: "socket_addr option"
  hk_tun_name :: "string option"
  hk_device_name :: "string option"
  hk_device_id :: "string option"
  hk_virtual_ip :: "ipv4_addr option"
  hk_server_addr :: "string option"
  hk_reconnect_count :: "nat option"
  hk_reason :: "string option"

definition hook_info_new :: "string option \<Rightarrow> string \<Rightarrow> hook_info option" where
  "hook_info_new script event = (case script of None \<Rightarrow> None
     | Some s \<Rightarrow> if s = [] then None else
         Some \<lparr>hk_script = s, hk_event = event, hk_protocol = None, hk_local_port = None, hk_old_local_port = None,
           hk_remote_addr = None, hk_tun_name = None, hk_device_name = None, hk_device_id = None,
           hk_virtual_ip = None, hk_server_addr = None, hk_reconnect_count = None, hk_reason = None\<rparr>)"

section \<open>What the host sees\<close>

datatype host_event =
    DeviceWrite bytes
  | HostConnect connect_info
  | HostHandshake handshake_info
  | HostRegister register_info
  | HostError error_info
  | HostSuccess
  | HostPeers "peer_client_info list"
  | TunStop
  | TunCreate device_config
  | HostTun string
  | TunStart bool
  | HookRun hook_info

end
