(* ===== verification/Registration.thy ===== *)
theory Registration
  imports Cipher_Dispatch Protocol_Packets Proto_Messages Callbacks
begin

text \<open>
  The messages that open a session with the server: the RSA cipher of \<open>vnt/src/cipher/rsa_cipher.rs\<close>,
  the handshake packets of \<open>vnt/src/handle/handshaker.rs\<close> and the registration packet of
  \<open>vnt/src/handle/registrar.rs\<close>. The crates \<open>rsa\<close> and \<open>spki\<close> are not part of the repository: \<open>rsa_crate\<close>
  holds what the program calls of them, on keys in DER form.
\<close>

section \<open>\<open>RsaCipher\<close>\<close>

record rsa_crate =
  rc_parse :: "bytes \<Rightarrow> bytes option"
  rc_finger :: "bytes \<Rightarrow> string option"
  rc_encrypt :: "bytes \<Rightarrow> bytes \<Rightarrow> bytes \<Rightarrow> bytes option"

record rsa_cipher =
  rs_public_key :: bytes
  rs_finger :: string

definition rsa_key_finger :: "rsa_crate \<Rightarrow> bytes \<Rightarrow> string outcome" where
  "rsa_key_finger R public_key = or_io_error OtherKind (rc_finger R public_key)"

definition rsa_cipher_new :: "rsa_crate \<Rightarrow> bytes \<Rightarrow> rsa_cipher outcome" where
  "rsa_cipher_new R der = (case rc_parse R der of
     Some public_key \<Rightarrow> obind (rsa_key_finger R public_key) (\<lambda>finger.
       Ok \<lparr>rs_public_key = public_key, rs_finger = finger\<rparr>)
   | None \<Rightarrow> Err (IoError OtherKind))"

definition rsa_nonce :: "net_packet \<Rightarrow> bytes outcome" where
  "rsa_nonce p = obind (np_source p) (\<lambda>src. obind (np_destination p) (\<lambda>dst. obind (np_protocol p) (\<lambda>proto.
     obind (np_transport_protocol p) (\<lambda>trans. obind (np_is_gateway p) (\<lambda>gateway. obind (np_source_ttl p) (\<lambda>ttl.
       Ok (u32_to_be src @ u32_to_be dst @ [protocol_into proto, trans, of_bool gateway, ttl])))))))"

text \<open>\<open>random\<close> are the 16 octets for the body, \<open>pad\<close> the randomness of the padding.\<close>

definition rsa_cipher_encrypt :: "crypto \<Rightarrow> rsa_crate \<Rightarrow> bytes \<Rightarrow> bytes \<Rightarrow> rsa_cipher \<Rightarrow> net_packet \<Rightarrow> net_packet outcome" where
  "rsa_cipher_encrypt C R random pad c p = obind (np_reserve p) (\<lambda>reserve.
     if reserve < RSA_ENCRYPTION_RESERVED then Err (IoError OtherKind)
     else obind (np_set_data_len (np_data_len p + RSA_ENCRYPTION_RESERVED) p) (\<lambda>p.
       obind (rsa_nonce p) (\<lambda>nonce.
       obind (obind (np_payload p) rsa_new) (\<lambda>body.
       obind (rsa_random_mut (\<lambda>_. Ok random) body) (\<lambda>body.
       obind (rsa_body body) (\<lambda>b.
       obind (slice (c_sha256 C (b @ nonce)) 16 32) (\<lambda>finger.
       obind (rsa_set_finger finger body) (\<lambda>body.
       obind (or_io_error OtherKind (rc_encrypt R (rs_public_key c) body pad)) (\<lambda>enc_data.
       obind (np_new (replicate (12 + length enc_data) 0)) (\<lambda>e.
       obind (np_buffer_part p) (\<lambda>whole. obind (slice whole 0 12) (\<lambda>head.
       obind (np_on_buffer (put_slice 0 12 head) e) (np_set_payload enc_data)))))))))))))"

section \<open>The handshake\<close>

text \<open>What the handshake and registration packets have in common: from this node to the gateway, a
  service packet with a payload. The three functions call these setters, each of another field, in
  different orders.\<close>

definition service_header :: "service_protocol \<Rightarrow> bytes \<Rightarrow> net_packet \<Rightarrow> net_packet outcome" where
  "service_header t payload = oseq [np_set_default_version, np_set_gateway_flag True, np_set_destination GATEWAY_IP,
     np_set_source SELF_IP, np_set_protocol Service, np_set_transport_protocol (service_protocol_into t),
     np_first_set_ttl MAX_TTL, np_set_payload payload]"

definition handshake_request_packet :: "proto \<Rightarrow> rsa_cipher option \<Rightarrow> bool \<Rightarrow> net_packet outcome" where
  "handshake_request_packet P rsa secret =
     (let request = \<lparr>hq_version = pr_version P, hq_secret = secret,
            hq_key_finger = (case rsa of Some c \<Rightarrow> rs_finger c | None \<Rightarrow> [])\<rparr>
      in obind (or_io_error OtherKind (pr_handshake_request P request)) (\<lambda>bytes.
         obind (np_new (replicate (12 + length bytes) 0)) (service_header HandshakeRequest bytes)))"

definition secret_handshake_request_packet ::
    "crypto \<Rightarrow> rsa_crate \<Rightarrow> proto \<Rightarrow> bytes \<times> bytes \<Rightarrow> rsa_cipher \<Rightarrow> string \<Rightarrow> bytes \<Rightarrow> net_packet outcome" where
  "secret_handshake_request_packet C R P rnd rsa token key =
     obind (or_io_error OtherKind (pr_secret_handshake_request P \<lparr>sq_token = token, sq_key = key\<rparr>)) (\<lambda>bytes.
     obind (np_new0 (12 + length bytes) (replicate (12 + length bytes + RSA_ENCRYPTION_RESERVED) 0)) (\<lambda>p.
     obind (service_header SecretHandshakeRequest bytes p) (rsa_cipher_encrypt C R (fst rnd) (snd rnd) rsa)))"

text \<open>\<open>Handshake::send\<close>: the time of the last request is kept with the context; \<open>now\<close> and \<open>now'\<close> are the
  two readings of the clock.\<close>

definition handshake_send :: "net_env \<Rightarrow> proto \<Rightarrow> rsa_cipher option \<Rightarrow> bool \<Rightarrow> socket_addr \<Rightarrow> nanos \<Rightarrow> nanos \<Rightarrow>
    (nanos \<times> channel_context, unit) action" where
  "handshake_send env P rsa secret addr now now' s = (case s of (sent, c) \<Rightarrow>
     if now - sent < 3 * NANOS then (Ok (), sent, c)
     else (case handshake_request_packet P rsa secret of
         Ok p \<Rightarrow> (case send_default env p addr c of
             (Ok _, c) \<Rightarrow> (Ok (), now', c) | (Err e, c) \<Rightarrow> (Err e, sent, c) | (Panic, c) \<Rightarrow> (Panic, sent, c))
       | Err e \<Rightarrow> (Err e, sent, c) | Panic \<Rightarrow> (Panic, sent, c)))"

section \<open>Registration\<close>

definition registration_request_packet :: "crypto \<Rightarrow> proto \<Rightarrow> randomness \<Rightarrow> cipher \<Rightarrow> string \<Rightarrow> string \<Rightarrow> string \<Rightarrow>
    ipv4_addr option \<Rightarrow> bool \<Rightarrow> bool \<Rightarrow> bytes option \<Rightarrow> net_packet outcome" where
  "registration_request_packet C P w server_cipher token device_id name ip is_fast allow_ip_change client_secret_hash =
     (let request = \<lparr>rq_token = token, rq_device_id = device_id, rq_name = name, rq_is_fast = is_fast,
            rq_version = pr_version P, rq_virtual_ip = (case ip of Some a \<Rightarrow> a | None \<Rightarrow> 0),
            rq_allow_ip_change = allow_ip_change, rq_client_secret = (client_secret_hash \<noteq> None),
            rq_client_secret_hash = (case client_secret_hash of Some h \<Rightarrow> h | None \<Rightarrow> [])\<rparr>
      in obind (or_error ''RegistrationRequest'' (pr_registration_request P request)) (\<lambda>bytes.
         obind (np_new_encrypt (replicate (12 + length bytes + ENCRYPTION_RESERVED) 0)) (\<lambda>p.
         obind (service_header RegistrationRequest bytes p) (\<lambda>p.
           case cipher_encrypt C w server_cipher p of
             (Ok _, p) \<Rightarrow> Ok p | (Err e, _) \<Rightarrow> Err e | (Panic, _) \<Rightarrow> Panic))))"

end
