(* ===== verification/Stun.thy ===== *)
theory Stun
  imports Nat_Info
begin

text \<open>
  The NAT test of \<open>vnt/src/nat/stun.rs\<close> and its users in \<open>NatTest\<close> (\<open>vnt/src/nat/mod.rs\<close>). The crate
  \<open>stun_format\<close> is not part of the repository: a message is given by the attributes and the transaction
  number the crate reads from it. What the sockets answer is an argument of the definitions; a hash
  set is a list without repetitions, whose order stands for the iteration order.
\<close>

datatype stun_attr =
  MappedAddress socket_addr | ChangedAddress socket_addr | XorMappedAddress socket_addr | OtherAttr

section \<open>One query\<close>

text \<open>The loop over the attributes of an answer: the first mapped and the first changed address, as
  soon as both are known.\<close>

fun stun_scan :: "stun_attr list \<Rightarrow> socket_addr option \<Rightarrow> socket_addr option \<Rightarrow>
    socket_addr option \<times> socket_addr option" where
  "stun_scan [] mapped changed = (mapped, changed)"
| "stun_scan (x # xs) mapped changed =
     (let mapped = (case x of
            MappedAddress a \<Rightarrow> if mapped = None then Some a else mapped
          | XorMappedAddress a \<Rightarrow> if mapped = None then Some a else mapped
          | _ \<Rightarrow> mapped);
          changed = (case x of ChangedAddress a \<Rightarrow> if changed = None then Some a else changed | _ \<Rightarrow> changed)
      in if changed \<noteq> None \<and> mapped \<noteq> None then (mapped, changed) else stun_scan xs mapped changed)"

text \<open>One turn: what sending gave, and the attributes of the datagram that came back in time.\<close>

type_synonym stun_turn = "unit outcome \<times> stun_attr list option"

fun test_nat_turns :: "stun_turn list \<Rightarrow> (socket_addr \<times> socket_addr option) outcome" where
  "test_nat_turns [] = Err (IoError OtherKind)"
| "test_nat_turns ((sent, received) # turns) = obind sent (\<lambda>_. case received of
       None \<Rightarrow> test_nat_turns turns
     | Some attrs \<Rightarrow> (case stun_scan attrs None None of
           (Some addr, changed) \<Rightarrow> Ok (addr, changed)
         | (None, _) \<Rightarrow> test_nat_turns turns))"

definition test_nat_query :: "stun_turn list \<Rightarrow> (socket_addr \<times> socket_addr option) outcome" where
  "test_nat_query turns = test_nat_turns (take 2 turns)"

section \<open>One server\<close>

record stun_answers =
  sa_connect :: "unit outcome"
  sa_first :: "stun_turn list"
  sa_reconnect :: bool
  sa_second :: "stun_turn list"

definition test_nat :: "stun_answers \<Rightarrow> socket_addr list outcome" where
  "test_nat s = obind (sa_connect s) (\<lambda>_. obind (test_nat_query (sa_first s)) (\<lambda>(mapped_addr1, changed_addr1).
     let addr = (if is_ipv4_addr mapped_addr1 then [mapped_addr1] else []) in
     if changed_addr1 \<noteq> None \<and> sa_reconnect s
     then (case test_nat_query (sa_second s) of
         Ok (mapped_addr2, _) \<Rightarrow> Ok (if is_ipv4_addr mapped_addr2 then List.insert mapped_addr1 addr else addr)
       | Err e \<Rightarrow> Ok addr
       | Panic \<Rightarrow> Panic)
     else Ok addr))"

section \<open>All servers\<close>

fun stun_collect :: "stun_answers list \<Rightarrow> socket_addr list \<Rightarrow> socket_addr list outcome" where
  "stun_collect [] pub = Ok pub"
| "stun_collect (s # ss) pub = (case test_nat s of
     Ok addr \<Rightarrow> stun_collect ss (fold List.insert addr pub) | Err e \<Rightarrow> stun_collect ss pub | Panic \<Rightarrow> Panic)"

text \<open>The loop over the addresses found: distinct IPv4 addresses, lowest and highest port.\<close>

fun stun_spread :: "socket_addr list \<Rightarrow> ipv4_addr list \<times> u16 \<times> u16 \<Rightarrow> ipv4_addr list \<times> u16 \<times> u16" where
  "stun_spread [] acc = acc"
| "stun_spread (SockV4 ip port # as) (ips, lo, hi) =
     stun_spread as (List.insert ip ips, (if port < lo then port else lo), (if hi < port then port else hi))"
| "stun_spread (SockV6 ip port f s # as) acc = stun_spread as acc"

definition stun_test_nat0 :: "unit outcome \<Rightarrow> stun_answers list \<Rightarrow> (nat_type \<times> ipv4_addr list \<times> u16) outcome" where
  "stun_test_nat0 bind servers = obind bind (\<lambda>_. obind (stun_collect servers []) (\<lambda>pub.
     let ty = (if 1 < length pub then Symmetric else Cone) in
     case stun_spread pub ([], 0xFFFF, 0) of (ips, lo, hi) \<Rightarrow>
       if ips = [] then Ok (ty, [], 0) else Ok (ty, ips, hi - lo)))"

fun stun_rounds :: "(nat_type \<times> ipv4_addr list \<times> u16) outcome list \<Rightarrow> nat_type \<times> ipv4_addr list \<times> u16 \<Rightarrow>
    (nat_type \<times> ipv4_addr list \<times> u16) outcome" where
  "stun_rounds [] acc = Ok acc"
| "stun_rounds (r # rs) (ty, ips, spread) = (case r of
     Ok (ty', ips', spread') \<Rightarrow> stun_rounds rs (if ty' = Symmetric then Symmetric else ty,
         fold List.insert ips' ips, if spread < spread' then spread' else spread)
   | Err e \<Rightarrow> stun_rounds rs (ty, ips, spread) | Panic \<Rightarrow> Panic)"

definition stun_test_nat :: "unit outcome \<times> stun_answers list \<Rightarrow> unit outcome \<times> stun_answers list \<Rightarrow>
    (nat_type \<times> ipv4_addr list \<times> u16) outcome" where
  "stun_test_nat r1 r2 =
     stun_rounds [stun_test_nat0 (fst r1) (snd r1), stun_test_nat0 (fst r2) (snd r2)] (Cone, [], 0)"

text \<open>\<open>NatTest::re_test\<close>; the choice of five servers is part of the answers.\<close>

definition nt_re_test :: "unit outcome \<times> stun_answers list \<Rightarrow> unit outcome \<times> stun_answers list \<Rightarrow>
    ipv4_addr option \<Rightarrow> 128 word option \<Rightarrow> (nat_test, nat_info) action" where
  "nt_re_test r1 r2 local_ipv4 ipv6 t = (case stun_test_nat r1 r2 of
     Ok (nat_type, public_ips, port_range) \<Rightarrow>
       if public_ips = [] then (Err (AnyError ''public_ips.is_empty''), t)
       else (let n = (nt_info t)\<lparr>ni_nat_type := nat_type, ni_public_ips := public_ips,
                   ni_public_port_range := port_range\<rparr>;
                 n = (if local_ipv4 \<noteq> None then n\<lparr>ni_local_ipv4 := local_ipv4\<rparr> else n);
                 n = n\<lparr>ni_ipv6 := ipv6\<rparr>
             in (Ok n, t\<lparr>nt_info := n\<rparr>))
   | Err e \<Rightarrow> (Err e, t) | Panic \<Rightarrow> (Panic, t))"

section \<open>Answers that arrive on the channel sockets\<close>

definition STUN_TAG :: "128 word" where
  "STUN_TAG = push_bit 64 1827549368"

fun stun_first_mapped :: "stun_attr list \<Rightarrow> socket_addr option" where
  "stun_first_mapped [] = None"
| "stun_first_mapped (MappedAddress a # xs) = Some a"
| "stun_first_mapped (XorMappedAddress a # xs) = Some a"
| "stun_first_mapped (ChangedAddress a # xs) = stun_first_mapped xs"
| "stun_first_mapped (OtherAttr # xs) = stun_first_mapped xs"

type_synonym stun_message = "128 word option \<times> stun_attr list"

definition recv_stun_response :: "stun_message \<Rightarrow> socket_addr option" where
  "recv_stun_response msg = (case msg of (tid, attrs) \<Rightarrow>
     (case tid of Some t \<Rightarrow> if t AND STUN_TAG \<noteq> STUN_TAG then None else stun_first_mapped attrs
      | None \<Rightarrow> stun_first_mapped attrs))"

text \<open>Whether the source of an answer is a configured server; a name that does not resolve ends the search
  with its error.\<close>

fun stun_source_known :: "(string \<Rightarrow> socket_addr list outcome) \<Rightarrow> string list \<Rightarrow> ipv4_addr \<Rightarrow> u16 \<Rightarrow> bool outcome" where
  "stun_source_known resolve [] ip port = Ok False"
| "stun_source_known resolve (s # ss) ip port = obind (resolve s) (\<lambda>addrs.
     if \<exists>x \<in> set addrs. x = SockV4 ip port then Ok True else stun_source_known resolve ss ip port)"

definition nt_recv_addr :: "(string \<Rightarrow> socket_addr list outcome) \<Rightarrow> nat \<Rightarrow> socket_addr \<Rightarrow> socket_addr \<Rightarrow>
    (nat_test, unit) action" where
  "nt_recv_addr resolve index source_addr addr t = (case addr of
     SockV4 ip port \<Rightarrow> (case sock_ipv4 source_addr of
         None \<Rightarrow> (Ok (), t)
       | Some source_ip \<Rightarrow>
           (case stun_source_known resolve (nt_stun_server t) source_ip (sock_port source_addr) of
              Ok known \<Rightarrow> if known \<and> is_ipv4_global ip
                then (Ok (), snd (nt_update_addr index ip port t)) else (Ok (), t)
            | Err e \<Rightarrow> (Err e, t) | Panic \<Rightarrow> (Panic, t)))
   | SockV6 _ _ _ _ \<Rightarrow> (Ok (), t))"

text \<open>\<open>recv_data\<close>: \<open>parse\<close> is the message format.\<close>

definition nt_recv_data :: "(string \<Rightarrow> socket_addr list outcome) \<Rightarrow> (bytes \<Rightarrow> stun_message) \<Rightarrow> nat \<Rightarrow> socket_addr \<Rightarrow>
    bytes \<Rightarrow> (nat_test, bool) action" where
  "nt_recv_data resolve parse index source_addr buf =
     sbind (slift (byte_at buf 0)) (\<lambda>b0.
     sbind (if b0 = 1 then slift (omap (\<lambda>b1. b1 = 1) (byte_at buf 1)) else sret False) (\<lambda>stun t.
       if \<not> stun then (Ok False, t)
       else (case recv_stun_response (parse buf) of
           None \<Rightarrow> (Ok True, t)
         | Some addr \<Rightarrow> (case nt_recv_addr resolve index source_addr addr t of
             (Panic, t') \<Rightarrow> (Panic, t') | (_, t') \<Rightarrow> (Ok True, t')))))"

section \<open>Lemmas\<close>

lemma test_nat_turns_no_panic: "\<forall>x \<in> set turns. fst x \<noteq> Panic \<Longrightarrow> test_nat_turns turns \<noteq> Panic"
  by (induction turns rule: test_nat_turns.induct)
    (auto simp: outcome_simps split: option.splits prod.splits)

lemma test_nat_query_no_panic: "\<forall>x \<in> set turns. fst x \<noteq> Panic \<Longrightarrow> test_nat_query turns \<noteq> Panic"
  unfolding test_nat_query_def by (rule test_nat_turns_no_panic) (auto dest: in_set_takeD)

text \<open>No operation of a socket panics.\<close>

definition answers_ok :: "stun_answers \<Rightarrow> bool" where
  "answers_ok s \<longleftrightarrow> sa_connect s \<noteq> Panic \<and> (\<forall>x \<in> set (sa_first s). fst x \<noteq> Panic) \<and>
     (\<forall>x \<in> set (sa_second s). fst x \<noteq> Panic)"

text \<open>What a server's first answer maps the node to.\<close>

definition first_mapping :: "stun_answers \<Rightarrow> socket_addr \<Rightarrow> bool" where
  "first_mapping s a \<longleftrightarrow> (\<exists>c. test_nat_query (sa_first s) = Ok (a, c))"

text \<open>The first mappings of the servers that can be reached.\<close>

definition first_mappings :: "stun_answers list \<Rightarrow> socket_addr set" where
  "first_mappings servers = {a. \<exists>s \<in> set servers. sa_connect s = Ok () \<and> first_mapping s a}"

text \<open>Operations that do not panic, and a first answer that maps the IPv4 socket of the test to an IPv4 address.\<close>

definition answers_v4 :: "stun_answers \<Rightarrow> bool" where
  "answers_v4 s \<longleftrightarrow> answers_ok s \<and> (\<forall>a. first_mapping s a \<longrightarrow> is_ipv4_addr a)"

text \<open>The same server with another second answer, or none.\<close>

definition same_first :: "stun_answers \<Rightarrow> stun_answers \<Rightarrow> bool" where
  "same_first s s' \<longleftrightarrow> sa_connect s' = sa_connect s \<and> sa_first s' = sa_first s"

text \<open>A server contributes its first mapping: the second answer adds nothing.\<close>

lemma test_nat_first:
  assumes "answers_v4 s"
  shows "test_nat s = obind (sa_connect s) (\<lambda>_. omap (\<lambda>x. [fst x]) (test_nat_query (sa_first s)))"
proof (cases "obind (sa_connect s) (\<lambda>_. test_nat_query (sa_first s))")
  case (Ok x)
  have q: "test_nat_query (sa_second s) \<noteq> Panic"
    using assms test_nat_query_no_panic by (simp add: answers_v4_def answers_ok_def)
  obtain a c where x: "x = (a, c)" by (cases x)
  then have f: "sa_connect s = Ok ()" "test_nat_query (sa_first s) = Ok (a, c)" using Ok by (auto simp: outcome_simps)
  then have "is_ipv4_addr a" using assms by (auto simp: answers_v4_def first_mapping_def)
  then show ?thesis
    using f q by (cases "test_nat_query (sa_second s)") (auto simp: test_nat_def Let_def)
qed (cases "sa_connect s"; simp add: test_nat_def)+

lemma stun_collect_second:
  "list_all2 same_first ss ss' \<Longrightarrow> list_all answers_v4 ss \<Longrightarrow> list_all answers_v4 ss' \<Longrightarrow>
   stun_collect ss' pub = stun_collect ss pub"
  by (induction arbitrary: pub rule: list_all2_induct) (simp_all add: test_nat_first same_first_def split: outcome.split)

lemma stun_collect_first:
  "list_all answers_v4 ss \<Longrightarrow> distinct pub \<Longrightarrow>
   \<exists>out. stun_collect ss pub = Ok out \<and> distinct out \<and> set out = set pub \<union> first_mappings ss"
proof (induction ss arbitrary: pub)
  case Nil
  then show ?case by (simp add: first_mappings_def)
next
  case (Cons s ss)
  have s: "answers_v4 s" using Cons.prems(1) by simp
  have q: "test_nat_query (sa_first s) \<noteq> Panic" "sa_connect s \<noteq> Panic"
    using s test_nat_query_no_panic by (simp_all add: answers_v4_def answers_ok_def)
  show ?case
  proof (cases "obind (sa_connect s) (\<lambda>_. test_nat_query (sa_first s))")
    case (Ok x)
    obtain a c where x: "x = (a, c)" by (cases x)
    then have f: "sa_connect s = Ok ()" "test_nat_query (sa_first s) = Ok (a, c)" using Ok by (auto simp: outcome_simps)
    then have "first_mappings (s # ss) = insert a (first_mappings ss)"
      by (auto simp: first_mappings_def first_mapping_def)
    then show ?thesis using Cons.IH [of "List.insert a pub"] Cons.prems f by (simp add: test_nat_first [OF s])
  next
    case (Err e)
    then have "first_mappings (s # ss) = first_mappings ss"
      by (auto simp: first_mappings_def first_mapping_def)
    moreover have "test_nat s = Err e" using Err by (cases "sa_connect s") (simp_all add: test_nat_first [OF s])
    ultimately show ?thesis using Cons.IH [of pub] Cons.prems by simp
  next
    case Panic
    then show ?thesis using q by (cases "sa_connect s") simp_all
  qed
qed

lemma stun_spread_ips:
  "set (fst (stun_spread as (ips, lo, hi))) = set ips \<union> {ip. \<exists>port. SockV4 ip port \<in> set as}"
  by (induction as "(ips, lo, hi)" arbitrary: ips lo hi rule: stun_spread.induct) auto

text \<open>C36: The NAT test asks every server twice, the second time from its other address, to find out whether
  the mapping depends on the destination. The second answers have no influence (while the operations of
  the sockets do not panic and first answers report IPv4 addresses): whatever they are replaced
  by, the result is the same. The first answers alone decide: the NAT counts as symmetric when those
  of two servers differ, and the addresses are theirs. So a single server, or several that
  agree, yields a cone with that one address and no spread of ports, even where a second answer
  reported another mapping.\<close>

theorem stun_second_query_ignored:
  assumes "list_all answers_v4 servers" and "list_all answers_v4 servers'" and "list_all2 same_first servers servers'"
  shows "stun_test_nat0 bind servers' = stun_test_nat0 bind servers \<and>
    (\<exists>ips spread. stun_test_nat0 (Ok ()) servers =
        Ok (if 1 < card (first_mappings servers) then Symmetric else Cone, ips, spread) \<and>
      set ips = {ip. \<exists>port. SockV4 ip port \<in> first_mappings servers} \<and>
      (\<forall>ip port. first_mappings servers = {SockV4 ip port} \<longrightarrow> ips = [ip] \<and> spread = 0))"
proof -
  obtain out where out: "stun_collect servers [] = Ok out" "distinct out" "set out = first_mappings servers"
    using stun_collect_first [OF assms(1), of "[]"] by auto
  have card: "card (first_mappings servers) = length out" using out distinct_card by metis
  obtain ips lo hi where sp: "stun_spread out ([], 0xFFFF, 0) = (ips, lo, hi)" by (cases "stun_spread out ([], 0xFFFF, 0)")
  have ips: "set ips = {ip. \<exists>port. SockV4 ip port \<in> first_mappings servers}"
    using stun_spread_ips [of out "[]" "0xFFFF" 0] sp out(3) by simp
  have r: "stun_test_nat0 (Ok ()) servers = Ok (if 1 < card (first_mappings servers) then Symmetric else Cone, ips,
      if ips = [] then 0 else hi - lo)"
    using out(1) sp card by (simp add: stun_test_nat0_def Let_def)
  have "ips = [ip] \<and> hi - lo = 0" if one: "first_mappings servers = {SockV4 ip port}" for ip port
  proof -
    have "length out = 1" using distinct_card [OF out(2)] out(3) one by simp
    then have "out = [SockV4 ip port]" using out(3) one by (cases out) simp_all
    moreover have "(if port < 0xFFFF then port else 0xFFFF) = port" "(if 0 < port then port else 0) = port"
      using unat_u16_less [of port] by (auto simp: word_less_nat_alt word_unat_eq_iff simp del: unat_u16_less)
    ultimately show ?thesis using sp by auto
  qed
  moreover have "stun_test_nat0 bind servers' = stun_test_nat0 bind servers"
    using stun_collect_second [OF assms(3,1,2)] by (simp add: stun_test_nat0_def)
  ultimately show ?thesis using r ips by auto
qed

text \<open>A server behind which a symmetric NAT shows two mappings.\<close>

definition symmetric_answers :: stun_answers where
  "symmetric_answers = \<lparr>sa_connect = Ok (),
     sa_first = [(Ok (), Some [MappedAddress (SockV4 0x05060708 4000), ChangedAddress (SockV4 9 3479)])],
     sa_reconnect = True, sa_second = [(Ok (), Some [MappedAddress (SockV4 0x05060708 4999)])]\<rparr>"

lemma stun_second_query_ignored_witness:
  "\<exists>spread. stun_test_nat0 (Ok ()) [symmetric_answers] = Ok (Cone, [0x05060708], spread) \<and> spread = 0 \<and>
     test_nat_query (sa_first symmetric_answers) = Ok (SockV4 0x05060708 4000, Some (SockV4 9 3479)) \<and>
     test_nat_query (sa_second symmetric_answers) = Ok (SockV4 0x05060708 4999, None)"
proof -
  have q: "test_nat_query (sa_first symmetric_answers) = Ok (SockV4 0x05060708 4000, Some (SockV4 9 3479))"
    "test_nat_query (sa_second symmetric_answers) = Ok (SockV4 0x05060708 4999, None)"
    by (simp_all add: test_nat_query_def symmetric_answers_def Let_def)
  have c: "sa_connect symmetric_answers = Ok ()" by (simp add: symmetric_answers_def)
  have one: "first_mappings [symmetric_answers] = {SockV4 0x05060708 4000}"
    using q(1) c by (auto simp: first_mappings_def first_mapping_def)
  have ok: "list_all answers_v4 [symmetric_answers]"
    using q(1) by (simp add: answers_v4_def answers_ok_def first_mapping_def is_ipv4_addr_def) (simp add: symmetric_answers_def)
  have "list_all2 same_first [symmetric_answers] [symmetric_answers]" by (simp add: same_first_def)
  from stun_second_query_ignored [OF ok ok this] one q show ?thesis by fastforce
qed

end
