(* ===== verification/Inet_Checksum.thy ===== *)
theory Inet_Checksum
  imports Vnt_Prelude
begin

text \<open>
  The Internet checksum of \<open>vnt/packet/src/lib.rs\<close> (\<open>cal_checksum\<close>, \<open>ipv4_cal_checksum\<close>), with
  its 32-bit accumulator and its carry-folding loop, against the ones-complement sum of RFC 1071
  over the naturals, and the interface \<open>inet_checksum\<close> that the IPv4, ICMP, IGMP, UDP and TCP
  packets share: a packet whose checksum field has just been updated verifies, and a verified
  packet with one aligned word corrupted does not.

  \<open>Cursor::read_u16\<close> on a single remaining byte fails, and \<open>std\<close> leaves unspecified how many bytes
  a failed \<open>read_exact\<close> has consumed. The code then reads that byte again. The model takes this as
  the parameter \<open>keep\<close>: whether the byte is still there after the failed read.
\<close>

section \<open>The code\<close>

definition u32c :: "u8 \<Rightarrow> u8 \<Rightarrow> u32" where
  "u32c x y = push_bit 8 (ucast x) OR ucast y"

text \<open>The \<open>while let Ok(value) = buffer.read_u16()\<close> loop: the sum and the bytes left.\<close>

fun read_words :: "bytes \<Rightarrow> u32 \<Rightarrow> u32 \<times> bytes" where
  "read_words (a # b # r) s = read_words r (s + ucast (u16_be a b))"
| "read_words r s = (s, r)"

definition add_tail :: "bool \<Rightarrow> u32 \<times> bytes \<Rightarrow> u32" where
  "add_tail keep p = (case p of (s, l # _) \<Rightarrow> (if keep then s + u32c l 0 else s) | (s, []) \<Rightarrow> s)"

text \<open>\<open>while sum >> 16 != 0 { sum = (sum & 0xffff) + (sum >> 16); }\<close>\<close>

lemma u32_low: "unat (w AND 0xFFFF :: u32) = unat w mod 65536"
proof -
  have "w AND 0xFFFF = take_bit 16 w"
    by (simp add: take_bit_eq_mask mask_eq_exp_minus_1)
  then show ?thesis by (simp add: take_bit_eq_mod unat_mod_distrib)
qed

lemma u32_high: "unat (drop_bit 16 w :: u32) = unat w div 65536"
  by (simp add: unsigned_drop_bit_eq drop_bit_eq_div [of 16 "unat w"] take_bit_eq_mod
      del: drop_bit_eq_div)

lemma fold_step:
  fixes s :: u32
  shows "unat ((s AND 0xFFFF) + drop_bit 16 s) = unat s mod 65536 + unat s div 65536"
proof -
  have "unat s mod 65536 + unat s div 65536 < 65536 + 65536"
    using unat_u32_less [of s] by (intro add_strict_mono) (auto simp: less_mult_imp_div_less)
  then have "unat (s AND 0xFFFF) + unat (drop_bit 16 s) < 2 ^ LENGTH(32)"
    by (simp add: u32_low u32_high)
  then show ?thesis
    by (simp add: unat_add_lem [THEN iffD1] u32_low u32_high)
qed

function fold_carry :: "u32 \<Rightarrow> u32" where
  "fold_carry s = (if drop_bit 16 s \<noteq> 0 then fold_carry ((s AND 0xFFFF) + drop_bit 16 s) else s)"
  by auto
termination
proof (relation "measure unat")
  show "wf (measure (unat :: u32 \<Rightarrow> nat))" by simp
  fix s :: u32
  assume "drop_bit 16 s \<noteq> 0"
  then have "0 < unat s div 65536"
    using u32_high [of s] by (metis unat_eq_zero gr0I)
  then have "unat s mod 65536 + unat s div 65536 < unat s"
    using div_mult_mod_eq [of "unat s" 65536] by linarith
  then show "((s AND 0xFFFF) + drop_bit 16 s, s) \<in> measure unat"
    by (simp add: fold_step)
qed

declare fold_carry.simps [simp del]

definition cal_checksum :: "bool \<Rightarrow> bytes \<Rightarrow> u16" where
  "cal_checksum keep buffer = ucast (NOT (fold_carry (add_tail keep (read_words buffer 0))))"

definition ipv4_cal_checksum :: "bool \<Rightarrow> bytes \<Rightarrow> ipv4_addr \<Rightarrow> ipv4_addr \<Rightarrow> u8 \<Rightarrow> u16" where
  "ipv4_cal_checksum keep buffer src_ip dest_ip protocol =
     (let s = u32_to_be src_ip; d = u32_to_be dest_ip;
          sum = 0 + u32c (s ! 0) (s ! 1);
          sum = sum + u32c (s ! 2) (s ! 3);
          sum = sum + u32c (d ! 0) (d ! 1);
          sum = sum + u32c (d ! 2) (d ! 3);
          sum = sum + u32c 0 protocol;
          sum = sum + of_nat (length buffer)
      in ucast (NOT (fold_carry (add_tail keep (read_words buffer sum)))))"

section \<open>RFC 1071 over the naturals\<close>

text \<open>The sum of the big-endian 16-bit words, an odd last byte padded with zero (if it is read at all).\<close>

fun be_sum :: "bool \<Rightarrow> bytes \<Rightarrow> nat" where
  "be_sum keep (a # b # r) = unat (u16_be a b) + be_sum keep r"
| "be_sum keep [a] = (if keep then 256 * unat a else 0)"
| "be_sum keep [] = 0"

text \<open>Ones-complement reduction: the representative in \<open>1..65535\<close>, and \<open>0\<close> for an empty sum.\<close>

definition ones_complement :: "nat \<Rightarrow> nat" where
  "ones_complement n = (if n = 0 then 0 else (n - 1) mod 65535 + 1)"

definition pseudo_sum :: "ipv4_addr \<Rightarrow> ipv4_addr \<Rightarrow> u8 \<Rightarrow> nat \<Rightarrow> nat" where
  "pseudo_sum src dst protocol len =
     be_sum True (u32_to_be src @ u32_to_be dst @ [0, protocol]) + len"

text \<open>Above this many bytes the 32-bit accumulator of the code might wrap.\<close>

abbreviation checksum_max :: nat where
  "checksum_max \<equiv> 130000"

section \<open>The loops\<close>

lemma unat_u32c [simp]: "unat (u32c x y) = 256 * unat x + unat y"
proof -
  have "u32c x y = push_bit 8 (ucast x) + ucast y"
    unfolding u32c_def
    by (rule disjunctive_add_eq_or [symmetric]) (auto intro!: bit_word_eqI simp: bit_simps)
  moreover have "unat (push_bit 8 (ucast x) :: u32) = 256 * unat x"
  proof -
    have "unat x * 256 < 4294967296" using unat_u8_less [of x] by linarith
    then show ?thesis by (simp add: push_bit_eq_mult unat_word_ariths unat_ucast_u8_u32)
  qed
  moreover have "256 * unat x + unat y < 4294967296"
    using unat_u8_less [of x] unat_u8_less [of y] by linarith
  ultimately show ?thesis
    by (simp add: unat_word_ariths unat_ucast_u8_u32)
qed

lemma be_sum_le: "be_sum keep b \<le> 65535 * (length b div 2 + length b mod 2)"
proof (induction keep b rule: be_sum.induct)
  case (1 keep a b r)
  moreover have "unat (u16_be a b) \<le> 65535"
    using unat_u16_less [of "u16_be a b"] by linarith
  ultimately show ?case by (simp add: algebra_simps)
next
  case (2 keep a)
  have "256 * unat a \<le> 65535" using unat_u8_less [of a] by linarith
  then show ?case by simp
qed simp

lemma be_sum_bound: "be_sum keep b \<le> 32768 * length b + 65535"
proof -
  obtain d m where dm: "length b = 2 * d + m" "m \<le> 1" "length b div 2 = d" "length b mod 2 = m"
    by (metis div_mult_mod_eq mult.commute not_mod_2_eq_1_eq_0 order.refl zero_le_one)
  then show ?thesis using be_sum_le [of keep b] by simp
qed

lemma read_words_sum:
  assumes "unat s + be_sum keep b < 2 ^ 32"
  shows "unat (add_tail keep (read_words b s)) = unat s + be_sum keep b"
  using assms
proof (induction b s rule: read_words.induct)
  case (1 a b r s)
  have "unat (s + ucast (u16_be a b)) = unat s + unat (u16_be a b)"
    using 1(2) by (simp add: unat_word_ariths unat_ucast_u16_u32)
  then show ?case using 1 by simp
qed (cases keep; simp add: add_tail_def unat_word_ariths)+

lemma ones_complement_fold:
  assumes "65536 \<le> n"
  shows "ones_complement (n mod 65536 + n div 65536) = ones_complement n"
proof -
  have "n = n div 65536 * 65536 + n mod 65536" by simp
  then have "n - 1 = n div 65536 * 65535 + (n mod 65536 + n div 65536 - 1)"
    using assms by linarith
  moreover have "n mod 65536 + n div 65536 \<noteq> 0" using assms by (simp add: div_eq_0_iff)
  moreover have "(n div 65536 * 65535 + (n mod 65536 + n div 65536 - 1)) mod 65535 =
      (n mod 65536 + n div 65536 - 1) mod 65535"
    by (metis mod_mult_self3)
  ultimately show ?thesis
    using assms by (simp add: ones_complement_def)
qed

lemma fold_carry_ones_complement: "unat (fold_carry s) = ones_complement (unat s)"
proof (induction s rule: fold_carry.induct)
  case (1 s)
  show ?case
  proof (cases "drop_bit 16 s = 0")
    case True
    then have "unat s < 65536"
      using u32_high [of s] by (simp add: div_eq_0_iff)
    then show ?thesis
      using True by (subst fold_carry.simps) (auto simp: ones_complement_def)
  next
    case False
    then have "65536 \<le> unat s"
      using u32_high [of s] by (metis div_less linorder_not_less unat_eq_zero)
    then show ?thesis
      using False 1 by (subst fold_carry.simps) (simp add: fold_step ones_complement_fold)
  qed
qed

lemma ones_complement_le: "ones_complement n \<le> 65535"
  by (auto simp: ones_complement_def Suc_le_eq)

lemma unat_not_low:
  assumes "unat (s :: u32) \<le> 65535"
  shows "unat (ucast (NOT s) :: u16) = 65535 - unat s"
proof -
  have "ucast (NOT s) = (NOT (ucast s) :: u16)"
    by (rule bit_word_eqI) (simp add: bit_simps)
  moreover have "unat (ucast s :: u16) = unat s"
    using assms by (simp add: unsigned_ucast_eq take_bit_nat_eq_self_iff)
  moreover have "unat (NOT w) = 65535 - unat w" for w :: u16
  proof -
    have "NOT w = -1 - w" by (simp add: not_eq_complement)
    moreover have "w \<le> -1" by simp
    ultimately show ?thesis by (simp add: unat_sub unsigned_minus_1_eq_mask mask_eq_exp_minus_1)
  qed
  ultimately show ?thesis by simp
qed

section \<open>The checksums, functionally\<close>

lemma unat_cal_checksum:
  assumes "length b < checksum_max"
  shows "unat (cal_checksum keep b) = 65535 - ones_complement (be_sum keep b)"
proof -
  have "unat (0 :: u32) + be_sum keep b < 2 ^ 32"
    using assms be_sum_bound [of keep b] by simp
  then have "unat (add_tail keep (read_words b 0)) = be_sum keep b"
    using read_words_sum by fastforce
  then show ?thesis
    unfolding cal_checksum_def
    by (simp add: unat_not_low fold_carry_ones_complement ones_complement_le)
qed

lemma unat_add_bounded: "unat s = n \<Longrightarrow> n + unat t < 4294967296 \<Longrightarrow> unat (s + t :: u32) = n + unat t"
  by (simp add: unat_word_ariths)

lemma unat_u16_be_mult: "unat (u16_be a b) = 256 * unat a + unat b"
  by (simp add: unat_u16_be)

lemma unat_ipv4_cal_checksum:
  assumes "length b < checksum_max"
  shows "unat (ipv4_cal_checksum keep b src dst protocol) =
    65535 - ones_complement (pseudo_sum src dst protocol (length b) + be_sum keep b)"
proof -
  define sum where "sum = 0 + u32c (u32_to_be src ! 0) (u32_to_be src ! 1) +
      u32c (u32_to_be src ! 2) (u32_to_be src ! 3) + u32c (u32_to_be dst ! 0) (u32_to_be dst ! 1) +
      u32c (u32_to_be dst ! 2) (u32_to_be dst ! 3) + u32c 0 protocol + of_nat (length b)"
  have le: "256 * unat x + unat y \<le> 65535" for x y :: u8
    using unat_u8_less [of x] unat_u8_less [of y] by linarith
  have len: "unat (of_nat (length b) :: u32) = length b"
    using assms by (simp add: unat_of_nat)
  have "unat sum = pseudo_sum src dst protocol (length b)"
    using le [of "u32_to_be src ! 0" "u32_to_be src ! 1"] le [of "u32_to_be src ! 2" "u32_to_be src ! 3"]
      le [of "u32_to_be dst ! 0" "u32_to_be dst ! 1"] le [of "u32_to_be dst ! 2" "u32_to_be dst ! 3"]
      le [of 0 protocol] assms
    unfolding sum_def pseudo_sum_def
    by (simp add: unat_word_ariths unat_u16_be_mult len u32_to_be_def)
  moreover have "pseudo_sum src dst protocol (length b) \<le> 5 * 65535 + length b"
    using be_sum_le [of True "u32_to_be src @ u32_to_be dst @ [0, protocol]"]
    by (simp add: pseudo_sum_def)
  ultimately have "unat (add_tail keep (read_words b sum)) =
      pseudo_sum src dst protocol (length b) + be_sum keep b"
    using assms be_sum_bound [of keep b] by (subst read_words_sum) auto
  moreover have "ipv4_cal_checksum keep b src dst protocol =
      ucast (NOT (fold_carry (add_tail keep (read_words b sum))))"
    by (simp add: ipv4_cal_checksum_def sum_def Let_def)
  ultimately show ?thesis
    by (simp add: unat_not_low fold_carry_ones_complement ones_complement_le)
qed

lemma be_sum_append: "even (length xs) \<Longrightarrow> be_sum keep (xs @ ys) = be_sum keep xs + be_sum keep ys"
  by (induction keep xs rule: be_sum.induct) auto

text \<open>The word of the buffer at an offset, and the buffer with another word there.\<close>

definition put_u16 :: "nat \<Rightarrow> u16 \<Rightarrow> bytes \<Rightarrow> bytes" where
  "put_u16 p w b = take p b @ u16_to_be w @ drop (p + 2) b"

definition u16_at :: "bytes \<Rightarrow> nat \<Rightarrow> u16" where
  "u16_at b p = u16_be (b ! p) (b ! (p + 1))"

lemma length_put_u16 [simp]: "p + 2 \<le> length b \<Longrightarrow> length (put_u16 p w b) = length b"
  by (simp add: put_u16_def)

lemma u16_at_put_u16 [simp]: "p + 2 \<le> length b \<Longrightarrow> u16_at (put_u16 p w b) p = w"
  by (simp add: u16_at_def put_u16_def nth_append u16_to_be_def)

lemma put_u16_put_u16 [simp]: "p + 2 \<le> length b \<Longrightarrow> put_u16 p v (put_u16 p w b) = put_u16 p v b"
  by (simp add: put_u16_def)

lemma put_u16_same: "p + 2 \<le> length b \<Longrightarrow> put_u16 p (u16_at b p) b = b"
  by (simp add: put_u16_def u16_at_def Cons_nth_drop_Suc)

lemma put_slice_u16:
  "p + 2 \<le> length b \<Longrightarrow> put_slice p (p + 2) (u16_to_be w) b = Ok (put_u16 p w b)"
  by (simp add: put_slice_def put_u16_def)

lemma be_sum_put_u16:
  assumes "even p" and "p + 2 \<le> length b"
  shows "be_sum keep (put_u16 p w b) + unat (u16_at b p) = be_sum keep b + unat w"
proof -
  have split: "be_sum keep (put_u16 p v b) =
      be_sum keep (take p b) + unat v + be_sum keep (drop (p + 2) b)" for v
    using assms unfolding put_u16_def by (simp add: be_sum_append u16_to_be_def)
  then show ?thesis
    using split [of w] split [of "u16_at b p"] put_u16_same [OF assms(2)] by simp
qed

section \<open>The interface of a checksummed packet\<close>

text \<open>
  \<open>cal\<close> is the packet's checksum routine on the whole covered buffer, \<open>pos\<close> the offset of its
  checksum field and \<open>base\<close> what a pseudo header adds for a buffer of that length.
\<close>

locale inet_checksum =
  fixes keep :: bool and cal :: "bytes \<Rightarrow> u16" and pos :: nat and base :: "nat \<Rightarrow> nat"
  assumes pos_even: "even pos"
    and cal_sum: "length b < checksum_max \<Longrightarrow>
      unat (cal b) = 65535 - ones_complement (base (length b) + be_sum keep b)"
begin

lemma cal_zero_iff:
  assumes "length b < checksum_max"
  shows "cal b = 0 \<longleftrightarrow> 0 < base (length b) + be_sum keep b \<and> 65535 dvd base (length b) + be_sum keep b"
proof -
  define n where "n = base (length b) + be_sum keep b"
  have "cal b = 0 \<longleftrightarrow> ones_complement n = 65535"
    using cal_sum [OF assms] ones_complement_le [of n] by (auto simp: n_def unat_eq_zero [symmetric] simp del: unat_eq_zero)
  also have "\<dots> \<longleftrightarrow> 0 < n \<and> 65535 dvd n"
  proof (cases "n = 0")
    case False
    then obtain m where "n = Suc m" by (cases n) auto
    moreover have "m mod 65535 = 65534 \<longleftrightarrow> Suc m mod 65535 = 0"
      using mod_Suc [of m 65535] by auto
    ultimately show ?thesis
      by (auto simp: ones_complement_def dvd_eq_mod_eq_0)
  qed (simp add: ones_complement_def)
  finally show ?thesis by (simp add: n_def)
qed

text \<open>The checksum of the buffer with a zeroed field, stored in the field, verifies.\<close>

lemma update_verifies:
  assumes "pos + 2 \<le> length b" and "length b < checksum_max"
  shows "cal (put_u16 pos (cal (put_u16 pos 0 b)) b) = 0"
proof -
  define z where "z = put_u16 pos 0 b"
  define n where "n = base (length b) + be_sum keep z"
  have z: "length z = length b" "u16_at z pos = 0"
    using assms by (simp_all add: z_def)
  have c: "unat (cal z) = 65535 - ones_complement n"
    using cal_sum [of z] assms z by (simp add: n_def)
  have b': "put_u16 pos (cal z) b = put_u16 pos (cal z) z"
    using assms by (simp add: z_def)
  have "be_sum keep (put_u16 pos (cal z) z) = be_sum keep z + unat (cal z)"
    using be_sum_put_u16 [OF pos_even, of z keep "cal z"] assms z by simp
  then have sum: "base (length b) + be_sum keep (put_u16 pos (cal z) z) = n + (65535 - ones_complement n)"
    using c by (simp add: n_def)
  have "0 < n + (65535 - ones_complement n) \<and> 65535 dvd n + (65535 - ones_complement n)"
  proof (cases "n = 0")
    case False
    then obtain q r where "n = q * 65535 + r + 1" "r < 65535" "ones_complement n = r + 1"
      by (metis Suc_eq_plus1 Suc_pred' bot_nat_0.not_eq_extremum div_mult_mod_eq mod_less_divisor
          ones_complement_def zero_less_numeral diff_Suc_1)
    then have "n + (65535 - ones_complement n) = 65535 * (q + 1)" by simp
    then show ?thesis by (metis add_is_0 dvd_triv_left gr0I \<open>n \<noteq> 0\<close>)
  qed (simp add: ones_complement_def)
  then show ?thesis
    using cal_zero_iff [of "put_u16 pos (cal z) z"] assms z sum b' by (metis length_put_u16 z_def)
qed

text \<open>A verified buffer with one aligned word replaced does not verify, unless ones-complement
  arithmetic cannot tell the two words apart (\<open>0x0000\<close> and \<open>0xFFFF\<close>).\<close>

lemma corruption_detected:
  assumes "cal b = 0" and "length b < checksum_max" and "even p" and "p + 2 \<le> length b"
    and "w \<noteq> u16_at b p" and "{w, u16_at b p} \<noteq> {0, 0xFFFF}"
  shows "cal (put_u16 p w b) \<noteq> 0"
proof
  assume zero: "cal (put_u16 p w b) = 0"
  let ?s = "base (length b) + be_sum keep b" and ?t = "base (length b) + be_sum keep (put_u16 p w b)"
  have "65535 dvd ?s" using assms cal_zero_iff [of b] by blast
  moreover have "65535 dvd ?t"
    using zero assms(2,4) cal_zero_iff [of "put_u16 p w b"] by (metis length_put_u16)
  ultimately have d: "65535 dvd int ?s" "65535 dvd int ?t"
    by (metis int_dvd_int_iff of_nat_numeral)+
  have "?t + unat (u16_at b p) = ?s + unat w"
    using be_sum_put_u16 [of p b keep w] assms by simp
  then have "int ?t - int ?s = int (unat w) - int (unat (u16_at b p))" by linarith
  then have "65535 dvd int (unat w) - int (unat (u16_at b p))"
    using d by (metis dvd_diff)
  then obtain k where k: "int (unat w) - int (unat (u16_at b p)) = 65535 * k"
    by (rule dvdE)
  moreover have "k \<noteq> 0" using k assms(5) by (auto simp: word_uint_eq_iff)
  moreover have "-2 < k" "k < 2"
    using k unat_u16_less [of w] unat_u16_less [of "u16_at b p"] by linarith+
  ultimately have "k = 1 \<or> k = -1" by linarith
  then have "unat w = 65535 \<and> unat (u16_at b p) = 0 \<or> unat w = 0 \<and> unat (u16_at b p) = 65535"
    using k unat_u16_less [of w] unat_u16_less [of "u16_at b p"] by (elim disjE) linarith+
  moreover have "unat v = 65535 \<Longrightarrow> v = 0xFFFF" for v :: u16
    by (simp add: word_unat_eq_iff)
  ultimately show False
    using assms(6) by (auto simp: unat_eq_zero)
qed

end

text \<open>The two routines of the code, for any even field offset.\<close>

lemma inet_checksum_plain: "even p \<Longrightarrow> inet_checksum keep (cal_checksum keep) p (\<lambda>_. 0)"
  by unfold_locales (simp_all add: unat_cal_checksum)

lemma inet_checksum_pseudo:
  "even p \<Longrightarrow> inet_checksum keep (\<lambda>b. ipv4_cal_checksum keep b src dst protocol) p
     (pseudo_sum src dst protocol)"
  by unfold_locales (simp_all add: unat_ipv4_cal_checksum)

end
