(* ===== verification/Ipv4_Packet.thy ===== *)
theory Ipv4_Packet
  imports Inet_Checksum
begin

text \<open>
  \<open>IpV4Packet\<close> of \<open>vnt/packet/src/ip/ipv4/packet.rs\<close> and \<open>IpPacket\<close> of \<open>ip/mod.rs\<close>: the parser's
  checks, the accessors with their slice bounds, the setters and the header checksum. A packet is
  its buffer. Of the protocol enum (\<open>ip/ipv4/protocol.rs\<close>) the constructors that the program
  distinguishes have a name here; the other assigned numbers are the \<open>IpOther\<close> ones.
\<close>

datatype ip_protocol = IpIcmp | IpIgmp | IpIpv4 | IpTcp | IpUdp | IpOther u8

definition ip_protocol_from :: "u8 \<Rightarrow> ip_protocol" where
  "ip_protocol_from value =
     (if value = 1 then IpIcmp else if value = 2 then IpIgmp else if value = 4 then IpIpv4
      else if value = 6 then IpTcp else if value = 17 then IpUdp else IpOther value)"

primrec ip_protocol_into :: "ip_protocol \<Rightarrow> u8" where
  "ip_protocol_into IpIcmp = 1"
| "ip_protocol_into IpIgmp = 2"
| "ip_protocol_into IpIpv4 = 4"
| "ip_protocol_into IpTcp = 6"
| "ip_protocol_into IpUdp = 17"
| "ip_protocol_into (IpOther p) = p"

interpretation ip_protocol: wire_enum ip_protocol_from ip_protocol_into
  by unfold_locales (simp add: ip_protocol_from_def)

section \<open>Parsing and accessors\<close>

definition ipv4_header_len :: "bytes \<Rightarrow> u8 outcome" where
  "ipv4_header_len b = obind (byte_at b 0) (\<lambda>v. Ok (v AND 0b1111))"

definition ipv4_new :: "bytes \<Rightarrow> bytes outcome" where
  "ipv4_new b =
     (if length b < 20 then Err (IoError InvalidData)
      else obind (byte_at b 0) (\<lambda>v0.
        if drop_bit 4 v0 \<noteq> 4 then Err (IoError InvalidData)
        else obind (ipv4_header_len b) (\<lambda>hl.
          if length b < unat hl * 4 then Err (IoError InvalidData) else Ok b)))"

definition ip_packet_new :: "bytes \<Rightarrow> bytes outcome" where
  "ip_packet_new b = obind (byte_at b 0) (\<lambda>v0.
     if drop_bit 4 v0 = 4 then ipv4_new b else Err (IoError InvalidData))"

definition ipv4_header :: "bytes \<Rightarrow> bytes outcome" where
  "ipv4_header b = obind (ipv4_header_len b) (\<lambda>hl. slice b 0 (unat hl * 4))"

definition ipv4_payload :: "bytes \<Rightarrow> bytes outcome" where
  "ipv4_payload b = obind (ipv4_header_len b) (\<lambda>hl. slice b (unat hl * 4) (length b))"

definition ipv4_version :: "bytes \<Rightarrow> u8 outcome" where
  "ipv4_version b = obind (byte_at b 0) (\<lambda>v. Ok (drop_bit 4 v))"

definition ipv4_dscp :: "bytes \<Rightarrow> u8 outcome" where
  "ipv4_dscp b = obind (byte_at b 1) (\<lambda>v. Ok (drop_bit 2 v))"

definition ipv4_ecn :: "bytes \<Rightarrow> u8 outcome" where
  "ipv4_ecn b = obind (byte_at b 1) (\<lambda>v. Ok (v AND 0b11))"

definition ipv4_length :: "bytes \<Rightarrow> u16 outcome" where
  "ipv4_length b = get_u16 2 b"

definition ipv4_id :: "bytes \<Rightarrow> u16 outcome" where
  "ipv4_id b = get_u16 4 b"

definition ipv4_flags :: "bytes \<Rightarrow> u8 outcome" where
  "ipv4_flags b = obind (byte_at b 6) (\<lambda>v. Ok (drop_bit 5 v))"

definition ipv4_offset :: "bytes \<Rightarrow> u16 outcome" where
  "ipv4_offset b = obind (get_u16 6 b) (\<lambda>v. Ok (v AND 0x1FFF))"

definition ipv4_ttl :: "bytes \<Rightarrow> u8 outcome" where
  "ipv4_ttl b = byte_at b 8"

definition ipv4_protocol :: "bytes \<Rightarrow> ip_protocol outcome" where
  "ipv4_protocol b = obind (byte_at b 9) (\<lambda>v. Ok (ip_protocol_from v))"

definition ipv4_checksum :: "bytes \<Rightarrow> u16 outcome" where
  "ipv4_checksum b = get_u16 10 b"

definition ipv4_is_valid :: "bool \<Rightarrow> bytes \<Rightarrow> bool outcome" where
  "ipv4_is_valid keep b = obind (ipv4_checksum b) (\<lambda>c.
     if c = 0 then Ok True
     else obind (ipv4_header b) (\<lambda>h. Ok (cal_checksum keep h = 0)))"

definition ipv4_source_ip :: "bytes \<Rightarrow> ipv4_addr outcome" where
  "ipv4_source_ip b = obind (byte_at b 12) (\<lambda>w. obind (byte_at b 13) (\<lambda>x.
     obind (byte_at b 14) (\<lambda>y. obind (byte_at b 15) (\<lambda>z. Ok (u32_be w x y z)))))"

definition ipv4_destination_ip :: "bytes \<Rightarrow> ipv4_addr outcome" where
  "ipv4_destination_ip b = obind (byte_at b 16) (\<lambda>w. obind (byte_at b 17) (\<lambda>x.
     obind (byte_at b 18) (\<lambda>y. obind (byte_at b 19) (\<lambda>z. Ok (u32_be w x y z)))))"

definition ipv4_options :: "bytes \<Rightarrow> bytes outcome" where
  "ipv4_options b = obind (ipv4_header_len b) (\<lambda>hl. slice b 20 (unat hl * 4))"

section \<open>Setters\<close>

text \<open>\<open>header_mut()\<close> is the sub-slice \<open>b[..4 * header_len]\<close>; a write through it is bounded by it.\<close>

definition ipv4_header_mut :: "(bytes \<Rightarrow> bytes outcome) \<Rightarrow> bytes \<Rightarrow> bytes outcome" where
  "ipv4_header_mut f b = obind (ipv4_header_len b) (\<lambda>hl.
     obind (slice b 0 (unat hl * 4)) (\<lambda>h.
       obind (f h) (\<lambda>h'. Ok (h' @ drop (unat hl * 4) b))))"

definition ipv4_payload_mut :: "(bytes \<Rightarrow> bytes outcome) \<Rightarrow> bytes \<Rightarrow> bytes outcome" where
  "ipv4_payload_mut f b = obind (ipv4_header_len b) (\<lambda>hl.
     obind (slice b (unat hl * 4) (length b)) (\<lambda>p.
       obind (f p) (\<lambda>p'. Ok (take (unat hl * 4) b @ p'))))"

definition ipv4_set_protocol :: "ip_protocol \<Rightarrow> bytes \<Rightarrow> bytes outcome" where
  "ipv4_set_protocol v = ipv4_header_mut (put_byte 9 (ip_protocol_into v))"

definition ipv4_set_source_ip :: "ipv4_addr \<Rightarrow> bytes \<Rightarrow> bytes outcome" where
  "ipv4_set_source_ip v = ipv4_header_mut (put_slice 12 16 (u32_to_be v))"

definition ipv4_set_destination_ip :: "ipv4_addr \<Rightarrow> bytes \<Rightarrow> bytes outcome" where
  "ipv4_set_destination_ip v = ipv4_header_mut (put_slice 16 20 (u32_to_be v))"

definition ipv4_set_flags :: "u8 \<Rightarrow> bytes \<Rightarrow> bytes outcome" where
  "ipv4_set_flags flags = modify_byte 6 (\<lambda>v. (v AND 0b11100000) OR push_bit 5 flags)"

definition ipv4_set_ttl :: "u8 \<Rightarrow> bytes \<Rightarrow> bytes outcome" where
  "ipv4_set_ttl ttl = put_byte 8 ttl"

definition ipv4_set_checksum :: "u16 \<Rightarrow> bytes \<Rightarrow> bytes outcome" where
  "ipv4_set_checksum v = ipv4_header_mut (put_slice 10 12 (u16_to_be v))"

definition ipv4_update_checksum :: "bool \<Rightarrow> bytes \<Rightarrow> bytes outcome" where
  "ipv4_update_checksum keep b = obind (ipv4_set_checksum 0 b) (\<lambda>b.
     obind (ipv4_header b) (\<lambda>h. ipv4_set_checksum (cal_checksum keep h) b))"

section \<open>What the parser guarantees\<close>

text \<open>\<open>ipv4_accepted\<close> is what \<open>new\<close> checks; \<open>ipv4_fits\<close> adds the bound RFC 791 puts on the header
  length, which \<open>new\<close> does not check.\<close>

definition ipv4_accepted :: "bytes \<Rightarrow> bool" where
  "ipv4_accepted b \<longleftrightarrow> 20 \<le> length b \<and> drop_bit 4 (b ! 0) = 4 \<and> unat (b ! 0 AND 0b1111) * 4 \<le> length b"

definition ipv4_fits :: "bytes \<Rightarrow> bool" where
  "ipv4_fits b \<longleftrightarrow> ipv4_accepted b \<and> 5 \<le> unat (b ! 0 AND 0b1111)"

lemma ipv4_new_Ok_iff: "ipv4_new b = Ok p \<longleftrightarrow> p = b \<and> ipv4_accepted b"
  by (auto simp: ipv4_new_def ipv4_accepted_def ipv4_header_len_def byte_at_def outcome_simps split: if_splits)

lemma ipv4_new_never_panics: "ipv4_new b \<noteq> Panic"
  by (auto simp: ipv4_new_def ipv4_header_len_def byte_at_def)

lemma ip_packet_new_panic_iff: "ip_packet_new b = Panic \<longleftrightarrow> b = []"
  using ipv4_new_never_panics [of b] by (auto simp: ip_packet_new_def byte_at_def)

lemma ipv4_fits_len:
  assumes "ipv4_fits b"
  shows "20 \<le> length b" "unat (b ! 0 AND 0b1111) * 4 \<le> length b" "5 \<le> unat (b ! 0 AND 0b1111)"
  using assms by (simp_all add: ipv4_fits_def ipv4_accepted_def)

lemma unat_and_15: "unat (v AND 0b1111 :: u8) \<le> 15"
proof -
  have "v AND 0b1111 \<le> (0b1111 :: u8)" by (rule word_and_le1)
  then show ?thesis by (simp add: word_le_nat_alt)
qed

lemma ipv4_header_len_ok [buf_simps]: "b \<noteq> [] \<Longrightarrow> ipv4_header_len b = Ok (b ! 0 AND 0b1111)"
  by (simp add: ipv4_header_len_def byte_at_def)

lemma ipv4_header_ok [buf_simps]:
  "ipv4_fits b \<Longrightarrow> ipv4_header b = Ok (take (unat (b ! 0 AND 0b1111) * 4) b)"
  using ipv4_fits_len [of b] by (auto simp: ipv4_header_def slice_def ipv4_header_len_def byte_at_def)

lemma ipv4_header_mut_put_slice:
  assumes "ipv4_fits b" and "i \<le> j" and "j \<le> 20" and "length src = j - i"
  shows "ipv4_header_mut (put_slice i j src) b = Ok (take i b @ src @ drop j b)"
proof -
  define n where "n = unat (b ! 0 AND 0b1111) * 4"
  have n: "20 \<le> n" "n \<le> length b" "b \<noteq> []"
    using ipv4_fits_len [OF assms(1)] by (auto simp: n_def)
  then have "ipv4_header_mut (put_slice i j src) b = Ok (take i (take n b) @ src @ drop j (take n b) @ drop n b)"
    using assms by (simp add: ipv4_header_mut_def buf_simps put_slice_def flip: n_def)
  moreover have "drop j (take n b) @ drop n b = drop j b"
    using assms n by (metis append_take_drop_id drop_append length_take min.absorb2 diff_is_0_eq
        drop0 le_trans)
  ultimately show ?thesis using assms n by (simp add: min_def)
qed

lemma ipv4_fits_overlay:
  assumes "ipv4_fits b" and "1 \<le> i" and "i \<le> j" and "j \<le> 20" and "length src = j - i"
  shows "ipv4_fits (take i b @ src @ drop j b)"
  using assms ipv4_fits_len [OF assms(1)]
  by (auto simp: ipv4_fits_def ipv4_accepted_def nth_append)

lemmas ipv4_set_ok = ipv4_set_source_ip_def ipv4_set_destination_ip_def ipv4_set_checksum_def
  ipv4_header_mut_put_slice

lemma nth_overlay:
  "i + length src \<le> length b \<Longrightarrow> k < length src \<Longrightarrow> (take i b @ src @ drop j b) ! (i + k) = src ! k"
  by (simp add: nth_append)

interpretation ipv4_src: field_lens ipv4_fits ipv4_source_ip ipv4_set_source_ip "\<lambda>_. True"
proof unfold_locales
  fix b :: bytes and v w :: ipv4_addr and b' :: bytes
  assume b: "ipv4_fits b"
  have l: "20 \<le> length b" using ipv4_fits_len [OF b] by simp
  show "\<exists>v. ipv4_source_ip b = Ok v"
    using l by (simp add: ipv4_source_ip_def buf_simps)
  show "\<exists>b'. ipv4_set_source_ip v b = Ok b' \<and> ipv4_fits b'"
    using b l by (simp add: ipv4_set_ok ipv4_fits_overlay)
  assume s: "ipv4_set_source_ip v b = Ok b'"
  then show "ipv4_source_ip b' = Ok v"
    using b l by (auto simp: ipv4_set_ok ipv4_source_ip_def buf_simps nth_append u32_to_be_def)
  show "ipv4_set_source_ip w b' = ipv4_set_source_ip w b"
    using s b l ipv4_fits_overlay [of b 12 16 "u32_to_be v"] by (auto simp: ipv4_set_ok)
qed

interpretation ipv4_dst: field_lens ipv4_fits ipv4_destination_ip ipv4_set_destination_ip "\<lambda>_. True"
proof unfold_locales
  fix b :: bytes and v w :: ipv4_addr and b' :: bytes
  assume b: "ipv4_fits b"
  have l: "20 \<le> length b" using ipv4_fits_len [OF b] by simp
  show "\<exists>v. ipv4_destination_ip b = Ok v"
    using l by (simp add: ipv4_destination_ip_def buf_simps)
  show "\<exists>b'. ipv4_set_destination_ip v b = Ok b' \<and> ipv4_fits b'"
    using b l by (simp add: ipv4_set_ok ipv4_fits_overlay)
  assume s: "ipv4_set_destination_ip v b = Ok b'"
  then show "ipv4_destination_ip b' = Ok v"
    using b l by (auto simp: ipv4_set_ok ipv4_destination_ip_def buf_simps nth_append u32_to_be_def)
  show "ipv4_set_destination_ip w b' = ipv4_set_destination_ip w b"
    using s b l ipv4_fits_overlay [of b 16 20 "u32_to_be v"] by (auto simp: ipv4_set_ok)
qed

section \<open>The header checksum\<close>

interpretation ipv4_sum: inet_checksum keep "cal_checksum keep" 10 "\<lambda>_. 0" for keep
  by (rule inet_checksum_plain) simp

lemma ipv4_update_checksum_eq:
  assumes "ipv4_fits b"
  shows "ipv4_update_checksum keep b =
    Ok (put_u16 10 (cal_checksum keep (take (unat (b ! 0 AND 0b1111) * 4) (put_u16 10 0 b))) b)"
proof -
  have l: "20 \<le> length b" using ipv4_fits_len [OF assms] by simp
  have set: "ipv4_set_checksum v c = Ok (put_u16 10 v c)" if "ipv4_fits c" for v c
    using that by (simp add: ipv4_set_ok put_u16_def)
  have fits: "ipv4_fits (put_u16 10 0 b)"
    using ipv4_fits_overlay [OF assms, of 10 12 "u16_to_be 0"] by (simp add: put_u16_def)
  have "put_u16 10 0 b ! 0 = b ! 0"
    using l by (simp add: put_u16_def nth_append)
  then show ?thesis
    using assms fits l by (simp add: ipv4_update_checksum_def set buf_simps)
qed

lemma ipv4_update_checksum_fits:
  assumes "ipv4_fits b"
  shows "\<exists>c. ipv4_update_checksum keep b = Ok (put_u16 10 c b) \<and> ipv4_fits (put_u16 10 c b) \<and>
    ipv4_is_valid keep (put_u16 10 c b) = Ok True"
proof -
  define n where "n = unat (b ! 0 AND 0b1111) * 4"
  define c where "c = cal_checksum keep (take n (put_u16 10 0 b))"
  have n: "20 \<le> n" "n \<le> length b" "n \<le> 60"
    using ipv4_fits_len [OF assms] unat_and_15 [of "b ! 0"] by (auto simp: n_def)
  have fits': "ipv4_fits (put_u16 10 c b)"
    using ipv4_fits_overlay [OF assms, of 10 12 "u16_to_be c"] by (simp add: put_u16_def)
  have tk: "take n (put_u16 10 v b) = put_u16 10 v (take n b)" for v
    using n by (simp add: put_u16_def drop_take)
  have zero: "cal_checksum keep (take n (put_u16 10 c b)) = 0"
    using ipv4_sum.update_verifies [of "take n b" keep] n by (simp add: tk c_def)
  have "put_u16 10 c b ! 0 = b ! 0"
    using n by (simp add: put_u16_def nth_append)
  then have "ipv4_header (put_u16 10 c b) = Ok (take n (put_u16 10 c b))"
    using ipv4_header_ok [OF fits'] by (simp only: n_def)
  moreover have "\<exists>v. ipv4_checksum (put_u16 10 c b) = Ok v"
    using n by (simp add: ipv4_checksum_def get_u16_ok)
  ultimately have "ipv4_is_valid keep (put_u16 10 c b) = Ok True"
    using zero by (auto simp: ipv4_is_valid_def)
  then show ?thesis
    using ipv4_update_checksum_eq [OF assms, of keep] fits' by (auto simp: c_def n_def)
qed

text \<open>After \<open>update_checksum\<close> a packet verifies: for every accepted packet whose header length is
  at least five words, the call returns, changes the two checksum octets at most, and \<open>is_valid\<close>
  then holds.\<close>

theorem ipv4_update_checksum_valid:
  assumes "ipv4_new b = Ok b" and "5 \<le> unat (b ! 0 AND 0b1111)"
  shows "\<exists>b'. ipv4_update_checksum keep b = Ok b' \<and> ipv4_is_valid keep b' = Ok True \<and>
    take 10 b' = take 10 b \<and> drop 12 b' = drop 12 b \<and> length b' = length b"
proof -
  have fits: "ipv4_fits b" using assms by (simp add: ipv4_new_Ok_iff ipv4_fits_def)
  then have "20 \<le> length b" using ipv4_fits_len by blast
  then show ?thesis using ipv4_update_checksum_fits [OF fits, of keep] by (auto simp: put_u16_def)
qed

definition ipv4_sample :: bytes where
  "ipv4_sample = [0x45, 0, 0, 20, 0, 1, 0, 0, 64, 17, 0, 0, 10, 26, 0, 2, 10, 26, 0, 3]"

lemma ipv4_update_checksum_valid_witness:
  "\<exists>b'. ipv4_update_checksum True ipv4_sample = Ok b' \<and> ipv4_is_valid True b' = Ok True \<and>
    take 10 b' = take 10 ipv4_sample \<and> drop 12 b' = drop 12 ipv4_sample \<and>
    length b' = length ipv4_sample"
  by (rule ipv4_update_checksum_valid)
     (simp_all add: ipv4_sample_def ipv4_new_def ipv4_header_len_def byte_at_def)

text \<open>The header length in octets, and what the accessors say of a packet with its payload replaced.\<close>

definition ipv4_ihl :: "bytes \<Rightarrow> nat" where
  "ipv4_ihl b = unat (b ! 0 AND 0b1111) * 4"

lemma ipv4_ihl_bounds: "ipv4_fits b \<Longrightarrow> 20 \<le> ipv4_ihl b \<and> ipv4_ihl b \<le> length b"
  using ipv4_fits_len [of b] by (simp add: ipv4_ihl_def)

lemma ipv4_payload_fits: "ipv4_fits b \<Longrightarrow> ipv4_payload b = Ok (drop (ipv4_ihl b) b)"
  using ipv4_ihl_bounds [of b]
  by (auto simp: ipv4_payload_def ipv4_ihl_def ipv4_header_len_def byte_at_def slice_def)

lemma ipv4_payload_mut_fits:
  "ipv4_fits b \<Longrightarrow> ipv4_payload_mut f b = omap (\<lambda>x. take (ipv4_ihl b) b @ x) (f (drop (ipv4_ihl b) b))"
  using ipv4_ihl_bounds [of b]
  by (cases "f (drop (ipv4_ihl b) b)")
    (auto simp: ipv4_payload_mut_def ipv4_ihl_def ipv4_header_len_def byte_at_def slice_def)

lemma ipv4_fits_payload:
  assumes "ipv4_fits b" and "length x = length b - ipv4_ihl b"
  shows "ipv4_fits (take (ipv4_ihl b) b @ x)" "ipv4_ihl (take (ipv4_ihl b) b @ x) = ipv4_ihl b"
    "ipv4_source_ip (take (ipv4_ihl b) b @ x) = ipv4_source_ip b"
    "ipv4_destination_ip (take (ipv4_ihl b) b @ x) = ipv4_destination_ip b"
    "ipv4_protocol (take (ipv4_ihl b) b @ x) = ipv4_protocol b"
proof -
  define b' where "b' = take (ipv4_ihl b) b @ x"
  note l = ipv4_ihl_bounds [OF assms(1)]
  have nth: "b' ! k = b ! k" if "k < 20" for k using that l by (simp add: b'_def nth_append)
  have len: "length b' = length b" "20 \<le> length b" using l assms(2) by (simp_all add: b'_def)
  have 0: "b' ! 0 = b ! 0" by (rule nth) simp
  then have "ipv4_fits b'" "ipv4_ihl b' = ipv4_ihl b"
    using assms(1) len unfolding ipv4_fits_def ipv4_accepted_def ipv4_ihl_def by simp_all
  then show "ipv4_fits (take (ipv4_ihl b) b @ x)" "ipv4_ihl (take (ipv4_ihl b) b @ x) = ipv4_ihl b"
    by (simp_all add: b'_def)
  show "ipv4_source_ip (take (ipv4_ihl b) b @ x) = ipv4_source_ip b"
    "ipv4_destination_ip (take (ipv4_ihl b) b @ x) = ipv4_destination_ip b"
    "ipv4_protocol (take (ipv4_ihl b) b @ x) = ipv4_protocol b"
    using len nth [of 9] nth [of 12] nth [of 13] nth [of 14] nth [of 15] nth [of 16] nth [of 17] nth [of 18] nth [of 19]
    unfolding b'_def [symmetric] ipv4_source_ip_def ipv4_destination_ip_def ipv4_protocol_def byte_at_def
    by simp_all
qed

text \<open>A write into the fixed header, behind its first octet, of an address or the checksum.\<close>

lemma ipv4_overlay:
  assumes "ipv4_fits b" and "1 \<le> i" and "j = i + length src" and "j \<le> 20"
  defines "b' \<equiv> take i b @ src @ drop j b"
  shows "ipv4_fits b'" "ipv4_ihl b' = ipv4_ihl b" "drop (ipv4_ihl b) b' = drop (ipv4_ihl b) b" "length b' = length b"
    "j \<le> 12 \<or> 16 \<le> i \<Longrightarrow> ipv4_source_ip b' = ipv4_source_ip b"
    "j \<le> 16 \<Longrightarrow> ipv4_destination_ip b' = ipv4_destination_ip b"
    "j \<le> 9 \<or> 10 \<le> i \<Longrightarrow> ipv4_protocol b' = ipv4_protocol b"
proof -
  note l = ipv4_ihl_bounds [OF assms(1)]
  have "i \<le> j" "length src = j - i" using assms(3) by linarith+
  with assms(1,2,4) show "ipv4_fits b'" unfolding b'_def by (intro ipv4_fits_overlay)
  have nth: "b' ! k = b ! k" if "k < i \<or> j \<le> k" "k < length b" for k
  proof -
    have i: "length (take i b) = i" using l assms(3,4) by simp
    have "(take i b @ src @ drop j b) ! k = (src @ drop j b) ! (k - i)" if "i \<le> k"
      using that i by (simp only: nth_append not_less [symmetric] if_False)
    moreover have "(src @ drop j b) ! (k - i) = drop j b ! (k - i - length src)" if "j \<le> k"
    proof -
      have "\<not> k - i < length src" using that assms(3) by linarith
      then show ?thesis by (simp only: nth_append if_False)
    qed
    moreover have "(take i b @ src @ drop j b) ! k = b ! k" if "k < i"
      using that i by (simp only: nth_append nth_take if_True)
    ultimately show ?thesis using that assms(3) by (auto simp: b'_def)
  qed
  have len: "length b' = length b" using l assms(2-4) by (simp add: b'_def)
  then show "length b' = length b" .
  have "b' ! 0 = b ! 0" using assms(2) l by (intro nth) (auto simp: ipv4_ihl_def)
  then show ihl: "ipv4_ihl b' = ipv4_ihl b" by (simp add: ipv4_ihl_def)
  show "drop (ipv4_ihl b) b' = drop (ipv4_ihl b) b"
  proof -
    have "length src \<le> ipv4_ihl b - i" "i \<le> ipv4_ihl b" "i \<le> length b" using l assms(3,4) by linarith+
    then show ?thesis using assms(3) by (simp add: b'_def drop_append)
  qed
  show "ipv4_source_ip b' = ipv4_source_ip b" if "j \<le> 12 \<or> 16 \<le> i"
    using that nth [of 12] nth [of 13] nth [of 14] nth [of 15] l assms(4) len
    by (auto simp: ipv4_source_ip_def byte_at_def)
  show "ipv4_destination_ip b' = ipv4_destination_ip b" if "j \<le> 16"
    using that nth [of 16] nth [of 17] nth [of 18] nth [of 19] l assms(4) len
    by (auto simp: ipv4_destination_ip_def byte_at_def)
  show "ipv4_protocol b' = ipv4_protocol b" if "j \<le> 9 \<or> 10 \<le> i"
    using that nth [of 9] l assms(4) len by (auto simp: ipv4_protocol_def byte_at_def)
qed

text \<open>A header-length nibble below three passes \<open>new\<close>, and the address and checksum setters,
  \<open>options\<close> and \<open>update_checksum\<close> then index out of their slice: the process aborts on a packet
  that the parser accepted.\<close>

theorem ipv4_short_ihl_panics:
  assumes "ipv4_new b = Ok b" and "unat (b ! 0 AND 0b1111) < 3"
  shows "ipv4_set_source_ip v b = Panic \<and> ipv4_set_destination_ip v b = Panic \<and>
    ipv4_options b = Panic \<and> ipv4_update_checksum keep b = Panic"
  using assms
  by (auto simp: ipv4_new_Ok_iff ipv4_accepted_def ipv4_set_source_ip_def ipv4_update_checksum_def
      ipv4_set_destination_ip_def ipv4_options_def ipv4_header_mut_def ipv4_header_len_def
      ipv4_set_checksum_def byte_at_def slice_def put_slice_def)

lemma ipv4_short_ihl_panics_witness:
  "ipv4_set_source_ip 0 (0x40 # replicate 19 0) = Panic \<and>
   ipv4_set_destination_ip 0 (0x40 # replicate 19 0) = Panic \<and>
   ipv4_options (0x40 # replicate 19 0) = Panic \<and>
   ipv4_update_checksum True (0x40 # replicate 19 0) = Panic"
  by (rule ipv4_short_ihl_panics) (simp_all add: ipv4_new_def ipv4_header_len_def byte_at_def)

text \<open>\<open>set_flags\<close> does not replace the flags: the old ones stay set, and the high five bits of the
  fragment offset, which share the octet, are cleared.\<close>

theorem ipv4_set_flags_effect:
  assumes "8 \<le> length b"
  shows "\<exists>b'. ipv4_set_flags f b = Ok b' \<and>
    ipv4_flags b' = Ok (drop_bit 5 (b ! 6) OR (f AND 0b111)) \<and>
    ipv4_offset b' = Ok (ucast (b ! 7))"
proof -
  define v where "v = ((b ! 6) AND 0b11100000) OR push_bit 5 f"
  have "drop_bit 5 v = drop_bit 5 (b ! 6) OR (f AND 0b111)"
    unfolding v_def by (simp add: u8_eq_iff bit_simps)
  moreover have "u16_be v (b ! 7) AND 0x1FFF = ucast (b ! 7)"
    unfolding v_def u16_be_def by (simp add: u16_eq_iff bit_simps)
  ultimately show ?thesis
    using assms
    by (simp add: ipv4_set_flags_def ipv4_flags_def ipv4_offset_def buf_simps flip: v_def)
qed

lemma ipv4_set_flags_effect_witness:
  "\<exists>b'. ipv4_set_flags 0b010 [0x45, 0, 0, 20, 0, 1, 0x3F, 0xFF] = Ok b' \<and>
    ipv4_flags b' = Ok (drop_bit 5 ([0x45, 0, 0, 20, 0, 1, 0x3F, 0xFF] ! 6) OR (0b010 AND 0b111)) \<and>
    ipv4_offset b' = Ok (ucast ([0x45, 0, 0, 20, 0, 1, 0x3F, 0xFF :: u8] ! 7))"
  by (rule ipv4_set_flags_effect) simp

end
