(* ===== verification/Transport_Packets.thy ===== *)
theory Transport_Packets
  imports Ipv4_Packet
begin

text \<open>
  \<open>UdpPacket\<close> (\<open>vnt/packet/src/udp/udp.rs\<close>) and \<open>TcpPacket\<close> (\<open>tcp/tcp.rs\<close>): the buffer and the two
  addresses of the pseudo header. The IP proxy rewrites their ports and addresses and then calls
  \<open>update_checksum\<close>; the theorems say that what it sends verifies at the receiver.
\<close>

section \<open>UDP\<close>

record udp_packet =
  udp_source_ip :: ipv4_addr
  udp_destination_ip :: ipv4_addr
  udp_buffer :: bytes

definition udp_unchecked :: "ipv4_addr \<Rightarrow> ipv4_addr \<Rightarrow> bytes \<Rightarrow> udp_packet" where
  "udp_unchecked source_ip destination_ip buffer =
     \<lparr>udp_source_ip = source_ip, udp_destination_ip = destination_ip, udp_buffer = buffer\<rparr>"

definition udp_new :: "ipv4_addr \<Rightarrow> ipv4_addr \<Rightarrow> bytes \<Rightarrow> udp_packet outcome" where
  "udp_new source_ip destination_ip buffer =
     (if length buffer < 8 then Err (IoError InvalidData)
      else Ok (udp_unchecked source_ip destination_ip buffer))"

definition udp_source_port :: "udp_packet \<Rightarrow> u16 outcome" where
  "udp_source_port p = get_u16 0 (udp_buffer p)"

definition udp_destination_port :: "udp_packet \<Rightarrow> u16 outcome" where
  "udp_destination_port p = get_u16 2 (udp_buffer p)"

definition udp_length :: "udp_packet \<Rightarrow> u16 outcome" where
  "udp_length p = get_u16 4 (udp_buffer p)"

definition udp_checksum :: "udp_packet \<Rightarrow> u16 outcome" where
  "udp_checksum p = get_u16 6 (udp_buffer p)"

definition udp_cal_checksum :: "bool \<Rightarrow> udp_packet \<Rightarrow> u16" where
  "udp_cal_checksum keep p =
     ipv4_cal_checksum keep (udp_buffer p) (udp_source_ip p) (udp_destination_ip p) 17"

definition udp_is_valid :: "bool \<Rightarrow> udp_packet \<Rightarrow> bool outcome" where
  "udp_is_valid keep p = obind (udp_checksum p) (\<lambda>c. Ok (c = 0 \<or> udp_cal_checksum keep p = 0))"

definition udp_payload :: "udp_packet \<Rightarrow> bytes outcome" where
  "udp_payload p = slice (udp_buffer p) 8 (length (udp_buffer p))"

definition udp_write :: "nat \<Rightarrow> u16 \<Rightarrow> udp_packet \<Rightarrow> udp_packet outcome" where
  "udp_write i v p = omap (\<lambda>b. p\<lparr>udp_buffer := b\<rparr>) (set_u16 i v (udp_buffer p))"

definition udp_set_source_port :: "u16 \<Rightarrow> udp_packet \<Rightarrow> udp_packet outcome" where
  "udp_set_source_port v = udp_write 0 v"

definition udp_set_destination_port :: "u16 \<Rightarrow> udp_packet \<Rightarrow> udp_packet outcome" where
  "udp_set_destination_port v = udp_write 2 v"

definition udp_set_checksum :: "u16 \<Rightarrow> udp_packet \<Rightarrow> udp_packet outcome" where
  "udp_set_checksum v = udp_write 6 v"

definition udp_update_checksum :: "bool \<Rightarrow> udp_packet \<Rightarrow> udp_packet outcome" where
  "udp_update_checksum keep p =
     obind (udp_set_checksum 0 p) (\<lambda>p. udp_set_checksum (udp_cal_checksum keep p) p)"

section \<open>TCP\<close>

record tcp_packet =
  tcp_source_ip :: ipv4_addr
  tcp_destination_ip :: ipv4_addr
  tcp_buffer :: bytes

definition tcp_unchecked :: "ipv4_addr \<Rightarrow> ipv4_addr \<Rightarrow> bytes \<Rightarrow> tcp_packet" where
  "tcp_unchecked source_ip destination_ip buffer =
     \<lparr>tcp_source_ip = source_ip, tcp_destination_ip = destination_ip, tcp_buffer = buffer\<rparr>"

definition tcp_data_offset :: "tcp_packet \<Rightarrow> u8 outcome" where
  "tcp_data_offset p = obind (byte_at (tcp_buffer p) 12) (\<lambda>v. Ok (drop_bit 4 v))"

definition tcp_new :: "ipv4_addr \<Rightarrow> ipv4_addr \<Rightarrow> bytes \<Rightarrow> tcp_packet outcome" where
  "tcp_new source_ip destination_ip buffer =
     (let p = tcp_unchecked source_ip destination_ip buffer in
      if length (tcp_buffer p) < 20 then Err (IoError InvalidData)
      else obind (tcp_data_offset p) (\<lambda>off.
        if length (tcp_buffer p) < unat off * 4 then Err (IoError InvalidData) else Ok p))"

definition tcp_set_source_ip :: "ipv4_addr \<Rightarrow> tcp_packet \<Rightarrow> tcp_packet" where
  "tcp_set_source_ip v p = p\<lparr>tcp_source_ip := v\<rparr>"

definition tcp_set_destination_ip :: "ipv4_addr \<Rightarrow> tcp_packet \<Rightarrow> tcp_packet" where
  "tcp_set_destination_ip v p = p\<lparr>tcp_destination_ip := v\<rparr>"

definition tcp_write :: "nat \<Rightarrow> u16 \<Rightarrow> tcp_packet \<Rightarrow> tcp_packet outcome" where
  "tcp_write i v p = omap (\<lambda>b. p\<lparr>tcp_buffer := b\<rparr>) (set_u16 i v (tcp_buffer p))"

definition tcp_set_checksum :: "u16 \<Rightarrow> tcp_packet \<Rightarrow> tcp_packet outcome" where
  "tcp_set_checksum v = tcp_write 16 v"

definition tcp_set_source_port :: "u16 \<Rightarrow> tcp_packet \<Rightarrow> tcp_packet outcome" where
  "tcp_set_source_port v = tcp_write 0 v"

definition tcp_set_destination_port :: "u16 \<Rightarrow> tcp_packet \<Rightarrow> tcp_packet outcome" where
  "tcp_set_destination_port v = tcp_write 2 v"

definition tcp_cal_checksum :: "bool \<Rightarrow> tcp_packet \<Rightarrow> u16" where
  "tcp_cal_checksum keep p =
     ipv4_cal_checksum keep (tcp_buffer p) (tcp_source_ip p) (tcp_destination_ip p) 6"

definition tcp_update_checksum :: "bool \<Rightarrow> tcp_packet \<Rightarrow> tcp_packet outcome" where
  "tcp_update_checksum keep p =
     obind (tcp_set_checksum 0 p) (\<lambda>p. tcp_set_checksum (tcp_cal_checksum keep p) p)"

definition tcp_source_port :: "tcp_packet \<Rightarrow> u16 outcome" where
  "tcp_source_port p = get_u16 0 (tcp_buffer p)"

definition tcp_destination_port :: "tcp_packet \<Rightarrow> u16 outcome" where
  "tcp_destination_port p = get_u16 2 (tcp_buffer p)"

definition tcp_sequence :: "tcp_packet \<Rightarrow> u32 outcome" where
  "tcp_sequence p = get_u32 4 (tcp_buffer p)"

definition tcp_acknowledgment :: "tcp_packet \<Rightarrow> u32 outcome" where
  "tcp_acknowledgment p = get_u32 8 (tcp_buffer p)"

definition tcp_flags :: "tcp_packet \<Rightarrow> u8 outcome" where
  "tcp_flags p = byte_at (tcp_buffer p) 13"

definition tcp_window :: "tcp_packet \<Rightarrow> u16 outcome" where
  "tcp_window p = get_u16 14 (tcp_buffer p)"

definition tcp_checksum :: "tcp_packet \<Rightarrow> u16 outcome" where
  "tcp_checksum p = get_u16 16 (tcp_buffer p)"

definition tcp_is_valid :: "bool \<Rightarrow> tcp_packet \<Rightarrow> bool outcome" where
  "tcp_is_valid keep p = obind (tcp_checksum p) (\<lambda>c. Ok (c = 0 \<or> tcp_cal_checksum keep p = 0))"

definition tcp_urgent_pointer :: "tcp_packet \<Rightarrow> u16 outcome" where
  "tcp_urgent_pointer p = get_u16 18 (tcp_buffer p)"

definition tcp_options :: "tcp_packet \<Rightarrow> bytes outcome" where
  "tcp_options p = obind (tcp_data_offset p) (\<lambda>off. slice (tcp_buffer p) 20 (unat off * 4))"

definition tcp_payload :: "tcp_packet \<Rightarrow> bytes outcome" where
  "tcp_payload p = obind (tcp_data_offset p) (\<lambda>off.
     slice (tcp_buffer p) (unat off * 4) (length (tcp_buffer p)))"

section \<open>Checksums\<close>

interpretation udp_sum: inet_checksum keep "\<lambda>b. ipv4_cal_checksum keep b src dst 17" 6 "pseudo_sum src dst 17"
  for keep src dst
  by (rule inet_checksum_pseudo) simp

interpretation tcp_sum: inet_checksum keep "\<lambda>b. ipv4_cal_checksum keep b src dst 6" 16 "pseudo_sum src dst 6"
  for keep src dst
  by (rule inet_checksum_pseudo) simp

lemma set_u16_put: "p + 2 \<le> length b \<Longrightarrow> set_u16 p v b = Ok (put_u16 p v b)"
  by (simp add: buf_simps put_u16_def)

lemma get_u16_put_same: "p + 2 \<le> length b \<Longrightarrow> get_u16 p (put_u16 p v b) = Ok v"
  using u16_at_put_u16 [of p b v] by (simp add: get_u16_ok u16_at_def)

lemma udp_update_checksum_eq:
  assumes "8 \<le> length (udp_buffer p)"
  shows "udp_update_checksum keep p = Ok (p\<lparr>udp_buffer := put_u16 6
    (ipv4_cal_checksum keep (put_u16 6 0 (udp_buffer p)) (udp_source_ip p) (udp_destination_ip p) 17)
    (udp_buffer p)\<rparr>)"
  using assms by (simp add: udp_update_checksum_def udp_set_checksum_def udp_write_def set_u16_put
      udp_cal_checksum_def)

lemma tcp_update_checksum_eq:
  assumes "20 \<le> length (tcp_buffer p)"
  shows "tcp_update_checksum keep p = Ok (p\<lparr>tcp_buffer := put_u16 16
    (ipv4_cal_checksum keep (put_u16 16 0 (tcp_buffer p)) (tcp_source_ip p) (tcp_destination_ip p) 6)
    (tcp_buffer p)\<rparr>)"
  using assms by (simp add: tcp_update_checksum_def tcp_set_checksum_def tcp_write_def set_u16_put
      tcp_cal_checksum_def)

text \<open>A UDP packet whose checksum was just updated verifies, and nothing but the checksum changed.
  The bound is far above any IP datagram; it keeps the 32-bit accumulator from wrapping.\<close>

theorem udp_update_checksum_valid:
  assumes "udp_new src dst b = Ok p" and "length b < checksum_max"
  shows "\<exists>p'. udp_update_checksum keep p = Ok p' \<and> udp_is_valid keep p' = Ok True \<and>
    udp_source_port p' = udp_source_port p \<and> udp_destination_port p' = udp_destination_port p \<and>
    udp_payload p' = udp_payload p"
proof -
  have p: "p = udp_unchecked src dst b" and l: "8 \<le> length b"
    using assms by (auto simp: udp_new_def split: if_splits)
  define c where "c = ipv4_cal_checksum keep (put_u16 6 0 b) src dst 17"
  have "udp_is_valid keep (p\<lparr>udp_buffer := put_u16 6 c b\<rparr>) = Ok True"
    using udp_sum.update_verifies [of b keep src dst] l assms(2)
    by (simp add: udp_is_valid_def udp_checksum_def get_u16_put_same udp_cal_checksum_def p
        udp_unchecked_def c_def)
  moreover have "udp_update_checksum keep p = Ok (p\<lparr>udp_buffer := put_u16 6 c b\<rparr>)"
    using udp_update_checksum_eq [of p keep] l by (simp add: p udp_unchecked_def c_def)
  ultimately show ?thesis
    using l by (auto simp: udp_source_port_def udp_destination_port_def udp_payload_def p
        udp_unchecked_def buf_simps put_u16_def nth_append)
qed

lemma udp_update_checksum_valid_witness:
  "\<exists>p'. udp_update_checksum False (udp_unchecked 1 2 [0, 53, 0, 99, 0, 9, 0, 0, 7]) = Ok p' \<and>
    udp_is_valid False p' = Ok True \<and>
    udp_source_port p' = udp_source_port (udp_unchecked 1 2 [0, 53, 0, 99, 0, 9, 0, 0, 7]) \<and>
    udp_destination_port p' = udp_destination_port (udp_unchecked 1 2 [0, 53, 0, 99, 0, 9, 0, 0, 7]) \<and>
    udp_payload p' = udp_payload (udp_unchecked 1 2 [0, 53, 0, 99, 0, 9, 0, 0, 7])"
  by (rule udp_update_checksum_valid [of 1 2 "[0, 53, 0, 99, 0, 9, 0, 0, 7]"]) (simp_all add: udp_new_def)

text \<open>A TCP segment whose checksum field was just computed does not verify any more after one
  aligned 16-bit word of it changed in transit (other than the checksum being zeroed, which the code
  reads as "no checksum", and \<open>0x0000\<close>/\<open>0xFFFF\<close> exchanged, which ones-complement sums cannot see).\<close>

theorem tcp_corruption_detected:
  assumes "tcp_new src dst b = Ok p" and "length b < checksum_max"
    and "tcp_update_checksum keep p = Ok q"
    and "even i" and "i + 2 \<le> length b" and "w \<noteq> u16_at (tcp_buffer q) i"
    and "{w, u16_at (tcp_buffer q) i} \<noteq> {0, 0xFFFF}"
    and "tcp_checksum (q\<lparr>tcp_buffer := put_u16 i w (tcp_buffer q)\<rparr>) \<noteq> Ok 0"
  shows "tcp_is_valid keep (q\<lparr>tcp_buffer := put_u16 i w (tcp_buffer q)\<rparr>) = Ok False"
proof -
  have p: "p = tcp_unchecked src dst b" and l: "20 \<le> length b"
    using assms(1) by (auto simp: tcp_new_def tcp_unchecked_def outcome_simps Let_def split: if_splits)
  define c where "c = ipv4_cal_checksum keep (put_u16 16 0 b) src dst 6"
  have q: "q = p\<lparr>tcp_buffer := put_u16 16 c b\<rparr>"
    using tcp_update_checksum_eq [of p keep] l assms(3) by (simp add: p tcp_unchecked_def c_def)
  have "ipv4_cal_checksum keep (put_u16 16 c b) src dst 6 = 0"
    using tcp_sum.update_verifies [of b keep src dst] l assms(2) by (simp add: c_def)
  then have "ipv4_cal_checksum keep (put_u16 i w (put_u16 16 c b)) src dst 6 \<noteq> 0"
    using tcp_sum.corruption_detected [of keep "put_u16 16 c b" src dst i w] assms l
    by (simp add: q)
  moreover have "\<exists>v. tcp_checksum (q\<lparr>tcp_buffer := put_u16 i w (tcp_buffer q)\<rparr>) = Ok v"
    using l assms(5) by (simp add: tcp_checksum_def get_u16_ok q)
  ultimately show ?thesis
    using assms(8) by (auto simp: tcp_is_valid_def tcp_cal_checksum_def q p tcp_unchecked_def)
qed

definition tcp_sample :: bytes where
  "tcp_sample = [0, 80, 0, 81, 0, 0, 0, 1, 0, 0, 0, 2, 0x50, 0x10, 1, 0, 0, 0, 0, 0]"

lemma tcp_corruption_detected_witness:
  "\<exists>q. tcp_update_checksum True (tcp_unchecked 1 2 tcp_sample) = Ok q \<and>
    tcp_is_valid True (q\<lparr>tcp_buffer := put_u16 0 7 (tcp_buffer q)\<rparr>) = Ok False"
proof -
  define c where "c = ipv4_cal_checksum True (put_u16 16 0 tcp_sample) 1 2 6"
  have c: "c \<noteq> 0"
    by (simp add: c_def ipv4_cal_checksum_def tcp_sample_def put_u16_def u16_to_be_def u32_to_be_def
        u32c_def u16_be_def add_tail_def fold_carry.simps)
  define q where "q = (tcp_unchecked 1 2 tcp_sample)\<lparr>tcp_buffer := put_u16 16 c tcp_sample\<rparr>"
  have upd: "tcp_update_checksum True (tcp_unchecked 1 2 tcp_sample) = Ok q"
    using tcp_update_checksum_eq [of "tcp_unchecked 1 2 tcp_sample" True]
    by (simp add: tcp_unchecked_def tcp_sample_def q_def c_def)
  have "tcp_is_valid True (q\<lparr>tcp_buffer := put_u16 0 7 (tcp_buffer q)\<rparr>) = Ok False"
    using c upd u16_be_to_be [of c, unfolded u16_be_def]
    by (intro tcp_corruption_detected [of 1 2 tcp_sample "tcp_unchecked 1 2 tcp_sample"])
       (simp_all add: tcp_new_def tcp_data_offset_def tcp_unchecked_def byte_at_def tcp_sample_def q_def
          u16_at_def put_u16_def u16_be_def tcp_checksum_def get_u16_def slice_def u16_to_be_def
          doubleton_eq_iff Let_def)
  with upd show ?thesis by blast
qed

end
