(* ===== verification/Icmp_Packet.thy ===== *)
theory Icmp_Packet
  imports Ipv4_Packet
begin

text \<open>
  \<open>vnt/packet/src/icmp/\<close>: the message kinds and codes, and \<open>IcmpPacket\<close> with its checksum. The
  constructors of the kinds carry the prefix \<open>Ic\<close>. A packet is its buffer.
\<close>

section \<open>Kinds and codes\<close>

datatype icmp_kind =
    IcEchoReply | IcDestinationUnreachable | IcSourceQuench | IcRedirect | IcEchoRequest |
    IcRouterAdvertisement | IcRouterSolicitation | IcTimeExceeded | IcParameterProblem |
    IcTimestampRequest | IcTimestampReply | IcInformationRequest | IcInformationReply |
    IcAddressMaskRequest | IcAddressMaskReply | IcTraceRoute | IcUnknown u8

definition icmp_kind_from :: "u8 \<Rightarrow> icmp_kind" where
  "icmp_kind_from value =
     (if value = 0 then IcEchoReply
      else if value = 3 then IcDestinationUnreachable
      else if value = 4 then IcSourceQuench
      else if value = 5 then IcRedirect
      else if value = 8 then IcEchoRequest
      else if value = 9 then IcRouterAdvertisement
      else if value = 10 then IcRouterSolicitation
      else if value = 11 then IcTimeExceeded
      else if value = 12 then IcParameterProblem
      else if value = 13 then IcTimestampRequest
      else if value = 14 then IcTimestampReply
      else if value = 15 then IcInformationRequest
      else if value = 16 then IcInformationReply
      else if value = 17 then IcAddressMaskRequest
      else if value = 18 then IcAddressMaskReply
      else if value = 30 then IcTraceRoute
      else IcUnknown value)"

primrec icmp_kind_into :: "icmp_kind \<Rightarrow> u8" where
  "icmp_kind_into IcEchoReply = 0"
| "icmp_kind_into IcDestinationUnreachable = 3"
| "icmp_kind_into IcSourceQuench = 4"
| "icmp_kind_into IcRedirect = 5"
| "icmp_kind_into IcEchoRequest = 8"
| "icmp_kind_into IcRouterAdvertisement = 9"
| "icmp_kind_into IcRouterSolicitation = 10"
| "icmp_kind_into IcTimeExceeded = 11"
| "icmp_kind_into IcParameterProblem = 12"
| "icmp_kind_into IcTimestampRequest = 13"
| "icmp_kind_into IcTimestampReply = 14"
| "icmp_kind_into IcInformationRequest = 15"
| "icmp_kind_into IcInformationReply = 16"
| "icmp_kind_into IcAddressMaskRequest = 17"
| "icmp_kind_into IcAddressMaskReply = 18"
| "icmp_kind_into IcTraceRoute = 30"
| "icmp_kind_into (IcUnknown v) = v"

interpretation icmp_kind: wire_enum icmp_kind_from icmp_kind_into
  by unfold_locales (simp add: icmp_kind_from_def)

datatype destination_unreachable =
    DestinationNetworkUnreachable | DestinationHostUnreachable |
    DestinationProtocolUnreachable | DestinationPortUnreachable | FragmentationRequired |
    SourceRouteFailed | DestinationNetworkUnknown | DestinationHostUnknown |
    SourceHostIsolated | NetworkAdministrativelyProhibited | HostAdministrativelyProhibited |
    NetworkUnreachableForTos | HostUnreachableForTos |
    CommunicationAdministrativelyProhibited | HostPrecedenceViolation |
    PrecedentCutoffInEffect | DuUnknown u8

definition destination_unreachable_from :: "u8 \<Rightarrow> destination_unreachable" where
  "destination_unreachable_from value =
     (if value = 0 then DestinationNetworkUnreachable
      else if value = 1 then DestinationHostUnreachable
      else if value = 2 then DestinationProtocolUnreachable
      else if value = 3 then DestinationPortUnreachable
      else if value = 4 then FragmentationRequired
      else if value = 5 then SourceRouteFailed
      else if value = 6 then DestinationNetworkUnknown
      else if value = 7 then DestinationHostUnknown
      else if value = 8 then SourceHostIsolated
      else if value = 9 then NetworkAdministrativelyProhibited
      else if value = 10 then HostAdministrativelyProhibited
      else if value = 11 then NetworkUnreachableForTos
      else if value = 12 then HostUnreachableForTos
      else if value = 13 then CommunicationAdministrativelyProhibited
      else if value = 14 then HostPrecedenceViolation
      else if value = 15 then PrecedentCutoffInEffect
      else DuUnknown value)"

primrec destination_unreachable_into :: "destination_unreachable \<Rightarrow> u8" where
  "destination_unreachable_into DestinationNetworkUnreachable = 0"
| "destination_unreachable_into DestinationHostUnreachable = 1"
| "destination_unreachable_into DestinationProtocolUnreachable = 2"
| "destination_unreachable_into DestinationPortUnreachable = 3"
| "destination_unreachable_into FragmentationRequired = 4"
| "destination_unreachable_into SourceRouteFailed = 5"
| "destination_unreachable_into DestinationNetworkUnknown = 6"
| "destination_unreachable_into DestinationHostUnknown = 7"
| "destination_unreachable_into SourceHostIsolated = 8"
| "destination_unreachable_into NetworkAdministrativelyProhibited = 9"
| "destination_unreachable_into HostAdministrativelyProhibited = 10"
| "destination_unreachable_into NetworkUnreachableForTos = 11"
| "destination_unreachable_into HostUnreachableForTos = 12"
| "destination_unreachable_into CommunicationAdministrativelyProhibited = 13"
| "destination_unreachable_into HostPrecedenceViolation = 14"
| "destination_unreachable_into PrecedentCutoffInEffect = 15"
| "destination_unreachable_into (DuUnknown v) = v"

interpretation destination_unreachable: wire_enum destination_unreachable_from destination_unreachable_into
  by unfold_locales (simp add: destination_unreachable_from_def)

datatype redirect =
    RedirectDatagramForNetwork | RedirectDatagramForHost | RedirectDatagramForTosAndNetwork |
    RedirectDatagramForTosAndHost | RdUnknown u8

definition redirect_from :: "u8 \<Rightarrow> redirect" where
  "redirect_from value =
     (if value = 0 then RedirectDatagramForNetwork
      else if value = 1 then RedirectDatagramForHost
      else if value = 2 then RedirectDatagramForTosAndNetwork
      else if value = 3 then RedirectDatagramForTosAndHost
      else RdUnknown value)"

primrec redirect_into :: "redirect \<Rightarrow> u8" where
  "redirect_into RedirectDatagramForNetwork = 0"
| "redirect_into RedirectDatagramForHost = 1"
| "redirect_into RedirectDatagramForTosAndNetwork = 2"
| "redirect_into RedirectDatagramForTosAndHost = 3"
| "redirect_into (RdUnknown v) = v"

interpretation redirect: wire_enum redirect_from redirect_into
  by unfold_locales (simp add: redirect_from_def)

datatype time_exceeded =
    Transit | Reassembly | TeUnknown u8

definition time_exceeded_from :: "u8 \<Rightarrow> time_exceeded" where
  "time_exceeded_from value =
     (if value = 0 then Transit
      else if value = 1 then Reassembly
      else TeUnknown value)"

primrec time_exceeded_into :: "time_exceeded \<Rightarrow> u8" where
  "time_exceeded_into Transit = 0"
| "time_exceeded_into Reassembly = 1"
| "time_exceeded_into (TeUnknown v) = v"

interpretation time_exceeded: wire_enum time_exceeded_from time_exceeded_into
  by unfold_locales (simp add: time_exceeded_from_def)

datatype parameter_problem =
    PointerIndicatesError | MissingRequiredData | BadLength | PpUnknown u8

definition parameter_problem_from :: "u8 \<Rightarrow> parameter_problem" where
  "parameter_problem_from value =
     (if value = 0 then PointerIndicatesError
      else if value = 1 then MissingRequiredData
      else if value = 2 then BadLength
      else PpUnknown value)"

primrec parameter_problem_into :: "parameter_problem \<Rightarrow> u8" where
  "parameter_problem_into PointerIndicatesError = 0"
| "parameter_problem_into MissingRequiredData = 1"
| "parameter_problem_into BadLength = 2"
| "parameter_problem_into (PpUnknown v) = v"

interpretation parameter_problem: wire_enum parameter_problem_from parameter_problem_into
  by unfold_locales (simp add: parameter_problem_from_def)

datatype icmp_code =
    CodeDestinationUnreachable destination_unreachable
  | CodeRedirect redirect
  | CodeParameterProblem parameter_problem
  | CodeOther u8

definition icmp_code_from :: "icmp_kind \<Rightarrow> u8 \<Rightarrow> icmp_code" where
  "icmp_code_from kind code = (case kind of
       IcDestinationUnreachable \<Rightarrow> CodeDestinationUnreachable (destination_unreachable_from code)
     | IcRedirect \<Rightarrow> CodeRedirect (redirect_from code)
     | IcParameterProblem \<Rightarrow> CodeParameterProblem (parameter_problem_from code)
     | _ \<Rightarrow> CodeOther code)"

section \<open>\<open>IcmpPacket\<close>\<close>

definition icmp_new :: "bytes \<Rightarrow> bytes outcome" where
  "icmp_new buffer = (if length buffer < 8 then Err (IoError InvalidData) else Ok buffer)"

definition icmp_set_kind :: "icmp_kind \<Rightarrow> bytes \<Rightarrow> bytes outcome" where
  "icmp_set_kind kind = put_byte 0 (icmp_kind_into kind)"

definition icmp_update_checksum :: "bool \<Rightarrow> bytes \<Rightarrow> bytes outcome" where
  "icmp_update_checksum keep b = obind (put_slice 2 4 [0, 0] b) (\<lambda>b.
     put_slice 2 4 (u16_to_be (cal_checksum keep b)) b)"

definition icmp_get_kind :: "bytes \<Rightarrow> icmp_kind outcome" where
  "icmp_get_kind b = omap icmp_kind_from (byte_at b 0)"

definition icmp_get_code :: "bytes \<Rightarrow> icmp_code outcome" where
  "icmp_get_code b = obind (icmp_get_kind b) (\<lambda>k. omap (icmp_code_from k) (byte_at b 1))"

definition icmp_checksum :: "bytes \<Rightarrow> u16 outcome" where
  "icmp_checksum b = get_u16 2 b"

definition icmp_is_valid :: "bool \<Rightarrow> bytes \<Rightarrow> bool outcome" where
  "icmp_is_valid keep b = omap (\<lambda>c. c = 0 \<or> cal_checksum keep b = 0) (icmp_checksum b)"

datatype icmp_header_other =
    Unused u8 u8 u8 u8 | Pointer u8 | Address u8 u8 u8 u8 | Identifier u16 u16 | UnKnown u8 u8 u8 u8

definition icmp_header_other :: "bytes \<Rightarrow> icmp_header_other outcome" where
  "icmp_header_other b = obind (icmp_get_kind b) (\<lambda>k.
     let four = (\<lambda>f. obind (byte_at b 4) (\<lambda>a. obind (byte_at b 5) (\<lambda>c. obind (byte_at b 6) (\<lambda>d.
           obind (byte_at b 7) (\<lambda>e. Ok (f a c d e))))))
     in if k \<in> {IcEchoReply, IcEchoRequest, IcTimestampRequest, IcTimestampReply, IcInformationRequest,
                IcInformationReply}
        then obind (get_u16 4 b) (\<lambda>ide. obind (get_u16 6 b) (\<lambda>seq. Ok (Identifier ide seq)))
        else if k \<in> {IcDestinationUnreachable, IcTimeExceeded, IcSourceQuench} then four Unused
        else if k = IcRedirect then four Address
        else if k = IcParameterProblem then omap Pointer (byte_at b 4)
        else four UnKnown)"

definition icmp_payload :: "bytes \<Rightarrow> bytes outcome" where
  "icmp_payload b = slice b 8 (length b)"

datatype icmp_description = DescIp bytes | DescTimestamp u32 u32 u32 | DescOther bytes

text \<open>\<open>read_u32().unwrap()\<close> panics when fewer than four octets are left.\<close>

definition icmp_description :: "bytes \<Rightarrow> icmp_description outcome" where
  "icmp_description b = obind (icmp_get_kind b) (\<lambda>k. obind (icmp_payload b) (\<lambda>pl.
     if k \<in> {IcDestinationUnreachable, IcTimeExceeded, IcParameterProblem, IcSourceQuench, IcRedirect}
     then (case ipv4_new pl of Ok d \<Rightarrow> Ok (DescIp d) | Err _ \<Rightarrow> Ok (DescOther pl) | Panic \<Rightarrow> Panic)
     else if k \<in> {IcTimestampRequest, IcTimestampReply}
     then obind (get_u32 0 pl) (\<lambda>a. obind (get_u32 4 pl) (\<lambda>c. obind (get_u32 8 pl) (\<lambda>d.
       Ok (DescTimestamp a c d))))
     else Ok (DescOther pl)))"

section \<open>Lemmas\<close>

interpretation icmp_sum: inet_checksum keep "cal_checksum keep" 2 "\<lambda>_. 0" for keep
  by (rule inet_checksum_plain) simp

lemma icmp_update_checksum_eq:
  assumes "8 \<le> length b"
  shows "icmp_update_checksum keep b = Ok (put_u16 2 (cal_checksum keep (put_u16 2 0 b)) b)"
proof -
  have "put_slice 2 4 [0, 0] b = Ok (put_u16 2 0 b)"
    using assms by (simp add: put_slice_def put_u16_def u16_to_be_def)
  moreover have "put_slice 2 4 (u16_to_be w) (put_u16 2 0 b) = Ok (put_u16 2 w b)" for w
    using assms put_slice_u16 [of 2 "put_u16 2 0 b" w] by simp
  ultimately show ?thesis by (simp add: icmp_update_checksum_def)
qed

text \<open>A packet whose checksum was just updated verifies.\<close>

lemma icmp_update_checksum_valid:
  assumes "8 \<le> length b" and "length b < checksum_max"
  shows "\<exists>b'. icmp_update_checksum keep b = Ok b' \<and> icmp_is_valid keep b' = Ok True \<and>
    length b' = length b \<and> take 2 b' = take 2 b \<and> drop 4 b' = drop 4 b"
proof -
  let ?b = "put_u16 2 (cal_checksum keep (put_u16 2 0 b)) b"
  have "cal_checksum keep ?b = 0" using icmp_sum.update_verifies assms by simp
  moreover have "\<exists>v. icmp_checksum ?b = Ok v" using assms by (simp add: icmp_checksum_def get_u16_ok)
  ultimately have "icmp_is_valid keep ?b = Ok True" by (auto simp: icmp_is_valid_def)
  then show ?thesis
    using icmp_update_checksum_eq [OF assms(1), of keep] assms(1) by (simp add: put_u16_def)
qed

lemma icmp_total:
  assumes "icmp_new b = Ok b"
  shows "icmp_get_kind b \<noteq> Panic" "icmp_get_code b \<noteq> Panic" "icmp_header_other b \<noteq> Panic" "icmp_payload b \<noteq> Panic"
proof -
  have l: "8 \<le> length b" using assms by (simp add: icmp_new_def split: if_splits)
  have n: "b \<noteq> []" using l by auto
  show "icmp_get_kind b \<noteq> Panic" "icmp_get_code b \<noteq> Panic" "icmp_payload b \<noteq> Panic"
    using l n by (simp_all add: icmp_get_kind_def icmp_get_code_def icmp_payload_def byte_at_def slice_def)
  show "icmp_header_other b \<noteq> Panic"
    using l n by (simp add: icmp_header_other_def icmp_get_kind_def byte_at_def get_u16_ok Let_def)
qed

text \<open>A timestamp message shorter than its three stamps passes \<open>new\<close> and panics in \<open>description\<close>.\<close>

lemma icmp_description_panics:
  "icmp_description [13, 0, 0, 0, 0, 1, 0, 1] = Panic" "icmp_new [13, 0, 0, 0, 0, 1, 0, 1] = Ok [13, 0, 0, 0, 0, 1, 0, 1]"
  by (simp_all add: icmp_description_def icmp_get_kind_def icmp_payload_def byte_at_def slice_def get_u32_def
      icmp_kind_from_def icmp_new_def)

end
