(* ===== verification/Ip_Proxy.thy ===== *)
theory Ip_Proxy
  imports Transport_Packets Icmp_Packet
begin

text \<open>
  The address translation of \<open>vnt/src/ip_proxy/\<close>: \<open>IpProxyMap\<close> (\<open>mod.rs\<close>) with \<open>TcpProxy\<close>, \<open>UdpProxy\<close>
  and \<open>IcmpProxy\<close>. A packet that a peer sends through this node to a host of its own network is turned
  to a local proxy port (or into a raw ICMP socket); the proxy's answer gets the host's address back as
  its source. The sockets behind the proxy ports are I/O and not modelled; \<open>keep\<close> is the cursor
  behaviour of the checksum (\<open>Inet_Checksum\<close>).

  TCP and UDP have the same two handlers over different packet types. They are written once here, over
  the operations of the packet type, and instantiated; the interface of these operations is the
  locale \<open>nat_transport\<close>.
\<close>

section \<open>The handlers\<close>

type_synonym sock_v4 = "ipv4_addr \<times> u16"
type_synonym nat_map = "sock_v4 \<Rightarrow> sock_v4 option"

definition nat_recv_handle ::
    "(ipv4_addr \<Rightarrow> ipv4_addr \<Rightarrow> bytes \<Rightarrow> 'p outcome) \<Rightarrow> ('p \<Rightarrow> u16 outcome) \<Rightarrow> ('p \<Rightarrow> u16 outcome) \<Rightarrow>
     (u16 \<Rightarrow> 'p \<Rightarrow> 'p outcome) \<Rightarrow> (bool \<Rightarrow> 'p \<Rightarrow> 'p outcome) \<Rightarrow> ('p \<Rightarrow> bytes) \<Rightarrow>
     bool \<Rightarrow> u16 \<Rightarrow> ipv4_addr \<Rightarrow> ipv4_addr \<Rightarrow> bytes \<Rightarrow> nat_map \<Rightarrow> (bytes \<times> nat_map) outcome" where
  "nat_recv_handle new sport dport set_dport upd buf keep port source destination b m =
     obind (ipv4_destination_ip b) (\<lambda>dest_ip.
     obind (obind (ipv4_payload b) (new source destination)) (\<lambda>p.
     obind (sport p) (\<lambda>source_port. obind (dport p) (\<lambda>dest_port.
     obind (set_dport port p) (\<lambda>p. obind (upd keep p) (\<lambda>p.
     obind (ipv4_payload_mut (\<lambda>_. Ok (buf p)) b) (\<lambda>b.
     obind (ipv4_set_destination_ip destination b) (\<lambda>b.
     obind (ipv4_update_checksum keep b) (\<lambda>b.
       Ok (b, m((source, source_port) \<mapsto> (dest_ip, dest_port))))))))))))"

definition nat_send_handle ::
    "(ipv4_addr \<Rightarrow> ipv4_addr \<Rightarrow> bytes \<Rightarrow> 'p outcome) \<Rightarrow> ('p \<Rightarrow> u16 outcome) \<Rightarrow>
     (u16 \<Rightarrow> 'p \<Rightarrow> 'p outcome) \<Rightarrow> (bool \<Rightarrow> 'p \<Rightarrow> 'p outcome) \<Rightarrow> ('p \<Rightarrow> bytes) \<Rightarrow>
     bool \<Rightarrow> bytes \<Rightarrow> nat_map \<Rightarrow> bytes outcome" where
  "nat_send_handle new dport set_sport upd buf keep b m =
     obind (ipv4_source_ip b) (\<lambda>src_ip. obind (ipv4_destination_ip b) (\<lambda>dest_ip.
     obind (obind (ipv4_payload b) (new src_ip dest_ip)) (\<lambda>p. obind (dport p) (\<lambda>dest_port.
     (case m (dest_ip, dest_port) of
        None \<Rightarrow> Ok b
      | Some (source_ip, source_port) \<Rightarrow>
          obind (obind (ipv4_payload b) (new source_ip dest_ip)) (\<lambda>p.
          obind (set_sport source_port p) (\<lambda>p. obind (upd keep p) (\<lambda>p.
          obind (ipv4_payload_mut (\<lambda>_. Ok (buf p)) b) (\<lambda>b.
          obind (ipv4_set_source_ip source_ip b) (ipv4_update_checksum keep))))))))))"

definition tcp_recv_handle :: "bool \<Rightarrow> u16 \<Rightarrow> ipv4_addr \<Rightarrow> ipv4_addr \<Rightarrow> bytes \<Rightarrow> nat_map \<Rightarrow> (bytes \<times> nat_map) outcome" where
  "tcp_recv_handle = nat_recv_handle tcp_new tcp_source_port tcp_destination_port tcp_set_destination_port
     tcp_update_checksum tcp_buffer"

definition tcp_send_handle :: "bool \<Rightarrow> bytes \<Rightarrow> nat_map \<Rightarrow> bytes outcome" where
  "tcp_send_handle = nat_send_handle tcp_new tcp_destination_port tcp_set_source_port tcp_update_checksum tcp_buffer"

definition udp_recv_handle :: "bool \<Rightarrow> u16 \<Rightarrow> ipv4_addr \<Rightarrow> ipv4_addr \<Rightarrow> bytes \<Rightarrow> nat_map \<Rightarrow> (bytes \<times> nat_map) outcome" where
  "udp_recv_handle = nat_recv_handle udp_new udp_source_port udp_destination_port udp_set_destination_port
     udp_update_checksum udp_buffer"

definition udp_send_handle :: "bool \<Rightarrow> bytes \<Rightarrow> nat_map \<Rightarrow> bytes outcome" where
  "udp_send_handle = nat_send_handle udp_new udp_destination_port udp_set_source_port udp_update_checksum udp_buffer"

record ip_proxy =
  px_tcp_port :: u16
  px_tcp_map :: nat_map
  px_udp_port :: u16
  px_udp_map :: nat_map
  px_icmp_map :: "ipv4_addr \<times> u16 \<times> u16 \<Rightarrow> ipv4_addr option"
  px_icmp_out :: "(ipv4_addr \<times> bytes) list"

text \<open>The ICMP proxy; \<open>sent\<close> is what sending over the raw socket gives.\<close>

definition icmp_recv_handle :: "(ipv4_addr \<Rightarrow> bytes \<Rightarrow> unit outcome) \<Rightarrow> ipv4_addr \<Rightarrow> ipv4_addr \<Rightarrow> bytes \<Rightarrow>
    (ip_proxy, bool) action" where
  "icmp_recv_handle sent source destination b =
     sbind (slift (ipv4_offset b)) (\<lambda>offset. sbind (slift (ipv4_flags b)) (\<lambda>flags.
     if offset \<noteq> 0 \<or> flags AND 1 = 1 then sret True
     else sbind (slift (ipv4_destination_ip b)) (\<lambda>dest_ip.
       sbind (slift (obind (ipv4_payload b) icmp_new)) (\<lambda>icmp.
       sbind (slift (icmp_header_other icmp)) (\<lambda>other. case other of
           Identifier ide sq \<Rightarrow> (\<lambda>P.
             let P = P\<lparr>px_icmp_map := (px_icmp_map P)((dest_ip, ide, sq) \<mapsto> source)\<rparr> in
             sbind (slift (obind (ipv4_payload b) (sent dest_ip))) (\<lambda>_. sret True)
               (P\<lparr>px_icmp_out := px_icmp_out P @ [(dest_ip, icmp)]\<rparr>))
         | _ \<Rightarrow> sret True)))))"

text \<open>\<open>IpProxyMap\<close>: the result says whether the packet is consumed; the packet is part of the state.\<close>

definition proxy_recv_handle :: "bool \<Rightarrow> (ipv4_addr \<Rightarrow> bytes \<Rightarrow> unit outcome) \<Rightarrow> ipv4_addr \<Rightarrow> ipv4_addr \<Rightarrow>
    (ip_proxy \<times> bytes, bool) action" where
  "proxy_recv_handle keep sent source destination s = (case s of (P, b) \<Rightarrow>
     (case ipv4_protocol b of
        Ok IpTcp \<Rightarrow> (case tcp_recv_handle keep (px_tcp_port P) source destination b (px_tcp_map P) of
            Ok (b', m) \<Rightarrow> (Ok False, P\<lparr>px_tcp_map := m\<rparr>, b') | Err e \<Rightarrow> (Err e, P, b) | Panic \<Rightarrow> (Panic, P, b))
      | Ok IpUdp \<Rightarrow> (case udp_recv_handle keep (px_udp_port P) source destination b (px_udp_map P) of
            Ok (b', m) \<Rightarrow> (Ok False, P\<lparr>px_udp_map := m\<rparr>, b') | Err e \<Rightarrow> (Err e, P, b) | Panic \<Rightarrow> (Panic, P, b))
      | Ok IpIcmp \<Rightarrow> (case icmp_recv_handle sent source destination b P of (r, P') \<Rightarrow> (r, P', b))
      | Ok _ \<Rightarrow> (Ok False, P, b)
      | Err e \<Rightarrow> (Err e, P, b) | Panic \<Rightarrow> (Panic, P, b)))"

definition proxy_send_handle :: "bool \<Rightarrow> ip_proxy \<Rightarrow> bytes \<Rightarrow> bytes outcome" where
  "proxy_send_handle keep P b = obind (ipv4_protocol b) (\<lambda>proto. case proto of
       IpTcp \<Rightarrow> tcp_send_handle keep b (px_tcp_map P)
     | IpUdp \<Rightarrow> udp_send_handle keep b (px_udp_map P)
     | _ \<Rightarrow> Ok b)"

section \<open>The interface of a translated transport\<close>

text \<open>
  \<open>acc\<close>: the buffers \<open>new\<close> accepts; \<open>mk\<close>: the packet it makes of them; \<open>ck\<close>: the offset of the checksum;
  \<open>valid\<close>: the receiver's check.
\<close>

locale nat_transport =
  fixes new :: "ipv4_addr \<Rightarrow> ipv4_addr \<Rightarrow> bytes \<Rightarrow> 'p outcome" and sport dport :: "'p \<Rightarrow> u16 outcome"
    and set_sport set_dport :: "u16 \<Rightarrow> 'p \<Rightarrow> 'p outcome" and upd :: "bool \<Rightarrow> 'p \<Rightarrow> 'p outcome"
    and buf :: "'p \<Rightarrow> bytes" and acc :: "bytes \<Rightarrow> bool" and mk :: "ipv4_addr \<Rightarrow> ipv4_addr \<Rightarrow> bytes \<Rightarrow> 'p"
    and ck :: nat and valid :: "bool \<Rightarrow> 'p \<Rightarrow> bool outcome"
  assumes new_eq: "new s d b = (if acc b then Ok (mk s d b) else Err (IoError InvalidData))"
    and acc_len: "acc b \<Longrightarrow> ck + 2 \<le> length b" and ck_ge: "4 \<le> ck"
    and acc_put: "acc b \<Longrightarrow> i = 0 \<or> i = 2 \<or> i = ck \<Longrightarrow> acc (put_u16 i v b)"
    and sport_eq: "acc b \<Longrightarrow> sport (mk s d b) = Ok (u16_at b 0)"
    and dport_eq: "acc b \<Longrightarrow> dport (mk s d b) = Ok (u16_at b 2)"
    and set_sport_eq: "acc b \<Longrightarrow> set_sport v (mk s d b) = Ok (mk s d (put_u16 0 v b))"
    and set_dport_eq: "acc b \<Longrightarrow> set_dport v (mk s d b) = Ok (mk s d (put_u16 2 v b))"
    and upd_eq: "acc b \<Longrightarrow> \<exists>c. upd keep (mk s d b) = Ok (mk s d (put_u16 ck c b)) \<and>
      (length b < checksum_max \<longrightarrow> valid keep (mk s d (put_u16 ck c b)) = Ok True)"
    and buf_eq: "buf (mk s d b) = b"
begin

text \<open>A packet whose payload went through \<open>f\<close>, keeping its length, and got a new address at \<open>i\<close>.\<close>

lemma translated:
  fixes a :: ipv4_addr
  assumes "ipv4_fits b" and "length x = length b - ipv4_ihl b" and "i = 12 \<or> i = 16"
  defines "b1 \<equiv> take (ipv4_ihl b) b @ x"
  defines "b2 \<equiv> take i b1 @ u32_to_be a @ drop (i + 4) b1"
  shows "\<exists>b'. ipv4_update_checksum keep b2 = Ok b' \<and> ipv4_fits b' \<and> ipv4_is_valid keep b' = Ok True \<and>
    ipv4_payload b' = Ok x \<and> ipv4_protocol b' = ipv4_protocol b \<and>
    ipv4_source_ip b' = (if i = 12 then Ok a else ipv4_source_ip b) \<and>
    ipv4_destination_ip b' = (if i = 16 then Ok a else ipv4_destination_ip b) \<and>
    ipv4_header_mut (put_slice i (i + 4) (u32_to_be a)) b1 = Ok b2"
proof -
  note b1 = ipv4_fits_payload [OF assms(1,2), folded b1_def]
  have l: "ipv4_ihl b \<le> length b" "20 \<le> length b1" using ipv4_ihl_bounds [OF assms(1)] assms(2) by (auto simp: b1_def)
  have d1: "drop (ipv4_ihl b) b1 = x" using l by (simp add: b1_def)
  have pre: "1 \<le> i" "i + 4 = i + length (u32_to_be a)" "i + 4 \<le> 20" "i \<le> i + 4" "length (u32_to_be a) = i + 4 - i"
    using assms(3) by auto
  note b2 = ipv4_overlay [OF b1(1) pre(1-3), folded b2_def]
  have head: "ipv4_header_mut (put_slice i (i + 4) (u32_to_be a)) b1 = Ok b2"
    unfolding b2_def by (rule ipv4_header_mut_put_slice [OF b1(1) pre(4,3,5)])
  have addr: "ipv4_source_ip b2 = (if i = 12 then Ok a else ipv4_source_ip b)"
    "ipv4_destination_ip b2 = (if i = 16 then Ok a else ipv4_destination_ip b)"
    using assms(3) b1 b2(5,6) head ipv4_src.get_set [OF b1(1) TrueI, of a b2] ipv4_dst.get_set [OF b1(1) TrueI, of a b2]
    by (auto simp: ipv4_set_source_ip_def ipv4_set_destination_ip_def)
  obtain c where c: "ipv4_update_checksum keep b2 = Ok (put_u16 10 c b2)" "ipv4_fits (put_u16 10 c b2)"
    "ipv4_is_valid keep (put_u16 10 c b2) = Ok True"
    using ipv4_update_checksum_fits [OF b2(1), of keep] by blast
  have pre3: "1 \<le> (10::nat)" "12 = 10 + length (u16_to_be c)" "12 \<le> (20::nat)" by simp_all
  note b3 = ipv4_overlay [OF b2(1) pre3]
  have eq3: "put_u16 10 c b2 = take 10 b2 @ u16_to_be c @ drop 12 b2" by (simp add: put_u16_def)
  have "ipv4_payload (put_u16 10 c b2) = Ok x"
    unfolding eq3 ipv4_payload_fits [OF b3(1)] b3(2) b2(2) b1(2) using b3(3) b2(3) d1
    by (simp only: b2(2) b1(2))
  moreover have "ipv4_protocol (put_u16 10 c b2) = ipv4_protocol b"
    using b3(7) b2(7) b1(5) assms(3) by (simp add: eq3) auto
  moreover have "ipv4_source_ip (put_u16 10 c b2) = ipv4_source_ip b2"
    "ipv4_destination_ip (put_u16 10 c b2) = ipv4_destination_ip b2"
    using b3(5,6) by (simp_all add: eq3)
  ultimately show ?thesis using c addr head by auto
qed

text \<open>A packet for a host behind this node is turned to the proxy port, with valid checksums, and the
  host is noted under the packet's source.\<close>

lemma forward:
  assumes "ipv4_fits b" and "ipv4_payload b = Ok pl" and "acc pl" and "ipv4_destination_ip b = Ok host"
  shows "\<exists>b' c. nat_recv_handle new sport dport set_dport upd buf keep port source destination b m =
      Ok (b', m((source, u16_at pl 0) \<mapsto> (host, u16_at pl 2))) \<and> ipv4_fits b' \<and> ipv4_is_valid keep b' = Ok True \<and>
    ipv4_source_ip b' = ipv4_source_ip b \<and> ipv4_destination_ip b' = Ok destination \<and>
    ipv4_protocol b' = ipv4_protocol b \<and> ipv4_payload b' = Ok (put_u16 ck c (put_u16 2 port pl)) \<and>
    (length pl < checksum_max \<longrightarrow> valid keep (mk source destination (put_u16 ck c (put_u16 2 port pl))) = Ok True)"
proof -
  have pl: "pl = drop (ipv4_ihl b) b" using assms(1,2) by (simp add: ipv4_payload_fits)
  have l: "ck + 2 \<le> length pl" "4 \<le> ck" using acc_len [OF assms(3)] ck_ge by simp_all
  obtain c where c: "upd keep (mk source destination (put_u16 2 port pl)) =
      Ok (mk source destination (put_u16 ck c (put_u16 2 port pl)))"
    "length (put_u16 2 port pl) < checksum_max \<longrightarrow>
      valid keep (mk source destination (put_u16 ck c (put_u16 2 port pl))) = Ok True"
    using upd_eq [OF acc_put [OF assms(3)], of 2 keep] by blast
  define x where "x = put_u16 ck c (put_u16 2 port pl)"
  have x: "length x = length b - ipv4_ihl b" using l by (simp add: x_def pl)
  obtain b' where b': "ipv4_update_checksum keep (take 16 (take (ipv4_ihl b) b @ x) @ u32_to_be destination @
      drop 20 (take (ipv4_ihl b) b @ x)) = Ok b'" "ipv4_fits b'" "ipv4_is_valid keep b' = Ok True"
    "ipv4_payload b' = Ok x" "ipv4_protocol b' = ipv4_protocol b" "ipv4_source_ip b' = ipv4_source_ip b"
    "ipv4_destination_ip b' = Ok destination"
    "ipv4_set_destination_ip destination (take (ipv4_ihl b) b @ x) = Ok (take 16 (take (ipv4_ihl b) b @ x) @
      u32_to_be destination @ drop 20 (take (ipv4_ihl b) b @ x))"
    using translated [OF assms(1) x, of 16 keep destination] by (auto simp: ipv4_set_destination_ip_def)
  have "nat_recv_handle new sport dport set_dport upd buf keep port source destination b m =
      Ok (b', m((source, u16_at pl 0) \<mapsto> (host, u16_at pl 2)))"
    using assms(2-4) b'(1,8) c(1)
    by (simp add: nat_recv_handle_def new_eq sport_eq dport_eq set_dport_eq buf_eq
        ipv4_payload_mut_fits [OF assms(1)] flip: x_def)
  then show ?thesis using b' c(2) l by (intro exI [of _ b'] exI [of _ c]) (simp add: x_def)
qed

text \<open>A packet to a noted source gets the noted host as its source, with valid checksums; any other
  packet stays as it is.\<close>

lemma backward:
  assumes "ipv4_fits b" and "ipv4_payload b = Ok pl" and "acc pl" and "ipv4_destination_ip b = Ok peer"
  shows "m (peer, u16_at pl 2) = None \<Longrightarrow> nat_send_handle new dport set_sport upd buf keep b m = Ok b"
    and "m (peer, u16_at pl 2) = Some (host, hport) \<Longrightarrow>
      \<exists>b' c. nat_send_handle new dport set_sport upd buf keep b m = Ok b' \<and> ipv4_fits b' \<and>
        ipv4_is_valid keep b' = Ok True \<and> ipv4_source_ip b' = Ok host \<and> ipv4_destination_ip b' = Ok peer \<and>
        ipv4_payload b' = Ok (put_u16 ck c (put_u16 0 hport pl)) \<and>
        (length pl < checksum_max \<longrightarrow> valid keep (mk host peer (put_u16 ck c (put_u16 0 hport pl))) = Ok True)"
proof -
  obtain src where src: "ipv4_source_ip b = Ok src" using ipv4_src.get_total [OF assms(1)] by blast
  show "nat_send_handle new dport set_sport upd buf keep b m = Ok b" if "m (peer, u16_at pl 2) = None"
    using assms(2-4) src that by (simp add: nat_send_handle_def new_eq dport_eq)
  assume noted: "m (peer, u16_at pl 2) = Some (host, hport)"
  have pl: "pl = drop (ipv4_ihl b) b" using assms(1,2) by (simp add: ipv4_payload_fits)
  have l: "ck + 2 \<le> length pl" "4 \<le> ck" using acc_len [OF assms(3)] ck_ge by simp_all
  obtain c where c: "upd keep (mk host peer (put_u16 0 hport pl)) =
      Ok (mk host peer (put_u16 ck c (put_u16 0 hport pl)))"
    "length (put_u16 0 hport pl) < checksum_max \<longrightarrow>
      valid keep (mk host peer (put_u16 ck c (put_u16 0 hport pl))) = Ok True"
    using upd_eq [OF acc_put [OF assms(3)], of 0 keep] by blast
  define x where "x = put_u16 ck c (put_u16 0 hport pl)"
  have x: "length x = length b - ipv4_ihl b" using l by (simp add: x_def pl)
  obtain b' where b': "ipv4_update_checksum keep (take 12 (take (ipv4_ihl b) b @ x) @ u32_to_be host @
      drop 16 (take (ipv4_ihl b) b @ x)) = Ok b'" "ipv4_fits b'" "ipv4_is_valid keep b' = Ok True"
    "ipv4_payload b' = Ok x" "ipv4_destination_ip b' = ipv4_destination_ip b" "ipv4_source_ip b' = Ok host"
    "ipv4_set_source_ip host (take (ipv4_ihl b) b @ x) = Ok (take 12 (take (ipv4_ihl b) b @ x) @
      u32_to_be host @ drop 16 (take (ipv4_ihl b) b @ x))"
    using translated [OF assms(1) x, of 12 keep host] by (auto simp: ipv4_set_source_ip_def)
  have "nat_send_handle new dport set_sport upd buf keep b m = Ok b'"
    using assms(2-4) src noted b'(1,7) c(1)
    by (simp add: nat_send_handle_def new_eq dport_eq set_sport_eq buf_eq
        ipv4_payload_mut_fits [OF assms(1)] flip: x_def)
  then show "\<exists>b' c. nat_send_handle new dport set_sport upd buf keep b m = Ok b' \<and> ipv4_fits b' \<and>
        ipv4_is_valid keep b' = Ok True \<and> ipv4_source_ip b' = Ok host \<and> ipv4_destination_ip b' = Ok peer \<and>
        ipv4_payload b' = Ok (put_u16 ck c (put_u16 0 hport pl)) \<and>
        (length pl < checksum_max \<longrightarrow> valid keep (mk host peer (put_u16 ck c (put_u16 0 hport pl))) = Ok True)"
    using b' c(2) l assms(4) by (intro exI [of _ b'] exI [of _ c]) (simp add: x_def)
qed

end

section \<open>TCP and UDP keep the interface\<close>

lemma nth_put_u16:
  assumes "p + 2 \<le> length b" and "k < p \<or> p + 2 \<le> k"
  shows "put_u16 p w b ! k = b ! k"
proof (cases "k < p")
  case True
  with assms(1) show ?thesis by (simp add: put_u16_def nth_append)
next
  case False
  with assms(2) obtain j where "k = p + 2 + j" using le_Suc_ex by force
  with assms(1) show ?thesis by (simp add: put_u16_def nth_append u16_to_be_def add.assoc)
qed

lemma u16_at_put_other:
  "p + 2 \<le> length b \<Longrightarrow> q + 2 \<le> p \<or> p + 2 \<le> q \<Longrightarrow> u16_at (put_u16 p w b) q = u16_at b q"
  by (auto simp: u16_at_def nth_put_u16)

definition tcp_acc :: "bytes \<Rightarrow> bool" where
  "tcp_acc b \<longleftrightarrow> 20 \<le> length b \<and> unat (drop_bit 4 (b ! 12)) * 4 \<le> length b"

definition udp_acc :: "bytes \<Rightarrow> bool" where
  "udp_acc b \<longleftrightarrow> 8 \<le> length b"

lemma get_u16_at: "p + 2 \<le> length b \<Longrightarrow> get_u16 p b = Ok (u16_at b p)"
  by (simp add: get_u16_ok u16_at_def)

interpretation nat_tcp: nat_transport tcp_new tcp_source_port tcp_destination_port tcp_set_source_port
  tcp_set_destination_port tcp_update_checksum tcp_buffer tcp_acc tcp_unchecked 16 tcp_is_valid
proof
  fix b :: bytes and s d :: ipv4_addr and v :: u16 and keep :: bool
  show "tcp_new s d b = (if tcp_acc b then Ok (tcp_unchecked s d b) else Err (IoError InvalidData))"
    by (auto simp: tcp_new_def tcp_acc_def tcp_unchecked_def tcp_data_offset_def byte_at_def Let_def)
  assume a: "tcp_acc b"
  then have l: "20 \<le> length b" by (simp add: tcp_acc_def)
  show "16 + 2 \<le> length b" using l by simp
  show "tcp_acc (put_u16 i v b)" if "i = 0 \<or> i = 2 \<or> i = 16" for i
    using a that l by (auto simp: tcp_acc_def nth_put_u16)
  show "tcp_source_port (tcp_unchecked s d b) = Ok (u16_at b 0)"
    "tcp_destination_port (tcp_unchecked s d b) = Ok (u16_at b 2)"
    using l by (simp_all add: tcp_source_port_def tcp_destination_port_def tcp_unchecked_def get_u16_at)
  show "tcp_set_source_port v (tcp_unchecked s d b) = Ok (tcp_unchecked s d (put_u16 0 v b))"
    "tcp_set_destination_port v (tcp_unchecked s d b) = Ok (tcp_unchecked s d (put_u16 2 v b))"
    using l by (simp_all add: tcp_set_source_port_def tcp_set_destination_port_def tcp_write_def tcp_unchecked_def set_u16_put)
  show "\<exists>c. tcp_update_checksum keep (tcp_unchecked s d b) = Ok (tcp_unchecked s d (put_u16 16 c b)) \<and>
      (length b < checksum_max \<longrightarrow> tcp_is_valid keep (tcp_unchecked s d (put_u16 16 c b)) = Ok True)"
    using l tcp_update_checksum_eq [of "tcp_unchecked s d b" keep] tcp_sum.update_verifies [of b keep s d]
    by (auto simp: tcp_unchecked_def tcp_is_valid_def tcp_checksum_def get_u16_put_same tcp_cal_checksum_def)
qed (simp_all add: tcp_unchecked_def)

interpretation nat_udp: nat_transport udp_new udp_source_port udp_destination_port udp_set_source_port
  udp_set_destination_port udp_update_checksum udp_buffer udp_acc udp_unchecked 6 udp_is_valid
proof
  fix b :: bytes and s d :: ipv4_addr and v :: u16 and keep :: bool
  show "udp_new s d b = (if udp_acc b then Ok (udp_unchecked s d b) else Err (IoError InvalidData))"
    by (simp add: udp_new_def udp_acc_def)
  assume a: "udp_acc b"
  then have l: "8 \<le> length b" by (simp add: udp_acc_def)
  show "6 + 2 \<le> length b" using l by simp
  show "udp_acc (put_u16 i v b)" if "i = 0 \<or> i = 2 \<or> i = 6" for i
    using that l by (auto simp: udp_acc_def)
  show "udp_source_port (udp_unchecked s d b) = Ok (u16_at b 0)"
    "udp_destination_port (udp_unchecked s d b) = Ok (u16_at b 2)"
    using l by (simp_all add: udp_source_port_def udp_destination_port_def udp_unchecked_def get_u16_at)
  show "udp_set_source_port v (udp_unchecked s d b) = Ok (udp_unchecked s d (put_u16 0 v b))"
    "udp_set_destination_port v (udp_unchecked s d b) = Ok (udp_unchecked s d (put_u16 2 v b))"
    using l by (simp_all add: udp_set_source_port_def udp_set_destination_port_def udp_write_def udp_unchecked_def set_u16_put)
  show "\<exists>c. udp_update_checksum keep (udp_unchecked s d b) = Ok (udp_unchecked s d (put_u16 6 c b)) \<and>
      (length b < checksum_max \<longrightarrow> udp_is_valid keep (udp_unchecked s d (put_u16 6 c b)) = Ok True)"
    using l udp_update_checksum_eq [of "udp_unchecked s d b" keep] udp_sum.update_verifies [of b keep s d]
    by (auto simp: udp_unchecked_def udp_is_valid_def udp_checksum_def get_u16_put_same udp_cal_checksum_def)
qed (simp_all add: udp_unchecked_def)

section \<open>There and back\<close>

definition transport_acc :: "ip_protocol \<Rightarrow> bytes \<Rightarrow> bool" where
  "transport_acc pr b \<longleftrightarrow> (if pr = IpTcp then tcp_acc b else pr = IpUdp \<and> udp_acc b)"

definition transport_valid :: "ip_protocol \<Rightarrow> bool \<Rightarrow> ipv4_addr \<Rightarrow> ipv4_addr \<Rightarrow> bytes \<Rightarrow> bool" where
  "transport_valid pr keep s d b \<longleftrightarrow>
     (if pr = IpTcp then tcp_is_valid keep (tcp_unchecked s d b) else udp_is_valid keep (udp_unchecked s d b)) = Ok True"

definition px_map :: "ip_protocol \<Rightarrow> ip_proxy \<Rightarrow> nat_map" where
  "px_map pr P = (if pr = IpTcp then px_tcp_map P else px_udp_map P)"

definition px_port :: "ip_protocol \<Rightarrow> ip_proxy \<Rightarrow> u16" where
  "px_port pr P = (if pr = IpTcp then px_tcp_port P else px_udp_port P)"

definition px_ck :: "ip_protocol \<Rightarrow> nat" where
  "px_ck pr = (if pr = IpTcp then 16 else 6)"

text \<open>An IP packet of a transport, with its payload taken apart.\<close>

definition ip_flow :: "ip_protocol \<Rightarrow> bytes \<Rightarrow> bytes \<Rightarrow> ipv4_addr \<Rightarrow> u16 \<Rightarrow> u16 \<Rightarrow> bool" where
  "ip_flow pr b pl dest sport dport \<longleftrightarrow> ipv4_fits b \<and> ipv4_protocol b = Ok pr \<and> ipv4_payload b = Ok pl \<and>
     transport_acc pr pl \<and> length pl < checksum_max \<and> ipv4_destination_ip b = Ok dest \<and>
     u16_at pl 0 = sport \<and> u16_at pl 2 = dport"

lemma proxy_forward:
  assumes "ip_flow pr b pl host sport hport"
  shows "\<exists>b' P' pl' c. proxy_recv_handle keep sent source destination (P, b) = (Ok False, P', b') \<and>
    px_map pr P' = (px_map pr P)((source, sport) \<mapsto> (host, hport)) \<and> ipv4_fits b' \<and> ipv4_is_valid keep b' = Ok True \<and>
    ipv4_source_ip b' = ipv4_source_ip b \<and> ipv4_destination_ip b' = Ok destination \<and> ipv4_payload b' = Ok pl' \<and>
    pl' = put_u16 (px_ck pr) c (put_u16 2 (px_port pr P) pl) \<and>
    u16_at pl' 0 = sport \<and> u16_at pl' 2 = px_port pr P \<and> transport_valid pr keep source destination pl'"
proof -
  have f: "ipv4_fits b" "ipv4_payload b = Ok pl" "ipv4_destination_ip b = Ok host" "ipv4_protocol b = Ok pr"
    "length pl < checksum_max" "u16_at pl 0 = sport" "u16_at pl 2 = hport"
    using assms by (simp_all add: ip_flow_def)
  consider (tcp) "pr = IpTcp" "tcp_acc pl" | (udp) "pr = IpUdp" "udp_acc pl"
    using assms by (auto simp: ip_flow_def transport_acc_def split: if_splits)
  then show ?thesis
  proof cases
    case tcp
    have l: "20 \<le> length pl" using tcp(2) by (simp add: tcp_acc_def)
    from nat_tcp.forward [OF f(1,2) tcp(2) f(3), of keep "px_tcp_port P" source destination "px_tcp_map P"]
    obtain b' c where "tcp_recv_handle keep (px_tcp_port P) source destination b (px_tcp_map P) =
        Ok (b', (px_tcp_map P)((source, sport) \<mapsto> (host, hport)))"
      "ipv4_fits b'" "ipv4_is_valid keep b' = Ok True" "ipv4_source_ip b' = ipv4_source_ip b"
      "ipv4_destination_ip b' = Ok destination" "ipv4_payload b' = Ok (put_u16 16 c (put_u16 2 (px_tcp_port P) pl))"
      "tcp_is_valid keep (tcp_unchecked source destination (put_u16 16 c (put_u16 2 (px_tcp_port P) pl))) = Ok True"
      using f by (auto simp: tcp_recv_handle_def)
    then show ?thesis
      using f tcp l by (intro exI) (auto simp: proxy_recv_handle_def px_map_def px_port_def px_ck_def transport_valid_def
          u16_at_put_other)
  next
    case udp
    have l: "8 \<le> length pl" using udp(2) by (simp add: udp_acc_def)
    from nat_udp.forward [OF f(1,2) udp(2) f(3), of keep "px_udp_port P" source destination "px_udp_map P"]
    obtain b' c where "udp_recv_handle keep (px_udp_port P) source destination b (px_udp_map P) =
        Ok (b', (px_udp_map P)((source, sport) \<mapsto> (host, hport)))"
      "ipv4_fits b'" "ipv4_is_valid keep b' = Ok True" "ipv4_source_ip b' = ipv4_source_ip b"
      "ipv4_destination_ip b' = Ok destination" "ipv4_payload b' = Ok (put_u16 6 c (put_u16 2 (px_udp_port P) pl))"
      "udp_is_valid keep (udp_unchecked source destination (put_u16 6 c (put_u16 2 (px_udp_port P) pl))) = Ok True"
      using f by (auto simp: udp_recv_handle_def)
    then show ?thesis
      using f udp l by (intro exI) (auto simp: proxy_recv_handle_def px_map_def px_port_def px_ck_def transport_valid_def
          u16_at_put_other)
  qed
qed

lemma proxy_backward:
  assumes "ip_flow pr b pl peer sport dport" and "px_map pr P (peer, dport) = Some (host, hport)"
  shows "\<exists>b' pl' c. proxy_send_handle keep P b = Ok b' \<and> ipv4_fits b' \<and> ipv4_is_valid keep b' = Ok True \<and>
    ipv4_source_ip b' = Ok host \<and> ipv4_destination_ip b' = Ok peer \<and> ipv4_payload b' = Ok pl' \<and>
    pl' = put_u16 (px_ck pr) c (put_u16 0 hport pl) \<and>
    u16_at pl' 0 = hport \<and> u16_at pl' 2 = dport \<and> transport_valid pr keep host peer pl'"
proof -
  have f: "ipv4_fits b" "ipv4_payload b = Ok pl" "ipv4_destination_ip b = Ok peer" "ipv4_protocol b = Ok pr"
    "length pl < checksum_max" "u16_at pl 2 = dport"
    using assms by (simp_all add: ip_flow_def)
  consider (tcp) "pr = IpTcp" "tcp_acc pl" | (udp) "pr = IpUdp" "udp_acc pl"
    using assms by (auto simp: ip_flow_def transport_acc_def split: if_splits)
  then show ?thesis
  proof cases
    case tcp
    have l: "20 \<le> length pl" and m: "px_tcp_map P (peer, u16_at pl 2) = Some (host, hport)"
      using tcp assms(2) f by (simp_all add: tcp_acc_def px_map_def)
    from nat_tcp.backward(2) [where m = "px_tcp_map P", OF f(1,2) tcp(2) f(3) m, of keep]
    show ?thesis using f tcp(1) l
      by (fastforce simp: proxy_send_handle_def tcp_send_handle_def transport_valid_def px_ck_def u16_at_put_other)
  next
    case udp
    have l: "8 \<le> length pl" and m: "px_udp_map P (peer, u16_at pl 2) = Some (host, hport)"
      using udp assms(2) f by (simp_all add: udp_acc_def px_map_def)
    from nat_udp.backward(2) [where m = "px_udp_map P", OF f(1,2) udp(2) f(3) m, of keep]
    show ?thesis using f udp(1) l
      by (fastforce simp: proxy_send_handle_def udp_send_handle_def transport_valid_def px_ck_def u16_at_put_other)
  qed
qed

text \<open>C34: A TCP or UDP packet from the peer \<open>source\<close> to \<open>host\<close> is handed to this machine's own
  proxy port with valid IP and transport checksums and nothing else changed, and from then on every packet
  of that protocol addressed to (source, source port) leaves with the host's address and port as its
  source, again with valid checksums and its data unchanged.
\<close>

theorem proxy_roundtrip:
  assumes "ip_flow pr b pl host sport hport"
  shows "\<exists>b' P' pl' c. proxy_recv_handle keep sent source destination (P, b) = (Ok False, P', b') \<and>
    ipv4_fits b' \<and> ipv4_is_valid keep b' = Ok True \<and>
    ipv4_source_ip b' = ipv4_source_ip b \<and> ipv4_destination_ip b' = Ok destination \<and> ipv4_payload b' = Ok pl' \<and>
    pl' = put_u16 (px_ck pr) c (put_u16 2 (px_port pr P) pl) \<and> transport_valid pr keep source destination pl' \<and>
    (\<forall>q rl rport. ip_flow pr q rl source rport sport \<longrightarrow>
      (\<exists>q' rl' d. proxy_send_handle keep P' q = Ok q' \<and> ipv4_fits q' \<and> ipv4_is_valid keep q' = Ok True \<and>
        ipv4_source_ip q' = Ok host \<and> ipv4_destination_ip q' = Ok source \<and> ipv4_payload q' = Ok rl' \<and>
        rl' = put_u16 (px_ck pr) d (put_u16 0 hport rl) \<and> u16_at rl' 0 = hport \<and> u16_at rl' 2 = sport \<and>
        transport_valid pr keep host source rl'))"
proof -
  obtain b' P' pl' c where
    f: "proxy_recv_handle keep sent source destination (P, b) = (Ok False, P', b')"
      "px_map pr P' = (px_map pr P)((source, sport) \<mapsto> (host, hport))" "ipv4_fits b'" "ipv4_is_valid keep b' = Ok True"
      "ipv4_source_ip b' = ipv4_source_ip b" "ipv4_destination_ip b' = Ok destination" "ipv4_payload b' = Ok pl'"
      "pl' = put_u16 (px_ck pr) c (put_u16 2 (px_port pr P) pl)" "transport_valid pr keep source destination pl'"
    using proxy_forward [OF assms, of keep sent source destination P] by auto
  have "px_map pr P' (source, sport) = Some (host, hport)" using f(2) by simp
  note reply = proxy_backward [OF _ this, where keep = keep]
  show ?thesis using f reply by blast
qed

text \<open>A UDP packet with 2 bytes of data, from 10.26.0.9:1000 to 192.168.1.7:53.\<close>

definition udp_sample :: bytes where
  "udp_sample = [0x45, 0, 0, 30, 0, 0, 0, 0, 64, 17, 0, 0, 10, 26, 0, 9, 192, 168, 1, 7,
     3, 232, 0, 53, 0, 10, 0, 0, 1, 2]"

text \<open>One from the same port to 192.168.1.8:80, and what the proxy port 6000 answers.\<close>

definition udp_sample2 :: bytes where
  "udp_sample2 = [0x45, 0, 0, 29, 0, 0, 0, 0, 64, 17, 0, 0, 10, 26, 0, 9, 192, 168, 1, 8,
     3, 232, 0, 80, 0, 9, 0, 0, 7]"

definition udp_answer :: bytes where
  "udp_answer = [0x45, 0, 0, 29, 0, 0, 0, 0, 64, 17, 0, 0, 10, 26, 0, 1, 10, 26, 0, 9,
     23, 112, 3, 232, 0, 9, 0, 0, 5]"

lemma udp_sample_flow: "ip_flow IpUdp udp_sample (drop 20 udp_sample) 0xC0A80107 1000 53"
  by (simp add: ip_flow_def udp_sample_def) code_simp

lemma udp_sample2_flow: "ip_flow IpUdp udp_sample2 (drop 20 udp_sample2) 0xC0A80108 1000 80"
  by (simp add: ip_flow_def udp_sample2_def) code_simp

lemma udp_answer_flow: "ip_flow IpUdp udp_answer (drop 20 udp_answer) 0x0A1A0009 6000 1000"
  by (simp add: ip_flow_def udp_answer_def) code_simp

definition sample_proxy :: ip_proxy where
  "sample_proxy = \<lparr>px_tcp_port = 5000, px_tcp_map = Map.empty, px_udp_port = 6000, px_udp_map = Map.empty,
     px_icmp_map = Map.empty, px_icmp_out = []\<rparr>"

lemma proxy_roundtrip_witness:
  "\<exists>b' P' pl' c. proxy_recv_handle True (\<lambda>_ _. Ok ()) 0x0A1A0009 0x0A1A0001
      (sample_proxy, udp_sample) = (Ok False, P', b') \<and>
    ipv4_payload b' = Ok pl' \<and> pl' = put_u16 6 c (put_u16 2 6000 (drop 20 udp_sample))"
  using proxy_roundtrip [OF udp_sample_flow, of True "\<lambda>_ _. Ok ()" "0x0A1A0009" "0x0A1A0001"
      sample_proxy]
  by (fastforce simp: px_ck_def px_port_def sample_proxy_def)

text \<open>The noted host is found by the packet's source alone: when a peer contacts two
  hosts from one local port, what the first of them answers reaches the peer as a packet of the second.
\<close>

theorem proxy_last_host_wins:
  assumes "ip_flow pr b1 pl1 host1 sport hport1" and "ip_flow pr b2 pl2 host2 sport hport2"
    and "ip_flow pr q rl source rport sport"
    and "proxy_recv_handle keep sent source destination (P, b1) = (r1, P1, c1)"
    and "proxy_recv_handle keep sent source destination (P1, b2) = (r2, P2, c2)"
  shows "\<exists>q' rl'. proxy_send_handle keep P2 q = Ok q' \<and> ipv4_source_ip q' = Ok host2 \<and>
    ipv4_payload q' = Ok rl' \<and> u16_at rl' 0 = hport2"
proof -
  have "px_map pr P2 (source, sport) = Some (host2, hport2)"
    using proxy_forward [OF assms(2), of keep sent source destination P1] assms(5) by auto
  from proxy_backward [OF assms(3) this, of keep] show ?thesis by auto
qed

lemma proxy_last_host_wins_witness:
  "\<exists>r1 P1 c1 r2 P2 c2 q' rl'.
    proxy_recv_handle True (\<lambda>_ _. Ok ()) 0x0A1A0009 0x0A1A0001 (sample_proxy, udp_sample) = (r1, P1, c1) \<and>
    proxy_recv_handle True (\<lambda>_ _. Ok ()) 0x0A1A0009 0x0A1A0001 (P1, udp_sample2) = (r2, P2, c2) \<and>
    proxy_send_handle True P2 udp_answer = Ok q' \<and> ipv4_source_ip q' = Ok 0xC0A80108 \<and>
    ipv4_payload q' = Ok rl' \<and> u16_at rl' 0 = 80"
proof -
  obtain r1 P1 c1 where 1: "proxy_recv_handle True (\<lambda>_ _. Ok ()) 0x0A1A0009 0x0A1A0001 (sample_proxy, udp_sample) =
      (r1, P1, c1)" by (rule prod_cases3)
  obtain r2 P2 c2 where 2: "proxy_recv_handle True (\<lambda>_ _. Ok ()) 0x0A1A0009 0x0A1A0001 (P1, udp_sample2) =
      (r2, P2, c2)" by (rule prod_cases3)
  from proxy_last_host_wins [OF udp_sample_flow udp_sample2_flow udp_answer_flow 1 2] 1 2 show ?thesis by blast
qed

end
