(* ===== verification/Dns_Query.thy ===== *)
theory Dns_Query
  imports Channel_Types Ascii_Text
begin

text \<open>
  \<open>vnt/src/util/dns_query.rs\<close>: finding the addresses of the server from its configured name, and choosing
  one of them. Names are ASCII strings. What the operating system, the name servers and the web servers
  answer is the environment \<open>dns_env\<close>: \<open>de_addr\<close> is \<open>SocketAddr::from_str\<close>, \<open>de_lookup\<close> the system resolver
  (\<open>to_socket_addrs\<close>), \<open>de_http\<close> one request with its body, \<open>de_open\<close> binding a socket and connecting it to
  a name server and \<open>de_attempt\<close> the outcome of one datagram sent to it. Error texts are not kept apart.
\<close>

section \<open>Environment\<close>

datatype http_answer =
    HttpBadUri | HttpFailed | HttpRedirect "string option" | HttpSuccess string | HttpOther

datatype dns_type = TypeTxt | TypeA | TypeAaaa

datatype dns_data = DataTxt "string option list" | DataA ipv4_addr | DataAaaa "128 word" | DataOther

record dns_message =
  dg_no_error :: bool
  dg_answers :: "dns_data list"

datatype dns_attempt = SendFailed | RecvTimedOut | RecvFailed | Received "dns_message option"

record dns_env =
  de_addr :: "string \<Rightarrow> socket_addr option"
  de_lookup :: "string \<Rightarrow> socket_addr list option"
  de_http :: "string \<Rightarrow> http_answer"
  de_open :: "socket_addr \<Rightarrow> bool"
  de_attempt :: "socket_addr \<Rightarrow> string \<Rightarrow> dns_type \<Rightarrow> nat \<Rightarrow> dns_attempt"

section \<open>Strings\<close>

definition strip_prefix :: "string \<Rightarrow> string \<Rightarrow> string option" where
  "strip_prefix p s = (if take (length p) s = p then Some (drop (length p) s) else None)"

definition is_numeric :: "char \<Rightarrow> bool" where
  "is_numeric c \<longleftrightarrow> digit_value c \<noteq> None"

fun find_char :: "char \<Rightarrow> string \<Rightarrow> nat option" where
  "find_char c [] = None"
| "find_char c (x # xs) = (if x = c then Some 0 else map_option Suc (find_char c xs))"

definition rfind_char :: "char \<Rightarrow> string \<Rightarrow> nat option" where
  "rfind_char c s = map_option (\<lambda>i. length s - Suc i) (find_char c (rev s))"

function trim_start_matches :: "string \<Rightarrow> string \<Rightarrow> string" where
  "trim_start_matches p s =
     (if p = [] then s else case strip_prefix p s of Some t \<Rightarrow> trim_start_matches p t | None \<Rightarrow> s)"
  by auto
termination
proof (relation "measure (\<lambda>(_, s). length s)")
  fix p s t :: string assume p: "p \<noteq> []" and t: "strip_prefix p s = Some t"
  then have "take (length p) s = p" "t = drop (length p) s" by (auto simp: strip_prefix_def split: if_splits)
  moreover from this(1) have "length p \<le> length s" by (metis length_take min.cobounded1)
  ultimately show "((p, t), (p, s)) \<in> measure (\<lambda>(_, s). length s)" using p by (cases p) auto
qed simp

declare trim_start_matches.simps [simp del]

definition trim_end_slashes :: "string \<Rightarrow> string" where
  "trim_end_slashes s = rev (dropWhile (\<lambda>c. c = CHR ''/'') (rev s))"

definition remove_http_prefix :: "string \<Rightarrow> string" where
  "remove_http_prefix url =
     trim_end_slashes (trim_start_matches ''https://'' (trim_start_matches ''http://'' url))"

definition parse_host_port :: "string \<Rightarrow> bool" where
  "parse_host_port addr =
     (if take 1 addr = ''['' then
        (case rfind_char CHR '']'' addr of
           Some idx \<Rightarrow> (case find_char CHR '':'' (drop (idx + 1) addr) of
               Some port_idx \<Rightarrow> let port = drop (idx + 1 + port_idx + 1) addr in port \<noteq> [] \<and> list_all is_numeric port
             | None \<Rightarrow> False)
         | None \<Rightarrow> False)
      else (case rfind_char CHR '':'' addr of
          Some i \<Rightarrow> let port = drop (i + 1) addr in port \<noteq> [] \<and> list_all is_numeric port
        | None \<Rightarrow> False))"

section \<open>Redirections\<close>

text \<open>At most three requests; the result is the last address seen.\<close>

fun follow_redirects :: "dns_env \<Rightarrow> nat \<Rightarrow> string \<Rightarrow> string option \<Rightarrow> string option" where
  "follow_redirects D 0 url last_url = last_url"
| "follow_redirects D (Suc k) url last_url = (case de_http D url of
       HttpBadUri \<Rightarrow> last_url
     | HttpFailed \<Rightarrow> last_url
     | HttpRedirect (Some location) \<Rightarrow>
         let url = trim_end_slashes location in follow_redirects D k url (Some url)
     | HttpRedirect None \<Rightarrow> last_url
     | HttpSuccess body \<Rightarrow>
         (case find parse_host_port (map str_trim (split_on (CHR 0x0A) body)) of
            Some line \<Rightarrow> Some line | None \<Rightarrow> last_url)
     | HttpOther \<Rightarrow> last_url)"

definition check_for_redirect :: "dns_env \<Rightarrow> string \<Rightarrow> string option" where
  "check_for_redirect D domain =
     follow_redirects D 3 (if strip_prefix ''http://'' domain \<noteq> None \<or> strip_prefix ''https://'' domain \<noteq> None
       then domain else ''http://'' @ domain) None"

section \<open>One name server\<close>

text \<open>\<open>query\<close>: a datagram is sent again after a timeout, three times in all.\<close>

fun dns_attempts :: "(nat \<Rightarrow> dns_attempt) \<Rightarrow> nat \<Rightarrow> nat \<Rightarrow> dns_message option outcome" where
  "dns_attempts f count 0 = Err (AnyError ''recv error'')"
| "dns_attempts f count (Suc k) = (case f count of
       SendFailed \<Rightarrow> Err (AnyError ''send error'')
     | RecvTimedOut \<Rightarrow> dns_attempts f (count + 1) k
     | RecvFailed \<Rightarrow> Err (AnyError ''recv error'')
     | Received m \<Rightarrow> Ok m)"

definition dns_query :: "dns_env \<Rightarrow> string \<Rightarrow> string \<Rightarrow> dns_type \<Rightarrow> dns_data list outcome" where
  "dns_query D domain name_server ty = (case de_addr D name_server of
       None \<Rightarrow> Err (AnyError ''name server'')
     | Some server \<Rightarrow>
         if \<not> de_open D server then Err (AnyError ''bind or connect'')
         else obind (dns_attempts (de_attempt D server domain ty) 0 3) (\<lambda>m. case m of
             None \<Rightarrow> Err (AnyError ''data error'')
           | Some msg \<Rightarrow> if \<not> dg_no_error msg \<or> dg_answers msg = [] then Err (AnyError ''no records'')
               else Ok (dg_answers msg)))"

fun txt_addresses :: "dns_env \<Rightarrow> string option list \<Rightarrow> socket_addr list outcome" where
  "txt_addresses D [] = Ok []"
| "txt_addresses D (t # ts) = (case t of
       None \<Rightarrow> Err (AnyError ''record type txt is not string'')
     | Some s \<Rightarrow> (case de_addr D s of
           None \<Rightarrow> Err (AnyError ''record type txt is not SocketAddr'')
         | Some a \<Rightarrow> omap (Cons a) (txt_addresses D ts)))"

definition txt_dns :: "dns_env \<Rightarrow> string \<Rightarrow> string \<Rightarrow> socket_addr list outcome" where
  "txt_dns D domain name_server = obind (dns_query D domain name_server TypeTxt) (\<lambda>answers.
     txt_addresses D (concat (map (\<lambda>r. case r of DataTxt ts \<Rightarrow> ts | _ \<Rightarrow> []) answers)))"

definition a_dns :: "dns_env \<Rightarrow> string \<Rightarrow> string \<Rightarrow> ipv4_addr list outcome" where
  "a_dns D domain name_server = omap (\<lambda>answers. concat (map (\<lambda>r. case r of DataA a \<Rightarrow> [a] | _ \<Rightarrow> []) answers))
     (dns_query D domain name_server TypeA)"

definition aaaa_dns :: "dns_env \<Rightarrow> string \<Rightarrow> string \<Rightarrow> (128 word) list outcome" where
  "aaaa_dns D domain name_server = omap (\<lambda>answers. concat (map (\<lambda>r. case r of DataAaaa a \<Rightarrow> [a] | _ \<Rightarrow> []) answers))
     (dns_query D domain name_server TypeAaaa)"

section \<open>All name servers\<close>

text \<open>The loop over the name servers. Host and port are cut out of the configured \<open>domain\<close> at the last colon
  of \<open>current_domain\<close>, the name after redirection; a string index out of range panics.\<close>

fun dns_servers :: "dns_env \<Rightarrow> string \<Rightarrow> string \<Rightarrow> string option \<Rightarrow> string list \<Rightarrow> socket_addr list outcome" where
  "dns_servers D domain current_domain txt_domain [] = Err (AnyError ''DNS query failed'')"
| "dns_servers D domain current_domain txt_domain (s # ss) = (case txt_domain of
       Some name \<Rightarrow> (case txt_dns D name s of
           Ok addr \<Rightarrow> if addr \<noteq> [] then Ok addr else dns_servers D domain current_domain txt_domain ss
         | Err e \<Rightarrow> dns_servers D domain current_domain txt_domain ss
         | Panic \<Rightarrow> Panic)
     | None \<Rightarrow> (case rfind_char CHR '':'' current_domain of
           None \<Rightarrow> Err (AnyError ''not port'')
         | Some end_index \<Rightarrow>
             if length domain < end_index + 1 then Panic
             else (case parse_unsigned 65536 (drop (end_index + 1) domain) of
                 None \<Rightarrow> Err (AnyError ''not port'')
               | Some n \<Rightarrow>
                   let host = take end_index domain; port = of_nat n;
                       v4 = (case a_dns D host s of Ok rs \<Rightarrow> map (\<lambda>ip. SockV4 ip port) rs | _ \<Rightarrow> []);
                       addr = v4 @ (case aaaa_dns D host s of Ok rs \<Rightarrow> map (\<lambda>ip. SockV6 ip port 0 0) rs | _ \<Rightarrow> [])
                   in if addr = [] then dns_servers D domain current_domain txt_domain ss else Ok addr)))"

definition dns_query_all :: "dns_env \<Rightarrow> string \<Rightarrow> string list \<Rightarrow> socket_addr list outcome" where
  "dns_query_all D domain name_servers = (case de_addr D domain of
       Some addr \<Rightarrow> Ok [addr]
     | None \<Rightarrow>
         (let lower = map ascii_lower domain;
              redirect_domain = (case strip_prefix ''http:'' lower of
                  Some s \<Rightarrow> Some s | None \<Rightarrow> strip_prefix ''https:'' lower);
              final_domain = (case redirect_domain of
                  Some s \<Rightarrow> map_option remove_http_prefix (check_for_redirect D s) | None \<Rightarrow> None)
          in case Option.bind final_domain (de_addr D) of
              Some socket_addr \<Rightarrow> Ok [socket_addr]
            | None \<Rightarrow>
                let current_domain = (case final_domain of Some d \<Rightarrow> d | None \<Rightarrow> domain);
                    txt_domain = strip_prefix ''txt:'' (map ascii_lower current_domain)
                in if name_servers \<noteq> [] then dns_servers D domain current_domain txt_domain name_servers
                   else if txt_domain \<noteq> None
                   then dns_servers D domain current_domain txt_domain
                     [''223.5.5.5:53'', ''119.29.29.29:53'', ''114.114.114.114:53'']
                   else (case de_lookup D current_domain of
                       Some addrs \<Rightarrow> Ok addrs | None \<Rightarrow> Err (AnyError ''DNS query failed''))))"

section \<open>Choosing an address\<close>

text \<open>\<open>bind\<close> tells whether a socket of the family can be bound, \<open>connects\<close> whether \<open>connect\<close> to the address
  succeeds (for UDP, whether there is a route to it).\<close>

definition check_addr :: "(bool \<Rightarrow> bool) \<Rightarrow> (socket_addr \<Rightarrow> bool) \<Rightarrow> socket_addr list \<Rightarrow> socket_addr option" where
  "check_addr bind connects addrs = (case addrs of
       [] \<Rightarrow> None
     | a # _ \<Rightarrow> if bind (is_ipv4_addr a) then find connects addrs else None)"

definition address_choose0 :: "(bool \<Rightarrow> bool) \<Rightarrow> (socket_addr \<Rightarrow> bool) \<Rightarrow> socket_addr list \<Rightarrow> socket_addr option" where
  "address_choose0 bind connects addrs =
     (let v4 = filter is_ipv4_addr addrs; v6 = filter (\<lambda>a. \<not> is_ipv4_addr a) addrs
      in if v6 = [] then check_addr bind connects v4
         else if v4 = [] then check_addr bind connects v6
         else (case check_addr bind connects v6 of Some a \<Rightarrow> Some a | None \<Rightarrow> check_addr bind connects v4))"

text \<open>\<open>HISTORY\<close>, the uses of each address by the calling thread, is the state.\<close>

definition uses :: "(socket_addr \<Rightarrow> nat option) \<Rightarrow> socket_addr \<Rightarrow> nat" where
  "uses h x = (case h x of Some v \<Rightarrow> v | None \<Rightarrow> 0)"

definition address_choose :: "(bool \<Rightarrow> bool) \<Rightarrow> (socket_addr \<Rightarrow> bool) \<Rightarrow> socket_addr list \<Rightarrow> (socket_addr \<Rightarrow> nat option) \<Rightarrow>
    socket_addr option \<times> (socket_addr \<Rightarrow> nat option)" where
  "address_choose bind connects addrs history =
     (let available = filter (\<lambda>x. uses history x < 3) addrs;
          (available, history) = (if available = [] then (addrs, Map.empty) else (available, history))
      in case address_choose0 bind connects available of
           Some addr \<Rightarrow> (Some addr, history(addr \<mapsto> uses history addr + 1))
         | None \<Rightarrow> (None, history))"

section \<open>Fairness of the choice\<close>

lemma uses_simps [simp]: "uses (h(a \<mapsto> n)) x = (if x = a then n else uses h x)" "uses Map.empty x = 0"
  by (simp_all add: uses_def)

text \<open>The history after \<open>k\<close> calls, and the uses that are left before the history is forgotten.\<close>

definition history_after :: "(bool \<Rightarrow> bool) \<Rightarrow> (socket_addr \<Rightarrow> bool) \<Rightarrow> socket_addr list \<Rightarrow> nat \<Rightarrow>
    (socket_addr \<Rightarrow> nat option) \<Rightarrow> (socket_addr \<Rightarrow> nat option)" where
  "history_after bind connects addrs k = ((\<lambda>h. snd (address_choose bind connects addrs h)) ^^ k)"

definition uses_left :: "socket_addr list \<Rightarrow> (socket_addr \<Rightarrow> nat option) \<Rightarrow> nat" where
  "uses_left addrs h = (\<Sum>a \<in> set addrs. 3 - uses h a)"

lemma history_after_0 [simp]: "history_after bind connects addrs 0 h = h"
  by (simp add: history_after_def)

lemma history_after_Suc:
  "history_after bind connects addrs (Suc k) h =
    history_after bind connects addrs k (snd (address_choose bind connects addrs h))"
  by (simp add: history_after_def funpow_Suc_right del: funpow.simps)

lemma uses_left_le: "uses_left addrs h \<le> 3 * length addrs"
proof -
  have "uses_left addrs h \<le> (\<Sum>a \<in> set addrs. 3)" unfolding uses_left_def by (rule sum_mono) simp
  also have "\<dots> = 3 * card (set addrs)" by simp
  finally show ?thesis using card_length [of addrs] by linarith
qed

lemma uses_left_pos: "a \<in> set addrs \<Longrightarrow> uses h a < 3 \<Longrightarrow> 0 < uses_left addrs h"
  unfolding uses_left_def by (subst sum_pos2 [where i = a]) auto

lemma uses_left_chosen:
  assumes "a \<in> set addrs" and "uses h a < 3"
  shows "Suc (uses_left addrs (h(a \<mapsto> uses h a + 1))) = uses_left addrs h"
proof -
  let ?h = "h(a \<mapsto> uses h a + 1)"
  have "uses_left addrs h = (3 - uses h a) + (\<Sum>x \<in> set addrs - {a}. 3 - uses h x)"
    unfolding uses_left_def using assms(1) by (simp add: sum.remove)
  moreover have "uses_left addrs ?h = (3 - uses ?h a) + (\<Sum>x \<in> set addrs - {a}. 3 - uses ?h x)"
    unfolding uses_left_def using assms(1) by (simp add: sum.remove)
  moreover have "(\<Sum>x \<in> set addrs - {a}. 3 - uses ?h x) = (\<Sum>x \<in> set addrs - {a}. 3 - uses h x)"
    by (rule sum.cong) auto
  ultimately show ?thesis using assms(2) by simp
qed

lemma check_addr_member: "check_addr bind connects addrs = Some a \<Longrightarrow> a \<in> set addrs \<and> connects a"
  by (auto simp: check_addr_def find_Some_iff split: list.splits if_splits)

lemma address_choose0_member: "address_choose0 bind connects addrs = Some a \<Longrightarrow> a \<in> set addrs \<and> connects a"
  by (auto simp: address_choose0_def Let_def dest!: check_addr_member split: if_splits option.splits)

lemma find_all: "xs \<noteq> [] \<Longrightarrow> (\<And>x. P x) \<Longrightarrow> find P xs \<noteq> None"
  by (cases xs) auto

lemma address_choose0_total:
  assumes "addrs \<noteq> []" and "\<forall>f. bind f" and "\<forall>x. connects x"
  shows "address_choose0 bind connects addrs \<noteq> None"
proof -
  have "check_addr bind connects xs \<noteq> None" if "xs \<noteq> []" for xs
    using that assms find_all [of xs connects] by (auto simp: check_addr_def split: list.splits)
  moreover have "filter is_ipv4_addr addrs \<noteq> [] \<or> filter (\<lambda>a. \<not> is_ipv4_addr a) addrs \<noteq> []"
    using assms(1) by (cases addrs) auto
  ultimately show ?thesis by (auto simp: address_choose0_def Let_def split: option.splits)
qed

text \<open>One call: while some address is available the history grows at an available one, else it starts anew.\<close>

lemma address_choose_cases:
  assumes "\<exists>x \<in> set addrs. uses h x < 3"
  shows "(\<exists>a \<in> set addrs. connects a \<and> uses h a < 3 \<and>
      address_choose bind connects addrs h = (Some a, h(a \<mapsto> uses h a + 1))) \<or>
    address_choose bind connects addrs h = (None, h)"
proof -
  have "filter (\<lambda>x. uses h x < 3) addrs \<noteq> []" using assms by (simp add: filter_empty_conv)
  then show ?thesis
    by (cases "address_choose0 bind connects (filter (\<lambda>x. uses h x < 3) addrs)")
      (auto simp: address_choose_def Let_def dest!: address_choose0_member)
qed

lemma address_choose_total:
  assumes "addrs \<noteq> []" and "\<forall>f. bind f" and "\<forall>x. connects x"
  shows "fst (address_choose bind connects addrs h) \<noteq> None"
proof -
  let ?av = "filter (\<lambda>x. uses h x < 3) addrs"
  have "address_choose0 bind connects (if ?av = [] then addrs else ?av) \<noteq> None"
    using assms by (intro address_choose0_total) auto
  then show ?thesis
    by (cases "?av = []")
      (simp_all only: address_choose_def Let_def if_True if_False prod.case, auto split: option.splits)
qed

lemma address_choose_anew:
  assumes "\<not> (\<exists>x \<in> set addrs. uses h x < 3)"
  shows "address_choose bind connects addrs h = address_choose bind connects addrs Map.empty"
proof -
  have "filter (\<lambda>x. uses h x < 3) addrs = []" using assms by (simp add: filter_empty_conv)
  moreover have "filter (\<lambda>x. uses Map.empty x < 3) addrs = addrs" by simp
  ultimately show ?thesis by (simp add: address_choose_def Let_def)
qed

lemma chosen_while_available:
  assumes "a \<in> set addrs" and "\<forall>f. bind f" and "\<forall>x. connects x" and "uses h a < 3"
  shows "\<exists>k < uses_left addrs h. fst (address_choose bind connects addrs (history_after bind connects addrs k h)) = Some a"
  using assms(4)
proof (induction "uses_left addrs h" arbitrary: h rule: less_induct)
  case less
  have "addrs \<noteq> []" using assms(1) by auto
  then obtain x where x: "x \<in> set addrs" "uses h x < 3"
    "address_choose bind connects addrs h = (Some x, h(x \<mapsto> uses h x + 1))"
    using address_choose_cases [of addrs h connects bind] address_choose_total [of addrs bind connects h] assms less.prems
    by fastforce
  show ?case
  proof (cases "x = a")
    case True
    then show ?thesis using x(3) uses_left_pos [OF assms(1) less.prems] by (intro exI [of _ 0]) simp
  next
    case False
    let ?h = "h(x \<mapsto> uses h x + 1)"
    have "uses_left addrs ?h < uses_left addrs h" using uses_left_chosen [OF x(1,2)] by simp
    moreover have "uses ?h a < 3" using False less.prems by simp
    ultimately obtain k where "k < uses_left addrs ?h"
      "fst (address_choose bind connects addrs (history_after bind connects addrs k ?h)) = Some a"
      using less.hyps by blast
    then show ?thesis
      using uses_left_chosen [OF x(1,2)] x(3) by (intro exI [of _ "Suc k"]) (simp add: history_after_Suc)
  qed
qed

lemma chosen_when_used_up:
  assumes "a \<in> set addrs" and "\<forall>f. bind f" and "\<forall>x. connects x" and "3 \<le> uses h a"
  shows "\<exists>k < uses_left addrs h + 3 * length addrs.
    fst (address_choose bind connects addrs (history_after bind connects addrs k h)) = Some a"
  using assms(4)
proof (induction "uses_left addrs h" arbitrary: h rule: less_induct)
  case less
  have ne: "addrs \<noteq> []" using assms(1) by auto
  show ?case
  proof (cases "\<exists>x \<in> set addrs. uses h x < 3")
    case False
    obtain k where k: "k < uses_left addrs Map.empty"
      "fst (address_choose bind connects addrs (history_after bind connects addrs k Map.empty)) = Some a"
      using chosen_while_available [OF assms(1-3), of Map.empty] by auto
    have "fst (address_choose bind connects addrs (history_after bind connects addrs k h)) = Some a"
      using k(2) address_choose_anew [OF False, of bind connects]
      by (cases k) (simp_all add: history_after_Suc)
    moreover have "k < uses_left addrs h + 3 * length addrs" using k(1) uses_left_le [of addrs Map.empty] by linarith
    ultimately show ?thesis by blast
  next
    case True
    then obtain x where x: "x \<in> set addrs" "uses h x < 3"
      "address_choose bind connects addrs h = (Some x, h(x \<mapsto> uses h x + 1))"
      using address_choose_cases [of addrs h connects bind] address_choose_total [of addrs bind connects h] assms ne
      by fastforce
    let ?h = "h(x \<mapsto> uses h x + 1)"
    have "uses_left addrs ?h < uses_left addrs h" using uses_left_chosen [OF x(1,2)] by simp
    moreover have "3 \<le> uses ?h a" using less.prems x(2) by auto
    ultimately obtain k where "k < uses_left addrs ?h + 3 * length addrs"
      "fst (address_choose bind connects addrs (history_after bind connects addrs k ?h)) = Some a"
      using less.hyps by blast
    then show ?thesis
      using uses_left_chosen [OF x(1,2)] x(3) by (intro exI [of _ "Suc k"]) (simp add: history_after_Suc)
  qed
qed

text \<open>C14: As long as every address can be connected to, the choice is fair: whatever was used
  before, each address is chosen within six calls per address.\<close>

theorem address_choose_fair:
  assumes "a \<in> set addrs" and "\<forall>f. bind f" and "\<forall>x. connects x"
  shows "\<exists>k < 6 * length addrs.
    fst (address_choose bind connects addrs (history_after bind connects addrs k h)) = Some a"
proof (cases "uses h a < 3")
  case True
  from chosen_while_available [where h = h, OF assms this] obtain k where "k < uses_left addrs h"
    "fst (address_choose bind connects addrs (history_after bind connects addrs k h)) = Some a" by blast
  then show ?thesis using uses_left_le [of addrs h] by (intro exI [of _ k]) linarith
next
  case False
  then have "3 \<le> uses h a" by simp
  from chosen_when_used_up [where h = h, OF assms this] obtain k where "k < uses_left addrs h + 3 * length addrs"
    "fst (address_choose bind connects addrs (history_after bind connects addrs k h)) = Some a" by blast
  then show ?thesis using uses_left_le [of addrs h] by (intro exI [of _ k]) linarith
qed

lemma address_choose_fair_witness:
  "\<exists>k < 12. fst (address_choose (\<lambda>_. True) (\<lambda>_. True) [SockV4 1 1, SockV6 1 1 0 0]
    (history_after (\<lambda>_. True) (\<lambda>_. True) [SockV4 1 1, SockV6 1 1 0 0] k Map.empty)) = Some (SockV4 1 1)"
  using address_choose_fair [of "SockV4 1 1" "[SockV4 1 1, SockV6 1 1 0 0]" "\<lambda>_. True" "\<lambda>_. True" Map.empty] by simp

text \<open>C15: One address that cannot be connected to ends the choice: it is never used, so the
  history is never forgotten, and once the other addresses are used up, three times each, every
  further call fails.\<close>

theorem address_choose_stuck:
  assumes "b \<in> set addrs" and "\<not> connects b" and "uses h b < 3"
  shows "\<exists>n \<le> 3 * length addrs. \<forall>k \<ge> n.
    fst (address_choose bind connects addrs (history_after bind connects addrs k h)) = None"
proof -
  have "\<exists>n \<le> uses_left addrs h. \<forall>k \<ge> n.
      fst (address_choose bind connects addrs (history_after bind connects addrs k h)) = None"
    using assms(3)
  proof (induction "uses_left addrs h" arbitrary: h rule: less_induct)
    case less
    consider x where "x \<in> set addrs" "connects x" "uses h x < 3"
        "address_choose bind connects addrs h = (Some x, h(x \<mapsto> uses h x + 1))"
      | "address_choose bind connects addrs h = (None, h)"
      using address_choose_cases [of addrs h connects bind] assms(1) less.prems by blast
    then show ?case
    proof cases
      case 1
      let ?h = "h(x \<mapsto> uses h x + 1)"
      have "x \<noteq> b" using 1(2) assms(2) by auto
      then have "uses ?h b < 3" using less.prems by simp
      moreover have "uses_left addrs ?h < uses_left addrs h" using uses_left_chosen [OF 1(1,3)] by simp
      ultimately obtain n where n: "n \<le> uses_left addrs ?h"
        "\<forall>k \<ge> n. fst (address_choose bind connects addrs (history_after bind connects addrs k ?h)) = None"
        using less.hyps by blast
      have "\<forall>k \<ge> Suc n. fst (address_choose bind connects addrs (history_after bind connects addrs k h)) = None"
      proof (intro allI impI)
        fix k assume "Suc n \<le> k"
        then obtain j where "k = Suc j" "n \<le> j" by (cases k) auto
        then show "fst (address_choose bind connects addrs (history_after bind connects addrs k h)) = None"
          using n(2) 1(4) by (simp add: history_after_Suc)
      qed
      moreover have "Suc n \<le> uses_left addrs h" using n(1) uses_left_chosen [OF 1(1,3)] by simp
      ultimately show ?thesis by blast
    next
      case 2
      have "history_after bind connects addrs k h = h" for k
        by (induction k) (simp_all add: history_after_Suc 2)
      then show ?thesis using 2 by (intro exI [of _ 0]) simp
    qed
  qed
  then show ?thesis using uses_left_le [of addrs h] by fastforce
qed

text \<open>A host without a route to IPv6 addresses, and a server with an address of either kind.\<close>

lemma address_choose_stuck_witness:
  "\<exists>n \<le> 6. \<forall>k \<ge> n. fst (address_choose (\<lambda>_. True) is_ipv4_addr [SockV4 1 1, SockV6 1 1 0 0]
    (history_after (\<lambda>_. True) is_ipv4_addr [SockV4 1 1, SockV6 1 1 0 0] k Map.empty)) = None"
  using address_choose_stuck [of "SockV6 1 1 0 0" "[SockV4 1 1, SockV6 1 1 0 0]" is_ipv4_addr Map.empty "\<lambda>_. True"]
  by (simp add: is_ipv4_addr_def)

section \<open>Redirection and name servers\<close>

lemma find_char_append: "c \<notin> set xs \<Longrightarrow> find_char c (xs @ c # ys) = Some (length xs)"
  by (induction xs) auto

lemma rfind_char_host: "c \<notin> set port \<Longrightarrow> rfind_char c (host @ c # port) = Some (length host)"
  by (simp add: rfind_char_def find_char_append)

text \<open>The part of a configured name that is looked up for a redirection.\<close>

definition redirect_source :: "string \<Rightarrow> string option" where
  "redirect_source domain = (case strip_prefix ''http:'' (map ascii_lower domain) of
     Some s \<Rightarrow> Some s | None \<Rightarrow> strip_prefix ''https:'' (map ascii_lower domain))"

text \<open>Name servers that answer as before for one name, and anything for the others.\<close>

definition same_answers :: "string \<Rightarrow> dns_env \<Rightarrow> dns_env \<Rightarrow> bool" where
  "same_answers name D D' \<longleftrightarrow> (\<exists>f. D' = D\<lparr>de_attempt := f\<rparr> \<and> (\<forall>server ty k. f server name ty k = de_attempt D server name ty k))"

lemma same_answers_query:
  assumes "same_answers name D D'"
  shows "a_dns D' name s = a_dns D name s \<and> aaaa_dns D' name s = aaaa_dns D name s"
proof -
  obtain f where f: "D' = D\<lparr>de_attempt := f\<rparr>" "\<And>server ty k. f server name ty k = de_attempt D server name ty k"
    using assms unfolding same_answers_def by blast
  have "f server name ty = de_attempt D server name ty" for server ty by (rule ext) (rule f(2))
  then have "dns_query D' name s ty = dns_query D name s ty" for ty by (simp add: dns_query_def f(1) split: option.split)
  then show ?thesis by (simp add: a_dns_def aaaa_dns_def)
qed

lemma follow_redirects_attempt: "follow_redirects (D\<lparr>de_attempt := f\<rparr>) k url seen = follow_redirects D k url seen"
  by (induction D k url seen rule: follow_redirects.induct) (auto split: http_answer.split option.split)

lemma same_answers_redirect: "same_answers name D D' \<Longrightarrow> check_for_redirect D' s = check_for_redirect D s"
  by (auto simp: same_answers_def check_for_redirect_def follow_redirects_attempt)

lemma dns_servers_cut:
  assumes "rfind_char CHR '':'' current = Some i"
  shows "length domain \<le> i \<Longrightarrow> servers \<noteq> [] \<Longrightarrow> dns_servers D domain current None servers = Panic"
    and "i < length domain \<Longrightarrow> dns_servers D domain current None servers \<noteq> Panic"
    and "same_answers (take i domain) D D' \<Longrightarrow>
      dns_servers D' domain current None servers = dns_servers D domain current None servers"
proof -
  show "length domain \<le> i \<Longrightarrow> servers \<noteq> [] \<Longrightarrow> dns_servers D domain current None servers = Panic"
    using assms by (cases servers) simp_all
  show "i < length domain \<Longrightarrow> dns_servers D domain current None servers \<noteq> Panic"
    using assms by (induction servers) (simp_all add: Let_def split: option.split)
  show "dns_servers D' domain current None servers = dns_servers D domain current None servers"
    if "same_answers (take i domain) D D'"
    using assms same_answers_query [OF that] by (induction servers) (simp_all add: Let_def split: option.split)
qed

text \<open>C16: With name servers configured, a redirection of an \<open>http:\<close> or \<open>https:\<close> name to a host and a port (neither
  a literal address nor a \<open>txt:\<close> name) never looks the new host up: host and port are cut out of the
  configured name at the place of the last colon of the new one. Exactly when the new host is at
  least as long as the whole configured name, the cut is out of range and the program aborts.
  Otherwise the lookup fails unless what follows the cut in the configured name happens to be a
  port, and the outcome is the same whatever the name servers answer for any other name than the
  beginning of the configured one, the new host included.\<close>

theorem dns_redirect_misread:
  assumes "de_addr D domain = None" and "redirect_source domain = Some name"
    and "check_for_redirect D name = Some url" and "remove_http_prefix url = host @ CHR '':'' # port"
    and "CHR '':'' \<notin> set port" and "de_addr D (host @ CHR '':'' # port) = None"
    and "strip_prefix ''txt:'' (map ascii_lower (host @ CHR '':'' # port)) = None" and "servers \<noteq> []"
  shows "(dns_query_all D domain servers = Panic \<longleftrightarrow> length domain \<le> length host) \<and>
    (length host < length domain \<and> parse_unsigned 65536 (drop (length host + 1) domain) = None \<longrightarrow>
       dns_query_all D domain servers = Err (AnyError ''not port'')) \<and>
    (\<forall>D'. same_answers (take (length host) domain) D D' \<longrightarrow> dns_query_all D' domain servers = dns_query_all D domain servers)"
proof -
  let ?new = "host @ CHR '':'' # port"
  note cut = rfind_char_host [OF assms(5), of host]
  have all: "dns_query_all E domain servers = dns_servers E domain ?new None servers"
    if "de_addr E = de_addr D" "check_for_redirect E name = check_for_redirect D name" for E
    using assms that unfolding dns_query_all_def redirect_source_def by (simp add: Let_def)
  have "dns_query_all D' domain servers = dns_query_all D domain servers"
    if same: "same_answers (take (length host) domain) D D'" for D'
  proof -
    have "de_addr D' = de_addr D" using same by (auto simp: same_answers_def)
    then show ?thesis using all [of D'] all [of D] same_answers_redirect [OF same] dns_servers_cut(3) [OF cut same] by simp
  qed
  moreover have "dns_query_all D domain servers = Err (AnyError ''not port'')"
    if "length host < length domain" "parse_unsigned 65536 (drop (length host + 1) domain) = None"
    using all [of D] that cut assms(8) by (cases servers) simp_all
  moreover have "dns_query_all D domain servers = Panic \<longleftrightarrow> length domain \<le> length host"
    using all [of D] dns_servers_cut(1,2) [OF cut, where domain = domain and servers = servers and D = D] assms(8)
    by (cases "length domain \<le> length host") simp_all
  ultimately show ?thesis by blast
qed

text \<open>The web server at \<open>a.b\<close> sends the node on to \<open>vnt.example.org:29872\<close>, the one at \<open>vnt.example.org\<close> to \<open>a.b:1\<close>.\<close>

definition redirecting :: dns_env where
  "redirecting = \<lparr>de_addr = \<lambda>_. None, de_lookup = \<lambda>_. None,
     de_http = \<lambda>url. if url = ''http://a.b'' then HttpRedirect (Some ''http://vnt.example.org:29872/'')
       else if url = ''http://vnt.example.org'' then HttpRedirect (Some ''http://a.b:1/'') else HttpFailed,
     de_open = \<lambda>_. True, de_attempt = \<lambda>_ _ _ _. RecvFailed\<rparr>"

lemma dns_redirect_misread_witness:
  "dns_query_all redirecting ''http:a.b'' [''9.9.9.9:53''] = Panic \<and>
   dns_query_all redirecting ''https:vnt.example.org'' [''9.9.9.9:53''] = Err (AnyError ''not port'')"
proof -
  have "check_for_redirect redirecting ''a.b'' = Some ''http://vnt.example.org:29872''"
      "check_for_redirect redirecting ''vnt.example.org'' = Some ''http://a.b:1''"
    by (simp_all add: check_for_redirect_def redirecting_def strip_prefix_def numeral_3_eq_3 trim_end_slashes_def Let_def)
  moreover have "remove_http_prefix ''http://vnt.example.org:29872'' = ''vnt.example.org'' @ CHR '':'' # ''29872''"
      "remove_http_prefix ''http://a.b:1'' = ''a.b'' @ CHR '':'' # ''1''"
    by (simp_all add: remove_http_prefix_def trim_start_matches.simps strip_prefix_def trim_end_slashes_def)
  moreover have "parse_unsigned 65536 (drop 4 ''https:vnt.example.org'') = None"
    by (simp add: parse_unsigned_def parse_nat_def digit_value_def)
  moreover have "redirect_source ''http:a.b'' = Some ''a.b''"
      "redirect_source ''https:vnt.example.org'' = Some ''vnt.example.org''"
    by (simp_all add: redirect_source_def strip_prefix_def ascii_lower_def)
  moreover have "de_addr redirecting = (\<lambda>_. None)" by (simp add: redirecting_def)
  ultimately show ?thesis
    using dns_redirect_misread [of redirecting "''http:a.b''" "''a.b''" _ "''vnt.example.org''" "''29872''" "[''9.9.9.9:53'']"]
      dns_redirect_misread [of redirecting "''https:vnt.example.org''" "''vnt.example.org''" _ "''a.b''" "''1''" "[''9.9.9.9:53'']"]
    by (simp add: strip_prefix_def ascii_lower_def)
qed

end
