(* ===== verification/Node.thy ===== *)
theory Node
  imports Channel_Context External_Route Compression Registration Stun Ip_Proxy Dns_Query
begin

text \<open>
  A running node: the state that the receive handlers (\<open>vnt/src/handle/recv_data/\<close>), the senders
  (\<open>vnt/src/channel/sender.rs\<close>, \<open>vnt/src/handle/tun_tap/\<close>) and the punching tasks share, its
  configuration, and the environment that answers its calls. The atomics, mutexes and shared maps of
  the code are fields of the record \<open>node\<close>; one handler runs at a time.

  \<open>node_env\<close> holds what is not part of the repository (the cipher, compression, RSA and message crates)
  and what differs from call to call: randomness, clocks and the answers of the host, each a function
  of \<open>nd_step\<close>, the number of such questions asked so far. \<open>nd_out\<close> records what reaches the host.
\<close>

section \<open>Configuration, environment, state\<close>

text \<open>\<open>BaseConfigInfo\<close>, without the network interface and the fields of Windows.\<close>

record base_config_info =
  bi_name :: string
  bi_token :: string
  bi_ip :: "ipv4_addr option"
  bi_client_secret_hash :: "bytes option"
  bi_server_secret :: bool
  bi_device_id :: string
  bi_server_addr :: string
  bi_name_servers :: "string list"
  bi_mtu :: u32
  bi_device_name :: "string option"
  bi_allow_wire_guard :: bool
  bi_hook :: "string option"

text \<open>What the threads of a node are started with.\<close>

record node_config =
  nc_base :: base_config_info
  nc_client_cipher :: cipher
  nc_server_cipher :: cipher
  nc_compressor :: compressor
  nc_ip_route :: "ext_entry list"
  nc_allow_route :: "(u32 \<times> u32) list"
  nc_disable_relay :: bool

record node_env =
  ev_net :: net_env
  ev_crypto :: crypto
  ev_codecs :: codecs
  ev_rsa :: rsa_crate
  ev_proto :: proto
  ev_keep :: bool
  ev_stun_resolve :: "string \<Rightarrow> socket_addr list outcome"
  ev_stun_parse :: "bytes \<Rightarrow> stun_message"
  ev_random :: "nat \<Rightarrow> randomness"
  ev_rsa_random :: "nat \<Rightarrow> bytes \<times> bytes"
  ev_lost :: "nat \<Rightarrow> bool"
  ev_now :: "nat \<Rightarrow> nanos"
  ev_unix :: "nat \<Rightarrow> (u64 \<times> u32) option"
  ev_device :: "nat \<Rightarrow> bytes \<Rightarrow> unit outcome"
  ev_icmp_sent :: "ipv4_addr \<Rightarrow> bytes \<Rightarrow> unit outcome"
  ev_handshake :: "handshake_info \<Rightarrow> bool"
  ev_register :: "register_info \<Rightarrow> bool"
  ev_create_device :: "nat \<Rightarrow> device_config \<Rightarrow> string + error_info"
  ev_tun_start :: "nat \<Rightarrow> unit outcome"
  ev_punch_queue :: "nat \<Rightarrow> bool"
  ev_pick :: "nat \<Rightarrow> nat \<Rightarrow> nat"
  ev_perm :: "nat \<Rightarrow> nat \<Rightarrow> nat list"
  ev_order :: "nat \<Rightarrow> route_table \<Rightarrow> ipv4_addr list"
  ev_dns :: "nat \<Rightarrow> dns_env"
  ev_bind :: "nat \<Rightarrow> bool \<Rightarrow> bool"
  ev_connects :: "nat \<Rightarrow> socket_addr \<Rightarrow> bool"
  ev_rebind :: "string option"
  ev_udp_reset :: "nat \<Rightarrow> (u16 \<times> u16 option list) outcome \<times> unit outcome"
  ev_switch :: "nat \<Rightarrow> u16 option list outcome \<times> unit outcome"
  ev_stun_test :: "nat \<Rightarrow> unit outcome \<times> stun_answers list"
  ev_stun_request :: "nat \<Rightarrow> bytes"
  ev_local_ipv4 :: "nat \<Rightarrow> ipv4_addr option"
  ev_local_ipv6 :: "nat \<Rightarrow> 128 word option"

text \<open>What the tasks that open connections are asked for, by \<open>ConnectUtil\<close>.\<close>

datatype connect_request =
    ConnectTcp bytes "u16 option" socket_addr "hook_info option"
  | ConnectWs bytes string "hook_info option"

record node =
  nd_ctx :: channel_context
  nd_current :: current_device_info
  nd_rsa :: "rsa_cipher option"
  nd_up_key_time :: nanos
  nd_handshake_time :: nanos
  nd_epoch :: u16
  nd_devices :: "(ipv4_addr \<times> peer_device_info) list"
  nd_peer_nat :: "ipv4_addr \<Rightarrow> nat_info option"
  nd_nat :: nat_test
  nd_proxy :: "ip_proxy option"
  nd_extend :: bytes
  nd_punch :: "(bool \<times> ipv4_addr \<times> nat_info) list"
  nd_connects :: "connect_request list"
  nd_history :: "socket_addr \<Rightarrow> nat option"
  nd_out :: "host_event list"
  nd_step :: nat

type_synonym 'a node_action = "(node, 'a) action"

section \<open>Actions\<close>

lemma sbind_sret [simp]: "sbind (sret x) f s = f x s"
  by (simp add: sbind_def)

text \<open>Asking the environment; running an action of the channel context; telling the host.\<close>

definition draw :: "(nat \<Rightarrow> 'a) \<Rightarrow> 'a node_action" where
  "draw f n = (Ok (f (nd_step n)), n\<lparr>nd_step := Suc (nd_step n)\<rparr>)"

definition on_ctx :: "'a cc_action \<Rightarrow> 'a node_action" where
  "on_ctx m n = (case m (nd_ctx n) of (r, c) \<Rightarrow> (r, n\<lparr>nd_ctx := c\<rparr>))"

definition upd_ctx :: "(channel_context \<Rightarrow> channel_context) \<Rightarrow> unit node_action" where
  "upd_ctx f n = (Ok (), n\<lparr>nd_ctx := f (nd_ctx n)\<rparr>)"

definition upd_table :: "(route_table \<Rightarrow> route_table) \<Rightarrow> unit node_action" where
  "upd_table f = upd_ctx (\<lambda>c. c\<lparr>cc_route_table := f (cc_route_table c)\<rparr>)"

definition upd_node :: "(node \<Rightarrow> node) \<Rightarrow> unit node_action" where
  "upd_node f n = (Ok (), f n)"

definition tell :: "host_event \<Rightarrow> unit node_action" where
  "tell e n = (Ok (), n\<lparr>nd_out := nd_out n @ [e]\<rparr>)"

definition swhen :: "bool \<Rightarrow> unit node_action \<Rightarrow> unit node_action" where
  "swhen b m = (if b then m else sret ())"

text \<open>\<open>shuffle\<close>: the environment orders the positions.\<close>

definition shuffled :: "node_env \<Rightarrow> 'a list \<Rightarrow> 'a list node_action" where
  "shuffled env xs = draw (\<lambda>k. map ((!) xs) (ev_perm env k (length xs)))"

definition request_connect :: "connect_request \<Rightarrow> unit node_action" where
  "request_connect r n = (Ok (), n\<lparr>nd_connects := nd_connects n @ [r]\<rparr>)"

text \<open>The caller of these only logs an error.\<close>

definition logged :: "'a node_action \<Rightarrow> unit node_action" where
  "logged m n = (case m n of (Panic, n) \<Rightarrow> (Panic, n) | (_, n) \<Rightarrow> (Ok (), n))"

text \<open>\<open>device.write\<close>\<close>

definition device_write :: "node_env \<Rightarrow> bytes \<Rightarrow> unit node_action" where
  "device_write env b = sbind (draw (ev_device env)) (\<lambda>answer. sbind (slift (answer b)) (\<lambda>_. tell (DeviceWrite b)))"

text \<open>A packet through a cipher; the caller drops a packet on which the cipher failed.\<close>

definition ran :: "unit outcome \<times> net_packet \<Rightarrow> net_packet outcome" where
  "ran rq = (case rq of (Ok _, q) \<Rightarrow> Ok q | (Err e, _) \<Rightarrow> Err e | (Panic, _) \<Rightarrow> Panic)"

definition node_encrypt :: "node_env \<Rightarrow> cipher \<Rightarrow> net_packet \<Rightarrow> net_packet node_action" where
  "node_encrypt env c p = sbind (draw (ev_random env)) (\<lambda>w. slift (ran (cipher_encrypt (ev_crypto env) w c p)))"

definition node_decrypt :: "node_env \<Rightarrow> cipher \<Rightarrow> net_packet \<Rightarrow> net_packet node_action" where
  "node_decrypt env c p = slift (ran (cipher_decrypt (ev_crypto env) c p))"

section \<open>A node to evaluate the model with\<close>

definition sample_node_env :: node_env where
  "sample_node_env = \<lparr>ev_net = sample_env, ev_crypto = toy_crypto, ev_codecs = toy_codecs,
     ev_rsa = \<lparr>rc_parse = \<lambda>_. None, rc_finger = \<lambda>_. None, rc_encrypt = \<lambda>_ _ _. None\<rparr>,
     ev_proto = \<lparr>pr_version = ''1'', pr_handshake_request = \<lambda>_. None, pr_parse_handshake_response = \<lambda>_. None,
       pr_secret_handshake_request = \<lambda>_. None, pr_registration_request = \<lambda>_. None,
       pr_parse_registration_response = \<lambda>_. None, pr_parse_device_list = \<lambda>_. None, pr_punch_info = \<lambda>_. None,
       pr_parse_punch_info = \<lambda>_. None, pr_client_status_info = \<lambda>_. None\<rparr>,
     ev_keep = True, ev_stun_resolve = \<lambda>_. Ok [], ev_stun_parse = \<lambda>_. (None, []),
     ev_random = \<lambda>k. (of_nat k, 1, 2, 3), ev_rsa_random = \<lambda>_. ([], []), ev_lost = \<lambda>_. False, ev_now = \<lambda>k. k,
     ev_unix = \<lambda>k. Some (of_nat k, 0), ev_device = \<lambda>_ _. Ok (), ev_icmp_sent = \<lambda>_ _. Ok (), ev_handshake = \<lambda>_. True,
     ev_register = \<lambda>_. True, ev_create_device = \<lambda>_ _. Inl ''tun0'', ev_tun_start = \<lambda>_. Ok (), ev_punch_queue = \<lambda>_. True,
     ev_pick = \<lambda>k n. k mod n, ev_perm = \<lambda>_ n. [0..<n], ev_order = \<lambda>_ _. [],
     ev_dns = \<lambda>_. \<lparr>de_addr = \<lambda>_. None, de_lookup = \<lambda>_. None, de_http = \<lambda>_. HttpFailed, de_open = \<lambda>_. False,
       de_attempt = \<lambda>_ _ _ _. SendFailed\<rparr>,
     ev_bind = \<lambda>_ _. True, ev_connects = \<lambda>_ _. True, ev_rebind = None, ev_udp_reset = \<lambda>_. (Err (IoError OtherKind), Ok ()),
     ev_switch = \<lambda>_. (Err (IoError OtherKind), Ok ()), ev_stun_test = \<lambda>_. (Ok (), []), ev_stun_request = \<lambda>_. [0, 1],
     ev_local_ipv4 = \<lambda>_. None, ev_local_ipv6 = \<lambda>_. None\<rparr>"

definition sample_config :: node_config where
  "sample_config = \<lparr>nc_base = \<lparr>bi_name = ''node'', bi_token = ''token'', bi_ip = None, bi_client_secret_hash = None,
       bi_server_secret = False, bi_device_id = ''id'', bi_server_addr = ''server'', bi_name_servers = [], bi_mtu = 1410, bi_device_name = None,
       bi_allow_wire_guard = True, bi_hook = None\<rparr>,
     nc_client_cipher = sample_cipher, nc_server_cipher = CNone, nc_compressor = Lz4, nc_ip_route = [],
     nc_allow_route = [], nc_disable_relay = False\<rparr>"

text \<open>10.26.0.2 in 10.26.0.0/24, connected; the peers 10.26.0.9, 10.26.0.8 (WireGuard).\<close>

definition sample_node :: node where
  "sample_node = \<lparr>nd_ctx = sample_context,
     nd_current = (current_device_new 0x0A1A0002 0xFFFFFF00 0x0A1A0001 sample_addr)\<lparr>cd_status := Connected\<rparr>,
     nd_rsa = None, nd_up_key_time = 0, nd_handshake_time = 0, nd_epoch = 0,
     nd_devices = [(0x0A1A0009, peer_device_info_new 0x0A1A0009 ''peer'' 0 False [] False),
       (0x0A1A0008, peer_device_info_new 0x0A1A0008 ''wg'' 0 False [] True)],
     nd_peer_nat = Map.empty, nd_nat = nat_test_new [] None None [29872] 29873 False PmAll 0, nd_proxy = None,
     nd_extend = replicate 200 0, nd_punch = [], nd_connects = [], nd_history = Map.empty, nd_out = [], nd_step = 0\<rparr>"

end
