(* ===== verification/Ip_Sender.thy ===== *)
theory Ip_Sender
  imports Node
begin

text \<open>
  \<open>vnt/src/channel/sender.rs\<close>: sending the IPv4 packets of the virtual network interface, as
  \<open>IpPacketSender\<close> does it for an embedding program. A packet goes to the server for WireGuard peers,
  and else, compressed if that pays and encrypted, to its peer or (a broadcast) to the server.
  \<open>nd_extend\<close> is the second buffer of the sending thread; it is used over and over.
\<close>

section \<open>Operations\<close>

text \<open>The header of a packet of the virtual network, in the order the code sets its fields.\<close>

definition turn_header :: "ip_turn_protocol \<Rightarrow> ipv4_addr \<Rightarrow> ipv4_addr \<Rightarrow> net_packet \<Rightarrow> net_packet outcome" where
  "turn_header t src dest = oseq [np_set_default_version, np_set_protocol IpTurn,
     np_set_transport_protocol (ip_turn_protocol_into t), np_first_set_ttl 6, np_set_source src,
     np_set_destination dest]"

text \<open>Whether some WireGuard peer is online.\<close>

definition wg_online :: "node \<Rightarrow> bool" where
  "wg_online n \<longleftrightarrow> (\<exists>v \<in> snd ` set (nd_devices n). is_online (pd_status v) \<and> pd_wireguard v)"

definition wg_copy :: "net_packet \<Rightarrow> net_packet outcome" where
  "wg_copy p = obind (np_new0 (np_data_len p) (replicate 65536 0)) (\<lambda>q.
     obind (np_source p) (\<lambda>src. obind (np_destination p) (\<lambda>dest.
     obind (turn_header TurnWGIpv4 src dest q) (\<lambda>q.
     obind (np_set_gateway_flag True q) (\<lambda>q.
     obind (np_payload p) (\<lambda>payload. np_set_payload payload q))))))"

definition send_to_wg_broadcast :: "node_env \<Rightarrow> node_config \<Rightarrow> current_device_info \<Rightarrow> net_packet \<Rightarrow> unit node_action" where
  "send_to_wg_broadcast env cfg dev p =
     sbind (slift (wg_copy p)) (\<lambda>q. sbind (node_encrypt env (nc_server_cipher cfg) q) (\<lambda>q.
       on_ctx (send_default (ev_net env) q (cd_connect_server dev))))"

definition send_to_wg :: "node_env \<Rightarrow> node_config \<Rightarrow> current_device_info \<Rightarrow> net_packet \<Rightarrow> unit node_action" where
  "send_to_wg env cfg dev p =
     sbind (slift (oseq [np_set_transport_protocol (ip_turn_protocol_into TurnWGIpv4), np_set_gateway_flag True] p)) (\<lambda>q.
     sbind (node_encrypt env (nc_server_cipher cfg) q) (\<lambda>q.
       on_ctx (send_default (ev_net env) q (cd_connect_server dev))))"

text \<open>Compression into the second buffer; the result is the packet to send and whether it is the second
  one. Encryption works in place, so the second buffer keeps what it did.\<close>

definition node_compress :: "node_env \<Rightarrow> node_config \<Rightarrow> ipv4_addr \<Rightarrow> ipv4_addr \<Rightarrow> net_packet \<Rightarrow> net_packet \<Rightarrow>
    (bool \<times> net_packet) node_action" where
  "node_compress env cfg src dest p aux n =
     (case compressor_compress (ev_codecs env) (nc_compressor cfg) p aux of (r, aux) \<Rightarrow>
       sbind (slift r) (\<lambda>smaller.
         if smaller then sbind (slift (turn_header TurnIpv4 src dest aux)) (\<lambda>q. sret (True, q))
         else sret (False, p)) (n\<lparr>nd_extend := np_buffer aux\<rparr>))"

definition client_encrypt :: "node_env \<Rightarrow> node_config \<Rightarrow> bool \<times> net_packet \<Rightarrow> net_packet node_action" where
  "client_encrypt env cfg bp = sbind (draw (ev_random env)) (\<lambda>w n.
     let rq = cipher_encrypt (ev_crypto env) w (nc_client_cipher cfg) (snd bp)
     in (ran rq, if fst bp then n\<lparr>nd_extend := np_buffer (snd rq)\<rparr> else n))"

definition send_ip :: "node_env \<Rightarrow> node_config \<Rightarrow> bytes \<Rightarrow> nat \<Rightarrow> ipv4_addr \<Rightarrow> unit node_action" where
  "send_ip env cfg buf data_len dest_ip n =
     (let dev = nd_current n; src_ip = cd_virtual_ip dev in
      if is_unspecified src_ip then (Ok (), n)
      else
        let dest_ip = (case ext_route (nc_ip_route cfg) dest_ip of Some v \<Rightarrow> v | None \<Rightarrow> dest_ip);
            dest_ip = (if is_multicast dest_ip then BROADCAST else dest_ip);
            all = (is_broadcast dest_ip \<or> dest_ip = cd_broadcast_ip dev);
            deliver = (\<lambda>p n.
              sbind (slift (np_new (nd_extend n))) (\<lambda>aux.
              sbind (node_compress env cfg src_ip dest_ip p aux) (\<lambda>bp.
              sbind (client_encrypt env cfg bp) (\<lambda>q.
                if all then on_ctx (send_default (ev_net env) q (cd_connect_server dev))
                else if not_in_network dest_ip dev then sret ()
                else sbind (draw (ev_lost env)) (\<lambda>lost. on_ctx (send_ipv4_by_id (ev_net env) lost q dest_ip
                  (cd_connect_server dev) (cs_online (cd_status dev))))))) n)
        in sbind (slift (obind (np_new0 data_len buf) (turn_header TurnIpv4 src_ip dest_ip))) (\<lambda>p n.
             if \<not> bi_allow_wire_guard (nc_base cfg) then deliver p n
             else if all then
               sbind (swhen (wg_online n) (send_to_wg_broadcast env cfg dev p)) (\<lambda>_. deliver p) n
             else (case map_of (nd_devices n) dest_ip of
                 Some peer_info \<Rightarrow>
                   if pd_wireguard peer_info then
                     (if is_offline (pd_status peer_info) then (Ok (), n) else send_to_wg env cfg dev p n)
                   else deliver p n
               | None \<Rightarrow> deliver p n)) n)"

end
