(* ===== verification/Tunnel.thy ===== *)
theory Tunnel
  imports Ip_Sender
begin

text \<open>
  The two ends of the tunnel put together: what the receiver of \<open>handle/recv_data/client.rs\<close> makes of
  the octets that the senders transmit. \<open>delivered\<close> says that the octets arrive as a packet with a
  given header and payload, whatever the receiver's second buffer held before.
\<close>

section \<open>The receiving end\<close>

text \<open>\<open>client.rs\<close>, \<open>handle\<close>: a compressed packet is unpacked into the second buffer.\<close>

definition unwrap_extension :: "codecs \<Rightarrow> net_packet \<Rightarrow> net_packet \<Rightarrow> net_packet outcome" where
  "unwrap_extension Z p ext = obind (np_is_extension p) (\<lambda>e.
     if e then (case handle_extension_tail Z (p, ext) of
         (Ok b, p, ext) \<Rightarrow> Ok (if b then ext else p) | (Err e, _) \<Rightarrow> Err e | (Panic, _) \<Rightarrow> Panic)
     else Ok p)"

definition opens :: "crypto \<Rightarrow> cipher \<Rightarrow> bytes \<Rightarrow> net_packet \<Rightarrow> bool" where
  "opens C c wire p \<longleftrightarrow> (\<exists>q. np_new wire = Ok q \<and> cipher_decrypt C c q = (Ok (), p) \<and> np_wf p)"

definition delivered :: "crypto \<Rightarrow> codecs \<Rightarrow> cipher \<Rightarrow> bytes \<Rightarrow> net_header \<Rightarrow> bool" where
  "delivered C Z c wire v \<longleftrightarrow> (\<exists>p. opens C c wire p \<and>
     (\<forall>ext. np_wf ext \<and> 12 + length (nh_payload v) \<le> length (np_buffer ext) \<longrightarrow>
        (\<exists>r. unwrap_extension Z p ext = Ok r \<and> np_wf r \<and> np_view r = v)))"

section \<open>Sealing a packet\<close>

text \<open>What a sender needs of a packet: room to encrypt in place, and the flag only if the cipher clears it.\<close>

definition sealable :: "cipher \<Rightarrow> net_packet \<Rightarrow> bool" where
  "sealable c p \<longleftrightarrow> np_wf p \<and> (nh_encrypt (np_view p) \<longrightarrow> c \<noteq> CNone) \<and> np_data_len p \<le> 12 + cipher_cap \<and>
     np_data_len p + cipher_room \<le> length (np_buffer p)"

text \<open>Just enough room: what the cipher adds to a payload of this length.\<close>

definition fits :: "cipher \<Rightarrow> net_packet \<Rightarrow> bool" where
  "fits c p \<longleftrightarrow> np_wf p \<and> (nh_encrypt (np_view p) \<longrightarrow> c \<noteq> CNone) \<and> np_data_len p \<le> 12 + cipher_cap \<and>
     np_data_len p + cipher_growth c (np_data_len p - 12) \<le> length (np_buffer p)"

lemma sealable_fits: "sealable c p \<Longrightarrow> fits c p"
  using cipher_growth_room [of c "np_data_len p - 12"] by (simp add: sealable_def fits_def)

lemma mark_view:
  assumes "length h = 12"
  shows "np_view (frame (mark f h) pl r) = (np_view (frame h [] []))\<lparr>nh_encrypt := f, nh_payload := pl\<rparr>"
  using assms by (simp add: np_view_def nth_append) (auto simp: mark_def u8_eq_iff bit_simps)

lemma fits_sealed:
  assumes "crypto_ok C" and "cipher_ok c" and "fits c p"
  shows "\<exists>q. cipher_encrypt C w c p = (Ok (), q) \<and> np_wf q \<and> length (np_buffer q) = length (np_buffer p) \<and>
    (\<exists>d. np_view q = (np_view p)\<lparr>nh_encrypt := (c \<noteq> CNone), nh_payload := d\<rparr>) \<and>
    (\<exists>p'. opens C c (wire_bytes q) p' \<and> np_view p' = (np_view p)\<lparr>nh_encrypt := False\<rparr>)"
proof -
  obtain h pl r where p: "length h = 12" "p = frame h pl r"
    using assms(3) unfolding fits_def by (elim conjE np_wf_cases)
  define V where "V = np_view (frame h [] [])"
  have Vp: "np_view p = V\<lparr>nh_payload := pl\<rparr>" unfolding V_def p(2) by (rule frame_view [OF p(1)])
  have Ve: "nh_encrypt V = bit (h ! 0) 7" using p(1) by (simp add: V_def np_view_def)
  have e: "bit (h ! 0) 7 \<longrightarrow> c \<noteq> CNone" and len: "length pl \<le> cipher_cap" "cipher_growth c (length pl) \<le> length r"
    using assms(3) p Vp Ve by (auto simp: fits_def)
  define h1 where "h1 = (if c \<noteq> CNone then mark True h else h)"
  obtain d s where enc: "cipher_encrypt C w c p = (Ok (), frame h1 d s)"
    and l: "length d + length s = length pl + length r"
    and dec: "\<And>h' s'. same_tag h1 h' \<Longrightarrow> \<exists>t. cipher_decrypt C c (frame h' d s') = (Ok (), frame (mark False h') pl t)"
    using cipher.enc_dec [of "(C, c)" h pl r w, unfolded split] assms(1,2) p e len
    by (simp add: h1_def del: cipher_encrypt.simps cipher_decrypt.simps) blast
  have h1: "length h1 = 12" using p(1) by (simp add: h1_def)
  obtain t where t: "cipher_decrypt C c (frame h1 d []) = (Ok (), frame (mark False h1) pl t)"
    using dec [of h1 "[]"] h1 by (auto simp: same_tag_def)
  have wire: "wire_bytes (frame h1 d s) = h1 @ d" using h1 by (simp add: wire_bytes_def)
  have V1: "np_view (frame h1 [] []) = V\<lparr>nh_encrypt := (c \<noteq> CNone), nh_payload := []\<rparr>"
  proof (cases "c = CNone")
    case True
    moreover from this have "nh_encrypt V = False" using e Ve by simp
    moreover have "nh_payload V = []" using p(1) by (simp add: V_def np_view_def)
    ultimately show ?thesis by (simp add: h1_def V_def)
  qed (use mark_view [OF p(1), of True "[]" "[]"] in \<open>simp add: h1_def V_def\<close>)
  have q: "np_view (frame h1 d s) = (np_view p)\<lparr>nh_encrypt := (c \<noteq> CNone), nh_payload := d\<rparr>"
    unfolding frame_view [OF h1, of d s] V1 Vp by simp
  have p': "np_view (frame (mark False h1) pl t) = (np_view p)\<lparr>nh_encrypt := False\<rparr>"
    unfolding mark_view [OF h1, of False pl t] V1 Vp by simp
  have "opens C c (wire_bytes (frame h1 d s)) (frame (mark False h1) pl t)"
    unfolding opens_def wire using np_new_frame [OF h1, of d] t h1 by auto
  moreover have "np_wf (frame h1 d s)" "length (np_buffer (frame h1 d s)) = length (np_buffer p)"
    using h1 l p by simp_all
  ultimately show ?thesis using enc q p' by blast
qed

lemmas sealed = fits_sealed [OF _ _ sealable_fits]

text \<open>Octets that a holder of the key sent: a packet it encrypted, of which relays changed at most the header
  outside the nonce and the flag.\<close>

definition from_peer :: "crypto \<Rightarrow> cipher \<Rightarrow> bytes \<Rightarrow> bool" where
  "from_peer C c buf \<longleftrightarrow> (\<exists>w p0 q0 q. sealable c p0 \<and> \<not> nh_encrypt (np_view p0) \<and>
     cipher_encrypt C w c p0 = (Ok (), q0) \<and> np_new buf = Ok q \<and> np_head_tag q = np_head_tag q0 \<and>
     np_is_encrypt q = np_is_encrypt q0 \<and> np_payload q = np_payload q0)"

text \<open>Such a packet, decrypted in the buffer it came in, can be encrypted again there: decryption frees exactly
  the octets that encryption adds.\<close>

lemma from_peer_fits:
  assumes "crypto_ok C" and "cipher_ok c" and "from_peer C c buf"
    and "np_new buf = Ok q" and "cipher_decrypt C c q = (Ok (), p)"
  shows "fits c p \<and> \<not> nh_encrypt (np_view p)"
proof -
  obtain w p0 q0 where s: "sealable c p0" "\<not> nh_encrypt (np_view p0)" "cipher_encrypt C w c p0 = (Ok (), q0)"
    and tag: "np_head_tag q = np_head_tag q0" "np_is_encrypt q = np_is_encrypt q0" "np_payload q = np_payload q0"
    using assms(3,4) by (auto simp: from_peer_def)
  obtain h pl r where p0: "length h = 12" "p0 = frame h pl r"
    using s(1) unfolding sealable_def by (elim conjE np_wf_cases)
  have bit: "\<not> bit (h ! 0) 7" using s(2) p0 by (simp add: np_view_fields nth_append)
  have len: "length pl \<le> cipher_cap" "cipher_growth c (length pl) \<le> length r"
    using s(1) p0 cipher_growth_room [of c "length pl"] by (auto simp: sealable_def)
  define h1 where "h1 = (if c \<noteq> CNone then mark True h else h)"
  obtain d s' where enc: "cipher_encrypt C w c p0 = (Ok (), frame h1 d s')"
    and l: "length d = length pl + cipher_growth c (length pl)"
    and dec: "\<And>h' s'. same_tag h1 h' \<Longrightarrow> \<exists>t. cipher_decrypt C c (frame h' d s') = (Ok (), frame (mark False h') pl t) \<and>
      length pl + length t = length d + length s'"
    using cipher.enc_dec [of "(C, c)" h pl r w, unfolded split, folded h1_def] assms(1,2) bit p0 len by blast
  have q0: "q0 = frame h1 d s'" using s(3) enc by simp
  have h1: "length h1 = 12" using p0(1) by (simp add: h1_def)
  obtain h' d' where q: "length h' = 12" "q = frame h' d' []"
  proof
    have b: "np_buffer q = buf" "np_data_len q = length buf" "12 \<le> length buf"
      using assms(4) by (auto simp: np_new_def np_new0_Ok_iff)
    then show "length (take 12 buf) = 12" by simp
    show "q = frame (take 12 buf) (drop 12 buf) []" using b by (simp add: frame_def)
  qed
  have tag': "Ok (frame_tag h') = Ok (frame_tag h1)" "Ok (bit (h' ! 0) 7) = Ok (bit (h1 ! 0) 7)" "Ok d' = Ok d"
    using tag unfolding q0 q(2) frame_head_tag [OF q(1)] frame_head_tag [OF h1] frame_is_encrypt [OF q(1)]
      frame_is_encrypt [OF h1] frame_payload [OF q(1)] frame_payload [OF h1] .
  have d': "d' = d" "same_tag h1 h'"
    unfolding same_tag_def using tag' q(1) by (blast dest: outcome.inject(1) [THEN iffD1])+
  obtain t where t: "p = frame (mark False h') pl t" "length pl + length t = length d"
  proof -
    obtain t where t: "cipher_decrypt C c (frame h' d []) = (Ok (), frame (mark False h') pl t)"
        "length pl + length t = length d + length ([] :: bytes)" using dec [OF d'(2)] by blast
    have "(Ok () :: unit outcome, p) = (Ok (), frame (mark False h') pl t)"
      by (rule trans [OF assms(5) [unfolded q(2) d'(1), symmetric] t(1)])
    then have "p = frame (mark False h') pl t" by (rule Pair_inject)
    moreover have "length pl + length t = length d" using t(2) unfolding list.size(3) add_0_right .
    ultimately show thesis by (rule that)
  qed
  have h': "length (mark False h') = 12" using q(1) by simp
  have "(mark False h' @ pl @ t) ! 0 = mark False h' ! 0" using h' by (simp only: nth_append) simp
  then have v: "\<not> nh_encrypt (np_view p)"
    unfolding t(1) np_view_fields(1) frame_sel by (simp only: mark_simps(3) [OF q(1)] not_False_eq_True)
  have "np_data_len p = 12 + length pl" "length (np_buffer p) = 12 + length pl + length t" "np_wf p"
    unfolding t(1) using h' by (simp_all add: np_wf_frame)
  then show ?thesis using v len(1) l t(2) by (simp add: fits_def)
qed

section \<open>Packets of the virtual network\<close>

definition tunnel_view :: "ip_turn_protocol \<Rightarrow> bool \<Rightarrow> ipv4_addr \<Rightarrow> ipv4_addr \<Rightarrow> bytes \<Rightarrow> net_header" where
  "tunnel_view t gateway src dest pl = \<lparr>nh_encrypt = False, nh_gateway = gateway, nh_extension = False, nh_unused = False,
     nh_version = 2, nh_protocol = protocol_into IpTurn, nh_transport = ip_turn_protocol_into t, nh_source_ttl = 6,
     nh_ttl = 6, nh_source = src, nh_destination = dest, nh_payload = pl\<rparr>"

text \<open>The flags that \<open>turn_header\<close> leaves in the first octet of a buffer that is used again: only the ones that
  compression and encryption set, which they set or clear again.\<close>

definition flags_ok :: "cipher \<Rightarrow> net_header \<Rightarrow> bool" where
  "flags_ok c v \<longleftrightarrow> \<not> nh_gateway v \<and> \<not> nh_unused v \<and> (nh_encrypt v \<longrightarrow> c \<noteq> CNone)"

lemma flags_ok_buffer: "np_buffer p = np_buffer q \<Longrightarrow> flags_ok c (np_view p) \<longleftrightarrow> flags_ok c (np_view q)"
  by (simp add: flags_ok_def np_view_fields)

lemma flags_ok_view [simp]:
  "flags_ok c (v\<lparr>nh_payload := d\<rparr>) = flags_ok c v" "flags_ok c (v\<lparr>nh_extension := e\<rparr>) = flags_ok c v"
  "flags_ok c v \<Longrightarrow> flags_ok c (v\<lparr>nh_encrypt := (c \<noteq> CNone)\<rparr>)"
  by (auto simp: flags_ok_def)

lemma turn_header_ok:
  assumes "np_wf p"
  shows "\<exists>q. turn_header t src dest p = Ok q \<and> np_wf q \<and> np_data_len q = np_data_len p \<and>
    length (np_buffer q) = length (np_buffer p) \<and> np_view q = (np_view p)
      \<lparr>nh_version := 2, nh_protocol := protocol_into IpTurn, nh_transport := ip_turn_protocol_into t, nh_source_ttl := 6,
       nh_ttl := 6, nh_source := src, nh_destination := dest\<rparr>"
proof -
  have "np_sets p (turn_header t src dest) (\<lambda>h. h\<lparr>nh_version := 2, nh_protocol := protocol_into IpTurn,
      nh_transport := ip_turn_protocol_into t, nh_ttl := 6, nh_source_ttl := 6, nh_source := src, nh_destination := dest\<rparr>)"
    unfolding turn_header_def
    by (rule np_sets_Cons np_sets_Nil np_sets_intros assms | assumption | simp)+
  then show ?thesis by (auto simp: np_sets_def)
qed

text \<open>A second buffer that a packet of length \<open>m\<close> can be compressed into and encrypted in.\<close>

definition extend_ok :: "cipher \<Rightarrow> nat \<Rightarrow> bytes \<Rightarrow> bool" where
  "extend_ok c m b \<longleftrightarrow> 12 \<le> length b \<and> m + cipher_room \<le> length b \<and> flags_ok c (np_view (np_unchecked b))"

lemma same_buffer_flags:
  assumes "same_buffer h k q" and "length h = 12"
  shows "flags_ok c (np_view q) \<longleftrightarrow> flags_ok c (np_view (frame h pl r))"
proof -
  obtain e pl' s where q: "q = frame (if e then ext_mark True h else h) pl' s"
    using assms(1) unfolding same_buffer_def by blast
  obtain x xs where "h = x # xs" using assms(2) by (cases h) simp_all
  then show ?thesis
    by (cases e) (simp_all add: q flags_ok_def np_view_fields ext_mark_def bit_simps)
qed

lemma delivered_plain:
  assumes "opens C c wire p" and "np_view p = v" and "\<not> nh_extension v"
  shows "delivered C Z c wire v"
proof -
  have "np_wf p" using assms(1) by (auto simp: opens_def)
  then have "unwrap_extension Z p ext = Ok p" for ext
    using assms(2,3) by (simp add: unwrap_extension_def np_getters_view)
  then show ?thesis using assms(1,2) \<open>np_wf p\<close> unfolding delivered_def by blast
qed

text \<open>Encrypting a packet with the header of the virtual network, and the compressed copy of one.\<close>

lemma plain_sealed:
  assumes "crypto_ok C" and "cipher_ok c" and "sealable c p" and "flags_ok c (np_view p)"
    and "(np_view p)\<lparr>nh_encrypt := False\<rparr> = v" and "\<not> nh_extension v"
  shows "\<exists>q. cipher_encrypt C w c p = (Ok (), q) \<and> np_wf q \<and> length (np_buffer q) = length (np_buffer p) \<and>
    flags_ok c (np_view q) \<and> delivered C Z c (wire_bytes q) v"
proof -
  from sealed [OF assms(1-3), of w] obtain q d p' where
    q: "cipher_encrypt C w c p = (Ok (), q)" "np_wf q" "length (np_buffer q) = length (np_buffer p)"
      "np_view q = (np_view p)\<lparr>nh_encrypt := (c \<noteq> CNone), nh_payload := d\<rparr>"
      "opens C c (wire_bytes q) p'" "np_view p' = (np_view p)\<lparr>nh_encrypt := False\<rparr>"
    by blast
  then show ?thesis using delivered_plain [OF q(5), of v Z] assms(4-6) by auto
qed

lemma compressed_sealed:
  assumes "crypto_ok C" and "codec_ok Z" and "cipher_ok c" and "np_wf p" and "np_wf aux" and "flags_ok c (np_view aux)"
    and "nh_payload (np_view p) = pl" and "np_data_len p \<le> 12 + cipher_cap" and "np_data_len p + cipher_room \<le> length (np_buffer aux)"
    and "compressor_compress Z k p aux = (Ok True, q0)" and "turn_header TurnIpv4 src dest q0 = Ok q1"
  shows "\<exists>q. cipher_encrypt C w c q1 = (Ok (), q) \<and> np_wf q \<and> length (np_buffer q) = length (np_buffer aux) \<and>
    flags_ok c (np_view q) \<and> delivered C Z c (wire_bytes q) (tunnel_view TurnIpv4 False src dest pl)"
proof -
  obtain hp pp rp where p: "length hp = 12" "p = frame hp pp rp" using assms(4) by (rule np_wf_cases)
  obtain ha pa ra where a: "length ha = 12" "aux = frame ha pa ra" using assms(5) by (rule np_wf_cases)
  from compressor_compress_frame [OF assms(2) a(1) p(1) assms(10) [unfolded p(2) a(2)]]
  have same: "same_buffer ha (length pa + length ra) q0" and short: "np_data_len q0 + 16 < 12 + length pp" and
    ext: "np_wf q0" "np_is_extension q0 = Ok True"
    using a(1) same_buffer_wf [OF _ a(1)] by (auto simp: frame_is_extension)
  have l0: "length (np_buffer q0) = length (np_buffer aux)" using same_buffer_wf [OF same a(1)] a by simp
  have f0: "flags_ok c (np_view q0)" using same_buffer_flags [OF same a(1)] assms(6) a(2) by simp
  obtain q1' where "turn_header TurnIpv4 src dest q0 = Ok q1'" "np_wf q1'" "np_data_len q1' = np_data_len q0"
    "length (np_buffer q1') = length (np_buffer q0)" "np_view q1' = (np_view q0)
      \<lparr>nh_version := 2, nh_protocol := protocol_into IpTurn, nh_transport := ip_turn_protocol_into TurnIpv4, nh_source_ttl := 6,
       nh_ttl := 6, nh_source := src, nh_destination := dest\<rparr>"
    using turn_header_ok [OF ext(1)] by blast
  then have q1: "np_wf q1" "np_data_len q1 = np_data_len q0" "length (np_buffer q1) = length (np_buffer q0)"
    "np_view q1 = (np_view q0)\<lparr>nh_version := 2, nh_protocol := protocol_into IpTurn,
      nh_transport := ip_turn_protocol_into TurnIpv4, nh_source_ttl := 6,
       nh_ttl := 6, nh_source := src, nh_destination := dest\<rparr>"
    using assms(11) by simp_all
  have f1: "flags_ok c (np_view q1)" using f0 by (simp add: q1(4) flags_ok_def)
  have "np_data_len p = 12 + length pp" using p by simp
  then have "sealable c q1"
    using q1 f1 short l0 assms(8,9) by (simp add: sealable_def flags_ok_def)
  from sealed [OF assms(1,3) this, of w] obtain q d p' where
    q: "cipher_encrypt C w c q1 = (Ok (), q)" "np_wf q" "length (np_buffer q) = length (np_buffer q1)"
      "np_view q = (np_view q1)\<lparr>nh_encrypt := (c \<noteq> CNone), nh_payload := d\<rparr>"
      "opens C c (wire_bytes q) p'" "np_view p' = (np_view q1)\<lparr>nh_encrypt := False\<rparr>"
    by blast
  have p': "np_wf p'" using q(5) by (auto simp: opens_def)
  have e1: "nh_extension (np_view q1)" using ext q1(4) by (simp add: np_getters_view)
  have pay: "np_payload p' = np_payload q0"
    using p' ext(1) q(6) q1(4) by (simp add: np_getters_view)
  have e': "np_is_extension p' = Ok True" using p' q(6) e1 by (simp add: np_getters_view)
  have "\<exists>r. unwrap_extension Z p' e = Ok r \<and> np_wf r \<and> np_view r = tunnel_view TurnIpv4 False src dest pl"
    if e: "np_wf e" "12 + length pl \<le> length (np_buffer e)" for e
  proof -
    have "np_data_len p \<le> length (np_buffer e)" using e(2) assms(7) p by (simp add: np_view_def Let_def)
    from compressed_restores [OF assms(2,4,5,10) p' pay e' e(1) this] obtain inp r where
      r: "handle_extension_tail Z (p', e) = (Ok True, inp, r)" "np_wf r"
        "np_view r = (np_view p')\<lparr>nh_extension := False, nh_payload := nh_payload (np_view p)\<rparr>"
      by blast
    have "np_view r = tunnel_view TurnIpv4 False src dest pl"
      using f1 unfolding r(3) q(6) q1(4) tunnel_view_def flags_ok_def by (simp add: assms(7))
    then show ?thesis using r(1,2) e' by (simp add: unwrap_extension_def)
  qed
  then have "delivered C Z c (wire_bytes q) (tunnel_view TurnIpv4 False src dest pl)"
    unfolding delivered_def using q(5) by (auto simp: tunnel_view_def)
  moreover have "flags_ok c (np_view q)" using f1 by (simp add: q(4))
  ultimately show ?thesis using q(1-3) q1(3) l0 by auto
qed

section \<open>Actions that transmit\<close>

primrec tx_bytes :: "transmission \<Rightarrow> bytes" where
  "tx_bytes (UdpSend i addr b) = b"
| "tx_bytes (TcpSend key b) = b"

text \<open>An action that does not panic and, of the channel context, only transmits octets with \<open>P\<close>.\<close>

definition sends :: "(bytes \<Rightarrow> bool) \<Rightarrow> node \<Rightarrow> 'a outcome \<times> node \<Rightarrow> bool" where
  "sends P n out \<longleftrightarrow> fst out \<noteq> Panic \<and> same_node (nd_ctx n) (nd_ctx (snd out)) \<and>
     (\<exists>l. cc_log (nd_ctx (snd out)) = cc_log (nd_ctx n) @ l \<and> (\<forall>x \<in> set l. P (tx_bytes (fst x))))"

lemma sends_quiet: "r \<noteq> Panic \<Longrightarrow> nd_ctx n' = nd_ctx n \<Longrightarrow> sends P n (r, n')"
  by (simp add: sends_def)

lemma sends_bind:
  assumes "sends P n (m n)" and "\<And>x n'. m n = (Ok x, n') \<Longrightarrow> sends P n' (f x n')"
  shows "sends P n (sbind m f n)"
proof (cases "m n")
  case (Pair r n')
  show ?thesis
  proof (cases r)
    case (Ok x)
    have "sends P n' (f x n')" using assms(2) Pair Ok by simp
    moreover have "sbind m f n = f x n'" using Pair Ok by (simp add: sbind_def)
    ultimately show ?thesis
      using assms(1) Pair unfolding sends_def by (auto intro: same_node_trans)
  next
    case (Err e)
    then show ?thesis using assms(1) Pair by (simp add: sends_def sbind_def)
  next
    case Panic
    then show ?thesis using assms(1) Pair by (simp add: sends_def)
  qed
qed

lemma tx_bytes_cases:
  "tx_bytes (key_tx key b) = b" "server_tx c a b tx \<Longrightarrow> tx_bytes tx = b"
  by (auto simp: key_tx_def server_tx_def split: if_splits)

lemma sends_default:
  assumes "np_wf q" and "P (wire_bytes q)"
  shows "sends P n (on_ctx (send_default env q addr) n)"
proof (cases "send_default env q addr (nd_ctx n)")
  case (Pair r d)
  from send_default_spec_aux [OF assms(1) this] obtain l where
    "cc_log d = cc_log (nd_ctx n) @ l" "same_node (nd_ctx n) d" "r \<noteq> Panic"
    "\<forall>x\<in>set l. server_tx (nd_ctx n) addr (wire_bytes q) (fst x)" by blast
  moreover from this(4) have "\<forall>x \<in> set l. tx_bytes (fst x) = wire_bytes q"
    by (auto dest: tx_bytes_cases(2))
  ultimately show ?thesis using assms(2) Pair by (auto simp: sends_def on_ctx_def)
qed

lemma sends_ipv4:
  assumes "np_wf q" and "P (wire_bytes q)" and "cc_packet_loss_rate (nd_ctx n) \<le> PACKET_LOSS_RATE_DENOMINATOR"
  shows "sends P n (on_ctx (send_ipv4_by_id env lost q peer addr b) n)"
proof (cases "send_ipv4_by_id env lost q peer addr b (nd_ctx n)")
  case (Pair r d)
  from send_ipv4_facts [OF assms(1,3) this] obtain l m where
    "cc_log d = cc_log (nd_ctx n) @ l @ m" "same_node (nd_ctx n) d" "r \<noteq> Panic"
    "\<forall>x\<in>set l. \<exists>r\<in>set (rt_routes (cc_route_table (nd_ctx n)) peer). fst x = key_tx (route_key_of r) (wire_bytes q)"
    "\<forall>x\<in>set m. server_tx (nd_ctx n) addr (wire_bytes q) (fst x)" by blast
  moreover from this(4,5) have "\<forall>x \<in> set (l @ m). tx_bytes (fst x) = wire_bytes q"
    by (auto simp: tx_bytes_cases(1) dest: tx_bytes_cases(2))
  ultimately show ?thesis using assms(2) Pair by (auto simp: sends_def on_ctx_def intro!: exI [of _ "l @ m"])
qed

lemma sends_by_key:
  assumes "np_wf q" and "P (wire_bytes q)"
  shows "sends P n (on_ctx (send_by_key env q key) n)"
proof (cases "send_by_key env q key (nd_ctx n)")
  case (Pair r d)
  from send_by_key_once(1) [OF assms(1), of env key "nd_ctx n"] Pair obtain l where
    "same_node (nd_ctx n) d" "r \<noteq> Panic" "cc_log d = cc_log (nd_ctx n) @ l"
    "\<forall>x\<in>set l. fst x = key_tx key (wire_bytes q)" by (auto simp: sends_once_def)
  then show ?thesis using assms(2) Pair by (auto simp: sends_def on_ctx_def tx_bytes_cases(1))
qed

lemma same_node_rate: "same_node c d \<Longrightarrow> cc_packet_loss_rate d = cc_packet_loss_rate c"
  by (auto simp: same_node_def)

section \<open>What the senders transmit\<close>

text \<open>The crates keep their contracts and both ciphers are ones that a configuration gives.\<close>

definition env_ok :: "node_env \<Rightarrow> node_config \<Rightarrow> bool" where
  "env_ok env cfg \<longleftrightarrow> crypto_ok (ev_crypto env) \<and> codec_ok (ev_codecs env) \<and> cipher_ok (nc_client_cipher cfg) \<and>
     cipher_ok (nc_server_cipher cfg)"

text \<open>The octets of the tunnel: an IP packet for the peers (if \<open>peer\<close>), or its copy for the server of the WireGuard
  peers (if \<open>wg\<close>).\<close>

definition carries :: "node_env \<Rightarrow> node_config \<Rightarrow> bool \<Rightarrow> bool \<Rightarrow> ipv4_addr \<Rightarrow> ipv4_addr \<Rightarrow> bytes \<Rightarrow> bytes \<Rightarrow> bool" where
  "carries env cfg peer wg src dest ip b \<longleftrightarrow>
     peer \<and> delivered (ev_crypto env) (ev_codecs env) (nc_client_cipher cfg) b (tunnel_view TurnIpv4 False src dest ip) \<or>
     wg \<and> (\<exists>p. opens (ev_crypto env) (nc_server_cipher cfg) b p \<and> np_view p = tunnel_view TurnWGIpv4 True src dest ip)"

lemma tunnel_sealed:
  assumes "env_ok env cfg" and "sealable (nc_client_cipher cfg) p"
    and "(np_view p)\<lparr>nh_encrypt := False\<rparr> = tunnel_view TurnIpv4 False src dest ip"
    and "extend_ok (nc_client_cipher cfg) (np_data_len p) (nd_extend n)"
  shows "\<exists>res ext k. sbind (node_compress env cfg src dest p (np_unchecked (nd_extend n))) (client_encrypt env cfg) n =
      (res, n\<lparr>nd_extend := ext, nd_step := k\<rparr>) \<and> res \<noteq> Panic \<and> length ext = length (nd_extend n) \<and>
    extend_ok (nc_client_cipher cfg) (np_data_len p) ext \<and>
    (\<forall>q. res = Ok q \<longrightarrow> np_wf q \<and> carries env cfg True wg src dest ip (wire_bytes q))"
proof -
  let ?c = "nc_client_cipher cfg" and ?aux = "np_unchecked (nd_extend n)"
  have env: "crypto_ok (ev_crypto env)" "codec_ok (ev_codecs env)" "cipher_ok ?c" using assms(1) by (simp_all add: env_ok_def)
  have p: "np_wf p" "np_data_len p \<le> 12 + cipher_cap" using assms(2) by (simp_all add: sealable_def)
  have ip: "nh_payload (np_view p) = ip" using arg_cong [OF assms(3), of nh_payload] by (simp add: tunnel_view_def)
  have aux: "np_wf ?aux" "flags_ok ?c (np_view ?aux)" "np_data_len p + cipher_room \<le> length (np_buffer ?aux)"
    using assms(4) by (simp_all add: extend_ok_def np_unchecked_def np_wf_def)
  have fp: "flags_ok ?c (np_view p)"
    using assms(2) arg_cong [OF assms(3), of nh_gateway] arg_cong [OF assms(3), of nh_unused]
    by (simp add: flags_ok_def sealable_def tunnel_view_def)
  obtain r a where cmp: "compressor_compress (ev_codecs env) (nc_compressor cfg) p ?aux = (r, a)" by fastforce
  obtain ha pa ra where f: "length ha = 12" "?aux = frame ha pa ra" using aux(1) by (rule np_wf_cases)
  obtain hp pp rp where fp': "length hp = 12" "p = frame hp pp rp" using p(1) by (rule np_wf_cases)
  have same: "same_buffer ha (length pa + length ra) a" "r \<noteq> Panic"
    using compressor_compress_frame [OF env(2) f(1) fp'(1)] cmp unfolding f(2) fp'(2) by blast+
  have la: "length (np_buffer a) = length (nd_extend n)" "np_wf a"
    using same_buffer_wf [OF same(1) f(1)] arg_cong [OF f(2), of "\<lambda>x. length (np_buffer x)"] f(1)
    by (simp_all add: np_unchecked_def)
  have fa: "flags_ok ?c (np_view a)" using same_buffer_flags [OF same(1) f(1)] aux(2) f(2) by simp
  have keep: "extend_ok ?c (np_data_len p) (np_buffer x)"
    if "flags_ok ?c (np_view x)" "length (np_buffer x) = length (nd_extend n)" for x
    using that assms(4) flags_ok_buffer [of "np_unchecked (np_buffer x)" x] by (simp add: extend_ok_def np_unchecked_def)
  note ka = keep [OF fa la(1)]
  define n1 where "n1 = n\<lparr>nd_extend := np_buffer a\<rparr>"
  have enc: "client_encrypt env cfg (b, x) n1 = (ran (cipher_encrypt (ev_crypto env) (ev_random env (nd_step n)) ?c x),
      n\<lparr>nd_extend := (if b then np_buffer (snd (cipher_encrypt (ev_crypto env) (ev_random env (nd_step n)) ?c x)) else np_buffer a),
        nd_step := Suc (nd_step n)\<rparr>)" for b x
    by (simp add: client_encrypt_def sbind_def draw_def Let_def n1_def)
  show ?thesis
  proof (cases "r = Ok True")
    case True
    obtain q1 where q1: "turn_header TurnIpv4 src dest a = Ok q1" using turn_header_ok [OF la(2)] by blast
    from compressed_sealed [OF env p(1) aux(1,2) ip p(2) aux(3) cmp [unfolded True] q1, of "ev_random env (nd_step n)"]
    obtain q where q: "cipher_encrypt (ev_crypto env) (ev_random env (nd_step n)) ?c q1 = (Ok (), q)" "np_wf q"
      "length (np_buffer q) = length (np_buffer ?aux)" "flags_ok ?c (np_view q)"
      "delivered (ev_crypto env) (ev_codecs env) ?c (wire_bytes q) (tunnel_view TurnIpv4 False src dest ip)" by blast
    have "sbind (node_compress env cfg src dest p ?aux) (client_encrypt env cfg) n = client_encrypt env cfg (True, q1) n1"
      using True cmp q1 by (simp add: sbind_def node_compress_def n1_def)
    then show ?thesis
      using q keep [OF q(4)] by (simp add: enc ran_def np_unchecked_def carries_def) blast
  next
    case False
    show ?thesis
    proof (cases "r = Ok False")
      case True
      from plain_sealed [OF env(1,3) assms(2) fp assms(3), of "ev_random env (nd_step n)" "ev_codecs env"] obtain q where
        q: "cipher_encrypt (ev_crypto env) (ev_random env (nd_step n)) ?c p = (Ok (), q)" "np_wf q"
        "delivered (ev_crypto env) (ev_codecs env) ?c (wire_bytes q) (tunnel_view TurnIpv4 False src dest ip)"
        by (auto simp: tunnel_view_def)
      have "sbind (node_compress env cfg src dest p ?aux) (client_encrypt env cfg) n = client_encrypt env cfg (False, p) n1"
        using True cmp by (simp add: sbind_def node_compress_def n1_def)
      then show ?thesis using q ka la(1)
        by (intro exI [of _ "Ok q"] exI [of _ "np_buffer a"] exI [of _ "Suc (nd_step n)"])
          (simp add: enc ran_def carries_def)
    next
      case notf: False
      then obtain e where "r = Err e" using False same(2) by (metis (full_types) outcome.exhaust)
      then have "sbind (node_compress env cfg src dest p ?aux) (client_encrypt env cfg) n =
          (Err e, n\<lparr>nd_extend := np_buffer a, nd_step := nd_step n\<rparr>)"
        using cmp by (simp add: sbind_def node_compress_def)
      then show ?thesis using ka la(1) by blast
    qed
  qed
qed

lemma sends_server_sealed:
  assumes "env_ok env cfg" and "np_wf q" and "np_view q = tunnel_view TurnWGIpv4 True src dest ip"
    and "np_data_len q \<le> 12 + cipher_cap" and "np_data_len q + cipher_room \<le> length (np_buffer q)"
  shows "sends (carries env cfg peer True src dest ip) n
    (sbind (node_encrypt env (nc_server_cipher cfg) q) (\<lambda>q. on_ctx (send_default (ev_net env) q addr)) n)"
proof -
  have "sealable (nc_server_cipher cfg) q" using assms(2-5) by (simp add: sealable_def tunnel_view_def)
  with assms(1) obtain q' p' where
    q': "cipher_encrypt (ev_crypto env) (ev_random env (nd_step n)) (nc_server_cipher cfg) q = (Ok (), q')" "np_wf q'"
      "opens (ev_crypto env) (nc_server_cipher cfg) (wire_bytes q') p'" "np_view p' = (np_view q)\<lparr>nh_encrypt := False\<rparr>"
    using sealed [of "ev_crypto env" "nc_server_cipher cfg" q "ev_random env (nd_step n)"] by (auto simp: env_ok_def)
  have "carries env cfg peer True src dest ip (wire_bytes q')"
    unfolding carries_def using q'(3,4) assms(3) by (auto simp: tunnel_view_def)
  then have "sends (carries env cfg peer True src dest ip) m (on_ctx (send_default (ev_net env) q' addr) m)" for m
    using q'(2) by (rule sends_default [rotated])
  then show ?thesis
    by (intro sends_bind) (auto simp: node_encrypt_def sbind_def draw_def q'(1) ran_def intro: sends_quiet)
qed

lemma sends_to_wg:
  assumes "env_ok env cfg" and "np_wf p" and "np_view p = tunnel_view TurnIpv4 False src dest ip"
    and "np_data_len p \<le> 12 + cipher_cap" and "np_data_len p + cipher_room \<le> length (np_buffer p)"
  shows "sends (carries env cfg peer True src dest ip) n (send_to_wg env cfg dev p n)"
proof -
  have "np_sets p (oseq [np_set_transport_protocol (ip_turn_protocol_into TurnWGIpv4), np_set_gateway_flag True])
      (\<lambda>h. h\<lparr>nh_transport := ip_turn_protocol_into TurnWGIpv4, nh_gateway := True\<rparr>)"
    by (rule np_sets_Cons np_sets_Nil np_sets_intros assms | assumption)+
  then obtain q where q: "oseq [np_set_transport_protocol (ip_turn_protocol_into TurnWGIpv4), np_set_gateway_flag True] p = Ok q"
    "np_wf q" "np_data_len q = np_data_len p" "length (np_buffer q) = length (np_buffer p)"
    "np_view q = tunnel_view TurnWGIpv4 True src dest ip"
    using assms(3) unfolding np_sets_def by (auto simp: tunnel_view_def)
  show ?thesis
    unfolding send_to_wg_def q(1) sbind_slift
    by (rule sends_server_sealed) (use assms q in simp_all)
qed

lemma wg_copy_ok:
  assumes "np_wf p" and "np_view p = tunnel_view TurnIpv4 False src dest ip" and "np_data_len p \<le> 65536"
  shows "\<exists>q. wg_copy p = Ok q \<and> np_wf q \<and> np_view q = tunnel_view TurnWGIpv4 True src dest ip \<and>
    np_data_len q = np_data_len p \<and> length (np_buffer q) = 65536"
proof -
  define z where "z = \<lparr>np_data_len = np_data_len p, np_buffer = replicate 65536 0\<rparr>"
  have "nh_payload (np_view p) = ip" using assms(2) by (simp add: tunnel_view_def)
  then have p: "12 \<le> np_data_len p" "np_source p = Ok src" "np_destination p = Ok dest" "np_payload p = Ok ip"
    "length ip = np_data_len p - 12"
    using assms(1,2) np_wf_len [OF assms(1)]
    by (auto simp: np_getters_view [OF assms(1)] tunnel_view_def np_view_def Let_def)
  have z: "np_new0 (np_data_len p) (replicate 65536 0) = Ok z" "np_wf z"
    using p(1) assms(3) by (simp_all add: np_new0_def z_def np_wf_def)
  have bits: "\<not> nh_encrypt (np_view z)" "\<not> nh_extension (np_view z)" "\<not> nh_unused (np_view z)"
    by (simp_all add: np_view_fields z_def)
  obtain q1 where q1: "turn_header TurnWGIpv4 src dest z = Ok q1" "np_wf q1" "np_data_len q1 = np_data_len z"
    "length (np_buffer q1) = length (np_buffer z)" "np_view q1 = (np_view z)
      \<lparr>nh_version := 2, nh_protocol := protocol_into IpTurn, nh_transport := ip_turn_protocol_into TurnWGIpv4, nh_source_ttl := 6,
       nh_ttl := 6, nh_source := src, nh_destination := dest\<rparr>"
    using turn_header_ok [OF z(2)] by blast
  obtain q2 where q2: "np_set_gateway_flag True q1 = Ok q2" "np_wf q2" "np_data_len q2 = np_data_len q1"
    "length (np_buffer q2) = length (np_buffer q1)" "np_view q2 = (np_view q1)\<lparr>nh_gateway := True\<rparr>"
    using np_sets_byte0(2) [OF q1(2), of True] by (auto simp: np_sets_def)
  have l: "length ip = np_data_len q2 - 12" using p(5) q1(3) q2(3) by (simp add: z_def)
  obtain h pl r where f: "length h = 12" "q2 = frame h pl r" using q2(2) by (rule np_wf_cases)
  have "np_set_payload ip q2 = Ok (frame h ip r)" using f l by (simp add: frame_put_payload)
  moreover have "np_view (frame h ip r) = (np_view q2)\<lparr>nh_payload := ip\<rparr>"
    unfolding f(2) frame_view [OF f(1), of ip r] frame_view [OF f(1), of pl r] by simp
  moreover have "(np_view q2)\<lparr>nh_payload := ip\<rparr> = tunnel_view TurnWGIpv4 True src dest ip"
    using bits by (simp add: q1(5) q2(5) tunnel_view_def)
  moreover have "np_data_len (frame h ip r) = np_data_len p" "length (np_buffer (frame h ip r)) = 65536"
    using f l p(1) q1(3,4) q2(3,4) by (simp_all add: z_def)
  ultimately show ?thesis
    using z(1) q1(1) q2(1) p f(1) by (simp add: wg_copy_def)
qed

lemma sends_to_wg_broadcast:
  assumes "env_ok env cfg" and "np_wf p" and "np_view p = tunnel_view TurnIpv4 False src dest ip"
    and "np_data_len p \<le> 12 + cipher_cap"
  shows "sends (carries env cfg peer True src dest ip) n (send_to_wg_broadcast env cfg dev p n)"
proof -
  obtain q where q: "wg_copy p = Ok q" "np_wf q" "np_view q = tunnel_view TurnWGIpv4 True src dest ip"
    "np_data_len q = np_data_len p" "length (np_buffer q) = 65536"
    using wg_copy_ok [OF assms(2,3)] assms(4) by (auto simp: cipher_cap_def)
  show ?thesis
    unfolding send_to_wg_broadcast_def q(1) sbind_slift
    by (rule sends_server_sealed) (use assms q in \<open>simp_all add: cipher_cap_def cipher_room_def\<close>)
qed

section \<open>The embedding sender\<close>

text \<open>Where \<open>send_ip\<close> sends a packet for \<open>d\<close>: through the gateway of an external route, broadcast for multicast.\<close>

definition send_ip_dest :: "node_config \<Rightarrow> ipv4_addr \<Rightarrow> ipv4_addr" where
  "send_ip_dest cfg d = (let d = (case ext_route (nc_ip_route cfg) d of Some v \<Rightarrow> v | None \<Rightarrow> d)
     in if is_multicast d then BROADCAST else d)"

lemma fresh_header:
  assumes "12 \<le> data_len" and "data_len \<le> length buf" and "drop_bit 4 (buf ! 0) = 0"
  shows "\<exists>p. obind (np_new0 data_len buf) (turn_header TurnIpv4 src dest) = Ok p \<and> np_wf p \<and> np_data_len p = data_len \<and>
    length (np_buffer p) = length buf \<and> np_view p = tunnel_view TurnIpv4 False src dest (drop 12 (take data_len buf))"
proof -
  define z where "z = \<lparr>np_data_len = data_len, np_buffer = buf\<rparr>"
  have z: "np_new0 data_len buf = Ok z" "np_wf z" using assms by (simp_all add: np_new0_def z_def np_wf_def)
  have "bit (buf ! 0) (4 + i) = bit (drop_bit 4 (buf ! 0)) i" for i by (simp add: bit_simps)
  from this [of 0] this [of 1] this [of 2] this [of 3]
  have "\<not> bit (buf ! 0) 7" "\<not> bit (buf ! 0) 6" "\<not> bit (buf ! 0) 5" "\<not> bit (buf ! 0) 4"
    using assms(3) by simp_all
  then have v: "np_view z = \<lparr>nh_encrypt = False, nh_gateway = False, nh_extension = False, nh_unused = False,
      nh_version = nh_version (np_view z), nh_protocol = nh_protocol (np_view z), nh_transport = nh_transport (np_view z),
      nh_source_ttl = nh_source_ttl (np_view z), nh_ttl = nh_ttl (np_view z), nh_source = nh_source (np_view z),
      nh_destination = nh_destination (np_view z), nh_payload = drop 12 (take data_len buf)\<rparr>"
    by (simp add: np_view_def z_def Let_def)
  obtain q where "turn_header TurnIpv4 src dest z = Ok q" "np_wf q" "np_data_len q = np_data_len z"
    "length (np_buffer q) = length (np_buffer z)" "np_view q = (np_view z)
      \<lparr>nh_version := 2, nh_protocol := protocol_into IpTurn, nh_transport := ip_turn_protocol_into TurnIpv4, nh_source_ttl := 6,
       nh_ttl := 6, nh_source := src, nh_destination := dest\<rparr>"
    using turn_header_ok [OF z(2)] by blast
  moreover from this(5) have "np_view q = tunnel_view TurnIpv4 False src dest (drop 12 (take data_len buf))"
    by (subst (asm) v) (simp add: tunnel_view_def)
  ultimately show ?thesis using z by (simp add: z_def)
qed

lemma sends_keeps_rate: "sends P n (r, n') \<Longrightarrow> cc_packet_loss_rate (nd_ctx n') = cc_packet_loss_rate (nd_ctx n)"
  by (simp add: sends_def same_node_rate)

text \<open>Compression and encryption followed by sending.\<close>

lemma sends_tunnel:
  assumes "env_ok env cfg" and "sealable (nc_client_cipher cfg) p"
    and "(np_view p)\<lparr>nh_encrypt := False\<rparr> = tunnel_view TurnIpv4 False src dest ip"
    and "extend_ok (nc_client_cipher cfg) (np_data_len p) (nd_extend n)"
    and "\<And>q n'. np_wf q \<Longrightarrow> carries env cfg True wg src dest ip (wire_bytes q) \<Longrightarrow> nd_ctx n' = nd_ctx n \<Longrightarrow>
      nd_devices n' = nd_devices n \<Longrightarrow> sends (carries env cfg True wg src dest ip) n' (k q n') \<and> nd_extend (snd (k q n')) = nd_extend n'"
  shows "sends (carries env cfg True wg src dest ip) n
      (sbind (node_compress env cfg src dest p (np_unchecked (nd_extend n))) (\<lambda>bp. sbind (client_encrypt env cfg bp) k) n)"
    and "extend_ok (nc_client_cipher cfg) (np_data_len p) (nd_extend (snd
      (sbind (node_compress env cfg src dest p (np_unchecked (nd_extend n))) (\<lambda>bp. sbind (client_encrypt env cfg bp) k) n)))"
proof -
  let ?m = "node_compress env cfg src dest p (np_unchecked (nd_extend n))" and ?f = "client_encrypt env cfg"
  obtain res ext j where s: "sbind ?m ?f n = (res, n\<lparr>nd_extend := ext, nd_step := j\<rparr>)" "res \<noteq> Panic"
    "extend_ok (nc_client_cipher cfg) (np_data_len p) ext"
    "\<And>q. res = Ok q \<Longrightarrow> np_wf q \<and> carries env cfg True wg src dest ip (wire_bytes q)"
    using tunnel_sealed [OF assms(1-4)] by blast
  have assoc: "sbind ?m (\<lambda>bp. sbind (?f bp) k) n = sbind (sbind ?m ?f) k n"
    by (simp add: sbind_def split: prod.split outcome.split)
  show "sends (carries env cfg True wg src dest ip) n (sbind ?m (\<lambda>bp. sbind (?f bp) k) n)"
    unfolding assoc
    by (rule sends_bind) (use s assms(5) in \<open>auto intro: sends_quiet\<close>)
  show "extend_ok (nc_client_cipher cfg) (np_data_len p) (nd_extend (snd (sbind ?m (\<lambda>bp. sbind (?f bp) k) n)))"
    unfolding assoc using s assms(5) [of _ "n\<lparr>nd_extend := ext, nd_step := j\<rparr>"]
    by (cases res) (simp_all add: sbind_def)
qed

lemma on_ctx_extend [simp]: "nd_extend (snd (on_ctx m n)) = nd_extend n" "nd_devices (snd (on_ctx m n)) = nd_devices n"
  by (simp_all add: on_ctx_def split: prod.split)

text \<open>Sending the copy for the server leaves the second buffer alone.\<close>

lemma wg_extend:
  "nd_extend (snd (send_to_wg env cfg dev p n)) = nd_extend n"
  "nd_extend (snd (send_to_wg_broadcast env cfg dev p n)) = nd_extend n"
  by (simp_all add: send_to_wg_def send_to_wg_broadcast_def node_encrypt_def sbind_def draw_def on_ctx_def slift_def
      split: outcome.split prod.split)

text \<open>For whom a packet is: a broadcast is for the peers and, when the configuration allows WireGuard and such a
  peer is online, for the server of the WireGuard peers; a packet for one WireGuard peer is for that
  server alone, unless the peer is offline; any other is for its peer.\<close>

definition for_all :: "node \<Rightarrow> ipv4_addr \<Rightarrow> bool" where
  "for_all n dest \<longleftrightarrow> is_broadcast dest \<or> dest = cd_broadcast_ip (nd_current n)"

definition wg_peer :: "node_config \<Rightarrow> node \<Rightarrow> ipv4_addr \<Rightarrow> peer_device_info option" where
  "wg_peer cfg n dest = (if bi_allow_wire_guard (nc_base cfg)
     then (case map_of (nd_devices n) dest of Some v \<Rightarrow> if pd_wireguard v then Some v else None | None \<Rightarrow> None) else None)"

definition for_peer :: "node_config \<Rightarrow> node \<Rightarrow> ipv4_addr \<Rightarrow> bool" where
  "for_peer cfg n dest \<longleftrightarrow> for_all n dest \<or> wg_peer cfg n dest = None"

definition for_wg :: "node_config \<Rightarrow> node \<Rightarrow> ipv4_addr \<Rightarrow> bool" where
  "for_wg cfg n dest \<longleftrightarrow> (if for_all n dest then bi_allow_wire_guard (nc_base cfg) \<and> wg_online n
     else \<exists>v. wg_peer cfg n dest = Some v \<and> \<not> is_offline (pd_status v))"

text \<open>C38: Everything \<open>send_ip\<close> transmits for an IP packet of at most 4000 octets, in a buffer with 56 octets to
  spare and clear flag bits, arrives intact in the form its receiver can open. For a peer that is
  not a WireGuard peer, and for broadcasts, the octets decrypt under the client key, and unpack
  where they were compressed, to a packet from this node's address to the routed destination that
  carries the IP packet. For a WireGuard peer of a node that allows them, and for broadcasts while
  one is online, they are the copy that the server's key opens to the same addresses and payload;
  nothing else is sent to a WireGuard peer, and nothing at all when it is offline. Sending never
  panics and leaves the second buffer ready for the next packet.\<close>

theorem send_ip_delivered:
  assumes "env_ok env cfg" and "cc_packet_loss_rate (nd_ctx n) \<le> PACKET_LOSS_RATE_DENOMINATOR"
    and "12 \<le> data_len" and "data_len \<le> 4012" and "data_len + 56 \<le> length buf" and "drop_bit 4 (buf ! 0) = 0"
    and "extend_ok (nc_client_cipher cfg) data_len (nd_extend n)"
  shows "sends (carries env cfg (for_peer cfg n (send_ip_dest cfg dest_ip)) (for_wg cfg n (send_ip_dest cfg dest_ip))
      (cd_virtual_ip (nd_current n)) (send_ip_dest cfg dest_ip) (drop 12 (take data_len buf))) n
      (send_ip env cfg buf data_len dest_ip n) \<and>
    extend_ok (nc_client_cipher cfg) data_len (nd_extend (snd (send_ip env cfg buf data_len dest_ip n)))"
proof (cases "is_unspecified (cd_virtual_ip (nd_current n))")
  case True
  then show ?thesis using assms(7) by (simp add: send_ip_def Let_def sends_quiet)
next
  case False
  define dev src dest ip where defs: "dev = nd_current n" "src = cd_virtual_ip dev" "dest = send_ip_dest cfg dest_ip"
    "ip = drop 12 (take data_len buf)"
  let ?P = "carries env cfg (for_peer cfg n dest) (for_wg cfg n dest) src dest ip" and ?c = "nc_client_cipher cfg"
  define all where "all \<longleftrightarrow> is_broadcast dest \<or> dest = cd_broadcast_ip dev"
  have all: "for_all n dest = all" by (simp add: for_all_def all_def defs(1))
  define k where "k q = (if all then on_ctx (send_default (ev_net env) q (cd_connect_server dev))
      else if not_in_network dest dev then sret ()
      else sbind (draw (ev_lost env)) (\<lambda>lost. on_ctx (send_ipv4_by_id (ev_net env) lost q dest
        (cd_connect_server dev) (cs_online (cd_status dev)))))" for q
  define deliver where "deliver p n = sbind (slift (np_new (nd_extend n))) (\<lambda>aux.
      sbind (node_compress env cfg src dest p aux) (\<lambda>bp. sbind (client_encrypt env cfg bp) k)) n" for p n
  obtain p where p: "obind (np_new0 data_len buf) (turn_header TurnIpv4 src dest) = Ok p" "np_wf p" "np_data_len p = data_len"
    "length (np_buffer p) = length buf" "np_view p = tunnel_view TurnIpv4 False src dest ip"
    using fresh_header [OF assms(3) _ assms(6)] assms(5) unfolding defs(4) by fastforce
  have seal: "sealable ?c p" using p assms(4,5)
    by (simp add: sealable_def cipher_cap_def cipher_room_def tunnel_view_def)
  have v: "(np_view p)\<lparr>nh_encrypt := False\<rparr> = tunnel_view TurnIpv4 False src dest ip" using p(5) by (simp add: tunnel_view_def)
  have deliver: "sends ?P m (deliver p m) \<and> extend_ok ?c data_len (nd_extend (snd (deliver p m)))"
    if m: "extend_ok ?c data_len (nd_extend m)" "cc_packet_loss_rate (nd_ctx m) \<le> PACKET_LOSS_RATE_DENOMINATOR"
      and peer: "for_peer cfg n dest" for m
  proof -
    have aux: "np_new (nd_extend m) = Ok (np_unchecked (nd_extend m))"
      using m(1) by (simp add: np_new_def np_new0_def np_unchecked_def extend_ok_def)
    have k: "sends ?P n' (k q n') \<and> nd_extend (snd (k q n')) = nd_extend n'"
      if "np_wf q" "?P (wire_bytes q)" "nd_ctx n' = nd_ctx m" for q n'
      unfolding k_def using that m(2)
      by (auto simp: sbind_def draw_def sends_quiet intro!: sends_default)
        (use sends_ipv4 [where P = ?P and q = q and n = "n'\<lparr>nd_step := Suc (nd_step n')\<rparr>"] in \<open>simp add: sends_def\<close>)
    show ?thesis
      using sends_tunnel [OF assms(1) seal v, of m "for_wg cfg n dest" k] k m(1) peer by (simp add: deliver_def aux p(3))
  qed
  have now: "sends ?P n (deliver p n) \<and> extend_ok ?c data_len (nd_extend (snd (deliver p n)))"
    if "for_peer cfg n dest" using deliver assms(2,7) that by blast
  have len: "np_data_len p \<le> 12 + cipher_cap" "np_data_len p + cipher_room \<le> length (np_buffer p)"
    using p assms(4,5) by (simp_all add: cipher_cap_def cipher_room_def)
  have wg: "sends ?P n (sbind (send_to_wg_broadcast env cfg dev p) (\<lambda>_. deliver p) n) \<and>
    extend_ok ?c data_len (nd_extend (snd (sbind (send_to_wg_broadcast env cfg dev p) (\<lambda>_. deliver p) n)))"
    if dst: "for_peer cfg n dest" "for_wg cfg n dest"
  proof -
    obtain r n' where w: "send_to_wg_broadcast env cfg dev p n = (r, n')" by fastforce
    have s: "sends ?P n (r, n')" using sends_to_wg_broadcast [OF assms(1) p(2,5) len(1), of _ n dev] w dst(2) by simp
    have e: "nd_extend n' = nd_extend n" using wg_extend(2) [of env cfg dev p n] w by simp
    have d: "sends ?P n' (deliver p n') \<and> extend_ok ?c data_len (nd_extend (snd (deliver p n')))"
      using deliver [of n'] assms(2,7) e sends_keeps_rate [OF s] dst(1) by simp
    show ?thesis
      using sends_bind [of ?P n "send_to_wg_broadcast env cfg dev p" "\<lambda>_. deliver p"] w s d e assms(7)
      by (cases r) (auto simp: sbind_def)
  qed
  have "send_ip env cfg buf data_len dest_ip n = (if \<not> bi_allow_wire_guard (nc_base cfg) then deliver p n
      else if all then sbind (swhen (wg_online n) (send_to_wg_broadcast env cfg dev p)) (\<lambda>_. deliver p) n
      else (case map_of (nd_devices n) dest of
          Some peer_info \<Rightarrow> if pd_wireguard peer_info
            then (if is_offline (pd_status peer_info) then (Ok (), n) else send_to_wg env cfg dev p n) else deliver p n
        | None \<Rightarrow> deliver p n))"
    using False p(1) unfolding send_ip_def deliver_def [abs_def] k_def [abs_def] all_def defs send_ip_dest_def Let_def
    by (simp add: defs)
  moreover have "sends ?P n (send_to_wg env cfg dev p n)" if "for_wg cfg n dest"
    using sends_to_wg [OF assms(1) p(2,5) len] that by simp
  ultimately show ?thesis
    unfolding defs(2-4) [symmetric] defs(1) [symmetric]
    using now wg assms(7) wg_extend(1) [of env cfg dev p n]
    by (auto simp: swhen_def sends_quiet for_peer_def for_wg_def wg_peer_def all split: option.split if_splits)
qed

lemma sample_env_ok: "env_ok sample_node_env sample_config"
  using toy_crypto_ok toy_codecs_ok
  by (simp add: env_ok_def sample_node_env_def sample_config_def sample_cipher_def cipher_ok_def Let_def)

lemma sample_extend_ok: "m \<le> 144 \<Longrightarrow> extend_ok c m (replicate 200 0)"
  by (simp add: extend_ok_def cipher_room_def flags_ok_def np_view_fields np_unchecked_def)

text \<open>Zero octets standing for an IP packet of 100 octets to the peer 10.26.0.9, and to the WireGuard peer
  10.26.0.8.\<close>

lemma send_ip_delivered_witness:
  "sends (carries sample_node_env sample_config True False 0x0A1A0002 0x0A1A0009 (replicate 100 0)) sample_node
     (send_ip sample_node_env sample_config (replicate 168 0) 112 0x0A1A0009 sample_node) \<and>
   sends (carries sample_node_env sample_config False True 0x0A1A0002 0x0A1A0008 (replicate 100 0)) sample_node
     (send_ip sample_node_env sample_config (replicate 168 0) 112 0x0A1A0008 sample_node)"
proof -
  have rate: "cc_packet_loss_rate (nd_ctx sample_node) \<le> PACKET_LOSS_RATE_DENOMINATOR"
    by (simp add: sample_node_def sample_context_def)
  have ext: "extend_ok (nc_client_cipher sample_config) 112 (nd_extend sample_node)"
    by (simp add: sample_node_def sample_extend_ok)
  have dest: "send_ip_dest sample_config 0x0A1A0009 = 0x0A1A0009" "send_ip_dest sample_config 0x0A1A0008 = 0x0A1A0008"
    by (simp_all add: send_ip_dest_def sample_config_def ext_route_def is_multicast_def Let_def drop_bit_eq_div)
  have src: "cd_virtual_ip (nd_current sample_node) = 0x0A1A0002"
    by (simp add: sample_node_def current_device_new_def)
  have "\<not> for_all sample_node 0x0A1A0009" "\<not> for_all sample_node 0x0A1A0008"
    by (simp_all add: for_all_def is_broadcast_def BROADCAST_def sample_node_def current_device_new_def)
  then have "for_peer sample_config sample_node 0x0A1A0009" "\<not> for_wg sample_config sample_node 0x0A1A0009"
      "\<not> for_peer sample_config sample_node 0x0A1A0008" "for_wg sample_config sample_node 0x0A1A0008"
    by (simp_all add: for_peer_def for_wg_def wg_peer_def) (simp_all add: sample_config_def sample_node_def
        peer_device_info_new_def peer_device_status_from_def is_offline_def)
  then show ?thesis
    using send_ip_delivered [OF sample_env_ok rate _ _ _ _ ext, of "replicate 168 0" "0x0A1A0009"]
      send_ip_delivered [OF sample_env_ok rate _ _ _ _ ext, of "replicate 168 0" "0x0A1A0008"]
    by (simp add: dest src)
qed

end
