(* ===== verification/Client_Handler.thy ===== *)
theory Client_Handler
  imports Tunnel
begin

text \<open>
  \<open>vnt/src/handle/recv_data/client.rs\<close>: what a node does with a packet of another node that is addressed
  to it. The packet is decrypted and unpacked; a ping of the own address is answered, other IP packets
  go to the virtual network interface, possibly through the IP proxy; control packets measure and
  answer routes; the rest negotiates direct connections. \<open>dev\<close> is the device information loaded when
  the packet came in.
\<close>

section \<open>IP packets\<close>

text \<open>The answer to an echo request for \<open>destination\<close>, in the buffer of the request; other packets have none.\<close>

definition ping_reply :: "bool \<Rightarrow> ipv4_addr \<Rightarrow> ipv4_addr \<Rightarrow> bytes \<Rightarrow> bytes option outcome" where
  "ping_reply keep source destination b = obind (ipv4_protocol b) (\<lambda>proto.
     if proto \<noteq> IpIcmp then Ok None
     else obind (ipv4_destination_ip b) (\<lambda>dest_ip.
       if dest_ip \<noteq> destination then Ok None
       else obind (obind (ipv4_payload b) icmp_new) (\<lambda>icmp. obind (icmp_get_kind icmp) (\<lambda>kind.
         if kind \<noteq> IcEchoRequest then Ok None
         else omap Some (oseq [
           ipv4_payload_mut (\<lambda>icmp. oseq [icmp_set_kind IcEchoReply, icmp_update_checksum keep] icmp),
           ipv4_set_source_ip destination, ipv4_set_destination_ip source, ipv4_update_checksum keep] b)))))"

text \<open>A datagram or segment that is too short, or that this node's own sockets would receive.\<close>

definition is_own_socket :: "nat_test \<Rightarrow> ipv4_addr \<Rightarrow> bytes \<Rightarrow> bool outcome" where
  "is_own_socket t real_dest b = obind (ipv4_protocol b) (\<lambda>proto. case proto of
       IpTcp \<Rightarrow> obind (ipv4_payload b) (\<lambda>payload. if length payload < 20 then Ok True
         else omap (\<lambda>destination_port. is_local_tcp real_dest destination_port t) (get_u16 2 payload))
     | IpUdp \<Rightarrow> obind (ipv4_payload b) (\<lambda>payload. if length payload < 8 then Ok True
         else omap (\<lambda>destination_port. is_local_udp real_dest destination_port t) (get_u16 2 payload))
     | _ \<Rightarrow> Ok False)"

text \<open>\<open>ip_proxy_map.recv_handle\<close>: \<open>None\<close> when the proxy consumed the packet.\<close>

definition through_proxy :: "node_env \<Rightarrow> ipv4_addr \<Rightarrow> ipv4_addr \<Rightarrow> bytes \<Rightarrow> bytes option node_action" where
  "through_proxy env source destination b n = (case nd_proxy n of
       None \<Rightarrow> (Ok (Some b), n)
     | Some P \<Rightarrow> (case proxy_recv_handle (ev_keep env) (ev_icmp_sent env) source destination (P, b) of (r, P', b') \<Rightarrow>
         (omap (\<lambda>consumed. if consumed then None else Some b') r, n\<lparr>nd_proxy := Some P'\<rparr>)))"

text \<open>Packets for an address behind this node: only allowed targets, none of the own sockets.\<close>

definition filter_external :: "node_env \<Rightarrow> node_config \<Rightarrow> current_device_info \<Rightarrow> ipv4_addr \<Rightarrow> ipv4_addr \<Rightarrow> bytes \<Rightarrow>
    bytes option node_action" where
  "filter_external env cfg dev source destination b = sbind (slift (ipv4_destination_ip b)) (\<lambda>real_dest.
     if real_dest \<noteq> destination \<and> \<not> (is_broadcast real_dest \<or> is_multicast real_dest \<or>
         real_dest = cd_broadcast_ip dev \<or> is_unspecified real_dest)
     then if \<not> allow_route (nc_allow_route cfg) real_dest then sret None
       else (\<lambda>n. sbind (slift (is_own_socket (nd_nat n) real_dest b)) (\<lambda>own.
         if own then sret None else through_proxy env source destination b) n)
     else sret (Some b))"

text \<open>The handler writes the payload in place, \<open>payload_mut\<close>.\<close>

definition client_ip_turn :: "node_env \<Rightarrow> node_config \<Rightarrow> current_device_info \<Rightarrow> net_packet \<Rightarrow> route_key \<Rightarrow> unit node_action" where
  "client_ip_turn env cfg dev p key =
     sbind (slift (np_destination p)) (\<lambda>destination. sbind (slift (np_source p)) (\<lambda>source.
     sbind (slift (np_transport_protocol p)) (\<lambda>t. case ip_turn_protocol_from t of
         TurnIpv4 \<Rightarrow>
           sbind (slift (obind (np_payload p) ipv4_new)) (\<lambda>ipv4.
           sbind (slift (ping_reply (ev_keep env) source destination ipv4)) (\<lambda>reply. case reply of
               Some b \<Rightarrow>
                 sbind (slift (oseq [np_on_buffer (put_slice 12 (np_data_len p) b), np_set_source destination,
                   np_set_destination source] p)) (\<lambda>q.
                 sbind (node_encrypt env (nc_client_cipher cfg) q) (\<lambda>q. on_ctx (send_by_key (ev_net env) q key)))
             | None \<Rightarrow>
                 sbind (filter_external env cfg dev source destination ipv4) (\<lambda>passed. case passed of
                     Some b \<Rightarrow> device_write env b
                   | None \<Rightarrow> sret ())))
       | _ \<Rightarrow> sret ())))"

section \<open>Control packets\<close>

definition add_route_if_absent :: "node_env \<Rightarrow> ipv4_addr \<Rightarrow> route \<Rightarrow> unit node_action" where
  "add_route_if_absent env peer route =
     sbind (draw (ev_now env)) (\<lambda>now. upd_table (\<lambda>t. snd (rt_add_route_if_absent peer route now t)))"

definition add_route :: "node_env \<Rightarrow> ipv4_addr \<Rightarrow> route \<Rightarrow> unit node_action" where
  "add_route env peer route = sbind (draw (ev_now env)) (\<lambda>now. upd_table (\<lambda>t. snd (rt_add_route peer route now t)))"

text \<open>An answer over the route a packet came from: the packet itself, with another transport protocol and
  header, encrypted.\<close>

definition control_answer :: "node_env \<Rightarrow> node_config \<Rightarrow> current_device_info \<Rightarrow> control_protocol \<Rightarrow> u8 \<Rightarrow> ipv4_addr \<Rightarrow>
    net_packet \<Rightarrow> route_key \<Rightarrow> unit node_action" where
  "control_answer env cfg dev t ttl source p key =
     sbind (slift (oseq [np_set_transport_protocol (control_protocol_into t), np_set_source (cd_virtual_ip dev),
       np_set_destination source, np_first_set_ttl ttl] p)) (\<lambda>q.
     sbind (node_encrypt env (nc_client_cipher cfg) q) (\<lambda>q. on_ctx (send_by_key (ev_net env) q key)))"

text \<open>The public address a peer sees, as a new packet.\<close>

definition addr_response :: "current_device_info \<Rightarrow> ipv4_addr \<Rightarrow> ipv4_addr \<Rightarrow> u16 \<Rightarrow> net_packet outcome" where
  "addr_response dev source ip port = obind (np_new_encrypt (replicate (12 + 6 + ENCRYPTION_RESERVED) 0)) (\<lambda>p.
     obind (oseq [np_set_default_version, np_set_protocol Control,
       np_set_transport_protocol (control_protocol_into CAddrResponse), np_first_set_ttl MAX_TTL,
       np_set_source (cd_virtual_ip dev), np_set_destination source] p) (\<lambda>p.
     obind (obind (np_payload p) addr_new) (\<lambda>b. obind (oseq [addr_set_ipv4 ip, addr_set_port port] b) (\<lambda>b.
       np_on_buffer (put_slice 12 (np_data_len p) b) p))))"

definition client_control :: "node_env \<Rightarrow> node_config \<Rightarrow> current_device_info \<Rightarrow> net_packet \<Rightarrow> route_key \<Rightarrow> unit node_action" where
  "client_control env cfg dev p key =
     sbind (slift (np_source_ttl p)) (\<lambda>source_ttl. sbind (slift (np_ttl p)) (\<lambda>ttl.
     let metric = source_ttl - ttl + 1; over_tcp = is_base_tcp (rk_protocol key) in
     sbind (slift (np_source p)) (\<lambda>source.
     sbind (slift (obind (np_transport_protocol p) (\<lambda>t. obind (np_payload p) (control_new t)))) (\<lambda>control n.
       (let relay = is_only_relay (rtb_use_channel_type (cc_route_table (nd_ctx n)));
            own = is_local_address over_tcp (rk_addr key) (nd_nat n)
        in case control of
            PingPacket _ \<Rightarrow>
              sbind (add_route_if_absent env source (route_from_default_rt key metric)) (\<lambda>_.
                control_answer env cfg dev CPong MAX_TTL source p key) n
          | PongPacket pong \<Rightarrow>
              sbind (draw (ev_unix env)) (\<lambda>clock. let current_time = ucast (now_time clock) :: u16 in
              sbind (slift (ping_time pong)) (\<lambda>time.
                if current_time < time then sret ()
                else add_route env source (route_from key metric (uint (current_time - time))))) n
          | PunchRequest \<Rightarrow>
              if relay \<or> own then (Ok (), n)
              else control_answer env cfg dev CPunchResponse 1 source p key n
          | PunchResponse \<Rightarrow>
              if relay \<or> own then (Ok (), n)
              else add_route_if_absent env source (route_from_default_rt key metric) n
          | AddrRequest \<Rightarrow> (case rk_addr key of
              SockV4 ip port \<Rightarrow>
                sbind (slift (addr_response dev source ip port)) (\<lambda>q.
                sbind (node_encrypt env (nc_client_cipher cfg) q) (\<lambda>q. on_ctx (send_by_key (ev_net env) q key))) n
            | SockV6 _ _ _ _ \<Rightarrow> (Ok (), n))
          | AddrResponse _ \<Rightarrow> (Ok (), n))))))"

section \<open>Negotiation\<close>

text \<open>\<open>PunchSender::send\<close>: four bounded queues, by the type of the peer's NAT and the side that asked; a
  full queue refuses.\<close>

definition punch_sender_send :: "node_env \<Rightarrow> bool \<Rightarrow> ipv4_addr \<Rightarrow> nat_info \<Rightarrow> bool node_action" where
  "punch_sender_send env src_peer ip info = sbind (draw (ev_punch_queue env)) (\<lambda>accepted.
     sbind (swhen accepted (upd_node (\<lambda>n. n\<lparr>nd_punch := nd_punch n @ [(src_peer, ip, info)]\<rparr>))) (\<lambda>_. sret accepted))"

text \<open>A packet that carries a punch message, \<open>punch_packet\<close> of \<open>handle/maintain/punch.rs\<close> but for the flag.\<close>

definition punch_message :: "node_env \<Rightarrow> bool \<Rightarrow> ipv4_addr \<Rightarrow> nat_info \<Rightarrow> ipv4_addr \<Rightarrow> net_packet outcome" where
  "punch_message env reply virtual_ip info dest = obind (punch_info_of reply info) (\<lambda>m.
     obind (or_error ''punch_packet'' (pr_punch_info (ev_proto env) m)) (\<lambda>bytes.
     obind (np_new_encrypt (replicate (12 + length bytes + ENCRYPTION_RESERVED) 0)) (oseq [np_set_default_version,
       np_set_protocol OtherTurn, np_set_transport_protocol (other_turn_protocol_into OtherPunch), np_first_set_ttl MAX_TTL,
       np_set_source virtual_ip, np_set_destination dest, np_set_payload bytes])))"

definition client_other_turn :: "node_env \<Rightarrow> node_config \<Rightarrow> current_device_info \<Rightarrow> net_packet \<Rightarrow> route_key \<Rightarrow> unit node_action" where
  "client_other_turn env cfg dev p key n =
     (if is_only_relay (rtb_use_channel_type (cc_route_table (nd_ctx n))) then (Ok (), n)
      else sbind (slift (np_source p)) (\<lambda>source. sbind (slift (np_transport_protocol p)) (\<lambda>t.
        case other_turn_protocol_from t of
            OtherPunch \<Rightarrow>
              sbind (slift (obind (np_payload p) (\<lambda>b. or_error ''PunchInfo'' (pr_parse_punch_info (ev_proto env) b)))) (\<lambda>m.
              let info = nat_info_of m in
              sbind (upd_node (\<lambda>n. n\<lparr>nd_peer_nat := (nd_peer_nat n)(source \<mapsto> info)\<rparr>)) (\<lambda>_ n.
                if \<not> pi_reply m then
                  sbind (slift (punch_message env True (cd_virtual_ip dev) (nt_info (nd_nat n)) source)) (\<lambda>q.
                  sbind (node_encrypt env (nc_client_cipher cfg) q) (\<lambda>q.
                  sbind (punch_sender_send env True source info) (\<lambda>accepted.
                    if accepted then on_ctx (send_by_key (ev_net env) q key) else sret ()))) n
                else sbind (punch_sender_send env False source info) (\<lambda>_. sret ()) n))
          | _ \<Rightarrow> sret ())) n)"

section \<open>The handler\<close>

definition update_read_time :: "node_env \<Rightarrow> ipv4_addr \<Rightarrow> route_key \<Rightarrow> unit node_action" where
  "update_read_time env peer key = sbind (draw (ev_now env)) (\<lambda>now. upd_table (rt_update_read_time peer key now))"

definition client_handle :: "node_env \<Rightarrow> node_config \<Rightarrow> current_device_info \<Rightarrow> net_packet \<Rightarrow> net_packet \<Rightarrow> route_key \<Rightarrow>
    unit node_action" where
  "client_handle env cfg dev p ext key =
     sbind (node_decrypt env (nc_client_cipher cfg) p) (\<lambda>p.
     sbind (slift (np_source p)) (\<lambda>source. sbind (update_read_time env source key) (\<lambda>_.
     sbind (slift (unwrap_extension (ev_codecs env) p ext)) (\<lambda>p.
     sbind (slift (np_protocol p)) (\<lambda>proto. case proto of
         Control \<Rightarrow> client_control env cfg dev p key
       | IpTurn \<Rightarrow> client_ip_turn env cfg dev p key
       | OtherTurn \<Rightarrow> client_other_turn env cfg dev p key
       | _ \<Rightarrow> sret ())))))"

end
