(* ===== verification/Server_Handler.thy ===== *)
theory Server_Handler
  imports Client_Handler
begin

text \<open>
  \<open>vnt/src/handle/recv_data/server.rs\<close>: what a node does with a packet that carries the gateway flag. The
  key exchange and the handshake come in the clear; everything else is under the server cipher:
  registration, the list of devices, errors, measured routes and packets of WireGuard peers. The host's
  answers are those of the environment, and every call of the host is recorded. Exchanging the device
  information in a loop ends with the new value computed from what the cell held last; one handler
  runs at a time here, so that is its current value.
\<close>

section \<open>Hooks\<close>

definition run_hook :: "node_config \<Rightarrow> string \<Rightarrow> route_key \<Rightarrow> u16 option \<Rightarrow> ipv4_addr \<Rightarrow> string \<Rightarrow> unit node_action" where
  "run_hook cfg event key local_port virtual_ip reason = (case hook_info_new (bi_hook (nc_base cfg)) event of
       None \<Rightarrow> sret ()
     | Some hook \<Rightarrow> tell (HookRun (hook
         \<lparr>hk_tun_name := Some (case bi_device_name (nc_base cfg) of Some v \<Rightarrow> v | None \<Rightarrow> ''vnt-tun''),
          hk_local_port := local_port, hk_old_local_port := None,
          hk_device_name := Some (bi_name (nc_base cfg)), hk_device_id := Some (bi_device_id (nc_base cfg)),
          hk_server_addr := Some (bi_server_addr (nc_base cfg)),
          hk_virtual_ip := (if is_unspecified virtual_ip then None else Some virtual_ip),
          hk_reconnect_count := None, hk_reason := Some reason, hk_remote_addr := Some (rk_addr key),
          hk_protocol := Some (case rk_protocol key of UDP \<Rightarrow> ''udp'' | TCP \<Rightarrow> ''tcp'' | WS \<Rightarrow> ''ws'' | WSS \<Rightarrow> ''wss'')\<rparr>)))"

definition hook_port :: "route_key \<Rightarrow> channel_context \<Rightarrow> u16 option" where
  "hook_port key c = (case local_port_by_key key c of Some v \<Rightarrow> Some v | None \<Rightarrow> cc_default_local_port c)"

section \<open>Opening a session\<close>

definition send_secret_handshake :: "node_env \<Rightarrow> node_config \<Rightarrow> rsa_cipher \<Rightarrow> bytes \<Rightarrow> route_key \<Rightarrow> unit node_action" where
  "send_secret_handshake env cfg rsa k key = sbind (draw (ev_rsa_random env)) (\<lambda>rnd.
     sbind (slift (secret_handshake_request_packet (ev_crypto env) (ev_rsa env) (ev_proto env) rnd rsa
       (bi_token (nc_base cfg)) k)) (\<lambda>q. on_ctx (send_by_key (ev_net env) q key)))"

text \<open>The server asks for the key again; not more than once a second.\<close>

definition server_no_key :: "node_env \<Rightarrow> node_config \<Rightarrow> route_key \<Rightarrow> unit node_action" where
  "server_no_key env cfg key n = (case nd_rsa n of
       None \<Rightarrow> (Ok (), n)
     | Some rsa \<Rightarrow> sbind (draw (ev_now env)) (\<lambda>now n.
         if now - nd_up_key_time n < NANOS then (Ok (), n)
         else sbind (draw (ev_now env)) (\<lambda>now'. sbind (upd_node (\<lambda>n. n\<lparr>nd_up_key_time := now'\<rparr>)) (\<lambda>_.
           case cipher_key (nc_server_cipher cfg) of
             Some k \<Rightarrow> send_secret_handshake env cfg rsa k key
           | None \<Rightarrow> sret ())) n) n)"

definition server_register :: "node_env \<Rightarrow> node_config \<Rightarrow> current_device_info \<Rightarrow> route_key \<Rightarrow> unit node_action" where
  "server_register env cfg dev key =
     (if cs_online (cd_status dev) then sret ()
      else sbind (upd_ctx (set_default_route_key key)) (\<lambda>_.
        let b = nc_base cfg; ip = (case bi_ip b of None \<Rightarrow> Some (cd_virtual_ip dev) | Some ip \<Rightarrow> Some ip) in
        sbind (draw (ev_random env)) (\<lambda>w.
        sbind (slift (registration_request_packet (ev_crypto env) (ev_proto env) w (nc_server_cipher cfg) (bi_token b)
          (bi_device_id b) (bi_name b) ip False False (bi_client_secret_hash b))) (\<lambda>q.
          on_ctx (send_default (ev_net env) q (cd_connect_server dev))))))"

definition server_handshake :: "node_env \<Rightarrow> node_config \<Rightarrow> current_device_info \<Rightarrow> net_packet \<Rightarrow> route_key \<Rightarrow> unit node_action" where
  "server_handshake env cfg dev p key =
     sbind (slift (obind (np_payload p) (\<lambda>b. or_error ''HandshakeResponse'' (pr_parse_handshake_response (ev_proto env) b))))
       (\<lambda>response. sbind (upd_ctx (set_default_route_key key)) (\<lambda>_ n. case cipher_key (nc_server_cipher cfg) of
           Some k \<Rightarrow> (case nd_rsa n of
               Some rsa \<Rightarrow>
                 if rs_finger rsa = hr_key_finger response then send_secret_handshake env cfg rsa k key n else (Ok (), n)
             | None \<Rightarrow> sbind (slift (rsa_cipher_new (ev_rsa env) (hr_public_key response))) (\<lambda>rsa.
                 if rs_finger rsa \<noteq> hr_key_finger response then sret ()
                 else let info = handshake_info_new (rs_public_key rsa) (hr_key_finger response) (hr_version response) in
                   sbind (tell (HostHandshake info)) (\<lambda>_.
                     if ev_handshake env info then
                       sbind (send_secret_handshake env cfg rsa k key) (\<lambda>_. upd_node (\<lambda>n. n\<lparr>nd_rsa := Some rsa\<rparr>))
                     else sret ())) n)
         | None \<Rightarrow>
             (let n = (case rsa_cipher_new (ev_rsa env) (hr_public_key response) of
                     Ok rsa \<Rightarrow> n\<lparr>nd_rsa := Some rsa\<rparr> | _ \<Rightarrow> n);
                  info = handshake_info_new_no_secret (hr_version response)
              in sbind (tell (HostHandshake info)) (\<lambda>_.
                   if ev_handshake env info then server_register env cfg dev key else sret ()) n)))"

section \<open>Service packets\<close>

fun insert_device :: "ipv4_addr \<Rightarrow> peer_device_info \<Rightarrow> (ipv4_addr \<times> peer_device_info) list \<Rightarrow>
    (ipv4_addr \<times> peer_device_info) list" where
  "insert_device ip d [] = [(ip, d)]"
| "insert_device ip d ((a, e) # m) = (if a = ip then (ip, d) # m else (a, e) # insert_device ip d m)"

definition set_device_info_list :: "device_message list \<Rightarrow> u16 \<Rightarrow> unit node_action" where
  "set_device_info_list infos epoch =
     (let ip_list = map (\<lambda>m. peer_device_info_new (dm_virtual_ip m) (dm_name m) (ucast (dm_device_status m))
            (dm_client_secret m) (dm_client_secret_hash m) (dm_wireguard m)) infos
      in sbind (upd_node (\<lambda>n. n\<lparr>nd_epoch := epoch,
             nd_devices := fold (\<lambda>d. insert_device (pd_virtual_ip d) d) ip_list []\<rparr>)) (\<lambda>_.
         tell (HostPeers (map (\<lambda>d. peer_client_info_new (pd_virtual_ip d) (pd_name d) (pd_status d)
           (pd_client_secret d)) ip_list))))"

text \<open>A new address: the old interface is stopped, a new one created and started.\<close>

definition create_tun :: "node_env \<Rightarrow> node_config \<Rightarrow> device_config \<Rightarrow> unit node_action" where
  "create_tun env cfg config = sbind (tell TunStop) (\<lambda>_. sbind (tell (TunCreate config)) (\<lambda>_.
     sbind (draw (\<lambda>k. ev_create_device env k config)) (\<lambda>answer. case answer of
         Inl name \<Rightarrow> sbind (tell (HostTun name)) (\<lambda>_. sbind (tell (TunStart (bi_allow_wire_guard (nc_base cfg)))) (\<lambda>_.
           sbind (draw (ev_tun_start env)) slift))
       | Inr e \<Rightarrow> tell (HostError e))))"

definition server_registered :: "node_env \<Rightarrow> node_config \<Rightarrow> current_device_info \<Rightarrow> registration_response \<Rightarrow> route_key \<Rightarrow>
    unit node_action" where
  "server_registered env cfg old r key =
     (let virtual_ip = rr_virtual_ip r; virtual_netmask = rr_virtual_netmask r; virtual_gateway = rr_virtual_gateway r;
          virtual_network = rr_virtual_ip r AND rr_virtual_netmask r; public_port = ucast (rr_public_port r);
          info = register_info_new virtual_ip virtual_netmask virtual_gateway
      in sbind (tell (HostRegister info)) (\<lambda>_.
         if \<not> ev_register env info then sret ()
         else sbind (add_route_if_absent env virtual_gateway (route_from_default_rt key 1)) (\<lambda>_.
           sbind (upd_node (\<lambda>n. n\<lparr>nd_nat := snd (nt_update_addr (rk_index key) (rr_public_ip r) public_port (nd_nat n))\<rparr>)) (\<lambda>_.
           sbind (swhen (is_tcp (rk_protocol key)) (upd_node (\<lambda>n. n\<lparr>nd_nat := nt_update_tcp_port public_port (nd_nat n)\<rparr>))) (\<lambda>_.
           sbind (upd_node (\<lambda>n. n\<lparr>nd_current := (current_device_update virtual_ip virtual_netmask virtual_gateway
             (nd_current n))\<lparr>cd_status := Connected\<rparr>\<rparr>)) (\<lambda>_.
           sbind (swhen (cd_virtual_ip old \<noteq> virtual_ip \<or> cd_virtual_gateway old \<noteq> virtual_gateway \<or>
               cd_virtual_netmask old \<noteq> virtual_netmask)
             (create_tun env cfg (device_config_new (bi_device_name (nc_base cfg)) (bi_mtu (nc_base cfg)) virtual_ip virtual_netmask
               virtual_gateway virtual_network (ext_to_route (nc_ip_route cfg))))) (\<lambda>_.
           sbind (set_device_info_list (rr_device_info_list r) (ucast (rr_epoch r))) (\<lambda>_.
             swhen (cs_offline (cd_status old)) (\<lambda>n.
               sbind (run_hook cfg ''up'' key (hook_port key (nd_ctx n)) virtual_ip ''registered'') (\<lambda>_. tell HostSuccess) n)))))))))"

definition server_service :: "node_env \<Rightarrow> node_config \<Rightarrow> current_device_info \<Rightarrow> net_packet \<Rightarrow> route_key \<Rightarrow> unit node_action" where
  "server_service env cfg dev p key = sbind (slift (np_transport_protocol p)) (\<lambda>t. case service_protocol_from t of
       RegistrationResponse \<Rightarrow>
         sbind (slift (obind (np_payload p) (\<lambda>b. or_io_error OtherKind (pr_parse_registration_response (ev_proto env) b))))
           (\<lambda>r. server_registered env cfg dev r key)
     | PushDeviceList \<Rightarrow>
         sbind (slift (obind (np_payload p) (\<lambda>b. or_io_error OtherKind (pr_parse_device_list (ev_proto env) b))))
           (\<lambda>r. set_device_info_list (dl_device_info_list r) (ucast (dl_epoch r)))
     | SecretHandshakeResponse \<Rightarrow> server_register env cfg dev key
     | _ \<Rightarrow> sret ())"

section \<open>Errors\<close>

text \<open>\<open>String::from_utf8\<close>\<close>

definition cont :: "u8 \<Rightarrow> bool" where
  "cont b \<longleftrightarrow> b AND 0xC0 = 0x80"

fun utf8_valid :: "bytes \<Rightarrow> bool" where
  "utf8_valid [] = True"
| "utf8_valid (a # bs) =
     (if a < 0x80 then utf8_valid bs
      else if 0xC2 \<le> a \<and> a \<le> 0xDF then (case bs of b # bs \<Rightarrow> cont b \<and> utf8_valid bs | _ \<Rightarrow> False)
      else if 0xE0 \<le> a \<and> a \<le> 0xEF then (case bs of
          b # c # bs \<Rightarrow> cont b \<and> cont c \<and> (a = 0xE0 \<longrightarrow> 0xA0 \<le> b) \<and> (a = 0xED \<longrightarrow> b \<le> 0x9F) \<and> utf8_valid bs
        | _ \<Rightarrow> False)
      else if 0xF0 \<le> a \<and> a \<le> 0xF4 then (case bs of
          b # c # d # bs \<Rightarrow> cont b \<and> cont c \<and> cont d \<and> (a = 0xF0 \<longrightarrow> 0x90 \<le> b) \<and> (a = 0xF4 \<longrightarrow> b \<le> 0x8F) \<and>
            utf8_valid bs
        | _ \<Rightarrow> False)
      else False)"

definition error_message :: "bytes \<Rightarrow> bytes outcome" where
  "error_message b = (if utf8_valid b then Ok b else Err (IoError OtherKind))"

definition node_handshake_send :: "node_env \<Rightarrow> node_config \<Rightarrow> socket_addr \<Rightarrow> unit node_action" where
  "node_handshake_send env cfg addr = sbind (draw (ev_now env)) (\<lambda>now. sbind (draw (ev_now env)) (\<lambda>now' n.
     case handshake_send (ev_net env) (ev_proto env) (nd_rsa n) (bi_server_secret (nc_base cfg)) addr now now'
         (nd_handshake_time n, nd_ctx n) of
       (r, sent, c) \<Rightarrow> (r, n\<lparr>nd_handshake_time := sent, nd_ctx := c\<rparr>)))"

definition server_error :: "node_env \<Rightarrow> node_config \<Rightarrow> current_device_info \<Rightarrow> net_packet \<Rightarrow> route_key \<Rightarrow> unit node_action" where
  "server_error env cfg dev p key =
     sbind (slift (obind (np_transport_protocol p) (\<lambda>t. obind (np_payload p) (in_error_new t)))) (\<lambda>e. case e of
         InTokenError \<Rightarrow> tell (HostError (error_info_new EtTokenError))
       | InDisconnect \<Rightarrow>
           sbind (upd_node (\<lambda>n. n\<lparr>nd_current := (nd_current n)\<lparr>cd_status := Connecting\<rparr>\<rparr>)) (\<lambda>_.
           sbind (tell (HostError (error_info_new EtDisconnect))) (\<lambda>_.
           sbind (\<lambda>n. run_hook cfg ''down'' key (hook_port key (nd_ctx n)) (cd_virtual_ip dev) ''server_disconnect'' n) (\<lambda>_.
           sbind (upd_node (\<lambda>n. n\<lparr>nd_epoch := 0\<rparr>)) (\<lambda>_. node_handshake_send env cfg (rk_addr key)))))
       | InAddressExhausted \<Rightarrow> tell (HostError (error_info_new EtAddressExhausted))
       | InOtherError b \<Rightarrow> sbind (slift (error_message b)) (\<lambda>msg. tell (HostError (error_info_new_msg EtUnknown msg)))
       | InIpAlreadyExists \<Rightarrow> tell (HostError (error_info_new EtIpAlreadyExists))
       | InInvalidIp \<Rightarrow> tell (HostError (error_info_new EtInvalidIp))
       | InNoKey \<Rightarrow> sret ())"

section \<open>Control packets\<close>

definition pull_device_list :: "current_device_info \<Rightarrow> net_packet outcome" where
  "pull_device_list dev = obind (np_new_encrypt (replicate (12 + ENCRYPTION_RESERVED) 0)) (oseq [
     np_set_source (cd_virtual_ip dev), np_set_destination (cd_virtual_gateway dev), np_set_default_version,
     np_set_gateway_flag True, np_first_set_ttl MAX_TTL, np_set_protocol Service,
     np_set_transport_protocol (service_protocol_into PullDeviceList)])"

definition server_control :: "node_env \<Rightarrow> node_config \<Rightarrow> current_device_info \<Rightarrow> net_packet \<Rightarrow> route_key \<Rightarrow> unit node_action" where
  "server_control env cfg dev p key =
     sbind (slift (obind (np_transport_protocol p) (\<lambda>t. obind (np_payload p) (control_new t)))) (\<lambda>control. case control of
         PongPacket pong \<Rightarrow>
           sbind (draw (ev_unix env)) (\<lambda>clock. let current_time = ucast (now_time clock) :: u16 in
           sbind (slift (ping_time pong)) (\<lambda>time.
             if current_time < time then sret ()
             else sbind (slift (np_source_ttl p)) (\<lambda>source_ttl. sbind (slift (np_ttl p)) (\<lambda>ttl.
               let metric = source_ttl - ttl + 1 in
               sbind (slift (np_source p)) (\<lambda>source.
               sbind (add_route env source (route_from key metric (uint (current_time - time)))) (\<lambda>_.
               sbind (slift (ping_epoch pong)) (\<lambda>epoch n.
                 if epoch = nd_epoch n then (Ok (), n)
                 else sbind (slift (pull_device_list dev)) (\<lambda>q.
                   sbind (node_encrypt env (nc_server_cipher cfg) q) (\<lambda>q.
                     on_ctx (send_default (ev_net env) q (cd_connect_server dev)))) n)))))))
       | AddrResponse b \<Rightarrow>
           sbind (slift (obind (addr_ipv4 b) (\<lambda>ip. omap (Pair ip) (addr_port b)))) (\<lambda>(ip, port).
             upd_node (\<lambda>n. n\<lparr>nd_nat := snd (nt_update_addr (rk_index key) ip port (nd_nat n))\<rparr>))
       | _ \<Rightarrow> sret ())"

section \<open>The handler\<close>

text \<open>Of the server's IP packets only answers to a ping of the gateway are taken, and, when WireGuard is
  allowed, those of WireGuard peers.\<close>

definition server_ip_turn :: "node_env \<Rightarrow> node_config \<Rightarrow> current_device_info \<Rightarrow> net_packet \<Rightarrow> unit node_action" where
  "server_ip_turn env cfg dev p = sbind (slift (np_transport_protocol p)) (\<lambda>t. case ip_turn_protocol_from t of
       TurnIpv4 \<Rightarrow>
         sbind (slift (obind (np_payload p) ipv4_new)) (\<lambda>ipv4. sbind (slift (ipv4_protocol ipv4)) (\<lambda>proto.
           if proto \<noteq> IpIcmp then sret ()
           else sbind (slift (ipv4_destination_ip ipv4)) (\<lambda>dest_ip.
             if dest_ip \<noteq> cd_virtual_ip dev then sret ()
             else sbind (slift (obind (obind (ipv4_payload ipv4) icmp_new) icmp_get_kind)) (\<lambda>kind.
               if kind = IcEchoReply then device_write env ipv4 else sret ()))))
     | TurnWGIpv4 \<Rightarrow>
         if bi_allow_wire_guard (nc_base cfg) then sbind (slift (np_payload p)) (device_write env) else sret ()
     | _ \<Rightarrow> sret ())"

text \<open>A source that is not the server is only logged.\<close>

definition server_handle :: "node_env \<Rightarrow> node_config \<Rightarrow> current_device_info \<Rightarrow> net_packet \<Rightarrow> route_key \<Rightarrow> unit node_action" where
  "server_handle env cfg dev p key =
     sbind (slift (np_source p)) (\<lambda>source. sbind (update_read_time env source key) (\<lambda>_.
     sbind (slift (np_protocol p)) (\<lambda>proto. sbind (slift (np_transport_protocol p)) (\<lambda>t.
       if proto = ErrorP \<and> t = error_protocol_into NoKey then server_no_key env cfg key
       else if proto = Service \<and> t = service_protocol_into HandshakeResponse then server_handshake env cfg dev p key
       else sbind (node_decrypt env (nc_server_cipher cfg) p) (\<lambda>p.
         sbind (slift (np_protocol p)) (\<lambda>proto. case proto of
             Service \<Rightarrow> server_service env cfg dev p key
           | ErrorP \<Rightarrow> server_error env cfg dev p key
           | Control \<Rightarrow> server_control env cfg dev p key
           | IpTurn \<Rightarrow> server_ip_turn env cfg dev p
           | _ \<Rightarrow> sret ()))))))"

end
