(* ===== verification/Turn_Handler.thy ===== *)
theory Turn_Handler
  imports Tunnel
begin

text \<open>
  \<open>vnt/src/handle/recv_data/turn.rs\<close>: a packet for another node is forwarded over a route of that
  node, unless the node does not relay, the time to live is used up, the packet is the server's, or the
  route leads back to the address it came from.
\<close>

definition turn_handle :: "node_env \<Rightarrow> node_config \<Rightarrow> net_packet \<Rightarrow> route_key \<Rightarrow> unit node_action" where
  "turn_handle env cfg p key =
     (if nc_disable_relay cfg then sret ()
      else sbind (slift (np_incr_ttl p)) (\<lambda>(ttl, p).
        if 0 < ttl then sbind (slift (np_is_gateway p)) (\<lambda>gateway.
          if gateway then sret ()
          else sbind (slift (np_destination p)) (\<lambda>destination n.
            (case rt_route_one destination (cc_route_table (nd_ctx n)) of
               Some route \<Rightarrow>
                 if rt_addr route = rk_addr key then (Ok (), n)
                 else if rt_metric route \<le> ttl then on_ctx (send_by_key (ev_net env) p (route_key_of route)) n
                 else (Ok (), n)
             | None \<Rightarrow> (Ok (), n))))
        else sret ()))"

section \<open>One relay\<close>

text \<open>What a relay makes of a packet: its time to live one lower and not used up.\<close>

definition forwarded :: "net_packet \<Rightarrow> net_packet \<Rightarrow> bool" where
  "forwarded p q \<longleftrightarrow> np_wf q \<and> nh_ttl (np_view q) = nh_ttl (np_view p) - 1 \<and> 0 < nh_ttl (np_view q) \<and>
     np_view q = (np_view p)\<lparr>nh_ttl := nh_ttl (np_view p) - 1\<rparr>"

lemma send_by_key_log:
  assumes "np_wf p" and "on_ctx (send_by_key env p key) n = (res, n')"
  shows "res \<noteq> Panic" "\<exists>l. cc_log (nd_ctx n') = cc_log (nd_ctx n) @ l \<and> length l \<le> 1 \<and>
    (\<forall>x \<in> set l. fst x = key_tx key (wire_bytes p))" "same_node (nd_ctx n) (nd_ctx n')"
proof -
  obtain r d where k: "send_by_key env p key (nd_ctx n) = (r, d)" by fastforce
  from send_by_key_once [OF assms(1), where env = env and key = key and c = "nd_ctx n"] k assms(2)
  show "res \<noteq> Panic" "\<exists>l. cc_log (nd_ctx n') = cc_log (nd_ctx n) @ l \<and> length l \<le> 1 \<and>
    (\<forall>x \<in> set l. fst x = key_tx key (wire_bytes p))" "same_node (nd_ctx n) (nd_ctx n')"
    by (auto simp: sends_once_def on_ctx_def log_added_def)
qed

lemma relay_facts:
  assumes "np_wf p" and "nh_ttl (np_view p) \<noteq> 0" and "turn_handle env cfg p key n = (res, n')"
  shows "res \<noteq> Panic \<and> same_node (nd_ctx n) (nd_ctx n') \<and> (\<exists>l. cc_log (nd_ctx n') = cc_log (nd_ctx n) @ l \<and>
    length l \<le> 1 \<and> (\<forall>x \<in> set l. \<exists>q route. \<not> nc_disable_relay cfg \<and> \<not> nh_gateway (np_view p) \<and> forwarded p q \<and>
      rt_route_one (nh_destination (np_view p)) (cc_route_table (nd_ctx n)) = Some route \<and>
      rt_addr route \<noteq> rk_addr key \<and> rt_metric route \<le> nh_ttl (np_view q) \<and>
      fst x = key_tx (route_key_of route) (wire_bytes q)))"
proof -
  obtain q where q: "np_incr_ttl p = Ok (nh_ttl (np_view p) - 1, q)" "np_wf q"
    "np_view q = (np_view p)\<lparr>nh_ttl := (nh_ttl (np_view p) - 1) AND 0x0F\<rparr>"
    "nh_ttl (np_view q) = nh_ttl (np_view p) - 1"
    using np_incr_ttl_facts [OF assms(1)] assms(2) by blast
  have view: "np_view q = (np_view p)\<lparr>nh_ttl := nh_ttl (np_view p) - 1\<rparr>"
    using q(4) unfolding q(3) by simp
  let ?quiet = "(Ok () :: unit outcome, n)"
  define route where "route = rt_route_one (nh_destination (np_view p)) (cc_route_table (nd_ctx n))"
  define go where "go \<longleftrightarrow> \<not> nc_disable_relay cfg \<and> 0 < nh_ttl (np_view q) \<and> \<not> nh_gateway (np_view p) \<and>
    (\<exists>r. route = Some r \<and> rt_addr r \<noteq> rk_addr key \<and> rt_metric r \<le> nh_ttl (np_view q))"
  have eq: "turn_handle env cfg p key n =
      (if go then on_ctx (send_by_key (ev_net env) q (route_key_of (the route))) n else ?quiet)"
    using q(1) by (auto simp: turn_handle_def go_def route_def np_getters_view [OF q(2)] view q(4) split: option.split)
  show ?thesis
  proof (cases go)
    case False
    then show ?thesis using eq assms(3) by auto
  next
    case True
    then obtain r where r: "route = Some r" "rt_addr r \<noteq> rk_addr key" "rt_metric r \<le> nh_ttl (np_view q)"
      and g: "\<not> nc_disable_relay cfg" "0 < nh_ttl (np_view q)" "\<not> nh_gateway (np_view p)"
      by (auto simp: go_def)
    have "on_ctx (send_by_key (ev_net env) q (route_key_of r)) n = (res, n')" using eq True assms(3) r(1) by simp
    note s = send_by_key_log [OF q(2) this]
    have "forwarded p q" using q(2,4) view g(2) by (simp add: forwarded_def)
    with s r g show ?thesis unfolding route_def by blast
  qed
qed

text \<open>C39: A relay forwards a packet with a time to live at most once, over the first route of the packet's
  destination, never back to the address it came from, never a packet of the server, never farther
  than its time to live reaches, and not at all when relaying is disabled. The forwarded packet is
  the received one with its time to live one lower and still positive; relaying never panics.
\<close>

theorem relay_spec:
  assumes "np_wf p" and "nh_ttl (np_view p) \<noteq> 0" and "turn_handle env cfg p key n = (res, n')"
  shows "res \<noteq> Panic \<and> same_node (nd_ctx n) (nd_ctx n') \<and> (\<exists>l. cc_log (nd_ctx n') = cc_log (nd_ctx n) @ l \<and>
    length l \<le> 1 \<and> (\<forall>x \<in> set l. \<exists>q route. \<not> nc_disable_relay cfg \<and> \<not> nh_gateway (np_view p) \<and> forwarded p q \<and>
      rt_route_one (nh_destination (np_view p)) (cc_route_table (nd_ctx n)) = Some route \<and>
      rt_addr route \<noteq> rk_addr key \<and> rt_metric route \<le> nh_ttl (np_view q) \<and>
      fst x = key_tx (route_key_of route) (wire_bytes q)))"
  using assms by (rule relay_facts)

lemma np_sample_wf: "np_wf np_sample" "nh_ttl (np_view np_sample) = 5"
  by (simp_all add: np_sample_def np_wf_def np_view_def)

lemma relay_spec_witness:
  "fst (turn_handle sample_node_env sample_config np_sample (RouteKey UDP 0 sample_addr)
     sample_node) \<noteq> Panic"
proof -
  obtain res n' where r: "turn_handle sample_node_env sample_config np_sample
      (RouteKey UDP 0 sample_addr) sample_node = (res, n')" by fastforce
  have "nh_ttl (np_view np_sample) \<noteq> 0" by (simp add: np_sample_wf)
  from relay_spec [OF np_sample_wf(1) this r] r show ?thesis by simp
qed

section \<open>A chain of relays\<close>

text \<open>Some node that received the octets \<open>b\<close> transmits \<open>b'\<close> as a relay; \<open>handle0\<close> has dropped packets
  without a time to live before.\<close>

definition relays_to :: "bytes \<Rightarrow> bytes \<Rightarrow> bool" where
  "relays_to b b' \<longleftrightarrow> (\<exists>env cfg p key n res n'. np_new b = Ok p \<and> nh_ttl (np_view p) \<noteq> 0 \<and>
     turn_handle env cfg p key n = (res, n') \<and>
     b' \<in> (\<lambda>x. tx_bytes (fst x)) ` set (log_added (nd_ctx n) (nd_ctx n')))"

definition wire_ttl :: "bytes \<Rightarrow> nat" where
  "wire_ttl b = unat (b ! 3 AND 0x0F)"

lemma relays_to_ttl:
  assumes "relays_to b b'"
  shows "wire_ttl b = Suc (wire_ttl b')" and "0 < wire_ttl b'"
proof -
  obtain env cfg p key n res n' x where p: "np_new b = Ok p" "nh_ttl (np_view p) \<noteq> 0"
    "turn_handle env cfg p key n = (res, n')" "x \<in> set (log_added (nd_ctx n) (nd_ctx n'))" "b' = tx_bytes (fst x)"
    using assms unfolding relays_to_def by blast
  have wf: "np_wf p" using p(1) np_new0_wf by (simp add: np_new_def)
  have b: "wire_ttl b = unat (nh_ttl (np_view p))"
    using p(1) by (auto simp: np_new_def np_new0_def wire_ttl_def np_view_fields split: if_splits)
  from relay_facts [OF wf p(2,3)] p(4,5) obtain q route where q: "forwarded p q" "b' = tx_bytes (key_tx (route_key_of route) (wire_bytes q))"
    by (simp add: log_added_def) (elim conjE exE, simp, metis)
  have "wire_ttl b' = unat (nh_ttl (np_view q))"
    using q np_wf_len [of q] by (simp add: forwarded_def tx_bytes_cases(1) wire_bytes_def wire_ttl_def np_view_fields)
  moreover from q(1) p(2) have "unat (nh_ttl (np_view q)) = unat (nh_ttl (np_view p)) - 1" "0 < unat (nh_ttl (np_view q))"
    unfolding forwarded_def by (metis unat_minus_one, metis unat_gt_0 word_gt_0)
  ultimately show "wire_ttl b = Suc (wire_ttl b')" "0 < wire_ttl b'" using b by simp_all
qed

text \<open>C40: Relaying ends: whatever routes the nodes have, loops included, a packet that a
  node sends is forwarded fewer times than its time to live, at most 14 times, and there is no infinite chain.
\<close>

theorem relay_terminates:
  "wfp (\<lambda>b' b. relays_to b b') \<and> (\<forall>k b b'. (relays_to ^^ k) b b' \<longrightarrow> k + wire_ttl b' = wire_ttl b \<and> k \<le> 14)"
proof
  show "wfp (\<lambda>b' b. relays_to b b')"
    by (rule wfp_if_convertible_to_nat [where f = wire_ttl]) (use relays_to_ttl in force)
next
  show "\<forall>k b b'. (relays_to ^^ k) b b' \<longrightarrow> k + wire_ttl b' = wire_ttl b \<and> k \<le> 14"
  proof (intro allI impI)
    fix k b b' assume r: "(relays_to ^^ k) b b'"
    have sum: "(relays_to ^^ k) b b' \<Longrightarrow> k + wire_ttl b' = wire_ttl b" for k b b'
    proof (induction k arbitrary: b')
      case (Suc k)
      then obtain c where "(relays_to ^^ k) b c" "relays_to c b'" by auto
      then show ?case using Suc.IH relays_to_ttl(1) by fastforce
    qed simp
    have "b ! 3 AND 0x0F \<le> 15" by (rule word_and_le1)
    then have "wire_ttl b \<le> 15" by (simp add: wire_ttl_def word_le_nat_alt)
    moreover have "k = 0 \<or> 0 < wire_ttl b'"
    proof (cases k)
      case (Suc j)
      then obtain c where "relays_to c b'" using r by auto
      then show ?thesis using relays_to_ttl(2) by simp
    qed simp
    ultimately show "k + wire_ttl b' = wire_ttl b \<and> k \<le> 14" using sum [OF r] by auto
  qed
qed

text \<open>A node that knows a direct route to 10.26.0.3 relays the sample packet.\<close>

definition relay_node :: node where
  "relay_node = sample_node\<lparr>nd_ctx := sample_context\<lparr>cc_up_meter := None, cc_route_table := sample_table\<lparr>rtb_table :=
     [0x0A1A0003 \<mapsto> (0, [(route_from (RouteKey UDP 0 (SockV4 7 7)) 1 5, 0)])]\<rparr>\<rparr>\<rparr>"

definition relay_wire :: bytes where
  "relay_wire = [0x92, 3, 1, 0x65, 10, 26, 0, 2, 10, 26, 0, 3, 0, 1, 0, 2]"

lemma relay_sample: "relays_to relay_wire (relay_wire[3 := 0x64])"
proof -
  define p where "p = \<lparr>np_data_len = 16, np_buffer = relay_wire\<rparr>"
  define q where "q = p\<lparr>np_buffer := relay_wire[3 := 0x64]\<rparr>"
  have q: "np_incr_ttl p = Ok (4, q)"
    by (simp add: p_def q_def relay_wire_def np_incr_ttl_def np_ttl_def byte_at_def np_set_ttl_def np_on_buffer_def
        modify_byte_def put_byte_def MAX_TTL_def MAX_SOURCE_def)
  have wf: "np_wf q" "wire_bytes q = relay_wire[3 := 0x64]"
    by (simp_all add: q_def p_def np_wf_def relay_wire_def wire_bytes_def)
  have "nh_gateway (np_view q) = False" "nh_destination (np_view q) = 0x0A1A0003"
    by (simp_all add: np_view_def q_def p_def relay_wire_def u32_be_def)
  then have get: "np_is_gateway q = Ok False" "np_destination q = Ok 0x0A1A0003"
    by (simp_all only: np_getters_view [OF wf(1)])
  have "turn_handle sample_node_env sample_config p (RouteKey UDP 0 (SockV4 8 8)) relay_node =
      on_ctx (send_by_key sample_env q (RouteKey UDP 0 (SockV4 7 7))) relay_node"
    using q get by (simp add: turn_handle_def sample_config_def relay_node_def rt_route_one_def route_from_def
        route_key_of_def sample_node_env_def)
  also have "\<dots> = (Err (IoError WouldBlock), relay_node\<lparr>nd_ctx := (nd_ctx relay_node)\<lparr>cc_log :=
        [(UdpSend 0 (SockV4 7 7) (relay_wire[3 := 0x64]), Some WouldBlock)]\<rparr>\<rparr>)"
    by (simp add: on_ctx_def send_by_key_eq [OF wf(1)] wf(2) key_open_def key_answer_def key_tx_def relay_node_def
        sample_context_def sample_env_def main_len_def)
  finally have "turn_handle sample_node_env sample_config p (RouteKey UDP 0 (SockV4 8 8)) relay_node = \<dots>" .
  moreover have "np_new relay_wire = Ok p" by (simp add: p_def relay_wire_def np_new_def np_new0_def)
  moreover have "nh_ttl (np_view p) \<noteq> 0" by (simp add: p_def relay_wire_def np_view_fields)
  ultimately show ?thesis unfolding relays_to_def
    by (intro exI conjI) (assumption | simp add: log_added_def relay_node_def sample_context_def)+
qed

lemma relay_terminates_witness:
  "(1::nat) + wire_ttl (relay_wire[3 := 0x64]) = wire_ttl relay_wire"
proof -
  have "(relays_to ^^ 1) relay_wire (relay_wire[3 := 0x64])" using relay_sample by (auto simp: OO_def)
  with conjunct2 [OF relay_terminates] show ?thesis by blast
qed

end
