(* ===== verification/Recv_Dispatch.thy ===== *)
theory Recv_Dispatch
  imports Server_Handler Turn_Handler
begin

text \<open>
  \<open>vnt/src/handle/recv_data/mod.rs\<close>: what a node does with a datagram or a frame of a stream. Answers of
  STUN servers go to the NAT test; a packet whose time to live is used up, or exceeds the one it
  started with, is dropped; the rest is for this node (from the server or from another node) or is
  relayed. An error is logged and otherwise ignored.
\<close>

definition is_for_me :: "ipv4_addr \<Rightarrow> current_device_info \<Rightarrow> bool" where
  "is_for_me dest dev \<longleftrightarrow> dest = cd_virtual_ip dev \<or> is_broadcast dest \<or> is_multicast dest \<or> dest = SELF_IP \<or>
     is_unspecified dest \<or> dest = cd_broadcast_ip dev"

definition add_down_traffic :: "node_env \<Rightarrow> net_packet \<Rightarrow> unit node_action" where
  "add_down_traffic env p n = (case cc_down_meter (nd_ctx n) of
       None \<Rightarrow> (Ok (), n)
     | Some m \<Rightarrow> sbind (slift (np_source p)) (\<lambda>source. sbind (draw (ev_now env)) (\<lambda>start. sbind (draw (ev_now env)) (\<lambda>now.
         sbind (draw (ev_now env)) (\<lambda>now'. upd_ctx (\<lambda>c.
           c\<lparr>cc_down_meter := Some (mm_add_traffic source (of_nat (np_data_len p)) start now now' m)\<rparr>))))) n)"

definition recv_handle0 :: "node_env \<Rightarrow> node_config \<Rightarrow> bytes \<Rightarrow> bytes \<Rightarrow> route_key \<Rightarrow> unit node_action" where
  "recv_handle0 env cfg buf ext key = sbind (slift (np_new buf)) (\<lambda>p.
     sbind (slift (np_ttl p)) (\<lambda>ttl. sbind (slift (np_source_ttl p)) (\<lambda>source_ttl.
       if ttl = 0 \<or> source_ttl < ttl then sret ()
       else sbind (slift (np_destination p)) (\<lambda>dest n. let dev = nd_current n in
         (if is_for_me dest dev then
            sbind (add_down_traffic env p) (\<lambda>_. sbind (slift (np_is_gateway p)) (\<lambda>gateway.
              if gateway then server_handle env cfg dev p key
              else client_handle env cfg dev p (np_unchecked ext) key))
          else turn_handle env cfg p key) n))))"

definition on_nat :: "(nat_test, 'a) action \<Rightarrow> 'a node_action" where
  "on_nat m n = (case m (nd_nat n) of (r, t) \<Rightarrow> (r, n\<lparr>nd_nat := t\<rparr>))"

definition recv_handle :: "node_env \<Rightarrow> node_config \<Rightarrow> bytes \<Rightarrow> bytes \<Rightarrow> route_key \<Rightarrow> unit node_action" where
  "recv_handle env cfg buf ext key =
     (if length buf < HEAD_LEN then sret ()
      else let handle = (\<lambda>n. case recv_handle0 env cfg buf ext key n of
             (Ok _, n) \<Rightarrow> (Ok (), n) | (Err _, n) \<Rightarrow> (Ok (), n) | (Panic, n) \<Rightarrow> (Panic, n))
        in if is_udp (rk_protocol key) then (\<lambda>n.
             case on_nat (nt_recv_data (ev_stun_resolve env) (ev_stun_parse env) (rk_index key) (rk_addr key) buf) n of
               (Ok True, n) \<Rightarrow> (Ok (), n) | (Ok False, n) \<Rightarrow> handle n | (Err _, n) \<Rightarrow> handle n | (Panic, n) \<Rightarrow> (Panic, n))
           else handle)"

end
