(* ===== verification/Pings.thy ===== *)
theory Pings
  imports Recv_Dispatch
begin

text \<open>
  Echo requests that reach a node: what is answered, and the requests the handler does not survive.
\<close>

section \<open>The answer\<close>

text \<open>\<open>b'\<close> answers \<open>b\<close>: an echo reply with the addresses turned round, valid checksums and the request's code,
  identifier, sequence number and data.\<close>

definition echo_answer :: "bool \<Rightarrow> ipv4_addr \<Rightarrow> ipv4_addr \<Rightarrow> bytes \<Rightarrow> bytes \<Rightarrow> bool" where
  "echo_answer keep source destination b b' \<longleftrightarrow> length b' = length b \<and> ipv4_source_ip b' = Ok destination \<and>
     ipv4_destination_ip b' = Ok source \<and> ipv4_protocol b' = Ok IpIcmp \<and> ipv4_is_valid keep b' = Ok True \<and>
     (\<exists>x x'. ipv4_payload b = Ok x \<and> ipv4_payload b' = Ok x' \<and> icmp_get_kind x' = Ok IcEchoReply \<and>
       icmp_is_valid keep x' = Ok True \<and> take 1 (drop 1 x') = take 1 (drop 1 x) \<and> drop 4 x' = drop 4 x)"

text \<open>An echo request for \<open>destination\<close>.\<close>

definition echo_request :: "ipv4_addr \<Rightarrow> bytes \<Rightarrow> bool" where
  "echo_request destination b \<longleftrightarrow> ipv4_accepted b \<and> ipv4_protocol b = Ok IpIcmp \<and> ipv4_destination_ip b = Ok destination \<and>
     (\<exists>x. ipv4_payload b = Ok x \<and> 8 \<le> length x \<and> x ! 0 = 8)"

lemma ping_reply_ok:
  assumes "echo_request destination b" and "ipv4_fits b" and "length b < checksum_max"
  shows "\<exists>b'. ping_reply keep source destination b = Ok (Some b') \<and> echo_answer keep source destination b b'"
proof -
  obtain x where x: "ipv4_payload b = Ok x" "8 \<le> length x" "x ! 0 = 8"
    using assms(1) by (auto simp: echo_request_def)
  have r: "ipv4_protocol b = Ok IpIcmp" "ipv4_destination_ip b = Ok destination"
    using assms(1) by (simp_all add: echo_request_def)
  have xd: "x = drop (ipv4_ihl b) b" using x(1) ipv4_payload_fits [OF assms(2)] by simp
  have kind: "icmp_new x = Ok x" "icmp_get_kind x = Ok IcEchoRequest"
    using x by (auto simp: icmp_new_def icmp_get_kind_def byte_at_def icmp_kind_from_def)
  define y where "y = x[0 := 0]"
  have y: "icmp_set_kind IcEchoReply x = Ok y" "8 \<le> length y" "length y < checksum_max" "y ! 0 = 0"
    using x assms(3) by (auto simp: icmp_set_kind_def put_byte_def y_def xd)
  obtain z where z: "icmp_update_checksum keep y = Ok z" "icmp_is_valid keep z = Ok True" "length z = length y"
    "take 2 z = take 2 y" "drop 4 z = drop 4 y"
    using icmp_update_checksum_valid [OF y(2,3), of keep] by blast
  have z0: "z ! 0 = 0" "z ! 1 = x ! 1"
    using z(4) y(2,4) x(2) nth_take [of 0 2 z] nth_take [of 0 2 y] nth_take [of 1 2 z] nth_take [of 1 2 y]
    by (simp_all add: y_def)
  have zl: "length z = length b - ipv4_ihl b" "length z = length x" using z(3) by (simp_all add: y_def xd)
  define b1 where "b1 = take (ipv4_ihl b) b @ z"
  note b1 = ipv4_fits_payload [OF assms(2) zl(1), folded b1_def]
  have m: "ipv4_payload_mut (oseq [icmp_set_kind IcEchoReply, icmp_update_checksum keep]) b = Ok b1"
    using y(1) z(1) by (simp add: ipv4_payload_mut_fits [OF assms(2)] b1_def flip: xd)
  define b2 where "b2 = take 12 b1 @ u32_to_be destination @ drop 16 b1"
  have b2: "ipv4_fits b2" "ipv4_ihl b2 = ipv4_ihl b1" "drop (ipv4_ihl b1) b2 = drop (ipv4_ihl b1) b1"
    "length b2 = length b1" "ipv4_protocol b2 = ipv4_protocol b1" "ipv4_destination_ip b2 = ipv4_destination_ip b1"
    using ipv4_overlay [OF b1(1), of 12 16 "u32_to_be destination"] by (simp_all add: b2_def)
  have s2: "ipv4_set_source_ip destination b1 = Ok b2" using b1(1) by (simp add: ipv4_set_ok b2_def)
  define b3 where "b3 = take 16 b2 @ u32_to_be source @ drop 20 b2"
  have b3: "ipv4_fits b3" "ipv4_ihl b3 = ipv4_ihl b2" "drop (ipv4_ihl b2) b3 = drop (ipv4_ihl b2) b2"
    "length b3 = length b2" "ipv4_protocol b3 = ipv4_protocol b2" "ipv4_source_ip b3 = ipv4_source_ip b2"
    using ipv4_overlay [OF b2(1), of 16 20 "u32_to_be source"] by (simp_all add: b3_def)
  have s3: "ipv4_set_destination_ip source b2 = Ok b3" using b2(1) by (simp add: ipv4_set_ok b3_def)
  obtain c where c: "ipv4_update_checksum keep b3 = Ok (put_u16 10 c b3)" "ipv4_fits (put_u16 10 c b3)"
    "ipv4_is_valid keep (put_u16 10 c b3) = Ok True"
    using ipv4_update_checksum_fits [OF b3(1), of keep] by blast
  define b4 where "b4 = put_u16 10 c b3"
  have b4: "ipv4_fits b4" "ipv4_ihl b4 = ipv4_ihl b3" "drop (ipv4_ihl b3) b4 = drop (ipv4_ihl b3) b3"
    "length b4 = length b3" "ipv4_protocol b4 = ipv4_protocol b3" "ipv4_source_ip b4 = ipv4_source_ip b3"
    "ipv4_destination_ip b4 = ipv4_destination_ip b3"
    using ipv4_overlay [OF b3(1), of 10 12 "u16_to_be c"] by (simp_all add: b4_def put_u16_def)
  have "ping_reply keep source destination b = Ok (Some b4)"
    unfolding ping_reply_def using r x(1) kind s2 s3 c(1) by (simp add: oseq.simps(2) [of "ipv4_payload_mut _"] m b4_def del: oseq.simps(2))
      (simp add: b4_def)
  moreover have "ipv4_source_ip b4 = Ok destination" "ipv4_destination_ip b4 = Ok source"
    using b4(6,7) b3(6) ipv4_src.get_set [OF b1(1) TrueI s2] ipv4_dst.get_set [OF b2(1) TrueI s3] by simp_all
  moreover have "ipv4_payload b4 = Ok z"
    using b4(3) b3(3) b2(3) ipv4_ihl_bounds [OF assms(2)]
    unfolding ipv4_payload_fits [OF b4(1)] b4(2) b3(2) b2(2) b1(2) by (simp add: b1_def)
  moreover have "take 1 (drop 1 z) = take 1 (drop 1 x)" "drop 4 z = drop 4 x"
    using z0 z(5) x(2) zl(2) by (simp_all add: take_Suc_conv_app_nth y_def)
  moreover have "icmp_get_kind z = Ok IcEchoReply"
    using z0 x(2) zl(2) by (auto simp: icmp_get_kind_def byte_at_def icmp_kind_from_def)
  moreover have "length b4 = length b"
    using b4(4) b3(4) b2(4) zl(1) ipv4_ihl_bounds [OF assms(2)] by (simp add: b1_def)
  ultimately show ?thesis
    using z(2) c(3) b4(5) b3(5) b2(5) b1(5) r(1) x(1) unfolding echo_answer_def b4_def by auto
qed

lemma np_sets_payload:
  assumes "np_wf p" and "length b = length (nh_payload (np_view p))"
  shows "np_sets p (np_on_buffer (put_slice 12 (np_data_len p) b)) (nh_payload_update (\<lambda>_. b))"
proof -
  have l: "12 \<le> np_data_len p" "np_data_len p \<le> length (np_buffer p)" "length b = np_data_len p - 12"
    using np_wf_len [OF assms(1)] assms(2) by (auto simp: np_view_def Let_def)
  have "put_slice 12 (np_data_len p) b (np_buffer p) =
      Ok (take 12 (np_buffer p) @ b @ drop (np_data_len p) (np_buffer p))"
    using l by (simp add: put_slice_def)
  then show ?thesis using l by (auto simp: np_sets_def np_on_buffer_def np_wf_def np_view_def Let_def nth_append)
qed

lemma node_encrypt_eq:
  "cipher_encrypt (ev_crypto env) (ev_random env (nd_step n)) c p = (r, q) \<Longrightarrow>
    node_encrypt env c p n = (ran (r, q), n\<lparr>nd_step := Suc (nd_step n)\<rparr>)"
  by (simp add: node_encrypt_def draw_def sbind_def)

lemma ping_turn:
  assumes "env_ok env cfg" and "fits (nc_client_cipher cfg) p" and "\<not> nh_encrypt (np_view p)"
    and "nh_transport (np_view p) = ip_turn_protocol_into TurnIpv4"
    and "echo_request (nh_destination (np_view p)) (nh_payload (np_view p))" and "ipv4_fits (nh_payload (np_view p))"
    and "client_ip_turn env cfg dev p key n = (res, n')"
  shows "res \<noteq> Panic \<and> nd_out n' = nd_out n \<and> (\<exists>b q r.
    echo_answer (ev_keep env) (nh_source (np_view p)) (nh_destination (np_view p)) (nh_payload (np_view p)) b \<and>
    opens (ev_crypto env) (nc_client_cipher cfg) (wire_bytes q) r \<and>
    np_view r = (np_view p)\<lparr>nh_source := nh_destination (np_view p), nh_destination := nh_source (np_view p),
      nh_payload := b\<rparr> \<and>
    map fst (cc_log (nd_ctx n')) = map fst (cc_log (nd_ctx n)) @
      (if key_open key (nd_ctx n) then [key_tx key (wire_bytes q)] else []))"
proof -
  let ?v = "np_view p" and ?c = "nc_client_cipher cfg"
  have p: "np_wf p" "np_data_len p \<le> 12 + cipher_cap" using assms(2) by (simp_all add: fits_def)
  have "length (nh_payload ?v) \<le> cipher_cap" using np_wf_len [OF p(1)] p(2) by (auto simp: np_view_def Let_def)
  then have "length (nh_payload ?v) < checksum_max" by (simp add: cipher_cap_def)
  from ping_reply_ok [OF assms(5,6) this, of "ev_keep env" "nh_source ?v"] obtain b where
    b: "ping_reply (ev_keep env) (nh_source ?v) (nh_destination ?v) (nh_payload ?v) = Ok (Some b)"
      "echo_answer (ev_keep env) (nh_source ?v) (nh_destination ?v) (nh_payload ?v) b" by blast
  have new: "ipv4_new (nh_payload ?v) = Ok (nh_payload ?v)"
    using assms(5) by (simp add: echo_request_def ipv4_new_Ok_iff)
  have l: "length b = length (nh_payload ?v)" using b(2) by (simp add: echo_answer_def)
  have "np_sets p (oseq [np_on_buffer (put_slice 12 (np_data_len p) b), np_set_source (nh_destination ?v),
      np_set_destination (nh_source ?v)])
      (\<lambda>h. h\<lparr>nh_payload := b, nh_source := nh_destination ?v, nh_destination := nh_source ?v\<rparr>)"
    by (rule np_sets_Cons np_sets_Nil np_sets_payload np_sets_intros p(1) l | assumption | simp)+
  then obtain q0 where q0: "oseq [np_on_buffer (put_slice 12 (np_data_len p) b), np_set_source (nh_destination ?v),
      np_set_destination (nh_source ?v)] p = Ok q0" "np_wf q0" "np_data_len q0 = np_data_len p"
      "length (np_buffer q0) = length (np_buffer p)"
      "np_view q0 = ?v\<lparr>nh_payload := b, nh_source := nh_destination ?v, nh_destination := nh_source ?v\<rparr>"
    by (auto simp: np_sets_def)
  have seal: "fits ?c q0" using assms(2,3) q0 by (simp add: fits_def)
  have c: "crypto_ok (ev_crypto env)" "cipher_ok ?c" using assms(1) by (simp_all add: env_ok_def)
  obtain q r where q: "cipher_encrypt (ev_crypto env) (ev_random env (nd_step n)) ?c q0 = (Ok (), q)" "np_wf q"
    "opens (ev_crypto env) ?c (wire_bytes q) r" "np_view r = (np_view q0)\<lparr>nh_encrypt := False\<rparr>"
    using fits_sealed [OF c seal, of "ev_random env (nd_step n)"] by blast
  have "ip_turn_protocol_from (nh_transport ?v) = TurnIpv4" unfolding assms(4) by (simp add: ip_turn_protocol_from_def)
  then have run: "client_ip_turn env cfg dev p key n =
      on_ctx (send_by_key (ev_net env) q key) (n\<lparr>nd_step := Suc (nd_step n)\<rparr>)"
    unfolding client_ip_turn_def using p(1) new b(1) q0(1) node_encrypt_eq [OF q(1)]
    by (simp add: np_getters_view sbind_def ran_def del: oseq.simps)
  have "np_view r = ?v\<lparr>nh_source := nh_destination ?v, nh_destination := nh_source ?v, nh_payload := b\<rparr>"
    unfolding q(4) q0(5) using assms(3) by simp
  moreover have "res \<noteq> Panic" "nd_out n' = nd_out n" "map fst (cc_log (nd_ctx n')) = map fst (cc_log (nd_ctx n)) @
      (if key_open key (nd_ctx n) then [key_tx key (wire_bytes q)] else [])"
    using assms(7) unfolding run
    by (auto simp: on_ctx_def send_by_key_eq [OF q(2)] Let_def split: option.splits if_splits)
  ultimately show ?thesis using b(2) q(3) by blast
qed

section \<open>From the datagram to the answer\<close>

text \<open>What the way to the handler leaves alone: the output, the log of transmissions, the sockets.\<close>

definition same_ends :: "node \<Rightarrow> node \<Rightarrow> bool" where
  "same_ends n n' \<longleftrightarrow> nd_out n' = nd_out n \<and> cc_log (nd_ctx n') = cc_log (nd_ctx n) \<and>
     (\<forall>key. key_open key (nd_ctx n') = key_open key (nd_ctx n))"

lemma add_down_traffic_ok:
  assumes "np_wf p"
  shows "\<exists>n'. add_down_traffic env p n = (Ok (), n') \<and> same_ends n n'"
  using assms by (cases "cc_down_meter (nd_ctx n)")
    (simp_all add: add_down_traffic_def np_getters_view sbind_def draw_def upd_ctx_def same_ends_def key_open_def
      main_len_def)

lemma update_read_time_ok: "\<exists>n'. update_read_time env peer key n = (Ok (), n') \<and> same_ends n n'"
  by (simp add: update_read_time_def sbind_def draw_def upd_table_def upd_ctx_def same_ends_def key_open_def main_len_def)

lemma same_ends_trans: "same_ends n n1 \<Longrightarrow> same_ends n1 n2 \<Longrightarrow> same_ends n n2"
  by (simp add: same_ends_def)

lemma stun_not: "buf \<noteq> [] \<Longrightarrow> buf ! 0 \<noteq> 1 \<Longrightarrow> nt_recv_data resolve parse i a buf t = (Ok False, t)"
  by (simp add: nt_recv_data_def byte_at_def sbind_def)

text \<open>What makes a datagram reach the IP handler of a node: well-formed, alive, for this node, from a node,
  and opened by the client key.\<close>

definition reaches_me :: "node_env \<Rightarrow> node_config \<Rightarrow> node \<Rightarrow> bytes \<Rightarrow> net_packet \<Rightarrow> bool" where
  "reaches_me env cfg n buf p \<longleftrightarrow> (\<exists>q. np_new buf = Ok q \<and> np_wf q \<and> nh_version (np_view q) = 2 \<and>
     nh_ttl (np_view q) \<noteq> 0 \<and> nh_ttl (np_view q) \<le> nh_source_ttl (np_view q) \<and>
     is_for_me (nh_destination (np_view q)) (nd_current n) \<and> \<not> nh_gateway (np_view q) \<and>
     cipher_decrypt (ev_crypto env) (nc_client_cipher cfg) q = (Ok (), p) \<and> np_wf p)"

text \<open>An uncompressed packet of the given kind reaches the IP handler.\<close>

lemma recv_handle_ip_turn:
  assumes "reaches_me env cfg n buf p" and "\<not> nh_extension (np_view p)" and "nh_protocol (np_view p) = protocol_into IpTurn"
  shows "\<exists>n1. same_ends n n1 \<and> recv_handle env cfg buf ext key n =
    (case client_ip_turn env cfg (nd_current n) p key n1 of
       (Ok _, n) \<Rightarrow> (Ok (), n) | (Err _, n) \<Rightarrow> (Ok (), n) | (Panic, n) \<Rightarrow> (Panic, n))"
proof -
  obtain q where q: "np_new buf = Ok q" "np_wf q" "nh_version (np_view q) = 2" "nh_ttl (np_view q) \<noteq> 0"
    "\<not> nh_source_ttl (np_view q) < nh_ttl (np_view q)" "is_for_me (nh_destination (np_view q)) (nd_current n)"
    "\<not> nh_gateway (np_view q)" "cipher_decrypt (ev_crypto env) (nc_client_cipher cfg) q = (Ok (), p)" and p: "np_wf p"
    using assms(1) by (auto simp: reaches_me_def not_less)
  have buf: "np_buffer q = buf" "12 \<le> length buf" using q(1) by (auto simp: np_new_def np_new0_Ok_iff)
  have "buf ! 0 \<noteq> 1"
  proof
    assume "buf ! 0 = 1"
    then have "nh_version (np_view q) = 1" by (simp add: np_view_fields buf(1))
    then show False using q(3) by simp
  qed
  then have stun: "nt_recv_data (ev_stun_resolve env) (ev_stun_parse env) (rk_index key) (rk_addr key) buf (nd_nat n) =
      (Ok False, nd_nat n)" using buf(2) by (intro stun_not) auto
  obtain n1 where n1: "add_down_traffic env q n = (Ok (), n1)" "same_ends n n1" using add_down_traffic_ok [OF q(2)] by blast
  obtain n2 where n2: "update_read_time env (nh_source (np_view p)) key n1 = (Ok (), n2)" "same_ends n1 n2"
    using update_read_time_ok by blast
  have proto: "protocol_from (nh_protocol (np_view p)) = IpTurn" unfolding assms(3) by (simp add: protocol_from_def)
  have "recv_handle0 env cfg buf ext key n = client_handle env cfg (nd_current n) q (np_unchecked ext) key n1"
    using q n1 by (simp add: recv_handle0_def np_getters_view sbind_def)
  also have "\<dots> = client_ip_turn env cfg (nd_current n) p key n2"
    using q p n2 proto assms(2)
    by (simp add: client_handle_def node_decrypt_def ran_def unwrap_extension_def np_getters_view sbind_def)
  finally have "recv_handle0 env cfg buf ext key n = client_ip_turn env cfg (nd_current n) p key n2" .
  moreover have "n\<lparr>nd_nat := nd_nat n\<rparr> = n" by simp
  ultimately show ?thesis
    using stun buf(2) same_ends_trans [OF n1(2) n2(2)]
    by (intro exI [of _ n2]) (simp add: recv_handle_def HEAD_LEN_def on_nat_def)
qed

text \<open>C12: An echo request that arrives at a node as a datagram of another holder of the client key (sealed
  by it with the reserve of 56 octets and at most 4000 octets of payload, not compressed, possibly
  relayed), for the address its IP packet names and with an IPv4 header of five words or more, is
  answered: the handler encrypts the reply in the very octets of the datagram, for which
  decryption frees exactly the room, and transmits once, only over the route the request came
  from, a packet that the client key opens to the echo reply under the turned header. Nothing
  reaches the virtual network interface.\<close>

theorem ping_answered:
  assumes "env_ok env cfg" and "reaches_me env cfg n buf p"
    and "from_peer (ev_crypto env) (nc_client_cipher cfg) buf" and "\<not> nh_extension (np_view p)"
    and "nh_protocol (np_view p) = protocol_into IpTurn" and "nh_transport (np_view p) = ip_turn_protocol_into TurnIpv4"
    and "echo_request (nh_destination (np_view p)) (nh_payload (np_view p))" and "ipv4_fits (nh_payload (np_view p))"
    and "recv_handle env cfg buf ext key n = (res, n')"
  shows "res = Ok () \<and> nd_out n' = nd_out n \<and> (\<exists>b q r.
    echo_answer (ev_keep env) (nh_source (np_view p)) (nh_destination (np_view p)) (nh_payload (np_view p)) b \<and>
    opens (ev_crypto env) (nc_client_cipher cfg) (wire_bytes q) r \<and>
    np_view r = (np_view p)\<lparr>nh_source := nh_destination (np_view p), nh_destination := nh_source (np_view p),
      nh_payload := b\<rparr> \<and>
    map fst (cc_log (nd_ctx n')) = map fst (cc_log (nd_ctx n)) @
      (if key_open key (nd_ctx n) then [key_tx key (wire_bytes q)] else []))"
proof -
  have c: "crypto_ok (ev_crypto env)" "cipher_ok (nc_client_cipher cfg)" using assms(1) by (simp_all add: env_ok_def)
  have p: "fits (nc_client_cipher cfg) p" "\<not> nh_encrypt (np_view p)"
    using assms(2) from_peer_fits [OF c assms(3)] by (auto simp: reaches_me_def)
  obtain n1 where n1: "same_ends n n1" "recv_handle env cfg buf ext key n =
      (case client_ip_turn env cfg (nd_current n) p key n1 of
         (Ok _, n) \<Rightarrow> (Ok (), n) | (Err _, n) \<Rightarrow> (Ok (), n) | (Panic, n) \<Rightarrow> (Panic, n))"
    using recv_handle_ip_turn [OF assms(2,4,5)] by blast
  obtain r m where run: "client_ip_turn env cfg (nd_current n) p key n1 = (r, m)" by fastforce
  note ping_turn [OF assms(1) p assms(6-8) run]
  moreover have "res = Ok ()" "n' = m" if "r \<noteq> Panic"
    using that assms(9) n1(2) run by (auto split: outcome.splits)
  moreover have "nd_out n1 = nd_out n" "cc_log (nd_ctx n1) = cc_log (nd_ctx n)"
    "key_open key (nd_ctx n1) = key_open key (nd_ctx n)" using n1(1) by (simp_all add: same_ends_def)
  ultimately show ?thesis by (elim conjE exE) (intro conjI exI, simp_all)
qed

text \<open>A ping of 10.26.0.2 by 10.26.0.9, as its sender has it and as it arrives: without an octet to spare.\<close>

definition ping_sample :: net_packet where
  "ping_sample = \<lparr>np_data_len = 40, np_buffer = [2, 4, 4, 0x66, 10, 26, 0, 9, 10, 26, 0, 2,
     0x45, 0, 0, 28, 0, 1, 0, 0, 64, 1, 0, 0, 10, 26, 0, 9, 10, 26, 0, 2, 8, 0, 0, 0, 0, 1, 0, 1] @ replicate 60 0\<rparr>"

definition ping_datagram :: bytes where
  "ping_datagram = wire_bytes (snd (cipher_encrypt toy_crypto (1, 2, 3, 4) sample_cipher ping_sample))"

lemma ping_sample_view:
  "np_wf ping_sample" "np_view ping_sample = \<lparr>nh_encrypt = False, nh_gateway = False, nh_extension = False,
     nh_unused = False, nh_version = 2, nh_protocol = 4, nh_transport = 4, nh_source_ttl = 6, nh_ttl = 6,
     nh_source = 0x0A1A0009, nh_destination = 0x0A1A0002, nh_payload = [0x45, 0, 0, 28, 0, 1, 0, 0, 64, 1, 0, 0,
       10, 26, 0, 9, 10, 26, 0, 2, 8, 0, 0, 0, 0, 1, 0, 1]\<rparr>"
  by (simp_all add: ping_sample_def np_wf_def np_view_def u32_be_def Let_def)

lemma ping_sample_request:
  "echo_request 0x0A1A0002 [0x45, 0, 0, 28, 0, 1, 0, 0, 64, 1, 0, 0, 10, 26, 0, 9, 10, 26, 0, 2, 8, 0, 0, 0, 0, 1, 0, 1]"
  by (simp add: echo_request_def ipv4_accepted_def ipv4_protocol_def byte_at_def ip_protocol_from_def
      ipv4_destination_ip_def slice_def u32_be_def ipv4_payload_def ipv4_header_len_def)

lemma ping_datagram_arrives:
  "\<exists>p. np_view p = np_view ping_sample \<and> reaches_me sample_node_env sample_config sample_node ping_datagram p \<and>
     from_peer toy_crypto sample_cipher ping_datagram"
proof -
  have s: "sealable sample_cipher ping_sample"
    using ping_sample_view by (simp add: sealable_def cipher_cap_def cipher_room_def) (simp add: ping_sample_def)
  have ok: "cipher_ok sample_cipher" by (simp add: sample_cipher_def cipher_ok_def Let_def)
  obtain q0 d p where q0: "cipher_encrypt toy_crypto (1, 2, 3, 4) sample_cipher ping_sample = (Ok (), q0)" "np_wf q0"
      "np_view q0 = (np_view ping_sample)\<lparr>nh_encrypt := (sample_cipher \<noteq> CNone), nh_payload := d\<rparr>"
    and opn: "opens toy_crypto sample_cipher (wire_bytes q0) p" "np_view p = (np_view ping_sample)\<lparr>nh_encrypt := False\<rparr>"
    using sealed [OF toy_crypto_ok ok s, of "(1, 2, 3, 4)"] by blast
  have b: "ping_datagram = wire_bytes q0" using q0(1) by (simp add: ping_datagram_def)
  obtain q where q: "np_new ping_datagram = Ok q" "cipher_decrypt toy_crypto sample_cipher q = (Ok (), p)" "np_wf p"
    using opn(1) b by (auto simp: opens_def)
  obtain h pl r where f: "length h = 12" "q0 = frame h pl r" using q0(2) by (rule np_wf_cases)
  have wire: "ping_datagram = h @ pl" unfolding b f(2) using f(1) by (simp add: wire_bytes_def)
  have qf: "q = frame h pl []" using q(1) np_new_frame [OF f(1), of pl] wire by simp
  have tags: "np_head_tag q = np_head_tag q0" "np_is_encrypt q = np_is_encrypt q0" "np_payload q = np_payload q0"
    unfolding qf f(2) using f(1) by (simp_all add: frame_simps)
  have v: "np_view q = np_view q0"
    unfolding qf f(2) by (rule trans [OF frame_view [OF f(1)] frame_view [OF f(1), symmetric]])
  have "np_wf q" unfolding qf using f(1) by simp
  then have "reaches_me sample_node_env sample_config sample_node ping_datagram p"
    using q v q0(3) ping_sample_view(2)
    by (simp add: reaches_me_def is_for_me_def sample_node_def current_device_new_def sample_node_env_def
        sample_config_def np_getters_view sbind_def sget_def)
  moreover have "from_peer toy_crypto sample_cipher ping_datagram"
    unfolding from_peer_def using s q0(1) q(1) tags ping_sample_view(2) by fastforce
  moreover have "np_view p = np_view ping_sample" using opn(2) ping_sample_view(2) by simp
  ultimately show ?thesis by blast
qed

lemma ping_answered_witness:
  "fst (recv_handle sample_node_env sample_config ping_datagram (replicate 200 0) (RouteKey UDP 0 sample_addr)
     sample_node) = Ok () \<and>
   nd_out (snd (recv_handle sample_node_env sample_config ping_datagram (replicate 200 0) (RouteKey UDP 0 sample_addr)
     sample_node)) = [] \<and>
   length (cc_log (nd_ctx (snd (recv_handle sample_node_env sample_config ping_datagram (replicate 200 0)
     (RouteKey UDP 0 sample_addr) sample_node)))) = 1"
proof -
  obtain p where v: "np_view p = np_view ping_sample"
    and p: "reaches_me sample_node_env sample_config sample_node ping_datagram p"
      "from_peer toy_crypto sample_cipher ping_datagram" using ping_datagram_arrives by blast
  obtain res n' where run: "recv_handle sample_node_env sample_config ping_datagram (replicate 200 0)
      (RouteKey UDP 0 sample_addr) sample_node = (res, n')" by fastforce
  have "from_peer (ev_crypto sample_node_env) (nc_client_cipher sample_config) ping_datagram"
    using p(2) by (simp add: sample_node_env_def sample_config_def)
  moreover have "ipv4_fits (nh_payload (np_view p))"
    by (simp add: v ping_sample_view ipv4_fits_def ipv4_accepted_def)
  moreover have "key_open (RouteKey UDP 0 sample_addr) (nd_ctx sample_node)" "cc_log (nd_ctx sample_node) = []"
      "nd_out sample_node = []"
    by (simp_all add: sample_node_def sample_context_def key_open_def main_len_def)
  ultimately have "res = Ok () \<and> nd_out n' = [] \<and> (\<exists>x. map fst (cc_log (nd_ctx n')) = [x])"
    using ping_answered [OF sample_env_ok p(1) _ _ _ _ _ _ run] ping_sample_request
    by (simp add: v ping_sample_view) (elim conjE exE, rule exI, assumption)
  then show ?thesis using run by (auto dest: arg_cong [where f = length])
qed

section \<open>The requests that are not survived\<close>

lemma ping_reply_panics:
  assumes "echo_request destination b" and "unat (b ! 0 AND 0b1111) < 5"
  shows "ping_reply keep source destination b = Panic"
proof -
  obtain x where x: "ipv4_payload b = Ok x" "8 \<le> length x" "x ! 0 = 8"
    using assms(1) by (auto simp: echo_request_def)
  define n where "n = unat (b ! 0 AND 0b1111) * 4"
  have b: "20 \<le> length b" "b \<noteq> []" "n \<le> 16" "drop_bit 4 (b ! 0) = 4"
    using assms by (auto simp: echo_request_def ipv4_accepted_def n_def)
  have xd: "x = drop n b" using x(1) b by (simp add: ipv4_payload_def buf_simps slice_def n_def split: if_splits)
  have n0: "0 < n"
  proof (rule ccontr)
    assume "\<not> 0 < n"
    then have "b ! 0 = 8" using x(3) xd by simp
    with b(4) show False by simp
  qed
  have kind: "icmp_new x = Ok x" "icmp_get_kind x = Ok IcEchoRequest"
    using x by (auto simp: icmp_new_def icmp_get_kind_def byte_at_def icmp_kind_from_def)
  have "8 \<le> length (x[0 := 0])" using x(2) by simp
  then obtain z where z: "oseq [icmp_set_kind IcEchoReply, icmp_update_checksum keep] x = Ok z"
    using x(2) by (cases "x = []") (auto simp: icmp_set_kind_def put_byte_def icmp_update_checksum_eq)
  define b1 where "b1 = take n b @ z"
  have b1: "ipv4_payload_mut (oseq [icmp_set_kind IcEchoReply, icmp_update_checksum keep]) b = Ok b1"
    using z b by (simp add: ipv4_payload_mut_def buf_simps slice_def b1_def xd flip: n_def)
  have h1: "ipv4_header_len b1 = Ok (b ! 0 AND 0b1111)" "n \<le> length b1" "b1 \<noteq> []" "b1 ! 0 = b ! 0"
    using n0 b by (auto simp: b1_def buf_simps nth_append)
  have set: "oseq [ipv4_set_source_ip destination, ipv4_set_destination_ip source, ipv4_update_checksum keep] b1 = Panic"
  proof (cases "n = 16")
    case True
    define b2 where "b2 = take 12 b1 @ u32_to_be destination @ drop 16 b1"
    have "ipv4_set_source_ip destination b1 = Ok b2"
      using h1 b True by (simp add: ipv4_set_source_ip_def ipv4_header_mut_def slice_def put_slice_def min_def b2_def
          flip: n_def)
    moreover have "ipv4_header_len b2 = Ok (b ! 0 AND 0b1111)" "16 \<le> length b2"
      using h1 True by (auto simp: b2_def buf_simps nth_append)
    then have "ipv4_set_destination_ip source b2 = Panic"
      using b True by (simp add: ipv4_set_destination_ip_def ipv4_header_mut_def slice_def put_slice_def flip: n_def)
    ultimately show ?thesis by simp
  next
    case False
    then have "n \<le> 12" using b(3) unfolding n_def by presburger
    then have "ipv4_set_source_ip destination b1 = Panic"
      using h1 b by (simp add: ipv4_set_source_ip_def ipv4_header_mut_def slice_def put_slice_def flip: n_def)
    then show ?thesis by simp
  qed
  show ?thesis
    using assms(1) x(1) kind set
    by (simp add: ping_reply_def echo_request_def oseq.simps(2) [of "ipv4_payload_mut _"] b1 del: oseq.simps(2))
qed

text \<open>C13: Whoever holds the network key stops a node with one datagram: an echo request for the
  node whose IPv4 header length is below five words passes the parser, and the handler then aborts
  the process when it writes the addresses of the answer.\<close>

theorem short_ping_panics:
  assumes "reaches_me env cfg n buf p" and "\<not> nh_extension (np_view p)"
    and "nh_protocol (np_view p) = protocol_into IpTurn" and "nh_transport (np_view p) = ip_turn_protocol_into TurnIpv4"
    and "echo_request (nh_destination (np_view p)) (nh_payload (np_view p))"
    and "unat (nh_payload (np_view p) ! 0 AND 0b1111) < 5"
  shows "fst (recv_handle env cfg buf ext key n) = Panic"
proof -
  have p: "np_wf p" using assms(1) by (auto simp: reaches_me_def)
  obtain n1 where n1: "recv_handle env cfg buf ext key n = (case client_ip_turn env cfg (nd_current n) p key n1 of
      (Ok _, n) \<Rightarrow> (Ok (), n) | (Err _, n) \<Rightarrow> (Ok (), n) | (Panic, n) \<Rightarrow> (Panic, n))"
    using recv_handle_ip_turn [OF assms(1-3)] by blast
  have turn: "ip_turn_protocol_from (nh_transport (np_view p)) = TurnIpv4"
    unfolding assms(4) by (simp add: ip_turn_protocol_from_def)
  have new: "ipv4_new (nh_payload (np_view p)) = Ok (nh_payload (np_view p))"
    using assms(5) by (simp add: echo_request_def ipv4_new_Ok_iff)
  have "fst (client_ip_turn env cfg (nd_current n) p key n1) = Panic"
    using p turn new ping_reply_panics [OF assms(5,6)]
    by (simp add: client_ip_turn_def np_getters_view sbind_def)
  then show ?thesis unfolding n1 by (cases "client_ip_turn env cfg (nd_current n) p key n1") simp
qed

text \<open>A node without encryption, and a request with a header of three words from 8.0.0.0.\<close>

definition short_ping :: bytes where
  "short_ping = [2, 4, 4, 0x66, 10, 26, 0, 9, 10, 26, 0, 2,
     0x43, 0, 0, 28, 0, 1, 0, 0, 64, 1, 0, 0, 8, 0, 0, 0, 10, 26, 0, 2]"

lemma short_ping_panics_witness:
  "fst (recv_handle sample_node_env (sample_config\<lparr>nc_client_cipher := CNone\<rparr>) short_ping (replicate 200 0)
     (RouteKey UDP 0 sample_addr) sample_node) = Panic"
proof -
  have v: "np_wf (np_unchecked short_ping)" "np_view (np_unchecked short_ping) = \<lparr>nh_encrypt = False,
     nh_gateway = False, nh_extension = False, nh_unused = False, nh_version = 2, nh_protocol = 4, nh_transport = 4,
     nh_source_ttl = 6, nh_ttl = 6, nh_source = 0x0A1A0009, nh_destination = 0x0A1A0002,
     nh_payload = [0x43, 0, 0, 28, 0, 1, 0, 0, 64, 1, 0, 0, 8, 0, 0, 0, 10, 26, 0, 2]\<rparr>"
    by (simp_all add: short_ping_def np_unchecked_def np_wf_def np_view_def u32_be_def Let_def)
  have new: "np_new short_ping = Ok (np_unchecked short_ping)"
    by (simp add: np_new_def np_new0_def np_unchecked_def short_ping_def)
  have "reaches_me sample_node_env (sample_config\<lparr>nc_client_cipher := CNone\<rparr>) sample_node short_ping
      (np_unchecked short_ping)"
    using v new by (simp add: reaches_me_def is_for_me_def sample_node_def current_device_new_def np_getters_view sbind_def sget_def)
  moreover have "echo_request 0x0A1A0002 [0x43, 0, 0, 28, 0, 1, 0, 0, 64, 1, 0, 0, 8, 0, 0, 0, 10, 26, 0, 2]"
    by (simp add: echo_request_def ipv4_accepted_def ipv4_protocol_def byte_at_def ip_protocol_from_def
        ipv4_destination_ip_def slice_def u32_be_def ipv4_payload_def ipv4_header_len_def)
  ultimately show ?thesis
    by (intro short_ping_panics [where p = "np_unchecked short_ping"]) (simp_all add: v(2))
qed

end
