(* ===== verification/Tun_Handler.thy ===== *)
theory Tun_Handler
  imports Tunnel
begin

text \<open>
  \<open>vnt/src/handle/tun_tap/tun_handler.rs\<close>: packets that the operating system routes to the virtual network
  interface. A packet to its own source address is a ping of the interface and answered there; the
  gateway is pinged over the server; other packets go to their peer, to a gateway of an external
  network, or to everybody. \<open>nd_extend\<close> is the second buffer of the reading thread. The peers of a
  broadcast come in the order of \<open>nd_devices\<close>, whatever that is.
\<close>

section \<open>Pings of the interface\<close>

definition tun_icmp :: "node_env \<Rightarrow> bytes \<Rightarrow> unit node_action" where
  "tun_icmp env b = sbind (slift (ipv4_protocol b)) (\<lambda>proto.
     if proto \<noteq> IpIcmp then sret ()
     else sbind (slift (obind (ipv4_payload b) icmp_new)) (\<lambda>icmp. sbind (slift (icmp_get_kind icmp)) (\<lambda>kind.
       if kind \<noteq> IcEchoRequest then sret ()
       else sbind (slift (ipv4_payload_mut (oseq [icmp_set_kind IcEchoReply, icmp_update_checksum (ev_keep env)]) b)) (\<lambda>b.
         sbind (slift (ipv4_source_ip b)) (\<lambda>src. sbind (slift (ipv4_destination_ip b)) (\<lambda>dest.
         sbind (slift (oseq [ipv4_set_source_ip dest, ipv4_set_destination_ip src, ipv4_update_checksum (ev_keep env)] b))
           (device_write env)))))))"

section \<open>Broadcasts\<close>

text \<open>The loop over the peers: those sent to directly, whether one was not, whether the loop was cut short.\<close>

definition MAX_COUNT :: nat where
  "MAX_COUNT = 8"

fun broadcast_direct :: "node_env \<Rightarrow> net_packet \<Rightarrow> nat \<Rightarrow> ipv4_addr list \<Rightarrow> ipv4_addr list \<Rightarrow> bool \<Rightarrow>
    (ipv4_addr list \<times> bool \<times> bool) node_action" where
  "broadcast_direct env p index [] p2p_ips relay n = (Ok (p2p_ips, relay, False), n)"
| "broadcast_direct env p index (peer # peers) p2p_ips relay n =
     (if MAX_COUNT < index then (Ok (p2p_ips, relay, True), n)
      else (case rt_route_one_p2p peer (cc_route_table (nd_ctx n)) of
          Some route \<Rightarrow> (case on_ctx (send_by_key (ev_net env) p (route_key_of route)) n of
              (Ok _, n) \<Rightarrow> broadcast_direct env p (index + 1) peers (p2p_ips @ [peer]) relay n
            | (Err _, n) \<Rightarrow> broadcast_direct env p (index + 1) peers p2p_ips True n
            | (Panic, n) \<Rightarrow> (Panic, n))
        | None \<Rightarrow> broadcast_direct env p (index + 1) peers p2p_ips True n))"

text \<open>The rest is left to the server, which is told who has the packet already.\<close>

definition broadcast_packet :: "ipv4_addr list \<Rightarrow> net_packet \<Rightarrow> net_packet outcome" where
  "broadcast_packet p2p_ips p =
     obind (np_new_encrypt (replicate (12 + 1 + length p2p_ips * 4 + np_data_len p + ENCRYPTION_RESERVED) 0)) (\<lambda>q.
     obind (np_source p) (\<lambda>src. obind (np_destination p) (\<lambda>dest.
     obind (oseq [np_set_default_version, np_set_gateway_flag True, np_first_set_ttl MAX_TTL, np_set_source src,
       np_set_destination dest, np_set_protocol IpTurn,
       np_set_transport_protocol (ip_turn_protocol_into TurnIpv4Broadcast)] q) (\<lambda>q.
     obind (np_payload q) (\<lambda>pl. obind (bc_set_address p2p_ips pl) (\<lambda>pl. obind (np_buffer_part p) (\<lambda>data.
     obind (bc_set_data data pl) (\<lambda>pl. np_on_buffer (put_slice 12 (np_data_len q) pl) q))))))))"

definition broadcast_peers :: "node \<Rightarrow> ipv4_addr list" where
  "broadcast_peers n = map pd_virtual_ip
     (filter (\<lambda>info. \<not> pd_wireguard info \<and> is_online (pd_status info)) (map snd (nd_devices n)))"

definition broadcast :: "node_env \<Rightarrow> node_config \<Rightarrow> current_device_info \<Rightarrow> net_packet \<Rightarrow> unit node_action" where
  "broadcast env cfg dev p n =
     (if broadcast_peers n = [] then (Ok (), n)
      else sbind (broadcast_direct env p 0 (broadcast_peers n) [] False) (\<lambda>(p2p_ips, relay, overflow).
        if \<not> overflow \<and> \<not> relay then sret ()
        else if cs_offline (cd_status dev) then sret ()
        else if p2p_ips = [] then on_ctx (send_default (ev_net env) p (cd_connect_server dev))
        else sbind (slift (broadcast_packet p2p_ips p)) (\<lambda>q. sbind (node_encrypt env (nc_server_cipher cfg) q) (\<lambda>q.
          on_ctx (send_default (ev_net env) q (cd_connect_server dev))))) n)"

section \<open>The handler\<close>

text \<open>The answers of proxied hosts get the address of the host back, in place.\<close>

definition proxy_answer :: "node_env \<Rightarrow> net_packet \<Rightarrow> net_packet node_action" where
  "proxy_answer env p n = (case nd_proxy n of
       None \<Rightarrow> (Ok p, n)
     | Some P \<Rightarrow> (obind (np_payload p) (\<lambda>pl. obind (ipv4_new pl) (\<lambda>b. obind (proxy_send_handle (ev_keep env) P b) (\<lambda>b.
         np_on_buffer (put_slice 12 (np_data_len p) b) p))), n))"

text \<open>From the prepared packet on: WireGuard peers, compression, encryption, sending.\<close>

definition tun_deliver :: "node_env \<Rightarrow> node_config \<Rightarrow> current_device_info \<Rightarrow> ipv4_addr \<Rightarrow> ipv4_addr \<Rightarrow> net_packet \<Rightarrow>
    unit node_action" where
  "tun_deliver env cfg dev src_ip dest_ip p n =
     (let all = (is_broadcast dest_ip \<or> cd_broadcast_ip dev = dest_ip);
          deliver = (\<lambda>n. sbind (node_compress env cfg src_ip dest_ip p (np_unchecked (nd_extend n))) (\<lambda>bp.
            sbind (client_encrypt env cfg bp) (\<lambda>q.
              if all then broadcast env cfg dev q
              else sbind (draw (ev_lost env)) (\<lambda>lost. on_ctx (send_ipv4_by_id (ev_net env) lost q dest_ip
                (cd_connect_server dev) (cs_online (cd_status dev)))))) n)
      in if \<not> bi_allow_wire_guard (nc_base cfg) then deliver n
         else if all then sbind (swhen (wg_online n) (send_to_wg_broadcast env cfg dev p)) (\<lambda>_. deliver) n
         else (case map_of (nd_devices n) dest_ip of
             Some peer_info \<Rightarrow>
               if is_offline (pd_status peer_info) then (Ok (), n)
               else if pd_wireguard peer_info then send_to_wg env cfg dev p n
               else deliver n
           | None \<Rightarrow> deliver n))"

definition tun_handle :: "node_env \<Rightarrow> node_config \<Rightarrow> bytes \<Rightarrow> nat \<Rightarrow> unit node_action" where
  "tun_handle env cfg buf data_len n =
     (let dev = nd_current n in
      case obind (slice buf 12 data_len) ipv4_new of
        Err _ \<Rightarrow> (Ok (), n)
      | Panic \<Rightarrow> (Panic, n)
      | Ok b \<Rightarrow>
        sbind (slift (ipv4_source_ip b)) (\<lambda>src_ip. sbind (slift (ipv4_destination_ip b)) (\<lambda>dest_ip.
          if src_ip = dest_ip then tun_icmp env b
          else sbind (slift (ipv4_protocol b)) (\<lambda>proto.
            sbind (slift (obind (np_new0 data_len buf) (turn_header TurnIpv4 src_ip dest_ip))) (\<lambda>p.
            if dest_ip = cd_virtual_gateway dev then
              (if proto = IpIcmp then sbind (slift (np_set_gateway_flag True p)) (\<lambda>p.
                 sbind (node_encrypt env (nc_server_cipher cfg) p) (\<lambda>p.
                   on_ctx (send_default (ev_net env) p (cd_connect_server dev))))
               else sret ())
            else
              let unicast = (\<not> is_multicast dest_ip \<and> \<not> is_broadcast dest_ip \<and> cd_broadcast_ip dev \<noteq> dest_ip);
                  final = (\<lambda>dest_ip p. if is_multicast dest_ip
                    then sbind (slift (np_set_destination BROADCAST p)) (tun_deliver env cfg dev src_ip BROADCAST)
                    else tun_deliver env cfg dev src_ip dest_ip p);
                  proxied = (\<lambda>dest_ip p. sbind (proxy_answer env p) (final dest_ip))
              in if \<not> unicast then final dest_ip p
                 else if not_in_network dest_ip dev then
                   (case ext_route (nc_ip_route cfg) dest_ip of
                      Some r_dest_ip \<Rightarrow> if r_dest_ip = src_ip then sret ()
                        else sbind (slift (np_set_destination r_dest_ip p)) (proxied r_dest_ip)
                    | None \<Rightarrow> sret ())
                 else proxied dest_ip p)))) n)"

end
