(* ===== verification/Punching.thy ===== *)
theory Punching
  imports Client_Handler
begin

text \<open>
  Opening direct connections: \<open>Punch\<close> of \<open>vnt/src/channel/punch.rs\<close>, and who is punched when,
  \<open>vnt/src/handle/maintain/punch.rs\<close>. Each of the four punching threads has a \<open>punch_state\<close>; how often a
  peer was punched is shared. Random numbers and orders come from the environment; the pauses between
  packets are left out.
\<close>

section \<open>Sending probes\<close>

record punch_state =
  pu_port_vec :: "u16 list"
  pu_port_index :: "ipv4_addr \<Rightarrow> nat option"
  pu_punch_model :: punch_model

text \<open>\<open>Punch::new\<close>: all ports but zero, shuffled.\<close>

definition punch_new :: "node_env \<Rightarrow> punch_model \<Rightarrow> punch_state node_action" where
  "punch_new env model = sbind (shuffled env (map of_nat ([1..<65535] @ [65535]))) (\<lambda>ports.
     sret \<lparr>pu_port_vec = ports, pu_port_index = Map.empty, pu_punch_model = model\<rparr>)"

definition sock_unspecified :: "socket_addr \<Rightarrow> bool" where
  "sock_unspecified a = (case a of SockV4 ip _ \<Rightarrow> is_unspecified ip | SockV6 ip _ _ _ \<Rightarrow> ip = 0)"

definition punch_connect_tcp :: "bytes \<Rightarrow> socket_addr \<Rightarrow> unit node_action" where
  "punch_connect_tcp buf addr n =
     (if is_local_address True addr (nd_nat n) then (Ok (), n)
      else if sock_unspecified addr \<or> sock_port addr = 0 then (Ok (), n)
      else request_connect (ConnectTcp buf (Some 0) addr None) n)"

fun connect_each :: "bytes \<Rightarrow> socket_addr list \<Rightarrow> unit node_action" where
  "connect_each buf [] = sret ()"
| "connect_each buf (a # as) = sbind (punch_connect_tcp buf a) (\<lambda>_. connect_each buf as)"

text \<open>Datagrams from main sockets, whatever becomes of them.\<close>

fun send_each :: "node_env \<Rightarrow> bytes \<Rightarrow> (nat \<times> socket_addr) list \<Rightarrow> unit node_action" where
  "send_each env buf [] n = (Ok (), n)"
| "send_each env buf ((i, a) # as) n = send_each env buf as (snd (on_ctx (send_main_udp (ev_net env) i buf a) n))"

definition opt_list :: "'a option \<Rightarrow> 'a list" where
  "opt_list x = (case x of None \<Rightarrow> [] | Some a \<Rightarrow> [a])"

section \<open>\<open>punch_symmetric\<close>\<close>

text \<open>Probes from the first socket, at most \<open>limit - 1\<close> of them; the result is the number of ports finished.\<close>

fun punch_symmetric_loop :: "node_env \<Rightarrow> bytes \<Rightarrow> nat \<Rightarrow> nat \<Rightarrow> (nat \<times> socket_addr) list \<Rightarrow> nat \<Rightarrow> nat node_action" where
  "punch_symmetric_loop env buf limit sent [] ports_len = sret ports_len"
| "punch_symmetric_loop env buf limit sent ((index, addr) # rest) ports_len =
     (if sent + 1 = limit then sret index
      else sbind (on_ctx (send_main_udp (ev_net env) 0 buf addr)) (\<lambda>_.
        punch_symmetric_loop env buf limit (sent + 1) rest ports_len))"

definition symmetric_probes :: "u16 list \<Rightarrow> ipv4_addr list \<Rightarrow> (nat \<times> socket_addr) list" where
  "symmetric_probes ports ips =
     concat (map (\<lambda>(index, port). map (\<lambda>ip. (index, SockV4 ip port)) ips) (enumerate 0 ports))"

definition punch_symmetric :: "node_env \<Rightarrow> u16 list \<Rightarrow> bytes \<Rightarrow> ipv4_addr list \<Rightarrow> nat \<Rightarrow> nat node_action" where
  "punch_symmetric env ports buf ips limit =
     punch_symmetric_loop env buf limit 0 (symmetric_probes ports ips) (length ports)"

section \<open>\<open>punch\<close>\<close>

text \<open>What is left of the peer's NAT information: nothing of the virtual network, no unusable address.\<close>

definition usable_nat :: "current_device_info \<Rightarrow> nat_info \<Rightarrow> nat_info" where
  "usable_nat dev info = info
     \<lparr>ni_public_ips := filter (\<lambda>ip. is_ipv4_global ip \<and> not_in_network ip dev) (ni_public_ips info),
      ni_public_ports := filter (\<lambda>port. port \<noteq> 0) (ni_public_ports info),
      ni_udp_ports := filter (\<lambda>port. port \<noteq> 0) (ni_udp_ports info),
      ni_local_ipv4 := (case ni_local_ipv4 info of
          Some ip \<Rightarrow> if not_in_network ip dev then Some ip else None | None \<Rightarrow> None)\<rparr>"

definition punch_tcp_part :: "punch_state \<Rightarrow> bytes \<Rightarrow> nat_info \<Rightarrow> unit node_action" where
  "punch_tcp_part ps buf info =
     (let both = (\<lambda>f. f (pu_punch_model ps) \<and> f (ni_punch_model info)); v4 = (\<lambda>port. map (\<lambda>ip. SockV4 ip port) (ni_public_ips info))
      in connect_each buf
        ((if both use_ipv6 then opt_list (local_tcp_ipv6addr info) else []) @
         (if both use_ipv4 then opt_list (local_tcp_ipv4addr info) @ v4 (ni_tcp_port info) @
            (if nat_is_cone (ni_nat_type info) \<and> ni_public_tcp_port info \<noteq> 0 then v4 (ni_public_tcp_port info) else [])
          else [])))"

text \<open>Datagrams to the addresses the peer itself has: over IPv6, and over IPv4 in its local network and
  behind an open port.\<close>

definition udp_ipv6_probes :: "channel_context \<Rightarrow> nat_test \<Rightarrow> nat_info \<Rightarrow> (nat \<times> socket_addr) list" where
  "udp_ipv6_probes c t info = concat (map (\<lambda>index. map (Pair index) (filter (\<lambda>a. \<not> is_local_address False a t)
     (opt_list (local_udp_ipv6addr index info)))) [channel_num c ..< main_len c])"

definition udp_ipv4_probes :: "channel_context \<Rightarrow> nat_test \<Rightarrow> nat_info \<Rightarrow> (nat \<times> socket_addr) list" where
  "udp_ipv4_probes c t info = concat (map (\<lambda>index. map (Pair index) (filter (\<lambda>a. \<not> is_local_address False a t)
     (opt_list (local_udp_ipv4addr index info)))) [0 ..< channel_num c])"

definition udp_open_probes :: "channel_context \<Rightarrow> nat_info \<Rightarrow> (nat \<times> socket_addr) list" where
  "udp_open_probes c info = concat (map (\<lambda>index. concat (map (\<lambda>port. if port = 0 then []
     else map (\<lambda>ip. (index, SockV4 ip port)) (filter (\<lambda>ip. \<not> is_unspecified ip) (ni_public_ips info)))
       (ni_udp_ports info))) [0 ..< channel_num c])"

text \<open>A symmetric peer: first the predicted range of ports, then the next part of all ports in random order.
  Ports are 16-bit numbers and wrap as in the release profile.\<close>

definition predicted_ports :: "nat_info \<Rightarrow> u16 list \<times> nat" where
  "predicted_ports info =
     (let port = (case ni_public_ports info of [] \<Rightarrow> 0 | p # _ \<Rightarrow> p); rg = ni_public_port_range info;
          min_port = (if rg < port then port - rg else 1);
          max_port = (if 65535 < unat port + unat rg then 65535 else port + rg);
          k = (if 60 < max_port - min_port + 1 then 60 else unat (max_port - min_port + 1))
      in (map of_nat [unat min_port ..< Suc (unat max_port)], k))"

definition punch_symmetric_peer :: "node_env \<Rightarrow> punch_state \<Rightarrow> bytes \<Rightarrow> ipv4_addr \<Rightarrow> nat_info \<Rightarrow> nat \<Rightarrow>
    punch_state node_action" where
  "punch_symmetric_peer env ps buf peer info cnt =
     sbind (draw (\<lambda>k. 600 + ev_pick env k 200)) (\<lambda>max_k2.
       let max_k2 = (if 2 < cnt then max (max_k2 * 2 div cnt) 60 else max_k2); ips = ni_public_ips info in
       sbind (if ni_public_port_range info < 60 * 3 then
           (case predicted_ports info of (nums, k) \<Rightarrow> sbind (shuffled env nums) (\<lambda>nums.
              if length nums < k then slift Panic
              else sbind (punch_symmetric env (take k nums) buf ips 60) (\<lambda>_. sret ())))
         else sret ()) (\<lambda>_.
       let ports = pu_port_vec ps; start = (case pu_port_index ps peer of Some i \<Rightarrow> i | None \<Rightarrow> 0);
           stop = (if length ports < start + max_k2 then length ports else start + max_k2) in
       if stop < start then slift Panic
       else sbind (punch_symmetric env (take (stop - start) (drop start ports)) buf ips max_k2) (\<lambda>done.
         let index = start + done in
         sret (ps\<lparr>pu_port_index := (pu_port_index ps)(peer \<mapsto> (if length ports \<le> index then 0 else index))\<rparr>))))"

text \<open>A cone peer: its public port of each channel, or, from behind a symmetric NAT, from all sockets to its
  first one.\<close>

fun cone_main_probes :: "node_env \<Rightarrow> bytes \<Rightarrow> (nat \<times> socket_addr) list \<Rightarrow> unit node_action" where
  "cone_main_probes env buf [] = sret ()"
| "cone_main_probes env buf ((i, a) # as) =
     sbind (on_ctx (send_main_udp (ev_net env) i buf a)) (\<lambda>_. cone_main_probes env buf as)"

fun cone_all_probes :: "node_env \<Rightarrow> bytes \<Rightarrow> socket_addr list \<Rightarrow> unit node_action" where
  "cone_all_probes env buf [] = sret ()"
| "cone_all_probes env buf (a # as) = sbind (upd_ctx (try_send_all (ev_net env) buf a)) (\<lambda>_. cone_all_probes env buf as)"

definition cone_targets :: "nat_info \<Rightarrow> nat \<Rightarrow> socket_addr list" where
  "cone_targets info index = (let port = ni_public_ports info ! index in
     if port = 0 then [] else map (\<lambda>ip. SockV4 ip port) (filter (\<lambda>ip. \<not> is_unspecified ip) (ni_public_ips info)))"

definition punch_cone_peer :: "node_env \<Rightarrow> bytes \<Rightarrow> nat_info \<Rightarrow> unit node_action" where
  "punch_cone_peer env buf info n =
     (let c = nd_ctx n; num = min (length (ni_public_ports info)) (channel_num c)
      in if is_cone c then cone_main_probes env buf
           (concat (map (\<lambda>index. map (Pair index) (cone_targets info index)) [0 ..< num])) n
         else cone_all_probes env buf (if 0 < num then cone_targets info 0 else []) n)"

definition punch :: "node_env \<Rightarrow> punch_state \<Rightarrow> bytes \<Rightarrow> ipv4_addr \<Rightarrow> nat_info \<Rightarrow> bool \<Rightarrow> nat \<Rightarrow> punch_state node_action" where
  "punch env ps buf peer info punch_tcp cnt n =
     (if rt_no_need_punch peer (cc_route_table (nd_ctx n)) then (Ok ps, n)
      else
        let info = usable_nat (nd_current n) info; both = (\<lambda>f. f (pu_punch_model ps) \<and> f (ni_punch_model info)) in
        sbind (swhen (punch_tcp \<and> both use_tcp) (punch_tcp_part ps buf info)) (\<lambda>_.
          if \<not> both use_udp then sret ps
          else sbind (swhen (both use_ipv6) (\<lambda>n. send_each env buf (udp_ipv6_probes (nd_ctx n) (nd_nat n) info) n)) (\<lambda>_.
            if \<not> both use_ipv4 then sret ps
            else (\<lambda>n. sbind (send_each env buf (udp_ipv4_probes (nd_ctx n) (nd_nat n) info)) (\<lambda>_.
              sbind (send_each env buf (udp_open_probes (nd_ctx n) info)) (\<lambda>_.
                case ni_nat_type info of
                  Symmetric \<Rightarrow> punch_symmetric_peer env ps buf peer info cnt
                | Cone \<Rightarrow> sbind (punch_cone_peer env buf info) (\<lambda>_. sret ps))) n))) n)"

section \<open>The punching threads\<close>

text \<open>One turn of \<open>punch_start\<close>: a request that the client key seals, sent to wherever the peer may be. The
  count of the peer goes up, an error ends the turn.\<close>

definition punch_request_packet :: "ipv4_addr \<Rightarrow> ipv4_addr \<Rightarrow> net_packet outcome" where
  "punch_request_packet virtual_ip peer_ip = obind (np_new_encrypt (replicate (12 + ENCRYPTION_RESERVED) 0)) (oseq [
     np_set_default_version, np_first_set_ttl 1, np_set_protocol Control,
     np_set_transport_protocol (control_protocol_into CPunchRequest), np_set_source virtual_ip,
     np_set_destination peer_ip])"

type_synonym punch_record = "ipv4_addr \<Rightarrow> nat option"

definition punch_turn :: "node_env \<Rightarrow> node_config \<Rightarrow> punch_state \<Rightarrow> punch_record \<Rightarrow> ipv4_addr \<Rightarrow> nat_info \<Rightarrow>
    (punch_state \<times> punch_record) node_action" where
  "punch_turn env cfg ps record peer_ip info n =
     (let cnt = (case record peer_ip of Some v \<Rightarrow> v + 1 | None \<Rightarrow> 0); record = record(peer_ip \<mapsto> cnt)
      in case punch_request_packet (cd_virtual_ip (nd_current n)) peer_ip of
        Ok p \<Rightarrow>
          (case node_encrypt env (nc_client_cipher cfg) p n of
             (Ok q, n) \<Rightarrow> (case sbind (slift (np_buffer_part q)) (\<lambda>buf. punch env ps buf peer_ip info (cnt < 2) cnt) n of
                 (Ok ps, n) \<Rightarrow> (Ok (ps, record), n) | (Err _, n) \<Rightarrow> (Ok (ps, record), n) | (Panic, n) \<Rightarrow> (Panic, n))
           | (Err _, n) \<Rightarrow> (Ok (ps, record), n) | (Panic, n) \<Rightarrow> (Panic, n))
      | _ \<Rightarrow> (Panic, n))"

section \<open>Whom to punch\<close>

record punch_record_item =
  pr_punch_record :: nat
  pr_last_p2p_num :: nat

type_synonym punch_memory = "punch_record \<times> (ipv4_addr \<Rightarrow> punch_record_item option)"

text \<open>The loop of \<open>punch0\<close> up to the peer that gets a request, if any. Peers with a smaller address are left to
  ask themselves.\<close>

fun choose_peer :: "(ipv4_addr \<Rightarrow> nat) \<Rightarrow> nat \<Rightarrow> nat \<Rightarrow> peer_device_info list \<Rightarrow> punch_memory \<Rightarrow>
    ipv4_addr option \<times> punch_memory" where
  "choose_peer p2p channels total_count [] mem = (None, mem)"
| "choose_peer p2p channels total_count (info # infos) (record, items) =
     (let ip = pd_virtual_ip info in
      if is_offline (pd_status info) then choose_peer p2p channels total_count infos (record(ip := None), items)
      else
        let punch_count = (case record ip of Some v \<Rightarrow> v | None \<Rightarrow> 0) * 2 div 3; p2p_num = p2p ip in
        if 0 < p2p_num \<and> channels \<le> p2p_num
        then choose_peer p2p channels total_count infos (if punch_count \<noteq> 0 then record(ip := None) else record, items)
        else
          let max_interval = (if 0 < p2p_num then 300 else 50);
              last_punch = (case items ip of Some i \<Rightarrow> i | None \<Rightarrow> \<lparr>pr_punch_record = 0, pr_last_p2p_num = 0\<rparr>);
              lost = p2p_num < pr_last_p2p_num last_punch;
              record = (if lost then record(ip := None) else record); punch_count = (if lost then 0 else punch_count)
          in if pr_punch_record last_punch + min punch_count max_interval < total_count
             then (Some ip, record, items(ip \<mapsto> \<lparr>pr_punch_record = total_count, pr_last_p2p_num = p2p_num\<rparr>))
             else choose_peer p2p channels total_count infos (record, items(ip \<mapsto> last_punch)))"

definition no_public_address :: "nat_info \<Rightarrow> bool" where
  "no_public_address info \<longleftrightarrow> ni_public_ips info = [] \<or> ni_public_ports info = [] \<or> hd (ni_public_ports info) = 0 \<or>
     length (ni_public_ports info) div 2 < length (filter (\<lambda>v. v = 0) (ni_public_ports info))"

definition punch0 :: "node_env \<Rightarrow> node_config \<Rightarrow> punch_memory \<Rightarrow> nat \<Rightarrow> node \<Rightarrow> (unit outcome \<times> punch_memory) \<times> node" where
  "punch0 env cfg mem total_count n =
     (let dev = nd_current n; info = nt_info (nd_nat n) in
      if total_count < 10 \<and> no_public_address info then ((Ok (), mem), n)
      else (case shuffled env (filter (\<lambda>d. \<not> pd_wireguard d \<and> cd_virtual_ip dev < pd_virtual_ip d)
              (map snd (nd_devices n))) n of
          (Ok list, n) \<Rightarrow>
            (case choose_peer (\<lambda>ip. rt_p2p_num ip (cc_route_table (nd_ctx n))) (channel_num (nd_ctx n)) total_count list mem of
               (None, mem) \<Rightarrow> ((Ok (), mem), n)
             | (Some ip, mem) \<Rightarrow>
                 (case sbind (slift (punch_message env False (cd_virtual_ip dev) info ip)) (\<lambda>p.
                     sbind (node_encrypt env (nc_client_cipher cfg) p) (\<lambda>q.
                       on_ctx (send_default (ev_net env) q (cd_connect_server dev)))) n of
                    (r, n) \<Rightarrow> ((r, mem), n)))
        | (Err e, n) \<Rightarrow> ((Err e, mem), n) | (Panic, n) \<Rightarrow> ((Panic, mem), n)))"

text \<open>One turn of the timer: what \<open>punch_request\<close> does before it schedules itself again, and the seconds until then.\<close>

definition punch_request :: "node_env \<Rightarrow> node_config \<Rightarrow> punch_memory \<Rightarrow> nat \<Rightarrow> node \<Rightarrow> (nat outcome \<times> punch_memory) \<times> node" where
  "punch_request env cfg mem cnt n =
     (if cs_online (cd_status (nd_current n)) then
        (case punch0 env cfg mem cnt n of
           ((Panic, mem), n) \<Rightarrow> ((Panic, mem), n)
         | ((_, mem), n) \<Rightarrow> ((Ok (if even cnt then 6 else 7), mem), n))
      else ((Ok 5, mem), n))"

end
