(* ===== verification/Maintenance.thy ===== *)
theory Maintenance
  imports Punching
begin

text \<open>
  The timed tasks of a node, \<open>vnt/src/handle/maintain/\<close> and \<open>vnt/src/channel/idle.rs\<close>: heartbeats to the
  server and to peers, probes through other nodes, the test of the own address, the NAT test, the report
  to the server, the removal of routes that fell silent, and the connection to the server. Each definition
  is one turn of a task and returns, where the code decides it, when the next turn is due; the timer itself
  is not modelled. Punching is in \<open>Punching\<close>.
\<close>

section \<open>Loops\<close>

fun each :: "('a \<Rightarrow> unit node_action) \<Rightarrow> 'a list \<Rightarrow> unit node_action" where
  "each f [] = sret ()"
| "each f (x # xs) = sbind (f x) (\<lambda>_. each f xs)"

text \<open>The value of an action whose error is only logged.\<close>

definition attempt :: "'a node_action \<Rightarrow> 'a option node_action" where
  "attempt m n = (case m n of (Ok x, n) \<Rightarrow> (Ok (Some x), n) | (Err _, n) \<Rightarrow> (Ok None, n) | (Panic, n) \<Rightarrow> (Panic, n))"

section \<open>Heartbeats\<close>

text \<open>The payload of a packet is written in place.\<close>

definition with_ping :: "(bytes \<Rightarrow> bytes outcome) \<Rightarrow> net_packet \<Rightarrow> net_packet outcome" where
  "with_ping f p = obind (np_payload p) (\<lambda>b. obind (ping_new b) (\<lambda>ping. obind (f ping) (\<lambda>b. np_set_payload b p)))"

definition heartbeat_packet :: "node_env \<Rightarrow> ipv4_addr \<Rightarrow> ipv4_addr \<Rightarrow> net_packet node_action" where
  "heartbeat_packet env src dest = sbind (draw (ev_unix env)) (\<lambda>clock.
     slift (obind (np_new_encrypt (replicate (12 + 4 + ENCRYPTION_RESERVED) 0)) (oseq [
       np_set_default_version, np_set_protocol Control, np_set_transport_protocol (control_protocol_into CPing),
       np_first_set_ttl 5, np_set_source src, np_set_destination dest,
       with_ping (ping_set_time (ucast (now_time clock)))])))"

definition heartbeat_packet_client :: "node_env \<Rightarrow> node_config \<Rightarrow> ipv4_addr \<Rightarrow> ipv4_addr \<Rightarrow> net_packet node_action" where
  "heartbeat_packet_client env cfg src dest =
     sbind (heartbeat_packet env src dest) (node_encrypt env (nc_client_cipher cfg))"

definition heartbeat_packet_server :: "node_env \<Rightarrow> node_config \<Rightarrow> ipv4_addr \<Rightarrow> ipv4_addr \<Rightarrow> net_packet node_action" where
  "heartbeat_packet_server env cfg src dest = sbind (heartbeat_packet env src dest) (\<lambda>p n.
     sbind (slift (oseq [with_ping (ping_set_epoch (nd_epoch n)), np_set_gateway_flag True] p))
       (node_encrypt env (nc_server_cipher cfg)) n)"

text \<open>The first step of \<open>heartbeat0\<close>; the result says whether the server was reached.\<close>

definition heartbeat_server :: "node_env \<Rightarrow> node_config \<Rightarrow> current_device_info \<Rightarrow> bool node_action" where
  "heartbeat_server env cfg dev =
     sbind (attempt (sbind (heartbeat_packet_server env cfg (cd_virtual_ip dev) (cd_virtual_gateway dev)) (\<lambda>q.
       on_ctx (send_default (ev_net env) q (cd_connect_server dev))))) (\<lambda>r. sret (r \<noteq> None))"

text \<open>The routes to one address; those beyond the limit get no heartbeat and expire.\<close>

definition heartbeat_routes :: "node_env \<Rightarrow> node_config \<Rightarrow> current_device_info \<Rightarrow> bool \<Rightarrow> ipv4_addr \<times> route list \<Rightarrow>
    unit node_action" where
  "heartbeat_routes env cfg dev is_send_gateway = (\<lambda>(dest_ip, routes).
     if cd_is_gateway dest_ip dev \<and> is_send_gateway then sret ()
     else sbind (attempt (if cd_is_gateway dest_ip dev
           then heartbeat_packet_server env cfg (cd_virtual_ip dev) (cd_virtual_gateway dev)
           else heartbeat_packet_client env cfg (cd_virtual_ip dev) dest_ip)) (\<lambda>packet n. case packet of
         None \<Rightarrow> (Ok (), n)
       | Some q \<Rightarrow>
           (let c = nd_ctx n; limit = (if rtb_first_latency (cc_route_table c) then channel_num c + 1 else channel_num c)
            in each (\<lambda>route. logged (on_ctx (send_by_key (ev_net env) q (route_key_of route)))) (take limit routes) n)))"

text \<open>An online peer without a route is asked through the server.\<close>

definition heartbeat_peer :: "node_env \<Rightarrow> node_config \<Rightarrow> current_device_info \<Rightarrow> peer_device_info \<Rightarrow> unit node_action" where
  "heartbeat_peer env cfg dev peer n =
     (if \<not> is_online (pd_status peer) \<or> pd_wireguard peer \<or> cd_is_gateway (pd_virtual_ip peer) dev \<or>
         cs_offline (cd_status dev) then (Ok (), n)
      else if rt_route_one (pd_virtual_ip peer) (cc_route_table (nd_ctx n)) \<noteq> None then (Ok (), n)
      else logged (sbind (heartbeat_packet_client env cfg (cd_virtual_ip dev) (pd_virtual_ip peer)) (\<lambda>q.
        on_ctx (send_default (ev_net env) q (cd_connect_server dev)))) n)"

definition heartbeat0 :: "node_env \<Rightarrow> node_config \<Rightarrow> unit node_action" where
  "heartbeat0 env cfg n =
     (let dev = nd_current n in
      sbind (heartbeat_server env cfg dev) (\<lambda>sent.
      sbind (\<lambda>n. draw (\<lambda>k. rt_all (ev_order env k (cc_route_table (nd_ctx n))) (cc_route_table (nd_ctx n))) n) (\<lambda>table.
      sbind (each (heartbeat_routes env cfg dev sent) table) (\<lambda>_ n.
        each (heartbeat_peer env cfg dev) (map snd (nd_devices n)) n))) n)"

section \<open>Probes through other nodes\<close>

text \<open>The first three positions of the shuffled routes, without those to the gateway; when the third is one
  of those, the next other one ends the loop.\<close>

fun relay_probes :: "current_device_info \<Rightarrow> nat \<Rightarrow> (ipv4_addr \<times> route) list \<Rightarrow> route list" where
  "relay_probes dev index [] = []"
| "relay_probes dev index ((ip, route) # l) =
     (if cd_is_gateway ip dev then relay_probes dev (index + 1) l
      else route # (if 2 \<le> index then [] else relay_probes dev (index + 1) l))"

fun relay_peers :: "node_env \<Rightarrow> node_config \<Rightarrow> current_device_info \<Rightarrow> peer_device_info list \<Rightarrow> (ipv4_addr \<times> route) list \<Rightarrow>
    unit node_action" where
  "relay_peers env cfg dev [] routes n = (Ok (), n)"
| "relay_peers env cfg dev (peer # peers) routes n =
     (let t = cc_route_table (nd_ctx n) in
      if pd_wireguard peer \<or> \<not> is_online (pd_status peer) \<or> pd_virtual_ip peer = cd_virtual_ip dev \<or>
        (rt_route_one_p2p (pd_virtual_ip peer) t \<noteq> None \<and> \<not> rtb_first_latency t)
      then relay_peers env cfg dev peers routes n
      else sbind (heartbeat_packet_client env cfg (cd_virtual_ip dev) (pd_virtual_ip peer)) (\<lambda>q.
        sbind (shuffled env routes) (\<lambda>routes.
        sbind (each (\<lambda>route. logged (on_ctx (send_by_key (ev_net env) q (route_key_of route)))) (relay_probes dev 0 routes)) (\<lambda>_.
          relay_peers env cfg dev peers routes))) n)"

definition client_relay0 :: "node_env \<Rightarrow> node_config \<Rightarrow> unit node_action" where
  "client_relay0 env cfg n =
     (let dev = nd_current n in
      if cs_offline (cd_status dev) then (Ok (), n)
      else sbind (\<lambda>n. draw (\<lambda>k. rt_all_p2p (ev_order env k (cc_route_table (nd_ctx n))) (cc_route_table (nd_ctx n))) n)
        (\<lambda>routes. relay_peers env cfg dev (map snd (nd_devices n)) routes) n)"

section \<open>The own public address\<close>

text \<open>\<open>NatTest::send_data\<close>: a request to a random STUN server.\<close>

definition nt_send_data :: "node_env \<Rightarrow> (bytes \<times> socket_addr) node_action" where
  "nt_send_data env n = (let servers = nt_stun_server (nd_nat n); len = length servers in
     sbind (if len = 1 then sret 0 else if len = 0 then slift Panic else draw (\<lambda>k. ev_pick env k len)) (\<lambda>index.
       if len \<le> index then slift Panic
       else sbind (slift (obind (ev_stun_resolve env (servers ! index)) (\<lambda>addrs.
           case addrs of [] \<Rightarrow> Err (AnyError ''stun error'') | addr # _ \<Rightarrow> Ok addr))) (\<lambda>addr.
         sbind (draw (ev_stun_request env)) (\<lambda>data. sret (data, addr)))) n)"

definition addr_request0 :: "node_env \<Rightarrow> nat \<Rightarrow> unit node_action" where
  "addr_request0 env index n =
     (if cs_offline (cd_status (nd_current n)) then (Ok (), n)
      else sbind (nt_send_data env) (\<lambda>(data, addr). on_ctx (send_main_udp (ev_net env) index data addr)) n)"

text \<open>One turn of \<open>pub_address_request\<close>: the seconds until the next turn, and its number.\<close>

definition pub_address_request :: "node_env \<Rightarrow> nat \<Rightarrow> (nat \<times> nat) node_action" where
  "pub_address_request env turn n =
     (let channels = channel_num (nd_ctx n); index = turn mod channels in
      if channels = 0 then (Panic, n)
      else sbind (logged (addr_request0 env index)) (\<lambda>_ n.
        let info = nt_info (nd_nat n) in
        (Ok (if 0 \<notin> set (ni_public_ports info) \<and> ni_public_ips info \<noteq> []
             then if ni_nat_type info = Symmetric then 600 else if index = channels - 1 then 19 else 9
             else 3, index + 1), n)) n)"

text \<open>\<open>retrieve_nat_type0\<close>, in a thread of its own; port mapping is not modelled.\<close>

definition retrieve_nat_type0 :: "node_env \<Rightarrow> unit node_action" where
  "retrieve_nat_type0 env = sbind (draw (ev_now env)) (\<lambda>now. sbind (draw (ev_now env)) (\<lambda>now' n.
     case nt_can_update now now' (nd_nat n) of
       (False, _) \<Rightarrow> (Ok (), n)
     | (True, t) \<Rightarrow>
         sbind (if nt_update_local_ipv4 t then draw (ev_local_ipv4 env) else sret None) (\<lambda>local_ipv4.
         sbind (draw (ev_local_ipv6 env)) (\<lambda>local_ipv6.
         sbind (draw (ev_stun_test env)) (\<lambda>r1. sbind (draw (ev_stun_test env)) (\<lambda>r2.
         sbind (attempt (\<lambda>n. case nt_re_test r1 r2 local_ipv4 local_ipv6 (nd_nat n) of (r, t) \<Rightarrow> (r, n\<lparr>nd_nat := t\<rparr>))) (\<lambda>r.
           case r of
             None \<Rightarrow> sret ()
           | Some info \<Rightarrow> sbind (draw (ev_switch env)) (\<lambda>(binds, accept).
               logged (on_ctx (cc_switch (ni_nat_type info) binds accept)))))))) (n\<lparr>nd_nat := t\<rparr>)))"

section \<open>The report to the server\<close>

definition send_up_status_packet :: "node_env \<Rightarrow> unit node_action" where
  "send_up_status_packet env n =
     (let dev = nd_current n in
      if cs_offline (cd_status dev) then (Ok (), n)
      else sbind (\<lambda>n. draw (\<lambda>k. rt_all_p2p (ev_order env k (cc_route_table (nd_ctx n))) (cc_route_table (nd_ctx n))) n) (\<lambda>routes n.
        if routes = [] then (Ok (), n)
        else
          let c = nd_ctx n;
              message = \<lparr>cs_source = cd_virtual_ip dev, cs_p2p_list = map fst routes,
                cs_up_stream = (case cc_up_meter c of None \<Rightarrow> 0 | Some m \<Rightarrow> mm_total m),
                cs_down_stream = (case cc_down_meter c of None \<Rightarrow> 0 | Some m \<Rightarrow> mm_total m),
                cs_nat_type = (if is_cone c then NtCone else NtSymmetric)\<rparr>
          in sbind (slift (obind (or_io_error OtherKind (pr_client_status_info (ev_proto env) message)) (\<lambda>buf.
               obind (np_new_encrypt (replicate (12 + length buf + ENCRYPTION_RESERVED) 0)) (oseq [
                 np_set_default_version, np_set_gateway_flag True, np_set_protocol Service,
                 np_set_transport_protocol (service_protocol_into ClientStatusInfo), np_first_set_ttl MAX_TTL,
                 np_set_source (cd_virtual_ip dev), np_set_destination (cd_virtual_gateway dev),
                 np_set_payload buf])))) (\<lambda>q. on_ctx (send_default (ev_net env) q (cd_connect_server dev))) n) n)"

end
