(* ===== verification/Gateway_Link.thy ===== *)
theory Gateway_Link
  imports Maintenance Server_Handler
begin

text \<open>
  Keeping the link to the server, \<open>vnt/src/handle/maintain/idle.rs\<close> with \<open>vnt/src/channel/idle.rs\<close>: silent
  routes are removed, and while the node is not registered the server's name is resolved again and a
  handshake is sent, from time to time from a new local port. How an address and an error are printed
  is the parameter \<open>describe\<close>.
\<close>

section \<open>Silent routes\<close>

datatype idle_type = IdleTimeout ipv4_addr route | IdleSleep nanos | IdleNone

fun idle_scan :: "nanos \<Rightarrow> nanos \<Rightarrow> nanos \<Rightarrow> (ipv4_addr \<times> route \<times> instant) list \<Rightarrow> idle_type" where
  "idle_scan read_idle now longest [] = IdleSleep (read_idle - longest)"
| "idle_scan read_idle now longest ((ip, route, time) # l) =
     (let last_read = now - time in
      if read_idle \<le> last_read then IdleTimeout ip route
      else idle_scan read_idle now (if longest < last_read then last_read else longest) l)"

text \<open>The table in some order of its addresses.\<close>

definition idle_entries :: "ipv4_addr list \<Rightarrow> route_table \<Rightarrow> (ipv4_addr \<times> route \<times> instant) list" where
  "idle_entries order t = concat (map (\<lambda>ip. case rtb_table t ip of
     None \<Rightarrow> [] | Some (_, routes) \<Rightarrow> map (\<lambda>(route, time). (ip, route, time)) routes) order)"

definition next_idle :: "nanos \<Rightarrow> nanos \<Rightarrow> ipv4_addr list \<Rightarrow> route_table \<Rightarrow> idle_type" where
  "next_idle read_idle now order t =
     (if order = [] then IdleNone else idle_scan read_idle now 0 (idle_entries order t))"

section \<open>Hooks\<close>

primrec protocol_text :: "connect_protocol \<Rightarrow> string" where
  "protocol_text UDP = ''udp''"
| "protocol_text TCP = ''tcp''"
| "protocol_text WS = ''ws''"
| "protocol_text WSS = ''wss''"

text \<open>On Linux, with the interface of the program itself.\<close>

definition hook_tun_name :: "base_config_info \<Rightarrow> string option" where
  "hook_tun_name b = Some (case bi_device_name b of Some name \<Rightarrow> name | None \<Rightarrow> ''vnt-tun'')"

definition state_hook :: "base_config_info \<Rightarrow> string \<Rightarrow> connect_protocol option \<Rightarrow> u16 option \<Rightarrow> u16 option \<Rightarrow>
    socket_addr option \<Rightarrow> current_device_info option \<Rightarrow> nat option \<Rightarrow> string \<Rightarrow> hook_info option" where
  "state_hook b event protocol local_port old_local_port remote_addr dev reconnect_count reason =
     (let virtual_ip = Option.bind dev (\<lambda>info.
            if is_unspecified (cd_virtual_ip info) then None else Some (cd_virtual_ip info))
      in map_option (\<lambda>hook.
          let hook = hook\<lparr>hk_local_port := local_port, hk_old_local_port := old_local_port, hk_remote_addr := remote_addr,
                hk_tun_name := hook_tun_name b, hk_device_name := Some (bi_name b), hk_device_id := Some (bi_device_id b),
                hk_virtual_ip := virtual_ip, hk_server_addr := Some (bi_server_addr b),
                hk_reconnect_count := reconnect_count, hk_reason := Some reason\<rparr>
          in case protocol of Some p \<Rightarrow> hook\<lparr>hk_protocol := Some (protocol_text p)\<rparr> | None \<Rightarrow> hook)
        (hook_info_new (bi_hook b) event))"

definition run_state_hook :: "base_config_info \<Rightarrow> string \<Rightarrow> route_key option \<Rightarrow> u16 option \<Rightarrow> u16 option \<Rightarrow>
    current_device_info option \<Rightarrow> nat option \<Rightarrow> string \<Rightarrow> unit node_action" where
  "run_state_hook b event key local_port old_local_port dev reconnect_count reason =
     (case state_hook b event (map_option rk_protocol key) local_port old_local_port (map_option rk_addr key) dev
         reconnect_count reason of
        Some hook \<Rightarrow> tell (HookRun hook) | None \<Rightarrow> sret ())"

section \<open>One turn of \<open>idle_route\<close>\<close>

text \<open>The result is the time until the next turn. The clock is read once for the whole table.\<close>

definition idle_route0 :: "node_env \<Rightarrow> node_config \<Rightarrow> nanos \<Rightarrow> nanos node_action" where
  "idle_route0 env cfg read_idle n =
     (let cur = nd_current n in
      sbind (draw (ev_now env)) (\<lambda>now n. sbind (draw (\<lambda>k. ev_order env k (cc_route_table (nd_ctx n)))) (\<lambda>order n.
        case next_idle read_idle now order (cc_route_table (nd_ctx n)) of
          IdleTimeout ip route \<Rightarrow>
            sbind (upd_ctx (cc_remove_route ip (route_key_of route))) (\<lambda>_.
            sbind (if cd_is_gateway ip cur then
                sbind (upd_node (\<lambda>n. n\<lparr>nd_current := (nd_current n)\<lparr>cd_status := Connecting\<rparr>\<rparr>)) (\<lambda>_.
                sbind (\<lambda>n. run_state_hook (nc_base cfg) ''down'' (Some (route_key_of route))
                  (hook_port (route_key_of route) (nd_ctx n)) None (Some cur) None ''route_timeout'' n) (\<lambda>_.
                  tell (HostError (error_info_new EtDisconnect))))
              else sret ()) (\<lambda>_. sret (NANOS div 10))) n
        | IdleSleep duration \<Rightarrow> (Ok duration, n)
        | IdleNone \<Rightarrow> (Ok (3 * NANOS), n)) n) n)"

section \<open>The server's address\<close>

text \<open>\<open>domain_request0\<close>: the device information with the address that is used from now on, and whether the
  name was resolved.\<close>

definition domain_request0 :: "node_env \<Rightarrow> node_config \<Rightarrow> (current_device_info \<times> bool) node_action" where
  "domain_request0 env cfg =
     sbind (draw (ev_dns env)) (\<lambda>dns.
     sbind (attempt (slift (dns_query_all dns (bi_server_addr (nc_base cfg)) (bi_name_servers (nc_base cfg))))) (\<lambda>r.
       case r of
         None \<Rightarrow> (\<lambda>n. (Ok (nd_current n, False), n))
       | Some addrs \<Rightarrow> sbind (draw (\<lambda>k. (ev_bind env k, ev_connects env k))) (\<lambda>(bind, connects) n.
           case address_choose bind connects addrs (nd_history n) of
             (None, history) \<Rightarrow> (Ok (nd_current n, True), n\<lparr>nd_history := history\<rparr>)
           | (Some addr, history) \<Rightarrow>
               (let cur = (nd_current n)\<lparr>cd_connect_server := addr\<rparr>
                in (Ok (cur, True), n\<lparr>nd_history := history, nd_current := cur\<rparr>)))))"

definition DEFAULT_RECONNECT_REBIND_INTERVAL :: nat where
  "DEFAULT_RECONNECT_REBIND_INTERVAL = 20"

text \<open>\<open>VNT_REBIND\<close>, a positive \<open>usize\<close>.\<close>

definition reconnect_rebind_interval :: "node_env \<Rightarrow> nat" where
  "reconnect_rebind_interval env = (case Option.bind (ev_rebind env) (parse_unsigned (2 ^ 64)) of
     Some v \<Rightarrow> if 0 < v then v else DEFAULT_RECONNECT_REBIND_INTERVAL | None \<Rightarrow> DEFAULT_RECONNECT_REBIND_INTERVAL)"

section \<open>Connecting\<close>

text \<open>After every so many attempts the default route is given up and the server is tried from a new port or
  over a new connection.\<close>

definition force_new_route :: "node_env \<Rightarrow> node_config \<Rightarrow> current_device_info \<Rightarrow> nat \<Rightarrow> unit node_action" where
  "force_new_route env cfg cur tries n =
     (let b = nc_base cfg; server = cd_connect_server cur; old = cc_default_local_port (nd_ctx n);
          hook = (\<lambda>protocol. state_hook b ''reconnect'' protocol None old (Some server) (Some cur) (Some tries) ''rebind'')
      in sbind (slift (handshake_request_packet (ev_proto env) (nd_rsa n) (bi_server_secret b))) (\<lambda>q.
         sbind (upd_ctx clear_default_route_key) (\<lambda>_ n. case cc_protocol (nd_ctx n) of
             UDP \<Rightarrow> sbind (draw (ev_udp_reset env)) (\<lambda>(binds, accept).
               sbind (attempt (on_ctx (reset_reconnect_udp_socket binds accept server))) (\<lambda>r. case r of
                   None \<Rightarrow> sret ()
                 | Some (index, port) \<Rightarrow>
                     sbind (upd_ctx (\<lambda>c. c\<lparr>cc_default_local_port := Some port\<rparr>)) (\<lambda>_.
                     sbind (run_state_hook b ''reconnect'' (Some (RouteKey UDP index server)) (Some port) old (Some cur)
                       (Some tries) ''rebind'') (\<lambda>_.
                       on_ctx (send_by_key (ev_net env) q (RouteKey UDP index server)))))) n
           | TCP \<Rightarrow> request_connect (ConnectTcp (np_buffer q) (Some 0) server (hook (Some TCP))) n
           | p \<Rightarrow> request_connect (ConnectWs (np_buffer q) (bi_server_addr b)
               (map_option (\<lambda>h. h\<lparr>hk_protocol := Some (protocol_text p)\<rparr>) (hook None))) n)) n)"

text \<open>A handshake over the default route; when that fails, a new connection is asked for.\<close>

definition send_or_connect :: "node_env \<Rightarrow> node_config \<Rightarrow> current_device_info \<Rightarrow> unit node_action" where
  "send_or_connect env cfg cur =
     (let b = nc_base cfg; server = cd_connect_server cur in
      sbind (attempt (node_handshake_send env cfg server)) (\<lambda>r. case r of
          Some _ \<Rightarrow> sret ()
        | None \<Rightarrow> (\<lambda>n. sbind (slift (handshake_request_packet (ev_proto env) (nd_rsa n) (bi_server_secret b))) (\<lambda>q n.
            case cc_protocol (nd_ctx n) of
              UDP \<Rightarrow> (Ok (), n)
            | TCP \<Rightarrow> request_connect (ConnectTcp (np_buffer q) None server None) n
            | _ \<Rightarrow> request_connect (ConnectWs (np_buffer q) (bi_server_addr b) None) n) n)))"

text \<open>\<open>check_gateway_channel\<close> with the counter of attempts.\<close>

definition check_gateway_channel :: "node_env \<Rightarrow> node_config \<Rightarrow> nat \<Rightarrow> node \<Rightarrow> (unit outcome \<times> nat) \<times> node" where
  "check_gateway_channel env cfg tries n =
     (if cs_offline (cd_status (nd_current n)) then
        let tries = tries + 1 in
        (case sbind (if is_transport (cc_protocol (nd_ctx n)) then domain_request0 env cfg
              else (\<lambda>n. (Ok (nd_current n, True), n))) (\<lambda>(cur, dns_ok).
            sbind (tell (HostConnect (connect_info_new tries (cd_connect_server cur)))) (\<lambda>_.
              if dns_ok \<and> tries mod reconnect_rebind_interval env = 0 then force_new_route env cfg cur tries
              else send_or_connect env cfg cur)) n of
           (r, n) \<Rightarrow> ((r, tries), n))
      else ((Ok (), tries), n))"

text \<open>One turn of \<open>idle_gateway\<close>; it comes again after eight seconds.\<close>

definition idle_gateway0 :: "node_env \<Rightarrow> node_config \<Rightarrow> (socket_addr \<Rightarrow> vnt_error \<Rightarrow> bytes) \<Rightarrow> nat \<Rightarrow> nat node_action" where
  "idle_gateway0 env cfg describe tries n = (case check_gateway_channel env cfg tries n of
       ((Ok _, tries), n) \<Rightarrow> (Ok tries, n)
     | ((Err e, tries), n) \<Rightarrow>
         sbind (tell (HostError (error_info_new_msg EtDisconnect (describe (cd_connect_server (nd_current n)) e))))
           (\<lambda>_. sret tries) n
     | ((Panic, _), n) \<Rightarrow> (Panic, n))"

end
