(* ===== verification/Proxy_Tasks.thy ===== *)
theory Proxy_Tasks
  imports Ip_Sender
begin

text \<open>
  The tasks behind the proxies of \<open>vnt/src/ip_proxy/\<close> and behind the port mappings of \<open>vnt/src/port_mapping/\<close>:
  what \<open>icmp_proxy.rs\<close> does with an answer on its raw socket, the relay of datagrams of \<open>udp_proxy.rs\<close> and
  \<open>udp_mapping.rs\<close> with its sessions, and the connections of \<open>tcp_proxy.rs\<close>. Sockets answer through arguments;
  copying the octets of a TCP connection is left to the runtime.

  The theorems: an ICMP answer goes to the peer that asked; the sessions of a relay are in order whatever
  interleaves; a peer that talks to two hosts from one UDP port has what it sends to the second delivered
  to the first; a session can outlive what translates its answers.
\<close>

section \<open>ICMP answers\<close>

definition icmp_forward :: "node_env \<Rightarrow> node_config \<Rightarrow> bytes \<Rightarrow> nat \<Rightarrow> ipv4_addr \<Rightarrow> bytes \<Rightarrow> unit node_action" where
  "icmp_forward env cfg buf data_len dest_ip ipv4 n = (let dev = nd_current n in
     sbind (slift (obind (oseq [ipv4_set_destination_ip dest_ip, ipv4_update_checksum (ev_keep env)] ipv4)
       (\<lambda>ipv4. put_slice 12 data_len ipv4 buf))) (\<lambda>buf.
     sbind (slift (case np_new0 data_len buf of Err e \<Rightarrow> Panic | r \<Rightarrow> r)) (\<lambda>p.
     sbind (slift (oseq [np_set_default_version, np_set_protocol IpTurn,
         np_set_transport_protocol (ip_turn_protocol_into TurnIpv4), np_first_set_ttl 15,
         np_set_source (cd_virtual_ip dev), np_set_destination dest_ip] p)) (\<lambda>p.
       logged (sbind (client_encrypt env cfg (False, p)) (\<lambda>q. sbind (draw (ev_lost env)) (\<lambda>lost.
         on_ctx (send_ipv4_by_id (ev_net env) lost q dest_ip (cd_connect_server dev) (cs_online (cd_status dev))))))))) n)"

text \<open>\<open>recv_handle\<close>: \<open>buf\<close> holds 12 free octets and then the IPv4 packet the socket gave.\<close>

definition icmp_answer :: "node_env \<Rightarrow> node_config \<Rightarrow> bytes \<Rightarrow> nat \<Rightarrow> ipv4_addr \<Rightarrow> unit node_action" where
  "icmp_answer env cfg buf data_len peer_ip n = (case nd_proxy n of None \<Rightarrow> (Ok (), n)
     | Some P \<Rightarrow> (case obind (slice buf 12 data_len) ipv4_new of
         Panic \<Rightarrow> (Panic, n) | Err e \<Rightarrow> (Ok (), n)
       | Ok ipv4 \<Rightarrow> (case obind (ipv4_payload ipv4) icmp_new of
           Panic \<Rightarrow> (Panic, n) | Err e \<Rightarrow> (Ok (), n)
         | Ok icmp \<Rightarrow> (case icmp_header_other icmp of
             Panic \<Rightarrow> (Panic, n) | Err e \<Rightarrow> (Ok (), n)
           | Ok (Identifier ide sq) \<Rightarrow> (case px_icmp_map P (peer_ip, ide, sq) of
               None \<Rightarrow> (Ok (), n)
             | Some dest_ip \<Rightarrow> icmp_forward env cfg buf data_len dest_ip ipv4 n)
           | Ok h \<Rightarrow> (Ok (), n)))))"

section \<open>Relaying datagrams\<close>

text \<open>
  A session has a socket connected to \<open>ss_dest\<close> and a task that reads it. The task serves until its loop is
  left; it then takes the session out of the map of sessions, and after that (the proxy only) the source out
  of the map of the translation.
\<close>

datatype phase = Serving | Leaving | Unlinked | Ended

record ('k, 'd) relay_session =
  ss_key :: 'k
  ss_dest :: 'd
  ss_time :: nanos
  ss_phase :: phase

record ('k, 'd) relay =
  rl_inner :: "'k \<Rightarrow> nat option"
  rl_sessions :: "('k, 'd) relay_session list"
  rl_sent :: "('d \<times> bytes) list"
  rl_back :: "('k \<times> bytes) list"

definition relay_new :: "('k, 'd) relay" where
  "relay_new = \<lparr>rl_inner = (\<lambda>_. None), rl_sessions = [], rl_sent = [], rl_back = []\<rparr>"

text \<open>The answers of the sockets: binding with the port of the source, binding with any port, connecting, sending.\<close>

record socket_env =
  se_same :: "unit outcome"
  se_any :: "unit outcome"
  se_connect :: "unit outcome"
  se_send :: "unit outcome"
  se_now :: nanos

definition bind_either :: "socket_env \<Rightarrow> unit outcome" where
  "bind_either E = (case se_same E of Err e \<Rightarrow> se_any E | r \<Rightarrow> r)"

definition relay_open :: "unit outcome \<Rightarrow> socket_env \<Rightarrow> 'k \<Rightarrow> 'd \<Rightarrow> bytes \<Rightarrow> (('k, 'd) relay, unit) action" where
  "relay_open bound E key dest buf =
     sbind (slift bound) (\<lambda>_. sbind (slift (se_connect E)) (\<lambda>_. sbind (slift (se_send E)) (\<lambda>_ r.
       (Ok (), r\<lparr>rl_inner := (rl_inner r)(key \<mapsto> length (rl_sessions r)),
         rl_sessions := rl_sessions r @ [\<lparr>ss_key = key, ss_dest = dest, ss_time = se_now E, ss_phase = Serving\<rparr>],
         rl_sent := rl_sent r @ [(dest, buf)]\<rparr>))))"

definition relay_again :: "socket_env \<Rightarrow> nat \<Rightarrow> bytes \<Rightarrow> (('k, 'd) relay, unit) action" where
  "relay_again E i buf r = (let s = rl_sessions r ! i in
     sbind (slift (se_send E)) (\<lambda>_ r. (Ok (), r\<lparr>rl_sent := rl_sent r @ [(ss_dest s, buf)]\<rparr>))
       (r\<lparr>rl_sessions := (rl_sessions r)[i := s\<lparr>ss_time := se_now E\<rparr>]\<rparr>))"

text \<open>A datagram of the proxy goes to the host the translation has noted for its source, one of a port mapping to the
  destination of the mapping.\<close>

definition udp_proxy0 :: "socket_env \<Rightarrow> nat_map \<Rightarrow> sock_v4 \<Rightarrow> bytes \<Rightarrow> ((sock_v4, sock_v4) relay, unit) action" where
  "udp_proxy0 E m sender buf r = (case rl_inner r sender of
       Some i \<Rightarrow> relay_again E i buf r
     | None \<Rightarrow> (case m sender of
         Some dest \<Rightarrow> relay_open (bind_either E) E sender dest buf r
       | None \<Rightarrow> (Ok (), r)))"

text \<open>The loop of the proxy passes on what IPv4 senders send, and ends with no error.\<close>

definition udp_proxy_turn :: "socket_env \<Rightarrow> nat_map \<Rightarrow> socket_addr \<Rightarrow> bytes \<Rightarrow> (sock_v4, sock_v4) relay \<Rightarrow> (sock_v4, sock_v4) relay" where
  "udp_proxy_turn E m sender buf r = (case sender of SockV4 ip port \<Rightarrow> snd (udp_proxy0 E m (ip, port) buf r) | _ \<Rightarrow> r)"

definition udp_mapping0 :: "socket_env \<Rightarrow> string \<Rightarrow> socket_addr \<Rightarrow> bytes \<Rightarrow> ((socket_addr, string) relay, unit) action" where
  "udp_mapping0 E destination src_addr buf r = (case rl_inner r src_addr of
       Some i \<Rightarrow> relay_again E i buf r
     | None \<Rightarrow> relay_open (se_any E) E src_addr destination buf r)"

text \<open>What the task of a session sees: octets, and how sending them back ended; an error; ten minutes of silence.\<close>

datatype peer_event = PeerData bytes "unit outcome" | PeerError | PeerTimeout nanos

definition session_phase :: "nat \<Rightarrow> phase \<Rightarrow> ('k, 'd) relay \<Rightarrow> ('k, 'd) relay" where
  "session_phase i ph r = r\<lparr>rl_sessions := (rl_sessions r)[i := (rl_sessions r ! i)\<lparr>ss_phase := ph\<rparr>]\<rparr>"

definition session_event :: "nat \<Rightarrow> peer_event \<Rightarrow> ('k, 'd) relay \<Rightarrow> ('k, 'd) relay" where
  "session_event i ev r = (let s = rl_sessions r ! i in case ev of
       PeerData buf sent \<Rightarrow> (case sent of
           Ok _ \<Rightarrow> r\<lparr>rl_back := rl_back r @ [(ss_key s, buf)]\<rparr>
         | _ \<Rightarrow> session_phase i Leaving r)
     | PeerError \<Rightarrow> session_phase i Leaving r
     | PeerTimeout now \<Rightarrow> if 580 * 10 ^ 9 < now - ss_time s then session_phase i Leaving r else r)"

definition session_unlink :: "nat \<Rightarrow> ('k, 'd) relay \<Rightarrow> ('k, 'd) relay" where
  "session_unlink i r = session_phase i Unlinked (r\<lparr>rl_inner := (rl_inner r)(ss_key (rl_sessions r ! i) := None)\<rparr>)"

section \<open>TCP connections\<close>

text \<open>A connection to the port of the proxy is continued to the host noted for its source, from the same port if that
  can be had.\<close>

definition tcp_proxy_accept :: "nat_map \<Rightarrow> socket_addr \<Rightarrow> sock_v4 option" where
  "tcp_proxy_accept m sender = (case sender of SockV4 ip port \<Rightarrow> m (ip, port) | _ \<Rightarrow> None)"

definition tcp_connect :: "socket_env \<Rightarrow> unit outcome" where
  "tcp_connect E = obind (bind_either E) (\<lambda>_. se_connect E)"

section \<open>Who gets an ICMP answer\<close>

definition icmp_echo :: "bytes \<Rightarrow> nat \<Rightarrow> bytes \<Rightarrow> u16 \<Rightarrow> u16 \<Rightarrow> bool" where
  "icmp_echo buf data_len ipv4 ide sq \<longleftrightarrow> obind (slice buf 12 data_len) ipv4_new = Ok ipv4 \<and>
     (\<exists>icmp. obind (ipv4_payload ipv4) icmp_new = Ok icmp \<and> icmp_header_other icmp = Ok (Identifier ide sq))"

lemma icmp_answer_unknown:
  "icmp_echo buf data_len ipv4 ide sq \<Longrightarrow> nd_proxy n = Some P \<Longrightarrow> px_icmp_map P (peer_ip, ide, sq) = None \<Longrightarrow>
   icmp_answer env cfg buf data_len peer_ip n = (Ok (), n)"
  by (auto simp: icmp_answer_def icmp_echo_def)

text \<open>The answer to a request that a peer sent through this node goes to that peer.\<close>

lemma icmp_answer_returns:
  assumes "ipv4_protocol b = Ok IpIcmp" and "proxy_recv_handle keep sent source destination (P, b) = (Ok True, P', b')"
    and "ipv4_destination_ip b = Ok host" and "ipv4_offset b = Ok 0" and "ipv4_flags b = Ok flags" and "flags AND 1 \<noteq> 1"
    and "obind (ipv4_payload b) icmp_new = Ok icmp" and "icmp_header_other icmp = Ok (Identifier ide sq)"
    and "icmp_echo buf data_len ipv4 ide sq" and "nd_proxy n = Some P'"
  shows "icmp_answer env cfg buf data_len host n = icmp_forward env cfg buf data_len source ipv4 n"
proof -
  have "icmp_recv_handle sent source destination b P = (Ok True, P')"
    using assms(1,2) by (auto simp: proxy_recv_handle_def split: prod.splits)
  then have "px_icmp_map P' (host, ide, sq) = Some source"
    using assms(3-8) by (auto simp: icmp_recv_handle_def sbind_def slift_def Let_def split: outcome.splits)
  then show ?thesis using assms(9,10) by (auto simp: icmp_answer_def icmp_echo_def)
qed

section \<open>The sessions of a relay\<close>

text \<open>Every session that is not taken out is the one its source finds, and there is no other in the map.\<close>

definition in_use :: "('k, 'd) relay_session \<Rightarrow> bool" where
  "in_use s \<longleftrightarrow> ss_phase s = Serving \<or> ss_phase s = Leaving"

definition relay_ok :: "('k, 'd) relay \<Rightarrow> bool" where
  "relay_ok r \<longleftrightarrow> (\<forall>k i. rl_inner r k = Some i \<longleftrightarrow> i < length (rl_sessions r) \<and> ss_key (rl_sessions r ! i) = k \<and> in_use (rl_sessions r ! i))"

lemma relay_okD:
  "relay_ok r \<Longrightarrow> rl_inner r k = Some i \<longleftrightarrow> i < length (rl_sessions r) \<and> ss_key (rl_sessions r ! i) = k \<and> in_use (rl_sessions r ! i)"
  by (simp add: relay_ok_def)

lemma relay_ok_new: "relay_ok relay_new"
  by (simp add: relay_ok_def relay_new_def)

lemma relay_ok_sent [simp]:
  "relay_ok (r\<lparr>rl_sent := x\<rparr>) = relay_ok r" "relay_ok (r\<lparr>rl_back := y\<rparr>) = relay_ok r"
  by (simp_all add: relay_ok_def)

lemma relay_ok_open:
  assumes "relay_ok r" and "rl_inner r key = None"
  shows "relay_ok (snd (relay_open bound E key dest buf r))"
proof -
  have free: "\<not> (i < length (rl_sessions r) \<and> ss_key (rl_sessions r ! i) = key \<and> in_use (rl_sessions r ! i))" for i
    using relay_okD [OF assms(1), of key i] assms(2) by simp
  have "relay_ok (r\<lparr>rl_inner := (rl_inner r)(key \<mapsto> length (rl_sessions r)),
      rl_sessions := rl_sessions r @ [\<lparr>ss_key = key, ss_dest = dest, ss_time = t, ss_phase = Serving\<rparr>]\<rparr>)" for t
    using assms(1) free by (auto simp: relay_ok_def nth_append in_use_def less_Suc_eq)
  then show ?thesis
    using assms(1) relay_ok_sent(1) by (auto simp: relay_open_def sbind_def slift_def split: outcome.splits)
qed

lemma relay_ok_update:
  "relay_ok r \<Longrightarrow> i < length (rl_sessions r) \<Longrightarrow> ss_key s = ss_key (rl_sessions r ! i) \<Longrightarrow>
   in_use s = in_use (rl_sessions r ! i) \<Longrightarrow> relay_ok (r\<lparr>rl_sessions := (rl_sessions r)[i := s]\<rparr>)"
  by (auto simp: relay_ok_def nth_list_update split: if_splits)

lemma relay_ok_again: "relay_ok r \<Longrightarrow> rl_inner r key = Some i \<Longrightarrow> relay_ok (snd (relay_again E i buf r))"
proof -
  assume r: "relay_ok r" and i: "rl_inner r key = Some i"
  then have "i < length (rl_sessions r)" by (simp add: relay_ok_def)
  then have "relay_ok (r\<lparr>rl_sessions := (rl_sessions r)[i := (rl_sessions r ! i)\<lparr>ss_time := t\<rparr>]\<rparr>)" for t
    by (rule relay_ok_update [OF r]) (simp_all add: in_use_def)
  then show ?thesis using relay_ok_sent(1) by (auto simp: relay_again_def sbind_def slift_def Let_def split: outcome.splits)
qed

lemma relay_ok_event:
  assumes "relay_ok r" and "i < length (rl_sessions r)" and "ss_phase (rl_sessions r ! i) = Serving"
  shows "relay_ok (session_event i ev r)"
proof -
  have "relay_ok (session_phase i Leaving r)"
    unfolding session_phase_def by (rule relay_ok_update [OF assms(1,2)]) (use assms(3) in \<open>simp_all add: in_use_def\<close>)
  then show ?thesis using assms(1) by (simp add: session_event_def Let_def split: peer_event.split outcome.split)
qed

lemma relay_ok_unlink:
  assumes "relay_ok r" and "i < length (rl_sessions r)" and "ss_phase (rl_sessions r ! i) = Leaving"
  shows "relay_ok (session_unlink i r)"
proof -
  have own: "rl_inner r (ss_key (rl_sessions r ! i)) = Some i" using assms by (simp add: relay_ok_def in_use_def)
  have one: "j = i" if "j < length (rl_sessions r)" "ss_key (rl_sessions r ! j) = ss_key (rl_sessions r ! i)"
      "in_use (rl_sessions r ! j)" for j
  proof -
    have "rl_inner r (ss_key (rl_sessions r ! i)) = Some j" using iffD2 [OF relay_okD [OF assms(1)]] that by blast
    then show ?thesis using own by simp
  qed
  show ?thesis
    unfolding relay_ok_def
  proof (intro allI)
    fix k j
    show "rl_inner (session_unlink i r) k = Some j \<longleftrightarrow> j < length (rl_sessions (session_unlink i r)) \<and>
        ss_key (rl_sessions (session_unlink i r) ! j) = k \<and> in_use (rl_sessions (session_unlink i r) ! j)"
    proof (cases "j = i")
      case True
      have "rl_inner r k = Some i \<longrightarrow> k = ss_key (rl_sessions r ! i)" using relay_okD [OF assms(1), of k i] by simp
      then show ?thesis using True assms(2)
        by (cases "k = ss_key (rl_sessions r ! i)") (simp_all add: session_unlink_def session_phase_def in_use_def)
    next
      case False
      then show ?thesis using relay_okD [OF assms(1), of k j] one [of j] assms(2)
        by (cases "k = ss_key (rl_sessions r ! i)") (simp_all add: session_unlink_def session_phase_def, blast)
    qed
  qed
qed

section \<open>The proxy for datagrams\<close>

text \<open>What goes on at once: the translation notes the host of a source, a datagram comes to the port of the proxy, the
  task of a session sees something, leaves the map of the sessions, and then that of the translation.\<close>

inductive udp_step :: "nat_map \<times> (sock_v4, sock_v4) relay \<Rightarrow> nat_map \<times> (sock_v4, sock_v4) relay \<Rightarrow> bool" where
  noted: "udp_step (m, r) (m(key \<mapsto> host), r)"
| datagram: "udp_step (m, r) (m, snd (udp_proxy0 E m sender buf r))"
| seen: "i < length (rl_sessions r) \<Longrightarrow> ss_phase (rl_sessions r ! i) = Serving \<Longrightarrow> udp_step (m, r) (m, session_event i ev r)"
| unlinked: "i < length (rl_sessions r) \<Longrightarrow> ss_phase (rl_sessions r ! i) = Leaving \<Longrightarrow> udp_step (m, r) (m, session_unlink i r)"
| ended: "i < length (rl_sessions r) \<Longrightarrow> ss_phase (rl_sessions r ! i) = Unlinked \<Longrightarrow>
    udp_step (m, r) (m(ss_key (rl_sessions r ! i) := None), session_phase i Ended r)"

inductive udp_reach :: "nat_map \<times> (sock_v4, sock_v4) relay \<Rightarrow> bool" where
  start: "udp_reach (m, relay_new)"
| step: "udp_reach s \<Longrightarrow> udp_step s s' \<Longrightarrow> udp_reach s'"

lemma udp_step_ok: "udp_step s s' \<Longrightarrow> relay_ok (snd s) \<Longrightarrow> relay_ok (snd s')"
proof (induction rule: udp_step.induct)
  case (datagram m r E sender buf)
  then show ?case by (auto simp: udp_proxy0_def relay_ok_again relay_ok_open split: option.split)
next
  case (ended i r m)
  then show ?case unfolding session_phase_def by (auto intro!: relay_ok_update simp: in_use_def)
qed (auto simp: relay_ok_event relay_ok_unlink)

text \<open>However the proxy is used, a source has at most one session in use, and it is the one its datagrams take.\<close>

theorem udp_reach_ok: "udp_reach s \<Longrightarrow> relay_ok (snd s)"
  by (induction rule: udp_reach.induct) (auto simp: relay_ok_new dest: udp_step_ok)

text \<open>A port mapping is a relay whose destination is fixed; all that its sessions send goes there.\<close>

lemma udp_mapping0_ok:
  fixes E :: socket_env and src :: socket_addr and buf :: bytes
  assumes "relay_ok r" and "\<forall>s \<in> set (rl_sessions r). ss_dest s = d" and "\<forall>x \<in> set (rl_sent r). fst x = d"
  defines "r' \<equiv> snd (udp_mapping0 E d src buf r)"
  shows "relay_ok r' \<and> (\<forall>s \<in> set (rl_sessions r'). ss_dest s = d) \<and> (\<forall>x \<in> set (rl_sent r'). fst x = d)"
proof (cases "rl_inner r src")
  case None
  then show ?thesis
    using assms relay_ok_open [OF assms(1) None, of "se_any E" E d buf]
    by (auto simp: udp_mapping0_def relay_open_def sbind_def slift_def split: outcome.splits)
next
  case (Some i)
  then have i: "i < length (rl_sessions r)" using relay_okD [OF assms(1)] by simp
  then have "ss_dest (rl_sessions r ! i) = d" using assms(2) by simp
  then show ?thesis
    using assms Some i relay_ok_again [OF assms(1) Some, of E buf]
    by (auto simp: udp_mapping0_def relay_again_def sbind_def slift_def Let_def dest!: set_update_subset_insert [THEN subsetD]
        split: outcome.splits)
qed

section \<open>Two hosts from one port\<close>

lemma udp_proxy0_first:
  assumes "rl_inner r src = None" and "m src = Some host" and "bind_either E = Ok ()" and "se_connect E = Ok ()" and "se_send E = Ok ()"
  shows "\<exists>r'. udp_proxy0 E m src buf r = (Ok (), r') \<and> rl_inner r' src = Some (length (rl_sessions r)) \<and>
    rl_sent r' = rl_sent r @ [(host, buf)] \<and> length (rl_sessions r') = Suc (length (rl_sessions r)) \<and>
    ss_dest (rl_sessions r' ! length (rl_sessions r)) = host"
  using assms by (simp add: udp_proxy0_def relay_open_def sbind_def slift_def)

lemma udp_proxy0_again:
  assumes "rl_inner r src = Some i" and "se_send E = Ok ()"
  shows "\<exists>r'. udp_proxy0 E m src buf r = (Ok (), r') \<and> rl_sent r' = rl_sent r @ [(ss_dest (rl_sessions r ! i), buf)]"
  using assms by (simp add: udp_proxy0_def relay_again_def sbind_def slift_def Let_def)

text \<open>C37: A peer that contacts two hosts of the network behind this node from one UDP port: its packets for the second host
  are translated as they should be, but the session of the port delivers what is in them to the first host, and what the
  first host answers reaches the peer as a packet of the second.\<close>

theorem second_host_unreached:
  assumes "ip_flow IpUdp b1 pl1 host1 sport hport1" and "ip_flow IpUdp b2 pl2 host2 sport hport2"
    and "ip_flow IpUdp q rl source rport sport"
    and "proxy_recv_handle keep sent source destination (P, b1) = (r1, P1, c1)"
    and "proxy_recv_handle keep sent source destination (P1, b2) = (r2, P2, c2)"
    and "rl_inner r (source, sport) = None"
    and "bind_either E = Ok ()" and "se_connect E = Ok ()" and "se_send E = Ok ()" and "se_send E' = Ok ()"
  shows "\<exists>t t' q' rl'. udp_proxy0 E (px_udp_map P1) (source, sport) d1 r = (Ok (), t) \<and>
    udp_proxy0 E' (px_udp_map P2) (source, sport) d2 t = (Ok (), t') \<and>
    rl_sent t' = rl_sent r @ [((host1, hport1), d1), ((host1, hport1), d2)] \<and>
    proxy_send_handle keep P2 q = Ok q' \<and> ipv4_source_ip q' = Ok host2 \<and> ipv4_payload q' = Ok rl' \<and> u16_at rl' 0 = hport2"
proof -
  have m1: "px_udp_map P1 (source, sport) = Some (host1, hport1)"
    using proxy_forward [OF assms(1), of keep sent source destination P] assms(4) by (auto simp: px_map_def)
  have m2: "px_map IpUdp P2 (source, sport) = Some (host2, hport2)"
    using proxy_forward [OF assms(2), of keep sent source destination P1] assms(5) by auto
  obtain t where t: "udp_proxy0 E (px_udp_map P1) (source, sport) d1 r = (Ok (), t)"
      "rl_inner t (source, sport) = Some (length (rl_sessions r))" "rl_sent t = rl_sent r @ [((host1, hport1), d1)]"
      "ss_dest (rl_sessions t ! length (rl_sessions r)) = (host1, hport1)"
    using udp_proxy0_first [where m = "px_udp_map P1", OF assms(6) m1 assms(7-9), of d1] by blast
  obtain t' where t': "udp_proxy0 E' (px_udp_map P2) (source, sport) d2 t = (Ok (), t')"
      "rl_sent t' = rl_sent t @ [((host1, hport1), d2)]"
    using udp_proxy0_again [OF t(2) assms(10), of "px_udp_map P2" d2] t(4) by auto
  from proxy_backward [OF assms(3) m2, of keep] t t' show ?thesis by auto
qed

definition open_sockets :: socket_env where
  "open_sockets = \<lparr>se_same = Ok (), se_any = Ok (), se_connect = Ok (), se_send = Ok (), se_now = 0\<rparr>"

lemma second_host_unreached_witness:
  "\<exists>r1 P1 c1 r2 P2 c2 t t'.
    proxy_recv_handle True (\<lambda>_ _. Ok ()) 0x0A1A0009 0x0A1A0001 (sample_proxy, udp_sample) = (r1, P1, c1) \<and>
    proxy_recv_handle True (\<lambda>_ _. Ok ()) 0x0A1A0009 0x0A1A0001 (P1, udp_sample2) = (r2, P2, c2) \<and>
    udp_proxy0 open_sockets (px_udp_map P1) (0x0A1A0009, 1000) [1] relay_new = (Ok (), t) \<and>
    udp_proxy0 open_sockets (px_udp_map P2) (0x0A1A0009, 1000) [2] t = (Ok (), t') \<and>
    rl_sent t' = [((0xC0A80107, 53), [1]), ((0xC0A80107, 53), [2])]"
proof -
  obtain r1 P1 c1 where 1: "proxy_recv_handle True (\<lambda>_ _. Ok ()) 0x0A1A0009 0x0A1A0001 (sample_proxy, udp_sample) =
      (r1, P1, c1)" by (rule prod_cases3)
  obtain r2 P2 c2 where 2: "proxy_recv_handle True (\<lambda>_ _. Ok ()) 0x0A1A0009 0x0A1A0001 (P1, udp_sample2) =
      (r2, P2, c2)" by (rule prod_cases3)
  have "rl_inner relay_new (0x0A1A0009, 1000) = None" "rl_sent relay_new = []" "bind_either open_sockets = Ok ()"
    "se_connect open_sockets = Ok ()" "se_send open_sockets = Ok ()"
    by (simp_all add: relay_new_def open_sockets_def bind_either_def)
  from second_host_unreached [OF udp_sample_flow udp_sample2_flow udp_answer_flow 1 2 this(1,3,4,5,5), of "[1]" "[2]"]
    1 2 this(2) show ?thesis by force
qed

section \<open>A session without its translation\<close>

text \<open>C11: A task that ends takes its source out of the translation although a new session of the source may have begun in the
  meantime: that session goes on, and what it brings back is no longer translated.\<close>

theorem session_untranslated:
  "\<exists>m r i. udp_reach (m, r) \<and> rl_inner r k = Some i \<and> ss_phase (rl_sessions r ! i) = Serving \<and> m k = None"
proof -
  let ?m = "Map.empty(k \<mapsto> host) :: nat_map"
  define r1 where "r1 = snd (udp_proxy0 open_sockets ?m k [1] relay_new)"
  define r2 where "r2 = session_event 0 PeerError r1"
  define r3 where "r3 = session_unlink 0 r2"
  define r4 where "r4 = snd (udp_proxy0 open_sockets ?m k [2] r3)"
  define r5 where "r5 = session_phase 0 Ended r4"
  note env = open_sockets_def bind_either_def udp_proxy0_def relay_open_def sbind_def slift_def
  have r1: "rl_sessions r1 = [\<lparr>ss_key = k, ss_dest = host, ss_time = 0, ss_phase = Serving\<rparr>]"
    by (simp add: r1_def relay_new_def env)
  have r2: "rl_sessions r2 = [\<lparr>ss_key = k, ss_dest = host, ss_time = 0, ss_phase = Leaving\<rparr>]"
    by (simp add: r2_def session_event_def session_phase_def r1 Let_def)
  have r3: "rl_sessions r3 = [\<lparr>ss_key = k, ss_dest = host, ss_time = 0, ss_phase = Unlinked\<rparr>]" "rl_inner r3 k = None"
    by (simp_all add: r3_def session_unlink_def session_phase_def r2)
  have r4: "rl_sessions r4 = [\<lparr>ss_key = k, ss_dest = host, ss_time = 0, ss_phase = Unlinked\<rparr>,
      \<lparr>ss_key = k, ss_dest = host, ss_time = 0, ss_phase = Serving\<rparr>]" "rl_inner r4 k = Some 1"
    by (simp_all add: r4_def r3 env)
  have "udp_reach (?m, r1)" unfolding r1_def by (rule udp_reach.step [OF udp_reach.start]) (rule datagram)
  then have "udp_reach (?m, r2)" unfolding r2_def by (rule udp_reach.step) (rule seen; simp add: r1)
  then have "udp_reach (?m, r3)" unfolding r3_def by (rule udp_reach.step) (rule unlinked; simp add: r2)
  then have "udp_reach (?m, r4)" unfolding r4_def by (rule udp_reach.step) (rule datagram)
  then have "udp_reach (?m(ss_key (rl_sessions r4 ! 0) := None), r5)"
    unfolding r5_def by (rule udp_reach.step) (rule ended; simp add: r4)
  moreover have "rl_inner r5 k = Some 1" "ss_phase (rl_sessions r5 ! 1) = Serving"
    by (simp_all add: r5_def session_phase_def r4)
  ultimately show ?thesis using r4 by (intro exI [of _ "?m(k := None)"] exI [of _ r5] exI [of _ 1]) simp
qed

end
