(* ===== verification/Node_Invariant.thy ===== *)
theory Node_Invariant
  imports Gateway_Link Recv_Dispatch Tun_Handler Proxy_Tasks
begin

text \<open>
  What every operation of a node keeps. The locale \<open>node_invariant\<close> lists the elementary changes the
  handlers and tasks make to a node; a predicate that survives those is kept by each of them, also when
  they fail or panic half-way. The proofs follow the structure of the definitions.
\<close>

section \<open>Transmissions\<close>

text \<open>The parts of the channel context that no transmission and no choice of sockets changes.\<close>

definition same_links :: "channel_context \<Rightarrow> channel_context \<Rightarrow> bool" where
  "same_links c d \<longleftrightarrow> cc_route_table d = cc_route_table c \<and> cc_main_udp d = cc_main_udp c \<and> cc_v4_len d = cc_v4_len c \<and>
     cc_protocol d = cc_protocol c \<and> cc_packet_loss_rate d = cc_packet_loss_rate c \<and> cc_packet_delay d = cc_packet_delay c"

lemma same_links_refl [simp]: "same_links c c"
  by (simp add: same_links_def)

lemma same_links_trans: "same_links c d \<Longrightarrow> same_links d e \<Longrightarrow> same_links c e"
  by (simp add: same_links_def)

lemma sbind_keeps:
  assumes "J s" and "\<And>s. J s \<Longrightarrow> J (snd (m s))" and "\<And>x s. J s \<Longrightarrow> J (snd (f x s))"
  shows "J (snd (sbind m f s))"
  using assms(1) assms(2) [OF assms(1)] assms(3) by (auto simp: sbind_def split: prod.splits outcome.splits)

lemma sbind_slift_keeps: "J s \<Longrightarrow> (\<And>x s. J s \<Longrightarrow> J (snd (f x s))) \<Longrightarrow> J (snd (sbind (slift r) f s))"
  by (cases r) simp_all

lemma transmit_links [intro]: "same_links a c \<Longrightarrow> same_links a (snd (transmit_udp env i addr buf c))"
  by (auto simp: same_links_def transmit_udp_def Let_def)

lemma send_tcp_links [intro]: "same_links a c \<Longrightarrow> same_links a (snd (send_tcp env buf key c))"
  by (auto simp: same_links_def send_tcp_def try_send_def Let_def)

lemma send_main_udp_links [intro]: "same_links a c \<Longrightarrow> same_links a (snd (send_main_udp env i buf addr c))"
  by (auto simp: send_main_udp_def)

lemma add_up_traffic_links [intro]: "same_links a c \<Longrightarrow> same_links a (snd (add_up_traffic env p c))"
  by (auto simp: add_up_traffic_def same_links_def sbind_def split: option.splits outcome.splits prod.splits)

lemma send_by_key_links [intro]: "same_links a c \<Longrightarrow> same_links a (snd (send_by_key env p key c))"
  unfolding send_by_key_def
  by (auto intro!: sbind_keeps [where J = "same_links a"] sbind_slift_keeps [where J = "same_links a"] split: connect_protocol.splits)

lemma send_by_id_loop_links: "same_links a c \<Longrightarrow> same_links a (snd (send_by_id_loop env p peer n c))"
proof (induction env p peer n c rule: send_by_id_loop.induct)
  case (1 env p peer n c)
  have "same_links a d" if "send_by_key env p key c = (r, d)" for key r d
    using send_by_key_links [OF "1.prems", of env p key] that by simp
  then show ?case
    using 1 by (subst send_by_id_loop.simps) (auto split: outcome.splits prod.splits)
qed

lemma send_default_links [intro]: "same_links a c \<Longrightarrow> same_links a (snd (send_default env p addr c))"
  unfolding send_default_def Let_def
  by (auto intro!: sbind_keeps [where J = "same_links a"] sbind_slift_keeps [where J = "same_links a"] split: option.splits)

lemma send_ipv4_by_id_links [intro]: "same_links a c \<Longrightarrow> same_links a (snd (send_ipv4_by_id env lost p peer addr to_server c))"
  using send_by_id_loop_links [of a c env p peer 0]
  by (auto simp: send_ipv4_by_id_def send_by_id_def split: outcome.splits prod.splits)

lemma try_send_main_from_links: "same_links a c \<Longrightarrow> same_links a (try_send_main_from env buf addr is c)"
  by (induction "is" arbitrary: c) auto

lemma try_send_subs_links: "same_links a c \<Longrightarrow> same_links a (try_send_subs env buf addr is c)"
  by (induction "is" arbitrary: c) auto

lemma try_send_all_links [intro]: "same_links a c \<Longrightarrow> same_links a (try_send_all env buf addr c)"
  by (simp add: try_send_all_def try_send_all_main_def Let_def try_send_main_from_links try_send_subs_links)

lemma cc_switch_links [intro]: "same_links a c \<Longrightarrow> same_links a (snd (cc_switch ty binds accept c))"
  by (auto simp: cc_switch_def same_links_def sbind_def split: nat_type.splits outcome.splits)

lemma reset_reconnect_links [intro]: "same_links a c \<Longrightarrow> same_links a (snd (reset_reconnect_udp_socket binds accept addr c))"
  by (auto simp: reset_reconnect_udp_socket_def same_links_def sbind_def Let_def split: outcome.splits)

lemma default_key_links [intro]:
  "same_links a c \<Longrightarrow> same_links a (set_default_route_key key c)"
  "same_links a c \<Longrightarrow> same_links a (clear_default_route_key c)"
  "same_links a c \<Longrightarrow> same_links a (c\<lparr>cc_default_local_port := p\<rparr>)"
  "same_links a c \<Longrightarrow> same_links a (c\<lparr>cc_down_meter := m\<rparr>)"
  by (auto simp: set_default_route_key_def clear_default_route_key_def same_links_def Let_def split: option.splits)

section \<open>The NAT test\<close>

text \<open>The own sockets stay, and so does the number of public ports.\<close>

definition same_ports :: "nat_test \<Rightarrow> nat_test \<Rightarrow> bool" where
  "same_ports s t \<longleftrightarrow> nt_udp_ports t = nt_udp_ports s \<and> nt_tcp_port t = nt_tcp_port s \<and> nt_stun_server t = nt_stun_server s \<and>
     length (ni_public_ports (nt_info t)) = length (ni_public_ports (nt_info s)) \<and>
     ni_udp_ports (nt_info t) = ni_udp_ports (nt_info s) \<and> ni_tcp_port (nt_info t) = ni_tcp_port (nt_info s)"

lemma same_ports_refl [simp]: "same_ports t t"
  by (simp add: same_ports_def)

lemma nt_update_addr_ports [intro]: "same_ports s t \<Longrightarrow> same_ports s (snd (nt_update_addr index ip port t))"
  by (auto simp: same_ports_def nt_update_addr_def ni_update_addr_def Let_def split: prod.splits)

lemma nt_update_tcp_port_ports [intro]: "same_ports s t \<Longrightarrow> same_ports s (nt_update_tcp_port port t)"
  by (auto simp: same_ports_def nt_update_tcp_port_def ni_update_tcp_port_def)

lemma nt_recv_data_ports [intro]: "same_ports s t \<Longrightarrow> same_ports s (snd (nt_recv_data resolve parse index addr buf t))"
proof -
  assume s: "same_ports s t"
  have "same_ports s (snd (nt_recv_addr resolve index addr mapped t))" for mapped
    using s by (auto simp: nt_recv_addr_def split: socket_addr.splits option.splits outcome.splits)
  then have "same_ports s t'" if "nt_recv_addr resolve index addr mapped t = (r, t')" for mapped r t'
    using that by (metis snd_conv)
  then show ?thesis
    using s unfolding nt_recv_data_def
    by (cases "byte_at buf 0"; cases "byte_at buf 1") (auto simp: sbind_def split: option.splits outcome.splits prod.splits)
qed

lemma nt_re_test_ports [intro]: "same_ports s t \<Longrightarrow> same_ports s (snd (nt_re_test r1 r2 l4 l6 t))"
  by (auto simp: same_ports_def nt_re_test_def Let_def split: outcome.splits)

lemma nt_can_update_ports [intro]: "same_ports s t \<Longrightarrow> same_ports s (snd (nt_can_update now now' t))"
  by (auto simp: same_ports_def nt_can_update_def)


section \<open>The device list\<close>

text \<open>A map keyed by the addresses of its entries.\<close>

definition keyed :: "(ipv4_addr \<times> peer_device_info) list \<Rightarrow> bool" where
  "keyed m \<longleftrightarrow> distinct (map fst m) \<and> (\<forall>(a, d) \<in> set m. pd_virtual_ip d = a)"

lemma insert_device_keys: "set (map fst (insert_device a d m)) = insert a (set (map fst m))"
  by (induction a d m rule: insert_device.induct) auto

lemma insert_device_keyed: "keyed m \<Longrightarrow> keyed (insert_device (pd_virtual_ip d) d m)"
proof (induction m)
  case (Cons x m)
  obtain a e where x: "x = (a, e)" by force
  from Cons.prems have m: "keyed m" and "a \<notin> set (map fst m)" "pd_virtual_ip e = a"
    by (auto simp: keyed_def x)
  moreover have "pd_virtual_ip e \<notin> set (map fst (insert_device (pd_virtual_ip d) d m))" if "pd_virtual_ip e \<noteq> pd_virtual_ip d"
    using that calculation(2,3) insert_device_keys [of "pd_virtual_ip d" d m] by auto
  ultimately show ?case
    using Cons.IH [OF m] \<open>a \<notin> set (map fst m)\<close> by (auto simp: keyed_def x) (metis fst_conv image_eqI)
qed (simp add: keyed_def)

lemma fold_insert_device_keyed:
  "keyed m \<Longrightarrow> keyed (fold (\<lambda>d. insert_device (pd_virtual_ip d) d) ds m)"
  by (induction ds arbitrary: m) (auto intro: insert_device_keyed)

section \<open>The elementary changes\<close>

locale node_invariant =
  fixes I :: "node \<Rightarrow> bool"
  assumes nd_step: "I n \<Longrightarrow> I (n\<lparr>nd_step := k\<rparr>)"
    and nd_out: "I n \<Longrightarrow> I (n\<lparr>nd_out := es\<rparr>)"
    and nd_connects: "I n \<Longrightarrow> I (n\<lparr>nd_connects := rs\<rparr>)"
    and nd_extend: "I n \<Longrightarrow> I (n\<lparr>nd_extend := b\<rparr>)"
    and nd_punch: "I n \<Longrightarrow> I (n\<lparr>nd_punch := q\<rparr>)"
    and nd_peer_nat: "I n \<Longrightarrow> I (n\<lparr>nd_peer_nat := m\<rparr>)"
    and nd_rsa: "I n \<Longrightarrow> I (n\<lparr>nd_rsa := r\<rparr>)"
    and nd_up_key_time: "I n \<Longrightarrow> I (n\<lparr>nd_up_key_time := t\<rparr>)"
    and nd_handshake_time: "I n \<Longrightarrow> I (n\<lparr>nd_handshake_time := t\<rparr>)"
    and nd_proxy: "I n \<Longrightarrow> I (n\<lparr>nd_proxy := p\<rparr>)"
    and nd_history: "I n \<Longrightarrow> I (n\<lparr>nd_history := h\<rparr>)"
    and nd_epoch: "I n \<Longrightarrow> I (n\<lparr>nd_epoch := e\<rparr>)"
    and nd_devices: "I n \<Longrightarrow> keyed ds \<Longrightarrow> I (n\<lparr>nd_devices := ds\<rparr>)"
    and nd_nat: "I n \<Longrightarrow> same_ports (nd_nat n) s \<Longrightarrow> I (n\<lparr>nd_nat := s\<rparr>)"
    and nd_links: "I n \<Longrightarrow> same_links (nd_ctx n) c \<Longrightarrow> I (n\<lparr>nd_ctx := c\<rparr>)"
    and nd_table: "I n \<Longrightarrow> rt_reach (cc_route_table (nd_ctx n)) rt \<Longrightarrow>
      I (n\<lparr>nd_ctx := (nd_ctx n)\<lparr>cc_route_table := rt\<rparr>\<rparr>)"
    and nd_registered: "I n \<Longrightarrow>
      I (n\<lparr>nd_current := (current_device_update ip netmask gw (nd_current n))\<lparr>cd_status := Connected\<rparr>\<rparr>)"
    and nd_offline: "I n \<Longrightarrow> I (n\<lparr>nd_current := (nd_current n)\<lparr>cd_status := Connecting\<rparr>\<rparr>)"
    and nd_server: "I n \<Longrightarrow> I (n\<lparr>nd_current := (nd_current n)\<lparr>cd_connect_server := addr\<rparr>\<rparr>)"
begin

definition keeps :: "'a node_action \<Rightarrow> bool" where
  "keeps m \<longleftrightarrow> (\<forall>n. I n \<longrightarrow> I (snd (m n)))"

lemmas fields = nd_step nd_out nd_connects nd_extend nd_punch nd_peer_nat nd_rsa nd_up_key_time nd_handshake_time
  nd_proxy nd_history nd_epoch nd_devices

lemma keepsI: "(\<And>n. I n \<Longrightarrow> I (snd (m n))) \<Longrightarrow> keeps m"
  by (simp add: keeps_def)

lemma keepsD: "keeps m \<Longrightarrow> I n \<Longrightarrow> I (snd (m n))"
  by (simp add: keeps_def)

lemma keeps_out: "keeps m \<Longrightarrow> m n = (r, n') \<Longrightarrow> I n \<Longrightarrow> I n'"
  by (metis keepsD snd_conv)

lemma bind [intro]: "keeps m \<Longrightarrow> (\<And>x. keeps (f x)) \<Longrightarrow> keeps (sbind m f)"
  by (auto simp: keeps_def intro: sbind_keeps)

text \<open>A function that reads the state first.\<close>

lemma reads: "(\<And>n. keeps (f n)) \<Longrightarrow> keeps (\<lambda>n. f n n)"
  by (simp add: keeps_def)

lemma ret [intro, simp]: "keeps (sret x)" "keeps (\<lambda>n. (r, n))"
  by (simp_all add: keeps_def)

lemma lift [intro, simp]: "keeps (slift r)"
  by (simp add: keeps_def)

lemma cond [intro]: "keeps a \<Longrightarrow> keeps b \<Longrightarrow> keeps (if c then a else b)"
  by simp

lemma upd [intro]: "(\<And>n. I n \<Longrightarrow> I (f n)) \<Longrightarrow> keeps (upd_node f)"
  by (simp add: keeps_def upd_node_def)

lemma asked [intro, simp]: "keeps (draw f)" "keeps (tell e)" "keeps (request_connect r)"
  by (simp_all add: keeps_def draw_def tell_def request_connect_def fields)

lemma shuffles [intro, simp]: "keeps (shuffled env xs)"
  by (simp add: shuffled_def)

lemma guarded [intro]: "keeps m \<Longrightarrow> keeps (swhen b m)"
  by (simp add: swhen_def)

lemma logging [intro]: "keeps m \<Longrightarrow> keeps (logged m)"
  by (auto simp: keeps_def logged_def split: prod.splits outcome.splits)

lemma attempts [intro]: "keeps m \<Longrightarrow> keeps (attempt m)"
  by (auto simp: keeps_def attempt_def split: prod.splits outcome.splits)

lemma sends [intro]: "(\<And>c. same_links c (snd (m c))) \<Longrightarrow> keeps (on_ctx m)"
  by (auto simp: keeps_def on_ctx_def split: prod.splits) (metis nd_links snd_conv)

lemma sends_ctx [intro]: "(\<And>c. same_links c (f c)) \<Longrightarrow> keeps (upd_ctx f)"
  by (simp add: keeps_def upd_ctx_def nd_links)

lemma tables [intro]: "(\<And>t. rt_reach t (f t)) \<Longrightarrow> keeps (upd_table f)"
  by (simp add: keeps_def upd_table_def upd_ctx_def nd_table)

lemma on_table [intro]: "keeps (upd_ctx (cc_remove_route ip key))"
  using nd_table [OF _ rt_reach.remove [OF rt_reach.start]] by (simp add: keeps_def upd_ctx_def cc_remove_route_def)

lemma nats [intro]: "(\<And>t. same_ports t (snd (m t))) \<Longrightarrow> keeps (on_nat m)"
  by (auto simp: keeps_def on_nat_def split: prod.splits) (metis nd_nat snd_conv)

lemma ciphers [intro, simp]: "keeps (node_encrypt env c p)" "keeps (node_decrypt env c p)"
  by (auto simp: node_encrypt_def node_decrypt_def)

lemma device [intro, simp]: "keeps (device_write env b)"
  by (auto simp: device_write_def)

lemma loops [intro]: "(\<And>x. keeps (f x)) \<Longrightarrow> keeps (each f xs)"
  by (induction xs) auto

lemma net [intro, simp]:
  "keeps (on_ctx (send_by_key net p key))" "keeps (on_ctx (send_default net p addr))"
  "keeps (on_ctx (send_main_udp net i buf addr))" "keeps (on_ctx (send_ipv4_by_id net lost p peer addr to_server))"
  "keeps (on_ctx (cc_switch ty binds accept))" "keeps (on_ctx (reset_reconnect_udp_socket ports accept addr))"
  "keeps (upd_ctx (set_default_route_key key))" "keeps (upd_ctx clear_default_route_key)"
  "keeps (upd_ctx (try_send_all net buf addr))" "keeps (upd_ctx (\<lambda>c. c\<lparr>cc_default_local_port := port\<rparr>))"
  "keeps (upd_ctx (\<lambda>c. c\<lparr>cc_down_meter := meter\<rparr>))"
  by (rule sends sends_ctx; auto)+

text \<open>Case distinctions.\<close>

lemma choices [intro]:
  "keeps a \<Longrightarrow> (\<And>x. keeps (g x)) \<Longrightarrow> keeps (case v of None \<Rightarrow> a | Some x \<Rightarrow> g x)"
  "(\<And>x y. keeps (h x y)) \<Longrightarrow> keeps (case p of (x, y) \<Rightarrow> h x y)"
  "(\<And>x. keeps (k x)) \<Longrightarrow> (\<And>y. keeps (l y)) \<Longrightarrow> keeps (case u of Inl x \<Rightarrow> k x | Inr y \<Rightarrow> l y)"
  by (auto split: option.splits prod.splits sum.splits)

lemma protocols [intro]:
  "keeps a \<Longrightarrow> keeps b \<Longrightarrow> keeps (case ip_turn_protocol_from t of TurnIpv4 \<Rightarrow> a | TurnWGIpv4 \<Rightarrow> b | _ \<Rightarrow> sret ())"
  "keeps a \<Longrightarrow> keeps (case ip_turn_protocol_from t of TurnIpv4 \<Rightarrow> a | _ \<Rightarrow> sret ())"
  "keeps a \<Longrightarrow> keeps (case other_turn_protocol_from t of OtherPunch \<Rightarrow> a | _ \<Rightarrow> sret ())"
  "keeps a \<Longrightarrow> keeps b \<Longrightarrow> keeps d \<Longrightarrow> keeps (case service_protocol_from t of RegistrationResponse \<Rightarrow> a
     | PushDeviceList \<Rightarrow> b | SecretHandshakeResponse \<Rightarrow> d | _ \<Rightarrow> sret ())"
  "keeps a \<Longrightarrow> keeps b \<Longrightarrow> keeps d \<Longrightarrow> keeps (case proto of Control \<Rightarrow> a | IpTurn \<Rightarrow> b | OtherTurn \<Rightarrow> d | _ \<Rightarrow> sret ())"
  "keeps a \<Longrightarrow> keeps b \<Longrightarrow> keeps d \<Longrightarrow> keeps e \<Longrightarrow>
     keeps (case proto of Service \<Rightarrow> a | ErrorP \<Rightarrow> b | Control \<Rightarrow> d | IpTurn \<Rightarrow> e | _ \<Rightarrow> sret ())"
  by (auto split: ip_turn_protocol.splits other_turn_protocol.splits service_protocol.splits protocol.splits)

text \<open>Actions that look at the node first.\<close>

lemma readers [intro]:
  "(\<And>x. keeps (f x)) \<Longrightarrow> keeps h \<Longrightarrow> keeps (\<lambda>n. if b then sbind (slift (g n)) f n else h n)"
  "(\<And>x. keeps (f x)) \<Longrightarrow> keeps (\<lambda>n. sbind (slift (g n)) f n)"
  "keeps h \<Longrightarrow> keeps (\<lambda>n. if c n then (r n, n) else h n)"
  "keeps h \<Longrightarrow> keeps (\<lambda>n. if c n then h n else (r n, n))"
  "keeps h \<Longrightarrow> (\<And>x. keeps (f x)) \<Longrightarrow> keeps (\<lambda>n. case v n of None \<Rightarrow> h n | Some x \<Rightarrow> f x n)"
  "(\<And>x. keeps (f x)) \<Longrightarrow> keeps (\<lambda>n. case v n of None \<Rightarrow> (r n, n) | Some x \<Rightarrow> f x n)"
  "keeps udp \<Longrightarrow> keeps tcp \<Longrightarrow> keeps ws \<Longrightarrow> keeps wss \<Longrightarrow>
     keeps (\<lambda>n. case proto n of UDP \<Rightarrow> udp n | TCP \<Rightarrow> tcp n | WS \<Rightarrow> ws n | WSS \<Rightarrow> wss n)"
  by (auto simp: keeps_def sbind_slift_keeps split: option.splits connect_protocol.splits)

lemmas steps = bind ret lift cond asked shuffles guarded logging attempts net ciphers device loops choices protocols
  readers

section \<open>The receive handlers\<close>

lemma routes [intro, simp]:
  "keeps (add_route_if_absent env peer route)" "keeps (add_route env peer route)" "keeps (update_read_time env peer key)"
  unfolding add_route_if_absent_def add_route_def update_read_time_def rt_add_route_def rt_add_route_if_absent_def
  by (intro steps tables rt_reach_add_route rt_reach.intros)+

lemma proxied: "keeps (through_proxy env source destination b)"
  by (auto simp: through_proxy_def keeps_def fields split: option.splits prod.splits)

lemma filtered: "keeps (filter_external env cfg dev source destination b)"
  unfolding filter_external_def by (intro steps, rule keepsI, rule keepsD, intro steps proxied)

lemma client_ip_turn: "keeps (client_ip_turn env cfg dev p key)"
  unfolding client_ip_turn_def by (intro steps filtered)

lemma control_answer: "keeps (control_answer env cfg dev t ttl source p key)"
  unfolding control_answer_def by (intro steps)

lemma client_control: "keeps (client_control env cfg dev p key)"
  unfolding client_control_def Let_def
  by (intro steps, rule keepsI)
    (auto split: control_packet.splits socket_addr.splits intro!: keepsD steps control_answer)

lemma queued [intro, simp]: "keeps (punch_sender_send env src_peer ip info)"
  unfolding punch_sender_send_def by (intro steps upd nd_punch)

lemma client_other_turn: "keeps (client_other_turn env cfg dev p key)"
  unfolding client_other_turn_def Let_def by (intro steps upd nd_peer_nat queued)

lemma client_handle: "keeps (client_handle env cfg dev p ext key)"
  unfolding client_handle_def by (intro steps routes client_control client_ip_turn client_other_turn)

lemma turn_handle: "keeps (turn_handle env cfg p key)"
  unfolding turn_handle_def by (intro steps)

section \<open>Packets of the server\<close>

lemma hooks [intro, simp]:
  "keeps (run_hook cfg event key port ip reason)" "keeps (run_state_hook b event k port old dev tries reason)"
  unfolding run_hook_def run_state_hook_def by (intro steps)+

lemma send_secret_handshake: "keeps (send_secret_handshake env cfg rsa k key)"
  unfolding send_secret_handshake_def by (intro steps)

lemma server_no_key: "keeps (server_no_key env cfg key)"
  unfolding server_no_key_def by (intro steps upd nd_up_key_time send_secret_handshake)

lemma server_register: "keeps (server_register env cfg dev key)"
  unfolding server_register_def Let_def by (intro steps)

lemma server_handshake: "keeps (server_handshake env cfg dev p key)"
  unfolding server_handshake_def Let_def
  by (intro steps, rule keepsI)
    (auto split: option.splits outcome.splits intro!: keepsD steps upd nd_rsa send_secret_handshake server_register)

lemma set_device_info_list: "keeps (set_device_info_list infos e)"
  unfolding set_device_info_list_def Let_def
  by (intro steps upd nd_devices nd_epoch fold_insert_device_keyed) (simp_all add: keyed_def)

lemma create_tun: "keeps (create_tun env cfg config)"
  unfolding create_tun_def by (intro steps)

lemma server_registered: "keeps (server_registered env cfg old r key)"
  unfolding server_registered_def Let_def
  by (intro steps routes upd nd_nat nd_registered create_tun set_device_info_list nt_update_addr_ports
      nt_update_tcp_port_ports same_ports_refl; (rule keepsI, rule keepsD, intro steps hooks)?)

lemma server_service: "keeps (server_service env cfg dev p key)"
  unfolding server_service_def by (intro steps server_registered set_device_info_list server_register)

lemma node_handshake_send: "keeps (node_handshake_send env cfg addr)"
proof -
  have "keeps (\<lambda>n. case handshake_send net P rsa secret addr now now' (nd_handshake_time n, nd_ctx n) of
      (r, sent, c) \<Rightarrow> (r, n\<lparr>nd_handshake_time := sent, nd_ctx := c\<rparr>))" for net P rsa secret now now'
  proof (rule keepsI)
    fix n assume n: "I n"
    obtain r sent c where h: "handshake_send net P rsa secret addr now now' (nd_handshake_time n, nd_ctx n) = (r, sent, c)"
      by (cases "handshake_send net P rsa secret addr now now' (nd_handshake_time n, nd_ctx n)") auto
    have "same_links (nd_ctx n) c"
      using h send_default_links [OF same_links_refl, where env = net and addr = addr]
      by (auto simp: handshake_send_def split: if_splits outcome.splits prod.splits) (metis snd_conv)+
    then show "I (snd (case handshake_send net P rsa secret addr now now' (nd_handshake_time n, nd_ctx n) of
      (r, sent, c) \<Rightarrow> (r, n\<lparr>nd_handshake_time := sent, nd_ctx := c\<rparr>)))"
      using n nd_links [OF nd_handshake_time [OF n]] by (simp add: h)
  qed
  then have "keeps (\<lambda>n. case handshake_send (ev_net env) (ev_proto env) (nd_rsa n) (bi_server_secret (nc_base cfg)) addr now now'
      (nd_handshake_time n, nd_ctx n) of (r, sent, c) \<Rightarrow> (r, n\<lparr>nd_handshake_time := sent, nd_ctx := c\<rparr>))" for now now'
    by (simp add: keeps_def)
  then show ?thesis
    unfolding node_handshake_send_def by (intro steps)
qed

lemma server_error: "keeps (server_error env cfg dev p key)"
proof -
  have hook: "keeps (\<lambda>n. run_hook cfg event key (hook_port key (nd_ctx n)) ip reason n)" for event ip reason
    using hooks(1) by (simp add: keeps_def)
  have "keeps a \<Longrightarrow> keeps b \<Longrightarrow> keeps c \<Longrightarrow> (\<And>x. keeps (d x)) \<Longrightarrow> keeps e \<Longrightarrow> keeps f \<Longrightarrow> keeps (case err of
    InTokenError \<Rightarrow> a | InDisconnect \<Rightarrow> b | InAddressExhausted \<Rightarrow> c | InOtherError x \<Rightarrow> d x
    | InIpAlreadyExists \<Rightarrow> e | InInvalidIp \<Rightarrow> f | InNoKey \<Rightarrow> sret ())" for a b c d e f err
    by (simp split: in_error_packet.splits)
  note choice = this
  show ?thesis
    unfolding server_error_def by (intro steps choice upd nd_offline nd_epoch node_handshake_send hook)
qed

lemma server_control: "keeps (server_control env cfg dev p key)"
proof -
  have "(\<And>x. keeps (a x)) \<Longrightarrow> (\<And>x. keeps (b x)) \<Longrightarrow>
    keeps (case control of PongPacket x \<Rightarrow> a x | AddrResponse x \<Rightarrow> b x | _ \<Rightarrow> sret ())" for a b control
    by (simp split: control_packet.splits)
  note choice = this
  show ?thesis
    unfolding server_control_def Let_def
    by (intro steps choice routes upd nd_nat nt_update_addr_ports same_ports_refl)
qed

lemma server_ip_turn: "keeps (server_ip_turn env cfg dev p)"
  unfolding server_ip_turn_def by (intro steps)

lemma server_handle: "keeps (server_handle env cfg dev p key)"
  unfolding server_handle_def
  by (intro steps routes server_no_key server_handshake server_service server_error server_control server_ip_turn)

lemma add_down_traffic: "keeps (add_down_traffic env p)"
  unfolding add_down_traffic_def by (intro steps)

lemma recv_handle0: "keeps (recv_handle0 env cfg buf ext key)"
  unfolding recv_handle0_def Let_def
  by (intro steps, rule keepsI, rule keepsD, intro steps add_down_traffic server_handle client_handle turn_handle)

lemma recv_handle: "keeps (recv_handle env cfg buf ext key)"
proof -
  have "keeps (\<lambda>n. case on_nat m n of (Ok True, n) \<Rightarrow> (Ok (), n) | (Ok False, n) \<Rightarrow> h n | (Err _, n) \<Rightarrow> h n
      | (Panic, n) \<Rightarrow> (Panic, n))" if "keeps (on_nat m)" and "keeps h" for m :: "(nat_test, bool) action" and h
    using that keeps_out [OF that(1)]
    by (auto simp: keeps_def split: prod.splits outcome.splits bool.splits)
  note stun = this
  have "keeps (\<lambda>n. case recv_handle0 env cfg buf ext key n of
      (Ok _, n) \<Rightarrow> (Ok (), n) | (Err _, n) \<Rightarrow> (Ok (), n) | (Panic, n) \<Rightarrow> (Panic, n))"
    using recv_handle0 keeps_out [OF recv_handle0] by (auto simp: keeps_def split: prod.splits outcome.splits)
  note handled = this
  show ?thesis
    unfolding recv_handle_def Let_def
    using stun [OF nats [OF nt_recv_data_ports [OF same_ports_refl]] handled] handled by (auto intro!: cond)
qed

section \<open>The senders\<close>

lemma wg [intro, simp]: "keeps (send_to_wg_broadcast env cfg dev p)" "keeps (send_to_wg env cfg dev p)"
  unfolding send_to_wg_broadcast_def send_to_wg_def by (intro steps)+

lemma node_compress: "keeps (node_compress env cfg src dest p aux)"
  by (rule keepsI) (auto simp: node_compress_def split: prod.splits intro!: keepsD steps nd_extend)

lemma client_encrypt: "keeps (client_encrypt env cfg bp)"
proof -
  have "keeps (\<lambda>n. (r, if b then n\<lparr>nd_extend := e\<rparr> else n))" for r b e
    by (simp add: keeps_def nd_extend)
  note choice = this
  show ?thesis
    unfolding client_encrypt_def Let_def by (intro steps choice)
qed

text \<open>How WireGuard peers are told from others, in the two senders.\<close>

lemma wg_dispatch:
  assumes "keeps deliver" and "keeps w" and "keeps h"
  shows "keeps (\<lambda>n. if a then deliver n else if b then sbind (swhen (c n) w) (\<lambda>_. deliver) n
    else (case map_of (nd_devices n) dest of
        Some d \<Rightarrow> if f d then (if g d then (Ok (), n) else h n) else deliver n | None \<Rightarrow> deliver n))"
  and "keeps (\<lambda>n. if a then deliver n else if b then sbind (swhen (c n) w) (\<lambda>_. deliver) n
    else (case map_of (nd_devices n) dest of
        Some d \<Rightarrow> if g d then (Ok (), n) else if f d then h n else deliver n | None \<Rightarrow> deliver n))"
  using assms keepsD [OF bind [OF guarded [OF assms(2)] assms(1)]]
  by (auto simp: keeps_def split: option.splits)

lemma send_ip: "keeps (send_ip env cfg buf data_len dest)"
proof -
  have deliver: "keeps (\<lambda>n. sbind (slift (np_new (nd_extend n))) (\<lambda>aux.
      sbind (node_compress env cfg src dest p aux) (\<lambda>bp. sbind (client_encrypt env cfg bp) (\<lambda>q.
        if all then on_ctx (send_default (ev_net env) q addr)
        else if away then sret ()
        else sbind (draw (ev_lost env)) (\<lambda>lost. on_ctx (send_ipv4_by_id (ev_net env) lost q dest addr online))))) n)"
    for src dest p all addr away online
    by (intro steps node_compress client_encrypt)
  note dispatch = wg_dispatch(1) [OF deliver]
  show ?thesis
  proof (rule keepsI)
    fix n assume n: "I n"
    show "I (snd (send_ip env cfg buf data_len dest n))"
    proof (cases "is_unspecified (cd_virtual_ip (nd_current n))")
      case False
      then show ?thesis
        unfolding send_ip_def Let_def
        by (simp only: if_False) (rule sbind_slift_keeps, rule n, rule keepsD, rule dispatch, rule wg, rule wg)
    qed (simp add: send_ip_def n)
  qed
qed

lemma icmp_answer: "keeps (icmp_answer env cfg buf data_len peer)"
proof -
  have "keeps (icmp_forward env cfg buf data_len dest ipv4)" for dest ipv4
    by (rule keepsI) (simp only: icmp_forward_def Let_def, rule keepsD, (intro steps client_encrypt)+)
  then show ?thesis
    by (auto simp: keeps_def icmp_answer_def split: option.splits outcome.splits icmp_header_other.splits)
qed

lemma tun_icmp: "keeps (tun_icmp env b)"
  unfolding tun_icmp_def by (intro steps)

lemma broadcast_direct: "I n \<Longrightarrow> I (snd (broadcast_direct env p index peers ips relay n))"
proof (induction env p index peers ips relay n rule: broadcast_direct.induct)
  case (2 env p index peer peers ips relay n)
  have "I n'" if "on_ctx (send_by_key (ev_net env) p key) n = (r, n')" for key r n'
    using keeps_out [OF net(1) that "2.prems"] .
  then show ?case
    using 2 by (auto split: option.splits prod.splits outcome.splits)
qed simp

lemma broadcast: "keeps (broadcast env cfg dev p)"
proof (rule keepsI)
  fix n assume n: "I n"
  have direct: "keeps (broadcast_direct env p 0 peers [] False)" for peers
    by (simp add: keeps_def broadcast_direct)
  show "I (snd (broadcast env cfg dev p n))"
    unfolding broadcast_def using n by (auto intro!: keepsD [OF bind] direct steps)
qed

lemma proxy_answer: "keeps (proxy_answer env p)"
  by (auto simp: keeps_def proxy_answer_def split: option.splits)

lemma tun_deliver: "keeps (tun_deliver env cfg dev src dest p)"
proof -
  have deliver: "keeps (\<lambda>n. sbind (node_compress env cfg src dest p (np_unchecked (nd_extend n))) (\<lambda>bp.
      sbind (client_encrypt env cfg bp) (\<lambda>q. if all then broadcast env cfg dev q
        else sbind (draw (ev_lost env)) (\<lambda>lost. on_ctx (send_ipv4_by_id (ev_net env) lost q dest addr online)))) n)"
    for all addr online
    by (rule keepsI, rule keepsD) (intro steps node_compress client_encrypt broadcast)
  show ?thesis
    unfolding tun_deliver_def Let_def by (rule wg_dispatch(2), rule deliver, rule wg, rule wg)
qed

lemma tun_handle: "keeps (tun_handle env cfg buf data_len)"
  by (rule keepsI)
    (auto simp: tun_handle_def Let_def intro!: keepsD [OF bind] steps tun_icmp tun_deliver proxy_answer split: outcome.splits)

section \<open>Punching\<close>

lemma connect_each: "keeps (connect_each buf as)"
proof (induction "as")
  case (Cons a "as")
  have "keeps (punch_connect_tcp buf a)"
    by (rule keepsI) (simp add: punch_connect_tcp_def request_connect_def nd_connects)
  then show ?case using Cons by (auto intro: bind)
qed simp

lemma send_each: "I n \<Longrightarrow> I (snd (send_each env buf ps n))"
  by (induction env buf ps n rule: send_each.induct) (auto intro: keepsD [OF net(3)])

lemma punch_symmetric: "keeps (punch_symmetric env ports buf ips limit)"
proof -
  have "keeps (punch_symmetric_loop env buf limit sent ps len)" for sent ps len
    by (induction env buf limit sent ps len rule: punch_symmetric_loop.induct) (auto intro: bind)
  then show ?thesis by (simp add: punch_symmetric_def)
qed

lemma cone_probes: "keeps (cone_main_probes env buf ps)" "keeps (cone_all_probes env buf as)"
  by (induction env buf ps rule: cone_main_probes.induct; auto intro: bind)
    (induction env buf "as" rule: cone_all_probes.induct; auto intro: bind)

lemma punch_cone_peer: "keeps (punch_cone_peer env buf info)"
  using keepsD [OF cone_probes(1)] keepsD [OF cone_probes(2)] by (simp add: keeps_def punch_cone_peer_def Let_def)

lemma punch_symmetric_peer: "keeps (punch_symmetric_peer env ps buf peer info cnt)"
  unfolding punch_symmetric_peer_def Let_def by (intro steps punch_symmetric)

lemma punch_tcp_part: "keeps (punch_tcp_part ps buf info)"
  by (simp add: punch_tcp_part_def Let_def connect_each)

lemma punch: "keeps (punch env ps buf peer info tcp cnt)"
proof (rule keepsI)
  fix n assume n: "I n"
  have probes: "keeps (\<lambda>n. send_each env buf (p n) n)" for p
    by (simp add: keeps_def send_each)
  have each: "keeps (\<lambda>n. sbind (send_each env buf (p n)) (\<lambda>_. sbind (send_each env buf (q n)) (\<lambda>_. m)) n)" if "keeps m"
    for p q and m :: "punch_state node_action"
    by (rule keepsI, rule sbind_keeps [where J = I], assumption, erule send_each, rule sbind_keeps [where J = I], assumption,
        erule send_each, erule keepsD [OF that])
  have peer: "keeps (case ty of Symmetric \<Rightarrow> a | Cone \<Rightarrow> b)" if "keeps a" "keeps b" for ty and a b :: "punch_state node_action"
    using that by (cases ty) auto
  show "I (snd (punch env ps buf peer info tcp cnt n))"
  proof (cases "rt_no_need_punch peer (cc_route_table (nd_ctx n))")
    case False
    show ?thesis
      unfolding punch_def Let_def if_not_P [OF False]
      by (rule keepsD [OF _ n], intro steps probes each peer punch_symmetric_peer punch_cone_peer punch_tcp_part)
  qed (simp add: punch_def n)
qed

lemma punch_turn: "keeps (punch_turn env cfg ps record peer info)"
proof (rule keepsI)
  fix n assume n: "I n"
  have run: "keeps (sbind (slift (np_buffer_part q)) (\<lambda>buf. punch env ps buf peer info tcp cnt))" for q tcp cnt
    by (intro steps punch)
  show "I (snd (punch_turn env cfg ps record peer info n))"
    using n keeps_out [OF ciphers(1)] keeps_out [OF run]
    by (auto simp: punch_turn_def Let_def split: outcome.splits prod.splits option.splits)
qed

lemma punch0: "I n \<Longrightarrow> I (snd (punch0 env cfg mem cnt n))"
proof -
  assume n: "I n"
  have run: "keeps (sbind (slift r) (\<lambda>p. sbind (node_encrypt env c p) (\<lambda>q. on_ctx (send_default net q addr))))" for r c net addr
    by (intro steps)
  show ?thesis
    using n
    by (auto simp: punch0_def Let_def split: outcome.splits prod.splits option.splits
        dest: keeps_out [OF shuffles] keeps_out [OF run])
qed

lemma punch_request: "I n \<Longrightarrow> I (snd (punch_request env cfg mem cnt n))"
  using punch0 [of n env cfg mem cnt] by (auto simp: punch_request_def split: outcome.splits prod.splits)

section \<open>The timed tasks\<close>

lemma heartbeat_packets [intro, simp]:
  "keeps (heartbeat_packet env src dest)" "keeps (heartbeat_packet_client env cfg src dest)"
  "keeps (heartbeat_packet_server env cfg src dest)"
proof -
  show p: "keeps (heartbeat_packet env src dest)"
    unfolding heartbeat_packet_def by (intro steps)
  show "keeps (heartbeat_packet_client env cfg src dest)" "keeps (heartbeat_packet_server env cfg src dest)"
    unfolding heartbeat_packet_client_def heartbeat_packet_server_def by (intro steps p)+
qed

lemma heartbeat_routes: "keeps (heartbeat_routes env cfg dev sent dr)"
proof -
  have run: "keeps (\<lambda>n. each (m n) (xs n) n)" if "\<And>n x. keeps (m n x)" for m :: "node \<Rightarrow> route \<Rightarrow> unit node_action" and xs
    by (rule keepsI, rule keepsD, rule loops, rule that)
  show ?thesis
    unfolding heartbeat_routes_def Let_def by (intro steps heartbeat_packets run)
qed

lemma heartbeat_peer: "keeps (heartbeat_peer env cfg dev peer)"
  by (rule keepsI) (auto simp: heartbeat_peer_def intro!: keepsD [OF logging] steps heartbeat_packets)

lemma orders: "keeps (\<lambda>n. draw (f n) n)"
  by (simp add: keeps_def draw_def nd_step)

lemma heartbeat0: "keeps (heartbeat0 env cfg)"
proof (rule keepsI)
  fix n assume n: "I n"
  have peers: "keeps (\<lambda>n. each (heartbeat_peer env cfg dev) (xs n) n)" for xs dev
    by (rule keepsI, rule keepsD, rule loops, rule heartbeat_peer)
  show "I (snd (heartbeat0 env cfg n))"
    unfolding heartbeat0_def heartbeat_server_def Let_def
    by (rule keepsD [OF _ n], intro steps orders heartbeat_packets heartbeat_routes peers)
qed

lemma relay_peers: "I n \<Longrightarrow> I (snd (relay_peers env cfg dev peers routes n))"
proof (induction env cfg dev peers routes n rule: relay_peers.induct)
  case (2 env cfg dev peer peers routes n)
  have each: "keeps (each (\<lambda>route. logged (on_ctx (send_by_key (ev_net env) q (route_key_of route)))) rs)" for q rs
    by (intro steps)
  note outs = keeps_out [OF heartbeat_packets(2)] keeps_out [OF shuffles] keeps_out [OF each]
  show ?case
    using 2 by (auto simp: Let_def sbind_def split: prod.splits outcome.splits dest!: outs)
qed simp

lemma client_relay0: "keeps (client_relay0 env cfg)"
proof (rule keepsI)
  fix n assume n: "I n"
  have peers: "keeps (\<lambda>n. relay_peers env cfg dev xs routes n)" for dev xs routes
    by (simp add: keeps_def relay_peers)
  show "I (snd (client_relay0 env cfg n))"
    by (cases "cs_offline (cd_status (nd_current n))", simp_all add: client_relay0_def Let_def n)
      (rule keepsD [OF _ n], intro bind orders peers)
qed

lemma nt_send_data: "keeps (nt_send_data env)"
  by (rule keepsI) (auto simp: nt_send_data_def Let_def intro!: keepsD [OF bind] steps)

lemma addr_request0: "keeps (addr_request0 env index)"
  by (rule keepsI) (auto simp: addr_request0_def intro!: keepsD [OF bind] steps nt_send_data)

lemma pub_address_request: "keeps (pub_address_request env turn)"
  by (rule keepsI)
    (auto simp: pub_address_request_def Let_def intro!: keepsD [OF bind [OF logging [OF addr_request0]]] keepsI)

lemma retrieve_nat_type0: "keeps (retrieve_nat_type0 env)"
proof -
  have test: "keeps (\<lambda>n. case nt_re_test r1 r2 l4 l6 (nd_nat n) of (r, t) \<Rightarrow> (r, n\<lparr>nd_nat := t\<rparr>))" for r1 r2 l4 l6
    using nats [OF nt_re_test_ports [OF same_ports_refl]] by (simp add: keeps_def on_nat_def)
  have run: "keeps (\<lambda>n. case nt_can_update now now' (nd_nat n) of (False, _) \<Rightarrow> (Ok (), n) | (True, t) \<Rightarrow> m t (n\<lparr>nd_nat := t\<rparr>))"
    if "\<And>t. keeps (m t)" for now now' and m :: "nat_test \<Rightarrow> unit node_action"
  proof (rule keepsI)
    fix n assume n: "I n"
    obtain b t where t: "nt_can_update now now' (nd_nat n) = (b, t)" by force
    then have "I (n\<lparr>nd_nat := t\<rparr>)"
      using nd_nat [OF n] nt_can_update_ports [OF same_ports_refl, where now = now and now' = now'] by (metis snd_conv)
    then show "I (snd (case nt_can_update now now' (nd_nat n) of (False, _) \<Rightarrow> (Ok (), n) | (True, t) \<Rightarrow> m t (n\<lparr>nd_nat := t\<rparr>)))"
      using that n by (cases b) (simp_all add: t keeps_def)
  qed
  show ?thesis
    unfolding retrieve_nat_type0_def by (intro steps run test)
qed

lemma send_up_status_packet: "keeps (send_up_status_packet env)"
proof (rule keepsI)
  fix n assume n: "I n"
  have run: "keeps (\<lambda>n. sbind (slift (r n)) (\<lambda>q. on_ctx (send_default net q addr)) n)" for r :: "node \<Rightarrow> net_packet outcome" and net addr
    by (intro steps)
  show "I (snd (send_up_status_packet env n))"
    unfolding send_up_status_packet_def Let_def
    using n by (auto intro!: keepsD [OF bind [OF orders]] readers)
qed

section \<open>The link to the server\<close>

lemma idle_route0: "keeps (idle_route0 env cfg read_idle)"
proof -
  have hook: "keeps (\<lambda>n. run_state_hook b event key (p n) old dev tries reason n)" for b event key p old dev tries reason
    using hooks(2) by (simp add: keeps_def)
  have "keeps (\<lambda>n. case next_idle read_idle now order (cc_route_table (nd_ctx n)) of
      IdleTimeout ip route \<Rightarrow> m ip route n | IdleSleep d \<Rightarrow> (Ok d, n) | IdleNone \<Rightarrow> (Ok e, n))"
    if "\<And>ip route. keeps (m ip route)" for now order m e
    using that by (auto simp: keeps_def split: idle_type.splits)
  note choice = this
  have asking: "keeps (\<lambda>n. sbind (draw (f n)) m n)" if "\<And>x. keeps (m x)"
    for f :: "node \<Rightarrow> nat \<Rightarrow> ipv4_addr list" and m :: "ipv4_addr list \<Rightarrow> nanos node_action"
    by (rule keepsI, rule keepsD [OF bind [OF asked(1)]], rule that)
  show ?thesis
    by (rule keepsI, simp only: idle_route0_def Let_def, rule keepsD, rule bind, rule asked(1), rule asking, rule choice,
        intro steps on_table upd nd_offline hook)
qed

lemma domain_request0: "keeps (domain_request0 env cfg)"
proof -
  have "keeps (\<lambda>n. case address_choose bnd cons addrs (nd_history n) of
      (None, h) \<Rightarrow> (Ok (nd_current n, True), n\<lparr>nd_history := h\<rparr>)
    | (Some addr, h) \<Rightarrow> (Ok ((nd_current n)\<lparr>cd_connect_server := addr\<rparr>, True),
        n\<lparr>nd_history := h, nd_current := (nd_current n)\<lparr>cd_connect_server := addr\<rparr>\<rparr>))" for bnd cons addrs
  proof (rule keepsI)
    fix n assume n: "I n"
    then show "I (snd (case address_choose bnd cons addrs (nd_history n) of
      (None, h) \<Rightarrow> (Ok (nd_current n, True), n\<lparr>nd_history := h\<rparr>)
    | (Some addr, h) \<Rightarrow> (Ok ((nd_current n)\<lparr>cd_connect_server := addr\<rparr>, True),
        n\<lparr>nd_history := h, nd_current := (nd_current n)\<lparr>cd_connect_server := addr\<rparr>\<rparr>)))"
      using nd_server [OF nd_history [OF n]] by (auto simp: nd_history split: prod.splits option.splits)
  qed
  note choice = this
  have here: "keeps (\<lambda>n. (Ok (nd_current n, b), n))" for b
    by (simp add: keeps_def)
  show ?thesis
    unfolding domain_request0_def Let_def by (intro steps choice here)
qed

lemma force_new_route: "keeps (force_new_route env cfg cur tries)"
  by (rule keepsI, simp only: force_new_route_def Let_def, rule keepsD, intro steps hooks)

lemma send_or_connect: "keeps (send_or_connect env cfg cur)"
  unfolding send_or_connect_def Let_def by (intro steps node_handshake_send)

lemma check_gateway_channel: "I n \<Longrightarrow> I (snd (check_gateway_channel env cfg tries n))"
proof -
  assume n: "I n"
  have here: "keeps (\<lambda>n. (Ok (nd_current n, True), n))"
    by (simp add: keeps_def)
  have run: "keeps (sbind m (\<lambda>(cur, dns_ok). sbind (tell (HostConnect (connect_info_new tries (cd_connect_server cur)))) (\<lambda>_.
        if dns_ok \<and> c then force_new_route env cfg cur tries else send_or_connect env cfg cur)))" if "keeps m" for m tries c
    by (intro steps that force_new_route send_or_connect)
  show ?thesis
    using n
    by (auto simp: check_gateway_channel_def Let_def split: prod.splits
        dest: keeps_out [OF run [OF domain_request0]] keeps_out [OF run [OF here]])
qed

lemma idle_gateway0: "keeps (idle_gateway0 env cfg describe tries)"
proof (rule keepsI)
  fix n assume n: "I n"
  have told: "I (snd (sbind (tell e) (\<lambda>_. sret b) m))" if "I m" for e m and b :: nat
    by (rule keepsD [OF _ that]) (intro steps)
  have "I n'" if "check_gateway_channel env cfg tries n = (r, n')" for r n'
    using check_gateway_channel [OF n] that by (metis snd_conv)
  then show "I (snd (idle_gateway0 env cfg describe tries n))"
    by (auto simp: idle_gateway0_def told split: prod.splits outcome.splits)
qed

end

end
