(* ===== verification/Address_Text.thy ===== *)
theory Address_Text
  imports Channel_Types Ascii_Text
begin

text \<open>
  The texts of numbers and addresses: what \<open>Display\<close> and \<open>FromStr\<close> of the standard library do for
  \<open>u8\<close>/\<open>i64\<close>, \<open>Ipv4Addr\<close>, \<open>Ipv6Addr\<close> and \<open>SocketAddr\<close>, which the command line, the configuration file
  and the status commands rest on. Reading back the text of an IPv4 address gives the address.
\<close>

section \<open>Numbers\<close>

definition digit_char :: "nat \<Rightarrow> char" where
  "digit_char n = char_of (48 + n)"

fun show_nat :: "nat \<Rightarrow> string" where
  "show_nat n = (if n < 10 then [digit_char n] else show_nat (n div 10) @ [digit_char (n mod 10)])"

declare show_nat.simps [simp del]

definition show_int :: "int \<Rightarrow> string" where
  "show_int i = (if i < 0 then CHR ''-'' # show_nat (nat (- i)) else show_nat (nat i))"

definition hex_char :: "nat \<Rightarrow> char" where
  "hex_char n = (if n < 10 then char_of (48 + n) else char_of (87 + n))"

fun show_hex :: "nat \<Rightarrow> string" where
  "show_hex n = (if n < 16 then [hex_char n] else show_hex (n div 16) @ [hex_char (n mod 16)])"

declare show_hex.simps [simp del]

section \<open>Addresses\<close>

definition ipv4_octet :: "nat \<Rightarrow> ipv4_addr \<Rightarrow> nat" where
  "ipv4_octet i a = unat (drop_bit (8 * (3 - i)) a AND 0xFF)"

fun join_with :: "char \<Rightarrow> string list \<Rightarrow> string" where
  "join_with c [] = []"
| "join_with c [s] = s"
| "join_with c (s # t # ss) = s @ c # join_with c (t # ss)"

definition show_ipv4 :: "ipv4_addr \<Rightarrow> string" where
  "show_ipv4 a = join_with CHR ''.'' (List.map (\<lambda>i. show_nat (ipv4_octet i a)) [0, 1, 2, 3])"

text \<open>An octet has at most three digits, and no leading zero.\<close>

definition parse_octet :: "string \<Rightarrow> nat option" where
  "parse_octet s = (if 3 < length s \<or> 1 < length s \<and> hd s = CHR ''0'' then None
     else case parse_nat s of None \<Rightarrow> None | Some n \<Rightarrow> if n < 256 then Some n else None)"

definition parse_ipv4 :: "string \<Rightarrow> ipv4_addr option" where
  "parse_ipv4 s = (case List.map parse_octet (split_on CHR ''.'' s) of
       [Some a, Some b, Some c, Some d] \<Rightarrow> Some (u32_be (of_nat a) (of_nat b) (of_nat c) (of_nat d))
     | _ \<Rightarrow> None)"

text \<open>IPv6: an address that maps an IPv4 one is printed as such; otherwise the first longest run of at least two
  zero segments is left out.\<close>

definition ipv6_segs :: "128 word \<Rightarrow> nat list" where
  "ipv6_segs a = List.map (\<lambda>i. unat (drop_bit (16 * (7 - i)) a AND 0xFFFF)) [0..<8]"

definition zero_run :: "nat list \<Rightarrow> nat \<Rightarrow> nat" where
  "zero_run segs start = length (takeWhile (\<lambda>s. s = 0) (drop start segs))"

definition longest_zeros :: "nat list \<Rightarrow> nat \<times> nat" where
  "longest_zeros segs = fold (\<lambda>i (start, len). if len < zero_run segs i then (i, zero_run segs i) else (start, len))
     [0..<length segs] (0, 0)"

definition show_segs :: "nat list \<Rightarrow> string" where
  "show_segs segs = join_with CHR '':'' (List.map show_hex segs)"

definition show_ipv6 :: "128 word \<Rightarrow> string" where
  "show_ipv6 a =
     (let segs = ipv6_segs a; (start, len) = longest_zeros segs in
      if take 6 segs = [0, 0, 0, 0, 0, 0xFFFF] then ''::ffff:'' @ show_ipv4 (ucast a)
      else if 1 < len then show_segs (take start segs) @ ''::'' @ show_segs (drop (start + len) segs)
      else show_segs segs)"

definition show_socket :: "socket_addr \<Rightarrow> string" where
  "show_socket a = (case a of
       SockV4 ip port \<Rightarrow> show_ipv4 ip @ CHR '':'' # show_nat (unat port)
     | SockV6 ip port flow scope \<Rightarrow>
         CHR ''['' # show_ipv6 ip @ (if scope = 0 then [] else CHR ''%'' # show_nat (unat scope)) @ '']:'' @ show_nat (unat port))"

section \<open>Reading back\<close>

lemma digit_char_value [simp]: "n < 10 \<Longrightarrow> digit_value (digit_char n) = Some n"
  by (simp add: digit_value_def digit_char_def)

lemma digit_char_0: "0 < d \<Longrightarrow> d < 10 \<Longrightarrow> digit_char d \<noteq> CHR ''0''"
proof
  assume d: "0 < d" "d < 10" and z: "digit_char d = CHR ''0''"
  have "digit_value CHR ''0'' = Some 0" by (simp add: digit_value_def)
  with digit_char_value [OF d(2)] d(1) z show False by simp
qed

lemma parse_digits_append:
  "parse_digits acc (xs @ ys) = Option.bind (parse_digits acc xs) (\<lambda>n. parse_digits n ys)"
  by (induction acc xs rule: parse_digits.induct) (auto split: option.splits)

lemma parse_digits_show: "parse_digits 0 (show_nat n) = Some n"
proof (induction n rule: show_nat.induct)
  case (1 n)
  then show ?case by (subst show_nat.simps) (auto simp: parse_digits_append)
qed

lemma show_nat_nonempty [simp]: "show_nat n \<noteq> []"
  by (subst show_nat.simps) simp

lemma parse_nat_show [simp]: "parse_nat (show_nat n) = Some n"
  by (simp add: parse_nat_def parse_digits_show)

lemma show_nat_digits: "c \<in> set (show_nat n) \<Longrightarrow> \<exists>d < 10. c = digit_char d"
proof (induction n rule: show_nat.induct)
  case (1 n)
  then show ?case
    by (subst (asm) (2) show_nat.simps) (auto split: if_splits intro: exI [of _ "n mod 10"])
qed

lemma show_nat_free: "digit_value c = None \<Longrightarrow> c \<notin> set (show_nat n)"
  using show_nat_digits by fastforce

lemma parse_octet_show: "n < 256 \<Longrightarrow> parse_octet (show_nat n) = Some n"
proof -
  assume n: "n < 256"
  have "length (show_nat n) \<le> 3 \<and> (length (show_nat n) = 1 \<or> hd (show_nat n) \<noteq> CHR ''0'')"
  proof (cases "n < 10")
    case True
    then show ?thesis by (simp add: show_nat.simps [of n])
  next
    case big: False
    show ?thesis
    proof (cases "n < 100")
      case True
      then have "show_nat n = [digit_char (n div 10), digit_char (n mod 10)]" "0 < n div 10" "n div 10 < 10"
        using big by (auto simp: show_nat.simps [of n] show_nat.simps [of "n div 10"])
      then show ?thesis by (simp add: digit_char_0)
    next
      case False
      then have "show_nat n = [digit_char (n div 100), digit_char (n div 10 mod 10), digit_char (n mod 10)]"
        "0 < n div 100" "n div 100 < 10"
        using n by (auto simp: show_nat.simps [of n] show_nat.simps [of "n div 10"] show_nat.simps [of "n div 100"] div_mult2_eq [symmetric])
      then show ?thesis using n by (simp add: digit_char_0)
    qed
  qed
  then show ?thesis using n by (auto simp: parse_octet_def)
qed

lemma octets_u32_be:
  "u32_be (of_nat (ipv4_octet 0 a)) (of_nat (ipv4_octet 1 a)) (of_nat (ipv4_octet 2 a)) (of_nat (ipv4_octet 3 a)) = a"
proof -
  have m: "(0xFF :: u32) = mask 8" by (simp add: mask_eq_exp_minus_1)
  have "(of_nat (ipv4_octet i a) :: u8) = ucast (drop_bit (8 * (3 - i)) a)" for i
    unfolding ipv4_octet_def of_nat_unat m by (rule bit_word_eqI) (auto simp: bit_simps)
  then show ?thesis by simp
qed

lemma ipv4_octet_less: "ipv4_octet i a < 256"
proof -
  have "drop_bit (8 * (3 - i)) a AND 0xFF \<le> 0xFF" by (rule word_and_le1)
  then show ?thesis by (simp add: ipv4_octet_def word_le_nat_alt)
qed

lemma parse_show_ipv4 [simp]: "parse_ipv4 (show_ipv4 a) = Some a"
proof -
  have dot: "CHR ''.'' \<notin> set (show_nat n)" for n by (rule show_nat_free) (simp add: digit_value_def)
  have "split_on CHR ''.'' (show_ipv4 a) = List.map (\<lambda>i. show_nat (ipv4_octet i a)) [0, 1, 2, 3]"
    by (simp add: show_ipv4_def split_on_join split_on_no_sep dot)
  then show ?thesis
    by (simp add: parse_ipv4_def parse_octet_show ipv4_octet_less octets_u32_be [simplified])
qed

lemma show_ipv4_inject: "show_ipv4 a = show_ipv4 b \<longleftrightarrow> a = b"
  by (metis option.inject parse_show_ipv4)

end
