(* ===== verification/Args_Parse.thy ===== *)
theory Args_Parse
  imports Address_Text Dns_Query
begin

text \<open>
  The small languages of the options: subnets and gateways (\<open>common/src/args_parse.rs\<close>), port mappings
  (\<open>vnt/src/port_mapping/mod.rs\<close>) and the mappings of \<open>vn-link\<close> (\<open>vn-link/src/config.rs\<close>), with
  \<open>UseChannelType::from_str\<close>. \<open>addr\<close> is \<open>SocketAddr::from_str\<close>. Of the error texts the fixed part is kept.
\<close>

section \<open>Subnets\<close>

definition not_netmask :: vnt_error where
  "not_netmask = AnyError ''not netmask''"

definition to_ip :: "string \<Rightarrow> u32 outcome" where
  "to_ip text = (case parse_unsigned (2 ^ 32) text of
       Some m \<Rightarrow> if 32 < m then Err not_netmask else Ok (fold (\<lambda>i w. w OR push_bit (31 - i) 1) [0..<m] 0)
     | None \<Rightarrow> Err not_netmask)"

text \<open>\<open>dest/mask\<close>; what follows a second slash is ignored.\<close>

definition net_parse :: "string \<Rightarrow> (u32 \<times> u32) outcome" where
  "net_parse net = (case split_on CHR ''/'' net of
       dest # len # _ \<Rightarrow> (case parse_ipv4 dest of
           None \<Rightarrow> Err (AnyError ''not ipv4'')
         | Some d \<Rightarrow> obind (to_ip len) (\<lambda>m. Ok (d, m)))
     | _ \<Rightarrow> Err (AnyError ''no netmask''))"

definition in_ip_parse :: "string \<Rightarrow> (u32 \<times> u32 \<times> ipv4_addr) outcome" where
  "in_ip_parse x = (case split_on CHR '','' x of
       net # ip # _ \<Rightarrow> (case parse_ipv4 ip of
           None \<Rightarrow> Err (AnyError ''not ipv4'')
         | Some gw \<Rightarrow> obind (net_parse net) (\<lambda>(dest, m). Ok (dest, m, gw)))
     | _ \<Rightarrow> Err (AnyError ''ipv4/mask,ipv4''))"

text \<open>A loop that stops at the first error.\<close>

fun traverse :: "('a \<Rightarrow> 'b outcome) \<Rightarrow> 'a list \<Rightarrow> 'b list outcome" where
  "traverse f [] = Ok []"
| "traverse f (x # xs) = obind (f x) (\<lambda>y. omap ((#) y) (traverse f xs))"

definition ips_parse :: "string list \<Rightarrow> (u32 \<times> u32 \<times> ipv4_addr) list outcome" where
  "ips_parse = traverse in_ip_parse"

definition out_ips_parse :: "string list \<Rightarrow> (u32 \<times> u32) list outcome" where
  "out_ips_parse = traverse net_parse"

section \<open>Channel types\<close>

definition use_channel_type_from_str :: "string \<Rightarrow> use_channel_type option" where
  "use_channel_type_from_str s = (let t = str_trim (List.map ascii_lower s) in
     if t = ''relay'' then Some Relay else if t = ''p2p'' then Some P2p else if t = ''all'' then Some All else None)"

section \<open>Port mappings\<close>

text \<open>Whether it is TCP, the address that is bound, and the destination. Only the piece after the first hyphen is
  the destination.\<close>

definition mapping_parse :: "(string \<Rightarrow> socket_addr option) \<Rightarrow> string \<Rightarrow> (bool \<times> socket_addr \<times> string) outcome" where
  "mapping_parse addr x =
     (let string = List.map ascii_lower (str_trim x);
          pieces = (\<lambda>is_tcp m. case split_on CHR ''-'' m of
            bind_addr # rest \<Rightarrow> (case addr bind_addr of
                None \<Rightarrow> Err (AnyError ''udp_mapping error'')
              | Some a \<Rightarrow> (case rest of dest # _ \<Rightarrow> Ok (is_tcp, a, dest) | [] \<Rightarrow> Err (AnyError ''udp_mapping error'')))
          | [] \<Rightarrow> Err (AnyError ''udp_mapping error''))
      in case strip_prefix ''udp:'' string of Some m \<Rightarrow> pieces False m
        | None \<Rightarrow> (case strip_prefix ''tcp:'' string of Some m \<Rightarrow> pieces True m
          | None \<Rightarrow> Err (AnyError ''port_mapping error'')))"

definition mapping_convert :: "(string \<Rightarrow> socket_addr option) \<Rightarrow> string list \<Rightarrow> (bool \<times> socket_addr \<times> string) list outcome" where
  "mapping_convert addr = traverse (mapping_parse addr)"

section \<open>Mappings of vn-link\<close>

datatype link_protocol = LinkTcp | LinkUdp

definition link_is_tcp :: "link_protocol \<Rightarrow> bool" where
  "link_is_tcp p \<longleftrightarrow> p = LinkTcp"

record link_item =
  li_protocol :: link_protocol
  li_src_addr :: socket_addr
  li_dest :: socket_addr

definition link_item_new :: "link_protocol \<Rightarrow> socket_addr \<Rightarrow> socket_addr \<Rightarrow> link_item" where
  "link_item_new protocol src_addr dest = \<lparr>li_protocol = protocol, li_src_addr = src_addr, li_dest = dest\<rparr>"

definition sock_is_loopback :: "socket_addr \<Rightarrow> bool" where
  "sock_is_loopback a = (case a of SockV4 ip _ \<Rightarrow> ipv4_octet 0 ip = 127 | SockV6 ip _ _ _ \<Rightarrow> ip = 1)"

definition parse_bind_addr :: "(string \<Rightarrow> socket_addr option) \<Rightarrow> string \<Rightarrow> socket_addr outcome" where
  "parse_bind_addr addr s = (case parse_unsigned 65536 s of
       Some port \<Rightarrow> Ok (SockV4 (u32_be 127 0 0 1) (of_nat port))
     | None \<Rightarrow> (case addr s of Some a \<Rightarrow> Ok a | None \<Rightarrow> Err (AnyError ''invalid bind address'')))"

definition link_pieces :: "(string \<Rightarrow> socket_addr option) \<Rightarrow> link_protocol \<Rightarrow> string \<Rightarrow> link_item outcome" where
  "link_pieces addr protocol m = (case split_on CHR ''-'' m of
       bind_part # rest \<Rightarrow> obind (parse_bind_addr addr bind_part) (\<lambda>src.
         if protocol = LinkUdp \<and> \<not> sock_is_loopback src
         then Err (AnyError ''udp vnt-mapping bind address must be 127.0.0.1 (loopback only)'')
         else case rest of [] \<Rightarrow> Err (AnyError ''vnt-mapping error'')
           | dest # _ \<Rightarrow> (case addr dest of None \<Rightarrow> Err (AnyError ''mapping dest error'')
               | Some d \<Rightarrow> Ok (link_item_new protocol src d)))
     | [] \<Rightarrow> Err (AnyError ''vnt-mapping error''))"

definition link_parse :: "(string \<Rightarrow> socket_addr option) \<Rightarrow> string \<Rightarrow> link_item outcome" where
  "link_parse addr x =
     (let string = List.map ascii_lower (str_trim x) in
      case strip_prefix ''udp:'' string of Some m \<Rightarrow> link_pieces addr LinkUdp m
        | None \<Rightarrow> (case strip_prefix ''tcp:'' string of Some m \<Rightarrow> link_pieces addr LinkTcp m
          | None \<Rightarrow> Err (AnyError ''vnt-mapping error'')))"

definition link_convert :: "(string \<Rightarrow> socket_addr option) \<Rightarrow> string list \<Rightarrow> link_item list outcome" where
  "link_convert addr = traverse (link_parse addr)"

section \<open>Lemmas\<close>

lemma traverse_Ok: "(\<And>x. x \<in> set xs \<Longrightarrow> f (g x) = Ok (h x)) \<Longrightarrow> traverse f (List.map g xs) = Ok (List.map h xs)"
  by (induction xs) simp_all

lemma traverse_all: "traverse f xs = Ok ys \<Longrightarrow> (\<And>x y. f x = Ok y \<Longrightarrow> P y) \<Longrightarrow> list_all P ys"
  by (induction xs arbitrary: ys) (auto simp: outcome_simps)

text \<open>The mask of a prefix length has exactly the leading bits.\<close>

definition netmask :: "nat \<Rightarrow> u32" where
  "netmask m = push_bit (32 - m) (mask m)"

lemma mask_loop:
  "m \<le> 32 \<Longrightarrow> bit (fold (\<lambda>i w. w OR push_bit (31 - i) 1) [0..<m] (0 :: u32)) j \<longleftrightarrow> 32 - m \<le> j \<and> j < 32"
proof (induction m)
  case 0
  show ?case by simp
next
  case (Suc m)
  have "bit (push_bit (31 - m) 1 :: u32) j \<longleftrightarrow> j = 31 - m"
    by (simp only: bit_push_bit_iff bit_1_iff) (use Suc.prems in auto)
  then have "bit (fold (\<lambda>i w. w OR push_bit (31 - i) 1) [0..<Suc m] (0 :: u32)) j \<longleftrightarrow>
      32 - m \<le> j \<and> j < 32 \<or> j = 31 - m"
    using Suc.IH Suc.prems by (simp only: upt_Suc_append fold_append fold_simps comp_apply bit_or_iff)
  then show ?case using Suc.prems by auto
qed

lemma bit_netmask: "m \<le> 32 \<Longrightarrow> bit (netmask m) j \<longleftrightarrow> 32 - m \<le> j \<and> j < 32"
  by (auto simp: netmask_def bit_simps)

lemma parse_unsigned_show: "n < b \<Longrightarrow> parse_unsigned b (show_nat n) = Some n"
proof -
  assume n: "n < b"
  have "CHR ''+'' \<notin> set (show_nat n)" by (rule show_nat_free) (simp add: digit_value_def)
  then have "(case show_nat n of c # cs \<Rightarrow> if c = CHR ''+'' then cs else show_nat n | [] \<Rightarrow> []) = show_nat n"
    by (cases "show_nat n") auto
  then show ?thesis using n by (simp add: parse_unsigned_def)
qed

lemma mask_loop_netmask: "m \<le> 32 \<Longrightarrow> fold (\<lambda>i w. w OR push_bit (31 - i) 1) [0..<m] (0 :: u32) = netmask m"
  by (rule bit_word_eqI) (simp only: mask_loop bit_netmask)

lemma to_ip_show:
  assumes "m \<le> 32"
  shows "to_ip (show_nat m) = Ok (netmask m)"
proof -
  have "parse_unsigned (2 ^ 32) (show_nat m) = Some m" using assms by (intro parse_unsigned_show) simp
  then show ?thesis
    unfolding to_ip_def by (simp only: option.case not_less [THEN iffD2, OF assms] mask_loop_netmask [OF assms] if_False)
qed

definition show_net :: "u32 \<times> nat \<Rightarrow> string" where
  "show_net = (\<lambda>(dest, m). show_ipv4 dest @ CHR ''/'' # show_nat m)"

lemma show_ipv4_free: "digit_value c = None \<Longrightarrow> c \<noteq> CHR ''.'' \<Longrightarrow> c \<notin> set (show_ipv4 a)"
  by (simp add: show_ipv4_def show_nat_free)

lemma net_parse_show: "m \<le> 32 \<Longrightarrow> net_parse (show_net (dest, m)) = Ok (dest, netmask m)"
proof -
  assume m: "m \<le> 32"
  have "CHR ''/'' \<notin> set (show_ipv4 dest)" "CHR ''/'' \<notin> set (show_nat m)"
    by (rule show_ipv4_free show_nat_free; simp add: digit_value_def)+
  then show ?thesis
    using m by (simp add: show_net_def net_parse_def split_on_join split_on_no_sep to_ip_show)
qed

section \<open>Properties\<close>

definition show_in_ip :: "u32 \<times> nat \<times> ipv4_addr \<Rightarrow> string" where
  "show_in_ip = (\<lambda>(dest, m, gw). show_net (dest, m) @ CHR '','' # show_ipv4 gw)"

lemma in_ip_parse_show: "m \<le> 32 \<Longrightarrow> in_ip_parse (show_in_ip (dest, m, gw)) = Ok (dest, netmask m, gw)"
proof -
  assume m: "m \<le> 32"
  have "CHR '','' \<notin> set (show_net (dest, m))" "CHR '','' \<notin> set (show_ipv4 gw)"
    by (simp_all add: show_net_def show_ipv4_free show_nat_free digit_value_def)
  then show ?thesis
    using m by (simp add: show_in_ip_def in_ip_parse_def split_on_join split_on_no_sep net_parse_show)
qed

text \<open>C27: Every list of subnets with gateways has a text that is parsed to exactly it: the addresses as written, the
  masks with exactly the leading bits of the prefix lengths.\<close>

theorem in_ips_roundtrip:
  assumes "list_all (\<lambda>(dest, m, gw). m \<le> 32) es"
  shows "ips_parse (List.map show_in_ip es) = Ok (List.map (\<lambda>(dest, m, gw). (dest, netmask m, gw)) es) \<and>
    list_all (\<lambda>(dest, m, gw). \<forall>j. bit (netmask m) j = (32 - m \<le> j \<and> j < 32)) es"
proof
  show "ips_parse (List.map show_in_ip es) = Ok (List.map (\<lambda>(dest, m, gw). (dest, netmask m, gw)) es)"
    unfolding ips_parse_def using assms by (intro traverse_Ok) (auto simp: in_ip_parse_show list_all_iff)
  show "list_all (\<lambda>(dest, m, gw). \<forall>j. bit (netmask m) j = (32 - m \<le> j \<and> j < 32)) es"
    using assms by (auto simp: list_all_iff bit_netmask)
qed

lemma in_ips_roundtrip_witness:
  "ips_parse [''192.168.0.0/24,10.26.0.3''] = Ok [(0xC0A80000, 0xFFFFFF00, 0x0A1A0003)]"
proof -
  have "show_in_ip (0xC0A80000, 24, 0x0A1A0003) = ''192.168.0.0/24,10.26.0.3''"
    by code_simp
  moreover have "netmask 24 = 0xFFFFFF00" by (simp add: netmask_def mask_eq_exp_minus_1)
  ultimately show ?thesis using in_ips_roundtrip [of "[(0xC0A80000, 24, 0x0A1A0003)]"] by simp
qed

text \<open>An UDP mapping of \<open>vn-link\<close> that is accepted is bound to the loopback interface.\<close>

lemma link_pieces_item:
  assumes "link_pieces addr protocol m = Ok i"
  shows "li_protocol i = protocol \<and> (protocol = LinkUdp \<longrightarrow> sock_is_loopback (li_src_addr i))"
proof -
  from assms obtain bind_part rest src where
    "(if protocol = LinkUdp \<and> \<not> sock_is_loopback src then Err (AnyError ''udp vnt-mapping bind address must be 127.0.0.1 (loopback only)'')
      else case rest of [] \<Rightarrow> Err (AnyError ''vnt-mapping error'')
        | dest # _ \<Rightarrow> (case addr dest of None \<Rightarrow> Err (AnyError ''mapping dest error'')
          | Some d \<Rightarrow> Ok (link_item_new protocol src d))) = Ok i"
    by (auto simp: link_pieces_def outcome_simps split: list.splits [where ?list = "split_on _ _"])
  then show ?thesis by (auto simp: link_item_new_def split: if_splits list.splits option.splits)
qed

lemma link_parse_udp:
  "link_parse addr x = Ok i \<Longrightarrow> li_protocol i = LinkUdp \<longrightarrow> sock_is_loopback (li_src_addr i)"
  by (auto simp: link_parse_def Let_def split: option.splits dest: link_pieces_item)

lemma link_udp_loopback:
  "link_convert addr xs = Ok items \<Longrightarrow> list_all (\<lambda>i. li_protocol i = LinkUdp \<longrightarrow> sock_is_loopback (li_src_addr i)) items"
  unfolding link_convert_def by (erule traverse_all) (rule link_parse_udp)

text \<open>A destination with a hyphen in its name is cut at the hyphen, and the mapping is accepted.\<close>

lemma mapping_cuts_name:
  "addr ''0.0.0.0:80'' = Some a \<Longrightarrow> mapping_parse addr ''tcp:0.0.0.0:80-my-host:8080'' = Ok (True, a, ''my'')"
  by (simp add: mapping_parse_def str_trim_def ascii_space_def ascii_lower_def strip_prefix_def)

end
