(* ===== verification/Vnt_Core.thy ===== *)
theory Vnt_Core
  imports Gateway_Link Args_Parse
begin

text \<open>
  Starting a node: \<open>vnt/src/core/mod.rs\<close> (the configuration), \<open>vnt/src/core/conn.rs\<close> (the node made from it and
  the tasks that are started) and \<open>init_context\<close> of \<open>vnt/src/channel/mod.rs\<close>. What the operating system answers
  while the node starts is a record. Texts are octets, and only ASCII letters change their case. Of the
  chosen network interface the IPv4 address is kept; the rate of lost packets is given as the number
  the channel context keeps.
\<close>

section \<open>Configuration\<close>

record config =
  cf_token :: string
  cf_device_id :: string
  cf_name :: string
  cf_server_address :: socket_addr
  cf_server_address_str :: string
  cf_name_servers :: "string list"
  cf_stun_server :: "string list"
  cf_in_ips :: "ext_entry list"
  cf_out_ips :: "(u32 \<times> u32) list"
  cf_password :: "string option"
  cf_mtu :: "u32 option"
  cf_protocol :: connect_protocol
  cf_ip :: "ipv4_addr option"
  cf_no_proxy :: bool
  cf_server_encrypt :: bool
  cf_cipher_model :: cipher_model
  cf_finger :: bool
  cf_punch_model :: punch_model
  cf_ports :: "u16 list option"
  cf_first_latency :: bool
  cf_device_name :: "string option"
  cf_use_channel_type :: use_channel_type
  cf_packet_loss_rate :: "u32 option"
  cf_packet_delay :: u32
  cf_port_mapping_list :: "(bool \<times> socket_addr \<times> string) list"
  cf_compressor :: compressor
  cf_enable_traffic :: bool
  cf_allow_wire_guard :: bool
  cf_local_ipv4 :: "ipv4_addr option"
  cf_disable_relay :: bool
  cf_hook :: "string option"

text \<open>The servers of STUN and DNS get their usual ports. \<open>is_ipv6\<close> tells the text of an IPv6 address.\<close>

definition stun_server_port :: "string \<Rightarrow> string" where
  "stun_server_port x = (if CHR '':'' \<in> set x then x else x @ '':3478'')"

definition name_server_port :: "(string \<Rightarrow> bool) \<Rightarrow> string \<Rightarrow> string" where
  "name_server_port is_ipv6 x = (if is_ipv6 x then x @ '':53'' else if CHR '':'' \<notin> set x then x @ '':53'' else x)"

text \<open>The scheme of the server's address: the protocol, whether the name is to be resolved, the rest.\<close>

definition server_scheme :: "string \<Rightarrow> connect_protocol \<times> bool \<times> string" where
  "server_scheme s =
     (if strip_prefix ''wss://'' s \<noteq> None then (WSS, False, s)
      else if strip_prefix ''ws://'' s \<noteq> None then (WS, False, s)
      else case strip_prefix ''udp://'' s of Some r \<Rightarrow> (UDP, True, r)
        | None \<Rightarrow> (case strip_prefix ''tcp://'' s of Some r \<Rightarrow> (TCP, True, r) | None \<Rightarrow> (UDP, True, s)))"

text \<open>\<open>Config::new\<close> on the arguments, with the \<open>ws\<close> and \<open>wss\<close> features: those that are kept as they are come as a
  configuration, then the port mappings and the name of the interface. \<open>interface\<close> is \<open>get_interface\<close>. The server
  address stays \<open>0.0.0.0:0\<close> when no server is found.\<close>

definition config_new :: "dns_env \<Rightarrow> (bool \<Rightarrow> bool) \<Rightarrow> (socket_addr \<Rightarrow> bool) \<Rightarrow> (socket_addr \<Rightarrow> nat option) \<Rightarrow>
    (string \<Rightarrow> bool) \<Rightarrow> (string \<Rightarrow> ipv4_addr option) \<Rightarrow> config \<Rightarrow> string list \<Rightarrow> string option \<Rightarrow> config outcome" where
  "config_new D bnd connects history is_ipv6 interface c mappings local_dev =
     (let names = map (name_server_port is_ipv6) (cf_name_servers c) in
      if cf_token c = [] \<or> 128 < length (cf_token c) then Err (AnyError ''token too long'')
      else if cf_device_id c = [] \<or> 128 < length (cf_device_id c) then Err (AnyError ''device_id too long'')
      else if cf_name c = [] \<or> 128 < length (cf_name c) then Err (AnyError ''name too long'')
      else case server_scheme (map ascii_lower (cf_server_address_str c)) of (protocol, query, server) \<Rightarrow>
        obind (if query then (case dns_query_all D server names of
              Ok addrs \<Rightarrow> (case fst (address_choose bnd connects addrs history) of
                  Some a \<Rightarrow> Ok a | None \<Rightarrow> Ok (SockV4 0 0))
            | Err _ \<Rightarrow> Ok (SockV4 0 0) | Panic \<Rightarrow> Panic)
          else Ok (SockV4 0 0)) (\<lambda>addr.
        obind (mapping_convert (de_addr D) mappings) (\<lambda>port_mapping_list.
        Ok (c\<lparr>cf_server_address := addr, cf_server_address_str := server, cf_protocol := protocol,
          cf_name_servers := names, cf_stun_server := map stun_server_port (cf_stun_server c),
          cf_in_ips := sort_key (\<lambda>(dest, _, _). - uint dest)
            (map (\<lambda>(dest, netmask, gw). (netmask AND dest, netmask, gw)) (cf_in_ips c)),
          cf_port_mapping_list := port_mapping_list,
          cf_local_ipv4 := Option.bind local_dev interface\<rparr>))))"

definition text_bytes :: "string \<Rightarrow> bytes" where
  "text_bytes s = map of_char s"

definition password_hash :: "crypto \<Rightarrow> config \<Rightarrow> bytes option outcome" where
  "password_hash C c = (case cf_password c of
       None \<Rightarrow> Ok None
     | Some p \<Rightarrow> (case cf_cipher_model c of
           MXor \<Rightarrow> omap (\<lambda>key. Some (drop 16 key)) (simple_hash (text_bytes (''Xor'' @ p @ cf_token c)))
         | MNone \<Rightarrow> Ok None
         | m \<Rightarrow> Ok (Some (drop 16 (c_sha256 C (text_bytes (cipher_model_str m @ p @ cf_token c)))))))"

section \<open>Sockets\<close>

record startup =
  st_key :: bytes
  st_ipv6 :: bool
  st_bind :: "nat \<Rightarrow> u16 \<Rightarrow> (u16 \<times> u16) outcome"
  st_tcp :: "u16 outcome"
  st_local_ipv4 :: "ipv4_addr option"
  st_local_ipv6 :: "128 word option"
  st_now :: nanos
  st_handshake_now :: nanos
  st_proxy :: "ip_proxy outcome"

text \<open>The local ports of the sockets for each requested port, over IPv4 and, where there is IPv6, over IPv6.\<close>

fun bind_main :: "startup \<Rightarrow> nat \<Rightarrow> u16 list \<Rightarrow> (u16 \<times> u16) list outcome" where
  "bind_main S k [] = Ok []"
| "bind_main S k (port # ports) = obind (st_bind S k port) (\<lambda>p. omap ((#) p) (bind_main S (Suc k) ports))"

definition vnt_ports :: "config \<Rightarrow> u16 list" where
  "vnt_ports c = (let ports = (case cf_ports c of None \<Rightarrow> [0, 0] | Some v \<Rightarrow> if v = [] then [0, 0] else v)
     in if is_only_relay (cf_use_channel_type c) then take 1 ports else ports)"

definition init_context :: "startup \<Rightarrow> config \<Rightarrow> u16 list \<Rightarrow> multi_meter option \<Rightarrow> multi_meter option \<Rightarrow>
    (channel_context \<times> u16) outcome" where
  "init_context S c ports up down =
     (if ports = [] then Panic
      else obind (bind_main S 0 ports) (\<lambda>bound.
        let v4 = map (Some \<circ> fst) bound; v6 = (if st_ipv6 S then map (Some \<circ> snd) bound else []) in
        obind (cc_new (v4 @ v6) (length v4) (cf_use_channel_type c) (cf_first_latency c) (cf_protocol c)
          (cf_packet_loss_rate c) (cf_packet_delay c) up down) (\<lambda>ctx. omap (Pair ctx) (st_tcp S))))"

text \<open>\<open>main_local_udp_port\<close>\<close>

definition main_local_udp_port :: "channel_context \<Rightarrow> u16 list outcome" where
  "main_local_udp_port c = (if \<exists>p \<in> set (take (cc_v4_len c) (cc_main_udp c)). p = None then Err (IoError OtherKind)
     else Ok (map the (take (cc_v4_len c) (cc_main_udp c))))"

section \<open>The node\<close>

definition vnt_base_config :: "config \<Rightarrow> bytes option \<Rightarrow> base_config_info" where
  "vnt_base_config c hash = \<lparr>bi_name = cf_name c, bi_token = cf_token c, bi_ip = cf_ip c, bi_client_secret_hash = hash,
     bi_server_secret = cf_server_encrypt c, bi_device_id = cf_device_id c, bi_server_addr = cf_server_address_str c,
     bi_name_servers = cf_name_servers c, bi_mtu = (case cf_mtu c of Some m \<Rightarrow> m | None \<Rightarrow> 1420),
     bi_device_name = cf_device_name c, bi_allow_wire_guard = cf_allow_wire_guard c, bi_hook = cf_hook c\<rparr>"

definition a_minute_ago :: "nanos \<Rightarrow> nanos" where
  "a_minute_ago now = (if 60 * NANOS \<le> now then now - 60 * NANOS else now)"

definition BUFFER_SIZE :: nat where
  "BUFFER_SIZE = 65536"

text \<open>\<open>new_device0\<close> up to the first handshake.\<close>

definition vnt_new :: "crypto \<Rightarrow> startup \<Rightarrow> config \<Rightarrow> (node_config \<times> node) outcome" where
  "vnt_new C S c =
     (let meter = (if cf_enable_traffic c then Some (mm_new 100) else None) in
      obind (if cf_server_encrypt c then cipher_new_key C (st_key S) (text_bytes (cf_token c)) else Ok CNone) (\<lambda>server_cipher.
      obind (cipher_new_password C (cf_cipher_model c) (map_option text_bytes (cf_password c))
        (if cf_finger c then Some (text_bytes (cf_token c)) else None)) (\<lambda>client_cipher.
      let local_ipv4 = (case cf_local_ipv4 c of Some ip \<Rightarrow> Some ip | None \<Rightarrow> st_local_ipv4 S) in
      obind (password_hash C c) (\<lambda>hash.
      obind (init_context S c (vnt_ports c) meter meter) (\<lambda>(ctx, tcp_port).
      obind (main_local_udp_port ctx) (\<lambda>udp_ports.
      obind (if cf_out_ips c \<noteq> [] \<and> \<not> cf_no_proxy c then omap Some (st_proxy S) else Ok None) (\<lambda>proxy.
      Ok (\<lparr>nc_base = vnt_base_config c hash, nc_client_cipher = client_cipher, nc_server_cipher = server_cipher,
            nc_compressor = cf_compressor c, nc_ip_route = ext_route_new (cf_in_ips c),
            nc_allow_route = allow_route_new (cf_out_ips c), nc_disable_relay = cf_disable_relay c\<rparr>,
          \<lparr>nd_ctx = ctx, nd_current = current_device_new0 (cf_server_address c), nd_rsa = None,
            nd_up_key_time = a_minute_ago (st_now S), nd_handshake_time = a_minute_ago (st_handshake_now S),
            nd_epoch = 0, nd_devices = [], nd_peer_nat = Map.empty,
            nd_nat = nat_test_new (cf_stun_server c) local_ipv4 (st_local_ipv6 S) udp_ports tcp_port
              (cf_local_ipv4 c = None) (cf_punch_model c) (st_now S),
            nd_proxy = proxy, nd_extend = replicate BUFFER_SIZE 0, nd_punch = [], nd_connects = [],
            nd_history = Map.empty, nd_out = [], nd_step = 0\<rparr>))))))))"

section \<open>The tasks\<close>

text \<open>Which tasks \<open>new_device0\<close> and \<open>start\<close> begin.\<close>

datatype task = IdleGateway | RetrieveNatType | Heartbeat | IdleRoute | ClientRelay | PubAddressRequest | PunchTask | UpStatus

definition vnt_tasks :: "use_channel_type \<Rightarrow> task list" where
  "vnt_tasks ct = [IdleGateway] @ (if \<not> is_only_relay ct then [RetrieveNatType] else []) @ [Heartbeat, IdleRoute] @
     (if \<not> is_only_p2p ct then [ClientRelay] else []) @ (if \<not> is_only_relay ct then [PubAddressRequest, PunchTask] else []) @
     [UpStatus]"

definition IDLE_TIME :: nanos where
  "IDLE_TIME = 10 * NANOS"

section \<open>Stopping\<close>

text \<open>\<open>stop\<close>: the hook that is run, if one is configured.\<close>

definition vnt_stop_hook :: "config \<Rightarrow> current_device_info \<Rightarrow> hook_info option" where
  "vnt_stop_hook c dev = map_option (\<lambda>hook. hook
     \<lparr>hk_tun_name := Some (case cf_device_name c of Some name \<Rightarrow> name | None \<Rightarrow> ''vnt-tun''),
      hk_device_name := Some (cf_name c), hk_device_id := Some (cf_device_id c),
      hk_virtual_ip := (if is_unspecified (cd_virtual_ip dev) then None else Some (cd_virtual_ip dev)),
      hk_server_addr := Some (cf_server_address_str c), hk_remote_addr := Some (cd_connect_server dev),
      hk_reason := Some ''stop''\<rparr>) (hook_info_new (cf_hook c) ''stop'')"

end
