(* ===== verification/Udp_Channel.thy ===== *)
theory Udp_Channel
  imports Channel_Context
begin

text \<open>
  The threads that read the UDP sockets, \<open>vnt/src/channel/udp_channel.rs\<close>, with \<open>channel/notify.rs\<close> that
  wakes them. The system's poll is a list of the sources that are ready; each source was registered under
  a token, and the loops see the token alone. Datagrams wait in the buffer of their socket until it
  is read. The handler is a parameter, as in the code.
\<close>

section \<open>Waking a thread\<close>

text \<open>\<open>AcceptNotifyInner\<close> is its state word. \<open>WritableNotifyInner\<close> has tokens in addition. That waking the
  poll may fail is not modelled: callers log it or return it after the change.\<close>

definition an_new :: u64 where
  "an_new = 0"

definition an_is_stop :: "u64 \<Rightarrow> bool" where
  "an_is_stop s \<longleftrightarrow> s AND 0b001 = 0b001"

definition an_is_add_socket :: "u64 \<Rightarrow> bool \<times> u64" where
  "an_is_add_socket s = (s AND 0b100 = 0b100, s AND NOT 0b100)"

definition an_stop :: "u64 \<Rightarrow> u64" where
  "an_stop s = 0b001"

definition an_add_socket :: "u64 \<Rightarrow> u64" where
  "an_add_socket s = s OR 0b100"

record writable_notify =
  wn_state :: u64
  wn_tokens :: "(nat \<times> bool) list"

definition wn_new :: writable_notify where
  "wn_new = \<lparr>wn_state = 0, wn_tokens = []\<rparr>"

definition wn_need_write :: "writable_notify \<Rightarrow> writable_notify" where
  "wn_need_write w = w\<lparr>wn_state := wn_state w OR 0b010\<rparr>"

definition wn_notify :: "nat \<Rightarrow> bool \<Rightarrow> writable_notify \<Rightarrow> writable_notify" where
  "wn_notify token state w = wn_need_write
     (if wn_tokens w = [] \<or> (token, state) \<notin> set (wn_tokens w) then w\<lparr>wn_tokens := wn_tokens w @ [(token, state)]\<rparr> else w)"

definition wn_stop :: "writable_notify \<Rightarrow> writable_notify" where
  "wn_stop w = w\<lparr>wn_state := 0b001\<rparr>"

definition wn_add_socket :: "writable_notify \<Rightarrow> writable_notify" where
  "wn_add_socket w = w\<lparr>wn_state := wn_state w OR 0b100\<rparr>"

definition wn_take_all :: "writable_notify \<Rightarrow> (nat \<times> bool) list option \<times> writable_notify" where
  "wn_take_all w = (if wn_tokens w = [] then (None, w) else (Some (wn_tokens w), w\<lparr>wn_tokens := []\<rparr>))"

definition wn_is_stop :: "writable_notify \<Rightarrow> bool" where
  "wn_is_stop w \<longleftrightarrow> wn_state w AND 0b001 = 0b001"

definition wn_is_need_write :: "writable_notify \<Rightarrow> bool \<times> writable_notify" where
  "wn_is_need_write w = (wn_state w AND 0b010 = 0b010, w\<lparr>wn_state := wn_state w AND NOT 0b010\<rparr>)"

definition wn_is_add_socket :: "writable_notify \<Rightarrow> bool \<times> writable_notify" where
  "wn_is_add_socket w = (wn_state w AND 0b100 = 0b100, w\<lparr>wn_state := wn_state w AND NOT 0b100\<rparr>)"

lemma mask_bit:
  fixes s :: u64
  assumes "k < 64"
  shows "s AND push_bit k 1 = push_bit k 1 \<longleftrightarrow> bit s k"
proof
  assume "s AND push_bit k 1 = push_bit k 1"
  then have "bit (s AND push_bit k 1) k" using assms by (simp add: push_bit_of_1 bit_exp_iff)
  then show "bit s k" by (simp add: bit_and_iff)
next
  assume "bit s k"
  then show "s AND push_bit k 1 = push_bit k 1"
    by (intro bit_word_eqI) (auto simp: bit_and_iff push_bit_of_1 bit_exp_iff)
qed

lemma mask_single: "s AND 0b001 = 0b001 \<longleftrightarrow> bit s 0" "s AND 0b100 = 0b100 \<longleftrightarrow> bit s 2" for s :: u64
  using mask_bit [of 0 s] mask_bit [of 2 s] by (simp_all add: push_bit_eq_mult)

lemma bit_four: "bit (0b100 :: u64) k \<longleftrightarrow> k = 2"
  using bit_push_bit_iff [of 2 "1 :: u64" k] by (auto simp: push_bit_eq_mult bit_simps)

text \<open>A stop is not taken back by anything that follows; an added socket is seen exactly once.\<close>

lemma an_stop_stays:
  "an_is_stop (an_stop s)" "an_is_stop s \<Longrightarrow> an_is_stop (an_add_socket s)"
  "an_is_stop s \<Longrightarrow> an_is_stop (snd (an_is_add_socket s))"
  unfolding an_is_stop_def an_stop_def an_add_socket_def an_is_add_socket_def mask_single
  by (auto simp: bit_simps bit_four)

lemma an_added_once:
  "fst (an_is_add_socket (an_add_socket s))" "\<not> fst (an_is_add_socket (snd (an_is_add_socket s)))"
  unfolding an_add_socket_def an_is_add_socket_def fst_conv snd_conv mask_single
  by (auto simp: bit_simps bit_four)

lemma wn_tokens_distinct:
  "distinct (wn_tokens w) \<Longrightarrow> distinct (wn_tokens (wn_notify token state w)) \<and> (token, state) \<in> set (wn_tokens (wn_notify token state w))"
  by (auto simp: wn_notify_def wn_need_write_def)

section \<open>Sockets and tokens\<close>

datatype recv_result = Datagram bytes socket_addr | RecvError

text \<open>What a poll finds ready: the waker, or the socket at a position of the list.\<close>

datatype source = Woken | Readable nat

definition NOTIFY :: nat where
  "NOTIFY = 0"

text \<open>The tokens the two threads register the socket at a position under.\<close>

definition main_token :: "source \<Rightarrow> nat" where
  "main_token s = (case s of Woken \<Rightarrow> NOTIFY | Readable index \<Rightarrow> index + 1)"

definition sub_token :: "source \<Rightarrow> nat" where
  "sub_token s = (case s of Woken \<Rightarrow> NOTIFY | Readable index \<Rightarrow> index)"

text \<open>One poll: ready sources, an interruption or an error.\<close>

datatype poll_result = Ready "source list" | Interrupted | PollFailed

type_synonym 's handler = "bytes \<Rightarrow> route_key \<Rightarrow> ('s, unit) action"

text \<open>\<open>recv_from\<close> until the socket would block; an error is logged and the loop goes on.\<close>

fun recv_datagrams :: "'s handler \<Rightarrow> nat \<Rightarrow> recv_result list \<Rightarrow> ('s, unit) action" where
  "recv_datagrams handle index [] = sret ()"
| "recv_datagrams handle index (Datagram buf addr # rs) =
     sbind (handle buf (RouteKey UDP index addr)) (\<lambda>_. recv_datagrams handle index rs)"
| "recv_datagrams handle index (RecvError # rs) = recv_datagrams handle index rs"

text \<open>The buffers of the sockets by their identity, beside the state of the handler.\<close>

type_synonym 's inbox = "(nat \<Rightarrow> recv_result list) \<times> 's"

definition read_socket :: "'s handler \<Rightarrow> nat \<Rightarrow> nat \<Rightarrow> ('s inbox, unit) action" where
  "read_socket handle index sock = (\<lambda>(inbox, s). case recv_datagrams handle index (inbox sock) s of
     (r, s) \<Rightarrow> (r, inbox(sock := []), s))"

section \<open>The main sockets\<close>

text \<open>The socket at a position is its own identity here: the list never changes. The result is whether the
  loop goes on.\<close>

fun main_udp_events :: "'s handler \<Rightarrow> nat \<Rightarrow> nat list \<Rightarrow> ('s inbox, bool) action" where
  "main_udp_events handle len [] = sret True"
| "main_udp_events handle len (token # ts) =
     (if token = NOTIFY then sret False
      else let index = token - 1 in
        if index < len then sbind (read_socket handle index index) (\<lambda>_. main_udp_events handle len ts)
        else main_udp_events handle len ts)"

definition main_udp_poll :: "'s handler \<Rightarrow> nat \<Rightarrow> poll_result \<Rightarrow> ('s inbox, bool) action" where
  "main_udp_poll handle len p = (case p of
       Ready sources \<Rightarrow> main_udp_events handle len (map main_token sources)
     | Interrupted \<Rightarrow> sret True
     | PollFailed \<Rightarrow> slift (Err (IoError OtherKind)))"

text \<open>The loop of \<open>main_udp_listen0\<close> over a run of polls, with the datagrams that arrive before each.\<close>

fun arrive :: "(nat \<times> recv_result) list \<Rightarrow> 's inbox \<Rightarrow> 's inbox" where
  "arrive ds (inbox, s) = (\<lambda>i. inbox i @ map snd (filter (\<lambda>(j, _). j = i) ds), s)"

fun main_udp_listen0 :: "'s handler \<Rightarrow> nat \<Rightarrow> ((nat \<times> recv_result) list \<times> poll_result) list \<Rightarrow> ('s inbox, bool) action" where
  "main_udp_listen0 handle len [] s = (Ok True, s)"
| "main_udp_listen0 handle len ((ds, p) # ps) s = sbind (main_udp_poll handle len p)
     (\<lambda>goes. if goes then main_udp_listen0 handle len ps else sret False) (arrive ds s)"

section \<open>The extra sockets\<close>

text \<open>The thread's list of sockets, by their identity; the channel that hands it other ones and its state word,
  both shared with \<open>AcceptSocketSender\<close>; and the buffers of all sockets.\<close>

record 's sub_loop =
  sl_list :: "nat list"
  sl_queue :: "nat list option list"
  sl_notify :: u64
  sl_inbox :: "nat \<Rightarrow> recv_result list"
  sl_handler :: 's

definition try_add_socket :: "nat list option \<Rightarrow> ('s sub_loop, unit) action" where
  "try_add_socket t s =
     (if length (sl_queue s) < 64
      then (Ok (), s\<lparr>sl_queue := sl_queue s @ [t], sl_notify := an_add_socket (sl_notify s)\<rparr>)
      else (Err (IoError WouldBlock), s))"

text \<open>Registering may fail, which ends the thread.\<close>

fun register_sockets :: "(nat \<Rightarrow> bool) \<Rightarrow> nat list \<Rightarrow> ('s sub_loop, unit) action" where
  "register_sockets registers [] = sret ()"
| "register_sockets registers (x # xs) = (\<lambda>s. if registers x
     then register_sockets registers xs (s\<lparr>sl_list := sl_list s @ [x]\<rparr>) else (Err (IoError OtherKind), s))"

fun take_sockets :: "(nat \<Rightarrow> bool) \<Rightarrow> nat list option list \<Rightarrow> ('s sub_loop, unit) action" where
  "take_sockets registers [] s = (Ok (), s\<lparr>sl_queue := []\<rparr>)"
| "take_sockets registers (None # os) s = take_sockets registers os (s\<lparr>sl_list := []\<rparr>)"
| "take_sockets registers (Some l # os) s =
     sbind (register_sockets registers l) (\<lambda>_. take_sockets registers os) (s\<lparr>sl_list := [], sl_queue := os\<rparr>)"

definition sub_udp_event :: "'s handler \<Rightarrow> (nat \<Rightarrow> bool) \<Rightarrow> nat \<Rightarrow> nat \<Rightarrow> ('s sub_loop, bool) action" where
  "sub_udp_event handle registers mains token s =
     (if token = NOTIFY then
        if an_is_stop (sl_notify s) then (Ok False, s)
        else case an_is_add_socket (sl_notify s) of (added, state) \<Rightarrow>
          (if added then sbind (take_sockets registers (sl_queue s)) (\<lambda>_. sret True) else sret True) (s\<lparr>sl_notify := state\<rparr>)
      else if token < length (sl_list s) then
        (let sock = sl_list s ! token in
         case recv_datagrams handle (token + mains) (sl_inbox s sock) (sl_handler s) of
           (r, t) \<Rightarrow> (omap (\<lambda>_. True) r, s\<lparr>sl_inbox := (sl_inbox s)(sock := []), sl_handler := t\<rparr>))
      else (Ok True, s))"

fun sub_udp_events :: "'s handler \<Rightarrow> (nat \<Rightarrow> bool) \<Rightarrow> nat \<Rightarrow> nat list \<Rightarrow> ('s sub_loop, bool) action" where
  "sub_udp_events handle registers mains [] = sret True"
| "sub_udp_events handle registers mains (token # ts) = sbind (sub_udp_event handle registers mains token)
     (\<lambda>goes. if goes then sub_udp_events handle registers mains ts else sret False)"

definition sub_udp_poll :: "'s handler \<Rightarrow> (nat \<Rightarrow> bool) \<Rightarrow> nat \<Rightarrow> poll_result \<Rightarrow> ('s sub_loop, bool) action" where
  "sub_udp_poll handle registers mains p = (case p of
       Ready sources \<Rightarrow> sub_udp_events handle registers mains (map sub_token sources)
     | Interrupted \<Rightarrow> sret True
     | PollFailed \<Rightarrow> slift (Err (IoError OtherKind)))"

text \<open>What happens to the thread: a datagram arrives at a socket, another thread hands over sockets or stops
  it, or its poll returns. Only the last can end it.\<close>

datatype sub_input = Arrives nat recv_result | Hands "nat list option" | Stops | Polls poll_result

definition sub_udp_input :: "'s handler \<Rightarrow> (nat \<Rightarrow> bool) \<Rightarrow> nat \<Rightarrow> sub_input \<Rightarrow> ('s sub_loop, bool) action" where
  "sub_udp_input handle registers mains i s = (case i of
       Arrives sock d \<Rightarrow> (Ok True, s\<lparr>sl_inbox := (sl_inbox s)(sock := sl_inbox s sock @ [d])\<rparr>)
     | Hands t \<Rightarrow> (Ok True, snd (try_add_socket t s))
     | Stops \<Rightarrow> (Ok True, s\<lparr>sl_notify := an_stop (sl_notify s)\<rparr>)
     | Polls p \<Rightarrow> sub_udp_poll handle registers mains p s)"

fun sub_udp_listen0 :: "'s handler \<Rightarrow> (nat \<Rightarrow> bool) \<Rightarrow> nat \<Rightarrow> sub_input list \<Rightarrow> ('s sub_loop, bool) action" where
  "sub_udp_listen0 handle registers mains [] = sret True"
| "sub_udp_listen0 handle registers mains (i # is) = sbind (sub_udp_input handle registers mains i)
     (\<lambda>goes. if goes then sub_udp_listen0 handle registers mains is else sret False)"

section \<open>The main sockets are all read\<close>

text \<open>Everything in the buffers of the ready sockets, in their order, with the socket it is read from.\<close>

fun handle_all :: "'s handler \<Rightarrow> (nat \<times> recv_result) list \<Rightarrow> ('s, unit) action" where
  "handle_all handle [] = sret ()"
| "handle_all handle ((index, d) # ds) = sbind (recv_datagrams handle index [d]) (\<lambda>_. handle_all handle ds)"

lemma recv_datagrams_Cons:
  "recv_datagrams handle index (d # ds) = sbind (recv_datagrams handle index [d]) (\<lambda>_. recv_datagrams handle index ds)"
  by (cases d) (auto simp: sbind_def sret_def fun_eq_iff split: prod.splits outcome.splits)

lemma handle_all_append: "handle_all handle (as @ ds) = sbind (handle_all handle as) (\<lambda>_. handle_all handle ds)"
  by (induction as) (auto simp: sbind_def sret_def fun_eq_iff split: prod.splits outcome.splits)

lemma handle_all_one: "handle_all handle (map (Pair index) ds) = recv_datagrams handle index ds"
proof (induction ds)
  case (Cons d ds)
  then show ?case by (subst recv_datagrams_Cons) simp
qed simp

lemma main_events_eq:
  assumes "\<forall>i \<in> set is. i < len" and "distinct is" and "\<forall>buf key s. fst (handle buf key s) = Ok ()"
  shows "main_udp_events handle len (map Suc is) (inbox, s) = (Ok True, (\<lambda>i. if i \<in> set is then [] else inbox i),
    snd (handle_all handle (concat (map (\<lambda>i. map (Pair i) (inbox i)) is)) s))"
  using assms(1,2)
proof (induction "is" arbitrary: inbox s)
  case (Cons i "is")
  have "\<forall>buf key s. fst (handle buf key s) = Ok () \<Longrightarrow> fst (recv_datagrams handle index ds s) = Ok ()" for index ds s
  proof (induction handle index ds arbitrary: s rule: recv_datagrams.induct)
    case (2 handle index buf addr rs)
    obtain t where "handle buf (RouteKey UDP index addr) s = (Ok (), t)"
      using "2.prems" by (metis prod.collapse)
    then show ?case using 2 by (simp add: sbind_def)
  qed (simp_all add: sret_def)
  then have ok: "fst (recv_datagrams handle index ds s) = Ok ()" for index ds s
    using assms(3) by blast
  obtain t where t: "recv_datagrams handle i (inbox i) s = (Ok (), t)"
    using ok [of i "inbox i" s] by (metis prod.collapse)
  have "(\<lambda>j. map (Pair j) ((inbox(i := [])) j)) k = map (Pair k) (inbox k)" if "k \<in> set is" for k
    using that Cons.prems(2) by auto
  then have "map (\<lambda>j. map (Pair j) ((inbox(i := [])) j)) is = map (\<lambda>j. map (Pair j) (inbox j)) is"
    by simp
  note reads = this
  have clears: "(\<lambda>j. if j \<in> set is then [] else (inbox(i := [])) j) = (\<lambda>j. if j \<in> set (i # is) then [] else inbox j)"
    by auto
  show ?case
    using Cons.prems Cons.IH [of "inbox(i := [])" t, unfolded reads clears] t
    by (simp add: NOTIFY_def sbind_def read_socket_def handle_all_append handle_all_one del: fun_upd_apply)
qed (simp add: sret_def)

text \<open>A poll of the main sockets hands every waiting datagram of the ready ones to the handler, in order and
  with the index of its socket, and leaves the other sockets alone.\<close>

lemma main_poll_reads:
  assumes "\<forall>i \<in> set is. i < len" and "distinct is" and "\<forall>buf key s. fst (handle buf key s) = Ok ()"
  shows "main_udp_poll handle len (Ready (map Readable is)) (inbox, s) = (Ok True, (\<lambda>i. if i \<in> set is then [] else inbox i),
    snd (handle_all handle (concat (map (\<lambda>i. map (Pair i) (inbox i)) is)) s))"
proof -
  have "map main_token (map Readable is) = map Suc is" by (simp add: main_token_def)
  then show ?thesis unfolding main_udp_poll_def poll_result.case by (simp only: main_events_eq [OF assms])
qed

section \<open>The first extra socket is never read\<close>

text \<open>The buffer of one socket replaced.\<close>

definition put_inbox :: "nat \<Rightarrow> recv_result list \<Rightarrow> 's sub_loop \<Rightarrow> 's sub_loop" where
  "put_inbox x d s = s\<lparr>sl_inbox := (sl_inbox s)(x := d)\<rparr>"

text \<open>A socket that is in no list but at its head.\<close>

definition head_only :: "nat \<Rightarrow> 's sub_loop \<Rightarrow> bool" where
  "head_only x s \<longleftrightarrow> x \<notin> set (tl (sl_list s)) \<and> (\<forall>l. Some l \<in> set (sl_queue s) \<longrightarrow> x \<notin> set (tl l))"

text \<open>An action that neither reads nor changes the buffer of the socket.\<close>

definition ignores :: "nat \<Rightarrow> ('s sub_loop, 'a) action \<Rightarrow> 's sub_loop \<Rightarrow> bool" where
  "ignores x m s \<longleftrightarrow> (\<forall>d. m (put_inbox x d s) = (fst (m s), put_inbox x d (snd (m s)))) \<and>
     sl_inbox (snd (m s)) x = sl_inbox s x \<and> head_only x (snd (m s))"

lemma put_inbox_fields [simp]:
  "sl_list (put_inbox x d s) = sl_list s" "sl_queue (put_inbox x d s) = sl_queue s" "sl_notify (put_inbox x d s) = sl_notify s"
  "sl_handler (put_inbox x d s) = sl_handler s" "sl_inbox (put_inbox x d s) = (sl_inbox s)(x := d)"
  "put_inbox x d s\<lparr>sl_list := l\<rparr> = put_inbox x d (s\<lparr>sl_list := l\<rparr>)"
  "put_inbox x d s\<lparr>sl_queue := q\<rparr> = put_inbox x d (s\<lparr>sl_queue := q\<rparr>)"
  "put_inbox x d s\<lparr>sl_notify := w\<rparr> = put_inbox x d (s\<lparr>sl_notify := w\<rparr>)"
  "put_inbox x d s\<lparr>sl_list := l, sl_queue := q\<rparr> = put_inbox x d (s\<lparr>sl_list := l, sl_queue := q\<rparr>)"
  "put_inbox x d s\<lparr>sl_queue := q, sl_notify := w\<rparr> = put_inbox x d (s\<lparr>sl_queue := q, sl_notify := w\<rparr>)"
  by (simp_all add: put_inbox_def)

lemma ignores_ret [simp]: "head_only x s \<Longrightarrow> ignores x (sret v) s"
  by (simp add: ignores_def sret_def)

lemma ignores_bind:
  assumes "ignores x m s" and "\<And>v t. m s = (Ok v, t) \<Longrightarrow> head_only x t \<Longrightarrow> ignores x (f v) t"
  shows "ignores x (sbind m f) s"
proof (cases "m s")
  case (Pair r t)
  then show ?thesis
    using assms by (cases r) (auto simp: ignores_def sbind_def)
qed

lemma register_ignores:
  "x \<notin> set (tl (sl_list s @ l)) \<Longrightarrow> (\<forall>q. Some q \<in> set (sl_queue s) \<longrightarrow> x \<notin> set (tl q)) \<Longrightarrow>
    ignores x (register_sockets registers l) s"
proof (induction l arbitrary: s)
  case (Cons a l)
  have "x \<notin> set (tl (sl_list s))"
    using Cons.prems(1) by (cases "sl_list s") auto
  then show ?case
    using Cons.IH [of "s\<lparr>sl_list := sl_list s @ [a]\<rparr>"] Cons.prems by (simp add: ignores_def head_only_def)
qed (simp add: head_only_def)

lemma take_ignores: "head_only x s \<Longrightarrow> (\<forall>q. Some q \<in> set os \<longrightarrow> x \<notin> set (tl q)) \<Longrightarrow>
    ignores x (take_sockets registers os) s"
proof (induction registers os s rule: take_sockets.induct)
  case (3 registers l os s)
  let ?t = "s\<lparr>sl_list := [], sl_queue := os\<rparr>"
  have "ignores x (sbind (register_sockets registers l) (\<lambda>_. take_sockets registers os)) ?t"
    using 3 by (intro ignores_bind register_ignores) (auto simp: head_only_def)
  then show ?case by (simp add: ignores_def)
qed (auto simp: ignores_def head_only_def)

lemma sub_event_ignores:
  assumes "head_only x s"
  shows "ignores x (sub_udp_event handle registers mains token) s"
proof (cases "token = NOTIFY")
  case True
  obtain added state where a: "an_is_add_socket (sl_notify s) = (added, state)" by force
  have "ignores x (if added then sbind (take_sockets registers (sl_queue s)) (\<lambda>_. sret True) else sret True)
      (s\<lparr>sl_notify := state\<rparr>)"
    using assms by (auto simp: head_only_def intro!: ignores_bind take_ignores)
  then show ?thesis
    using True a assms by (cases added) (simp_all add: ignores_def sub_udp_event_def)
next
  case False
  have "sl_list s ! token \<noteq> x" if "token < length (sl_list s)"
  proof -
    have "token - 1 < length (tl (sl_list s))" using that False by (simp add: NOTIFY_def)
    then have "tl (sl_list s) ! (token - 1) \<in> set (tl (sl_list s))" by (rule nth_mem)
    then show ?thesis using that False assms by (auto simp: head_only_def NOTIFY_def nth_tl)
  qed
  then show ?thesis
    using False assms
    by (auto simp: ignores_def sub_udp_event_def head_only_def put_inbox_def fun_upd_twist Let_def split: prod.splits)
qed

lemma sub_poll_ignores:
  assumes "head_only x s"
  shows "ignores x (sub_udp_poll handle registers mains p) s"
proof -
  have "head_only x s \<Longrightarrow> ignores x (sub_udp_events handle registers mains ts) s" for ts s
    by (induction ts arbitrary: s) (auto intro!: ignores_bind sub_event_ignores)
  then show ?thesis
    using assms by (auto simp: sub_udp_poll_def ignores_def slift_def split: poll_result.splits)
qed

text \<open>The inputs hand over lists with the socket at the head, if anywhere, as \<open>reset_reconnect_udp_socket\<close> does
  with the socket it sends from.\<close>

definition hands_head :: "nat \<Rightarrow> sub_input \<Rightarrow> bool" where
  "hands_head x i = (case i of Hands (Some l) \<Rightarrow> x \<notin> set (tl l) | _ \<Rightarrow> True)"

definition arrives_at :: "nat \<Rightarrow> sub_input \<Rightarrow> bool" where
  "arrives_at x i = (case i of Arrives sock _ \<Rightarrow> sock = x | _ \<Rightarrow> False)"

lemma sub_input_ignores:
  assumes "head_only x s" and "hands_head x i" and "\<not> arrives_at x i"
  shows "ignores x (sub_udp_input handle registers mains i) s"
proof (cases i)
  case (Hands t)
  then show ?thesis
    using assms by (auto simp: sub_udp_input_def ignores_def hands_head_def try_add_socket_def head_only_def put_inbox_def)
next
  case (Polls p)
  then show ?thesis
    using sub_poll_ignores [OF assms(1)] by (simp add: sub_udp_input_def ignores_def)
qed (use assms in \<open>auto simp: sub_udp_input_def ignores_def arrives_at_def head_only_def put_inbox_def fun_upd_twist\<close>)

lemma put_inbox_put [simp]:
  "put_inbox x e (put_inbox x d s) = put_inbox x e s" "put_inbox x (sl_inbox s x) s = s" "head_only x (put_inbox x d s) = head_only x s"
  by (simp_all add: put_inbox_def head_only_def)

text \<open>A run with any buffer of the socket, and without its arrivals.\<close>

lemma sub_listen_ignores:
  "head_only x s \<Longrightarrow> \<forall>i \<in> set is. hands_head x i \<Longrightarrow>
    (\<forall>e. sub_udp_listen0 handle registers mains (filter (\<lambda>i. \<not> arrives_at x i) is) (put_inbox x e s) =
      (fst (sub_udp_listen0 handle registers mains is s), put_inbox x e (snd (sub_udp_listen0 handle registers mains is s)))) \<and>
    (\<exists>d. sl_inbox (snd (sub_udp_listen0 handle registers mains is s)) x = sl_inbox s x @ d)"
proof (induction "is" arbitrary: s)
  case (Cons i "is")
  show ?case
  proof (cases "arrives_at x i")
    case True
    then obtain d where "i = Arrives x d" by (auto simp: arrives_at_def split: sub_input.splits)
    then have "sub_udp_input handle registers mains i s = (Ok True, put_inbox x (sl_inbox s x @ [d]) s)"
      by (simp add: sub_udp_input_def put_inbox_def)
    then show ?thesis
      using Cons.IH [of "put_inbox x (sl_inbox s x @ [d]) s"] Cons.prems True by (auto simp: sbind_def)
  next
    case False
    obtain r t where t: "sub_udp_input handle registers mains i s = (r, t)" by force
    then have "head_only x t" "sl_inbox t x = sl_inbox s x"
      "\<And>e. sub_udp_input handle registers mains i (put_inbox x e s) = (r, put_inbox x e t)"
      using sub_input_ignores [of x s i handle registers mains] Cons.prems False by (auto simp: ignores_def)
    then show ?thesis
      using Cons.IH [of t] Cons.prems(2) t False by (cases r) (auto simp: sbind_def sret_def)
  qed
qed (simp add: sret_def)

text \<open>C17: the thread of the extra sockets registers the first of them under the token of its
  waker. So a socket that is the first of its list wherever it is handed over is never read: every run
  goes as it goes without the datagrams that arrive there, which all stay in its buffer. The socket
  that \<open>reset_reconnect_udp_socket\<close> makes to reach the server again is such a socket.\<close>

theorem first_socket_deaf:
  assumes "head_only x s" and "\<forall>i \<in> set is. hands_head x i"
  shows "sub_udp_listen0 handle registers mains (filter (\<lambda>i. \<not> arrives_at x i) is) s =
      (fst (sub_udp_listen0 handle registers mains is s),
       put_inbox x (sl_inbox s x) (snd (sub_udp_listen0 handle registers mains is s))) \<and>
    (\<exists>d. sl_inbox (snd (sub_udp_listen0 handle registers mains is s)) x = sl_inbox s x @ d)"
proof -
  from sub_listen_ignores [OF assms, of handle registers mains]
  have "sub_udp_listen0 handle registers mains (filter (\<lambda>i. \<not> arrives_at x i) is) (put_inbox x (sl_inbox s x) s) =
      (fst (sub_udp_listen0 handle registers mains is s),
       put_inbox x (sl_inbox s x) (snd (sub_udp_listen0 handle registers mains is s)))"
    "\<exists>d. sl_inbox (snd (sub_udp_listen0 handle registers mains is s)) x = sl_inbox s x @ d" by blast+
  then show ?thesis by simp
qed

text \<open>Two sockets are handed over, and a datagram arrives at each: the handler, which collects what it is
  given, gets the second one alone.\<close>

definition collect :: "(bytes \<times> route_key) list handler" where
  "collect buf key s = (Ok (), s @ [(buf, key)])"

definition sub_sample :: "(bytes \<times> route_key) list sub_loop" where
  "sub_sample = \<lparr>sl_list = [], sl_queue = [], sl_notify = an_new, sl_inbox = \<lambda>_. [], sl_handler = []\<rparr>"

definition sub_sample_inputs :: "sub_input list" where
  "sub_sample_inputs = [Hands (Some [7, 8]), Polls (Ready [Woken]), Arrives 7 (Datagram [1] sample_addr),
     Arrives 8 (Datagram [2] sample_addr), Polls (Ready [Readable 0, Readable 1])]"

lemma sub_sample_run: "sub_udp_listen0 collect (\<lambda>_. True) 4 sub_sample_inputs sub_sample =
    (Ok True, \<lparr>sl_list = [7, 8], sl_queue = [], sl_notify = 0,
       sl_inbox = (\<lambda>_. [])(7 := [Datagram [1] sample_addr], 8 := []), sl_handler = [([2], RouteKey UDP 5 sample_addr)]\<rparr>)"
  by (simp add: sub_sample_inputs_def sub_sample_def sub_udp_input_def sub_udp_poll_def try_add_socket_def sbind_def
      sub_token_def sub_udp_event_def NOTIFY_def an_is_stop_def an_is_add_socket_def an_add_socket_def an_new_def
      sret_def collect_def Let_def fun_eq_iff)

lemma first_socket_deaf_witness:
  "sub_udp_listen0 collect (\<lambda>_. True) 4 (filter (\<lambda>i. \<not> arrives_at 7 i) sub_sample_inputs) sub_sample =
     (Ok True, put_inbox 7 [] (snd (sub_udp_listen0 collect (\<lambda>_. True) 4 sub_sample_inputs sub_sample))) \<and>
   sl_handler (snd (sub_udp_listen0 collect (\<lambda>_. True) 4 sub_sample_inputs sub_sample)) = [([2], RouteKey UDP 5 sample_addr)]"
  using first_socket_deaf [of 7 sub_sample sub_sample_inputs collect "\<lambda>_. True" 4] sub_sample_run
  by (simp add: head_only_def hands_head_def sub_sample_def sub_sample_inputs_def)

end
