(* ===== verification/Stream_Channels.thy ===== *)
theory Stream_Channels
  imports Recv_Dispatch Vnt_Core Udp_Channel
begin

text \<open>
  Packets over TCP and WebSocket connections: \<open>vnt/src/channel/tcp_channel.rs\<close>, which frames each packet by
  its length, and \<open>channel/ws_channel.rs\<close>. A connection is what is read from it until it ends: octets, or
  messages. The runtime that schedules the tasks is not modelled; a task runs from its start to its end
  here, and \<open>Node_Run\<close> has its parts as separate steps.
\<close>

section \<open>Frames\<close>

definition TCP_MAX_PACKET_SIZE :: nat where
  "TCP_MAX_PACKET_SIZE = 2 ^ 24 - 1"

text \<open>What one call writes to the connection, as long as the connection takes it.\<close>

definition tcp_channel_write :: "bytes \<Rightarrow> bytes outcome" where
  "tcp_channel_write buf = (let len = length buf in
     if TCP_MAX_PACKET_SIZE < len then Err (AnyError ''too long'')
     else Ok ([0, of_nat (len div 2 ^ 16), of_nat (len div 2 ^ 8), of_nat len] @ buf))"

text \<open>The task that writes what is queued; it ends at the first error and shuts the connection down.\<close>

fun tcp_writer :: "bytes list \<Rightarrow> bytes" where
  "tcp_writer [] = []"
| "tcp_writer (buf # bufs) = (case tcp_channel_write buf of Ok octets \<Rightarrow> octets @ tcp_writer bufs | _ \<Rightarrow> [])"

abbreviation "unexpected_eof \<equiv> IoError OtherKind"
abbreviation "tcp_bad_stream \<equiv> AnyError ''tcp stream error''"
abbreviation "tcp_bad_length \<equiv> AnyError ''tcp length''"

definition tcp_length :: "bytes \<Rightarrow> nat" where
  "tcp_length head = unat (head ! 1) * 2 ^ 16 + unat (head ! 2) * 2 ^ 8 + unat (head ! 3)"

text \<open>The loop always ends in an error: that of the end of the stream, at the latest.\<close>

function tcp_read :: "'s handler \<Rightarrow> route_key \<Rightarrow> bytes \<Rightarrow> ('s, unit) action" where
  "tcp_read handle key stream =
     (if length stream < 4 then slift (Err unexpected_eof)
      else if stream ! 0 \<noteq> 0 then slift (Err tcp_bad_stream)
      else let len = tcp_length stream; rest = drop 4 stream in
        if len < 12 \<or> BUFFER_SIZE < len then slift (Err tcp_bad_length)
        else if length rest < len then slift (Err unexpected_eof)
        else sbind (handle (take len rest) key) (\<lambda>_. tcp_read handle key (drop len rest)))"
  by auto
termination by (relation "measure (\<lambda>(_, _, stream). length stream)") auto

declare tcp_read.simps [simp del]

section \<open>What a connection delivers\<close>

text \<open>A packet that the reader accepts as a frame.\<close>

definition frame_ok :: "bytes \<Rightarrow> bool" where
  "frame_ok b \<longleftrightarrow> 12 \<le> length b \<and> length b \<le> BUFFER_SIZE"

fun handle_frames :: "'s handler \<Rightarrow> route_key \<Rightarrow> bytes list \<Rightarrow> ('s, unit) action" where
  "handle_frames handle key [] = sret ()"
| "handle_frames handle key (b # bs) = sbind (handle b key) (\<lambda>_. handle_frames handle key bs)"

lemma tcp_length_frame:
  assumes "length b \<le> TCP_MAX_PACKET_SIZE"
  shows "tcp_length ([0, of_nat (length b div 2 ^ 16), of_nat (length b div 2 ^ 8), of_nat (length b)] @ rest) = length b"
proof -
  define n where "n = length b"
  have "n < 2 ^ 24" using assms by (simp add: TCP_MAX_PACKET_SIZE_def n_def)
  then have high: "n div 2 ^ 16 < 2 ^ 8" by (simp add: less_mult_imp_div_less)
  have "n = n div 65536 * 65536 + n div 256 mod 256 * 256 + n mod 256"
  proof -
    have "n div 256 div 256 = n div 65536" by (simp add: div_mult2_eq [symmetric])
    then have "n div 65536 * 256 + n div 256 mod 256 = n div 256" by (metis div_mult_mod_eq)
    moreover have "n = n div 256 * 256 + n mod 256" by (rule div_mult_mod_eq [symmetric])
    ultimately have "n = (n div 65536 * 256 + n div 256 mod 256) * 256 + n mod 256" by simp
    then show ?thesis by (simp add: distrib_right)
  qed
  then show ?thesis
    using high unfolding tcp_length_def n_def [symmetric]
    by (simp add: unat_of_nat)
qed

lemma tcp_read_frame:
  assumes "tcp_channel_write b = Ok octets"
  shows "tcp_read handle key (octets @ rest) =
    (if frame_ok b then sbind (handle b key) (\<lambda>_. tcp_read handle key rest) else slift (Err tcp_bad_length))"
proof -
  have b: "length b \<le> TCP_MAX_PACKET_SIZE"
    and f: "octets = [0, of_nat (length b div 2 ^ 16), of_nat (length b div 2 ^ 8), of_nat (length b)] @ b"
    using assms by (auto simp: tcp_channel_write_def Let_def split: if_splits)
  have "tcp_length (octets @ rest) = length b"
    using tcp_length_frame [OF b, of "b @ rest"] by (simp add: f)
  moreover have "4 \<le> length (octets @ rest)" "(octets @ rest) ! 0 = 0" "drop 4 (octets @ rest) = b @ rest"
    by (simp_all add: f)
  ultimately show ?thesis
    by (subst tcp_read.simps) (auto simp: frame_ok_def Let_def)
qed

lemma sbind_assoc: "sbind (sbind m f) g = sbind m (\<lambda>x. sbind (f x) g)"
  by (auto simp: sbind_def fun_eq_iff split: prod.splits outcome.splits)

text \<open>C18: what one node's writer puts on a TCP connection, the other node's reader hands to
  its handler: every packet in order and unchanged, up to the first that is shorter than a header or longer
  than the buffer of the reader. A packet of up to 2 ^ 24 - 1 octets is written all the same; one beyond the
  buffer ends the connection at the reader, and everything after it is lost.\<close>

theorem tcp_stream_delivers:
  "tcp_read handle key (tcp_writer bufs) =
     sbind (handle_frames handle key (takeWhile frame_ok bufs))
       (\<lambda>_. slift (Err (if \<exists>b bs. dropWhile frame_ok bufs = b # bs \<and> length b \<le> TCP_MAX_PACKET_SIZE
         then tcp_bad_length else unexpected_eof)))"
proof (induction bufs)
  case Nil
  then show ?case by (subst tcp_read.simps) (simp add: fun_eq_iff)
next
  case (Cons b bufs)
  show ?case
  proof (cases "tcp_channel_write b")
    case (Ok octets)
    then have "length b \<le> TCP_MAX_PACKET_SIZE" by (auto simp: tcp_channel_write_def Let_def split: if_splits)
    then show ?thesis
      using Ok Cons.IH tcp_read_frame [OF Ok, of handle key "tcp_writer bufs"]
      by (cases "frame_ok b") (simp_all add: sbind_assoc, simp add: fun_eq_iff sbind_def)
  next
    case (Err e)
    then have long: "TCP_MAX_PACKET_SIZE < length b" by (auto simp: tcp_channel_write_def Let_def split: if_splits)
    then have "\<not> frame_ok b" by (simp add: frame_ok_def BUFFER_SIZE_def TCP_MAX_PACKET_SIZE_def)
    then show ?thesis using Err long by (subst tcp_read.simps) (simp add: fun_eq_iff)
  next
    case Panic
    then show ?thesis by (simp add: tcp_channel_write_def Let_def split: if_splits)
  qed
qed

section \<open>TCP connections\<close>

text \<open>The handler of a node. Its second buffer holds what earlier calls left there, which \<open>ext\<close> gives.\<close>

definition node_handler :: "node_env \<Rightarrow> node_config \<Rightarrow> (nat \<Rightarrow> bytes) \<Rightarrow> node handler" where
  "node_handler env cfg ext buf key n = recv_handle env cfg buf (ext (nd_step n)) key n"

definition open_stream :: "route_key \<Rightarrow> unit node_action" where
  "open_stream key = upd_ctx (\<lambda>c. c\<lparr>cc_packet_map := insert key (cc_packet_map c)\<rparr>)"

definition close_stream :: "route_key \<Rightarrow> unit node_action" where
  "close_stream key = upd_ctx (\<lambda>c. c\<lparr>cc_packet_map := cc_packet_map c - {key}\<rparr>)"

text \<open>The packets to send are queued for the connection while it is in the map; its reader takes it out.\<close>

definition tcp_stream_handle :: "node_env \<Rightarrow> node_config \<Rightarrow> (nat \<Rightarrow> bytes) \<Rightarrow> route_key \<Rightarrow> bytes \<Rightarrow> unit node_action" where
  "tcp_stream_handle env cfg ext key stream = sbind (open_stream key) (\<lambda>_.
     sbind (logged (tcp_read (node_handler env cfg ext) key stream)) (\<lambda>_. close_stream key))"

text \<open>What the system answers: creating a socket on a port, connecting it (with its local port), writing;
  its descriptor, and what is then read from it.\<close>

record tcp_world =
  tw_create :: "u16 \<Rightarrow> unit outcome"
  tw_connect :: "socket_addr \<Rightarrow> u16 option outcome"
  tw_write :: "bytes \<Rightarrow> unit outcome"
  tw_fd :: nat
  tw_stream :: bytes

definition tcp_socket :: "tcp_world \<Rightarrow> u16 \<Rightarrow> unit outcome" where
  "tcp_socket W bind_port =
     (if bind_port \<noteq> 0 then case tw_create W bind_port of Err _ \<Rightarrow> tw_create W 0 | r \<Rightarrow> r else tw_create W 0)"

definition connect_tcp0 :: "node_env \<Rightarrow> node_config \<Rightarrow> (nat \<Rightarrow> bytes) \<Rightarrow> tcp_world \<Rightarrow> bytes \<Rightarrow> socket_addr \<Rightarrow> u16 \<Rightarrow>
    hook_info option \<Rightarrow> unit node_action" where
  "connect_tcp0 env cfg ext W data addr bind_port hook =
     sbind (slift (obind (tcp_socket W bind_port) (\<lambda>_. tw_connect W addr))) (\<lambda>local_port.
     sbind (upd_ctx (\<lambda>c. c\<lparr>cc_default_local_port := local_port\<rparr>)) (\<lambda>_.
     sbind (case hook of None \<Rightarrow> sret () | Some h \<Rightarrow> tell (HookRun (h\<lparr>hk_local_port := local_port, hk_remote_addr := Some addr\<rparr>))) (\<lambda>_.
     sbind (slift (obind (tcp_channel_write data) (tw_write W))) (\<lambda>_.
       tcp_stream_handle env cfg ext (RouteKey TCP (tw_fd W) addr) (tw_stream W)))))"

text \<open>One request of the queue: without a port the connection comes from that of the listener.\<close>

definition connect_tcp_handle :: "node_env \<Rightarrow> node_config \<Rightarrow> (nat \<Rightarrow> bytes) \<Rightarrow> tcp_world \<Rightarrow> u16 \<Rightarrow> connect_request \<Rightarrow>
    unit node_action" where
  "connect_tcp_handle env cfg ext W listener_port r = (case r of
       ConnectTcp data bind_port addr hook \<Rightarrow> logged (connect_tcp0 env cfg ext W data addr
         (case bind_port of Some port \<Rightarrow> port | None \<Rightarrow> listener_port) hook)
     | ConnectWs _ _ _ \<Rightarrow> sret ())"

section \<open>WebSocket connections\<close>

datatype ws_answer = WsConnected | WsTimedOut | WsHttp nat "string option" | WsFailed

datatype ws_message = WsBinary bytes | WsText | WsPing | WsPong | WsClose | WsFrame | WsError

definition WS_ADDR :: socket_addr where
  "WS_ADDR = SockV4 0 0"

definition ws_redirect_url :: "string \<Rightarrow> string" where
  "ws_redirect_url redirect = (case strip_prefix ''http://'' redirect of
       Some rest \<Rightarrow> ''ws://'' @ rest
     | None \<Rightarrow> (case strip_prefix ''https://'' redirect of Some rest \<Rightarrow> ''wss://'' @ rest | None \<Rightarrow> redirect))"

text \<open>The loop over redirections; \<open>tried\<close> is its counter. The result is the address that was connected to.\<close>

function ws_open :: "(nat \<Rightarrow> string \<Rightarrow> ws_answer) \<Rightarrow> nat \<Rightarrow> string \<Rightarrow> string outcome" where
  "ws_open answer tried url = (let tried = tried + 1 in
     if 3 < tried then Err (AnyError ''too many redirections'')
     else case answer tried url of
         WsConnected \<Rightarrow> Ok url
       | WsHttp status location \<Rightarrow>
           (if status \<in> {301, 302, 303, 307, 308} then case location of
                Some redirect \<Rightarrow> ws_open answer tried (ws_redirect_url redirect)
              | None \<Rightarrow> Err (AnyError ''ws'')
            else Err (AnyError ''ws''))
       | _ \<Rightarrow> Err (AnyError ''ws''))"
  by auto
termination by (relation "measure (\<lambda>(_, tried, _). 4 - tried)") auto

declare ws_open.simps [simp del]

fun ws_read_handle :: "'s handler \<Rightarrow> route_key \<Rightarrow> ws_message list \<Rightarrow> ('s, unit) action" where
  "ws_read_handle handle key [] = sret ()"
| "ws_read_handle handle key (m # ms) = (case m of
       WsBinary data \<Rightarrow> sbind (handle data key) (\<lambda>_. ws_read_handle handle key ms)
     | WsClose \<Rightarrow> sret ()
     | WsError \<Rightarrow> slift (Err (AnyError ''ws''))
     | _ \<Rightarrow> ws_read_handle handle key ms)"

record ws_world =
  ww_answer :: "nat \<Rightarrow> string \<Rightarrow> ws_answer"
  ww_send :: "bytes \<Rightarrow> unit outcome"
  ww_messages :: "ws_message list"

definition ws_protocol :: "string \<Rightarrow> connect_protocol" where
  "ws_protocol url = (if strip_prefix ''wss://'' url \<noteq> None then WSS else WS)"

definition connect_ws :: "node_env \<Rightarrow> node_config \<Rightarrow> (nat \<Rightarrow> bytes) \<Rightarrow> ws_world \<Rightarrow> bytes \<Rightarrow> string \<Rightarrow> nat \<Rightarrow>
    hook_info option \<Rightarrow> unit node_action" where
  "connect_ws env cfg ext W data url index hook = sbind (slift (ws_open (ww_answer W) 0 url)) (\<lambda>url.
     sbind (case hook of None \<Rightarrow> sret () | Some h \<Rightarrow> tell (HookRun h)) (\<lambda>_.
     sbind (slift (ww_send W data)) (\<lambda>_.
       let key = RouteKey (ws_protocol url) index WS_ADDR in
       sbind (open_stream key) (\<lambda>_. sbind (logged (ws_read_handle (node_handler env cfg ext) key (ww_messages W)))
         (\<lambda>_. close_stream key)))))"

text \<open>The requests are numbered in the order they are taken; the number is the index of the route.\<close>

definition connect_ws_handle :: "node_env \<Rightarrow> node_config \<Rightarrow> (nat \<Rightarrow> bytes) \<Rightarrow> ws_world \<Rightarrow> nat \<Rightarrow> connect_request \<Rightarrow>
    unit node_action" where
  "connect_ws_handle env cfg ext W index r = (case r of
       ConnectWs data url hook \<Rightarrow> logged (connect_ws env cfg ext W data url index hook)
     | ConnectTcp _ _ _ _ \<Rightarrow> sret ())"

text \<open>Messages reach the handler in order, up to the one that closes the connection.\<close>

definition ws_data :: "ws_message \<Rightarrow> bytes option" where
  "ws_data m = (case m of WsBinary b \<Rightarrow> Some b | _ \<Rightarrow> None)"

lemma ws_read_all:
  "WsError \<notin> set ms \<Longrightarrow> ws_read_handle handle key ms = handle_frames handle key
     (List.map_filter ws_data (takeWhile (\<lambda>m. m \<noteq> WsClose) ms))"
  by (induction ms) (auto simp: ws_data_def map_filter_def split: ws_message.splits)

text \<open>At most three addresses are tried, however many redirections there are.\<close>

lemma ws_open_bounded:
  assumes "\<forall>k \<in> {1, 2, 3}. \<forall>u. answer k u = answer' k u"
  shows "ws_open answer 0 url = ws_open answer' 0 url"
proof -
  have "ws_open answer k u = ws_open answer' k u" if "\<forall>j u. k < j \<longrightarrow> j \<le> 3 \<longrightarrow> answer j u = answer' j u" for k u
    using that
  proof (induction answer k u rule: ws_open.induct)
    case (1 answer k u)
    show ?case
    proof (cases "3 < k + 1")
      case True
      then show ?thesis by (simp add: ws_open.simps)
    next
      case False
      then have "answer (Suc k) u = answer' (Suc k) u" using "1.prems" by simp
      moreover have "ws_open answer (Suc k) v = ws_open answer' (Suc k) v" if "\<exists>st l. answer (Suc k) u = WsHttp st (Some l) \<and>
          st \<in> {301, 302, 303, 307, 308} \<and> v = ws_redirect_url l" for v
        using that "1.IH" False "1.prems" by auto
      ultimately show ?thesis
        by (subst (1 2) ws_open.simps) (auto simp: Let_def split: ws_answer.splits option.splits)
    qed
  qed
  moreover have "\<forall>j u. 0 < j \<longrightarrow> j \<le> 3 \<longrightarrow> answer j u = answer' j u"
  proof (intro allI impI)
    fix j :: nat and u assume "0 < j" "j \<le> 3"
    then have "j \<in> {1, 2, 3}" by auto
    then show "answer j u = answer' j u" using assms by blast
  qed
  ultimately show ?thesis by blast
qed

end
