(* ===== verification/Node_Run.thy ===== *)
theory Node_Run
  imports Node_Invariant Stream_Channels
begin

text \<open>
  The life of a node: it is started from a configuration, and from then on receives datagrams, sends
  what the operating system routes to it, and runs its timed tasks, in any order and however often. The
  release profile aborts on a panic; a build that unwinds loses a thread, and the others go on from what
  the event did before. The steps go on in either case, which covers both.
\<close>

section \<open>Steps\<close>

text \<open>One event, with the environment that answers it: a datagram or frame, a packet of the virtual network
  interface or of an embedding program, one turn of a task that was started, or one turn of a thread
  that punches what is in its queue.\<close>

inductive node_step :: "node_config \<Rightarrow> use_channel_type \<Rightarrow> node \<Rightarrow> node \<Rightarrow> bool" for cfg ct where
  received: "node_step cfg ct n (snd (recv_handle env cfg buf ext key n))"
| tun_read: "node_step cfg ct n (snd (tun_handle env cfg buf data_len n))"
| packet_sent: "node_step cfg ct n (snd (send_ip env cfg buf data_len dest n))"
| icmp_answered: "node_step cfg ct n (snd (icmp_answer env cfg buf data_len peer n))"
| gateway_turn: "IdleGateway \<in> set (vnt_tasks ct) \<Longrightarrow> node_step cfg ct n (snd (idle_gateway0 env cfg describe tries n))"
| nat_turn: "RetrieveNatType \<in> set (vnt_tasks ct) \<Longrightarrow> node_step cfg ct n (snd (retrieve_nat_type0 env n))"
| heartbeat_turn: "Heartbeat \<in> set (vnt_tasks ct) \<Longrightarrow> node_step cfg ct n (snd (heartbeat0 env cfg n))"
| idle_turn: "IdleRoute \<in> set (vnt_tasks ct) \<Longrightarrow> node_step cfg ct n (snd (idle_route0 env cfg IDLE_TIME n))"
| relay_turn: "ClientRelay \<in> set (vnt_tasks ct) \<Longrightarrow> node_step cfg ct n (snd (client_relay0 env cfg n))"
| address_turn: "PubAddressRequest \<in> set (vnt_tasks ct) \<Longrightarrow> node_step cfg ct n (snd (pub_address_request env turn n))"
| punch_asked: "PunchTask \<in> set (vnt_tasks ct) \<Longrightarrow> node_step cfg ct n (snd (punch_request env cfg mem turn n))"
| punched: "PunchTask \<in> set (vnt_tasks ct) \<Longrightarrow> node_step cfg ct n (snd (punch_turn env cfg ps record peer info n))"
| stream_opened: "node_step cfg ct n (snd (open_stream key n))"
| stream_closed: "node_step cfg ct n (snd (close_stream key n))"
| tcp_connected: "node_step cfg ct n (snd (connect_tcp_handle env cfg ext tw port r n))"
| ws_connected: "node_step cfg ct n (snd (connect_ws_handle env cfg ext ww index r n))"
| status_turn: "UpStatus \<in> set (vnt_tasks ct) \<Longrightarrow> node_step cfg ct n (snd (send_up_status_packet env n))"

inductive node_reach :: "node_config \<Rightarrow> use_channel_type \<Rightarrow> node \<Rightarrow> node \<Rightarrow> bool" for cfg ct where
  start: "node_reach cfg ct n n"
| step: "node_reach cfg ct n m \<Longrightarrow> node_step cfg ct m k \<Longrightarrow> node_reach cfg ct n k"

context node_invariant
begin

lemma streams [intro, simp]: "keeps (open_stream key)" "keeps (close_stream key)"
  unfolding open_stream_def close_stream_def by (rule sends_ctx; simp add: same_links_def)+

lemma handler [intro, simp]: "keeps (node_handler env cfg ext buf key)"
  using recv_handle by (simp add: keeps_def node_handler_def)

lemma reads_stream [intro, simp]: "keeps (tcp_read (node_handler env cfg ext) key stream)"
proof (induction "node_handler env cfg ext" key stream rule: tcp_read.induct)
  case (1 key stream)
  then show ?case by (subst tcp_read.simps) (auto simp: Let_def)
qed

lemma reads_messages [intro, simp]: "keeps (ws_read_handle (node_handler env cfg ext) key ms)"
  by (induction ms) (auto split: ws_message.splits)

lemma tells [intro, simp]: "keeps (case x of None \<Rightarrow> sret () | Some h \<Rightarrow> tell (f h))"
  by (cases x) simp_all

lemma connects [intro, simp]: "keeps (connect_tcp_handle env cfg ext tw port r)" "keeps (connect_ws_handle env cfg ext ww index r)"
  by (auto simp: connect_tcp_handle_def connect_tcp0_def tcp_stream_handle_def connect_ws_handle_def connect_ws_def Let_def
      split: connect_request.splits intro!: bind logging)

lemma node_step_keeps:
  assumes "node_step cfg ct n n'" and "I n"
  shows "I n'"
  using assms
proof (induction rule: node_step.induct)
  case (punch_asked n env mem turn)
  then show ?case by (simp add: punch_request)
qed (simp_all add: keepsD recv_handle tun_handle send_ip icmp_answer idle_gateway0 retrieve_nat_type0 heartbeat0 idle_route0 client_relay0
    pub_address_request punch_turn send_up_status_packet streams connects)

lemma node_reach_keeps: "node_reach cfg ct n m \<Longrightarrow> I n \<Longrightarrow> I m"
  by (induction rule: node_reach.induct) (auto intro: node_step_keeps)

end

section \<open>The types of the state\<close>

text \<open>What is always so: the routes of each peer are in order (\<open>rt_ok\<close>), rates are rates, there is a channel,
  the device list is a map, there is a public port for each socket, and the network of a registered
  node is that of its address.\<close>

definition ctx_ok :: "channel_context \<Rightarrow> bool" where
  "ctx_ok c \<longleftrightarrow> rt_ok (cc_route_table c) \<and> rtb_channel_num (cc_route_table c) = cc_v4_len c \<and> 0 < cc_v4_len c \<and>
     cc_v4_len c \<le> length (cc_main_udp c) \<and> cc_packet_loss_rate c \<le> PACKET_LOSS_RATE_DENOMINATOR"

definition network_ok :: "current_device_info \<Rightarrow> bool" where
  "network_ok d \<longleftrightarrow> (cs_online (cd_status d) \<longrightarrow>
     cd_virtual_network d = cd_virtual_netmask d AND cd_virtual_ip d \<and>
     cd_broadcast_ip d = NOT (cd_virtual_netmask d) OR cd_virtual_ip d)"

definition node_ok :: "node \<Rightarrow> bool" where
  "node_ok n \<longleftrightarrow> ctx_ok (nd_ctx n) \<and> network_ok (nd_current n) \<and> keyed (nd_devices n) \<and>
     length (ni_public_ports (nt_info (nd_nat n))) = length (nt_udp_ports (nd_nat n))"

lemma rt_shrink_fields:
  "rtb_channel_num (rt_remove_route peer key t) = rtb_channel_num t"
  "rtb_channel_num (rt_update_read_time peer key now t) = rtb_channel_num t"
  "rtb_first_latency (rt_update_read_time peer key now t) = rtb_first_latency t"
  by (auto simp: rt_remove_route_def rt_update_read_time_def Let_def split: option.splits)

lemma rt_reach_fields:
  assumes "rt_reach t u"
  shows "rtb_use_channel_type u = rtb_use_channel_type t" "rtb_channel_num u = rtb_channel_num t"
    "rtb_first_latency u = rtb_first_latency t"
  using assms
  by (induction rule: rt_reach.induct) (auto simp: rt_insert_fields rt_remove_fields rt_update_fields rt_shrink_fields)

lemma rt_reach_from_ok:
  assumes "rt_reach t u" and "rt_ok t"
  shows "rt_ok u \<and> rtb_use_channel_type u = rtb_use_channel_type t \<and> rtb_channel_num u = rtb_channel_num t"
  using assms
  by (induction rule: rt_reach.induct)
    (auto simp: rt_shrink_fields rt_insert_ok rt_insert_fields rt_remove_route_ok rt_remove_fields rt_update_read_time_ok rt_update_fields)

interpretation typed: node_invariant node_ok
  by unfold_locales
    (auto simp: node_ok_def ctx_ok_def network_ok_def same_ports_def same_links_def current_device_update_def cs_online_def
      keyed_def dest: rt_reach_from_ok)

text \<open>The sockets, the protocol and the settings a node was started with stay.\<close>

definition same_setup :: "node \<Rightarrow> node \<Rightarrow> bool" where
  "same_setup m n \<longleftrightarrow> cc_main_udp (nd_ctx n) = cc_main_udp (nd_ctx m) \<and> cc_v4_len (nd_ctx n) = cc_v4_len (nd_ctx m) \<and>
     cc_protocol (nd_ctx n) = cc_protocol (nd_ctx m) \<and> cc_packet_loss_rate (nd_ctx n) = cc_packet_loss_rate (nd_ctx m) \<and>
     rtb_use_channel_type (cc_route_table (nd_ctx n)) = rtb_use_channel_type (cc_route_table (nd_ctx m)) \<and>
     rtb_first_latency (cc_route_table (nd_ctx n)) = rtb_first_latency (cc_route_table (nd_ctx m)) \<and>
     nt_udp_ports (nd_nat n) = nt_udp_ports (nd_nat m) \<and> nt_tcp_port (nd_nat n) = nt_tcp_port (nd_nat m) \<and>
     nt_stun_server (nd_nat n) = nt_stun_server (nd_nat m)"

interpretation fixed: node_invariant "same_setup m" for m
  by unfold_locales
    (auto simp: same_setup_def same_links_def same_ports_def current_device_update_def rt_reach_fields)

section \<open>Every node\<close>

lemma bind_main_length: "bind_main S k ports = Ok bound \<Longrightarrow> length bound = length ports"
  by (induction ports arbitrary: k bound) (auto simp: obind_Ok_iff omap_Ok_iff)

lemma init_context_ok:
  assumes "init_context S c ports up down = Ok (ctx, tcp)"
  shows "ctx_ok ctx \<and> rtb_use_channel_type (cc_route_table ctx) = cf_use_channel_type c"
  using assms bind_main_length
  by (auto simp: init_context_def obind_Ok_iff omap_Ok_iff cc_new_def ctx_ok_def Let_def rt_ok_def rt_new_def
      split: if_splits option.splits)

lemma vnt_new_ok:
  assumes "vnt_new C S c = Ok (cfg, n)"
  shows "node_ok n \<and> rtb_use_channel_type (cc_route_table (nd_ctx n)) = cf_use_channel_type c"
  using assms init_context_ok
  by (auto simp: vnt_new_def obind_Ok_iff Let_def node_ok_def network_ok_def keyed_def current_device_new0_def cs_online_def
      nat_test_new_def nat_info_new_def split: prod.splits if_splits)

lemma run_facts:
  assumes "vnt_new C S c = Ok (cfg, n)" and "node_reach cfg (cf_use_channel_type c) n m"
  shows "node_ok m" "same_setup n m"
    "rtb_use_channel_type (cc_route_table (nd_ctx m)) = cf_use_channel_type c"
proof -
  show "node_ok m" "same_setup n m"
    using typed.node_reach_keeps [OF assms(2)] fixed.node_reach_keeps [OF assms(2), of n] vnt_new_ok [OF assms(1)]
    by (auto simp: same_setup_def)
  then show "rtb_use_channel_type (cc_route_table (nd_ctx m)) = cf_use_channel_type c"
    using vnt_new_ok [OF assms(1)] by (simp add: same_setup_def)
qed

definition sample_startup :: startup where
  "sample_startup = \<lparr>st_key = replicate 32 0, st_ipv6 = True, st_bind = \<lambda>k port. Ok (30000 + of_nat k, 31000 + of_nat k),
     st_tcp = Ok 30000, st_local_ipv4 = Some 0xC0A80002, st_local_ipv6 = None, st_now = 100 * NANOS,
     st_handshake_now = 100 * NANOS, st_proxy = Err (IoError OtherKind)\<rparr>"

definition sample_cf :: config where
  "sample_cf = \<lparr>cf_token = ''token'', cf_device_id = ''id'', cf_name = ''node'', cf_server_address = sample_addr,
     cf_server_address_str = ''server:29872'', cf_name_servers = [], cf_stun_server = [], cf_in_ips = [], cf_out_ips = [],
     cf_password = None, cf_mtu = None, cf_protocol = UDP, cf_ip = None, cf_no_proxy = False, cf_server_encrypt = False,
     cf_cipher_model = MNone, cf_finger = False, cf_punch_model = PmAll, cf_ports = None, cf_first_latency = False,
     cf_device_name = None, cf_use_channel_type = P2p, cf_packet_loss_rate = None, cf_packet_delay = 0,
     cf_port_mapping_list = [], cf_compressor = NoCompression, cf_enable_traffic = True, cf_allow_wire_guard = False, cf_local_ipv4 = None,
     cf_disable_relay = False, cf_hook = None\<rparr>"

lemma sample_starts: "\<exists>cfg n. vnt_new toy_crypto sample_startup sample_cf = Ok (cfg, n)"
  by (simp add: vnt_new_def sample_startup_def sample_cf_def cipher_new_password_def password_hash_def init_context_def
      vnt_ports_def is_only_relay_def Let_def cc_new_def main_local_udp_port_def)

text \<open>C3: whatever a started node receives, is asked to send or does on its timers, in whatever
  order, with whatever answers of the system, and even where an event ends in a panic: the routes of each
  peer stay in order, the loss rate stays a rate, the device list stays a map from addresses to the devices
  that have them, each socket keeps its public port, the network of a registered node is that of its
  address, and its sockets, protocol and settings are those it was started with.\<close>

theorem node_run_ok:
  assumes "vnt_new C S c = Ok (cfg, n)" and "node_reach cfg (cf_use_channel_type c) n m"
  shows "node_ok m \<and> same_setup n m"
  using run_facts [OF assms] by simp

lemma node_run_ok_witness:
  "\<exists>cfg n. vnt_new toy_crypto sample_startup sample_cf = Ok (cfg, n) \<and>
     node_ok (snd (heartbeat0 sample_node_env cfg (snd (recv_handle sample_node_env cfg [1, 2, 3] [] (RouteKey UDP 0 sample_addr) n))))"
proof -
  obtain cfg n where n: "vnt_new toy_crypto sample_startup sample_cf = Ok (cfg, n)"
    using sample_starts by blast
  have "node_reach cfg (cf_use_channel_type sample_cf) n
      (snd (heartbeat0 sample_node_env cfg (snd (recv_handle sample_node_env cfg [1, 2, 3] [] (RouteKey UDP 0 sample_addr) n))))"
    by (rule node_reach.step [OF node_reach.step [OF node_reach.start node_step.received] node_step.heartbeat_turn])
      (simp add: vnt_tasks_def)
  then show ?thesis
    using n node_run_ok [OF n] by blast
qed

text \<open>C4: a node that was told to use only direct connections never learns a route that goes through
  another node, from whatever packets it receives.\<close>

theorem direct_only:
  assumes "vnt_new C S c = Ok (cfg, n)" and "node_reach cfg (cf_use_channel_type c) n m"
    and "cf_use_channel_type c = P2p" and "r \<in> set (rt_routes (cc_route_table (nd_ctx m)) peer)"
  shows "rt_metric r = 1"
proof -
  have "rt_ok (cc_route_table (nd_ctx m))" "rtb_use_channel_type (cc_route_table (nd_ctx m)) = P2p"
    using run_facts [OF assms(1,2)] assms(3) by (simp_all add: node_ok_def ctx_ok_def)
  then show ?thesis
    using assms(4)
    by (cases "rtb_table (cc_route_table (nd_ctx m)) peer") (force simp: rt_ok_def rt_list_ok_def rt_routes_def is_p2p_def)+
qed

text \<open>An answer to a punch request, 10.26.0.9 to this node, not relayed, in the clear.\<close>

definition punch_answer :: bytes where
  "punch_answer = [2, 3, 4, 0x11, 10, 26, 0, 9, 0, 0, 0, 2]"

lemma punch_answer_view:
  "np_new punch_answer = Ok (np_unchecked punch_answer)" "np_wf (np_unchecked punch_answer)"
  "np_view (np_unchecked punch_answer) = \<lparr>nh_encrypt = False, nh_gateway = False, nh_extension = False, nh_unused = False,
     nh_version = 2, nh_protocol = 3, nh_transport = 4, nh_source_ttl = 1, nh_ttl = 1, nh_source = 0x0A1A0009,
     nh_destination = 2, nh_payload = []\<rparr>"
  by (simp_all add: punch_answer_def np_unchecked_def np_wf_def np_view_def u32_be_def Let_def np_new_def np_new0_def)

lemma punch_answer_route:
  assumes "vnt_new toy_crypto sample_startup sample_cf = Ok (cfg, n)"
  shows "rt_routes (cc_route_table (nd_ctx (snd (recv_handle sample_node_env cfg punch_answer [] (RouteKey UDP 0 sample_addr) n))))
    0x0A1A0009 = [route_from_default_rt (RouteKey UDP 0 sample_addr) 1]"
proof -
  have n: "nd_current n = current_device_new0 sample_addr" "cc_down_meter (nd_ctx n) = Some (mm_new 100)"
    "nc_client_cipher cfg = CNone" "cc_route_table (nd_ctx n) = rt_new P2p False (Suc (Suc 0))"
    "nt_udp_ports (nd_nat n) = [30000, 30001]" "nt_tcp_port (nd_nat n) = 30000"
    using assms
    by (auto simp add: vnt_new_def sample_startup_def sample_cf_def cipher_new_password_def password_hash_def init_context_def
      vnt_ports_def is_only_relay_def Let_def cc_new_def main_local_udp_port_def nat_test_new_def)
  show ?thesis
    using n punch_answer_view
    by (simp add: recv_handle_def recv_handle0_def sbind_def np_getters_view on_nat_def nt_recv_data_def punch_answer_def
        byte_at_def HEAD_LEN_def is_udp_def Let_def is_for_me_def SELF_IP_def add_down_traffic_def draw_def upd_ctx_def client_handle_def node_decrypt_def ran_def
        update_read_time_def upd_table_def unwrap_extension_def client_control_def protocol_from_def control_new_def control_protocol_from_def
        is_only_relay_def is_local_address_def sample_addr_def rt_new_def add_route_if_absent_def rt_update_read_time_def
        current_device_new0_def rt_add_route_if_absent_def rt_add_route0_def rt_insert_def rt_routes_def sget_def rt_present_def
        is_p2p_def route_from_default_rt_def)
qed

lemma direct_only_witness:
  "\<exists>cfg n. vnt_new toy_crypto sample_startup sample_cf = Ok (cfg, n) \<and>
     (\<exists>r \<in> set (rt_routes (cc_route_table (nd_ctx (snd (recv_handle sample_node_env cfg punch_answer []
       (RouteKey UDP 0 sample_addr) n)))) 0x0A1A0009). rt_metric r = 1)"
proof -
  obtain cfg n where n: "vnt_new toy_crypto sample_startup sample_cf = Ok (cfg, n)"
    using sample_starts by blast
  have "node_reach cfg (cf_use_channel_type sample_cf) n
      (snd (recv_handle sample_node_env cfg punch_answer [] (RouteKey UDP 0 sample_addr) n))"
    by (rule node_reach.step [OF node_reach.start node_step.received])
  then have "rt_metric (route_from_default_rt (RouteKey UDP 0 sample_addr) 1) = 1"
    by (rule direct_only [OF n, where peer = "0x0A1A0009"]) (simp_all add: sample_cf_def punch_answer_route [OF n])
  then show ?thesis
    using n punch_answer_route [OF n] by (intro exI conjI) auto
qed

end
