(* ===== verification/Stop_Manager.thy ===== *)
theory Stop_Manager
  imports Vnt_Prelude
begin

text \<open>
  Stopping the threads of a node, \<open>vnt/src/util/notify.rs\<close>: each thread registers a callback that ends it and
  holds a \<open>Worker\<close>; the end of the last one stops the rest and wakes those who wait. Threads interleave
  at every lock section and atomic operation. A callback is the number of its worker; it is run under the
  lock and does not call the manager itself, which would block for ever on that lock.
\<close>

section \<open>The shared state and its atomic operations\<close>

text \<open>\<open>StopManagerInner\<close>; the last two fields record the callbacks that were run and how often the final call
  was. Its field \<open>state\<close> is written by \<open>stop\<close> and read by nobody.\<close>

record stop_manager =
  sm_stopped :: bool
  sm_listeners :: "(string \<times> nat) list"
  sm_parked :: "nat list"
  sm_workers :: nat
  sm_state :: bool
  sm_call :: bool
  sm_ran :: "nat list"
  sm_finals :: nat

definition sm_new :: stop_manager where
  "sm_new = \<lparr>sm_stopped = False, sm_listeners = [], sm_parked = [], sm_workers = 0, sm_state = False, sm_call = True,
     sm_ran = [], sm_finals = 0\<rparr>"

text \<open>The worker is counted before the lock is given back.\<close>

definition sm_add_listener :: "string \<Rightarrow> nat \<Rightarrow> (stop_manager, unit) action" where
  "sm_add_listener name i s =
     (if name = [] then (Err (AnyError ''name cannot be empty''), s)
      else if sm_stopped s then (Err (AnyError ''stopped''), s)
      else if name \<in> fst ` set (sm_listeners s) then (Err (AnyError ''name already exists''), s)
      else (Ok (), s\<lparr>sm_listeners := sm_listeners s @ [(name, i)], sm_workers := sm_workers s + 1\<rparr>))"

definition sm_stop :: "stop_manager \<Rightarrow> stop_manager" where
  "sm_stop s = s\<lparr>sm_state := True, sm_stopped := True, sm_ran := sm_ran s @ map snd (sm_listeners s), sm_listeners := []\<rparr>"

definition sm_is_stopped :: "stop_manager \<Rightarrow> bool" where
  "sm_is_stopped s \<longleftrightarrow> sm_workers s = 0"

text \<open>\<open>position\<close> and \<open>remove\<close>.\<close>

fun take_listener :: "string \<Rightarrow> (string \<times> nat) list \<Rightarrow> nat option \<times> (string \<times> nat) list" where
  "take_listener name [] = (None, [])"
| "take_listener name ((n, i) # l) = (if n = name then (Some i, l)
     else case take_listener name l of (r, l') \<Rightarrow> (r, (n, i) # l'))"

definition sm_release_listener :: "string \<Rightarrow> stop_manager \<Rightarrow> stop_manager" where
  "sm_release_listener name s = (case take_listener name (sm_listeners s) of
       (Some i, l) \<Rightarrow> s\<lparr>sm_listeners := l, sm_ran := sm_ran s @ [i]\<rparr>
     | (None, _) \<Rightarrow> s)"

definition sm_stop_call :: "stop_manager \<Rightarrow> stop_manager" where
  "sm_stop_call s = (if sm_call s then s\<lparr>sm_call := False, sm_finals := sm_finals s + 1\<rparr> else s)"

section \<open>Threads\<close>

text \<open>Where a worker is in \<open>release0\<close>: its callback is done with, it was the last, it woke the waiters, it
  stopped the others, it is gone.\<close>

datatype worker_at = NotAdded | Working string | Unlisted | WasLast | Woke | StoppedAll | Gone

text \<open>Where a thread is in \<open>wait\<close> or \<open>wait_timeout\<close>, which returns what it found.\<close>

datatype waiter_at = NotWaiting | Checking | Parking | Returned | TimedChecking | TimedParking | TimedReturned bool

text \<open>Besides, the threads that were unparked and have not parked since.\<close>

record stop_world =
  sw_manager :: stop_manager
  sw_worker :: "nat \<Rightarrow> worker_at"
  sw_waiter :: "nat \<Rightarrow> waiter_at"
  sw_tokens :: "nat set"

definition sw_init :: stop_world where
  "sw_init = \<lparr>sw_manager = sm_new, sw_worker = \<lambda>_. NotAdded, sw_waiter = \<lambda>_. NotWaiting, sw_tokens = {}\<rparr>"

definition sw_moves :: "(stop_manager \<Rightarrow> stop_manager) \<Rightarrow> nat \<Rightarrow> worker_at \<Rightarrow> stop_world \<Rightarrow> stop_world" where
  "sw_moves f i at w = w\<lparr>sw_manager := f (sw_manager w), sw_worker := (sw_worker w)(i := at)\<rparr>"

definition sw_waits :: "nat \<Rightarrow> waiter_at \<Rightarrow> stop_world \<Rightarrow> stop_world" where
  "sw_waits j at w = w\<lparr>sw_waiter := (sw_waiter w)(j := at)\<rparr>"

definition sw_unpark :: "stop_world \<Rightarrow> stop_world" where
  "sw_unpark w = w\<lparr>sw_tokens := sw_tokens w \<union> set (sm_parked (sw_manager w)),
     sw_manager := (sw_manager w)\<lparr>sm_parked := []\<rparr>\<rparr>"

definition sw_park_list :: "nat \<Rightarrow> stop_world \<Rightarrow> stop_world" where
  "sw_park_list j w = w\<lparr>sw_manager := (sw_manager w)\<lparr>sm_parked := sm_parked (sw_manager w) @ [j]\<rparr>\<rparr>"

text \<open>\<open>calm\<close> is whether a listener may be added at any time, or not while the last worker is on its way out.
  Wake-ups of \<open>park\<close> without a reason, which the library allows, are left out.\<close>

definition leaving :: "stop_world \<Rightarrow> bool" where
  "leaving w \<longleftrightarrow> (\<exists>i. sw_worker w i \<in> {WasLast, Woke})"

inductive stop_step :: "bool \<Rightarrow> stop_world \<Rightarrow> stop_world \<Rightarrow> bool" for calm where
  added: "sw_worker w i = NotAdded \<Longrightarrow> sm_add_listener name i (sw_manager w) = (Ok (), s) \<Longrightarrow> calm \<longrightarrow> \<not> leaving w \<Longrightarrow>
    stop_step calm w (sw_moves (\<lambda>_. s) i (Working name) w)"
| stopped: "stop_step calm w (w\<lparr>sw_manager := sm_stop (sw_manager w)\<rparr>)"
| unlisted: "sw_worker w i = Working name \<Longrightarrow> stop_step calm w (sw_moves (sm_release_listener name) i Unlisted w)"
| counted: "sw_worker w i = Unlisted \<Longrightarrow> stop_step calm w (sw_moves (\<lambda>s. s\<lparr>sm_workers := sm_workers s - 1\<rparr>) i
    (if sm_workers (sw_manager w) = 1 then WasLast else Gone) w)"
| woke: "sw_worker w i = WasLast \<Longrightarrow> stop_step calm w (sw_moves (\<lambda>s. s) i Woke (sw_unpark w))"
| stopped_all: "sw_worker w i = Woke \<Longrightarrow> stop_step calm w (sw_moves sm_stop i StoppedAll w)"
| finished: "sw_worker w i = StoppedAll \<Longrightarrow> stop_step calm w (sw_moves sm_stop_call i Gone w)"
| wait_listed: "sw_waiter w j = NotWaiting \<Longrightarrow> stop_step calm w (sw_waits j Checking (sw_park_list j w))"
| wait_checked: "sw_waiter w j = Checking \<Longrightarrow>
    stop_step calm w (sw_waits j (if sm_workers (sw_manager w) = 0 then Returned else Parking) w)"
| wait_unparked: "sw_waiter w j = Parking \<Longrightarrow> j \<in> sw_tokens w \<Longrightarrow>
    stop_step calm w (sw_waits j Checking (w\<lparr>sw_tokens := sw_tokens w - {j}\<rparr>))"
| timed_listed: "sw_waiter w j = NotWaiting \<Longrightarrow> stop_step calm w (sw_waits j TimedChecking (sw_park_list j w))"
| timed_checked: "sw_waiter w j = TimedChecking \<Longrightarrow>
    stop_step calm w (sw_waits j (if sm_workers (sw_manager w) = 0 then TimedReturned True else TimedParking) w)"
| timed_unparked: "sw_waiter w j = TimedParking \<Longrightarrow>
    stop_step calm w (sw_waits j (TimedReturned (sm_workers (sw_manager w) = 0)) (w\<lparr>sw_tokens := sw_tokens w - {j}\<rparr>))"

inductive stop_reach :: "bool \<Rightarrow> stop_world \<Rightarrow> stop_world \<Rightarrow> bool" for calm where
  start: "stop_reach calm w w"
| step: "stop_reach calm w v \<Longrightarrow> stop_step calm v u \<Longrightarrow> stop_reach calm w u"

lemmas stop_defs = sw_moves_def sw_waits_def sw_unpark_def sw_park_list_def

lemma stop_fields [simp]:
  "sw_manager (sw_moves f i at w) = f (sw_manager w)" "sw_manager (sw_waits j at' w) = sw_manager w"
  "sw_manager (sw_unpark w) = (sw_manager w)\<lparr>sm_parked := []\<rparr>"
  "sw_manager (sw_park_list j w) = (sw_manager w)\<lparr>sm_parked := sm_parked (sw_manager w) @ [j]\<rparr>"
  "sw_worker (sw_moves f i at w) = (sw_worker w)(i := at)" "sw_worker (sw_waits j at' w) = sw_worker w"
  "sw_worker (sw_unpark w) = sw_worker w" "sw_worker (sw_park_list j w) = sw_worker w"
  by (simp_all add: stop_defs)

lemma stop_reach_trans: "stop_reach calm v u \<Longrightarrow> stop_reach calm w v \<Longrightarrow> stop_reach calm w u"
  by (induction rule: stop_reach.induct) (auto intro: stop_reach.step)

section \<open>Every callback once\<close>

text \<open>Which callbacks are still listed and which were run, for each worker.\<close>

definition lists_fine :: "stop_manager \<Rightarrow> (nat \<Rightarrow> worker_at) \<Rightarrow> bool" where
  "lists_fine s at \<longleftrightarrow> distinct (map fst (sm_listeners s)) \<and> distinct (map snd (sm_listeners s)) \<and> distinct (sm_ran s) \<and>
     set (sm_listeners s) = (if sm_stopped s then {} else {(n, i). at i = Working n}) \<and>
     set (sm_ran s) = {i. at i \<noteq> NotAdded \<and> (sm_stopped s \<or> (\<forall>n. at i \<noteq> Working n))}"

definition lists_ok :: "stop_world \<Rightarrow> bool" where
  "lists_ok w \<longleftrightarrow> lists_fine (sw_manager w) (sw_worker w)"

lemma take_listener_absent: "name \<notin> fst ` set l \<Longrightarrow> take_listener name l = (None, l)"
  by (induction l) auto

lemma take_listener_present:
  "(name, i) \<in> set l \<Longrightarrow> distinct (map fst l) \<Longrightarrow> take_listener name l = (Some i, filter (\<lambda>x. fst x \<noteq> name) l)"
proof (induction l)
  case (Cons x l)
  obtain n k where x: "x = (n, k)" by force
  show ?case
  proof (cases "n = name")
    case True
    then have "name \<notin> fst ` set l" using Cons.prems(2) x by auto
    then have "filter (\<lambda>x. fst x \<noteq> name) l = l" "i = k"
      using Cons.prems(1) x True by (auto simp: filter_id_conv intro: rev_image_eqI)
    then show ?thesis using x True by simp
  next
    case False
    then show ?thesis using Cons x by auto
  qed
qed simp

text \<open>A worker in \<open>release0\<close> takes its own callback, or finds all of them gone.\<close>

lemma release_own:
  assumes "lists_fine s at" and "at i = Working name"
  shows "sm_release_listener name s = (if sm_stopped s then s
    else s\<lparr>sm_listeners := filter (\<lambda>x. snd x \<noteq> i) (sm_listeners s), sm_ran := sm_ran s @ [i]\<rparr>)"
proof (cases "sm_stopped s")
  case False
  let ?l = "sm_listeners s"
  have l: "(name, i) \<in> set ?l" "distinct (map fst ?l)" "inj_on fst (set ?l)" "inj_on snd (set ?l)"
    using assms False by (auto simp: lists_fine_def distinct_map)
  have "(fst x \<noteq> name) = (snd x \<noteq> i)" if "x \<in> set ?l" for x
    using inj_onD [OF l(3) _ that l(1)] inj_onD [OF l(4) _ that l(1)] by (cases x) auto
  then have "filter (\<lambda>x. fst x \<noteq> name) ?l = filter (\<lambda>x. snd x \<noteq> i) ?l" by (intro filter_cong refl)
  then show ?thesis
    using take_listener_present [OF l(1,2)] False by (simp add: sm_release_listener_def)
next
  case True
  then have "sm_listeners s = []" using assms(1) by (simp add: lists_fine_def)
  then show ?thesis using True by (simp add: sm_release_listener_def)
qed

lemma lists_add:
  assumes "lists_fine s at" and "at i = NotAdded" and "sm_add_listener name i s = (Ok (), s')"
  shows "lists_fine s' (at(i := Working name))"
  using assms by (auto simp: lists_fine_def sm_add_listener_def split: if_splits)

lemma lists_unlist:
  assumes "lists_fine s at" and "at i = Working name"
  shows "lists_fine (sm_release_listener name s) (at(i := Unlisted))"
  unfolding release_own [OF assms] using assms by (auto simp: lists_fine_def distinct_map_filter)

lemma lists_move:
  "lists_fine s at \<Longrightarrow> at i \<notin> insert NotAdded (range Working) \<Longrightarrow> k \<notin> insert NotAdded (range Working) \<Longrightarrow> lists_fine s (at(i := k))"
  by (auto simp: lists_fine_def image_iff)

lemma lists_stop: "lists_fine s at \<Longrightarrow> lists_fine (sm_stop s) at"
  by (auto simp: lists_fine_def sm_stop_def split: if_splits) (auto simp: image_iff)

lemma lists_other [simp]:
  "lists_fine (s\<lparr>sm_workers := k\<rparr>) at = lists_fine s at" "lists_fine (s\<lparr>sm_parked := q\<rparr>) at = lists_fine s at"
  "lists_fine (sm_stop_call s) at = lists_fine s at"
  by (simp_all add: lists_fine_def sm_stop_call_def)

lemma lists_step:
  assumes "stop_step calm w v" and "lists_ok w"
  shows "lists_ok v"
  using assms
  by (induction rule: stop_step.induct) (auto simp: lists_ok_def lists_unlist lists_add lists_stop lists_move image_iff)

section \<open>The number of workers\<close>

definition counted_workers :: "stop_world \<Rightarrow> nat set" where
  "counted_workers w = {i. \<exists>name. sw_worker w i = Working name \<or> sw_worker w i = Unlisted}"

definition count_ok :: "stop_world \<Rightarrow> bool" where
  "count_ok w \<longleftrightarrow> finite (counted_workers w) \<and> sm_workers (sw_manager w) = card (counted_workers w) \<and>
     sm_finals (sw_manager w) = (if sm_call (sw_manager w) then 0 else 1)"

lemma counted_moves:
  "counted_workers (sw_moves f i at w) = (if (\<exists>n. at = Working n) \<or> at = Unlisted then insert i (counted_workers w)
     else counted_workers w - {i})"
  by (auto simp: counted_workers_def sw_moves_def)

lemma counted_same [simp]:
  "counted_workers (sw_waits j at w) = counted_workers w" "counted_workers (w\<lparr>sw_manager := m\<rparr>) = counted_workers w"
  "counted_workers (sw_park_list j w) = counted_workers w" "counted_workers (sw_unpark w) = counted_workers w"
  "counted_workers (w\<lparr>sw_tokens := ts\<rparr>) = counted_workers w"
  by (auto simp: counted_workers_def stop_defs)

lemma count_step:
  assumes "stop_step calm w v" and "count_ok w"
  shows "count_ok v"
  using assms
proof (induction rule: stop_step.induct)
  case (added w i name s)
  then have "i \<notin> counted_workers w" by (simp add: counted_workers_def)
  then show ?case
    using added by (auto simp: count_ok_def counted_moves sm_add_listener_def split: if_splits)
next
  case (counted w i)
  then have "i \<in> counted_workers w" by (simp add: counted_workers_def)
  then show ?case
    using counted by (auto simp: count_ok_def counted_moves)
next
  case (unlisted w i name)
  then have "insert i (counted_workers w) = counted_workers w" by (auto simp: counted_workers_def)
  then show ?case
    using unlisted by (auto simp: count_ok_def counted_moves sm_release_listener_def split: option.splits prod.splits)
next
  case (woke w i)
  then have "counted_workers w - {i} = counted_workers w" by (auto simp: counted_workers_def)
  then show ?case using woke by (simp add: count_ok_def counted_moves)
next
  case (stopped_all w i)
  then have "counted_workers w - {i} = counted_workers w" by (auto simp: counted_workers_def)
  then show ?case using stopped_all by (simp add: count_ok_def counted_moves sm_stop_def)
next
  case (finished w i)
  then have "counted_workers w - {i} = counted_workers w" by (auto simp: counted_workers_def)
  then show ?case using finished by (simp add: count_ok_def counted_moves sm_stop_call_def)
qed (simp_all add: count_ok_def sm_stop_def)

lemma init_ok: "lists_ok sw_init" "count_ok sw_init"
  by (simp_all add: lists_ok_def lists_fine_def count_ok_def sw_init_def sm_new_def counted_workers_def)

lemma stop_reach_ok:
  assumes "stop_reach calm w v" and "w = sw_init"
  shows "lists_ok v \<and> count_ok v"
  using assms by (induction rule: stop_reach.induct) (auto intro: lists_step count_step simp: init_ok)

text \<open>C19: however the threads interleave: the counter is the number of workers that have not counted
  themselves down; no callback is run twice; a worker that left its place in the list, or a stopped manager,
  has had every callback run; and the final call is made at most once.\<close>

theorem stop_run_ok:
  assumes "stop_reach False sw_init w"
  shows "sm_workers (sw_manager w) = card (counted_workers w) \<and> distinct (sm_ran (sw_manager w)) \<and>
    set (sm_ran (sw_manager w)) = {i. sw_worker w i \<noteq> NotAdded \<and> (sm_stopped (sw_manager w) \<or> (\<forall>n. sw_worker w i \<noteq> Working n))} \<and>
    sm_finals (sw_manager w) \<le> 1"
  using stop_reach_ok [OF assms refl] by (simp add: lists_ok_def lists_fine_def count_ok_def)

section \<open>Waiting for the end\<close>

text \<open>While no listener is added as the last worker leaves: once it counted itself down the counter stays
  zero; a thread that is parked without having been unparked is in the list of one who will unpark it.\<close>

definition closing :: "stop_world \<Rightarrow> bool" where
  "closing w \<longleftrightarrow> sm_workers (sw_manager w) = 0 \<and> (sm_stopped (sw_manager w) \<or> leaving w)"

definition waits_ok :: "stop_world \<Rightarrow> bool" where
  "waits_ok w \<longleftrightarrow>
     (\<forall>i. sw_worker w i \<in> {WasLast, Woke, StoppedAll} \<longrightarrow> closing w) \<and>
     (sw_tokens w \<noteq> {} \<longrightarrow> closing w) \<and>
     (\<forall>j. sw_waiter w j = Parking \<longrightarrow> j \<in> sw_tokens w \<or> j \<in> set (sm_parked (sw_manager w)) \<and>
        (0 < sm_workers (sw_manager w) \<or> (\<exists>i. sw_worker w i = WasLast))) \<and>
     (\<forall>j. sw_waiter w j = Checking \<longrightarrow> j \<in> set (sm_parked (sw_manager w)) \<or> closing w)"

lemma closing_move:
  "closing w \<Longrightarrow> sw_worker w i \<notin> {WasLast, Woke} \<or> k \<in> {WasLast, Woke} \<or> sm_stopped (f (sw_manager w)) \<Longrightarrow>
    sm_workers (f (sw_manager w)) = sm_workers (sw_manager w) \<Longrightarrow>
    (sm_stopped (sw_manager w) \<Longrightarrow> sm_stopped (f (sw_manager w))) \<Longrightarrow> closing (sw_moves f i k w)"
  by (auto simp: closing_def leaving_def) metis+

lemma waits_fields [simp]:
  "sw_waiter (sw_moves f i k w) = sw_waiter w" "sw_waiter (sw_unpark w) = sw_waiter w" "sw_waiter (sw_park_list j w) = sw_waiter w"
  "sw_waiter (sw_waits j k' w) = (sw_waiter w)(j := k')"
  "sw_tokens (sw_moves f i k w) = sw_tokens w" "sw_tokens (sw_waits j k' w) = sw_tokens w"
  "sw_tokens (sw_park_list j w) = sw_tokens w" "sw_tokens (sw_unpark w) = sw_tokens w \<union> set (sm_parked (sw_manager w))"
  "closing (sw_waits j k' w) = closing w" "closing (sw_park_list j w) = closing w" "closing (w\<lparr>sw_tokens := ts\<rparr>) = closing w"
  "closing (sw_unpark w) = closing w"
  by (simp_all add: stop_defs closing_def leaving_def)

lemma release_fields [simp]:
  "sm_workers (sm_release_listener name s) = sm_workers s" "sm_stopped (sm_release_listener name s) = sm_stopped s"
  "sm_parked (sm_release_listener name s) = sm_parked s"
  "sm_workers (sm_stop s) = sm_workers s" "sm_stopped (sm_stop s)" "sm_parked (sm_stop s) = sm_parked s"
  "sm_workers (sm_stop_call s) = sm_workers s" "sm_stopped (sm_stop_call s) = sm_stopped s" "sm_parked (sm_stop_call s) = sm_parked s"
  by (auto simp: sm_release_listener_def sm_stop_def sm_stop_call_def split: option.splits prod.splits)

lemma others_last: "\<exists>k. f k = WasLast \<Longrightarrow> f i \<noteq> WasLast \<Longrightarrow> \<exists>k. (f(i := x)) k = WasLast"
  by (metis fun_upd_other)

lemma waits_moved:
  assumes "waits_ok w" and "closing w \<Longrightarrow> closing v" and "sw_waiter v = sw_waiter w" and "sw_tokens v = sw_tokens w"
    and "sm_parked (sw_manager v) = sm_parked (sw_manager w)" and "sm_workers (sw_manager v) = sm_workers (sw_manager w)"
    and "\<exists>k. sw_worker w k = WasLast \<Longrightarrow> \<exists>k. sw_worker v k = WasLast"
    and "\<And>k. sw_worker v k \<in> {WasLast, Woke, StoppedAll} \<Longrightarrow> sw_worker w k \<in> {WasLast, Woke, StoppedAll} \<or> closing v"
  shows "waits_ok v"
  unfolding waits_ok_def
proof (intro conjI allI impI)
  fix k assume "sw_worker v k \<in> {WasLast, Woke, StoppedAll}"
  then show "closing v" using assms(1,2) assms(8) [of k] by (auto simp: waits_ok_def)
next
  fix j assume "sw_waiter v j = Parking"
  then show "j \<in> sw_tokens v \<or> j \<in> set (sm_parked (sw_manager v)) \<and>
      (0 < sm_workers (sw_manager v) \<or> (\<exists>i. sw_worker v i = WasLast))"
    using assms(1,3-7) unfolding waits_ok_def by metis
qed (use assms in \<open>auto simp: waits_ok_def\<close>)

lemma waits_step:
  assumes "stop_step True w v" and "waits_ok w" and "count_ok w"
  shows "waits_ok v"
  using assms
proof (induction rule: stop_step.induct)
  case (added w i name s)
  then have "\<not> closing w" and s: "sm_workers s = Suc (sm_workers (sw_manager w))" "sm_parked s = sm_parked (sw_manager w)"
    by (auto simp: closing_def sm_add_listener_def split: if_splits)
  then show ?case using added by (auto simp: waits_ok_def)
next
  case (stopped w)
  then show ?case by (auto simp: waits_ok_def closing_def leaving_def)
next
  case (unlisted w i name)
  then have "closing w \<Longrightarrow> closing (sw_moves (sm_release_listener name) i Unlisted w)" by (intro closing_move) auto
  then show ?case
    using unlisted(1) others_last [of "sw_worker w" i] by (intro waits_moved [OF unlisted(2)]) (auto split: if_splits)
next
  case (counted w i)
  then have "i \<in> counted_workers w" "finite (counted_workers w)" by (auto simp: counted_workers_def count_ok_def)
  then have "0 < sm_workers (sw_manager w)" using counted(3) by (auto simp: count_ok_def card_gt_0_iff)
  then show ?case
    using counted(1,2) by (auto simp: waits_ok_def closing_def leaving_def)
next
  case (woke w i)
  then have "closing w" by (simp add: waits_ok_def)
  then have "closing (sw_moves (\<lambda>s. s) i Woke (sw_unpark w))" by (intro closing_move) auto
  then show ?case using woke by (auto simp: waits_ok_def)
next
  case (stopped_all w i)
  then have "closing w" by (simp add: waits_ok_def)
  then have "closing (sw_moves sm_stop i StoppedAll w)" by (intro closing_move) auto
  then show ?case
    using stopped_all(1) others_last [of "sw_worker w" i] by (intro waits_moved [OF stopped_all(2)]) (auto split: if_splits)
next
  case (finished w i)
  then have "closing w" by (simp add: waits_ok_def)
  then have "closing (sw_moves sm_stop_call i Gone w)" using finished(1) by (intro closing_move) auto
  then show ?case
    using finished(1) others_last [of "sw_worker w" i] by (intro waits_moved [OF finished(2)]) (auto split: if_splits)
next
  case (wait_checked w j)
  then show ?case by (simp add: waits_ok_def) (auto simp: closing_def)
next
  case (wait_listed w j)
  then show ?case by (simp add: waits_ok_def)
next
  case (wait_unparked w j)
  then have "closing w" by (auto simp: waits_ok_def)
  then show ?case using wait_unparked by (simp add: waits_ok_def)
next
  case (timed_checked w j)
  then show ?case by (simp add: waits_ok_def) fastforce
next
  case (timed_unparked w j)
  then show ?case by (simp add: waits_ok_def) blast
qed (simp_all add: waits_ok_def)

lemma calm_step: "stop_step True w v \<Longrightarrow> stop_step False w v"
  by (induction rule: stop_step.induct) (blast intro: stop_step.intros)+

lemma calm_reach: "stop_reach True w v \<Longrightarrow> stop_reach False w v"
  by (induction rule: stop_reach.induct) (auto intro: stop_reach.intros calm_step)

lemma waits_reach:
  assumes "stop_reach True w v" and "w = sw_init"
  shows "waits_ok v"
  using assms
proof (induction rule: stop_reach.induct)
  case (start w)
  then show ?case by (auto simp: waits_ok_def sw_init_def)
next
  case (step w v u)
  then show ?case using stop_reach_ok [OF calm_reach [OF step.hyps(1)]] waits_step by blast
qed

text \<open>Each step as a function, to run the threads in a given order.\<close>

datatype move = MAdd nat string | MUnlist nat | MCount nat | MWake nat | MStopAll nat | MFinish nat | MWait nat | MCheck nat | MUnpark nat

fun stop_move :: "move \<Rightarrow> stop_world \<Rightarrow> stop_world" where
  "stop_move (MAdd i name) w = sw_moves (\<lambda>s. snd (sm_add_listener name i s)) i (Working name) w"
| "stop_move (MUnlist i) w = (case sw_worker w i of Working name \<Rightarrow> sw_moves (sm_release_listener name) i Unlisted w | _ \<Rightarrow> w)"
| "stop_move (MCount i) w = sw_moves (\<lambda>s. s\<lparr>sm_workers := sm_workers s - 1\<rparr>) i
     (if sm_workers (sw_manager w) = 1 then WasLast else Gone) w"
| "stop_move (MWake i) w = sw_moves (\<lambda>s. s) i Woke (sw_unpark w)"
| "stop_move (MStopAll i) w = sw_moves sm_stop i StoppedAll w"
| "stop_move (MFinish i) w = sw_moves sm_stop_call i Gone w"
| "stop_move (MWait j) w = sw_waits j Checking (sw_park_list j w)"
| "stop_move (MCheck j) w = sw_waits j (if sm_workers (sw_manager w) = 0 then Returned else Parking) w"
| "stop_move (MUnpark j) w = sw_waits j Checking (w\<lparr>sw_tokens := sw_tokens w - {j}\<rparr>)"

fun stop_enabled :: "bool \<Rightarrow> move \<Rightarrow> stop_world \<Rightarrow> bool" where
  "stop_enabled adds (MAdd i name) w \<longleftrightarrow> adds \<and> sw_worker w i = NotAdded \<and> is_ok (fst (sm_add_listener name i (sw_manager w)))"
| "stop_enabled adds (MUnlist i) w \<longleftrightarrow> (case sw_worker w i of Working _ \<Rightarrow> True | _ \<Rightarrow> False)"
| "stop_enabled adds (MCount i) w \<longleftrightarrow> sw_worker w i = Unlisted"
| "stop_enabled adds (MWake i) w \<longleftrightarrow> sw_worker w i = WasLast"
| "stop_enabled adds (MStopAll i) w \<longleftrightarrow> sw_worker w i = Woke"
| "stop_enabled adds (MFinish i) w \<longleftrightarrow> sw_worker w i = StoppedAll"
| "stop_enabled adds (MWait j) w \<longleftrightarrow> sw_waiter w j = NotWaiting"
| "stop_enabled adds (MCheck j) w \<longleftrightarrow> sw_waiter w j = Checking"
| "stop_enabled adds (MUnpark j) w \<longleftrightarrow> sw_waiter w j = Parking \<and> j \<in> sw_tokens w"

lemma stop_move_step:
  assumes "stop_enabled adds m w" and "adds \<Longrightarrow> calm \<longrightarrow> \<not> leaving w"
  shows "stop_step calm w (stop_move m w)"
proof (cases m)
  case (MAdd i name)
  then obtain s where s: "sm_add_listener name i (sw_manager w) = (Ok (), s)"
    using assms(1) by (cases "sm_add_listener name i (sw_manager w)") (auto simp: is_ok_def split: outcome.splits)
  then have eq: "stop_move m w = sw_moves (\<lambda>_. s) i (Working name) w"
    by (simp add: MAdd sw_moves_def)
  show ?thesis
    unfolding eq by (rule stop_step.added [OF _ s]) (use MAdd assms in auto)
next
  case (MUnlist i)
  then obtain name where "sw_worker w i = Working name" using assms(1) by (auto split: worker_at.splits)
  then show ?thesis using MUnlist by (auto intro: stop_step.unlisted)
qed (use assms(1) in \<open>simp only: stop_enabled.simps stop_move.simps; blast intro: stop_step.intros\<close>)+

text \<open>A run in which every move is possible when its turn comes.\<close>

fun stop_runs :: "bool \<Rightarrow> move list \<Rightarrow> stop_world \<Rightarrow> stop_world option" where
  "stop_runs adds [] w = Some w"
| "stop_runs adds (m # ms) w = (if stop_enabled adds m w then stop_runs adds ms (stop_move m w) else None)"

lemma stop_runs_reach:
  "stop_runs adds ms w = Some v \<Longrightarrow> (adds \<Longrightarrow> \<not> calm) \<Longrightarrow> stop_reach calm u w \<Longrightarrow> stop_reach calm u v"
proof (induction ms arbitrary: w)
  case (Cons m ms)
  then have "stop_enabled adds m w" and rest: "stop_runs adds ms (stop_move m w) = Some v" by (auto split: if_splits)
  then have "stop_step calm w (stop_move m w)" using Cons.prems(2) by (intro stop_move_step [of adds]) auto
  then show ?case using Cons.IH [OF rest Cons.prems(2)] Cons.prems(3) stop_reach.step by blast
qed simp

section \<open>Nobody waits for ever\<close>

text \<open>The steps that let a thread \<open>j\<close> in \<open>wait\<close> get on: its own and those of the workers that end. Any other step
  that adds no listener may come in between.\<close>

definition helps :: "nat \<Rightarrow> move \<Rightarrow> bool" where
  "helps j m \<longleftrightarrow> (case m of MAdd _ _ \<Rightarrow> False | MWait _ \<Rightarrow> False | MCheck k \<Rightarrow> k = j | MUnpark k \<Rightarrow> k = j | _ \<Rightarrow> True)"

definition help_step :: "nat \<Rightarrow> stop_world \<Rightarrow> stop_world \<Rightarrow> bool" where
  "help_step j w v \<longleftrightarrow> (\<exists>m. helps j m \<and> stop_enabled False m w \<and> v = stop_move m w)"

definition quiet_step :: "stop_world \<Rightarrow> stop_world \<Rightarrow> bool" where
  "quiet_step w v \<longleftrightarrow> stop_step True w v \<and> (\<forall>i. sw_worker w i = NotAdded \<longrightarrow> sw_worker v i = NotAdded)"

inductive wait_run :: "nat \<Rightarrow> nat \<Rightarrow> stop_world \<Rightarrow> stop_world \<Rightarrow> bool" for j where
  start: "wait_run j 0 w w"
| helped: "wait_run j k w v \<Longrightarrow> help_step j v u \<Longrightarrow> wait_run j (Suc k) w u"
| other: "wait_run j k w v \<Longrightarrow> quiet_step v u \<Longrightarrow> wait_run j k w u"

text \<open>The work that is left: the steps of the workers, each of which may wake the thread once more.\<close>

primrec worker_rank :: "worker_at \<Rightarrow> nat" where
  "worker_rank NotAdded = 0"
| "worker_rank (Working name) = 5"
| "worker_rank Unlisted = 4"
| "worker_rank WasLast = 3"
| "worker_rank Woke = 2"
| "worker_rank StoppedAll = 1"
| "worker_rank Gone = 0"

definition present :: "stop_world \<Rightarrow> nat set" where
  "present w = {i. sw_worker w i \<noteq> NotAdded}"

definition wait_work :: "nat \<Rightarrow> stop_world \<Rightarrow> nat" where
  "wait_work j w = 3 * (\<Sum>i \<in> present w. worker_rank (sw_worker w i)) + (if j \<in> sw_tokens w then 2 else 0) +
     (if sw_waiter w j = Checking then 1 else 0)"

lemma present_same [simp]:
  "present (sw_waits j at w) = present w" "present (w\<lparr>sw_manager := m\<rparr>) = present w" "present (sw_park_list j w) = present w"
  "present (sw_unpark w) = present w" "present (w\<lparr>sw_tokens := ts\<rparr>) = present w" "present (w\<lparr>sw_waiter := f\<rparr>) = present w"
  by (simp_all add: present_def stop_defs)

lemma present_moves: "k \<noteq> NotAdded \<Longrightarrow> present (sw_moves f i k w) = insert i (present w)"
  by (auto simp: present_def)

lemma present_finite:
  assumes "stop_reach calm w v" and "w = sw_init"
  shows "finite (present v)"
  using assms
proof (induction rule: stop_reach.induct)
  case (start w)
  then show ?case by (simp add: present_def sw_init_def)
next
  case (step w v u)
  have "finite (present x) \<Longrightarrow> stop_step calm x y \<Longrightarrow> finite (present y)" for x y
    by (rotate_tac, induction rule: stop_step.induct) (auto simp: present_moves)
  then show ?case using step by blast
qed

lemma work_moves:
  assumes "finite (present w)" and "sw_worker w i \<noteq> NotAdded" and "k \<noteq> NotAdded"
  shows "wait_work j (sw_moves f i k w) + 3 * worker_rank (sw_worker w i) = wait_work j w + 3 * worker_rank k"
proof -
  have i: "i \<in> present w" using assms(2) by (simp add: present_def)
  then have "present (sw_moves f i k w) = present w" using assms(3) by (auto simp: present_moves)
  moreover have "(\<Sum>x \<in> present w. worker_rank (((sw_worker w)(i := k)) x)) + worker_rank (sw_worker w i) =
      (\<Sum>x \<in> present w. worker_rank (sw_worker w x)) + worker_rank k"
    using assms(1) i by (simp add: sum.remove [where x = i])
  ultimately show ?thesis by (simp add: wait_work_def algebra_simps)
qed

lemma work_manager [simp]: "wait_work j (w\<lparr>sw_manager := m\<rparr>) = wait_work j w"
  by (simp add: wait_work_def)

lemma work_unpark: "wait_work j (sw_unpark w) \<le> wait_work j w + 2"
  by (simp add: wait_work_def)

text \<open>A thread in \<open>wait\<close> stays there until it returns.\<close>

definition in_wait :: "nat \<Rightarrow> stop_world \<Rightarrow> bool" where
  "in_wait j w \<longleftrightarrow> sw_waiter w j \<in> {Checking, Parking, Returned}"

lemma in_wait_step: "stop_step calm w v \<Longrightarrow> in_wait j w \<Longrightarrow> in_wait j v"
  by (induction rule: stop_step.induct) (auto simp: in_wait_def)

lemma help_is_step: "help_step j w v \<Longrightarrow> stop_step True w v"
  unfolding help_step_def using stop_move_step [of False _ w True] by blast

lemma help_works:
  assumes "help_step j w v" and "finite (present w)"
  shows "wait_work j v < wait_work j w"
proof -
  obtain m where m: "helps j m" "stop_enabled False m w" "v = stop_move m w" using assms(1) by (auto simp: help_step_def)
  show ?thesis
  proof (cases m)
    case (MUnlist i)
    then obtain name where "sw_worker w i = Working name" using m(2) by (auto split: worker_at.splits)
    then show ?thesis using m(3) MUnlist work_moves [OF assms(2), of i Unlisted j "sm_release_listener name"] by simp
  next
    case (MCount i)
    then show ?thesis
      using m work_moves [OF assms(2), of i "if sm_workers (sw_manager w) = 1 then WasLast else Gone" j
          "\<lambda>s. s\<lparr>sm_workers := sm_workers s - 1\<rparr>"]
      by (simp split: if_splits)
  next
    case (MWake i)
    then show ?thesis
      using m work_moves [of "sw_unpark w" i Woke j "\<lambda>s. s"] assms(2) work_unpark [of j w] by simp
  next
    case (MStopAll i)
    then show ?thesis using m work_moves [OF assms(2), of i StoppedAll j sm_stop] by simp
  next
    case (MFinish i)
    then show ?thesis using m work_moves [OF assms(2), of i Gone j sm_stop_call] by simp
  qed (use m in \<open>auto simp: helps_def wait_work_def sw_waits_def\<close>)
qed

lemma quiet_works:
  assumes "quiet_step w v" and "finite (present w)" and "in_wait j w"
  shows "wait_work j v \<le> wait_work j w"
proof -
  have "stop_step True w v" and quiet: "\<And>i. sw_worker w i = NotAdded \<Longrightarrow> sw_worker v i = NotAdded"
    using assms(1) by (auto simp: quiet_step_def)
  then show ?thesis
  proof (cases rule: stop_step.cases)
    case (added i name s)
    then show ?thesis using quiet [of i] by simp
  next
    case stopped
    then show ?thesis by simp
  next
    case (unlisted i name)
    then have "help_step j w v"
      unfolding help_step_def by (intro exI [of _ "MUnlist i"]) (simp add: helps_def)
    then show ?thesis using help_works assms(2) less_imp_le by blast
  next
    case (counted i)
    then have "help_step j w v" unfolding help_step_def by (intro exI [of _ "MCount i"]) (simp add: helps_def)
    then show ?thesis using help_works assms(2) less_imp_le by blast
  next
    case (woke i)
    then have "help_step j w v" unfolding help_step_def by (intro exI [of _ "MWake i"]) (simp add: helps_def)
    then show ?thesis using help_works assms(2) less_imp_le by blast
  next
    case (stopped_all i)
    then have "help_step j w v" unfolding help_step_def by (intro exI [of _ "MStopAll i"]) (simp add: helps_def)
    then show ?thesis using help_works assms(2) less_imp_le by blast
  next
    case (finished i)
    then have "help_step j w v" unfolding help_step_def by (intro exI [of _ "MFinish i"]) (simp add: helps_def)
    then show ?thesis using help_works assms(2) less_imp_le by blast
  qed (use assms(3) in \<open>auto simp: in_wait_def wait_work_def sw_waits_def sw_park_list_def\<close>)
qed

text \<open>Nobody is stuck: as long as the thread has not returned, it or a worker can take a step.\<close>

lemma help_possible:
  assumes "waits_ok w" and "count_ok w" and "in_wait j w" and "sw_waiter w j \<noteq> Returned"
  shows "\<exists>v. help_step j w v"
proof -
  have by_move: ?thesis if "helps j m" "stop_enabled False m w" for m using that unfolding help_step_def by blast
  show ?thesis
  proof (cases "sw_waiter w j = Checking")
    case True
    then show ?thesis using by_move [of "MCheck j"] by (simp add: helps_def)
  next
    case False
    then have parking: "sw_waiter w j = Parking" using assms(3,4) by (auto simp: in_wait_def)
    then consider "j \<in> sw_tokens w" | i where "sw_worker w i = WasLast" | "0 < sm_workers (sw_manager w)"
      using assms(1) unfolding waits_ok_def by metis
    then show ?thesis
    proof cases
      case 1
      then show ?thesis using parking by_move [of "MUnpark j"] by (simp add: helps_def)
    next
      case (2 i)
      then show ?thesis using by_move [of "MWake i"] by (simp add: helps_def)
    next
      case 3
      then have "counted_workers w \<noteq> {}" using assms(2) by (auto simp: count_ok_def)
      then obtain i name where "sw_worker w i = Working name \<or> sw_worker w i = Unlisted"
        by (auto simp: counted_workers_def)
      then show ?thesis using by_move [of "MUnlist i"] by_move [of "MCount i"] by (auto simp: helps_def)
    qed
  qed
qed

lemma wait_run_works:
  assumes "wait_run j k w v" and "stop_reach True sw_init w" and "in_wait j w"
  shows "stop_reach True sw_init v \<and> in_wait j v \<and> k + wait_work j v \<le> wait_work j w"
  using assms
proof (induction rule: wait_run.induct)
  case (start w)
  then show ?case by simp
next
  case (helped k w v u)
  then have v: "stop_reach True sw_init v" "in_wait j v" "k + wait_work j v \<le> wait_work j w" by simp_all
  have s: "stop_step True v u" by (rule help_is_step [OF helped.hyps(2)])
  show ?case
    using stop_reach.step [OF v(1) s] in_wait_step [OF s v(2)] help_works [OF helped.hyps(2) present_finite [OF v(1) refl]] v(3)
    by simp
next
  case (other k w v u)
  then have v: "stop_reach True sw_init v" "in_wait j v" "k + wait_work j v \<le> wait_work j w" by simp_all
  have s: "stop_step True v u" using other.hyps(2) by (simp add: quiet_step_def)
  show ?case
    using stop_reach.step [OF v(1) s] in_wait_step [OF s v(2)] v(3)
      quiet_works [OF other.hyps(2) present_finite [OF v(1) refl] v(2)]
    by simp
qed

lemma stopped_step: "stop_step calm w v \<Longrightarrow> sm_stopped (sw_manager w) \<Longrightarrow> sm_stopped (sw_manager v) \<and>
    (\<forall>i. sw_worker w i = NotAdded \<longrightarrow> sw_worker v i = NotAdded)"
  by (induction rule: stop_step.induct) (auto simp: sm_add_listener_def split: if_splits)

text \<open>C20: Let no listener be added while the last worker leaves, and none at all from some state on in which a
  thread is in \<open>wait\<close> (after \<open>stop\<close> none can be: every step is then of that kind). Then the thread
  returns, however the threads interleave, as long as the workers end: of the steps of the workers and
  of the thread itself only a bounded number fit into any run from there, whatever steps of others
  come in between, and until the thread has returned one of them is possible.\<close>

theorem wait_returns:
  assumes "stop_reach True sw_init w" and "sw_waiter w j \<in> {Checking, Parking}"
  shows "(\<forall>k v. wait_run j k w v \<longrightarrow> k \<le> wait_work j w \<and> (sw_waiter v j = Returned \<or> (\<exists>u. help_step j v u))) \<and>
    (\<exists>k v. wait_run j k w v \<and> sw_waiter v j = Returned) \<and>
    (sm_stopped (sw_manager w) \<longrightarrow> (\<forall>v u. stop_reach True w v \<and> stop_step True v u \<longrightarrow> quiet_step v u))"
proof -
  have wait: "in_wait j w" using assms(2) by (auto simp: in_wait_def)
  have bound: "k \<le> wait_work j w" and going: "sw_waiter v j = Returned \<or> (\<exists>u. help_step j v u)"
    if "wait_run j k w v" for k v
    using wait_run_works [OF that assms(1) wait] help_possible [of v j] waits_reach [of sw_init v]
      stop_reach_ok [OF calm_reach, of sw_init v] by auto
  have "\<exists>k v. wait_run j k w v \<and> sw_waiter v j = Returned"
  proof (rule ccontr)
    assume "\<not> ?thesis"
    then have "\<exists>v. wait_run j k w v" for k
      by (induction k) (use going wait_run.start wait_run.helped in blast)+
    then show False using bound [of "Suc (wait_work j w)"] by force
  qed
  moreover have "sm_stopped (sw_manager v)" if "stop_reach True w v" "sm_stopped (sw_manager w)" for v
    using that by (induction rule: stop_reach.induct) (use stopped_step in blast)+
  ultimately show ?thesis using bound going stopped_step unfolding quiet_step_def by blast
qed

text \<open>A second listener is added between the moment the last worker counts itself down and the moment it wakes
  those who wait.\<close>

definition late_listener :: "move list" where
  "late_listener = [MAdd 0 ''a'', MWait 0, MCheck 0, MUnlist 0, MCount 0, MAdd 1 ''b'', MWake 0, MUnpark 0, MCheck 0,
     MStopAll 0, MFinish 0, MUnlist 1, MCount 1, MWake 1, MStopAll 1, MFinish 1]"

definition stuck :: "stop_world \<Rightarrow> bool" where
  "stuck w \<longleftrightarrow> sw_waiter w 0 = Parking \<and> 0 \<notin> sw_tokens w \<and> sm_stopped (sw_manager w) \<and>
     (\<forall>i. sw_worker w i \<in> {NotAdded, Gone})"

lemma stuck_stays: "stop_step False w v \<Longrightarrow> stuck w \<Longrightarrow> stuck v"
proof (induction rule: stop_step.induct)
  case (added w i name s)
  then show ?case by (auto simp: stuck_def sm_add_listener_def split: if_splits)
next
  case (unlisted w i name) then show ?case by (metis insertE singletonD stuck_def worker_at.distinct)
next
  case (counted w i) then show ?case by (metis insertE singletonD stuck_def worker_at.distinct)
next
  case (woke w i) then show ?case by (metis insertE singletonD stuck_def worker_at.distinct)
next
  case (stopped_all w i) then show ?case by (metis insertE singletonD stuck_def worker_at.distinct)
next
  case (finished w i) then show ?case by (metis insertE singletonD stuck_def worker_at.distinct)
qed (auto simp: stuck_def intro!: gr0I)

lemma stuck_reach: "stop_reach False w v \<Longrightarrow> stuck w \<Longrightarrow> stuck v"
  by (induction rule: stop_reach.induct) (auto intro: stuck_stays)

lemma late_listener_run: "\<exists>w. stop_runs True late_listener sw_init = Some w \<and> stuck w"
  by (simp add: late_listener_def sw_init_def sm_new_def sm_add_listener_def is_ok_def stop_defs sm_stop_def sm_stop_call_def
      sm_release_listener_def stuck_def)

text \<open>C21: a listener added at that moment can leave a thread in \<open>wait\<close> for ever: the manager has stopped,
  every worker is gone, the thread is parked, and nothing that happens from then on unparks it.\<close>

theorem wait_hangs:
  "\<exists>w. stop_reach False sw_init w \<and> sm_is_stopped (sw_manager w) \<and> range (sw_worker w) \<subseteq> {NotAdded, Gone} \<and>
     (\<lambda>v. sw_waiter v 0) ` Collect (stop_reach False w) = {Parking}"
proof -
  obtain w where w: "stop_runs True late_listener sw_init = Some w" "stuck w"
    using late_listener_run by blast
  have reach: "stop_reach False sw_init w"
    by (rule stop_runs_reach [OF w(1) _ stop_reach.start]) simp
  have gone: "sw_worker w i \<in> {NotAdded, Gone}" for i using w(2) by (simp add: stuck_def)
  have "counted_workers w = {}"
  proof (rule equals0I)
    fix i assume "i \<in> counted_workers w"
    then show False using gone [of i] by (auto simp: counted_workers_def)
  qed
  then have "sm_is_stopped (sw_manager w)"
    using stop_reach_ok [OF reach refl] by (simp add: count_ok_def sm_is_stopped_def)
  moreover have "(\<lambda>v. sw_waiter v 0) ` Collect (stop_reach False w) = {Parking}"
    using stuck_reach [OF _ w(2)] stop_reach.start [of False w] by (auto simp: stuck_def image_iff)
  ultimately show ?thesis using reach gone by blast
qed

section \<open>Witnesses\<close>

lemma stop_run_ok_witness:
  "\<exists>w. stop_runs True late_listener sw_init = Some w \<and> distinct (sm_ran (sw_manager w)) \<and> sm_finals (sw_manager w) \<le> 1"
proof -
  obtain w where w: "stop_runs True late_listener sw_init = Some w" using late_listener_run by blast
  then show ?thesis using stop_run_ok [OF stop_runs_reach [OF w _ stop_reach.start]] by simp
qed

text \<open>A worker and a thread that waits for it.\<close>

lemma wait_returns_witness:
  "\<exists>w k v. stop_runs False [MWait 0, MCheck 0] (stop_move (MAdd 0 ''a'') sw_init) = Some w \<and>
     sw_waiter w 0 = Parking \<and> wait_work 0 w = 15 \<and> wait_run 0 k w v \<and> sw_waiter v 0 = Returned \<and> k \<le> 15"
proof -
  let ?u = "stop_move (MAdd 0 ''a'') sw_init"
  have "stop_reach True sw_init ?u"
    by (rule stop_reach.step [OF stop_reach.start stop_move_step [of True]])
      (simp_all add: leaving_def sw_init_def sm_new_def sm_add_listener_def)
  moreover obtain w where w: "stop_runs False [MWait 0, MCheck 0] ?u = Some w"
      "sw_waiter w 0 = Parking" "sw_tokens w = {}" "sw_worker w = (\<lambda>_. NotAdded)(0 := Working ''a'')"
    by (simp add: sw_init_def sm_new_def sm_add_listener_def stop_defs)
  ultimately have "stop_reach True sw_init w"
    using stop_runs_reach by blast
  moreover have "present w = {0}" using w(4) by (auto simp: present_def)
  then have "wait_work 0 w = 15" using w(2-4) by (simp add: wait_work_def)
  ultimately show ?thesis
    using wait_returns [of w 0] w(1,2) by fastforce
qed

end
