(* ===== verification/Scheduler.thy ===== *)
theory Scheduler
  imports Limits "HOL-Library.Multiset"
begin

text \<open>
  The timed tasks of a node run on one thread, \<open>vnt/src/util/scheduler.rs\<close>: a bounded channel brings tasks
  with the time they are due, a heap holds them, and the thread runs what is due. A task is a number, and
  \<open>body\<close> says what it schedules in turn when it runs, with its delay. The heap is a multiset: which of
  the tasks that are due first comes out is left open. The clock advances between the steps.
\<close>

section \<open>The channel\<close>

type_synonym delayed_task = "nanos \<times> nat"

datatype sched_op = Task delayed_task | StopOp

text \<open>Where the thread is in \<open>run\<close>: at the head of the inner loop, about to run the first task, waiting until a
  task is due, taking everything from the channel, waiting for the first task, at the end.\<close>

datatype sched_at = Peeking | RunNext | WaitsUntil nanos | Draining | Idling | Ended

text \<open>The last two fields record the tasks that ran, with the time they were due and the time they ran, and the
  tasks that were accepted.\<close>

record scheduler =
  sc_shutdown :: bool
  sc_queue :: "sched_op list"
  sc_heap :: "delayed_task multiset"
  sc_at :: sched_at
  sc_now :: nanos
  sc_ran :: "(nat \<times> nanos \<times> nanos) list"
  sc_accepted :: "delayed_task multiset"

definition CHANNEL_CAP :: nat where
  "CHANNEL_CAP = 32"

definition sched_new :: "nanos \<Rightarrow> scheduler" where
  "sched_new now = \<lparr>sc_shutdown = False, sc_queue = [], sc_heap = {#}, sc_at = Peeking, sc_now = now, sc_ran = [], sc_accepted = {#}\<rparr>"

text \<open>\<open>try_send\<close>: the receiver is dropped when the thread ends.\<close>

definition sched_timeout :: "nanos \<Rightarrow> nat \<Rightarrow> scheduler \<Rightarrow> bool \<times> scheduler" where
  "sched_timeout time i s =
     (if sc_shutdown s then (False, s)
      else if sc_at s = Ended \<or> CHANNEL_CAP \<le> length (sc_queue s) then (False, s)
      else (let t = (sc_now s + time, i) in
        (True, s\<lparr>sc_queue := sc_queue s @ [Task t], sc_accepted := add_mset t (sc_accepted s)\<rparr>)))"

text \<open>\<open>shutdown_now\<close> marks the state, and then waits for room in the channel.\<close>

definition sched_mark_shutdown :: "scheduler \<Rightarrow> scheduler" where
  "sched_mark_shutdown s = s\<lparr>sc_shutdown := True\<rparr>"

definition sched_send_stop :: "scheduler \<Rightarrow> scheduler" where
  "sched_send_stop s = (if sc_at s = Ended then s else s\<lparr>sc_queue := sc_queue s @ [StopOp]\<rparr>)"

section \<open>The thread\<close>

text \<open>\<open>add_task\<close>, and where the loop goes on.\<close>

definition sched_receive :: "sched_at \<Rightarrow> sched_op \<Rightarrow> scheduler \<Rightarrow> scheduler" where
  "sched_receive goes sop s = (case sop of
       Task t \<Rightarrow> s\<lparr>sc_queue := tl (sc_queue s), sc_heap := add_mset t (sc_heap s), sc_at := goes\<rparr>
     | StopOp \<Rightarrow> s\<lparr>sc_queue := tl (sc_queue s), sc_at := Ended\<rparr>)"

definition sched_run_task :: "(nat \<Rightarrow> (nanos \<times> nat) list) \<Rightarrow> delayed_task \<Rightarrow> scheduler \<Rightarrow> scheduler" where
  "sched_run_task body t s = fold (\<lambda>(time, i) s. snd (sched_timeout time i s)) (body (snd t))
     (s\<lparr>sc_heap := sc_heap s - {#t#}, sc_ran := sc_ran s @ [(snd t, fst t, sc_now s)], sc_at := Peeking\<rparr>)"

definition first_due :: "delayed_task \<Rightarrow> delayed_task multiset \<Rightarrow> bool" where
  "first_due t h \<longleftrightarrow> t \<in># h \<and> (\<forall>u \<in># h. fst t \<le> fst u)"

inductive sched_own :: "(nat \<Rightarrow> (nanos \<times> nat) list) \<Rightarrow> scheduler \<Rightarrow> scheduler \<Rightarrow> bool" for body where
  peek_none: "sc_at s = Peeking \<Longrightarrow> sc_heap s = {#} \<Longrightarrow> sched_own body s (s\<lparr>sc_at := Draining\<rparr>)"
| peek_ended: "sc_at s = Peeking \<Longrightarrow> sc_heap s \<noteq> {#} \<Longrightarrow> sc_shutdown s \<Longrightarrow> sched_own body s (s\<lparr>sc_at := Ended\<rparr>)"
| peek_early: "sc_at s = Peeking \<Longrightarrow> \<not> sc_shutdown s \<Longrightarrow> first_due t (sc_heap s) \<Longrightarrow> sc_now s < fst t \<Longrightarrow>
    sched_own body s (s\<lparr>sc_at := WaitsUntil (fst t)\<rparr>)"
| peek_due: "sc_at s = Peeking \<Longrightarrow> \<not> sc_shutdown s \<Longrightarrow> first_due t (sc_heap s) \<Longrightarrow> fst t \<le> sc_now s \<Longrightarrow>
    sched_own body s (s\<lparr>sc_at := RunNext\<rparr>)"
| runs: "sc_at s = RunNext \<Longrightarrow> first_due t (sc_heap s) \<Longrightarrow> sched_own body s (sched_run_task body t s)"
| wait_received: "sc_at s = WaitsUntil time \<Longrightarrow> sc_queue s = sop # q \<Longrightarrow> sched_own body s (sched_receive Peeking sop s)"
| wait_over: "sc_at s = WaitsUntil time \<Longrightarrow> sc_queue s = [] \<Longrightarrow> time \<le> sc_now s \<Longrightarrow> sched_own body s (s\<lparr>sc_at := Peeking\<rparr>)"
| drain_received: "sc_at s = Draining \<Longrightarrow> sc_queue s = sop # q \<Longrightarrow> sched_own body s (sched_receive Draining sop s)"
| drained: "sc_at s = Draining \<Longrightarrow> sc_queue s = [] \<Longrightarrow>
    sched_own body s (s\<lparr>sc_at := if sc_heap s = {#} then Idling else Peeking\<rparr>)"
| idle_received: "sc_at s = Idling \<Longrightarrow> sc_queue s = sop # q \<Longrightarrow> sched_own body s (sched_receive Peeking sop s)"
| ended: "sc_at s = Ended \<Longrightarrow> sched_own body s (sched_mark_shutdown s)"

text \<open>Other threads schedule and shut down; time passes.\<close>

inductive sched_step :: "(nat \<Rightarrow> (nanos \<times> nat) list) \<Rightarrow> scheduler \<Rightarrow> scheduler \<Rightarrow> bool" for body where
  own: "sched_own body s t \<Longrightarrow> sched_step body s t"
| scheduled: "sched_step body s (snd (sched_timeout time i s))"
| shut_down: "sched_step body s (sched_mark_shutdown s)"
| stop_sent: "length (sc_queue s) < CHANNEL_CAP \<Longrightarrow> sched_step body s (sched_send_stop s)"
| time_passes: "sched_step body s (s\<lparr>sc_now := sc_now s + d\<rparr>)"

inductive sched_reach :: "(nat \<Rightarrow> (nanos \<times> nat) list) \<Rightarrow> scheduler \<Rightarrow> scheduler \<Rightarrow> bool" for body where
  start: "sched_reach body s s"
| step: "sched_reach body s t \<Longrightarrow> sched_step body t u \<Longrightarrow> sched_reach body s u"

section \<open>Never early, nothing lost\<close>

definition queued :: "sched_op list \<Rightarrow> delayed_task multiset" where
  "queued q = mset (List.map_filter (\<lambda>sop. case sop of Task t \<Rightarrow> Some t | StopOp \<Rightarrow> None) q)"

lemma queued_simps [simp]:
  "queued [] = {#}" "queued (Task t # q) = add_mset t (queued q)" "queued (StopOp # q) = queued q"
  "queued (q @ [Task t]) = add_mset t (queued q)" "queued (q @ [StopOp]) = queued q"
  by (simp_all add: queued_def map_filter_def)

definition ran_tasks :: "(nat \<times> nanos \<times> nanos) list \<Rightarrow> delayed_task multiset" where
  "ran_tasks l = mset (map (\<lambda>(i, due, _). (due, i)) l)"

text \<open>What is accepted is in the channel, in the heap or has run; and nothing ran before it was due.\<close>

definition sched_ok :: "scheduler \<Rightarrow> bool" where
  "sched_ok s \<longleftrightarrow> sc_accepted s = queued (sc_queue s) + sc_heap s + ran_tasks (sc_ran s) \<and>
     (\<forall>(i, due, ran_at) \<in> set (sc_ran s). due \<le> ran_at) \<and>
     (sc_at s = RunNext \<longrightarrow> (\<exists>t. first_due t (sc_heap s) \<and> fst t \<le> sc_now s)) \<and>
     length (sc_queue s) \<le> CHANNEL_CAP"

lemma timeout_ok: "sched_ok s \<Longrightarrow> sched_ok (snd (sched_timeout time i s))"
  by (auto simp: sched_ok_def sched_timeout_def Let_def CHANNEL_CAP_def)

lemma timeouts_ok: "sched_ok s \<Longrightarrow> sched_ok (fold (\<lambda>(time, i) s. snd (sched_timeout time i s)) l s)"
  by (induction l arbitrary: s) (auto simp: timeout_ok split: prod.splits)

lemma receive_ok:
  "sched_ok s \<Longrightarrow> sc_queue s = sop # q \<Longrightarrow> goes \<noteq> RunNext \<Longrightarrow> sched_ok (sched_receive goes sop s)"
  by (cases sop) (auto simp: sched_ok_def sched_receive_def)

lemma run_task_ok:
  assumes "sched_ok s" and "sc_at s = RunNext" and "first_due t (sc_heap s)"
  shows "sched_ok (sched_run_task body t s)"
proof -
  obtain u where "first_due u (sc_heap s)" "fst u \<le> sc_now s" using assms(1,2) by (auto simp: sched_ok_def)
  then have "fst t \<le> sc_now s" using assms(3) by (force simp: first_due_def)
  then show ?thesis
    using assms unfolding sched_run_task_def
    by (intro timeouts_ok) (auto simp: sched_ok_def ran_tasks_def first_due_def)
qed

lemma sched_step_ok: "sched_step body s t \<Longrightarrow> sched_ok s \<Longrightarrow> sched_ok t"
proof (induction rule: sched_step.induct)
  case (own s t)
  then show ?case
    by (induction rule: sched_own.induct) (auto simp: receive_ok run_task_ok, auto simp: sched_ok_def sched_mark_shutdown_def)
next
  case (time_passes s d)
  then show ?case by (auto simp: sched_ok_def intro: trans_le_add1)
qed (auto simp: timeout_ok, auto simp: sched_ok_def sched_mark_shutdown_def sched_send_stop_def)

text \<open>C22: whatever the threads do: every task that was accepted is in the channel, in the heap, or
  has run, and is there once; no task ran before it was due; and the channel never holds more than 32.\<close>

theorem sched_run_ok:
  assumes "sched_reach body (sched_new now) s"
  shows "sc_accepted s = queued (sc_queue s) + sc_heap s + ran_tasks (sc_ran s) \<and>
    (\<forall>(i, due, ran_at) \<in> set (sc_ran s). due \<le> ran_at) \<and> length (sc_queue s) \<le> 32"
proof -
  have "sched_reach body u s \<Longrightarrow> sched_ok u \<Longrightarrow> sched_ok s" for u
    by (induction rule: sched_reach.induct) (auto intro: sched_step_ok)
  moreover have "sched_ok (sched_new now)" by (simp add: sched_ok_def sched_new_def ran_tasks_def CHANNEL_CAP_def)
  ultimately show ?thesis using assms by (auto simp: sched_ok_def CHANNEL_CAP_def)
qed

lemma sched_run_ok_witness:
  "let s = snd (sched_timeout 5 1 (sched_new 0)) in
     sc_accepted s = queued (sc_queue s) + sc_heap s + ran_tasks (sc_ran s) \<and> sc_accepted s = {#(5, 1)#}"
proof -
  let ?s = "snd (sched_timeout 5 1 (sched_new 0))"
  have "sched_reach (\<lambda>_. []) (sched_new 0) ?s"
    by (rule sched_reach.step [OF sched_reach.start sched_step.scheduled])
  then have "sc_accepted ?s = queued (sc_queue ?s) + sc_heap ?s + ran_tasks (sc_ran ?s)"
    using sched_run_ok by blast
  moreover have "sc_accepted ?s = {#(5, 1)#}"
    by (simp add: sched_timeout_def sched_new_def CHANNEL_CAP_def Let_def)
  ultimately show ?thesis by (simp only: Let_def simp_thms)
qed

section \<open>Due tasks run\<close>

lemma timeout_fields [simp]:
  "sc_shutdown (snd (sched_timeout time i s)) = sc_shutdown s" "sc_heap (snd (sched_timeout time i s)) = sc_heap s"
  "sc_at (snd (sched_timeout time i s)) = sc_at s" "sc_now (snd (sched_timeout time i s)) = sc_now s"
  "sc_ran (snd (sched_timeout time i s)) = sc_ran s"
  by (simp_all add: sched_timeout_def Let_def)

lemma run_task_fields [simp]:
  "sc_shutdown (sched_run_task body t s) = sc_shutdown s" "sc_heap (sched_run_task body t s) = sc_heap s - {#t#}"
  "sc_at (sched_run_task body t s) = Peeking" "sc_now (sched_run_task body t s) = sc_now s"
  "sc_ran (sched_run_task body t s) = sc_ran s @ [(snd t, fst t, sc_now s)]"
proof -
  have "sc_shutdown (fold (\<lambda>(time, i) s. snd (sched_timeout time i s)) l u) = sc_shutdown u \<and>
      sc_heap (fold (\<lambda>(time, i) s. snd (sched_timeout time i s)) l u) = sc_heap u \<and>
      sc_at (fold (\<lambda>(time, i) s. snd (sched_timeout time i s)) l u) = sc_at u \<and>
      sc_now (fold (\<lambda>(time, i) s. snd (sched_timeout time i s)) l u) = sc_now u \<and>
      sc_ran (fold (\<lambda>(time, i) s. snd (sched_timeout time i s)) l u) = sc_ran u" for l u
    by (induction l arbitrary: u) (auto split: prod.splits)
  then show "sc_shutdown (sched_run_task body t s) = sc_shutdown s" "sc_heap (sched_run_task body t s) = sc_heap s - {#t#}"
    "sc_at (sched_run_task body t s) = Peeking" "sc_now (sched_run_task body t s) = sc_now s"
    "sc_ran (sched_run_task body t s) = sc_ran s @ [(snd t, fst t, sc_now s)]"
    by (simp_all add: sched_run_task_def)
qed

lemma first_due_exists: "h \<noteq> {#} \<Longrightarrow> \<exists>t. first_due t h"
proof -
  assume "h \<noteq> {#}"
  then have "\<exists>t. t \<in># h \<and> (\<forall>u. fst u < fst t \<longrightarrow> u \<notin># h)"
    using ex_has_least_nat [of "\<lambda>t. t \<in># h" _ fst] by (metis leD multiset_nonemptyE)
  then obtain t where "t \<in># h" "\<forall>u. fst u < fst t \<longrightarrow> u \<notin># h" by blast
  then have "first_due t h" unfolding first_due_def by (metis not_less)
  then show ?thesis ..
qed

text \<open>The two steps of running one due task.\<close>

lemma own_two_steps:
  assumes "sc_at s = Peeking" and "\<not> sc_shutdown s" and "u \<in># sc_heap s" and "fst u \<le> sc_now s"
  shows "\<exists>v. (sched_own body ^^ 2) s v"
    and "(sched_own body ^^ 2) s v \<Longrightarrow> \<exists>t. first_due t (sc_heap s) \<and> v = sched_run_task body t (s\<lparr>sc_at := RunNext\<rparr>)"
proof -
  obtain t where t: "first_due t (sc_heap s)" using first_due_exists assms(3) by (metis empty_not_add_mset multi_member_split)
  then have "fst t \<le> sc_now s" using assms(3,4) by (force simp: first_due_def)
  from sched_own.peek_due [OF assms(1,2) t this] sched_own.runs [of "s\<lparr>sc_at := RunNext\<rparr>" t body]
  show "\<exists>v. (sched_own body ^^ 2) s v" using t by (auto simp: numeral_2_eq_2)
next
  assume "(sched_own body ^^ 2) s v"
  then obtain r where "sched_own body s r" "sched_own body r v" by (auto simp: numeral_2_eq_2)
  from this(1) have r: "r = s\<lparr>sc_at := RunNext\<rparr>"
    using assms by (cases rule: sched_own.cases) (auto simp: first_due_def)
  from \<open>sched_own body r v\<close> show "\<exists>t. first_due t (sc_heap s) \<and> v = sched_run_task body t (s\<lparr>sc_at := RunNext\<rparr>)"
    unfolding r by (cases rule: sched_own.cases) auto
qed

definition due_by :: "nanos \<Rightarrow> scheduler \<Rightarrow> delayed_task multiset" where
  "due_by d s = filter_mset (\<lambda>u. fst u \<le> d) (sc_heap s)"

lemma due_tasks_run:
  "sc_at s = Peeking \<Longrightarrow> \<not> sc_shutdown s \<Longrightarrow> d \<le> sc_now s \<Longrightarrow> size (due_by d s) = n \<Longrightarrow>
    (\<exists>v. (sched_own body ^^ (2 * n)) s v) \<and>
    (\<forall>v. (sched_own body ^^ (2 * n)) s v \<longrightarrow> (\<forall>t \<in># due_by d s. (snd t, fst t, sc_now s) \<in> set (sc_ran v)) \<and>
      set (sc_ran s) \<subseteq> set (sc_ran v))"
proof (induction n arbitrary: s)
  case (Suc n)
  then have "due_by d s \<noteq> {#}" by (metis nat.distinct(1) size_empty)
  then obtain u where "u \<in># due_by d s" by blast
  then have u: "u \<in># sc_heap s" "fst u \<le> d" "fst u \<le> sc_now s"
    using Suc.prems(3) by (auto simp: due_by_def)
  note two = own_two_steps [OF Suc.prems(1,2) u(1,3), of body]
  have more: "(sched_own body ^^ (2 * Suc n)) s = (\<lambda>v. \<exists>r. (sched_own body ^^ 2) s r \<and> (sched_own body ^^ (2 * n)) r v)"
    using relpowp_add [of 2 "2 * n" "sched_own body"] by (auto simp: fun_eq_iff relcompp_apply)
  have "(\<exists>v. (sched_own body ^^ (2 * n)) r v) \<and>
      (\<forall>v. (sched_own body ^^ (2 * n)) r v \<longrightarrow> (\<forall>t \<in># due_by d s. (snd t, fst t, sc_now s) \<in> set (sc_ran v)) \<and>
        set (sc_ran s) \<subseteq> set (sc_ran v))" if r: "(sched_own body ^^ 2) s r" for r
  proof -
    obtain t where t: "first_due t (sc_heap s)" "r = sched_run_task body t (s\<lparr>sc_at := RunNext\<rparr>)"
      using two(2) [OF r] by blast
    then have "fst t \<le> d" "t \<in># sc_heap s" using u by (force simp: first_due_def)+
    then obtain h where h: "sc_heap s = add_mset t h" by (metis multi_member_split)
    then have due: "due_by d s = add_mset t (due_by d r)"
      using \<open>fst t \<le> d\<close> by (simp add: due_by_def t(2))
    then have "size (due_by d r) = n" using Suc.prems(4) by simp
    moreover have "sc_at r = Peeking" "\<not> sc_shutdown r" "sc_now r = sc_now s" "sc_ran r = sc_ran s @ [(snd t, fst t, sc_now s)]"
      using Suc.prems(2) by (simp_all add: t(2))
    ultimately show ?thesis
      using Suc.IH [of r] Suc.prems(3) due by auto
  qed
  then show ?case unfolding more using two(1) by blast
qed (auto simp: due_by_def)

text \<open>C23: a task that is due runs before the thread takes anything else from the channel: after two
  steps for each task of the heap that is due no later, whichever the thread takes, it has run.\<close>

theorem sched_due_runs:
  assumes "sc_at s = Peeking" and "\<not> sc_shutdown s" and "t \<in># sc_heap s" and "fst t \<le> sc_now s"
    and "k = 2 * size (filter_mset (\<lambda>u. fst u \<le> fst t) (sc_heap s))"
  shows "(\<exists>v. (sched_own body ^^ k) s v) \<and> (\<forall>v. (sched_own body ^^ k) s v \<longrightarrow> (snd t, fst t, sc_now s) \<in> set (sc_ran v))"
  using due_tasks_run [OF assms(1,2,4) refl, of body] assms(3,5) by (auto simp: due_by_def)

lemma sched_due_runs_witness:
  "let s = (sched_new 7)\<lparr>sc_heap := {#(5, 1), (6, 2), (9, 3)#}\<rparr> in
     \<exists>v. (sched_own (\<lambda>_. []) ^^ 4) s v \<and> (2, 6, 7) \<in> set (sc_ran v)"
  using sched_due_runs [of "(sched_new 7)\<lparr>sc_heap := {#(5, 1), (6, 2), (9, 3)#}\<rparr>" "(6, 2)" 4 "\<lambda>_. []"]
  by (auto simp: sched_new_def Let_def)

end
