(* ===== verification/Igmp_Packet.thy ===== *)
theory Igmp_Packet
  imports Ipv4_Packet
begin

text \<open>
  \<open>vnt/packet/src/igmp/\<close>: the messages by which hosts join multicast groups, a part of the packet
  library that the client does not use. The constructors of the type codes carry a prefix per version. A packet is
  its buffer; the IPv4 addresses in it are read as big-endian words.

  The theorems: the checksum that \<open>update_checksum\<close> stores verifies; the group records and source addresses
  of a version 3 message are found exactly; and two things the accessors do not do, decode the type of
  a version 1 message and return a declared source address by its index.
\<close>

section \<open>Type codes\<close>

datatype igmp_type =
    TypeQuery | TypeReportV1 | TypeReportV2 | TypeReportV3 | TypeLeaveV2 | TypeUnknown u8

definition igmp_type_from :: "u8 \<Rightarrow> igmp_type" where
  "igmp_type_from value =
     (if value = 0x11 then TypeQuery
      else if value = 0x12 then TypeReportV1
      else if value = 0x16 then TypeReportV2
      else if value = 0x22 then TypeReportV3
      else if value = 0x17 then TypeLeaveV2
      else TypeUnknown value)"

primrec igmp_type_into :: "igmp_type \<Rightarrow> u8" where
  "igmp_type_into TypeQuery = 0x11"
| "igmp_type_into TypeReportV1 = 0x12"
| "igmp_type_into TypeReportV2 = 0x16"
| "igmp_type_into TypeReportV3 = 0x22"
| "igmp_type_into TypeLeaveV2 = 0x17"
| "igmp_type_into (TypeUnknown v) = v"

interpretation igmp_type: wire_enum igmp_type_from igmp_type_into
  by unfold_locales (simp add: igmp_type_from_def)

datatype igmp_v1_type =
    V1Query | V1Report | V1Unknown u8

definition igmp_v1_type_from :: "u8 \<Rightarrow> igmp_v1_type" where
  "igmp_v1_type_from value =
     (if value = 0x11 then V1Query
      else if value = 0x12 then V1Report
      else V1Unknown value)"

primrec igmp_v1_type_into :: "igmp_v1_type \<Rightarrow> u8" where
  "igmp_v1_type_into V1Query = 0x11"
| "igmp_v1_type_into V1Report = 0x12"
| "igmp_v1_type_into (V1Unknown v) = v"

interpretation igmp_v1_type: wire_enum igmp_v1_type_from igmp_v1_type_into
  by unfold_locales (simp add: igmp_v1_type_from_def)

datatype igmp_v2_type =
    V2Query | V2Report | V2Leave | V2Unknown u8

definition igmp_v2_type_from :: "u8 \<Rightarrow> igmp_v2_type" where
  "igmp_v2_type_from value =
     (if value = 0x11 then V2Query
      else if value = 0x16 then V2Report
      else if value = 0x17 then V2Leave
      else V2Unknown value)"

primrec igmp_v2_type_into :: "igmp_v2_type \<Rightarrow> u8" where
  "igmp_v2_type_into V2Query = 0x11"
| "igmp_v2_type_into V2Report = 0x16"
| "igmp_v2_type_into V2Leave = 0x17"
| "igmp_v2_type_into (V2Unknown v) = v"

interpretation igmp_v2_type: wire_enum igmp_v2_type_from igmp_v2_type_into
  by unfold_locales (simp add: igmp_v2_type_from_def)

datatype igmp_v3_type =
    V3Query | V3Report | V3Unknown u8

definition igmp_v3_type_from :: "u8 \<Rightarrow> igmp_v3_type" where
  "igmp_v3_type_from value =
     (if value = 0x11 then V3Query
      else if value = 0x22 then V3Report
      else V3Unknown value)"

primrec igmp_v3_type_into :: "igmp_v3_type \<Rightarrow> u8" where
  "igmp_v3_type_into V3Query = 0x11"
| "igmp_v3_type_into V3Report = 0x22"
| "igmp_v3_type_into (V3Unknown v) = v"

interpretation igmp_v3_type: wire_enum igmp_v3_type_from igmp_v3_type_into
  by unfold_locales (simp add: igmp_v3_type_from_def)

datatype igmp_record_type =
    ModeIsInclude | ModeIsExclude | ChangeToIncludeMode | ChangeToExcludeMode |
    AllowNewSources | BlockOldSources | RecordUnknown u8

definition igmp_record_type_from :: "u8 \<Rightarrow> igmp_record_type" where
  "igmp_record_type_from value =
     (if value = 1 then ModeIsInclude
      else if value = 2 then ModeIsExclude
      else if value = 3 then ChangeToIncludeMode
      else if value = 4 then ChangeToExcludeMode
      else if value = 5 then AllowNewSources
      else if value = 6 then BlockOldSources
      else RecordUnknown value)"

primrec igmp_record_type_into :: "igmp_record_type \<Rightarrow> u8" where
  "igmp_record_type_into ModeIsInclude = 1"
| "igmp_record_type_into ModeIsExclude = 2"
| "igmp_record_type_into ChangeToIncludeMode = 3"
| "igmp_record_type_into ChangeToExcludeMode = 4"
| "igmp_record_type_into AllowNewSources = 5"
| "igmp_record_type_into BlockOldSources = 6"
| "igmp_record_type_into (RecordUnknown v) = v"

interpretation igmp_record_type: wire_enum igmp_record_type_from igmp_record_type_into
  by unfold_locales (simp add: igmp_record_type_from_def)

section \<open>Version 1\<close>

definition igmp_v1_new :: "bytes \<Rightarrow> bytes outcome" where
  "igmp_v1_new buffer = (if length buffer \<noteq> 8 then Err (IoError InvalidData) else Ok buffer)"

definition igmp_v1_version :: "bytes \<Rightarrow> u8 outcome" where
  "igmp_v1_version b = omap (drop_bit 4) (byte_at b 0)"

definition igmp_v1_get_type :: "bytes \<Rightarrow> igmp_v1_type outcome" where
  "igmp_v1_get_type b = omap (\<lambda>v. igmp_v1_type_from (v AND 0x0F)) (byte_at b 0)"

definition igmp_v1_unused :: "bytes \<Rightarrow> u8 outcome" where
  "igmp_v1_unused b = byte_at b 1"

definition igmp_v1_checksum :: "bytes \<Rightarrow> u16 outcome" where
  "igmp_v1_checksum b = get_u16 2 b"

definition igmp_v1_is_valid :: "bool \<Rightarrow> bytes \<Rightarrow> bool outcome" where
  "igmp_v1_is_valid keep b = omap (\<lambda>c. c = 0 \<or> cal_checksum keep b = 0) (igmp_v1_checksum b)"

definition igmp_v1_group_address :: "bytes \<Rightarrow> ipv4_addr outcome" where
  "igmp_v1_group_address b = get_u32 4 b"

definition igmp_v1_set_version :: "u8 \<Rightarrow> bytes \<Rightarrow> bytes outcome" where
  "igmp_v1_set_version version = modify_byte 0 (\<lambda>v. push_bit 4 version OR (0x0F AND v))"

definition igmp_v1_set_type :: "igmp_v1_type \<Rightarrow> bytes \<Rightarrow> bytes outcome" where
  "igmp_v1_set_type t = modify_byte 0 (\<lambda>v. (v AND 0xF0) OR igmp_v1_type_into t)"

definition igmp_v1_set_checksum :: "u16 \<Rightarrow> bytes \<Rightarrow> bytes outcome" where
  "igmp_v1_set_checksum checksum = set_u16 2 checksum"

definition igmp_v1_update_checksum :: "bool \<Rightarrow> bytes \<Rightarrow> bytes outcome" where
  "igmp_v1_update_checksum keep b = obind (igmp_v1_set_checksum 0 b) (\<lambda>b.
     igmp_v1_set_checksum (cal_checksum keep b) b)"

definition igmp_v1_set_group_address :: "ipv4_addr \<Rightarrow> bytes \<Rightarrow> bytes outcome" where
  "igmp_v1_set_group_address group_address = set_u32 4 group_address"

section \<open>Version 2\<close>

definition igmp_v2_new :: "bytes \<Rightarrow> bytes outcome" where
  "igmp_v2_new buffer = (if length buffer \<noteq> 8 then Err (IoError InvalidData) else Ok buffer)"

definition igmp_v2_get_type :: "bytes \<Rightarrow> igmp_v2_type outcome" where
  "igmp_v2_get_type b = omap igmp_v2_type_from (byte_at b 0)"

definition igmp_v2_max_resp_time :: "bytes \<Rightarrow> u8 outcome" where
  "igmp_v2_max_resp_time b = byte_at b 1"

definition igmp_v2_checksum :: "bytes \<Rightarrow> u16 outcome" where
  "igmp_v2_checksum b = get_u16 2 b"

definition igmp_v2_is_valid :: "bool \<Rightarrow> bytes \<Rightarrow> bool outcome" where
  "igmp_v2_is_valid keep b = omap (\<lambda>c. c = 0 \<or> cal_checksum keep b = 0) (igmp_v2_checksum b)"

definition igmp_v2_group_address :: "bytes \<Rightarrow> ipv4_addr outcome" where
  "igmp_v2_group_address b = get_u32 4 b"

definition igmp_v2_set_type :: "igmp_v2_type \<Rightarrow> bytes \<Rightarrow> bytes outcome" where
  "igmp_v2_set_type t = put_byte 0 (igmp_v2_type_into t)"

definition igmp_v2_set_max_resp_time :: "u8 \<Rightarrow> bytes \<Rightarrow> bytes outcome" where
  "igmp_v2_set_max_resp_time resp = put_byte 1 resp"

definition igmp_v2_set_checksum :: "u16 \<Rightarrow> bytes \<Rightarrow> bytes outcome" where
  "igmp_v2_set_checksum checksum = set_u16 2 checksum"

definition igmp_v2_update_checksum :: "bool \<Rightarrow> bytes \<Rightarrow> bytes outcome" where
  "igmp_v2_update_checksum keep b = obind (igmp_v2_set_checksum 0 b) (\<lambda>b.
     igmp_v2_set_checksum (cal_checksum keep b) b)"

definition igmp_v2_set_group_address :: "ipv4_addr \<Rightarrow> bytes \<Rightarrow> bytes outcome" where
  "igmp_v2_set_group_address group_address = set_u32 4 group_address"

section \<open>Version 3: queries\<close>

definition igmp_query_new :: "bytes \<Rightarrow> bytes outcome" where
  "igmp_query_new buffer = (if length buffer < 12 then Err (IoError InvalidData) else Ok buffer)"

definition igmp_query_set_igmp_type :: "bytes \<Rightarrow> bytes outcome" where
  "igmp_query_set_igmp_type = put_byte 0 (igmp_v3_type_into V3Query)"

definition igmp_query_set_max_resp_code :: "u8 \<Rightarrow> bytes \<Rightarrow> bytes outcome" where
  "igmp_query_set_max_resp_code code = put_byte 1 code"

definition igmp_query_set_group_address :: "ipv4_addr \<Rightarrow> bytes \<Rightarrow> bytes outcome" where
  "igmp_query_set_group_address addr = set_u32 4 addr"

definition igmp_query_set_checksum :: "u16 \<Rightarrow> bytes \<Rightarrow> bytes outcome" where
  "igmp_query_set_checksum checksum = set_u16 2 checksum"

definition igmp_query_set_qrv :: "u8 \<Rightarrow> bytes \<Rightarrow> bytes outcome" where
  "igmp_query_set_qrv qrv = modify_byte 8 (\<lambda>v. (v AND NOT 0x07) OR (qrv AND 0x07))"

definition igmp_query_set_qqic :: "u8 \<Rightarrow> bytes \<Rightarrow> bytes outcome" where
  "igmp_query_set_qqic qqic = put_byte 9 qqic"

definition igmp_query_update_checksum :: "bool \<Rightarrow> bytes \<Rightarrow> bytes outcome" where
  "igmp_query_update_checksum keep b = obind (igmp_query_set_checksum 0 b) (\<lambda>b.
     igmp_query_set_checksum (cal_checksum keep b) b)"

definition igmp_query_get_type :: "bytes \<Rightarrow> igmp_v3_type outcome" where
  "igmp_query_get_type b = omap igmp_v3_type_from (byte_at b 0)"

definition igmp_query_max_resp_code :: "bytes \<Rightarrow> u8 outcome" where
  "igmp_query_max_resp_code b = byte_at b 1"

definition igmp_query_checksum :: "bytes \<Rightarrow> u16 outcome" where
  "igmp_query_checksum b = get_u16 2 b"

definition igmp_query_is_valid :: "bool \<Rightarrow> bytes \<Rightarrow> bool outcome" where
  "igmp_query_is_valid keep b = omap (\<lambda>c. c = 0 \<or> cal_checksum keep b = 0) (igmp_query_checksum b)"

definition igmp_query_group_address :: "bytes \<Rightarrow> ipv4_addr outcome" where
  "igmp_query_group_address b = get_u32 4 b"

definition igmp_query_resv :: "bytes \<Rightarrow> u8 outcome" where
  "igmp_query_resv b = omap (drop_bit 4) (byte_at b 8)"

definition igmp_query_s :: "bytes \<Rightarrow> u8 outcome" where
  "igmp_query_s b = omap (\<lambda>v. drop_bit 3 (v AND 0x0F)) (byte_at b 8)"

definition igmp_query_qrv :: "bytes \<Rightarrow> u8 outcome" where
  "igmp_query_qrv b = omap (\<lambda>v. v AND 0x07) (byte_at b 8)"

definition igmp_query_qqic :: "bytes \<Rightarrow> u8 outcome" where
  "igmp_query_qqic b = byte_at b 9"

definition igmp_query_source_number :: "bytes \<Rightarrow> u16 outcome" where
  "igmp_query_source_number b = get_u16 10 b"

text \<open>The loop over the source addresses of a message, which start at \<open>base\<close>, with \<open>left\<close> of them to go.\<close>

fun source_loop :: "nat \<Rightarrow> bytes \<Rightarrow> nat \<Rightarrow> nat \<Rightarrow> ipv4_addr list \<Rightarrow> ipv4_addr list option outcome" where
  "source_loop base buf index 0 list = Ok (Some list)"
| "source_loop base buf index (Suc left) list =
     (let start = base + index * 4 in
      if length buf < start + 4 then Ok None
      else obind (get_u32 start buf) (\<lambda>addr. source_loop base buf (Suc index) left (list @ [addr])))"

definition igmp_query_source_addresses :: "bytes \<Rightarrow> ipv4_addr list option outcome" where
  "igmp_query_source_addresses b = obind (igmp_query_source_number b) (\<lambda>num.
     if num = 0 then Ok None else source_loop 12 b 0 (unat num) [])"

text \<open>\<open>12 + index * 4\<close> is computed on \<open>u16\<close> and wraps.\<close>

definition igmp_query_source_address :: "u16 \<Rightarrow> bytes \<Rightarrow> ipv4_addr option outcome" where
  "igmp_query_source_address index b = obind (igmp_query_source_number b) (\<lambda>num.
     if index \<le> num then Ok None
     else let start = unat (12 + index * 4) in
       if length b < start + 4 then Ok None else omap Some (get_u32 start b))"

section \<open>Version 3: group records\<close>

definition igmp_record_new :: "bytes \<Rightarrow> bytes outcome" where
  "igmp_record_new buffer = (if length buffer < 8 then Err (IoError InvalidData) else Ok buffer)"

definition igmp_record_get_type :: "bytes \<Rightarrow> igmp_record_type outcome" where
  "igmp_record_get_type b = omap igmp_record_type_from (byte_at b 0)"

definition igmp_record_aux_data_len :: "bytes \<Rightarrow> u8 outcome" where
  "igmp_record_aux_data_len b = byte_at b 1"

definition igmp_record_source_number :: "bytes \<Rightarrow> u16 outcome" where
  "igmp_record_source_number b = get_u16 2 b"

definition igmp_record_multicast_address :: "bytes \<Rightarrow> ipv4_addr outcome" where
  "igmp_record_multicast_address b = get_u32 4 b"

definition igmp_record_source_addresses :: "bytes \<Rightarrow> ipv4_addr list option outcome" where
  "igmp_record_source_addresses b = obind (igmp_record_source_number b) (\<lambda>num.
     if num = 0 then Ok None else source_loop 8 b 0 (unat num) [])"

definition igmp_record_source_address :: "u16 \<Rightarrow> bytes \<Rightarrow> ipv4_addr option outcome" where
  "igmp_record_source_address index b = obind (igmp_record_source_number b) (\<lambda>num.
     if index \<le> num then Ok None
     else let start = unat (8 + index * 4) in
       if length b < start + 4 then Ok None else omap Some (get_u32 start b))"

definition igmp_record_auxiliary_data :: "bytes \<Rightarrow> bytes outcome" where
  "igmp_record_auxiliary_data b = obind (igmp_record_source_number b) (\<lambda>num.
     let start = 8 + unat num * 4 in
     obind (igmp_record_aux_data_len b) (\<lambda>aux.
       if length b < start + unat aux * 4 then Ok [] else slice b start (start + unat aux * 4)))"

section \<open>Version 3: reports\<close>

definition igmp_report_new :: "bytes \<Rightarrow> bytes outcome" where
  "igmp_report_new buffer = (if length buffer < 8 then Err (IoError InvalidData) else Ok buffer)"

definition igmp_report_get_type :: "bytes \<Rightarrow> igmp_v3_type outcome" where
  "igmp_report_get_type b = omap igmp_v3_type_from (byte_at b 0)"

definition igmp_report_reserved1 :: "bytes \<Rightarrow> u8 outcome" where
  "igmp_report_reserved1 b = byte_at b 1"

definition igmp_report_checksum :: "bytes \<Rightarrow> u16 outcome" where
  "igmp_report_checksum b = get_u16 2 b"

definition igmp_report_is_valid :: "bool \<Rightarrow> bytes \<Rightarrow> bool outcome" where
  "igmp_report_is_valid keep b = omap (\<lambda>c. c = 0 \<or> cal_checksum keep b = 0) (igmp_report_checksum b)"

definition igmp_report_reserved2 :: "bytes \<Rightarrow> u16 outcome" where
  "igmp_report_reserved2 b = get_u16 4 b"

definition igmp_report_record_number :: "bytes \<Rightarrow> u16 outcome" where
  "igmp_report_record_number b = get_u16 6 b"

text \<open>The loop of \<open>group_records\<close>; \<open>IgmpV3RecordPacket::new(..).unwrap()\<close> is the second parse.\<close>

fun record_loop :: "bytes \<Rightarrow> nat \<Rightarrow> nat \<Rightarrow> bytes list \<Rightarrow> bytes list option outcome" where
  "record_loop buf start 0 list = Ok (Some list)"
| "record_loop buf start (Suc left) list =
     (if length buf \<le> start then Ok None
      else obind (slice buf start (length buf)) (\<lambda>rest.
        case igmp_record_new rest of
          Ok r \<Rightarrow> obind (igmp_record_aux_data_len r) (\<lambda>aux. obind (igmp_record_source_number r) (\<lambda>num.
            let stop = start + 8 + unat aux * 4 + unat num * 4 in
            if length buf < stop then Ok None
            else obind (slice buf start stop) (\<lambda>b. case igmp_record_new b of
              Ok r' \<Rightarrow> record_loop buf stop left (list @ [r'])
            | _ \<Rightarrow> Panic)))
        | Err _ \<Rightarrow> Ok None
        | Panic \<Rightarrow> Panic))"

definition igmp_report_group_records :: "bytes \<Rightarrow> bytes list option outcome" where
  "igmp_report_group_records b = obind (igmp_report_record_number b) (\<lambda>num.
     if num = 0 then Ok None else record_loop b 8 (unat num) [])"

section \<open>Checksums\<close>

interpretation igmp_sum: inet_checksum keep "cal_checksum keep" 2 "\<lambda>_. 0" for keep
  by (rule inet_checksum_plain) simp

lemmas igmp_checksum_defs = igmp_v1_update_checksum_def igmp_v1_set_checksum_def igmp_v1_is_valid_def igmp_v1_checksum_def
  igmp_v2_update_checksum_def igmp_v2_set_checksum_def igmp_v2_is_valid_def igmp_v2_checksum_def
  igmp_query_update_checksum_def igmp_query_set_checksum_def igmp_query_is_valid_def igmp_query_checksum_def

text \<open>The three versions share their checksum.\<close>

lemma igmp_same_checksum:
  "igmp_v1_update_checksum keep b = igmp_v2_update_checksum keep b" "igmp_v1_is_valid keep b = igmp_v2_is_valid keep b"
  "igmp_query_update_checksum keep b = igmp_v2_update_checksum keep b" "igmp_query_is_valid keep b = igmp_v2_is_valid keep b"
  by (simp_all add: igmp_checksum_defs)

text \<open>A message whose checksum was just updated verifies.\<close>

lemma igmp_update_checksum_valid:
  assumes "8 \<le> length b" and "length b < checksum_max"
  shows "\<exists>b'. igmp_v2_update_checksum keep b = Ok b' \<and> igmp_v2_is_valid keep b' = Ok True \<and>
    length b' = length b \<and> take 2 b' = take 2 b \<and> drop 4 b' = drop 4 b"
proof -
  let ?b = "put_u16 2 (cal_checksum keep (put_u16 2 0 b)) b"
  have put: "set_u16 2 w c = Ok (put_u16 2 w c)" if "4 \<le> length c" for w c
    using that put_slice_u16 [of 2 c w] by (simp add: set_u16_def)
  have "igmp_v2_update_checksum keep b = Ok ?b"
    using assms(1) by (simp add: igmp_v2_update_checksum_def igmp_v2_set_checksum_def put)
  moreover have "cal_checksum keep ?b = 0" using igmp_sum.update_verifies assms by simp
  moreover have "\<exists>v. igmp_v2_checksum ?b = Ok v" using assms by (simp add: igmp_v2_checksum_def get_u16_ok)
  ultimately show ?thesis using assms(1) by (auto simp: igmp_v2_is_valid_def put_u16_def)
qed

section \<open>What the accessors do not do\<close>

text \<open>The type of a version 1 message is read from four bits and compared with codes of eight: no message
  has the type \<open>Query\<close> or \<open>Report\<close>, not even after \<open>set_type\<close>, which changes the version instead.\<close>

lemma igmp_v1_type_unknown: "igmp_v1_get_type b = Ok t \<Longrightarrow> \<exists>v. t = V1Unknown v"
proof -
  assume "igmp_v1_get_type b = Ok t"
  then obtain v where t: "t = igmp_v1_type_from (v AND 0x0F)"
    by (auto simp: igmp_v1_get_type_def outcome_simps)
  have "v AND 0x0F \<noteq> 0x11" "v AND 0x0F \<noteq> 0x12"
    using word_and_le1 [of v "0x0F"] by (auto simp: word_le_nat_alt dest: arg_cong [of _ _ unat])
  then show ?thesis by (simp add: t igmp_v1_type_from_def)
qed

lemma igmp_v1_set_type_spoils_version:
  "obind (igmp_v1_set_version 2 [0, 0, 0, 0, 224, 0, 0, 1]) (igmp_v1_set_type V1Query) = Ok [0x31, 0, 0, 0, 224, 0, 0, 1]"
  by (simp add: igmp_v1_set_version_def igmp_v1_set_type_def modify_byte_def byte_at_def put_byte_def)

text \<open>The check of the index is the wrong way round: no declared source address is returned.\<close>

lemma igmp_query_source_address_None:
  "igmp_query_source_number b = Ok num \<Longrightarrow> index < num \<Longrightarrow> igmp_query_source_address index b = Ok None"
  by (simp add: igmp_query_source_address_def less_imp_le)

lemma igmp_record_source_address_None:
  "igmp_record_source_number b = Ok num \<Longrightarrow> index < num \<Longrightarrow> igmp_record_source_address index b = Ok None"
  by (simp add: igmp_record_source_address_def less_imp_le)

section \<open>The messages of version 3\<close>

text \<open>No buffer makes the two loops panic.\<close>

lemma source_loop_total: "source_loop base buf index n list \<noteq> Panic"
proof (induction n arbitrary: index list)
  case (Suc n)
  then show ?case by (simp add: Let_def get_u32_ok)
qed simp

lemma igmp_query_source_addresses_total: "igmp_query_new b = Ok b \<Longrightarrow> igmp_query_source_addresses b \<noteq> Panic"
  by (auto simp: igmp_query_new_def igmp_query_source_addresses_def igmp_query_source_number_def get_u16_ok
      source_loop_total split: if_splits)

lemma record_loop_total: "record_loop buf start n list \<noteq> Panic"
proof (induction n arbitrary: start list)
  case (Suc n)
  show ?case
  proof (cases "length buf < start + 8")
    case False
    then have "drop start buf \<noteq> []" by auto
    with False Suc show ?thesis
      by (auto simp: slice_def igmp_record_new_def igmp_record_aux_data_len_def igmp_record_source_number_def
          byte_at_def get_u16_ok Let_def)
  qed (auto simp: slice_def igmp_record_new_def)
qed simp

lemma igmp_report_group_records_total: "igmp_report_new b = Ok b \<Longrightarrow> igmp_report_group_records b \<noteq> Panic"
  by (auto simp: igmp_report_new_def igmp_report_group_records_def igmp_report_record_number_def get_u16_ok
      record_loop_total split: if_splits)

text \<open>The group record of RFC 3376, and its octets.\<close>

record group_record =
  gr_type :: igmp_record_type
  gr_multicast :: ipv4_addr
  gr_sources :: "ipv4_addr list"
  gr_aux :: bytes

definition group_record_ok :: "group_record \<Rightarrow> bool" where
  "group_record_ok g \<longleftrightarrow> igmp_record_type_from (igmp_record_type_into (gr_type g)) = gr_type g \<and>
     length (gr_sources g) < 65536 \<and> 4 dvd length (gr_aux g) \<and> length (gr_aux g) < 1024"

definition encode_record :: "group_record \<Rightarrow> bytes" where
  "encode_record g = [igmp_record_type_into (gr_type g), of_nat (length (gr_aux g) div 4)] @
     u16_to_be (of_nat (length (gr_sources g))) @ u32_to_be (gr_multicast g) @
     concat (List.map u32_to_be (gr_sources g)) @ gr_aux g"

text \<open>What a receiver reads from a record.\<close>

definition read_record :: "bytes \<Rightarrow> group_record outcome" where
  "read_record b = obind (igmp_record_get_type b) (\<lambda>t. obind (igmp_record_multicast_address b) (\<lambda>m.
     obind (igmp_record_source_addresses b) (\<lambda>s. obind (igmp_record_auxiliary_data b) (\<lambda>a.
       Ok \<lparr>gr_type = t, gr_multicast = m, gr_sources = (case s of None \<Rightarrow> [] | Some l \<Rightarrow> l), gr_aux = a\<rparr>))))"

lemma length_concat_u32 [simp]: "length (concat (List.map u32_to_be l)) = 4 * length l"
  by (induction l) simp_all

lemma get_u32_append: "length a = i \<Longrightarrow> get_u32 i (a @ u32_to_be w @ c) = Ok w"
  by (simp add: get_u32_def slice_def u32_to_be_def)

lemma source_loop_found:
  "length a = base + index * 4 \<Longrightarrow>
   source_loop base (a @ concat (List.map u32_to_be l) @ rest) index (length l) acc = Ok (Some (acc @ l))"
proof (induction l arbitrary: a index acc)
  case (Cons w l)
  from Cons.IH [of "a @ u32_to_be w" "Suc index" "acc @ [w]"] Cons.prems
  have "source_loop base (a @ u32_to_be w @ concat (List.map u32_to_be l) @ rest) (Suc index) (length l) (acc @ [w]) =
      Ok (Some (acc @ w # l))" by simp
  moreover have "get_u32 (base + index * 4) (a @ u32_to_be w @ concat (List.map u32_to_be l) @ rest) = Ok w"
    using Cons.prems by (intro get_u32_append)
  ultimately show ?case using Cons.prems by (simp add: Let_def)
qed simp

lemma get_u16_append: "length a = i \<Longrightarrow> get_u16 i (a @ u16_to_be w @ c) = Ok w"
  by (simp add: get_u16_def slice_def u16_to_be_def)

lemma slice_suffix: "slice (p @ q) (length p) (length p + length q) = Ok q"
  by (simp add: slice_def)

lemma unat_of_nat_u16: "n < 65536 \<Longrightarrow> unat (of_nat n :: u16) = n"
  by (simp add: unat_of_nat)

lemma of_nat_u16_zero: "n < 65536 \<Longrightarrow> (of_nat n :: u16) = 0 \<longleftrightarrow> n = 0"
  using unat_of_nat_u16 [of n] by auto

lemma unat_of_nat_u8: "n < 256 \<Longrightarrow> unat (of_nat n :: u8) = n"
  by (simp add: unat_of_nat)

lemma encode_record_length: "length (encode_record g) = 8 + 4 * length (gr_sources g) + length (gr_aux g)"
  by (simp add: encode_record_def)

text \<open>The fields of a record, whatever follows it.\<close>

lemma encode_record_fields:
  "igmp_record_get_type (encode_record g @ rest) = Ok (igmp_record_type_from (igmp_record_type_into (gr_type g)))"
  "igmp_record_aux_data_len (encode_record g @ rest) = Ok (of_nat (length (gr_aux g) div 4))"
  "igmp_record_source_number (encode_record g @ rest) = Ok (of_nat (length (gr_sources g)))"
  "igmp_record_multicast_address (encode_record g @ rest) = Ok (gr_multicast g)"
proof -
  let ?h = "[igmp_record_type_into (gr_type g), of_nat (length (gr_aux g) div 4)]"
    and ?n = "u16_to_be (of_nat (length (gr_sources g)))" and ?s = "concat (List.map u32_to_be (gr_sources g)) @ gr_aux g @ rest"
  show "igmp_record_get_type (encode_record g @ rest) = Ok (igmp_record_type_from (igmp_record_type_into (gr_type g)))"
    "igmp_record_aux_data_len (encode_record g @ rest) = Ok (of_nat (length (gr_aux g) div 4))"
    by (simp_all add: igmp_record_get_type_def igmp_record_aux_data_len_def byte_at_def encode_record_def)
  from get_u16_append [of ?h 2 "of_nat (length (gr_sources g))" "u32_to_be (gr_multicast g) @ ?s"]
  show "igmp_record_source_number (encode_record g @ rest) = Ok (of_nat (length (gr_sources g)))"
    by (simp add: igmp_record_source_number_def encode_record_def)
  from get_u32_append [of "?h @ ?n" 4 "gr_multicast g" ?s]
  show "igmp_record_multicast_address (encode_record g @ rest) = Ok (gr_multicast g)"
    by (simp add: igmp_record_multicast_address_def encode_record_def)
qed

lemmas record_fields = encode_record_fields [where rest = "[]", simplified]

lemma read_record_encode:
  assumes "group_record_ok g"
  shows "read_record (encode_record g) = Ok g"
proof -
  let ?h = "[igmp_record_type_into (gr_type g), of_nat (length (gr_aux g) div 4)] @
     u16_to_be (of_nat (length (gr_sources g))) @ u32_to_be (gr_multicast g)"
  have n: "unat (of_nat (length (gr_sources g)) :: u16) = length (gr_sources g)"
    and a: "unat (of_nat (length (gr_aux g) div 4) :: u8) = length (gr_aux g) div 4" "length (gr_aux g) div 4 * 4 = length (gr_aux g)"
    using assms by (auto simp: group_record_ok_def unat_of_nat_u16 unat_of_nat_u8)
  have "encode_record g = ?h @ concat (List.map u32_to_be (gr_sources g)) @ gr_aux g"
    by (simp add: encode_record_def)
  then have "source_loop 8 (encode_record g) 0 (length (gr_sources g)) [] = Ok (Some ([] @ gr_sources g))"
    using source_loop_found [of ?h 8 0 "gr_sources g" "gr_aux g" "[]"] by simp
  moreover have "of_nat (length (gr_sources g)) = (0 :: u16) \<longleftrightarrow> gr_sources g = []"
    using of_nat_u16_zero [of "length (gr_sources g)"] assms by (simp add: group_record_ok_def)
  ultimately have s: "igmp_record_source_addresses (encode_record g) =
      Ok (if gr_sources g = [] then None else Some (gr_sources g))"
    using n by (simp add: igmp_record_source_addresses_def record_fields)
  have "igmp_record_auxiliary_data (encode_record g) = Ok (gr_aux g)"
  proof -
    let ?p = "?h @ concat (List.map u32_to_be (gr_sources g))"
    have p: "encode_record g = ?p @ gr_aux g" "length ?p = 8 + length (gr_sources g) * 4"
      by (simp_all add: encode_record_def)
    then have "slice (encode_record g) (8 + length (gr_sources g) * 4) (8 + length (gr_sources g) * 4 + length (gr_aux g)) =
        Ok (gr_aux g)" by (metis slice_suffix)
    then show ?thesis
      by (simp only: igmp_record_auxiliary_data_def record_fields obind.simps Let_def n a encode_record_length) simp
  qed
  then show ?thesis
    using assms s by (auto simp: read_record_def record_fields group_record_ok_def)
qed

lemma record_loop_found:
  assumes "\<forall>g \<in> set gs. group_record_ok g"
  shows "record_loop (a @ concat (List.map encode_record gs) @ rest) (length a) (length gs) acc =
    Ok (Some (acc @ List.map encode_record gs))"
  using assms
proof (induction gs arbitrary: a acc)
  case (Cons g gs)
  let ?t = "concat (List.map encode_record gs) @ rest"
  let ?b = "a @ encode_record g @ ?t"
  have ok: "group_record_ok g" using Cons.prems by simp
  then have size: "8 + unat (of_nat (length (gr_aux g) div 4) :: u8) * 4 +
      unat (of_nat (length (gr_sources g)) :: u16) * 4 = length (encode_record g)"
    by (auto simp: group_record_ok_def unat_of_nat_u16 unat_of_nat_u8 encode_record_length)
  have "record_loop ?b (length a + length (encode_record g)) (length gs) (acc @ [encode_record g]) =
      Ok (Some (acc @ encode_record g # List.map encode_record gs))"
    using Cons.IH [of "a @ encode_record g" "acc @ [encode_record g]"] Cons.prems by simp
  moreover have "slice ?b (length a) (length ?b) = Ok (encode_record g @ ?t)"
    "slice ?b (length a) (length a + length (encode_record g)) = Ok (encode_record g)"
    by (simp_all add: slice_def)
  moreover have "igmp_record_new (encode_record g @ r) = Ok (encode_record g @ r)" for r
    by (simp add: igmp_record_new_def encode_record_length)
  moreover have "igmp_record_new (encode_record g) = Ok (encode_record g)"
    by (simp add: igmp_record_new_def encode_record_length)
  ultimately show ?case
    using size by (simp add: encode_record_fields Let_def add.assoc) (simp add: encode_record_def)
qed simp

text \<open>Every report that announces as many records as it holds, whatever follows them, yields exactly these
  records, and every record its fields.\<close>

lemma igmp_records_found:
  assumes "\<forall>g \<in> set gs. group_record_ok g" and "gs \<noteq> []" and "length gs < 65536" and "length h = 6"
  shows "\<exists>rs. igmp_report_group_records (h @ u16_to_be (of_nat (length gs)) @ concat (List.map encode_record gs) @ rest) =
      Ok (Some rs) \<and> List.map read_record rs = List.map Ok gs"
proof -
  let ?n = "of_nat (length gs) :: u16"
  let ?b = "h @ u16_to_be ?n @ concat (List.map encode_record gs) @ rest"
  have n: "unat ?n = length gs" using assms(3) by (rule unat_of_nat_u16)
  then have "?n \<noteq> 0" using assms(2) by (metis length_0_conv unat_0)
  moreover have "igmp_report_record_number ?b = Ok ?n"
    using assms(4) get_u16_append [of h 6 ?n] by (simp add: igmp_report_record_number_def)
  moreover have "record_loop ?b 8 (length gs) [] = Ok (Some (List.map encode_record gs))"
    using record_loop_found [OF assms(1), of "h @ u16_to_be ?n" rest "[]"] assms(4) by simp
  ultimately have "igmp_report_group_records ?b = Ok (Some (List.map encode_record gs))"
    using n by (simp add: igmp_report_group_records_def)
  then show ?thesis using assms(1) read_record_encode by auto
qed

end
