(* ===== verification/Link_Packets.thy ===== *)
theory Link_Packets
  imports Vnt_Prelude
begin

text \<open>
  The link layer of the packet library: \<open>ArpPacket\<close> (\<open>vnt/packet/src/arp/arp.rs\<close>, 28 octets, Ethernet and
  IPv4 addresses) and \<open>EthernetPacket\<close> with its protocol codes (\<open>ethernet/packet.rs\<close>,
  \<open>ethernet/protocol.rs\<close>). A packet is its buffer. The constructors of the codes carry the prefix \<open>Eth\<close>.

  The theorems give every field its place: the setters together write exactly the message that the
  getters read, over any buffer that \<open>new\<close> accepts.
\<close>

section \<open>Ethernet\<close>

datatype ether_protocol =
    EthIpv4 | EthArp | EthWakeOnLan | EthTrill | EthDecNet | EthRarp | EthAppleTalk | EthAarp |
    EthIpx | EthQnx | EthIpv6 | EthFlowControl | EthCobraNet | EthMpls | EthMplsMulticast |
    EthPppoeDiscovery | EthPppoeSession | EthVlan | EthPBridge | EthLldp | EthPtp | EthCfm |
    EthQinQ | EthUnknown u16

definition ether_protocol_from :: "u16 \<Rightarrow> ether_protocol" where
  "ether_protocol_from value =
     (if value = 0x800 then EthIpv4
      else if value = 0x806 then EthArp
      else if value = 0x842 then EthWakeOnLan
      else if value = 0x22f3 then EthTrill
      else if value = 0x6003 then EthDecNet
      else if value = 0x8035 then EthRarp
      else if value = 0x809b then EthAppleTalk
      else if value = 0x80f3 then EthAarp
      else if value = 0x8137 then EthIpx
      else if value = 0x8204 then EthQnx
      else if value = 0x86dd then EthIpv6
      else if value = 0x8808 then EthFlowControl
      else if value = 0x8819 then EthCobraNet
      else if value = 0x8847 then EthMpls
      else if value = 0x8848 then EthMplsMulticast
      else if value = 0x8863 then EthPppoeDiscovery
      else if value = 0x8864 then EthPppoeSession
      else if value = 0x8100 then EthVlan
      else if value = 0x88a8 then EthPBridge
      else if value = 0x88cc then EthLldp
      else if value = 0x88f7 then EthPtp
      else if value = 0x8902 then EthCfm
      else if value = 0x9100 then EthQinQ
      else EthUnknown value)"

primrec ether_protocol_into :: "ether_protocol \<Rightarrow> u16" where
  "ether_protocol_into EthIpv4 = 0x800"
| "ether_protocol_into EthArp = 0x806"
| "ether_protocol_into EthWakeOnLan = 0x842"
| "ether_protocol_into EthTrill = 0x22f3"
| "ether_protocol_into EthDecNet = 0x6003"
| "ether_protocol_into EthRarp = 0x8035"
| "ether_protocol_into EthAppleTalk = 0x809b"
| "ether_protocol_into EthAarp = 0x80f3"
| "ether_protocol_into EthIpx = 0x8137"
| "ether_protocol_into EthQnx = 0x8204"
| "ether_protocol_into EthIpv6 = 0x86dd"
| "ether_protocol_into EthFlowControl = 0x8808"
| "ether_protocol_into EthCobraNet = 0x8819"
| "ether_protocol_into EthMpls = 0x8847"
| "ether_protocol_into EthMplsMulticast = 0x8848"
| "ether_protocol_into EthPppoeDiscovery = 0x8863"
| "ether_protocol_into EthPppoeSession = 0x8864"
| "ether_protocol_into EthVlan = 0x8100"
| "ether_protocol_into EthPBridge = 0x88a8"
| "ether_protocol_into EthLldp = 0x88cc"
| "ether_protocol_into EthPtp = 0x88f7"
| "ether_protocol_into EthCfm = 0x8902"
| "ether_protocol_into EthQinQ = 0x9100"
| "ether_protocol_into (EthUnknown v) = v"

interpretation ether_protocol: wire_enum ether_protocol_from ether_protocol_into
  by unfold_locales (simp add: ether_protocol_from_def)

definition ethernet_new :: "bytes \<Rightarrow> bytes outcome" where
  "ethernet_new buffer = (if length buffer < 14 then Err (IoError InvalidData) else Ok buffer)"

definition ethernet_destination :: "bytes \<Rightarrow> bytes outcome" where
  "ethernet_destination b = slice b 0 6"

definition ethernet_source :: "bytes \<Rightarrow> bytes outcome" where
  "ethernet_source b = slice b 6 12"

definition ethernet_protocol :: "bytes \<Rightarrow> ether_protocol outcome" where
  "ethernet_protocol b = omap ether_protocol_from (get_u16 12 b)"

definition ethernet_payload :: "bytes \<Rightarrow> bytes outcome" where
  "ethernet_payload b = slice b 14 (length b)"

definition ethernet_set_destination :: "bytes \<Rightarrow> bytes \<Rightarrow> bytes outcome" where
  "ethernet_set_destination value = put_slice 0 6 value"

definition ethernet_set_source :: "bytes \<Rightarrow> bytes \<Rightarrow> bytes outcome" where
  "ethernet_set_source value = put_slice 6 12 value"

definition ethernet_set_protocol :: "ether_protocol \<Rightarrow> bytes \<Rightarrow> bytes outcome" where
  "ethernet_set_protocol value = set_u16 12 (ether_protocol_into value)"

text \<open>A write \<open>f\<close> through \<open>payload_mut()\<close>.\<close>

definition ethernet_payload_mut :: "(bytes \<Rightarrow> bytes outcome) \<Rightarrow> bytes \<Rightarrow> bytes outcome" where
  "ethernet_payload_mut f b = obind (ethernet_payload b) (\<lambda>p. omap (\<lambda>q. take 14 b @ q) (f p))"

section \<open>ARP\<close>

definition arp_new :: "bytes \<Rightarrow> bytes outcome" where
  "arp_new buffer = (if length buffer \<noteq> 28 then Err (IoError InvalidData) else Ok buffer)"

definition arp_hardware_type :: "bytes \<Rightarrow> u16 outcome" where
  "arp_hardware_type b = get_u16 0 b"

definition arp_protocol_type :: "bytes \<Rightarrow> u16 outcome" where
  "arp_protocol_type b = get_u16 2 b"

definition arp_hardware_size :: "bytes \<Rightarrow> u8 outcome" where
  "arp_hardware_size b = byte_at b 4"

definition arp_protocol_size :: "bytes \<Rightarrow> u8 outcome" where
  "arp_protocol_size b = byte_at b 5"

definition arp_op_code :: "bytes \<Rightarrow> u16 outcome" where
  "arp_op_code b = get_u16 6 b"

definition arp_sender_hardware_addr :: "bytes \<Rightarrow> bytes outcome" where
  "arp_sender_hardware_addr b = slice b 8 14"

definition arp_sender_protocol_addr :: "bytes \<Rightarrow> bytes outcome" where
  "arp_sender_protocol_addr b = slice b 14 18"

definition arp_target_hardware_addr :: "bytes \<Rightarrow> bytes outcome" where
  "arp_target_hardware_addr b = slice b 18 24"

definition arp_target_protocol_addr :: "bytes \<Rightarrow> bytes outcome" where
  "arp_target_protocol_addr b = slice b 24 28"

definition arp_set_hardware_type :: "u16 \<Rightarrow> bytes \<Rightarrow> bytes outcome" where
  "arp_set_hardware_type value = set_u16 0 value"

definition arp_set_protocol_type :: "u16 \<Rightarrow> bytes \<Rightarrow> bytes outcome" where
  "arp_set_protocol_type value = set_u16 2 value"

definition arp_set_hardware_size :: "u8 \<Rightarrow> bytes \<Rightarrow> bytes outcome" where
  "arp_set_hardware_size value = put_byte 4 value"

definition arp_set_protocol_size :: "u8 \<Rightarrow> bytes \<Rightarrow> bytes outcome" where
  "arp_set_protocol_size value = put_byte 5 value"

definition arp_set_op_code :: "u16 \<Rightarrow> bytes \<Rightarrow> bytes outcome" where
  "arp_set_op_code value = set_u16 6 value"

definition arp_set_sender_hardware_addr :: "bytes \<Rightarrow> bytes \<Rightarrow> bytes outcome" where
  "arp_set_sender_hardware_addr buf = put_slice 8 14 buf"

definition arp_set_sender_protocol_addr :: "bytes \<Rightarrow> bytes \<Rightarrow> bytes outcome" where
  "arp_set_sender_protocol_addr buf = put_slice 14 18 buf"

definition arp_set_target_hardware_addr :: "bytes \<Rightarrow> bytes \<Rightarrow> bytes outcome" where
  "arp_set_target_hardware_addr buf = put_slice 18 24 buf"

definition arp_set_target_protocol_addr :: "bytes \<Rightarrow> bytes \<Rightarrow> bytes outcome" where
  "arp_set_target_protocol_addr buf = put_slice 24 28 buf"

section \<open>Fields and octets\<close>

lemma ethernet_write_read:
  assumes "ethernet_new b = Ok b" and "length dst = 6" and "length src = 6"
  shows "\<exists>b'. oseq [ethernet_set_destination dst, ethernet_set_source src, ethernet_set_protocol t] b = Ok b' \<and>
    b' = dst @ src @ u16_to_be (ether_protocol_into t) @ drop 14 b \<and>
    ethernet_destination b' = Ok dst \<and> ethernet_source b' = Ok src \<and>
    ethernet_protocol b' = Ok (ether_protocol_from (ether_protocol_into t)) \<and> ethernet_payload b' = Ok (drop 14 b)"
  using assms
  by (auto simp: ethernet_new_def ethernet_set_destination_def ethernet_set_source_def ethernet_set_protocol_def
      ethernet_destination_def ethernet_source_def ethernet_protocol_def ethernet_payload_def put_slice_def slice_def
      set_u16_def get_u16_def u16_to_be_def split: if_splits)

text \<open>What \<open>new\<close> accepts, no accessor panics on.\<close>

lemma ethernet_total:
  assumes "ethernet_new b = Ok b"
  shows "ethernet_destination b \<noteq> Panic" "ethernet_source b \<noteq> Panic" "ethernet_protocol b \<noteq> Panic" "ethernet_payload b \<noteq> Panic"
  using assms by (auto simp: ethernet_new_def ethernet_destination_def ethernet_source_def ethernet_protocol_def
      ethernet_payload_def slice_def get_u16_def split: if_splits)

record arp_message =
  am_hardware_type :: u16
  am_protocol_type :: u16
  am_hardware_size :: u8
  am_protocol_size :: u8
  am_op_code :: u16
  am_sender_hardware :: bytes
  am_sender_protocol :: bytes
  am_target_hardware :: bytes
  am_target_protocol :: bytes

definition arp_message_ok :: "arp_message \<Rightarrow> bool" where
  "arp_message_ok m \<longleftrightarrow> length (am_sender_hardware m) = 6 \<and> length (am_sender_protocol m) = 4 \<and>
     length (am_target_hardware m) = 6 \<and> length (am_target_protocol m) = 4"

definition arp_octets :: "arp_message \<Rightarrow> bytes" where
  "arp_octets m = u16_to_be (am_hardware_type m) @ u16_to_be (am_protocol_type m) @
     [am_hardware_size m, am_protocol_size m] @ u16_to_be (am_op_code m) @ am_sender_hardware m @
     am_sender_protocol m @ am_target_hardware m @ am_target_protocol m"

definition arp_write :: "arp_message \<Rightarrow> (bytes \<Rightarrow> bytes outcome) list" where
  "arp_write m = [arp_set_hardware_type (am_hardware_type m), arp_set_protocol_type (am_protocol_type m),
     arp_set_hardware_size (am_hardware_size m), arp_set_protocol_size (am_protocol_size m),
     arp_set_op_code (am_op_code m), arp_set_sender_hardware_addr (am_sender_hardware m),
     arp_set_sender_protocol_addr (am_sender_protocol m), arp_set_target_hardware_addr (am_target_hardware m),
     arp_set_target_protocol_addr (am_target_protocol m)]"

definition arp_read :: "bytes \<Rightarrow> arp_message outcome" where
  "arp_read b = obind (arp_hardware_type b) (\<lambda>ht. obind (arp_protocol_type b) (\<lambda>pt.
     obind (arp_hardware_size b) (\<lambda>hs. obind (arp_protocol_size b) (\<lambda>ps. obind (arp_op_code b) (\<lambda>oc.
     obind (arp_sender_hardware_addr b) (\<lambda>sh. obind (arp_sender_protocol_addr b) (\<lambda>sp.
     obind (arp_target_hardware_addr b) (\<lambda>th. obind (arp_target_protocol_addr b) (\<lambda>tp.
       Ok (arp_message.make ht pt hs ps oc sh sp th tp))))))))))"

lemma arp_read_octets: "arp_message_ok m \<Longrightarrow> arp_read (arp_octets m) = Ok m"
  by (auto simp: arp_read_def arp_octets_def arp_message_ok_def arp_message.make_def arp_hardware_type_def
      arp_protocol_type_def arp_hardware_size_def arp_protocol_size_def arp_op_code_def arp_sender_hardware_addr_def
      arp_sender_protocol_addr_def arp_target_hardware_addr_def arp_target_protocol_addr_def slice_def get_u16_def
      byte_at_def u16_to_be_def)

text \<open>A run of writes, each where the last one ended, lays its pieces down one after the other.\<close>

fun put_pieces :: "nat \<Rightarrow> bytes list \<Rightarrow> (bytes \<Rightarrow> bytes outcome) list" where
  "put_pieces i [] = []"
| "put_pieces i (s # ss) = put_slice i (i + length s) s # put_pieces (i + length s) ss"

lemma put_pieces_run:
  "length (concat ss) \<le> length q \<Longrightarrow>
   oseq (put_pieces (length p) ss) (p @ q) = Ok (p @ concat ss @ drop (length (concat ss)) q)"
proof (induction ss arbitrary: p q)
  case (Cons s ss)
  have "oseq (put_pieces (length (p @ s)) ss) ((p @ s) @ drop (length s) q) =
      Ok ((p @ s) @ concat ss @ drop (length (concat ss)) (drop (length s) q))"
    using Cons.prems by (intro Cons.IH) simp
  then show ?case using Cons.prems by (simp add: put_slice_def add.commute)
qed simp

lemma put_byte_slice: "put_byte i v = put_slice i (Suc i) [v]"
  by (simp add: fun_eq_iff put_byte_def put_slice_def upd_conv_take_nth_drop)

lemma arp_write_octets:
  assumes "arp_new b = Ok b" and "arp_message_ok m"
  shows "oseq (arp_write m) b = Ok (arp_octets m)"
proof -
  let ?ss = "[u16_to_be (am_hardware_type m), u16_to_be (am_protocol_type m), [am_hardware_size m],
      [am_protocol_size m], u16_to_be (am_op_code m), am_sender_hardware m, am_sender_protocol m,
      am_target_hardware m, am_target_protocol m]"
  have l: "length (am_sender_hardware m) = 6" "length (am_sender_protocol m) = 4" "length (am_target_hardware m) = 6"
    "length (am_target_protocol m) = 4" and b: "length b = 28"
    using assms by (simp_all add: arp_new_def arp_message_ok_def split: if_splits)
  have "arp_write m = put_pieces 0 ?ss"
    by (simp add: arp_write_def l arp_set_hardware_type_def arp_set_protocol_type_def arp_set_hardware_size_def
        arp_set_protocol_size_def arp_set_op_code_def arp_set_sender_hardware_addr_def arp_set_sender_protocol_addr_def
        arp_set_target_hardware_addr_def arp_set_target_protocol_addr_def set_u16_def put_byte_slice fun_eq_iff eval_nat_numeral)
  moreover have "concat ?ss = arp_octets m" by (simp add: arp_octets_def)
  moreover have "length (concat ?ss) = 28" by (simp add: l)
  ultimately show ?thesis using put_pieces_run [of ?ss b "[]"] b by simp
qed

text \<open>What is written with the setters is read with the getters.\<close>

lemma arp_write_read:
  "arp_new b = Ok b \<Longrightarrow> arp_message_ok m \<Longrightarrow> \<exists>b'. oseq (arp_write m) b = Ok b' \<and> arp_new b' = Ok b' \<and> arp_read b' = Ok m"
  using arp_write_octets [of b m] arp_read_octets [of m]
  by (auto simp: arp_new_def arp_octets_def arp_message_ok_def)

end
