(* ===== verification/Node_Queries.thy ===== *)
theory Node_Queries
  imports Vnt_Core Stop_Manager
begin

text \<open>
  What a program asks of a running node: \<open>VntInner\<close> of \<open>vnt/src/core/conn.rs\<close>. The shared cells are fields of
  one record, read when the question is asked; \<open>vi_context\<close> is gone once the node was stopped, and \<open>vi_hooks\<close>
  are the hooks that were run. \<open>order\<close> is the order in which the hash map of the routes yields its keys.
\<close>

record vnt_inner =
  vi_stop_manager :: stop_manager
  vi_config :: config
  vi_current_device :: current_device_info
  vi_nat_info :: nat_info
  vi_devices :: "(ipv4_addr \<times> peer_device_info) list"
  vi_context :: "channel_context option"
  vi_peer_nat_info :: "ipv4_addr \<Rightarrow> nat_info option"
  vi_client_secret_hash :: "bytes option"
  vi_up_meter :: "multi_meter option"
  vi_down_meter :: "multi_meter option"
  vi_hooks :: "hook_info list"

definition vi_name :: "vnt_inner \<Rightarrow> string" where
  "vi_name v = cf_name (vi_config v)"

definition vi_server_encrypt :: "vnt_inner \<Rightarrow> bool" where
  "vi_server_encrypt v = cf_server_encrypt (vi_config v)"

definition vi_client_encrypt :: "vnt_inner \<Rightarrow> bool" where
  "vi_client_encrypt v \<longleftrightarrow> cf_password (vi_config v) \<noteq> None"

definition vi_connection_status :: "vnt_inner \<Rightarrow> connect_status" where
  "vi_connection_status v = cd_status (vi_current_device v)"

definition vi_device_list :: "vnt_inner \<Rightarrow> peer_device_info list" where
  "vi_device_list v = map snd (vi_devices v)"

definition vi_route :: "ipv4_addr \<Rightarrow> vnt_inner \<Rightarrow> route option" where
  "vi_route ip v = Option.bind (vi_context v) (\<lambda>c. rt_route_one ip (cc_route_table c))"

definition vi_is_gateway :: "ipv4_addr \<Rightarrow> vnt_inner \<Rightarrow> bool" where
  "vi_is_gateway ip v = cd_is_gateway ip (vi_current_device v)"

definition vi_route_key :: "ipv4_addr list \<Rightarrow> route_key \<Rightarrow> vnt_inner \<Rightarrow> ipv4_addr option" where
  "vi_route_key order key v = Option.bind (vi_context v) (\<lambda>c. rt_route_to_id order key (cc_route_table c))"

definition vi_route_table :: "ipv4_addr list \<Rightarrow> vnt_inner \<Rightarrow> (ipv4_addr \<times> route list) list" where
  "vi_route_table order v = (case vi_context v of Some c \<Rightarrow> rt_all order (cc_route_table c) | None \<Rightarrow> [])"

definition meter_total :: "multi_meter option \<Rightarrow> u64" where
  "meter_total m = (case m of Some x \<Rightarrow> mm_total x | None \<Rightarrow> 0)"

definition vi_up_stream :: "vnt_inner \<Rightarrow> u64" where
  "vi_up_stream v = meter_total (vi_up_meter v)"

definition vi_up_stream_all :: "vnt_inner \<Rightarrow> (u64 \<times> (ipv4_addr \<Rightarrow> u64 option)) option" where
  "vi_up_stream_all v = map_option mm_get_all (vi_up_meter v)"

text \<open>\<open>get_all_history\<close>: the total, and of every address its total and its history.\<close>

definition mm_get_all_history :: "multi_meter \<Rightarrow> u64 \<times> (ipv4_addr \<Rightarrow> (u64 \<times> u64 list) option)" where
  "mm_get_all_history m = (mm_total m, \<lambda>ip. mm_get_history ip m)"

definition vi_up_stream_history :: "vnt_inner \<Rightarrow> (u64 \<times> (ipv4_addr \<Rightarrow> (u64 \<times> u64 list) option)) option" where
  "vi_up_stream_history v = map_option mm_get_all_history (vi_up_meter v)"

definition vi_down_stream :: "vnt_inner \<Rightarrow> u64" where
  "vi_down_stream v = meter_total (vi_down_meter v)"

definition vi_down_stream_all :: "vnt_inner \<Rightarrow> (u64 \<times> (ipv4_addr \<Rightarrow> u64 option)) option" where
  "vi_down_stream_all v = map_option mm_get_all (vi_down_meter v)"

definition vi_down_stream_history :: "vnt_inner \<Rightarrow> (u64 \<times> (ipv4_addr \<Rightarrow> (u64 \<times> u64 list) option)) option" where
  "vi_down_stream_history v = map_option mm_get_all_history (vi_down_meter v)"

definition vi_stop :: "vnt_inner \<Rightarrow> vnt_inner" where
  "vi_stop v = v\<lparr>vi_hooks := vi_hooks v @ (case vnt_stop_hook (vi_config v) (vi_current_device v) of Some h \<Rightarrow> [h] | None \<Rightarrow> []),
     vi_context := None, vi_stop_manager := sm_stop (vi_stop_manager v)\<rparr>"

definition vi_is_stopped :: "vnt_inner \<Rightarrow> bool" where
  "vi_is_stopped v = sm_is_stopped (vi_stop_manager v)"

text \<open>The view of a node that was just made from its configuration.\<close>

definition vi_of_node :: "config \<Rightarrow> bytes option \<Rightarrow> node \<Rightarrow> vnt_inner" where
  "vi_of_node c hash n =
     \<lparr>vi_stop_manager = sm_new, vi_config = c, vi_current_device = nd_current n, vi_nat_info = nt_info (nd_nat n),
      vi_devices = nd_devices n, vi_context = Some (nd_ctx n), vi_peer_nat_info = nd_peer_nat n,
      vi_client_secret_hash = hash, vi_up_meter = cc_up_meter (nd_ctx n), vi_down_meter = cc_down_meter (nd_ctx n),
      vi_hooks = []\<rparr>"

section \<open>A stopped node\<close>

text \<open>After a stop a node has no routes, and a second stop (that of \<open>drop\<close>) runs the hook again.\<close>

lemma vi_stopped_routes:
  "vi_route ip (vi_stop v) = None" "vi_route_key order key (vi_stop v) = None" "vi_route_table order (vi_stop v) = []"
  by (simp_all add: vi_stop_def vi_route_def vi_route_key_def vi_route_table_def)

lemma vi_stop_twice:
  "vnt_stop_hook (vi_config v) (vi_current_device v) = Some h \<Longrightarrow> vi_hooks (vi_stop (vi_stop v)) = vi_hooks v @ [h, h]"
  by (simp add: vi_stop_def)

end
