(* ===== verification/Configuration.thy ===== *)
theory Configuration
  imports Vnt_Core
begin

text \<open>
  Where a configuration comes from: the options of the command line (\<open>common/src/cli.rs\<close>) and the
  configuration file (\<open>common/src/config/\<close>), with the identifier of the device (\<open>common/src/identifier.rs\<close>).
  \<open>getopts\<close> and the YAML parser are parameters: an option either is absent or has a text (\<open>opt_str\<close>), a flag is
  present or not, a file is read and parsed or not. The environment holds what the system answers and the
  parameters of \<open>Config::new\<close>; \<open>ce_loss\<close> parses a loss rate. The features are those of \<open>vnt-cli\<close>. What is
  printed, and of the error texts all but the fixed part, is left out.
\<close>

section \<open>Environment\<close>

record cli_env =
  ce_dns :: dns_env
  ce_bind :: "bool \<Rightarrow> bool"
  ce_connects :: "socket_addr \<Rightarrow> bool"
  ce_history :: "socket_addr \<Rightarrow> nat option"
  ce_is_ipv6 :: "string \<Rightarrow> bool"
  ce_interface :: "string \<Rightarrow> ipv4_addr option"
  ce_loss :: "string \<Rightarrow> u32 option"
  ce_hostname :: "string option"
  ce_dmidecode :: "string option"
  ce_machine_id :: "string option"
  ce_home :: bool
  ce_stored_id :: "string option"
  ce_uuid :: string

text \<open>The identifier of a Linux machine, and the identifier of the device, which is stored when it has to be made up.\<close>

definition get_unique_identifier :: "cli_env \<Rightarrow> string option" where
  "get_unique_identifier E =
     (let ident = (\<lambda>t. case t of None \<Rightarrow> None | Some s \<Rightarrow> if str_trim s = [] then None else Some (str_trim s)) in
      case ident (ce_dmidecode E) of Some i \<Rightarrow> Some i | None \<Rightarrow> ident (ce_machine_id E))"

definition get_device_id :: "cli_env \<Rightarrow> string" where
  "get_device_id E = (case get_unique_identifier E of
       Some i \<Rightarrow> i
     | None \<Rightarrow> if ce_home E then (case ce_stored_id E of Some i \<Rightarrow> i | None \<Rightarrow> ce_uuid E) else [])"

definition host_name :: "cli_env \<Rightarrow> string" where
  "host_name E = (case ce_hostname E of Some h \<Rightarrow> h | None \<Rightarrow> ''UnknownName'')"

definition PUB_STUN :: "string list" where
  "PUB_STUN = [''stun.miwifi.com'', ''stun.chat.bilibili.com'', ''stun.hitv.com'', ''stun.cdnbye.com'']"

definition DEFAULT_SERVER :: string where
  "DEFAULT_SERVER = ''vnt.wherewego.top:29872''"

definition make_config :: "cli_env \<Rightarrow> config \<Rightarrow> string list \<Rightarrow> string option \<Rightarrow> config outcome" where
  "make_config E = config_new (ce_dns E) (ce_bind E) (ce_connects E) (ce_history E) (ce_is_ipv6 E) (ce_interface E)"

definition some_or :: "vnt_error \<Rightarrow> 'a option \<Rightarrow> 'a outcome" where
  "some_or e v = (case v of Some x \<Rightarrow> Ok x | None \<Rightarrow> Err e)"

definition unwrap_some :: "'a option \<Rightarrow> 'a outcome" where
  "unwrap_some v = (case v of Some x \<Rightarrow> Ok x | None \<Rightarrow> Panic)"

text \<open>An option that is parsed when it is given: \<open>opt_get\<close>, with what happens to a text that does not parse.\<close>

definition opt_parsed :: "('b option \<Rightarrow> 'b outcome) \<Rightarrow> ('a \<Rightarrow> 'b option) \<Rightarrow> 'a option \<Rightarrow> 'b option outcome" where
  "opt_parsed fails parse v = (case v of None \<Rightarrow> Ok None | Some s \<Rightarrow> omap Some (fails (parse s)))"

section \<open>The configuration file\<close>

record file_config =
  fc_token :: string
  fc_device_id :: string
  fc_name :: string
  fc_server_address :: string
  fc_stun_server :: "string list"
  fc_dns :: "string list"
  fc_in_ips :: "string list"
  fc_out_ips :: "string list"
  fc_password :: "string option"
  fc_mtu :: "u32 option"
  fc_tcp :: bool
  fc_ip :: "string option"
  fc_use_channel :: string
  fc_no_proxy :: bool
  fc_server_encrypt :: bool
  fc_cipher_model :: "string option"
  fc_finger :: bool
  fc_punch_model :: string
  fc_ports :: "u16 list option"
  fc_cmd :: bool
  fc_first_latency :: bool
  fc_device_name :: "string option"
  fc_packet_loss :: "u32 option"
  fc_packet_delay :: u32
  fc_mapping :: "string list"
  fc_compressor :: "string option"
  fc_vnt_mapping :: "string list"
  fc_disable_stats :: bool
  fc_allow_wire_guard :: bool
  fc_local_dev :: "string option"
  fc_disable_relay :: bool
  fc_hook :: "string option"

definition file_config_default :: "cli_env \<Rightarrow> file_config" where
  "file_config_default E =
     \<lparr>fc_token = [], fc_device_id = get_device_id E, fc_name = host_name E, fc_server_address = DEFAULT_SERVER,
      fc_stun_server = PUB_STUN, fc_dns = [], fc_in_ips = [], fc_out_ips = [], fc_password = None, fc_mtu = None,
      fc_tcp = False, fc_ip = None, fc_use_channel = ''all'', fc_no_proxy = False, fc_server_encrypt = False,
      fc_cipher_model = None, fc_finger = False, fc_punch_model = ''all'', fc_ports = None, fc_cmd = False,
      fc_first_latency = False, fc_device_name = None, fc_packet_loss = None, fc_packet_delay = 0, fc_mapping = [],
      fc_compressor = None, fc_vnt_mapping = [], fc_disable_stats = False, fc_allow_wire_guard = False,
      fc_local_dev = None, fc_disable_relay = False, fc_hook = None\<rparr>"

text \<open>\<open>read_config\<close> on the parsed file.\<close>

definition file_config_config :: "cli_env \<Rightarrow> file_config \<Rightarrow> (config \<times> string list \<times> bool) outcome" where
  "file_config_config E f =
     (if fc_token f = [] then Err (AnyError ''token is_empty'')
      else obind (ips_parse (fc_in_ips f)) (\<lambda>in_ips.
      obind (out_ips_parse (fc_out_ips f)) (\<lambda>out_ips.
      obind (opt_parsed (some_or (AnyError ''ip'')) parse_ipv4 (fc_ip f)) (\<lambda>virtual_ip.
      obind (opt_parsed (some_or (AnyError ''cipher_model'')) cipher_model_from_str (fc_cipher_model f)) (\<lambda>model.
      obind (some_or (AnyError ''punch_model'') (punch_model_from_str (fc_punch_model f))) (\<lambda>punch_model.
      obind (some_or (AnyError ''use_channel'') (use_channel_type_from_str (fc_use_channel f))) (\<lambda>channel.
      obind (opt_parsed (some_or (AnyError ''compressor'')) compressor_from_str (fc_compressor f)) (\<lambda>compressor.
      obind (make_config E
        \<lparr>cf_token = fc_token f, cf_device_id = fc_device_id f, cf_name = fc_name f, cf_server_address = SockV4 0 0,
         cf_server_address_str = fc_server_address f, cf_name_servers = fc_dns f, cf_stun_server = fc_stun_server f,
         cf_in_ips = in_ips, cf_out_ips = out_ips, cf_password = fc_password f, cf_mtu = fc_mtu f, cf_protocol = UDP,
         cf_ip = virtual_ip, cf_no_proxy = fc_no_proxy f, cf_server_encrypt = fc_server_encrypt f,
         cf_cipher_model = (case model of Some m \<Rightarrow> m | None \<Rightarrow> MAesGcm), cf_finger = fc_finger f,
         cf_punch_model = punch_model, cf_ports = fc_ports f, cf_first_latency = fc_first_latency f,
         cf_device_name = fc_device_name f, cf_use_channel_type = channel, cf_packet_loss_rate = fc_packet_loss f,
         cf_packet_delay = fc_packet_delay f, cf_port_mapping_list = [],
         cf_compressor = (case compressor of Some c \<Rightarrow> c | None \<Rightarrow> NoCompression),
         cf_enable_traffic = (\<not> fc_disable_stats f), cf_allow_wire_guard = fc_allow_wire_guard f, cf_local_ipv4 = None,
         cf_disable_relay = fc_disable_relay f, cf_hook = fc_hook f\<rparr> (fc_mapping f) (fc_local_dev f)) (\<lambda>config.
      Ok (config, fc_vnt_mapping f, fc_cmd f))))))))))"

definition read_config :: "cli_env \<Rightarrow> (string \<Rightarrow> string option) \<Rightarrow> (string \<Rightarrow> file_config option) \<Rightarrow> string \<Rightarrow>
    (config \<times> string list \<times> bool) outcome" where
  "read_config E read_file yaml path = obind (some_or (IoError NotFound) (read_file path)) (\<lambda>conf.
     obind (some_or (AnyError ''serde_yaml::from_str'') (yaml conf)) (file_config_config E))"

section \<open>The command line\<close>

record matches =
  mt_present :: "string \<Rightarrow> bool"
  mt_str :: "string \<Rightarrow> string option"
  mt_strs :: "string \<Rightarrow> string list"

datatype command_enum = CmdRoute | CmdList | CmdAll | CmdInfo | CmdChartA | CmdChartB string | CmdStop

text \<open>What \<open>parse_args_config\<close> does: print the usage, run one command, or start a node.\<close>

datatype cli_action = CliUsage | CliCommand command_enum | CliStart "config \<times> string list \<times> bool"

definition cli_ip_invalid :: "ipv4_addr \<Rightarrow> bool" where
  "cli_ip_invalid a \<longleftrightarrow> is_unspecified a \<or> is_broadcast a \<or> is_multicast a"

definition cli_ports :: "string \<Rightarrow> u16 list" where
  "cli_ports v = List.map (\<lambda>x. case parse_unsigned 65536 x of Some p \<Rightarrow> of_nat p | None \<Rightarrow> 0) (split_on CHR '','' v)"

definition parse_u32 :: "string \<Rightarrow> u32 option" where
  "parse_u32 s = map_option of_nat (parse_unsigned (2 ^ 32) s)"

text \<open>The branch without a configuration file.\<close>

definition cli_config :: "cli_env \<Rightarrow> matches \<Rightarrow> (config \<times> string list \<times> bool) outcome" where
  "cli_config E m =
     (if \<not> mt_present m ''k'' then Err (AnyError ''parameter -k not found .'')
      else obind (unwrap_some (mt_str m ''k'')) (\<lambda>token.
      let given = (case mt_str m ''d'' of Some d \<Rightarrow> d | None \<Rightarrow> []);
          device_id = (if given = [] then get_device_id E else given) in
      if device_id = [] then Err (AnyError ''parameter -d not found .'')
      else
      let name = (case mt_str m ''n'' of Some n \<Rightarrow> n | None \<Rightarrow> host_name E);
          server = (case mt_str m ''s'' of Some s \<Rightarrow> s | None \<Rightarrow> DEFAULT_SERVER);
          stun = (if mt_strs m ''e'' = [] then PUB_STUN else mt_strs m ''e'') in
      case ips_parse (mt_strs m ''i'') of Panic \<Rightarrow> Panic | Err _ \<Rightarrow> Err (AnyError ''example: -i 192.168.0.0/24,10.26.0.3'') | Ok in_ips \<Rightarrow>
      case out_ips_parse (mt_strs m ''o'') of Panic \<Rightarrow> Panic | Err _ \<Rightarrow> Err (AnyError ''example: -o 0.0.0.0/0'') | Ok out_ips \<Rightarrow>
      obind (opt_parsed (some_or (AnyError ''-u'')) parse_u32 (mt_str m ''u'')) (\<lambda>mtu.
      obind (opt_parsed unwrap_some parse_ipv4 (mt_str m ''ip'')) (\<lambda>virtual_ip.
      if (\<exists>ip \<in> set_option virtual_ip. cli_ip_invalid ip) then Err (AnyError ''--ip invalid'')
      else
      obind (opt_parsed (some_or (AnyError ''--model invalid'')) cipher_model_from_str (mt_str m ''model'')) (\<lambda>model.
      obind (opt_parsed unwrap_some punch_model_from_str (mt_str m ''punch'')) (\<lambda>punch_model.
      obind (opt_parsed unwrap_some use_channel_type_from_str (mt_str m ''use-channel'')) (\<lambda>channel.
      obind (opt_parsed unwrap_some (ce_loss E) (mt_str m ''packet-loss'')) (\<lambda>packet_loss.
      obind (opt_parsed unwrap_some parse_u32 (mt_str m ''packet-delay'')) (\<lambda>packet_delay.
      obind (opt_parsed unwrap_some compressor_from_str (mt_str m ''compressor'')) (\<lambda>compressor.
      obind (make_config E
        \<lparr>cf_token = token, cf_device_id = device_id, cf_name = name, cf_server_address = SockV4 0 0,
         cf_server_address_str = server, cf_name_servers = mt_strs m ''dns'', cf_stun_server = stun,
         cf_in_ips = in_ips, cf_out_ips = out_ips, cf_password = mt_str m ''w'', cf_mtu = mtu, cf_protocol = UDP,
         cf_ip = virtual_ip, cf_no_proxy = mt_present m ''no-proxy'', cf_server_encrypt = mt_present m ''W'',
         cf_cipher_model = (case model of Some x \<Rightarrow> x | None \<Rightarrow> MAesGcm), cf_finger = mt_present m ''finger'',
         cf_punch_model = (case punch_model of Some x \<Rightarrow> x | None \<Rightarrow> PmAll),
         cf_ports = map_option cli_ports (mt_str m ''ports''), cf_first_latency = mt_present m ''first-latency'',
         cf_device_name = mt_str m ''nic'',
         cf_use_channel_type = (case channel of Some x \<Rightarrow> x | None \<Rightarrow> if mt_present m ''relay'' then Relay else All),
         cf_packet_loss_rate = packet_loss, cf_packet_delay = (case packet_delay of Some x \<Rightarrow> x | None \<Rightarrow> 0),
         cf_port_mapping_list = [], cf_compressor = (case compressor of Some c \<Rightarrow> c | None \<Rightarrow> NoCompression),
         cf_enable_traffic = (\<not> mt_present m ''disable-stats''), cf_allow_wire_guard = mt_present m ''allow-wg'',
         cf_local_ipv4 = None, cf_disable_relay = mt_present m ''disable-relay'', cf_hook = mt_str m ''hook''\<rparr>
        (mt_strs m ''mapping'') (mt_str m ''local-dev'')) (\<lambda>config.
      Ok (config, mt_strs m ''vnt-mapping'', mt_present m ''cmd''))))))))))))"

definition parse_args_config :: "cli_env \<Rightarrow> (string list \<Rightarrow> matches option) \<Rightarrow> (string \<Rightarrow> string option) \<Rightarrow>
    (string \<Rightarrow> file_config option) \<Rightarrow> string list \<Rightarrow> cli_action outcome" where
  "parse_args_config E getopts read_file yaml args = (case args of [] \<Rightarrow> Panic | program # rest \<Rightarrow>
     (case getopts rest of None \<Rightarrow> Err (AnyError ''getopts'') | Some m \<Rightarrow>
        if mt_present m ''h'' \<or> rest = [] then Ok CliUsage
        else if mt_present m ''list'' then Ok (CliCommand CmdList)
        else if mt_present m ''info'' then Ok (CliCommand CmdInfo)
        else if mt_present m ''stop'' then Ok (CliCommand CmdStop)
        else if mt_present m ''route'' then Ok (CliCommand CmdRoute)
        else if mt_present m ''all'' then Ok (CliCommand CmdAll)
        else if mt_present m ''chart_a'' then Ok (CliCommand CmdChartA)
        else case mt_str m ''chart_b'' of Some v \<Rightarrow> Ok (CliCommand (CmdChartB v)) | None \<Rightarrow>
          omap CliStart (case mt_str m ''f'' of
              Some path \<Rightarrow> (case read_config E read_file yaml path of
                  Ok r \<Rightarrow> Ok r | Err _ \<Rightarrow> Err (AnyError ''conf err'') | Panic \<Rightarrow> Panic)
            | None \<Rightarrow> cli_config E m)))"

section \<open>The two ways agree\<close>

text \<open>The options that say what a configuration file says; \<open>loss\<close> writes a loss rate.\<close>

definition options_of :: "(u32 \<Rightarrow> string) \<Rightarrow> file_config \<Rightarrow> matches" where
  "options_of loss f = \<lparr>
     mt_present = (\<lambda>opt. if opt = ''k'' then True
       else if opt = ''no-proxy'' then fc_no_proxy f
       else if opt = ''W'' then fc_server_encrypt f
       else if opt = ''finger'' then fc_finger f
       else if opt = ''first-latency'' then fc_first_latency f
       else if opt = ''disable-stats'' then fc_disable_stats f
       else if opt = ''allow-wg'' then fc_allow_wire_guard f
       else if opt = ''disable-relay'' then fc_disable_relay f
       else if opt = ''cmd'' then fc_cmd f else False),
     mt_str = (\<lambda>opt. if opt = ''k'' then Some (fc_token f)
       else if opt = ''d'' then Some (fc_device_id f)
       else if opt = ''n'' then Some (fc_name f)
       else if opt = ''s'' then Some (fc_server_address f)
       else if opt = ''u'' then map_option (show_nat \<circ> unat) (fc_mtu f)
       else if opt = ''ip'' then fc_ip f
       else if opt = ''w'' then fc_password f
       else if opt = ''model'' then fc_cipher_model f
       else if opt = ''punch'' then Some (fc_punch_model f)
       else if opt = ''use-channel'' then Some (fc_use_channel f)
       else if opt = ''packet-loss'' then map_option loss (fc_packet_loss f)
       else if opt = ''packet-delay'' then Some (show_nat (unat (fc_packet_delay f)))
       else if opt = ''compressor'' then fc_compressor f
       else if opt = ''ports'' then map_option (\<lambda>ps. join_with CHR '','' (List.map (show_nat \<circ> unat) ps)) (fc_ports f)
       else if opt = ''nic'' then fc_device_name f
       else if opt = ''local-dev'' then fc_local_dev f
       else if opt = ''hook'' then fc_hook f else None),
     mt_strs = (\<lambda>opt. if opt = ''e'' then fc_stun_server f
       else if opt = ''i'' then fc_in_ips f
       else if opt = ''o'' then fc_out_ips f
       else if opt = ''dns'' then fc_dns f
       else if opt = ''mapping'' then fc_mapping f
       else if opt = ''vnt-mapping'' then fc_vnt_mapping f else [])\<rparr>"

text \<open>A file that says nothing the command line cannot say: it has a token, a device identifier and a STUN server
  (without which the options fall back to others), no empty list of ports, and a loss rate that can be written.\<close>

definition sayable :: "cli_env \<Rightarrow> (u32 \<Rightarrow> string) \<Rightarrow> file_config \<Rightarrow> bool" where
  "sayable E loss f \<longleftrightarrow> fc_token f \<noteq> [] \<and> fc_device_id f \<noteq> [] \<and> fc_stun_server f \<noteq> [] \<and> fc_ports f \<noteq> Some [] \<and>
     (\<forall>r \<in> set_option (fc_packet_loss f). ce_loss E (loss r) = Some r)"

text \<open>Whether a text that is given parses.\<close>

definition parses :: "('a \<Rightarrow> 'b option) \<Rightarrow> 'a option \<Rightarrow> bool" where
  "parses p v \<longleftrightarrow> (case v of None \<Rightarrow> True | Some t \<Rightarrow> p t \<noteq> None)"

definition nets_parse :: "file_config \<Rightarrow> bool" where
  "nets_parse f \<longleftrightarrow> is_ok (ips_parse (fc_in_ips f)) \<and> is_ok (out_ips_parse (fc_out_ips f))"

text \<open>The texts that the command line unwraps after the address.\<close>

definition modes_parse :: "file_config \<Rightarrow> bool" where
  "modes_parse f \<longleftrightarrow> punch_model_from_str (fc_punch_model f) \<noteq> None \<and> use_channel_type_from_str (fc_use_channel f) \<noteq> None \<and>
     parses compressor_from_str (fc_compressor f)"

definition texts_parse :: "file_config \<Rightarrow> bool" where
  "texts_parse f \<longleftrightarrow> nets_parse f \<and> parses parse_ipv4 (fc_ip f) \<and> parses cipher_model_from_str (fc_cipher_model f) \<and> modes_parse f"

definition refused :: "'a outcome \<Rightarrow> bool" where
  "refused r \<longleftrightarrow> (\<exists>e. r = Err e)"

text \<open>A virtual address that parses and that the command line refuses.\<close>

definition ip_refused :: "file_config \<Rightarrow> bool" where
  "ip_refused f \<longleftrightarrow> (case Option.bind (fc_ip f) parse_ipv4 of Some a \<Rightarrow> cli_ip_invalid a | None \<Rightarrow> False)"

lemma parse_u32_show [simp]: "parse_u32 (show_nat (unat w)) = Some w"
  using parse_unsigned_show [of "unat w" "2 ^ 32"] unat_u32_less [of w] by (simp add: parse_u32_def)

lemma parse_unsigned_port [simp]: "parse_unsigned 65536 (show_nat (unat (p :: u16))) = Some (unat p)"
  using parse_unsigned_show [of "unat p" 65536] unat_u16_less [of p] by simp

lemma split_join:
  "ss \<noteq> [] \<Longrightarrow> (\<And>s. s \<in> set ss \<Longrightarrow> c \<notin> set s) \<Longrightarrow> split_on c (join_with c ss) = ss"
  by (induction c ss rule: join_with.induct) (simp_all add: split_on_no_sep split_on_join)

lemma cli_ports_show:
  assumes "ps \<noteq> []"
  shows "cli_ports (join_with CHR '','' (List.map (show_nat \<circ> unat) ps)) = ps"
proof -
  have "CHR '','' \<notin> set (show_nat n)" for n by (rule show_nat_free) (simp add: digit_value_def)
  then have "split_on CHR '','' (join_with CHR '','' (List.map (show_nat \<circ> unat) ps)) = List.map (show_nat \<circ> unat) ps"
    using assms by (intro split_join) auto
  then show ?thesis by (simp add: cli_ports_def comp_def)
qed

text \<open>The texts of optional values that parse.\<close>

definition parsed :: "('a \<Rightarrow> 'b option) \<Rightarrow> 'a option \<Rightarrow> 'b option \<Rightarrow> bool" where
  "parsed p v r \<longleftrightarrow> (case v of None \<Rightarrow> r = None | Some t \<Rightarrow> p t \<noteq> None \<and> r = p t)"

lemma opt_parsed_parsed:
  "parsed p v r \<Longrightarrow> opt_parsed unwrap_some p v = Ok r" "parsed p v r \<Longrightarrow> opt_parsed (some_or e) p v = Ok r"
  by (auto simp: parsed_def opt_parsed_def unwrap_some_def some_or_def split: option.splits)

lemma opt_parsed_Some: "opt_parsed fails p (Some t) = omap Some (fails (p t))"
  by (simp add: opt_parsed_def)

lemma parsed_mtu: "parsed parse_u32 (map_option (show_nat \<circ> unat) v) v"
  by (cases v) (auto simp: parsed_def)

lemma traverse_no_panic: "(\<And>x. f x \<noteq> Panic) \<Longrightarrow> traverse f xs \<noteq> Panic"
proof (induction xs)
  case (Cons x xs)
  then show ?case using Cons.prems [of x] by (cases "f x"; cases "traverse f xs") simp_all
qed simp

lemma net_parse_no_panic: "net_parse x \<noteq> Panic"
  by (auto simp: net_parse_def to_ip_def obind_def split: list.split option.split)

lemma nets_no_panic: "ips_parse xs \<noteq> Panic" "out_ips_parse ys \<noteq> Panic"
proof -
  have bind: "obind (net_parse y) g \<noteq> Panic" if "\<And>r. g r \<noteq> Panic" for y and g :: "u32 \<times> u32 \<Rightarrow> (u32 \<times> u32 \<times> ipv4_addr) outcome"
    using net_parse_no_panic [of y] that by (cases "net_parse y") simp_all
  have "in_ip_parse x \<noteq> Panic" for x
    unfolding in_ip_parse_def by (auto intro!: bind split: list.split option.split)
  then show "ips_parse xs \<noteq> Panic" "out_ips_parse ys \<noteq> Panic"
    unfolding ips_parse_def out_ips_parse_def using net_parse_no_panic by (simp_all add: traverse_no_panic)
qed

text \<open>Both ways, on the file: what is parsed in which order, and what happens to a text that does not parse.\<close>

definition file_rest :: "cli_env \<Rightarrow> file_config \<Rightarrow> (u32 \<times> u32 \<times> ipv4_addr) list \<Rightarrow> (u32 \<times> u32) list \<Rightarrow> ipv4_addr option \<Rightarrow>
    cipher_model option \<Rightarrow> punch_model \<Rightarrow> use_channel_type \<Rightarrow> compressor option \<Rightarrow> (config \<times> string list \<times> bool) outcome" where
  "file_rest E f in_ips out_ips virtual_ip model punch_model channel compressor = obind (make_config E
        \<lparr>cf_token = fc_token f, cf_device_id = fc_device_id f, cf_name = fc_name f, cf_server_address = SockV4 0 0,
         cf_server_address_str = fc_server_address f, cf_name_servers = fc_dns f, cf_stun_server = fc_stun_server f,
         cf_in_ips = in_ips, cf_out_ips = out_ips, cf_password = fc_password f, cf_mtu = fc_mtu f, cf_protocol = UDP,
         cf_ip = virtual_ip, cf_no_proxy = fc_no_proxy f, cf_server_encrypt = fc_server_encrypt f,
         cf_cipher_model = (case model of Some m \<Rightarrow> m | None \<Rightarrow> MAesGcm), cf_finger = fc_finger f,
         cf_punch_model = punch_model, cf_ports = fc_ports f, cf_first_latency = fc_first_latency f,
         cf_device_name = fc_device_name f, cf_use_channel_type = channel, cf_packet_loss_rate = fc_packet_loss f,
         cf_packet_delay = fc_packet_delay f, cf_port_mapping_list = [],
         cf_compressor = (case compressor of Some c \<Rightarrow> c | None \<Rightarrow> NoCompression),
         cf_enable_traffic = (\<not> fc_disable_stats f), cf_allow_wire_guard = fc_allow_wire_guard f, cf_local_ipv4 = None,
         cf_disable_relay = fc_disable_relay f, cf_hook = fc_hook f\<rparr> (fc_mapping f) (fc_local_dev f)) (\<lambda>config.
      Ok (config, fc_vnt_mapping f, fc_cmd f))"

lemma file_config_steps:
  assumes "fc_token f \<noteq> []" and "ips_parse (fc_in_ips f) = Ok in_ips" and "out_ips_parse (fc_out_ips f) = Ok out_ips"
  shows "file_config_config E f =
    obind (opt_parsed (some_or (AnyError ''ip'')) parse_ipv4 (fc_ip f)) (\<lambda>virtual_ip.
    obind (opt_parsed (some_or (AnyError ''cipher_model'')) cipher_model_from_str (fc_cipher_model f)) (\<lambda>model.
    obind (some_or (AnyError ''punch_model'') (punch_model_from_str (fc_punch_model f))) (\<lambda>punch_model.
    obind (some_or (AnyError ''use_channel'') (use_channel_type_from_str (fc_use_channel f))) (\<lambda>channel.
    obind (opt_parsed (some_or (AnyError ''compressor'')) compressor_from_str (fc_compressor f)) (\<lambda>compressor.
    file_rest E f in_ips out_ips virtual_ip model punch_model channel compressor)))))"
  using assms by (simp add: file_config_config_def file_rest_def)

lemma options_fields:
  "mt_str (options_of loss f) ''k'' = Some (fc_token f)"
  "mt_str (options_of loss f) ''d'' = Some (fc_device_id f)"
  "mt_str (options_of loss f) ''n'' = Some (fc_name f)"
  "mt_str (options_of loss f) ''s'' = Some (fc_server_address f)"
  "mt_str (options_of loss f) ''u'' = map_option (show_nat \<circ> unat) (fc_mtu f)"
  "mt_str (options_of loss f) ''ip'' = fc_ip f"
  "mt_str (options_of loss f) ''w'' = fc_password f"
  "mt_str (options_of loss f) ''model'' = fc_cipher_model f"
  "mt_str (options_of loss f) ''punch'' = Some (fc_punch_model f)"
  "mt_str (options_of loss f) ''use-channel'' = Some (fc_use_channel f)"
  "mt_str (options_of loss f) ''packet-loss'' = map_option loss (fc_packet_loss f)"
  "mt_str (options_of loss f) ''packet-delay'' = Some (show_nat (unat (fc_packet_delay f)))"
  "mt_str (options_of loss f) ''compressor'' = fc_compressor f"
  "mt_str (options_of loss f) ''ports'' = map_option (\<lambda>ps. join_with CHR '','' (List.map (show_nat \<circ> unat) ps)) (fc_ports f)"
  "mt_str (options_of loss f) ''nic'' = fc_device_name f"
  "mt_str (options_of loss f) ''local-dev'' = fc_local_dev f"
  "mt_str (options_of loss f) ''hook'' = fc_hook f"
  "mt_present (options_of loss f) ''k'' = True"
  "mt_present (options_of loss f) ''no-proxy'' = fc_no_proxy f"
  "mt_present (options_of loss f) ''W'' = fc_server_encrypt f"
  "mt_present (options_of loss f) ''finger'' = fc_finger f"
  "mt_present (options_of loss f) ''first-latency'' = fc_first_latency f"
  "mt_present (options_of loss f) ''disable-stats'' = fc_disable_stats f"
  "mt_present (options_of loss f) ''allow-wg'' = fc_allow_wire_guard f"
  "mt_present (options_of loss f) ''disable-relay'' = fc_disable_relay f"
  "mt_present (options_of loss f) ''cmd'' = fc_cmd f"
  "mt_strs (options_of loss f) ''e'' = fc_stun_server f"
  "mt_strs (options_of loss f) ''i'' = fc_in_ips f"
  "mt_strs (options_of loss f) ''o'' = fc_out_ips f"
  "mt_strs (options_of loss f) ''dns'' = fc_dns f"
  "mt_strs (options_of loss f) ''mapping'' = fc_mapping f"
  "mt_strs (options_of loss f) ''vnt-mapping'' = fc_vnt_mapping f"
  by (simp_all add: options_of_def)

lemma cli_config_steps:
  assumes "sayable E loss f" and "ips_parse (fc_in_ips f) = Ok in_ips" and "out_ips_parse (fc_out_ips f) = Ok out_ips"
  shows "cli_config E (options_of loss f) =
    obind (opt_parsed unwrap_some parse_ipv4 (fc_ip f)) (\<lambda>virtual_ip.
    if (\<exists>ip \<in> set_option virtual_ip. cli_ip_invalid ip) then Err (AnyError ''--ip invalid'')
    else
    obind (opt_parsed (some_or (AnyError ''--model invalid'')) cipher_model_from_str (fc_cipher_model f)) (\<lambda>model.
    obind (unwrap_some (punch_model_from_str (fc_punch_model f))) (\<lambda>punch_model.
    obind (unwrap_some (use_channel_type_from_str (fc_use_channel f))) (\<lambda>channel.
    obind (opt_parsed unwrap_some compressor_from_str (fc_compressor f)) (\<lambda>compressor.
    file_rest E f in_ips out_ips virtual_ip model punch_model channel compressor)))))"
proof -
  note say = assms(1) [unfolded sayable_def]
  have loss: "parsed (ce_loss E) (map_option loss (fc_packet_loss f)) (fc_packet_loss f)"
    using say by (cases "fc_packet_loss f") (auto simp: parsed_def)
  have delay: "parsed parse_u32 (Some (show_nat (unat (fc_packet_delay f)))) (Some (fc_packet_delay f))"
    by (simp add: parsed_def)
  have ports: "map_option cli_ports (map_option (\<lambda>ps. join_with CHR '','' (List.map (show_nat \<circ> unat) ps)) (fc_ports f)) = fc_ports f"
    using say by (cases "fc_ports f") (auto simp: cli_ports_show [simplified comp_def] comp_def)
  have omap: "obind (omap Some x) g = obind x (\<lambda>y. g (Some y))" for x :: "'x outcome" and g :: "'x option \<Rightarrow> 'y outcome"
    by (cases x) simp_all
  have "fc_device_id f \<noteq> []" "fc_stun_server f \<noteq> []" using say by simp_all
  then show ?thesis
    by (simp only: cli_config_def file_rest_def options_fields assms(2,3) opt_parsed_parsed [OF loss]
      opt_parsed_parsed [OF parsed_mtu] opt_parsed_parsed [OF delay] opt_parsed_Some omap ports parse_u32_show unwrap_some_def [of "Some _"]
      obind.simps outcome.case option.case Let_def if_False if_True not_True_eq_False)
qed

lemma bad_nets:
  assumes "sayable E loss f" and "\<not> nets_parse f"
  shows "refused (file_config_config E f) \<and> refused (cli_config E (options_of loss f))"
proof -
  have set: "fc_token f \<noteq> []" "fc_device_id f \<noteq> []" using assms(1) by (simp_all add: sayable_def)
  consider e where "ips_parse (fc_in_ips f) = Err e"
    | x e where "ips_parse (fc_in_ips f) = Ok x" "out_ips_parse (fc_out_ips f) = Err e"
    using assms(2) nets_no_panic(1) [of "fc_in_ips f"] nets_no_panic(2) [of "fc_out_ips f"]
    by (cases "ips_parse (fc_in_ips f)"; cases "out_ips_parse (fc_out_ips f)") (simp_all add: nets_parse_def)
  then show ?thesis
    by cases (simp_all only: set cli_config_def file_config_config_def options_fields unwrap_some_def [of "Some _"]
      refused_def obind.simps outcome.case option.case Let_def if_False if_True not_True_eq_False outcome.inject ex_simps
      simp_thms)
qed

text \<open>C24: A configuration file against the options that say the same (for every file that has a token, a device
  identifier and a STUN server, no empty list of ports, and a loss rate that can be written). Where
  every text of it parses, both lead to the same configuration, mappings and choice of the prompt,
  or to the same error, but for one thing: an unspecified, broadcast or multicast virtual address
  is refused by the command line only. Where some text does not parse, the file is refused with an
  error; the options are too, or make the program panic. It panics exactly when the subnets parse
  and then the address does not, or, the address not being a refused one and the cipher parsing,
  the punch mode, the channel or the compression does not.\<close>

theorem options_file_agree:
  assumes "sayable E loss f"
  shows "(texts_parse f \<and> \<not> ip_refused f \<longrightarrow> cli_config E (options_of loss f) = file_config_config E f) \<and>
    (texts_parse f \<and> ip_refused f \<longrightarrow> cli_config E (options_of loss f) = Err (AnyError ''--ip invalid'')) \<and>
    (\<not> texts_parse f \<longrightarrow> refused (file_config_config E f) \<and>
       (if nets_parse f \<and> (\<not> parses parse_ipv4 (fc_ip f) \<or>
          \<not> ip_refused f \<and> parses cipher_model_from_str (fc_cipher_model f) \<and> \<not> modes_parse f)
        then cli_config E (options_of loss f) = Panic else refused (cli_config E (options_of loss f))))"
proof (cases "nets_parse f")
  case False
  then show ?thesis using bad_nets [OF assms False] by (simp add: texts_parse_def)
next
  case True
  then obtain in_ips out_ips where ips: "ips_parse (fc_in_ips f) = Ok in_ips" "out_ips_parse (fc_out_ips f) = Ok out_ips"
    by (auto simp: nets_parse_def is_ok_def split: outcome.splits)
  have token: "fc_token f \<noteq> []" using assms by (simp add: sayable_def)
  note steps = cli_config_steps [OF assms ips] file_config_steps [OF token ips]
  show ?thesis
    unfolding steps using True
    by (cases "fc_ip f"; cases "fc_cipher_model f"; cases "punch_model_from_str (fc_punch_model f)";
        cases "use_channel_type_from_str (fc_use_channel f)"; cases "fc_compressor f")
      (auto simp: texts_parse_def modes_parse_def parses_def ip_refused_def opt_parsed_def unwrap_some_def some_or_def
        refused_def omap_def split: option.splits)
qed

text \<open>A file with a subnet, a fixed address, two ports and a size of packets; the server is not found.\<close>

definition sample_cli_env :: cli_env where
  "sample_cli_env = \<lparr>ce_dns = \<lparr>de_addr = \<lambda>_. None, de_lookup = \<lambda>_. None, de_http = \<lambda>_. HttpFailed, de_open = \<lambda>_. False,
       de_attempt = \<lambda>_ _ _ _. SendFailed\<rparr>, ce_bind = \<lambda>_. True, ce_connects = \<lambda>_. True, ce_history = Map.empty,
     ce_is_ipv6 = \<lambda>_. False, ce_interface = \<lambda>_. None, ce_loss = \<lambda>_. None, ce_hostname = Some ''node'',
     ce_dmidecode = None, ce_machine_id = Some ''id'', ce_home = True, ce_stored_id = None, ce_uuid = ''uuid''\<rparr>"

definition sample_file :: file_config where
  "sample_file = (file_config_default sample_cli_env)\<lparr>fc_token := ''net'', fc_in_ips := [''192.168.0.0/24,10.26.0.3''],
     fc_mtu := Some 1400, fc_ip := Some ''10.26.0.2'', fc_ports := Some [29872, 0], fc_cipher_model := Some ''xor'',
     fc_compressor := Some ''lz4''\<rparr>"

lemma sample_file_ips: "is_ok (ips_parse [''192.168.0.0/24,10.26.0.3''])"
proof -
  have "show_in_ip (0xC0A80000, 24, 0x0A1A0003) = ''192.168.0.0/24,10.26.0.3''" by code_simp
  then show ?thesis using in_ip_parse_show [of 24 "0xC0A80000" "0x0A1A0003"] by (simp add: ips_parse_def)
qed

lemma sample_file_ip: "parse_ipv4 ''10.26.0.2'' = Some 0x0A1A0002" "parse_ipv4 ''10.26.0'' = None"
  "parse_ipv4 ''255.255.255.255'' = Some 0xFFFFFFFF"
proof -
  have "show_ipv4 0xFFFFFFFF = ''255.255.255.255''" by code_simp
  then show "parse_ipv4 ''255.255.255.255'' = Some 0xFFFFFFFF" by (metis parse_show_ipv4)
  have "show_ipv4 0x0A1A0002 = ''10.26.0.2''" by code_simp
  then show "parse_ipv4 ''10.26.0.2'' = Some 0x0A1A0002" by (metis parse_show_ipv4)
  show "parse_ipv4 ''10.26.0'' = None" by (auto simp: parse_ipv4_def split: option.splits)
qed

lemma sample_file_texts:
  "punch_model_from_str ''all'' = Some PmAll" "use_channel_type_from_str ''all'' = Some All"
  "cipher_model_from_str ''xor'' = Some MXor" "compressor_from_str ''lz4'' = Some Lz4" "str_trim ''id'' = ''id''"
  by (simp_all add: punch_model_from_str_def use_channel_type_from_str_def cipher_model_from_str_def
      compressor_from_str_def str_trim_def ascii_space_def ascii_lower_def)

lemma sample_file_sayable: "sayable sample_cli_env (\<lambda>_. []) (sample_file\<lparr>fc_ip := t, fc_compressor := c\<rparr>)"
  by (simp add: sayable_def sample_file_def sample_cli_env_def file_config_default_def get_device_id_def
      get_unique_identifier_def sample_file_texts PUB_STUN_def)

lemma sample_file_rest:
  "nets_parse (sample_file\<lparr>fc_ip := t, fc_compressor := c\<rparr>)"
  "parses cipher_model_from_str (fc_cipher_model (sample_file\<lparr>fc_ip := t, fc_compressor := c\<rparr>))"
  "modes_parse (sample_file\<lparr>fc_ip := t, fc_compressor := c\<rparr>) \<longleftrightarrow> parses compressor_from_str c"
  by (simp_all add: sample_file_def file_config_default_def nets_parse_def modes_parse_def parses_def sample_file_texts
      sample_file_ips out_ips_parse_def)

text \<open>The file as it is, with a broken address, with the broadcast address, and with an unknown compression.\<close>

lemma options_file_agree_witness:
  "(let f = sample_file\<lparr>fc_ip := Some ''10.26.0.2'', fc_compressor := Some ''lz4''\<rparr> in
     cli_config sample_cli_env (options_of (\<lambda>_. []) f) = file_config_config sample_cli_env f) \<and>
   (let f = sample_file\<lparr>fc_ip := Some ''10.26.0'', fc_compressor := Some ''lz4''\<rparr> in
     cli_config sample_cli_env (options_of (\<lambda>_. []) f) = Panic \<and> refused (file_config_config sample_cli_env f)) \<and>
   (let f = sample_file\<lparr>fc_ip := Some ''255.255.255.255'', fc_compressor := Some ''lz4''\<rparr> in
     cli_config sample_cli_env (options_of (\<lambda>_. []) f) = Err (AnyError ''--ip invalid'')) \<and>
   (let f = sample_file\<lparr>fc_ip := Some ''10.26.0.2'', fc_compressor := Some ''zip''\<rparr> in
     cli_config sample_cli_env (options_of (\<lambda>_. []) f) = Panic \<and> refused (file_config_config sample_cli_env f))"
proof -
  have "\<not> cli_ip_invalid 0x0A1A0002" "cli_ip_invalid 0xFFFFFFFF"
    by (simp_all add: cli_ip_invalid_def is_unspecified_def is_broadcast_def is_multicast_def BROADCAST_def)
  moreover have "compressor_from_str ''zip'' = None"
    by (simp add: compressor_from_str_def str_trim_def ascii_space_def ascii_lower_def)
  ultimately show ?thesis
    using options_file_agree [OF sample_file_sayable] sample_file_rest sample_file_ip sample_file_texts
    by (simp add: Let_def texts_parse_def ip_refused_def) (simp add: parses_def)
qed

end
