(* ===== verification/Commands.thy ===== *)
theory Commands
  imports Node_Queries Configuration "HOL-Library.Sublist"
begin

text \<open>
  The commands by which a user looks at a running node (\<open>common/src/command/\<close>): what \<open>mod.rs\<close> collects,
  the console (\<open>command_str\<close>), the local UDP server (\<open>server.rs\<close>) and its client (\<open>client.rs\<close>). Texts are
  octets; \<open>yaml\<close> is the serializer, and what the console prints is left out but for its content. \<open>order\<close>
  is as in \<open>Node_Queries\<close>.

  The theorems: every command of the client reaches the operation it is named after; which addresses a
  traffic query can answer, and that it can answer for another address than the one asked for; and a command
  that stops the server.
\<close>

section \<open>What is shown\<close>

record info_item =
  if_name :: string
  if_virtual_ip :: string
  if_virtual_gateway :: string
  if_virtual_netmask :: string
  if_connect_status :: string
  if_relay_server :: string
  if_nat_type :: string
  if_public_ips :: string
  if_local_addr :: string
  if_ipv6_addr :: string
  if_port_mapping_list :: "(bool \<times> socket_addr \<times> string) list"
  if_in_ips :: "(u32 \<times> u32 \<times> ipv4_addr) list"
  if_out_ips :: "(u32 \<times> u32) list"
  if_udp_listen_addr :: "string list"
  if_tcp_listen_addr :: string

record route_item =
  ro_destination :: string
  ro_next_hop :: string
  ro_metric :: string
  ro_rt :: string
  ro_interface :: string

record device_item =
  di_name :: string
  di_virtual_ip :: string
  di_nat_type :: string
  di_public_ips :: string
  di_local_ip :: string
  di_ipv6 :: string
  di_nat_traversal_type :: string
  di_rt :: string
  di_status :: string
  di_client_secret :: bool
  di_client_secret_hash :: bytes
  di_current_client_secret :: bool
  di_current_client_secret_hash :: bytes
  di_wire_guard :: bool

record chart_a =
  ca_disable_stats :: bool
  ca_up_total :: u64
  ca_down_total :: u64
  ca_up_map :: "ipv4_addr \<Rightarrow> u64 option"
  ca_down_map :: "ipv4_addr \<Rightarrow> u64 option"

record chart_b =
  cb_disable_stats :: bool
  cb_ip :: "ipv4_addr option"
  cb_up_total :: u64
  cb_up_list :: "u64 list"
  cb_down_total :: u64
  cb_down_list :: "u64 list"

definition chart_a_default :: chart_a where
  "chart_a_default = \<lparr>ca_disable_stats = False, ca_up_total = 0, ca_down_total = 0, ca_up_map = Map.empty, ca_down_map = Map.empty\<rparr>"

definition chart_b_default :: chart_b where
  "chart_b_default = \<lparr>cb_disable_stats = False, cb_ip = None, cb_up_total = 0, cb_up_list = [], cb_down_total = 0, cb_down_list = []\<rparr>"

section \<open>Collecting it\<close>

definition show_rt :: "int \<Rightarrow> string" where
  "show_rt rt = (if rt < 0 then [] else show_int rt)"

definition command_route :: "ipv4_addr list \<Rightarrow> vnt_inner \<Rightarrow> route_item list" where
  "command_route order v = concat (map (\<lambda>(destination, routes). map (\<lambda>r.
       \<lparr>ro_destination = show_ipv4 destination,
        ro_next_hop = (case vi_route_key order (route_key_of r) v of None \<Rightarrow> [] | Some ip \<Rightarrow> show_ipv4 ip),
        ro_metric = show_nat (unat (rt_metric r)), ro_rt = show_rt (rt_rt r),
        ro_interface = (case rt_protocol r of UDP \<Rightarrow> show_socket (rt_addr r) | TCP \<Rightarrow> ''tcp@'' @ show_socket (rt_addr r)
          | _ \<Rightarrow> cf_server_address_str (vi_config v))\<rparr>) routes) (vi_route_table order v))"

definition show_nat_type :: "nat_type \<Rightarrow> string" where
  "show_nat_type t = (case t of Symmetric \<Rightarrow> ''Symmetric'' | Cone \<Rightarrow> ''Cone'')"

definition show_or_none :: "('a \<Rightarrow> string) \<Rightarrow> 'a option \<Rightarrow> string" where
  "show_or_none f v = (case v of None \<Rightarrow> ''None'' | Some x \<Rightarrow> f x)"

definition show_ips :: "ipv4_addr list \<Rightarrow> string" where
  "show_ips ips = join_with CHR '','' (map show_ipv4 ips)"

text \<open>How a peer is reached, and the latency of that route.\<close>

definition traversal :: "ipv4_addr list \<Rightarrow> vnt_inner \<Rightarrow> ipv4_addr \<Rightarrow> string \<times> string" where
  "traversal order v ip = (case vi_route ip v of
       None \<Rightarrow> (''relay'', [])
     | Some r \<Rightarrow>
        (if rt_metric r = 1 then (if is_base_tcp (rt_protocol r) then ''tcp-p2p'' else ''p2p'')
         else (case vi_route_key order (route_key_of r) v of
             Some next_hop \<Rightarrow> if cd_is_gateway next_hop (vi_current_device v) then ''server-relay'' else ''client-relay''
           | None \<Rightarrow> ''server-relay''),
         show_rt (rt_rt r)))"

definition command_list :: "ipv4_addr list \<Rightarrow> vnt_inner \<Rightarrow> device_item list" where
  "command_list order v = map (\<lambda>peer.
     let nat = vi_peer_nat_info v (pd_virtual_ip peer); (how, rt) = traversal order v (pd_virtual_ip peer);
         show = (\<lambda>f. case nat of None \<Rightarrow> [] | Some n \<Rightarrow> f n) in
     \<lparr>di_name = pd_name peer, di_virtual_ip = show_ipv4 (pd_virtual_ip peer),
      di_nat_type = show (show_nat_type \<circ> ni_nat_type), di_public_ips = show (show_ips \<circ> ni_public_ips),
      di_local_ip = show (show_or_none show_ipv4 \<circ> ni_local_ipv4), di_ipv6 = show (show_or_none show_ipv6 \<circ> ni_ipv6),
      di_nat_traversal_type = how, di_rt = rt,
      di_status = (case pd_status peer of Online \<Rightarrow> ''Online'' | Offline \<Rightarrow> ''Offline''),
      di_client_secret = pd_client_secret peer, di_client_secret_hash = pd_client_secret_hash peer,
      di_current_client_secret = vi_client_encrypt v,
      di_current_client_secret_hash = (case vi_client_secret_hash v of Some h \<Rightarrow> h | None \<Rightarrow> []),
      di_wire_guard = pd_wireguard peer\<rparr>) (vi_device_list v)"

definition command_info :: "vnt_inner \<Rightarrow> info_item" where
  "command_info v =
     (let dev = vi_current_device v; nat = vi_nat_info v; cfg = vi_config v in
      \<lparr>if_name = vi_name v, if_virtual_ip = show_ipv4 (cd_virtual_ip dev), if_virtual_gateway = show_ipv4 (cd_virtual_gateway dev),
       if_virtual_netmask = show_ipv4 (cd_virtual_netmask dev),
       if_connect_status = (case vi_connection_status v of Connecting \<Rightarrow> ''Connecting'' | Connected \<Rightarrow> ''Connected''),
       if_relay_server = (if sock_port (cd_connect_server dev) = 0 then cf_server_address_str cfg
         else show_socket (cd_connect_server dev)),
       if_nat_type = show_nat_type (ni_nat_type nat), if_public_ips = show_ips (ni_public_ips nat),
       if_local_addr = show_or_none show_ipv4 (ni_local_ipv4 nat), if_ipv6_addr = show_or_none show_ipv6 (ni_ipv6 nat),
       if_port_mapping_list = cf_port_mapping_list cfg, if_in_ips = cf_in_ips cfg, if_out_ips = cf_out_ips cfg,
       if_udp_listen_addr = map (\<lambda>port. ''0.0.0.0:'' @ show_nat (unat port)) (ni_udp_ports nat),
       if_tcp_listen_addr = ''0.0.0.0:'' @ show_nat (unat (ni_tcp_port nat))\<rparr>)"

definition all_or_none :: "(u64 \<times> ('k \<Rightarrow> 'v option)) option \<Rightarrow> u64 \<times> ('k \<Rightarrow> 'v option)" where
  "all_or_none m = (case m of Some x \<Rightarrow> x | None \<Rightarrow> (0, Map.empty))"

definition command_chart_a :: "vnt_inner \<Rightarrow> chart_a" where
  "command_chart_a v =
     (if \<not> cf_enable_traffic (vi_config v) then chart_a_default\<lparr>ca_disable_stats := True\<rparr>
      else let (up_total, up_map) = all_or_none (vi_up_stream_all v);
               (down_total, down_map) = all_or_none (vi_down_stream_all v) in
        \<lparr>ca_disable_stats = False, ca_up_total = up_total, ca_down_total = down_total, ca_up_map = up_map,
         ca_down_map = down_map\<rparr>)"

text \<open>The loop of \<open>match_from_end\<close> over the reversed texts. Both iterators are advanced before they are compared; when
  the address is used up, one octet of the input is gone already.\<close>

fun match_loop :: "string \<Rightarrow> string \<Rightarrow> bool" where
  "match_loop [] ip = True"
| "match_loop (ic # is) [] = (is = [])"
| "match_loop (ic # is) (pc # ps) = (if ic \<noteq> pc then False else match_loop is ps)"

definition match_from_end :: "string \<Rightarrow> string \<Rightarrow> bool" where
  "match_from_end input_str ip = match_loop (rev input_str) (rev ip)"

definition find_matching_ipv4_address :: "string \<Rightarrow> ipv4_addr list \<Rightarrow> ipv4_addr option" where
  "find_matching_ipv4_address input_str ips = find (\<lambda>ip. match_from_end input_str (show_ipv4 ip)) ips"

definition command_chart_b :: "vnt_inner \<Rightarrow> string \<Rightarrow> chart_b" where
  "command_chart_b v input_str =
     (if \<not> cf_enable_traffic (vi_config v) then chart_b_default\<lparr>cb_disable_stats := True\<rparr>
      else let up_map = snd (all_or_none (vi_up_stream_history v)); down_map = snd (all_or_none (vi_down_stream_history v));
               keys = sorted_list_of_set (dom up_map \<union> dom down_map) in
        case find_matching_ipv4_address input_str keys of
          Some ip \<Rightarrow> let (up_total, up_list) = (case up_map ip of Some x \<Rightarrow> x | None \<Rightarrow> (0, []));
                        (down_total, down_list) = (case down_map ip of Some x \<Rightarrow> x | None \<Rightarrow> (0, [])) in
            \<lparr>cb_disable_stats = False, cb_ip = Some ip, cb_up_total = up_total, cb_up_list = up_list,
             cb_down_total = down_total, cb_down_list = down_list\<rparr>
        | None \<Rightarrow> chart_b_default)"

section \<open>The commands\<close>

datatype command_reply =
    RouteReply "route_item list"
  | ListReply "device_item list"
  | InfoReply info_item
  | ChartAReply chart_a
  | ChartBReply chart_b
  | StoppedReply
  | NotFoundReply string

text \<open>\<open>&ip[1..]\<close> panics within a character.\<close>

definition str_from_1 :: "string \<Rightarrow> string outcome" where
  "str_from_1 s = (if s = [] then Panic
     else if 1 < length s \<and> 128 \<le> (of_char (s ! 1) :: nat) \<and> (of_char (s ! 1) :: nat) < 192 then Panic else Ok (tl s))"

definition chart_b_query :: "vnt_inner \<Rightarrow> string \<Rightarrow> chart_b outcome" where
  "chart_b_query v ip = (if ip = [] then Ok (command_chart_b v (show_ipv4 (cd_virtual_gateway (vi_current_device v))))
     else omap (command_chart_b v) (str_from_1 ip))"

text \<open>\<open>command\<close> of the server: its answer, and the node after it.\<close>

definition server_command :: "ipv4_addr list \<Rightarrow> string \<Rightarrow> (vnt_inner, command_reply) action" where
  "server_command order input v =
     (let cmd = str_trim input in
      if cmd = ''route'' then (Ok (RouteReply (command_route order v)), v)
      else if cmd = ''list'' then (Ok (ListReply (command_list order v)), v)
      else if cmd = ''info'' then (Ok (InfoReply (command_info v)), v)
      else if cmd = ''chart_a'' then (Ok (ChartAReply (command_chart_a v)), v)
      else if cmd = ''stop'' then (Ok StoppedReply, vi_stop v)
      else case strip_prefix ''chart_b'' cmd of
          Some ip \<Rightarrow> (omap ChartBReply (chart_b_query v ip), v)
        | None \<Rightarrow> (Ok (NotFoundReply cmd), v))"

text \<open>The loop of the server over the datagrams it receives, each cut to the buffer of 64 octets: the answers, and
  the node when the loop ends or no further datagram arrives. \<open>utf8\<close> is \<open>str::from_utf8\<close>.\<close>

fun server_loop :: "(bytes \<Rightarrow> string option) \<Rightarrow> ipv4_addr list \<Rightarrow> bytes list \<Rightarrow> (vnt_inner, command_reply list) action" where
  "server_loop utf8 order [] = sret []"
| "server_loop utf8 order (d # ds) = (case utf8 (take 64 d) of
       Some cmd \<Rightarrow> sbind (server_command order cmd) (\<lambda>out.
         if out = StoppedReply then sret [out]
         else sbind (server_loop utf8 order ds) (\<lambda>outs. sret (out # outs)))
     | None \<Rightarrow> server_loop utf8 order ds)"

text \<open>The console: whether it goes on, and what it prints.\<close>

definition command_str :: "ipv4_addr list \<Rightarrow> string \<Rightarrow> (vnt_inner, bool \<times> command_reply option) action" where
  "command_str order input v =
     (if input = [] then (Ok (False, None), v)
      else let cmd = str_trim (map ascii_lower input) in
      if cmd = ''list'' then (Ok (True, Some (ListReply (command_list order v))), v)
      else if cmd = ''info'' then (Ok (True, Some (InfoReply (command_info v))), v)
      else if cmd = ''route'' then (Ok (True, Some (RouteReply (command_route order v))), v)
      else if cmd = ''all'' then (Ok (True, Some (ListReply (command_list order v))), v)
      else if cmd = ''chart_a'' then (Ok (True, Some (ChartAReply (command_chart_a v))), v)
      else if cmd = ''stop'' then (Ok (False, None), vi_stop v)
      else case strip_prefix ''chart_b'' cmd of
          Some ip \<Rightarrow> (omap (\<lambda>c. (True, Some (ChartBReply c))) (chart_b_query v ip), v)
        | None \<Rightarrow> (Ok (True, None), v))"

text \<open>What the client sends for a command.\<close>

primrec client_request :: "command_enum \<Rightarrow> string" where
  "client_request CmdRoute = ''route''"
| "client_request CmdList = ''list''"
| "client_request CmdAll = ''list''"
| "client_request CmdInfo = ''info''"
| "client_request CmdChartA = ''chart_a''"
| "client_request (CmdChartB input) = (if input = [] then ''chart_b'' else ''chart_b:'' @ input)"
| "client_request CmdStop = ''stop''"

section \<open>From the client to the server\<close>

text \<open>What each command asks for. Of the text of a traffic query, the 56 characters count that the buffer of the
  server holds behind \<open>chart_b:\<close>, less the white space at their end.\<close>

definition trim_end :: "string \<Rightarrow> string" where
  "trim_end s = rev (dropWhile ascii_space (rev s))"

primrec reply_of :: "ipv4_addr list \<Rightarrow> vnt_inner \<Rightarrow> command_enum \<Rightarrow> command_reply" where
  "reply_of order v CmdRoute = RouteReply (command_route order v)"
| "reply_of order v CmdList = ListReply (command_list order v)"
| "reply_of order v CmdAll = ListReply (command_list order v)"
| "reply_of order v CmdInfo = InfoReply (command_info v)"
| "reply_of order v CmdChartA = ChartAReply (command_chart_a v)"
| "reply_of order v (CmdChartB input) = ChartBReply (command_chart_b v
     (if input = [] then show_ipv4 (cd_virtual_gateway (vi_current_device v)) else trim_end (take 56 input)))"
| "reply_of order v CmdStop = StoppedReply"

text \<open>The commands up to the one that stops the node, and the datagram of each; texts are ASCII.\<close>

fun until_stop :: "command_enum list \<Rightarrow> command_enum list" where
  "until_stop [] = []"
| "until_stop (c # cs) = (if c = CmdStop then [c] else c # until_stop cs)"

definition octets :: "string \<Rightarrow> bytes" where
  "octets s = map of_char s"

definition ascii :: "string \<Rightarrow> bool" where
  "ascii s \<longleftrightarrow> list_all (\<lambda>c. (of_char c :: nat) < 128) s"

definition reads_ascii :: "(bytes \<Rightarrow> string option) \<Rightarrow> bool" where
  "reads_ascii utf8 \<longleftrightarrow> (\<forall>s. ascii s \<longrightarrow> utf8 (octets s) = Some s)"

definition continuation :: "char \<Rightarrow> bool" where
  "continuation c \<longleftrightarrow> 128 \<le> (of_char c :: nat) \<and> (of_char c :: nat) < 192"

lemma str_trim_end:
  assumes "p \<noteq> []" and "\<not> ascii_space (hd p)" and "\<not> ascii_space (last p)"
  shows "str_trim (p @ s) = p @ trim_end s"
proof -
  have d: "t \<noteq> [] \<Longrightarrow> \<not> ascii_space (hd t) \<Longrightarrow> dropWhile ascii_space (t @ u) = t @ u" for t u by (cases t) simp_all
  have "dropWhile ascii_space (rev s @ rev p) = dropWhile ascii_space (rev s) @ rev p"
    using assms d [of "rev p" "[]"] by (cases "\<forall>c \<in> set s. ascii_space c") (auto simp: dropWhile_append hd_rev)
  then show ?thesis using assms d [of p s] by (simp add: str_trim_def trim_end_def)
qed

lemma trim_end_id: "s \<noteq> [] \<Longrightarrow> \<not> ascii_space (last s) \<Longrightarrow> trim_end s = s"
  by (cases s rule: rev_cases) (simp_all add: trim_end_def)

lemma ascii_trim_end: "ascii s \<Longrightarrow> ascii (trim_end s)"
  unfolding ascii_def trim_end_def list_all_iff using set_dropWhileD by (metis set_rev)

lemma ascii_take: "ascii s \<Longrightarrow> ascii (take n s)"
  unfolding ascii_def list_all_iff using in_set_takeD by metis

lemma str_from_1_ascii: "ascii s \<Longrightarrow> str_from_1 (c # s) = Ok s"
  by (cases s) (auto simp: str_from_1_def ascii_def)

lemma chart_b_command:
  "i \<noteq> [] \<Longrightarrow> \<not> ascii_space (hd i) \<Longrightarrow> server_command order (''chart_b'' @ i) v =
    (omap ChartBReply (omap (command_chart_b v) (str_from_1 (hd i # trim_end (tl i)))), v)"
proof -
  assume i: "i \<noteq> []" "\<not> ascii_space (hd i)"
  have "str_trim ((''chart_b'' @ [hd i]) @ tl i) = (''chart_b'' @ [hd i]) @ trim_end (tl i)"
    using i by (intro str_trim_end) (simp_all add: ascii_space_def)
  then have "str_trim (''chart_b'' @ i) = ''chart_b'' @ hd i # trim_end (tl i)" using i by simp
  then show ?thesis by (simp add: server_command_def strip_prefix_def chart_b_query_def)
qed

text \<open>One command, as the server receives it.\<close>

lemma command_received:
  assumes "ascii (client_request c)"
  shows "server_command order (take 64 (client_request c)) v = (Ok (reply_of order v c), if c = CmdStop then vi_stop v else v)"
proof (cases c)
  case (CmdChartB i)
  show ?thesis
  proof (cases "i = []")
    case True
    have "str_trim ''chart_b'' = ''chart_b''" by (simp add: str_trim_def ascii_space_def)
    then show ?thesis using CmdChartB True by (simp add: server_command_def strip_prefix_def chart_b_query_def)
  next
    case False
    have "ascii i" using assms CmdChartB False by (simp add: ascii_def)
    then have "str_from_1 (CHR '':'' # trim_end (take 56 i)) = Ok (trim_end (take 56 i))"
      by (intro str_from_1_ascii ascii_trim_end ascii_take)
    moreover have "take 64 (client_request c) = ''chart_b'' @ CHR '':'' # take 56 i" using CmdChartB False by simp
    ultimately show ?thesis
      using chart_b_command [of "CHR '':'' # take 56 i" order v] CmdChartB False by (simp add: ascii_space_def)
  qed
qed (simp_all add: server_command_def str_trim_def ascii_space_def)

lemma reply_stopped: "reply_of order v c = StoppedReply \<longleftrightarrow> c = CmdStop"
  by (cases c) simp_all

text \<open>The text of an address: at most 15 characters, none of them white space.\<close>

lemma show_ipv4_text: "show_ipv4 a \<noteq> [] \<and> trim_end (take 56 (show_ipv4 a)) = show_ipv4 a"
proof -
  let ?n = "\<lambda>i. show_nat (ipv4_octet i a)"
  have s: "show_ipv4 a = ?n 0 @ CHR ''.'' # ?n 1 @ CHR ''.'' # ?n 2 @ CHR ''.'' # ?n 3" by (simp add: show_ipv4_def)
  have "length (?n i) \<le> 3" for i
    using parse_octet_show [OF ipv4_octet_less, of i a] by (auto simp: parse_octet_def split: if_splits)
  from this [of 0] this [of 1] this [of 2] this [of 3] have "length (show_ipv4 a) \<le> 56" by (simp add: s)
  moreover have "last (show_ipv4 a) \<in> set (?n 3)" by (simp add: s)
  then have "\<not> ascii_space (last (show_ipv4 a))" using show_nat_digits by (fastforce simp: ascii_space_def digit_char_def)
  moreover have "show_ipv4 a \<noteq> []" by (simp add: s)
  ultimately show ?thesis by (simp add: trim_end_id)
qed

text \<open>C25: The commands of a client, sent one after the other to the socket of the server (their texts ASCII, and
  \<open>utf8\<close> reads ASCII as itself), are each answered by the operation they are named after, for the
  node as it is, up to the first \<open>stop\<close>, which alone changes the node and ends the server. A
  traffic query is cut to the 64 octets of the server's buffer and trimmed: 56 characters of its
  text count, so that the whole text of any address arrives, and what follows is ignored.\<close>

theorem commands_answered:
  assumes "reads_ascii utf8" and "list_all (\<lambda>c. ascii (client_request c)) cs"
  shows "server_loop utf8 order (map (octets \<circ> client_request) cs) v =
      (Ok (map (reply_of order v) (until_stop cs)), if CmdStop \<in> set cs then vi_stop v else v) \<and>
    reply_of order v (CmdChartB (show_ipv4 a)) = ChartBReply (command_chart_b v (show_ipv4 a)) \<and>
    (56 \<le> length q \<longrightarrow> reply_of order v (CmdChartB (q @ rest)) = reply_of order v (CmdChartB q))"
proof -
  have "server_loop utf8 order (map (octets \<circ> client_request) cs) v =
      (Ok (map (reply_of order v) (until_stop cs)), if CmdStop \<in> set cs then vi_stop v else v)"
    using assms(2)
  proof (induction cs)
    case (Cons c cs)
    then have "ascii (client_request c)" by simp
    then have "utf8 (take 64 (octets (client_request c))) = Some (take 64 (client_request c))"
      using assms(1) ascii_take by (simp add: reads_ascii_def octets_def take_map)
    then show ?case
      using Cons command_received [OF \<open>ascii (client_request c)\<close>, of order v]
      by (auto simp: sbind_def reply_stopped)
  qed simp
  moreover have "trim_end (take 56 (show_ipv4 a)) = show_ipv4 a" "show_ipv4 a \<noteq> []"
    using show_ipv4_text by auto
  ultimately show ?thesis by auto
qed

text \<open>A query, the list, the end, and a command that comes too late.\<close>

lemma char_of_octet: "char_of (unat (of_char c :: u8)) = c"
proof -
  have "(of_char c :: u8) = of_nat (of_char c)" by (cases c) simp
  moreover have "(of_char c :: nat) < 2 ^ 8" using nat_of_char_less_256 [of c] by simp
  ultimately have "unat (of_char c :: u8) = of_char c" by (simp add: unsigned_of_nat take_bit_nat_eq_self)
  then show ?thesis by simp
qed

lemma commands_answered_witness:
  "\<exists>v :: vnt_inner. server_loop (\<lambda>b. Some (map (char_of \<circ> unat) b)) []
     (map (octets \<circ> client_request) [CmdChartB ''26.0.3'', CmdAll, CmdStop, CmdInfo]) v =
     (Ok [ChartBReply (command_chart_b v ''26.0.3''), ListReply (command_list [] v), StoppedReply], vi_stop v)"
proof -
  have "reads_ascii (\<lambda>b. Some (map (char_of \<circ> unat) b))"
    by (auto simp: reads_ascii_def octets_def comp_def char_of_octet)
  moreover have "list_all (\<lambda>c. ascii (client_request c)) [CmdChartB ''26.0.3'', CmdAll, CmdStop, CmdInfo]"
    by (simp add: ascii_def)
  moreover have "trim_end (take 56 ''26.0.3'') = ''26.0.3''" by (simp add: trim_end_def ascii_space_def)
  ultimately show ?thesis using commands_answered by fastforce
qed

text \<open>A query whose second octet after the name continues a character stops the thread of the server.\<close>

lemma chart_b_panics:
  "\<not> ascii_space x \<Longrightarrow> continuation y \<Longrightarrow> \<not> ascii_space (last (y # rest)) \<Longrightarrow>
   server_command order (''chart_b'' @ x # y # rest) v = (Panic, v)"
  using chart_b_command [of "x # y # rest" order v] trim_end_id [of "y # rest"]
  by (simp add: str_from_1_def continuation_def)

section \<open>Queries by the end of an address\<close>

lemma match_loop_iff: "match_loop s ip \<longleftrightarrow> prefix s ip \<or> (\<exists>c. s = ip @ [c])"
  by (induction s ip rule: match_loop.induct) auto

text \<open>What is matched: the ends of the address, and every text that is the address after one more character.\<close>

lemma match_from_end_iff: "match_from_end s ip \<longleftrightarrow> suffix s ip \<or> (\<exists>c. s = c # ip)"
  by (simp add: match_from_end_def match_loop_iff suffix_to_prefix rev_swap)

lemma find_matching_first:
  assumes "sorted ips" and "a \<in> set ips" and "match_from_end s (show_ipv4 a)"
  shows "\<exists>k \<in> set ips. find_matching_ipv4_address s ips = Some k \<and> k \<le> a"
  using assms by (induction ips) (auto simp: find_matching_ipv4_address_def)

definition metered :: "vnt_inner \<Rightarrow> ipv4_addr set" where
  "metered v = dom (snd (all_or_none (vi_up_stream_history v))) \<union> dom (snd (all_or_none (vi_down_stream_history v)))"

text \<open>C26: The address asked for is not the one that is shown, when the text of another address follows its first
  character and both have traffic: a query for \<open>12.0.0.1\<close> shows \<open>2.0.0.1\<close>.\<close>

theorem chart_of_another:
  assumes "cf_enable_traffic (vi_config v)" and "finite (metered v)" and "a \<in> metered v"
    and "show_ipv4 b = c # show_ipv4 a" and "a < b"
  shows "\<exists>k. cb_ip (command_chart_b v (show_ipv4 b)) = Some k \<and> k \<in> metered v \<and> k \<le> a \<and> k \<noteq> b"
proof -
  have "match_from_end (show_ipv4 b) (show_ipv4 a)" using assms(4) by (simp add: match_from_end_iff)
  then obtain k where k: "k \<in> metered v" "k \<le> a"
      "find_matching_ipv4_address (show_ipv4 b) (sorted_list_of_set (metered v)) = Some k"
    using find_matching_first [of "sorted_list_of_set (metered v)" a "show_ipv4 b"] assms(2,3) by auto
  then have "cb_ip (command_chart_b v (show_ipv4 b)) = Some k"
    using assms(1) by (simp add: command_chart_b_def metered_def Let_def split: prod.splits)
  then show ?thesis using k assms(5) by auto
qed

text \<open>A node that has sent to both addresses.\<close>

definition sample_meter :: multi_meter where
  "sample_meter = mm_run [(0x02000001, 10, 0, 0, 0), (0x0C000001, 99, 0, 0, 0)] (mm_new 100)"

definition with_traffic :: "vnt_inner \<Rightarrow> vnt_inner" where
  "with_traffic v = v\<lparr>vi_config := (vi_config v)\<lparr>cf_enable_traffic := True\<rparr>, vi_up_meter := Some sample_meter, vi_down_meter := None\<rparr>"

lemma sample_metered: "metered (with_traffic v) = {0x02000001, 0x0C000001}"
  by (auto simp: metered_def with_traffic_def vi_up_stream_history_def vi_down_stream_history_def all_or_none_def
      mm_get_all_history_def mm_get_history_def sample_meter_def mm_add_traffic_def mm_new_def Let_def split: if_splits)

lemma chart_of_another_witness:
  "\<exists>v k. metered v = {0x02000001, 0x0C000001} \<and> cb_ip (command_chart_b v ''12.0.0.1'') = Some k \<and> k \<noteq> 0x0C000001"
proof -
  have t: "show_ipv4 0x0C000001 = ''12.0.0.1''" "show_ipv4 0x02000001 = ''2.0.0.1''" by code_simp+
  have "cf_enable_traffic (vi_config (with_traffic v))" for v by (simp add: with_traffic_def)
  then have "\<exists>k. cb_ip (command_chart_b (with_traffic v) (show_ipv4 0x0C000001)) = Some k \<and> k \<in> metered (with_traffic v) \<and>
      k \<le> 0x02000001 \<and> k \<noteq> 0x0C000001" for v
    using chart_of_another [of "with_traffic v" "0x02000001" "0x0C000001" "CHR ''1''"] t
    by (simp add: sample_metered)
  then show ?thesis using t sample_metered by metis
qed

end
