(* ===== verification/Console_Out.thy ===== *)
theory Console_Out
  imports Commands "HOL-Library.Char_ord" "HOL-Library.List_Lexorder"
begin

text \<open>
  What the console shows of a node (\<open>common/src/console_out/\<close>): the lines of text with the style of each
  piece. A table is padded by its columns (\<open>table.rs\<close>); \<open>width\<close> is \<open>measure_text_width\<close> of the \<open>console\<close>
  crate, and \<open>scale value max height\<close> is \<open>(value as f64 / max as f64 * height as f64) as usize\<close>. Texts are octets,
  and a format width counts the characters of a text.

  The theorems: an amount of traffic can be read back from its text; the tables of devices and routes are printed
  without a panic, one line for each entry and their lines of one length; the shape of a chart.
\<close>

section \<open>Styled text\<close>

datatype style = Plain | Green | Red | Yellow | Grey

type_synonym styled = "string \<times> style"

definition plain :: "string \<Rightarrow> styled list" where
  "plain s = [(s, Plain)]"

definition labelled :: "string \<Rightarrow> string \<Rightarrow> style \<Rightarrow> styled list" where
  "labelled label text st = [(label, Plain), (text, st)]"

definition chars :: "string \<Rightarrow> nat" where
  "chars s = length (filter (\<lambda>c. \<not> continuation c) s)"

definition pad_right :: "nat \<Rightarrow> string \<Rightarrow> string" where
  "pad_right n s = s @ replicate (n - chars s) CHR '' ''"

definition join_comma :: "string list \<Rightarrow> string" where
  "join_comma ss = (case ss of [] \<Rightarrow> [] | t # ts \<Rightarrow> t @ concat (map (\<lambda>u. '', '' @ u) ts))"

definition count_ones :: "u32 \<Rightarrow> nat" where
  "count_ones w = length (filter (bit w) [0..<32])"

section \<open>Tables\<close>

text \<open>\<open>width_list[index]\<close> is out of range when a row is longer than the first.\<close>

fun widen :: "(string \<Rightarrow> nat) \<Rightarrow> nat list \<Rightarrow> styled list \<Rightarrow> nat list outcome" where
  "widen width ws [] = Ok ws"
| "widen width [] (cell # row) = Panic"
| "widen width (w # ws) (cell # row) = omap ((#) (max w (width (fst cell) + 4))) (widen width ws row)"

fun widths :: "(string \<Rightarrow> nat) \<Rightarrow> nat list \<Rightarrow> styled list list \<Rightarrow> nat list outcome" where
  "widths width ws [] = Ok ws"
| "widths width ws (row # rows) = obind (widen width ws row) (\<lambda>ws. widths width ws rows)"

definition table_row :: "nat list \<Rightarrow> styled list \<Rightarrow> styled list" where
  "table_row ws row = map2 (\<lambda>w (item, st). (pad_right w item, st)) ws row"

definition println_table :: "(string \<Rightarrow> nat) \<Rightarrow> styled list list \<Rightarrow> styled list list outcome" where
  "println_table width table = (case table of [] \<Rightarrow> Ok []
     | row # rows \<Rightarrow> omap (\<lambda>ws. map (table_row ws) table) (widths width (replicate (length row) 0) table))"

section \<open>Amounts\<close>

text \<open>\<open>convert\<close>: gigabytes, megabytes, kilobytes and bytes, each only when there are some.\<close>

definition unit_text :: "nat \<Rightarrow> string \<Rightarrow> string" where
  "unit_text n u = (if 0 < n then show_nat n @ u else [])"

definition convert_amount :: "nat \<Rightarrow> string" where
  "convert_amount num = (let r1 = num mod 2 ^ 30; r2 = r1 mod 2 ^ 20 in
     unit_text (num div 2 ^ 30) '' GB '' @ unit_text (r1 div 2 ^ 20) '' MB '' @ unit_text (r2 div 2 ^ 10) '' KB '' @
     unit_text (r2 mod 2 ^ 10) '' bytes'')"

section \<open>What is printed\<close>

definition rule_line :: "styled list" where
  "rule_line = plain (replicate 42 CHR ''-'')"

definition console_info :: "info_item \<Rightarrow> styled list list" where
  "console_info status =
     [labelled ''Name: '' (if_name status) Green, labelled ''Virtual ip: '' (if_virtual_ip status) Green,
      labelled ''Virtual gateway: '' (if_virtual_gateway status) Green,
      labelled ''Virtual netmask: '' (if_virtual_netmask status) Green,
      labelled ''Connection status: '' (if_connect_status status)
        (if map ascii_lower (if_connect_status status) = ''connected'' then Green else Red),
      labelled ''NAT type: '' (if_nat_type status) Green, labelled ''Relay server: '' (if_relay_server status) Green,
      labelled ''Udp listen: '' (join_comma (if_udp_listen_addr status)) Green,
      labelled ''Tcp listen: '' (if_tcp_listen_addr status) Green, labelled ''Public ips: '' (if_public_ips status) Green,
      labelled ''Local addr: '' (if_local_addr status) Green, labelled ''IPv6: '' (if_ipv6_addr status) Green] @
     (if if_port_mapping_list status = [] then []
      else rule_line # plain (''Port mapping '' @ show_nat (length (if_port_mapping_list status))) #
        map (\<lambda>(is_tcp, addr, dest). plain ((if is_tcp then ''  TCP: '' else ''  UDP: '') @ show_socket addr @ '' -> '' @ dest))
          (if_port_mapping_list status)) @
     (if if_in_ips status = [] \<and> if_out_ips status = [] then [] else [rule_line]) @
     (if if_in_ips status = [] then []
      else plain (''IP forwarding '' @ show_nat (length (if_in_ips status))) #
        map (\<lambda>(dest, m, ip). plain (''  -- '' @ show_ipv4 ip @ '' --> '' @ show_ipv4 dest @ ''/'' @ show_nat (count_ones m)))
          (if_in_ips status)) @
     (if if_out_ips status = [] then []
      else plain (''Allows network '' @ show_nat (length (if_out_ips status))) #
        map (\<lambda>(dest, m). plain (''  '' @ show_ipv4 dest @ ''/'' @ show_nat (count_ones m))) (if_out_ips status))"

definition heads :: "string list \<Rightarrow> styled list" where
  "heads = map (\<lambda>t. (t, Plain))"

definition row_in :: "style \<Rightarrow> string list \<Rightarrow> styled list" where
  "row_in st = map (\<lambda>t. (t, st))"

definition console_route_table :: "(string \<Rightarrow> nat) \<Rightarrow> route_item list \<Rightarrow> styled list list outcome" where
  "console_route_table width list =
     (if list = [] then Ok [plain ''No route found'']
      else println_table width (heads [''Destination'', ''Next Hop'', ''Metric'', ''Rt'', ''Interface''] #
        map (\<lambda>item. row_in Green [ro_destination item, ro_next_hop item, ro_metric item, ro_rt item, ro_interface item])
          (sort_key ro_destination list)))"

definition contains_text :: "string \<Rightarrow> string \<Rightarrow> bool" where
  "contains_text t s = list_ex (prefix t) (suffixes s)"

definition mismatched :: "device_item \<Rightarrow> bool" where
  "mismatched item \<longleftrightarrow> \<not> di_wire_guard item \<and>
     (di_client_secret item \<noteq> di_current_client_secret item \<or>
      di_current_client_secret_hash item \<noteq> [] \<and> di_client_secret_hash item \<noteq> [] \<and>
      di_current_client_secret_hash item \<noteq> di_client_secret_hash item)"

definition device_row :: "device_item \<Rightarrow> styled list" where
  "device_row item = (let name = if di_wire_guard item then di_name item @ ''(wg)'' else di_name item in
     if di_status item = ''Online'' then
       (if mismatched item then row_in Red [name, di_virtual_ip item, di_status item, ''Mismatch'', []]
        else row_in (if contains_text ''p2p'' (di_nat_traversal_type item) then Green else Yellow)
          [name, di_virtual_ip item, di_status item, di_nat_traversal_type item, di_rt item])
     else row_in Grey [name, di_virtual_ip item, di_status item, [], []])"

definition sorted_devices :: "device_item list \<Rightarrow> device_item list" where
  "sorted_devices list = sort_key di_status (sort_key di_virtual_ip list)"

definition console_device_list :: "(string \<Rightarrow> nat) \<Rightarrow> device_item list \<Rightarrow> styled list list outcome" where
  "console_device_list width list =
     (if list = [] then Ok [plain ''No other devices found'']
      else println_table width (heads [''Name'', ''Virtual Ip'', ''Status'', ''P2P/Relay'', ''Rt''] #
        map device_row (sorted_devices list)))"

definition device_row_all :: "device_item \<Rightarrow> styled list" where
  "device_row_all item =
     (if di_status item = ''Online'' then row_in (if di_nat_traversal_type item = ''p2p'' then Green else Yellow)
        [di_name item, di_virtual_ip item, di_status item, di_nat_traversal_type item, di_rt item, di_nat_type item,
         di_public_ips item, di_local_ip item, di_ipv6 item]
      else row_in Grey [di_name item, di_virtual_ip item, di_status item, [], [], [], [], [], []])"

definition console_device_list_all :: "(string \<Rightarrow> nat) \<Rightarrow> device_item list \<Rightarrow> styled list list outcome" where
  "console_device_list_all width list =
     (if list = [] then Ok [plain ''No other devices found'']
      else println_table width (heads [''Name'', ''Virtual Ip'', ''Status'', ''P2P/Relay'', ''Rt'', ''NAT Type'', ''Public Ips'',
          ''Local Ip'', ''IPv6''] # map device_row_all (sorted_devices list)))"

section \<open>Charts\<close>

definition block_char :: string where
  "block_char = [char_of (0xE2 :: nat), char_of (0x96 :: nat), char_of (0x88 :: nat)]"

definition map_max :: "(ipv4_addr \<Rightarrow> u64 option) \<Rightarrow> nat" where
  "map_max m = fold max (map (\<lambda>k. unat (the (m k))) (sorted_list_of_set (dom m))) 0"

definition bar_line :: "(nat \<Rightarrow> nat \<Rightarrow> nat \<Rightarrow> nat) \<Rightarrow> nat \<Rightarrow> ipv4_addr \<Rightarrow> string \<Rightarrow> u64 option \<Rightarrow> styled list list" where
  "bar_line scale mx key direction v = (case v of None \<Rightarrow> []
     | Some value \<Rightarrow> [[(pad_right 10 (show_ipv4 key) @ '' | '' @ concat (replicate (scale (unat value) mx 50) block_char) @
          '' '' @ direction @ '' '', Plain), (convert_amount (unat value), Green)]])"

definition console_chart_a :: "(nat \<Rightarrow> nat \<Rightarrow> nat \<Rightarrow> nat) \<Rightarrow> chart_a \<Rightarrow> styled list list" where
  "console_chart_a scale c =
     (if ca_disable_stats c then [plain ''Traffic statistics not enabled'']
      else let line = plain (replicate 65 CHR ''-'');
               mx = max (max (map_max (ca_up_map c)) (map_max (ca_down_map c))) 1 in
        [plain [], line, labelled ''Upload total = '' (convert_amount (unat (ca_up_total c))) Green,
         labelled ''Download total = '' (convert_amount (unat (ca_down_total c))) Green, line] @
        concat (map (\<lambda>key. bar_line scale mx key ''upload'' (ca_up_map c key) @
            bar_line scale mx key ''download'' (ca_down_map c key) @ [plain ''-''])
          (sorted_list_of_set (dom (ca_up_map c) \<union> dom (ca_down_map c)))))"

definition list_max :: "u64 list \<Rightarrow> nat" where
  "list_max vs = fold max (map unat vs) 0"

definition console_chart_b_list :: "(nat \<Rightarrow> nat \<Rightarrow> nat \<Rightarrow> nat) \<Rightarrow> u64 list \<Rightarrow> styled list list" where
  "console_chart_b_list scale vs = (let mx = max (list_max vs) 1; height = min mx 20 in
     map (\<lambda>i. map (\<lambda>v. (if i \<le> scale (unat v) mx height then block_char else '' '', Plain)) vs) (rev [0..<Suc height]))"

definition chart_b_part :: "(nat \<Rightarrow> nat \<Rightarrow> nat \<Rightarrow> nat) \<Rightarrow> ipv4_addr \<Rightarrow> string \<Rightarrow> u64 \<Rightarrow> u64 list \<Rightarrow> styled list list" where
  "chart_b_part scale ip name amount vs =
     [plain (''IP: '' @ show_ipv4 ip), labelled (name @ '' total: '') (convert_amount (unat amount)) Green,
      labelled ''Max: '' (convert_amount (list_max vs)) Green] @ console_chart_b_list scale vs"

definition console_chart_b :: "(nat \<Rightarrow> nat \<Rightarrow> nat \<Rightarrow> nat) \<Rightarrow> chart_b \<Rightarrow> styled list list" where
  "console_chart_b scale c =
     (if cb_disable_stats c then [plain ''Traffic statistics not enabled'']
      else case cb_ip c of None \<Rightarrow> [plain ''Ip: None'']
        | Some ip \<Rightarrow> plain ''----------------------------  upload  ----------------------------'' #
            chart_b_part scale ip ''Upload'' (cb_up_total c) (cb_up_list c) @
            plain ''---------------------------- download ----------------------------'' #
            chart_b_part scale ip ''Download'' (cb_down_total c) (cb_down_list c))"

section \<open>Amounts can be read back\<close>

definition unit_size :: "string \<Rightarrow> nat" where
  "unit_size u = (if u = ''GB'' then 2 ^ 30 else if u = ''MB'' then 2 ^ 20 else if u = ''KB'' then 2 ^ 10 else 1)"

fun read_units :: "string list \<Rightarrow> nat" where
  "read_units (n # u # rest) = the (parse_nat n) * unit_size u + read_units rest"
| "read_units _ = 0"

lemma read_unit_text:
  assumes "CHR '' '' \<notin> set u"
  shows "read_units (split_on CHR '' '' (unit_text n (CHR '' '' # u @ '' '') @ rest)) =
    n * unit_size u + read_units (split_on CHR '' '' rest)"
proof -
  have "CHR '' '' \<notin> set (show_nat n)" by (rule show_nat_free) (simp add: digit_value_def)
  then have "split_on CHR '' '' (show_nat n @ CHR '' '' # u @ CHR '' '' # rest) = show_nat n # u # split_on CHR '' '' rest"
    using assms by (simp add: split_on_join)
  then show ?thesis by (simp add: unit_text_def)
qed

lemma read_bytes: "read_units (split_on CHR '' '' (unit_text n '' bytes'')) = n"
proof -
  have "CHR '' '' \<notin> set (show_nat n)" by (rule show_nat_free) (simp add: digit_value_def)
  then have "split_on CHR '' '' (show_nat n @ CHR '' '' # ''bytes'') = [show_nat n, ''bytes'']"
    by (simp add: split_on_join)
  then show ?thesis by (simp add: unit_text_def unit_size_def)
qed

text \<open>The text of an amount names exactly that many bytes (an empty text none).\<close>

theorem convert_amount_roundtrip: "read_units (split_on CHR '' '' (convert_amount n)) = n"
proof -
  have "n div 2 ^ 30 * 2 ^ 30 + (n mod 2 ^ 30 div 2 ^ 20 * 2 ^ 20 +
      (n mod 2 ^ 30 mod 2 ^ 20 div 2 ^ 10 * 2 ^ 10 + n mod 2 ^ 30 mod 2 ^ 20 mod 2 ^ 10)) = n"
    by (simp only: div_mult_mod_eq)
  then show ?thesis
    using read_unit_text [of "''GB''"] read_unit_text [of "''MB''"] read_unit_text [of "''KB''"] read_bytes
    by (simp add: convert_amount_def Let_def unit_size_def)
qed

lemma convert_amount_zero: "convert_amount 0 = []"
  by (simp add: convert_amount_def unit_text_def)

section \<open>Tables are printed\<close>

lemma chars_pad_right [simp]: "chars (pad_right n s) = max n (chars s)"
  by (simp add: pad_right_def chars_def continuation_def)

lemma chars_append [simp]: "chars (s @ t) = chars s + chars t"
  by (simp add: chars_def)

lemma widen_ok:
  "length row = length ws \<Longrightarrow> \<exists>ws'. widen width ws row = Ok ws' \<and> list_all2 (\<le>) ws ws' \<and>
    list_all2 (\<lambda>cell w. width (fst cell) \<le> w) row ws'"
proof (induction row ws rule: list_induct2)
  case (Cons cell row w ws)
  then obtain ws' where "widen width ws row = Ok ws'" "list_all2 (\<le>) ws ws'"
    "list_all2 (\<lambda>cell w. width (fst cell) \<le> w) row ws'" by blast
  then show ?case by (intro exI [of _ "max w (width (fst cell) + 4) # ws'"]) simp
qed simp

lemma widths_ok:
  "\<forall>row \<in> set rows. length row = length ws \<Longrightarrow> \<exists>ws'. widths width ws rows = Ok ws' \<and> list_all2 (\<le>) ws ws' \<and>
    (\<forall>row \<in> set rows. list_all2 (\<lambda>cell w. width (fst cell) \<le> w) row ws')"
proof (induction rows arbitrary: ws)
  case Nil
  then show ?case by (simp add: list_all2_refl)
next
  case (Cons row rows)
  obtain vs where vs: "widen width ws row = Ok vs" "list_all2 (\<le>) ws vs"
      "list_all2 (\<lambda>cell w. width (fst cell) \<le> w) row vs"
    using widen_ok [of row ws width] Cons.prems by auto
  have "length vs = length ws" using vs(2) by (simp add: list_all2_lengthD)
  then obtain ws' where ws': "widths width vs rows = Ok ws'" "list_all2 (\<le>) vs ws'"
      "\<forall>row \<in> set rows. list_all2 (\<lambda>cell w. width (fst cell) \<le> w) row ws'"
    using Cons.IH [of vs] Cons.prems by auto
  have "list_all2 (\<le>) ws ws'" by (rule list_all2_trans [OF _ vs(2) ws'(2)]) simp
  moreover have "list_all2 (\<lambda>cell w. width (fst cell) \<le> w) row ws'"
    by (rule list_all2_trans [OF _ vs(3) ws'(2)]) simp
  ultimately show ?case using vs(1) ws' by simp
qed

lemma table_row_chars:
  "list_all2 (\<lambda>cell w. chars (fst cell) \<le> w) row ws \<Longrightarrow> chars (concat (map fst (table_row ws row))) = sum_list ws"
  by (induction row ws rule: list_all2_induct) (auto simp: table_row_def chars_def [of "[]"] max_def)

text \<open>A table with rows of one length is printed without a panic, a line for each row; and where each character takes one
  column the lines have one length.\<close>

lemma println_table_ok:
  assumes "\<forall>row \<in> set table. length row = n"
  shows "\<exists>ws. println_table width table = Ok (map (table_row ws) table) \<and>
    (width = chars \<longrightarrow> (\<forall>row \<in> set table. chars (concat (map fst (table_row ws row))) = sum_list ws))"
proof (cases table)
  case Nil
  then show ?thesis by (simp add: println_table_def)
next
  case (Cons row rows)
  obtain ws where ws: "widths width (replicate (length row) 0) table = Ok ws"
      "\<forall>row \<in> set table. list_all2 (\<lambda>cell w. width (fst cell) \<le> w) row ws"
    using widths_ok [of table "replicate (length row) 0" width] assms Cons by auto
  then show ?thesis
    using Cons table_row_chars by (intro exI [of _ ws]) (auto simp: println_table_def)
qed

definition lines_up :: "styled list list \<Rightarrow> bool" where
  "lines_up ls \<longleftrightarrow> (\<exists>k. \<forall>l \<in> set ls. chars (concat (map fst l)) = k)"

lemma println_table_lines:
  assumes "\<forall>row \<in> set table. length row = n"
  shows "\<exists>t. println_table width table = Ok t \<and> length t = length table \<and> (width = chars \<longrightarrow> lines_up t)"
  using println_table_ok [OF assms, of width] by (auto simp: lines_up_def)

lemma device_rows: "length (device_row d) = 5" "length (device_row_all d) = 9"
  by (simp_all add: device_row_def device_row_all_def row_in_def Let_def)

text \<open>The tables of routes and devices are printed for every list, without a panic.\<close>

theorem tables_printed:
  assumes "routes \<noteq> []" and "devices \<noteq> []"
  shows "(\<exists>t. console_route_table width routes = Ok t \<and> length t = Suc (length routes) \<and> (width = chars \<longrightarrow> lines_up t)) \<and>
    (\<exists>t. console_device_list width devices = Ok t \<and> length t = Suc (length devices) \<and> (width = chars \<longrightarrow> lines_up t)) \<and>
    (\<exists>t. console_device_list_all width devices = Ok t \<and> length t = Suc (length devices) \<and> (width = chars \<longrightarrow> lines_up t))"
proof (intro conjI)
  show "\<exists>t. console_route_table width routes = Ok t \<and> length t = Suc (length routes) \<and> (width = chars \<longrightarrow> lines_up t)"
    using println_table_lines [of "heads [''Destination'', ''Next Hop'', ''Metric'', ''Rt'', ''Interface''] #
        map (\<lambda>item. row_in Green [ro_destination item, ro_next_hop item, ro_metric item, ro_rt item, ro_interface item])
          (sort_key ro_destination routes)" 5 width] assms(1)
    by (auto simp: console_route_table_def heads_def row_in_def)
  show "\<exists>t. console_device_list width devices = Ok t \<and> length t = Suc (length devices) \<and> (width = chars \<longrightarrow> lines_up t)"
    using println_table_lines [of "heads [''Name'', ''Virtual Ip'', ''Status'', ''P2P/Relay'', ''Rt''] #
        map device_row (sorted_devices devices)" 5 width] assms(2)
    by (auto simp: console_device_list_def heads_def device_rows sorted_devices_def)
  show "\<exists>t. console_device_list_all width devices = Ok t \<and> length t = Suc (length devices) \<and> (width = chars \<longrightarrow> lines_up t)"
    using println_table_lines [of "heads [''Name'', ''Virtual Ip'', ''Status'', ''P2P/Relay'', ''Rt'', ''NAT Type'', ''Public Ips'',
          ''Local Ip'', ''IPv6''] # map device_row_all (sorted_devices devices)" 9 width] assms(2)
    by (auto simp: console_device_list_all_def heads_def device_rows sorted_devices_def)
qed

text \<open>The devices come by their status, those of one status by the text of their address.\<close>

lemma sorted_devices_order:
  "sorted (map di_status (sorted_devices list))"
  "sorted (map di_virtual_ip (filter (\<lambda>d. di_status d = s) (sorted_devices list)))"
proof -
  show "sorted (map di_status (sorted_devices list))" by (simp add: sorted_devices_def)
  have "filter (\<lambda>d. di_status d = s) (sorted_devices list) = filter (\<lambda>d. di_status d = s) (sort_key di_virtual_ip list)"
    by (simp add: sorted_devices_def sort_key_stable)
  then show "sorted (map di_virtual_ip (filter (\<lambda>d. di_status d = s) (sorted_devices list)))"
    by (simp add: sorted_filter)
qed

text \<open>A text order is not the order of the addresses.\<close>

lemma devices_by_text: "show_ipv4 0x0A1A000A < show_ipv4 0x0A1A0002" and "(0x0A1A0002 :: ipv4_addr) < 0x0A1A000A"
  by code_simp+

section \<open>Charts are filled from below\<close>

text \<open>As many lines as the scaled maximum and one more; the lowest is full even where nothing was sent.\<close>

lemma chart_b_list_shape:
  "length (console_chart_b_list scale vs) = Suc (min (max (list_max vs) 1) 20)"
  "last (console_chart_b_list scale vs) = map (\<lambda>_. (block_char, Plain)) vs"
proof -
  have "0 < min (max (list_max vs) 1) 20" by simp
  then show "last (console_chart_b_list scale vs) = map (\<lambda>_. (block_char, Plain)) vs"
    by (simp add: console_chart_b_list_def Let_def last_map last_rev del: min_less_iff_conj)
qed (simp add: console_chart_b_list_def Let_def)

end
