(* ===== verification/Ring_Ciphers.thy ===== *)
theory Ring_Ciphers
  imports Cipher_Dispatch
begin

text \<open>
  The back ends on the \<open>ring\<close> crate, which the features \<open>ring-cipher\<close> put in place of the others:
  \<open>cipher/aes_gcm/ring_aes_gcm_cipher.rs\<close> and \<open>cipher/chacha20_poly1305/ring_chacha20_poly1305.rs\<close>. The
  algorithms are the standard ones, so the primitives are those of \<open>crypto\<close>; \<open>open_in_place\<close> takes the
  tag behind the ciphertext and leaves it there. A key always has the right length, so \<open>UnboundKey::new\<close>
  succeeds.

  The theorem: whatever packet they get, these back ends do what the default ones do, but for the texts of
  the errors; so nodes built with different back ends understand each other.
\<close>

section \<open>AES-GCM\<close>

datatype ring_gcm_enum = RingAesGCM128 bytes | RingAesGCM256 bytes

record ring_gcm_cipher =
  rg_cipher :: ring_gcm_enum
  rg_finger :: "bytes option"

definition ring_gcm_new_128 :: "bytes \<Rightarrow> bytes option \<Rightarrow> ring_gcm_cipher" where
  "ring_gcm_new_128 key finger = \<lparr>rg_cipher = RingAesGCM128 key, rg_finger = finger\<rparr>"

definition ring_gcm_new_256 :: "bytes \<Rightarrow> bytes option \<Rightarrow> ring_gcm_cipher" where
  "ring_gcm_new_256 key finger = \<lparr>rg_cipher = RingAesGCM256 key, rg_finger = finger\<rparr>"

text \<open>\<open>Clone\<close> makes the key anew.\<close>

primrec ring_gcm_enum_clone :: "ring_gcm_enum \<Rightarrow> ring_gcm_enum" where
  "ring_gcm_enum_clone (RingAesGCM128 key) = RingAesGCM128 key"
| "ring_gcm_enum_clone (RingAesGCM256 key) = RingAesGCM256 key"

lemma ring_gcm_enum_clone_same: "ring_gcm_enum_clone k = k"
  by (cases k) simp_all

definition open_in_place :: "(bytes \<Rightarrow> bytes \<Rightarrow> bytes option) \<Rightarrow> bytes \<Rightarrow> bytes option" where
  "open_in_place opn d = (let n = length d - 16 in
     if length d < 16 then None else map_option (\<lambda>x. x @ drop n d) (opn (take n d) (drop n d)))"

primrec ring_gcm_open :: "crypto \<Rightarrow> bytes \<Rightarrow> bytes \<Rightarrow> ring_gcm_enum \<Rightarrow> bytes option" where
  "ring_gcm_open C nonce d (RingAesGCM128 key) = open_in_place (c_open C Aes128Gcm key nonce) d"
| "ring_gcm_open C nonce d (RingAesGCM256 key) = open_in_place (c_open C Aes256Gcm key nonce) d"

primrec ring_gcm_seal :: "crypto \<Rightarrow> bytes \<Rightarrow> bytes \<Rightarrow> ring_gcm_enum \<Rightarrow> (bytes \<times> bytes) option" where
  "ring_gcm_seal C nonce d (RingAesGCM128 key) = c_seal C Aes128Gcm key nonce d"
| "ring_gcm_seal C nonce d (RingAesGCM256 key) = c_seal C Aes256Gcm key nonce d"

definition secret_en_body_mut :: "(bytes \<Rightarrow> bytes outcome) \<Rightarrow> secret_tail \<Rightarrow> secret_tail outcome" where
  "secret_en_body_mut = st_prefix_mut 0"

definition ring_gcm_open_body :: "crypto \<Rightarrow> ring_gcm_cipher \<Rightarrow> bytes \<Rightarrow> (secret_tail, unit) action" where
  "ring_gcm_open_body C c nonce =
     sbind (demand_finger C (rg_finger c) nonce secret_en_body secret_finger ''ring aes finger err'') (\<lambda>_.
     sbind (sget secret_en_body) (\<lambda>d. case ring_gcm_open C nonce d (rg_cipher c) of
         Some d' \<Rightarrow> supd (secret_en_body_mut (\<lambda>_. Ok d'))
       | None \<Rightarrow> slift (Err (AnyError ''decrypt failed''))))"

definition ring_gcm_decrypt :: "crypto \<Rightarrow> ring_gcm_cipher \<Rightarrow> (net_packet, unit) action" where
  "ring_gcm_decrypt C c = sbind (sget np_is_encrypt) (\<lambda>enc.
     if \<not> enc then slift (Err (AnyError ''not encrypt''))
     else sbind (sget np_payload) (\<lambda>pl.
     if length pl < AES_GCM_ENCRYPTION_RESERVED then slift (Err (AnyError ''data err''))
     else sbind (sget np_head_tag) (\<lambda>nonce.
     sbind (np_with_body (\<lambda>b. secret_new b (rg_finger c \<noteq> None))
       (ring_gcm_open_body C c nonce)) (\<lambda>_.
     sbind (supd (np_set_encrypt_flag False)) (\<lambda>_.
     sbind (sget (\<lambda>p. usub (np_data_len p) AES_GCM_ENCRYPTION_RESERVED)) (\<lambda>n.
     supd (np_set_data_len n)))))))"

definition ring_gcm_seal_body :: "crypto \<Rightarrow> ring_gcm_cipher \<Rightarrow> bytes \<Rightarrow> u32 \<Rightarrow> (secret_tail, unit) action" where
  "ring_gcm_seal_body C c nonce random = sbind (supd (secret_set_random random)) (\<lambda>_.
     sbind (sget secret_body) (\<lambda>d. case ring_gcm_seal C nonce d (rg_cipher c) of
         Some (d', tag) \<Rightarrow> sbind (supd (secret_body_mut (\<lambda>_. Ok d'))) (\<lambda>_.
           if length tag \<noteq> 16 then slift (Err (AnyError ''tag length''))
           else sbind (supd (secret_set_tag tag)) (\<lambda>_.
           store_finger C (rg_finger c) nonce secret_en_body secret_set_finger))
       | None \<Rightarrow> slift (Err (AnyError ''encrypt failed''))))"

text \<open>Unlike the default back end this one does not ask for the reserve; growing the packet fails instead.\<close>

definition ring_gcm_encrypt :: "crypto \<Rightarrow> ring_gcm_cipher \<Rightarrow> u32 \<Rightarrow> (net_packet, unit) action" where
  "ring_gcm_encrypt C c random = sbind (sget np_head_tag) (\<lambda>nonce.
     sbind (sget (\<lambda>p. Ok (np_data_len p))) (\<lambda>n.
     sbind (supd (np_set_data_len (n + AES_GCM_ENCRYPTION_RESERVED))) (\<lambda>_.
     sbind (np_with_body (\<lambda>b. secret_new b (rg_finger c \<noteq> None))
       (ring_gcm_seal_body C c nonce random)) (\<lambda>_.
     supd (np_set_encrypt_flag True)))))"

section \<open>ChaCha20-Poly1305\<close>

record ring_chacha_cipher =
  rc_key :: bytes
  rc_finger :: "bytes option"

definition ring_chachapoly_new :: "bytes \<Rightarrow> bytes option \<Rightarrow> ring_chacha_cipher" where
  "ring_chachapoly_new key finger = \<lparr>rc_key = key, rc_finger = finger\<rparr>"

definition ring_chachapoly_key :: "ring_chacha_cipher \<Rightarrow> bytes" where
  "ring_chachapoly_key c = rc_key c"

definition aead_data_tag_mut :: "(bytes \<Rightarrow> bytes outcome) \<Rightarrow> secret_tail \<Rightarrow> secret_tail outcome" where
  "aead_data_tag_mut = st_prefix_mut RANDOM_RESERVED"

definition ring_chachapoly_open_body :: "crypto \<Rightarrow> ring_chacha_cipher \<Rightarrow> bytes \<Rightarrow> (secret_tail, nat) action" where
  "ring_chachapoly_open_body C c head_tag =
     sbind (demand_finger C (rc_finger c) head_tag aead_data_tag tail_finger ''ring CHACHA20_POLY1305 finger err'') (\<lambda>_.
     sbind (sget tail_random_buf) (\<lambda>random.
     sbind (slift (gen_nonce head_tag random)) (\<lambda>nonce.
     sbind (sget aead_data_tag) (\<lambda>d. case open_in_place (c_open C ChaChaPoly (rc_key c) nonce) d of
         Some d' \<Rightarrow> sbind (supd (aead_data_tag_mut (\<lambda>_. Ok d'))) (\<lambda>_.
           sbind (sget aead_data) (\<lambda>d. sret (length d)))
       | None \<Rightarrow> slift (Err (AnyError ''ring CHACHA20_POLY1305''))))))"

definition ring_chachapoly_decrypt :: "crypto \<Rightarrow> ring_chacha_cipher \<Rightarrow> (net_packet, unit) action" where
  "ring_chachapoly_decrypt C c = sbind (sget np_is_encrypt) (\<lambda>enc.
     if \<not> enc then slift (Err (AnyError ''not encrypt''))
     else sbind (sget np_payload) (\<lambda>pl.
     if length pl < TAG_RESERVED then slift (Err (AnyError ''data err''))
     else sbind (sget np_head_tag) (\<lambda>head_tag.
     sbind (np_with_body (\<lambda>b. aead_new b (rc_finger c \<noteq> None))
       (ring_chachapoly_open_body C c head_tag))
     (\<lambda>n. sbind (supd (np_set_encrypt_flag False)) (\<lambda>_. supd (np_set_payload_len n))))))"

definition ring_chachapoly_seal_body :: "crypto \<Rightarrow> ring_chacha_cipher \<Rightarrow> bytes \<Rightarrow> u32 \<Rightarrow> (secret_tail, unit) action" where
  "ring_chachapoly_seal_body C c head_tag word =
     sbind (slift (gen_random_nonce word head_tag)) (\<lambda>(random, nonce).
     sbind (supd (tail_set_random random)) (\<lambda>_.
     sbind (sget aead_data) (\<lambda>d. case c_seal C ChaChaPoly (rc_key c) nonce d of
         Some (d', tag) \<Rightarrow> sbind (supd (aead_data_mut (\<lambda>_. Ok d'))) (\<lambda>_.
           if length tag \<noteq> 16 then slift (Err (AnyError ''tag length''))
           else sbind (supd (aead_set_tag tag)) (\<lambda>_.
           store_finger C (rc_finger c) head_tag aead_data_tag tail_set_finger))
       | None \<Rightarrow> slift (Err (AnyError ''ring CHACHA20_POLY1305'')))))"

definition ring_chachapoly_encrypt :: "crypto \<Rightarrow> ring_chacha_cipher \<Rightarrow> u32 \<Rightarrow> (net_packet, unit) action" where
  "ring_chachapoly_encrypt C c word = sbind (sget np_head_tag) (\<lambda>head_tag.
     sbind (sget (\<lambda>p. Ok (np_data_len p))) (\<lambda>n.
     sbind (supd (np_set_data_len (if rc_finger c \<noteq> None
         then n + TAG_RESERVED + RANDOM_RESERVED + FINGER_RESERVED
         else n + TAG_RESERVED + RANDOM_RESERVED))) (\<lambda>_.
     sbind (np_with_body (\<lambda>b. aead_new b (rc_finger c \<noteq> None))
       (ring_chachapoly_seal_body C c head_tag word))
     (\<lambda>_. supd (np_set_encrypt_flag True)))))"

section \<open>Agreement\<close>

text \<open>The same result and packet, or an error on both sides (whose text and leftovers may differ).\<close>

definition agree :: "'a outcome \<times> 's \<Rightarrow> 'a outcome \<times> 's \<Rightarrow> bool" where
  "agree r r' \<longleftrightarrow> r = r' \<or> (\<exists>e e'. fst r = Err e \<and> fst r' = Err e')"

lemma agree_refl [simp]: "agree r r"
  by (simp add: agree_def)

lemma agree_sbind:
  assumes "agree (m s) (m' s)" and "\<And>x t. m s = (Ok x, t) \<Longrightarrow> m' s = (Ok x, t) \<Longrightarrow> agree (f x t) (f' x t)"
  shows "agree (sbind m f s) (sbind m' f' s)"
  using assms by (cases "m s"; cases "m' s"; cases "fst (m s)"; cases "fst (m' s)") (auto simp: agree_def sbind_def)

lemma agree_sbind_same:
  "(\<And>x t. m s = (Ok x, t) \<Longrightarrow> agree (f x t) (f' x t)) \<Longrightarrow> agree (sbind m f s) (sbind m f' s)"
  by (rule agree_sbind) simp_all

lemma agree_with_body:
  assumes "\<And>b t. np_payload p = Ok b \<Longrightarrow> new b = Ok t \<Longrightarrow> agree (m t) (m' t)"
  shows "agree (np_with_body new m p) (np_with_body new m' p)"
proof (cases "obind (np_payload p) new")
  case (Ok t)
  then have "agree (m t) (m' t)" using assms by (auto simp: outcome_simps)
  then show ?thesis using Ok by (cases "m t"; cases "m' t") (auto simp: np_with_body_def agree_def)
qed (simp_all add: np_with_body_def)

text \<open>The default cipher with the same key.\<close>

primrec default_gcm_enum :: "ring_gcm_enum \<Rightarrow> aes_gcm_enum" where
  "default_gcm_enum (RingAesGCM128 key) = AES128GCM key"
| "default_gcm_enum (RingAesGCM256 key) = AES256GCM key"

definition default_gcm :: "ring_gcm_cipher \<Rightarrow> aes_gcm_cipher" where
  "default_gcm c = \<lparr>gcm_cipher = default_gcm_enum (rg_cipher c), gcm_finger = rg_finger c\<rparr>"

definition default_chachapoly :: "ring_chacha_cipher \<Rightarrow> chacha_cipher" where
  "default_chachapoly c = \<lparr>cc_key = rc_key c, cc_finger = rc_finger c\<rparr>"

lemma default_sel [simp]:
  "gcm_cipher (default_gcm c) = default_gcm_enum (rg_cipher c)" "gcm_finger (default_gcm c) = rg_finger c"
  "cc_key (default_chachapoly x) = rc_key x" "cc_finger (default_chachapoly x) = rc_finger x"
  by (simp_all add: default_gcm_def default_chachapoly_def)

lemma agree_err [simp]: "agree (Err e, s) (Err e', s')"
  by (simp add: agree_def)

lemma agree_finger: "agree (demand_finger C fo n covered stored m t) (demand_finger C fo n covered stored m' t)"
proof (cases fo)
  case (Some hash)
  show ?thesis unfolding demand_finger_def Some option.case by (intro agree_sbind_same) simp
qed (simp add: demand_finger_def)

lemma ring_gcm_open_split:
  "length tag = 16 \<Longrightarrow> ring_gcm_open C nonce (d @ tag) k = map_option (\<lambda>x. x @ tag) (gcm_open C nonce d tag (default_gcm_enum k))"
  by (cases k) (simp_all add: open_in_place_def)

lemma ring_gcm_seal_default [simp]: "gcm_seal C nonce d (default_gcm_enum k) = ring_gcm_seal C nonce d k"
  by (cases k) simp_all

lemma demand_finger_state: "demand_finger C fo n covered stored m t = (r, t') \<Longrightarrow> t' = t"
  by (auto simp: demand_finger_def sbind_def sget_def split: option.splits outcome.splits if_splits)

lemma ring_gcm_open_body_agrees:
  assumes ok: "aead_ok C" and l: "tail_lens tag rnd fin"
  shows "agree (ring_gcm_open_body C c n (secret_of d rnd tag fin)) (gcm_open_body C (default_gcm c) n (secret_of d rnd tag fin))"
proof -
  note views = secret_views [OF l]
  have tag: "length tag = 16" using l by (simp add: tail_lens_def)
  have opened: "agree ((case ring_gcm_open C n (d @ rnd @ tag) (rg_cipher c) of
         Some d' \<Rightarrow> supd (secret_en_body_mut (\<lambda>_. Ok d')) | None \<Rightarrow> slift (Err e)) (secret_of d rnd tag fin))
      ((case gcm_open C n (d @ rnd) tag (default_gcm_enum (rg_cipher c)) of
         Some d' \<Rightarrow> supd (secret_body_mut (\<lambda>_. Ok d')) | None \<Rightarrow> slift (Err e)) (secret_of d rnd tag fin))" for e
  proof (cases "gcm_open C n (d @ rnd) tag (default_gcm_enum (rg_cipher c))")
    case None
    then show ?thesis using ring_gcm_open_split [OF tag, of C n "d @ rnd" "rg_cipher c"] by simp
  next
    case (Some x)
    then have "length x = length d + 4" using gcm_open_length [OF ok Some] l by (simp add: tail_lens_def)
    then obtain d' rnd' where x: "x = d' @ rnd'" "length rnd' = 4" "length d' = length d"
      using split_last_n [of 4 x] by (metis add_diff_cancel_right' le_add2 length_append)
    have "secret_en_body_mut (\<lambda>_. Ok (x @ tag)) (secret_of d rnd tag fin) = Ok (secret_of d' rnd' tag fin)"
      unfolding secret_en_body_mut_def secret_of_def
      using st_prefix_mut_split [of fin 0 "fin \<noteq> []" "\<lambda>_. Ok (x @ tag)" "d @ rnd @ tag" "x @ tag"]
        x l tail_lens_flen [OF l] by (simp add: tail_lens_def)
    moreover have "secret_body_mut (\<lambda>_. Ok x) (secret_of d rnd tag fin) = Ok (secret_of d' rnd' tag fin)"
      using secret_writes(1) [OF l, where d' = d' and rnd' = rnd' and x = x] x by simp
    ultimately show ?thesis
      using Some ring_gcm_open_split [OF tag, of C n "d @ rnd" "rg_cipher c"] by (simp add: supd_ok)
  qed
  show ?thesis
    unfolding ring_gcm_open_body_def gcm_open_body_def sbind_sget(1) [where f = secret_tag, OF views(2)] default_sel
    by (rule agree_sbind [OF agree_finger]) (auto dest!: demand_finger_state simp: sbind_sget views opened)
qed

lemma ring_gcm_decrypt_agrees:
  assumes "aead_ok C"
  shows "agree (ring_gcm_decrypt C c p) (gcm_decrypt C (default_gcm c) p)"
proof -
  have "agree (np_with_body (\<lambda>b. secret_new b f) (ring_gcm_open_body C c n) q)
      (np_with_body (\<lambda>b. secret_new b f) (gcm_open_body C (default_gcm c) n) q)" for f n q
    by (rule agree_with_body) (auto elim!: secret_new_split intro!: ring_gcm_open_body_agrees assms)
  then show ?thesis
    unfolding ring_gcm_decrypt_def gcm_decrypt_def default_sel
    by (auto intro!: agree_sbind_same agree_sbind)
qed

text \<open>A tag of the wrong length is refused by \<open>set_tag\<close> where the default back end does not look.\<close>

lemma secret_set_tag_short: "length v \<noteq> 16 \<Longrightarrow> secret_set_tag v t = Err (IoError InvalidData)"
  by (simp add: secret_set_tag_def st_set_checked_def)

lemma ring_gcm_seal_body_agrees:
  "agree (ring_gcm_seal_body C c n w t) (gcm_seal_body C (default_gcm c) n w t)"
proof -
  have tagged: "agree (Err e, u) (sbind (supd (secret_set_tag tag)) m u)" if "length tag \<noteq> 16"
    for tag e u and m :: "unit \<Rightarrow> (secret_tail, unit) action"
    using that by (simp add: supd_def sbind_def secret_set_tag_short)
  show ?thesis
    unfolding ring_gcm_seal_body_def gcm_seal_body_def default_sel ring_gcm_seal_default
    by (auto intro!: agree_sbind_same tagged simp del: not_None_eq split: option.split)
qed

text \<open>Without the 32 octets of room the default back end refuses, and this one fails to grow the packet.\<close>

lemma ring_gcm_encrypt_agrees:
  assumes "np_wf p"
  shows "agree (ring_gcm_encrypt C c w p) (gcm_encrypt C (default_gcm c) w p)"
proof -
  obtain h pl r where p: "length h = 12" "p = frame h pl r" using assms np_wf_frame_iff by blast
  have room: "np_reserve p = Ok (length r)" using p by (simp add: np_reserve_def)
  have sealed: "agree (sbind (np_with_body new (ring_gcm_seal_body C c n w)) k q)
      (sbind (np_with_body new (gcm_seal_body C (default_gcm c) n w)) k q)" for new n q
    and k :: "unit \<Rightarrow> (net_packet, unit) action"
    by (auto intro!: agree_sbind agree_with_body ring_gcm_seal_body_agrees)
  show ?thesis
  proof (cases "length r < 32")
    case True
    then have "np_set_data_len (np_data_len p + 32) p = Err (IoError InvalidData)"
      using p by (simp add: np_set_data_len_def)
    then show ?thesis using True p room
      by (simp add: ring_gcm_encrypt_def gcm_encrypt_def sbind_sget reserved_defs frame_head_tag sbind_supd)
  next
    case False
    then show ?thesis using room
      by (auto simp: ring_gcm_encrypt_def gcm_encrypt_def sbind_sget(1) [where f = np_reserve, OF room] reserved_defs
          simp del: not_None_eq intro!: agree_sbind_same sealed)
  qed
qed

lemma ring_chachapoly_open_body_agrees:
  assumes ok: "aead_ok C" and l: "tail_lens tag rnd fin"
  shows "agree (ring_chachapoly_open_body C c n (aead_of d tag rnd fin))
    (chachapoly_open_body C (default_chachapoly c) n (aead_of d tag rnd fin))"
proof -
  note views = aead_views [OF l]
  have tag: "length tag = 16" using l by (simp add: tail_lens_def)
  have opened: "agree ((case open_in_place (c_open C ChaChaPoly k nonce) (d @ tag) of
         Some d' \<Rightarrow> sbind (supd (aead_data_tag_mut (\<lambda>_. Ok d'))) m | None \<Rightarrow> slift (Err e)) (aead_of d tag rnd fin))
      ((case c_open C ChaChaPoly k nonce d tag of
         Some d' \<Rightarrow> sbind (supd (aead_data_mut (\<lambda>_. Ok d'))) m | None \<Rightarrow> slift (Err e')) (aead_of d tag rnd fin))"
    for k nonce e e' and m :: "unit \<Rightarrow> (secret_tail, nat) action"
  proof (cases "c_open C ChaChaPoly k nonce d tag")
    case None
    then show ?thesis using tag by (simp add: open_in_place_def)
  next
    case (Some x)
    then have len: "length x = length d" using ok by (simp add: aead_ok_def)
    then have "aead_data_tag_mut (\<lambda>_. Ok (x @ tag)) (aead_of d tag rnd fin) = Ok (aead_of x tag rnd fin)"
      unfolding aead_data_tag_mut_def aead_of_def
      using st_prefix_mut_split [of "rnd @ fin" RANDOM_RESERVED "fin \<noteq> []" "\<lambda>_. Ok (x @ tag)" "d @ tag" "x @ tag"]
        l tail_lens_flen [OF l] by (simp add: tail_lens_def reserved_defs)
    then show ?thesis
      using Some tag len aead_writes(1) [OF l, where f = "\<lambda>_. Ok x" and d' = x and d = d]
      by (simp add: open_in_place_def sbind_supd)
  qed
  have nonce: "agree (sbind (slift v) (f :: bytes \<Rightarrow> (secret_tail, nat) action) t) (sbind (slift v) g t)"
    if "\<And>x. agree (f x t) (g x t)" for v f g t
    using that by (intro agree_sbind_same) auto
  show ?thesis
    unfolding ring_chachapoly_open_body_def chachapoly_open_body_def default_sel
    by (rule agree_sbind [OF agree_finger])
      (auto dest!: demand_finger_state simp: sbind_sget views intro!: nonce opened)
qed

lemma ring_chachapoly_decrypt_agrees:
  assumes "aead_ok C"
  shows "agree (ring_chachapoly_decrypt C c p) (chachapoly_decrypt C (default_chachapoly c) p)"
proof -
  have "agree (np_with_body (\<lambda>b. aead_new b f) (ring_chachapoly_open_body C c n) q)
      (np_with_body (\<lambda>b. aead_new b f) (chachapoly_open_body C (default_chachapoly c) n) q)" for f n q
    by (rule agree_with_body) (auto elim!: aead_new_split intro!: ring_chachapoly_open_body_agrees assms)
  then show ?thesis
    unfolding ring_chachapoly_decrypt_def chachapoly_decrypt_def default_sel
    by (auto intro!: agree_sbind_same agree_sbind)
qed

lemma ring_chachapoly_encrypt_agrees:
  "agree (ring_chachapoly_encrypt C c w p) (chachapoly_encrypt C (default_chachapoly c) w p)"
proof -
  have "agree (ring_chachapoly_seal_body C c n w t) (chachapoly_seal_body C (default_chachapoly c) n w t)" for n t
    unfolding ring_chachapoly_seal_body_def chachapoly_seal_body_def default_sel
    by (auto intro!: agree_sbind_same simp del: not_None_eq split: option.split prod.split)
  then show ?thesis
    unfolding ring_chachapoly_encrypt_def chachapoly_encrypt_def default_sel
    by (auto intro!: agree_sbind_same agree_sbind agree_with_body)
qed

text \<open>C28: The back ends on \<open>ring\<close> are interchangeable with the default ones: given the same key, finger and
random word they turn every packet into the same packet, or both refuse it.\<close>

theorem ring_back_ends_agree:
  assumes "aead_ok C" and "np_wf p"
  shows "agree (ring_gcm_encrypt C c w p) (gcm_encrypt C (default_gcm c) w p) \<and>
    agree (ring_gcm_decrypt C c p) (gcm_decrypt C (default_gcm c) p) \<and>
    agree (ring_chachapoly_encrypt C k w p) (chachapoly_encrypt C (default_chachapoly k) w p) \<and>
    agree (ring_chachapoly_decrypt C k p) (chachapoly_decrypt C (default_chachapoly k) p)"
  using assms by (simp add: ring_gcm_encrypt_agrees ring_gcm_decrypt_agrees ring_chachapoly_encrypt_agrees
      ring_chachapoly_decrypt_agrees)

lemma ring_back_ends_agree_witness:
  "agree (ring_gcm_encrypt toy_crypto (ring_gcm_new_128 [1, 2] None) 7 sample_packet)
     (gcm_encrypt toy_crypto (gcm_new_128 [1, 2] None) 7 sample_packet)"
proof -
  have "aead_ok toy_crypto" using toy_crypto_ok by (simp add: crypto_ok_def)
  then show ?thesis
    using ring_back_ends_agree [where C = toy_crypto and p = sample_packet and c = "ring_gcm_new_128 [1, 2] None"
        and w = 7 and k = "ring_chachapoly_new [1] None"] sample_facts(5)
    by (simp add: default_gcm_def ring_gcm_new_128_def gcm_new_128_def)
qed

end
