(* ===== verification/Hook_Script.thy ===== *)
theory Hook_Script
  imports Callbacks Address_Text
begin

text \<open>
  How the hook of a \<open>hook_info\<close> is run (\<open>run_hook\<close> of \<open>vnt/src/util/hook.rs\<close>, not on Windows): the command and the
  environment it gets; the process number and the time in milliseconds are arguments. Starting the process is
  left to the operating system.
\<close>

definition hook_command :: "hook_info \<Rightarrow> string list" where
  "hook_command info = [''sh'', ''-c'', ''{'' @ CHR 0x0A # hk_script info @ CHR 0x0A # ''} >/dev/null 2>&1 &'']"

definition text_or_empty :: "('a \<Rightarrow> string) \<Rightarrow> 'a option \<Rightarrow> string" where
  "text_or_empty f v = (case v of None \<Rightarrow> [] | Some x \<Rightarrow> f x)"

definition hook_env :: "nat \<Rightarrow> u64 \<Rightarrow> hook_info \<Rightarrow> (string \<times> string) list" where
  "hook_env pid now info =
     [(''VNT_HOOK_EVENT'', hk_event info), (''VNT_HOOK_STATUS'', hk_event info),
      (''VNT_HOOK_PROTOCOL'', text_or_empty id (hk_protocol info)),
      (''VNT_HOOK_LOCAL_PORT'', text_or_empty (show_nat \<circ> unat) (hk_local_port info)),
      (''VNT_HOOK_OLD_LOCAL_PORT'', text_or_empty (show_nat \<circ> unat) (hk_old_local_port info)),
      (''VNT_HOOK_REMOTE_ADDR'', text_or_empty show_socket (hk_remote_addr info)),
      (''VNT_HOOK_TUN_NAME'', text_or_empty id (hk_tun_name info)),
      (''VNT_HOOK_DEVICE_NAME'', text_or_empty id (hk_device_name info)),
      (''VNT_HOOK_DEVICE_ID'', text_or_empty id (hk_device_id info)),
      (''VNT_HOOK_VIRTUAL_IP'', text_or_empty show_ipv4 (hk_virtual_ip info)),
      (''VNT_HOOK_SERVER_ADDR'', text_or_empty id (hk_server_addr info)),
      (''VNT_HOOK_RECONNECT_COUNT'', text_or_empty show_nat (hk_reconnect_count info)),
      (''VNT_HOOK_REASON'', text_or_empty id (hk_reason info)),
      (''VNT_HOOK_PID'', show_nat pid),
      (''VNT_HOOK_TIMESTAMP'', show_nat (unat (now div 1000)))]"

lemma hook_env_distinct: "distinct (map fst (hook_env pid now info))"
  by (simp add: hook_env_def)

text \<open>A script can read back the virtual address and the ports; what was not set is an empty text, which no
  address or port has.\<close>

lemma hook_env_virtual_ip:
  "Option.bind (map_of (hook_env pid now info) ''VNT_HOOK_VIRTUAL_IP'') parse_ipv4 = hk_virtual_ip info"
proof -
  have "parse_ipv4 [] = None" by (simp add: parse_ipv4_def parse_octet_def parse_nat_def)
  then show ?thesis by (simp add: hook_env_def text_or_empty_def parse_show_ipv4 split: option.split)
qed

lemma hook_env_ports:
  "Option.bind (map_of (hook_env pid now info) ''VNT_HOOK_LOCAL_PORT'') parse_nat = map_option unat (hk_local_port info)"
  "Option.bind (map_of (hook_env pid now info) ''VNT_HOOK_OLD_LOCAL_PORT'') parse_nat = map_option unat (hk_old_local_port info)"
proof -
  have "parse_nat [] = None" by (simp add: parse_nat_def)
  then show
    "Option.bind (map_of (hook_env pid now info) ''VNT_HOOK_LOCAL_PORT'') parse_nat = map_option unat (hk_local_port info)"
    "Option.bind (map_of (hook_env pid now info) ''VNT_HOOK_OLD_LOCAL_PORT'') parse_nat = map_option unat (hk_old_local_port info)"
    by (simp_all add: hook_env_def text_or_empty_def split: option.split)
qed

lemma hook_new_script: "hook_info_new script event = Some info \<Longrightarrow> hk_script info \<noteq> [] \<and> script = Some (hk_script info)"
  by (auto simp: hook_info_new_def split: option.splits if_splits)

end
