(* ===== verification/Link_Mapping.thy ===== *)
theory Link_Mapping
  imports Proxy_Tasks Args_Parse Punching "HOL-Library.Sublist"
begin

text \<open>
  The mappings of \<open>vn-link\<close> (\<open>vn-link/src/in_mapping/\<close>, \<open>vn-link/src/out_mapping/\<close>), which connect local programs with
  the virtual network through a user-space stack. One map, of pairs of the stack's source and destination, holds
  both the local clients of a mapping and the sockets opened for what comes from the network. The stack and
  the sockets answer through arguments; copying the octets of a TCP connection is left to the runtime.

  The theorems: what answers a local client reaches it; two clients with one port on two hosts do not both get
  theirs.
\<close>

section \<open>State\<close>

text \<open>A socket of its own, or that of a mapping with the address of the client.\<close>

datatype link_socket = PeerSocket nat | MappingSocket nat

record link_entry =
  le_socket :: link_socket
  le_addr :: "socket_addr option"
  le_time :: nanos

record link_state =
  lk_map :: "socket_addr \<times> socket_addr \<Rightarrow> link_entry option"
  lk_peers :: "(socket_addr \<times> socket_addr \<times> socket_addr) list"
  lk_sent :: "(link_socket \<times> socket_addr option \<times> bytes) list"
  lk_stack :: "(socket_addr \<times> socket_addr \<times> bytes) list"

definition is_sock_ip :: "ipv4_addr \<Rightarrow> socket_addr \<Rightarrow> bool" where
  "is_sock_ip v a \<longleftrightarrow> (case a of SockV4 ip port \<Rightarrow> ip = v | _ \<Rightarrow> False)"

section \<open>Into the network\<close>

text \<open>What a mapping lets through: a network was joined, and the destination is not this node.\<close>

definition link_open :: "current_device_info \<Rightarrow> socket_addr \<Rightarrow> bool" where
  "link_open dev dest \<longleftrightarrow> \<not> is_unspecified (cd_virtual_ip dev) \<and> \<not> is_sock_ip (cd_virtual_ip dev) dest"

definition link_src :: "current_device_info \<Rightarrow> socket_addr \<Rightarrow> socket_addr" where
  "link_src dev addr = SockV4 (cd_virtual_ip dev) (sock_port addr)"

text \<open>One datagram of a local client; \<open>stack\<close> is whether the stack takes it.\<close>

definition link_in_udp :: "bool \<Rightarrow> nanos \<Rightarrow> current_device_info \<Rightarrow> nat \<Rightarrow> socket_addr \<Rightarrow> socket_addr \<Rightarrow> bytes \<Rightarrow>
    link_state \<Rightarrow> link_state" where
  "link_in_udp stack now dev i dest addr buf st =
     (if link_open dev dest then
        let src = link_src dev addr;
            st = st\<lparr>lk_map := (lk_map st)((dest, src) \<mapsto> \<lparr>le_socket = MappingSocket i, le_addr = Some addr, le_time = now\<rparr>)\<rparr>
        in if stack then st\<lparr>lk_stack := lk_stack st @ [(src, dest, buf)]\<rparr> else st
      else st)"

definition link_in_tcp :: "current_device_info \<Rightarrow> socket_addr \<Rightarrow> socket_addr \<Rightarrow> (socket_addr \<times> socket_addr) option" where
  "link_in_tcp dev dest addr = (if link_open dev dest then Some (link_src dev addr, dest) else None)"

section \<open>Out of the network\<close>

text \<open>What is for this node, or for all, goes to the local host.\<close>

definition link_real_dest :: "current_device_info \<Rightarrow> socket_addr \<Rightarrow> socket_addr" where
  "link_real_dest dev dest = (case dest of
       SockV4 ip port \<Rightarrow>
         if is_unspecified ip \<or> is_broadcast ip \<or> is_multicast ip \<or> ip = cd_virtual_ip dev \<or> ip = cd_broadcast_ip dev
         then SockV4 0x7F000001 port else dest
     | _ \<Rightarrow> dest)"

definition link_out_udp :: "socket_env \<Rightarrow> current_device_info \<Rightarrow> bytes \<Rightarrow> socket_addr \<Rightarrow> socket_addr \<Rightarrow> (link_state, unit) action" where
  "link_out_udp E dev buf src dest st = (case lk_map st (src, dest) of
       Some e \<Rightarrow> sbind (slift (se_send E)) (\<lambda>_ st. (Ok (), st\<lparr>lk_sent := lk_sent st @ [(le_socket e, le_addr e, buf)]\<rparr>))
         (st\<lparr>lk_map := (lk_map st)((src, dest) \<mapsto> e\<lparr>le_time := se_now E\<rparr>)\<rparr>)
     | None \<Rightarrow> sbind (slift (bind_either E)) (\<lambda>_. sbind (slift (se_connect E)) (\<lambda>_. sbind (slift (se_send E)) (\<lambda>_ st.
         let sock = PeerSocket (length (lk_peers st)) in
         (Ok (), st\<lparr>lk_peers := lk_peers st @ [(src, dest, link_real_dest dev dest)], lk_sent := lk_sent st @ [(sock, None, buf)],
            lk_map := (lk_map st)((src, dest) \<mapsto> \<lparr>le_socket = sock, le_addr = None, le_time = se_now E\<rparr>)\<rparr>)))) st)"

text \<open>The task of a socket; \<open>time\<close> is when its pair was last used. When the task ends it takes the pair out of the map.\<close>

definition link_peer_event :: "nat \<Rightarrow> nanos \<Rightarrow> peer_event \<Rightarrow> link_state \<Rightarrow> link_state" where
  "link_peer_event i time ev st = (case lk_peers st ! i of (src, dest, real) \<Rightarrow>
     let gone = st\<lparr>lk_map := (lk_map st)((src, dest) := None)\<rparr> in
     (case ev of
        PeerData buf sent \<Rightarrow> (case sent of Ok _ \<Rightarrow> st\<lparr>lk_stack := lk_stack st @ [(dest, src, buf)]\<rparr> | _ \<Rightarrow> gone)
      | PeerError \<Rightarrow> gone
      | PeerTimeout now \<Rightarrow> if 580 * 10 ^ 9 < now - time then gone else st))"

text \<open>A connection of the network: to where it is continued. One from a port to itself is refused.\<close>

definition link_out_tcp :: "socket_env \<Rightarrow> current_device_info \<Rightarrow> u16 \<Rightarrow> socket_addr \<Rightarrow> socket_addr outcome" where
  "link_out_tcp E dev local_port dest = obind (se_connect E) (\<lambda>_.
     if sock_port (link_real_dest dev dest) = local_port then Err (AnyError ''tcp port loop'')
     else Ok (link_real_dest dev dest))"

section \<open>The stack and the mappings\<close>

text \<open>A packet of the stack is sent by the node, behind the octets it keeps free for the header.\<close>

definition link_stack_turn :: "node_env \<Rightarrow> node_config \<Rightarrow> bytes \<Rightarrow> nat \<Rightarrow> nat \<Rightarrow> unit node_action" where
  "link_stack_turn env cfg buf start_index data_len n = (case obind (slice buf start_index data_len) ipv4_new of
       Ok p \<Rightarrow> sbind (slift (ipv4_destination_ip p)) (\<lambda>dest. logged (send_ip env cfg buf data_len dest)) n
     | Err e \<Rightarrow> (Ok (), n)
     | Panic \<Rightarrow> (Panic, n))"

text \<open>\<open>add_mapping\<close>: the mappings that were started so far stay when a later one fails.\<close>

fun link_add_mapping :: "bool \<Rightarrow> (link_item \<Rightarrow> unit outcome) \<Rightarrow> link_item list \<Rightarrow> (link_item list, unit) action" where
  "link_add_mapping stopped bound [] started = (Ok (), started)"
| "link_add_mapping stopped bound (item # items) started =
     (if sock_unspecified (li_dest item) then (Err (AnyError ''dest_address is_unspecified''), started)
      else if stopped then (Err (AnyError ''mapping stop''), started)
      else case bound item of
          Ok _ \<Rightarrow> link_add_mapping stopped bound items (started @ [item])
        | Err e \<Rightarrow> (Err e, started)
        | Panic \<Rightarrow> (Panic, started))"

lemma link_add_mapping_started:
  assumes "link_add_mapping stopped bound items started = (r, started')"
  shows "\<exists>done. prefix done items \<and> started' = started @ done \<and> (r = Ok () \<longrightarrow> done = items) \<and>
    list_all (\<lambda>x. \<not> stopped \<and> \<not> sock_unspecified (li_dest x)) done"
  using assms
proof (induction stopped bound items started rule: link_add_mapping.induct)
  case (2 stopped bound item items started)
  show ?case
  proof (cases "\<not> sock_unspecified (li_dest item) \<and> \<not> stopped \<and> bound item = Ok ()")
    case True
    then obtain d where "prefix d items" "started' = (started @ [item]) @ d" "r = Ok () \<longrightarrow> d = items"
        "list_all (\<lambda>x. \<not> stopped \<and> \<not> sock_unspecified (li_dest x)) d"
      using 2 by auto
    then show ?thesis using True by (intro exI [of _ "item # d"]) simp
  next
    case False
    then show ?thesis using 2(2) by (intro exI [of _ "[]"]) (auto split: if_splits outcome.splits)
  qed
qed simp

section \<open>There and back\<close>

text \<open>What the destination of a mapping answers reaches the client that sent last.\<close>

theorem link_udp_roundtrip:
  assumes "link_open dev dest" and "se_send E = Ok ()"
  shows "\<exists>st''. link_out_udp E dev' answer dest (link_src dev addr) (link_in_udp stack now dev i dest addr buf st) = (Ok (), st'') \<and>
    lk_sent st'' = lk_sent st @ [(MappingSocket i, Some addr, answer)]"
  using assms by (simp add: link_in_udp_def link_out_udp_def sbind_def slift_def Let_def)

text \<open>Clients on two hosts with one port share the pair of the mapping: all answers go to the one that sent last. (The
  configuration takes only a loopback address for such a mapping; \<open>add_mapping\<close> takes any.)\<close>

theorem link_client_lost:
  assumes "link_open dev dest" and "sock_port a = sock_port b" and "se_send E = Ok ()"
  shows "\<exists>st''. link_out_udp E dev' answer dest (link_src dev a)
      (link_in_udp sb nb dev i dest b bb (link_in_udp sa na dev i dest a ba st)) = (Ok (), st'') \<and>
    lk_sent st'' = lk_sent st @ [(MappingSocket i, Some b, answer)]"
proof -
  have "link_src dev a = link_src dev b" using assms(2) by (simp add: link_src_def)
  moreover have "lk_sent (link_in_udp sa na dev i dest a ba st) = lk_sent st" by (simp add: link_in_udp_def Let_def)
  ultimately show ?thesis
    using link_udp_roundtrip [OF assms(1,3), where stack = sb and now = nb and i = i and addr = b and buf = bb
        and st = "link_in_udp sa na dev i dest a ba st" and dev' = dev' and answer = answer] by simp
qed

text \<open>A datagram that nobody waits for opens a socket, and what comes back on it returns to its sender.\<close>

theorem link_out_answered:
  assumes "lk_map st (src, dest) = None" and "bind_either E = Ok ()" and "se_connect E = Ok ()" and "se_send E = Ok ()"
  shows "\<exists>st'. link_out_udp E dev buf src dest st = (Ok (), st') \<and>
    lk_peers st' ! length (lk_peers st) = (src, dest, link_real_dest dev dest) \<and>
    lk_stack (link_peer_event (length (lk_peers st)) t (PeerData answer (Ok ())) st') = lk_stack st @ [(dest, src, answer)]"
  using assms by (simp add: link_out_udp_def link_peer_event_def sbind_def slift_def Let_def)

end
