(* ===== verification/Spec2Isabelle.thy ===== *)
theory Spec2Isabelle
  imports Pings Tun_Handler Node_Run Stop_Manager Scheduler Igmp_Packet Link_Packets Console_Out Ring_Ciphers
    Hook_Script Link_Mapping
begin

text \<open>
  Verification of the VNT client (\<open>vnt/src\<close>, with its packet library \<open>vnt/packet/src\<close>): a virtual private
  network whose nodes register with a server, exchange encrypted IPv4 packets over routes of several
  kinds (UDP, TCP and WebSocket channels to the server, to other nodes directly, or through other nodes
  as relays), and open direct routes by punching through NAT.

  \<^bold>\<open>How the code is translated.\<close> A function of the code is a HOL function of the same name, with a prefix
  where the name is taken (\<open>np_\<close> for \<open>NetPacket\<close>, \<open>rt_\<close> for \<open>RouteTable\<close>, \<open>ipv4_\<close>, \<open>udp_\<close>, \<open>tcp_\<close>, \<open>icmp_\<close>
  for the packet library, \<open>nt_\<close> and \<open>ni_\<close> for \<open>NatTest\<close> and \<open>NatInfo\<close>). Its value is an \<open>outcome\<close>: \<open>Ok\<close>, an
  \<open>Err\<close> with its error, or \<open>Panic\<close> for an index, slice, subtraction or \<open>unwrap\<close> out of range. What it
  changes it returns: an \<open>action\<close> maps a state to an outcome and the state it leaves, also where it fails.
  Buffers are lists of octets (\<open>8 word\<close>), integers are words of their width, durations and instants are
  nanoseconds. The clock, random numbers, the answers of sockets and of the operating system are
  arguments: an environment gives them for each use, and the theorems hold for every environment. What
  is sent, handed to the interface or told to the host is logged in the state.

  \<^bold>\<open>Vnt_Prelude\<close> holds that vocabulary with its collections of rules. The components, from the bottom:

  \<^item> Packet library (\<open>vnt/packet/src\<close>): \<open>Inet_Checksum\<close> (\<open>lib.rs\<close>), \<open>Ipv4_Packet\<close> (\<open>ip/ipv4/packet.rs\<close>),
    \<open>Transport_Packets\<close> (\<open>udp\<close>, \<open>tcp\<close>), \<open>Icmp_Packet\<close> (\<open>icmp\<close>), \<open>Igmp_Packet\<close> (\<open>igmp\<close>) and \<open>Link_Packets\<close> (\<open>ethernet\<close>,
    \<open>arp\<close>). The lemmas tie the checksum to a sum of big-endian words and give validity after
    \<open>update_checksum\<close>, detection of a changed word, and the effect of each setter.
  \<^item> The datagram (\<open>protocol/\<close>): \<open>Net_Packet\<close> (the 12-octet header, refined to a record of its fields),
    \<open>Protocol_Packets\<close> (codes, control, error and broadcast payloads), \<open>Secret_Body\<close> (layouts of an
    encrypted payload), \<open>Extension_Tail\<close> and \<open>Compression\<close> (\<open>compression/\<close>, \<open>handle/extension\<close>).
  \<^item> Ciphers (\<open>cipher/\<close>): \<open>Finger\<close> (the keyed hash and the nonce), the locale \<open>packet_cipher\<close> of
    \<open>Cipher_Interface\<close>, its interpretations in \<open>Aead_Ciphers\<close>, \<open>Block_Ciphers\<close> and \<open>Xor_Cipher\<close>, and the
    choice of a cipher in \<open>Cipher_Dispatch\<close>. \<open>Ring_Ciphers\<close> has the two back ends on the \<open>ring\<close> crate, which agree
    with the default ones. The crates behind them are a parameter \<open>crypto\<close>; what is
    relied on is \<open>crypto_ok\<close>: lengths, and that decryption undoes encryption.
  \<^item> Channels (\<open>channel/\<close>): \<open>Channel_Types\<close>, \<open>Route_Table\<close> and \<open>Channel_Context\<close> (\<open>context.rs\<close>, \<open>sender.rs\<close>),
    with \<open>Limits\<close> (\<open>util/limit\<close>, the locale of a meter) and \<open>External_Route\<close> (\<open>external_route/\<close>). The
    route table keeps its invariant over every interleaving of its operations, the two lock sections
    of an addition apart.
  \<^item> Peers and NAT: \<open>Device_Info\<close> (\<open>handle/mod.rs\<close>), \<open>Nat_Info\<close> and \<open>Stun\<close> (\<open>nat/\<close>, parts of
    \<open>channel/punch.rs\<close>), \<open>Callbacks\<close> (\<open>handle/callback.rs\<close>, \<open>util/hook.rs\<close>), \<open>Proto_Messages\<close> (the messages of
    \<open>proto/message.proto\<close>; the generated encoder is a parameter), \<open>Registration\<close> (\<open>handle/handshaker.rs\<close>,
    \<open>registrar.rs\<close>, \<open>cipher/rsa_cipher.rs\<close>), \<open>Ip_Proxy\<close> (\<open>ip_proxy/\<close>), \<open>Hook_Script\<close> (\<open>util/hook.rs\<close>) and \<open>Dns_Query\<close> (\<open>util/dns_query.rs\<close>),
    over the string functions of \<open>Ascii_Text\<close>.
  \<^item> A running node: \<open>Node\<close> puts the state of all of them in one record; \<open>Ip_Sender\<close> (\<open>channel/sender.rs\<close>)
    and \<open>Tun_Handler\<close> (\<open>handle/tun_tap/tun_handler.rs\<close>) send; \<open>Recv_Dispatch\<close>, \<open>Turn_Handler\<close>,
    \<open>Client_Handler\<close> and \<open>Server_Handler\<close> (\<open>handle/recv_data/\<close>) receive; \<open>Punching\<close>, \<open>Maintenance\<close> and
    \<open>Gateway_Link\<close> (\<open>channel/punch.rs\<close>, \<open>channel/idle.rs\<close>, \<open>handle/maintain/\<close>) are its timed tasks;
    \<open>Vnt_Core\<close> (\<open>core/\<close>, \<open>channel/mod.rs\<close>) builds it from its configuration. \<open>Proxy_Tasks\<close> has what runs behind
    the proxies (\<open>ip_proxy/\<close>) and port mappings (\<open>port_mapping/\<close>), with the sessions of the UDP proxy as a step
    relation. \<open>Tunnel\<close> and \<open>Pings\<close> put the sending and the receiving side together.
  \<^item> What feeds it: \<open>Udp_Channel\<close> (\<open>channel/udp_channel.rs\<close>, \<open>notify.rs\<close>) reads the sockets a poll finds ready, and
    \<open>Stream_Channels\<close> (\<open>tcp_channel.rs\<close>, \<open>ws_channel.rs\<close>) the frames and messages of connections; both take the
    handler as a parameter, as the code does. \<open>Stop_Manager\<close> (\<open>util/notify.rs\<close>) and \<open>Scheduler\<close>
    (\<open>util/scheduler.rs\<close>) are step relations over their locks and atomics, with every interleaving.
  \<^item> What a user has to do with it (\<open>common/src\<close>, \<open>vn-link/src\<close>): \<open>Address_Text\<close> (texts of numbers and addresses),
    \<open>Args_Parse\<close> (\<open>args_parse.rs\<close>, the parsers of mappings) and \<open>Configuration\<close> (\<open>cli.rs\<close>, \<open>config/\<close>) lead from options
    or a file to the configuration; \<open>Node_Queries\<close> (the getters and \<open>stop\<close> of \<open>core/conn.rs\<close>), \<open>Commands\<close> (\<open>command/\<close>)
    and \<open>Console_Out\<close> (\<open>console_out/\<close>) show a running node. \<open>Link_Mapping\<close> has the mappings of \<open>vn-link\<close>. The lemmas
    compare the two ways to configure a node, follow each command to its answer, and read texts back.
  \<^item> \<open>Node_Invariant\<close> lists, as a locale, the elementary changes the code makes to a node and derives from
    them that every handler and task keeps a predicate; \<open>Node_Run\<close> has the step relation of a started
    node and interprets the locale for the types of the state and for the settings that never change.

  \<^bold>\<open>Bounds.\<close> No definition runs on fuel: loops of the code are recursion on a list, on the octets left
  or on a counter the code itself bounds (the retries of \<open>send_by_id\<close>, the attempts of a lookup, the two
  rounds of the NAT test, the ten redirections). Loops that run for ever in the code (the tasks and the
  threads that read sockets) are steps of \<open>node_step\<close>, one turn each.

  \<^bold>\<open>Assumptions.\<close> A hash map is read in an order the environment chooses. Threads interleave between
  events of a node, and inside an addition to the route table; an event itself is not interrupted.
  The default features of the crates and Linux are assumed where the code is compiled conditionally.

  \<^bold>\<open>Not modelled.\<close> The asynchronous runtimes, the binding of sockets (\<open>channel/socket\<close>), the device and its platform
  code (\<open>tun_tap_device/\<close>, \<open>handle/tun_tap/platform.rs\<close>), UPnP, the C interface of \<open>ios_ffi.rs\<close>, the executables and
  their build scripts are operating-system calls, raw pointers and glue. The generated protobuf code, the
  cryptographic crates, the compressors, the parsing of STUN messages, YAML, the option grammar, the user-space stack of
  \<open>vn-link\<close> and the arithmetic of floating-point numbers are parameters. The AES-ECB back end on openssl writes through raw
  pointers with a context that keeps data between calls. Of the IP protocol numbers (\<open>ip/ipv4/protocol.rs\<close>) only those
  the program distinguishes have constructors of their own: a datatype of all 146 takes minutes to define.
  Display output of the values handed to the host and starting the hook process are left out.
\<close>

end
